(* ===== verification/Prelude.thy ===== *)
theory Prelude
  imports Main "HOL-Library.AList" "HOL-Library.Multiset" "HOL-Library.Word"
begin

text \<open>
  What the component theories share: Go's maps, strings and contexts as HOL data, the
  contracts (locales) that several components meet, and the proof hints they use.
  Everything here models the Go language or its standard library, or is a generic lemma;
  no definition of this theory stands for a particular line of the repository.
\<close>

named_theorems go_map "lookup equations of the Go map operations"
named_theorems go_str "equations of the Go string functions"

subsection \<open>Errors, identifiers, contexts\<close>

type_synonym err = string
type_synonym 'a res = "err + 'a"

text \<open>A uuid is compared and copied, never computed with. A fresh one is an argument of the
  operation that calls \<open>uuid.New\<close>, which is code of another package.\<close>

type_synonym uuid = nat

text \<open>
  A \<open>context.Context\<close> as an operation sees it: the background context never ends; a
  cancellable one carries what \<open>Err()\<close> returns while the operation runs (\<open>None\<close> for nil).
  A nil context is \<open>None\<close> of type \<open>goctx option\<close>.
\<close>

datatype goctx = Background | Cancellable "err option"

fun ctxErr :: "goctx \<Rightarrow> err option" where
  "ctxErr Background = None"
| "ctxErr (Cancellable e) = e"

text \<open>\<open>ctx.Done() != nil\<close>\<close>

fun ctxHasDone :: "goctx \<Rightarrow> bool" where
  "ctxHasDone Background = False"
| "ctxHasDone (Cancellable e) = True"

definition orBackground :: "goctx option \<Rightarrow> goctx" where
  "orBackground c = (case c of None \<Rightarrow> Background | Some x \<Rightarrow> x)"

lemma orBackground_simps [simp]:
  "orBackground None = Background" "orBackground (Some x) = x"
  by (simp_all add: orBackground_def)

subsection \<open>Go maps\<close>

text \<open>
  A map that the code ranges over is an association list with distinct keys: the list order
  stands for the one order the runtime happens to pick, so a result that depends on it is
  stated up to sets or multisets.
\<close>

type_synonym ('k, 'v) gomap = "('k \<times> 'v) list"

definition gm_empty :: "('k, 'v) gomap" where "gm_empty = []"

definition gm_get :: "('k, 'v) gomap \<Rightarrow> 'k \<Rightarrow> 'v option" where
  "gm_get m k = map_of m k"

definition gm_set :: "'k \<Rightarrow> 'v \<Rightarrow> ('k, 'v) gomap \<Rightarrow> ('k, 'v) gomap" where
  "gm_set k v m = AList.update k v m"

definition gm_del :: "'k \<Rightarrow> ('k, 'v) gomap \<Rightarrow> ('k, 'v) gomap" where
  "gm_del k m = filter (\<lambda>p. fst p \<noteq> k) m"

definition gm_keys :: "('k, 'v) gomap \<Rightarrow> 'k list" where "gm_keys m = map fst m"

definition gm_vals :: "('k, 'v) gomap \<Rightarrow> 'v list" where "gm_vals m = map snd m"

definition gm_ok :: "('k, 'v) gomap \<Rightarrow> bool" where "gm_ok m = distinct (map fst m)"

lemma gm_get_empty [simp, go_map]: "gm_get gm_empty k = None"
  by (simp add: gm_get_def gm_empty_def)

lemma gm_get_set [simp, go_map]: "gm_get (gm_set k v m) k' = (if k' = k then Some v else gm_get m k')"
  by (simp add: gm_get_def gm_set_def update_conv')

lemma gm_get_del [simp, go_map]: "gm_get (gm_del k m) k' = (if k' = k then None else gm_get m k')"
  by (induction m) (auto simp: gm_get_def gm_del_def)

lemma gm_ok_empty [simp]: "gm_ok gm_empty"
  by (simp add: gm_ok_def gm_empty_def)

lemma gm_ok_set [simp]: "gm_ok m \<Longrightarrow> gm_ok (gm_set k v m)"
  by (simp add: gm_ok_def gm_set_def distinct_update)

lemma gm_ok_del [simp]: "gm_ok m \<Longrightarrow> gm_ok (gm_del k m)"
  by (simp add: gm_ok_def gm_del_def distinct_map_filter)

lemma gm_get_Some_iff: "gm_ok m \<Longrightarrow> gm_get m k = Some v \<longleftrightarrow> (k, v) \<in> set m"
  by (simp add: gm_get_def gm_ok_def)

lemma gm_get_SomeD: "gm_get m k = Some v \<Longrightarrow> (k, v) \<in> set m"
  by (simp add: gm_get_def map_of_SomeD)

lemma gm_get_None_iff: "gm_get m k = None \<longleftrightarrow> k \<notin> set (gm_keys m)"
  by (simp add: gm_get_def gm_keys_def map_of_eq_None_iff)

lemma gm_keys_iff: "k \<in> set (gm_keys m) \<longleftrightarrow> gm_get m k \<noteq> None"
  by (simp add: gm_get_None_iff)

lemma set_gm_keys_set [simp]: "set (gm_keys (gm_set k v m)) = insert k (set (gm_keys m))"
  by (auto simp: gm_keys_iff split: if_splits)

lemma set_gm_keys_del [simp]: "set (gm_keys (gm_del k m)) = set (gm_keys m) - {k}"
  by (auto simp: gm_keys_iff split: if_splits)

lemma gm_del_absent: "gm_get m k = None \<Longrightarrow> gm_del k m = m"
  by (auto simp: gm_get_None_iff gm_keys_def gm_del_def filter_id_conv)

lemma gm_set_absent: "gm_get m k = None \<Longrightarrow> gm_set k v m = m @ [(k, v)]"
  by (induction m) (auto simp: gm_get_def gm_set_def split: if_splits)

lemma gm_del_subset: "set (gm_del k m) \<subseteq> set m"
  by (auto simp: gm_del_def)

lemma gm_set_subset: "set (gm_set k v m) \<subseteq> insert (k, v) (set m)"
  by (induction m) (auto simp: gm_set_def)

lemma gm_vals_get: "gm_ok m \<Longrightarrow> v \<in> set (gm_vals m) \<longleftrightarrow> (\<exists>k. gm_get m k = Some v)"
  by (force simp: gm_vals_def gm_get_Some_iff)

lemma gm_ok_map [simp]: "gm_ok (map (\<lambda>(k, v). (k, f k v)) m) = gm_ok m"
  by (simp add: gm_ok_def comp_def case_prod_beta)

lemma gm_get_map [simp]: "gm_get (map (\<lambda>(k, v). (k, f k v)) m) k = map_option (f k) (gm_get m k)"
  by (induction m) (auto simp: gm_get_def)

lemma gm_get_filter:
  "gm_ok m \<Longrightarrow> gm_get (filter (\<lambda>(k, v). P k v) m) k =
     (case gm_get m k of None \<Rightarrow> None | Some v \<Rightarrow> if P k v then Some v else None)"
  by (induction m) (auto simp: gm_get_def gm_ok_def map_of_eq_None_iff image_iff split: option.splits
      dest: map_of_SomeD)

lemma gm_ok_filter [simp]: "gm_ok m \<Longrightarrow> gm_ok (filter P m)"
  by (simp add: gm_ok_def distinct_map_filter)

subsection \<open>Contracts\<close>

text \<open>A component that keeps one value per key: what a lookup returns after an insert and
  after a removal, under the component's own invariant.\<close>

locale keyed_store =
  fixes look :: "'s \<Rightarrow> 'k \<Rightarrow> 'v option"
    and put :: "'k \<Rightarrow> 'v \<Rightarrow> 's \<Rightarrow> 's"
    and del :: "'k \<Rightarrow> 's \<Rightarrow> 's"
    and ok :: "'s \<Rightarrow> bool"
  assumes look_put: "ok s \<Longrightarrow> look (put k v s) k' = (if k' = k then Some v else look s k')"
    and look_del: "ok s \<Longrightarrow> look (del k s) k' = (if k' = k then None else look s k')"
    and ok_put: "ok s \<Longrightarrow> ok (put k v s)"
    and ok_del: "ok s \<Longrightarrow> ok (del k s)"
begin

lemma put_then_look: "ok s \<Longrightarrow> look (put k v s) k = Some v"
  by (simp add: look_put)

lemma last_put_wins: "ok s \<Longrightarrow> look (put k v (put k w s)) = look (put k v s)"
  by (rule ext) (simp add: look_put ok_put)

lemma del_undoes_put: "ok s \<Longrightarrow> look s k = None \<Longrightarrow> look (del k (put k v s)) = look s"
  by (rule ext) (simp add: look_put look_del ok_put)

lemma puts_commute: "ok s \<Longrightarrow> k \<noteq> k' \<Longrightarrow> look (put k v (put k' v' s)) = look (put k' v' (put k v s))"
  by (rule ext) (simp add: look_put ok_put)

lemma ok_puts: "ok s \<Longrightarrow> ok (foldl (\<lambda>t (k, v). put k v t) s kvs)"
  by (induction kvs arbitrary: s) (auto simp: ok_put)

lemma look_puts:
  "ok s \<Longrightarrow> look (foldl (\<lambda>t (k, v). put k v t) s kvs) k' =
     (case map_of (rev kvs) k' of Some v \<Rightarrow> Some v | None \<Rightarrow> look s k')"
proof (induction kvs rule: rev_induct)
  case Nil
  then show ?case by simp
next
  case (snoc x xs)
  obtain k v where x: "x = (k, v)" by (cases x)
  from snoc.prems have "ok (foldl (\<lambda>t (k, v). put k v t) s xs)" by (rule ok_puts)
  then show ?case using snoc.IH [OF snoc.prems] by (simp add: x look_put)
qed

end

interpretation gomap: keyed_store gm_get gm_set gm_del gm_ok
  by unfold_locales auto

text \<open>A transition relation with an invariant, and a deterministic machine as the special case:
  a step function driven by events.\<close>

locale stepper =
  fixes R :: "'s \<Rightarrow> 's \<Rightarrow> bool" and inv :: "'s \<Rightarrow> bool"
  assumes inv_step: "inv s \<Longrightarrow> R s t \<Longrightarrow> inv t"
begin

lemma inv_star: "R\<^sup>*\<^sup>* s t \<Longrightarrow> inv s \<Longrightarrow> inv t"
  by (induction rule: rtranclp_induct) (auto intro: inv_step)

end

locale machine =
  fixes step :: "'s \<Rightarrow> 'e \<Rightarrow> 's" and minv :: "'s \<Rightarrow> bool"
  assumes minv_step: "minv s \<Longrightarrow> minv (step s e)"
begin

lemma run_inv: "minv s \<Longrightarrow> minv (foldl step s es)"
  by (induction es arbitrary: s) (auto intro: minv_step)

end

sublocale machine \<subseteq> rel: stepper "\<lambda>s t. \<exists>e. t = step s e" minv
  by unfold_locales (auto intro: minv_step)

text \<open>A machine with a rank that never falls: versions, sequence numbers, lifecycle states.\<close>

locale monotone_machine = machine +
  fixes rank :: "'s \<Rightarrow> 'r::order"
  assumes rank_step: "minv s \<Longrightarrow> rank s \<le> rank (step s e)"
begin

lemma run_rank: "minv s \<Longrightarrow> rank s \<le> rank (foldl step s es)"
proof (induction es arbitrary: s)
  case Nil
  then show ?case by simp
next
  case (Cons e es)
  then have "rank (step s e) \<le> rank (foldl step (step s e) es)"
    by (simp add: minv_step)
  with rank_step [OF Cons.prems, of e] show ?case by (auto intro: order_trans)
qed

end

subsection \<open>Go strings\<close>

text \<open>A Go string is a sequence of bytes, here a char list. The functions of package
  \<open>strings\<close> and \<open>strconv\<close> that the code calls.\<close>

definition HasPrefix :: "string \<Rightarrow> string \<Rightarrow> bool" where
  "HasPrefix s p = (take (length p) s = p)"

definition HasSuffix :: "string \<Rightarrow> string \<Rightarrow> bool" where
  "HasSuffix s p = HasPrefix (rev s) (rev p)"

definition TrimPrefix :: "string \<Rightarrow> string \<Rightarrow> string" where
  "TrimPrefix s p = (if HasPrefix s p then drop (length p) s else s)"

definition TrimSuffix :: "string \<Rightarrow> string \<Rightarrow> string" where
  "TrimSuffix s p = (if HasSuffix s p then take (length s - length p) s else s)"

fun strContains :: "string \<Rightarrow> string \<Rightarrow> bool" where
  "strContains [] p = (p = [])"
| "strContains (c # cs) p = (HasPrefix (c # cs) p \<or> strContains cs p)"

fun splitOn :: "char \<Rightarrow> string \<Rightarrow> string list" where
  "splitOn d [] = [[]]"
| "splitOn d (c # cs) =
     (if c = d then [] # splitOn d cs
      else (case splitOn d cs of [] \<Rightarrow> [[c]] | w # ws \<Rightarrow> (c # w) # ws))"

fun joinWith :: "string \<Rightarrow> string list \<Rightarrow> string" where
  "joinWith sep [] = []"
| "joinWith sep [w] = w"
| "joinWith sep (w # v # ws) = w @ sep @ joinWith sep (v # ws)"

text \<open>\<open>strings.IndexByte\<close> and \<open>strings.LastIndex\<close> for a one-byte needle; -1 is \<open>None\<close>.\<close>

fun indexByte :: "string \<Rightarrow> char \<Rightarrow> nat option" where
  "indexByte [] d = None"
| "indexByte (c # cs) d = (if c = d then Some 0 else map_option Suc (indexByte cs d))"

definition lastIndexByte :: "string \<Rightarrow> char \<Rightarrow> nat option" where
  "lastIndexByte s d = map_option (\<lambda>i. length s - Suc i) (indexByte (rev s) d)"

fun digitsOf :: "nat \<Rightarrow> string" where
  "digitsOf n = (if n < 10 then [char_of (n + 48)] else digitsOf (n div 10) @ [char_of (n mod 10 + 48)])"

declare digitsOf.simps [simp del]

definition itoa :: "int \<Rightarrow> string" where
  "itoa i = (if i < 0 then ''-'' @ digitsOf (nat (- i)) else digitsOf (nat i))"

definition squote :: "string \<Rightarrow> string" where
  "squote s = CHR 0x27 # s @ [CHR 0x27]"

lemma HasPrefix_Nil [simp, go_str]: "HasPrefix s []"
  by (simp add: HasPrefix_def)

lemma HasPrefix_append [simp, go_str]: "HasPrefix (p @ s) p"
  by (simp add: HasPrefix_def)

lemma HasPrefix_iff: "HasPrefix s p \<longleftrightarrow> (\<exists>r. s = p @ r)"
  by (auto simp: HasPrefix_def) (metis append_take_drop_id)

lemma HasPrefix_Cons [simp, go_str]: "HasPrefix (c # s) (d # p) = (c = d \<and> HasPrefix s p)"
  by (auto simp: HasPrefix_def)

lemma HasPrefix_empty [simp, go_str]: "HasPrefix [] p = (p = [])"
  by (auto simp: HasPrefix_def)

lemma HasPrefix_trans: "HasPrefix s p \<Longrightarrow> HasPrefix p q \<Longrightarrow> HasPrefix s q"
  by (auto simp: HasPrefix_iff)

lemma HasSuffix_iff: "HasSuffix s p \<longleftrightarrow> (\<exists>r. s = r @ p)"
  unfolding HasSuffix_def HasPrefix_iff
  by (metis rev_append rev_rev_ident)

lemma HasSuffix_append [simp, go_str]: "HasSuffix (s @ p) p"
  by (auto simp: HasSuffix_iff)

lemma HasSuffix_single: "HasSuffix s [c] \<longleftrightarrow> s \<noteq> [] \<and> last s = c"
  by (auto simp: HasSuffix_iff) (metis append_butlast_last_id)

lemma TrimPrefix_append [simp, go_str]: "TrimPrefix (p @ s) p = s"
  by (simp add: TrimPrefix_def)

lemma drop_HasPrefix: "HasPrefix s p \<Longrightarrow> p @ drop (length p) s = s"
  by (auto simp: HasPrefix_iff)

lemma TrimSuffix_append [simp, go_str]: "TrimSuffix (s @ p) p = s"
  by (simp add: TrimSuffix_def)

lemma splitOn_neq_Nil [simp]: "splitOn d s \<noteq> []"
  by (cases s) (auto split: list.splits)

lemma joinWith_Cons: "ws \<noteq> [] \<Longrightarrow> joinWith sep (w # ws) = w @ sep @ joinWith sep ws"
  by (cases ws) auto

lemma joinWith_head: "joinWith sep ((c # w) # ws) = c # joinWith sep (w # ws)"
  by (cases ws) auto

lemma joinWith_splitOn: "joinWith [d] (splitOn d s) = s"
  by (induction s) (auto simp: joinWith_Cons joinWith_head split: list.splits)

lemma splitOn_no_sep: "w \<in> set (splitOn d s) \<Longrightarrow> d \<notin> set w"
  by (induction s arbitrary: w) (auto split: list.splits if_splits)

lemma splitOn_append_sep: "d \<notin> set w \<Longrightarrow> splitOn d (w @ d # s) = w # splitOn d s"
  by (induction w) auto

lemma splitOn_atom: "d \<notin> set w \<Longrightarrow> splitOn d w = [w]"
  by (induction w) auto

lemma splitOn_joinWith:
  "ws \<noteq> [] \<Longrightarrow> (\<forall>w \<in> set ws. d \<notin> set w) \<Longrightarrow> splitOn d (joinWith [d] ws) = ws"
  by (induction "[d]" ws rule: joinWith.induct) (auto simp: splitOn_atom splitOn_append_sep)

lemma indexByte_None: "indexByte s d = None \<longleftrightarrow> d \<notin> set s"
  by (induction s) auto

lemma indexByte_Some: "indexByte s d = Some i \<Longrightarrow> i < length s \<and> s ! i = d \<and> d \<notin> set (take i s)"
  by (induction s arbitrary: i) (auto split: if_splits)

subsection \<open>Lists\<close>

text \<open>Copy-on-write updates keep the relative order of what they keep.\<close>

lemma filter_append_single: "filter P (xs @ [x]) = filter P xs @ (if P x then [x] else [])"
  by simp

lemma distinct_map_filterI: "distinct (map f xs) \<Longrightarrow> distinct (map f (filter P xs))"
  by (rule distinct_map_filter)

lemma count_list_filter: "count_list (filter P xs) x = (if P x then count_list xs x else 0)"
  by (induction xs) auto

text \<open>Removal by swapping with the last element, as Go code does on slices:
  \<open>s[i] = s[n-1]; s = s[:n-1]\<close>.\<close>

definition swapRemove :: "nat \<Rightarrow> 'a list \<Rightarrow> 'a list" where
  "swapRemove i xs = butlast (xs[i := last xs])"

lemma mset_swapRemove: "i < length xs \<Longrightarrow> mset (swapRemove i xs) = mset xs - {#xs ! i#}"
proof -
  assume i: "i < length xs"
  then have ne: "xs \<noteq> []" by auto
  show ?thesis
  proof (cases "i = length xs - 1")
    case True
    then have "xs[i := last xs] = xs"
      using ne by (simp add: last_conv_nth)
    then have "swapRemove i xs = butlast xs" by (simp add: swapRemove_def)
    moreover have "xs ! i = last xs" using True ne by (simp add: last_conv_nth)
    moreover have "mset (butlast xs @ [last xs]) = mset xs" using ne by simp
    ultimately show ?thesis
      by (metis add_diff_cancel_right' mset.simps(1) mset.simps(2) mset_append)
  next
    case False
    let ?ys = "xs[i := last xs]"
    have len: "length ?ys = length xs" by simp
    have lst: "last ?ys = last xs" using False i ne by (simp add: last_conv_nth)
    have "mset (butlast ?ys @ [last ?ys]) = mset ?ys"
      using ne by (metis append_butlast_last_id list_update_nonempty)
    then have "mset (butlast ?ys) = mset ?ys - {#last xs#}"
      using lst by (metis add_diff_cancel_right' mset.simps(1) mset.simps(2) mset_append)
    moreover have "mset ?ys = add_mset (last xs) (mset xs - {#xs ! i#})"
      using i by (simp add: mset_update)
    ultimately show ?thesis by (simp add: swapRemove_def)
  qed
qed

lemma set_swapRemove_distinct:
  assumes "i < length xs" and "distinct xs"
  shows "set (swapRemove i xs) = set xs - {xs ! i}"
proof -
  have "mset xs = mset_set (set xs)" using assms(2) by (simp add: mset_set_set)
  then have "mset (swapRemove i xs) = mset_set (set xs - {xs ! i})"
    using mset_swapRemove [OF assms(1)] assms(1) by (simp add: mset_set_Diff)
  then have "set_mset (mset (swapRemove i xs)) = set xs - {xs ! i}" by simp
  then show ?thesis by simp
qed

end
