(* ===== verification/Messages.thy ===== *)
theory Messages
  imports Prelude
begin

text \<open>
  Package \<open>model\<close>: directions, messages and their factory, requests and responses, and the
  unwrapping of a response envelope. \<open>gval\<close> is the set of dynamic values that the
  modelled code stores in an \<open>any\<close> (or switches on with a type assertion).
\<close>

subsection \<open>Directions\<close>

text \<open>\<open>type Direction int\<close>: any integer is a value of it, so the \<open>default\<close> branches
  of the switches over it can be reached.\<close>

type_synonym Direction = int

definition RequestDir :: Direction where "RequestDir = 0"
definition ResponseDir :: Direction where "ResponseDir = 1"
definition ErrorDir :: Direction where "ErrorDir = 2"

lemmas Direction_defs = RequestDir_def ResponseDir_def ErrorDir_def

lemma Direction_neq [simp]:
  "RequestDir \<noteq> ResponseDir" "ResponseDir \<noteq> RequestDir" "RequestDir \<noteq> ErrorDir"
  "ErrorDir \<noteq> RequestDir" "ResponseDir \<noteq> ErrorDir" "ErrorDir \<noteq> ResponseDir"
  by (simp_all add: Direction_defs)

subsection \<open>Dynamic values, requests and responses\<close>

datatype brokerDest = BrokerDestinationConfig (bd_Destination: string) (bd_ConnectionId: string)

text \<open>\<open>reflect.Type\<close>, as far as the REST service tells types apart.\<close>

datatype goType = TString | TByteSlice | TPtr goType | TOther nat

text \<open>The structs over their payloads \<open>'v\<close>, which are dynamic values.\<close>

datatype 'v responseWith =
    Response
      (rs_Id: "uuid option") (rs_Destination: string) (rs_Payload: 'v) (rs_HttpStatusCode: int)
      (rs_Error: bool) (rs_ErrorCode: int) (rs_ErrorMessage: string) (rs_ErrorObject: 'v)
      (rs_BrokerDestination: "brokerDest option") (rs_Headers: "(string \<times> 'v) list")
      (rs_Marshal: bool)

datatype 'v requestWith =
    Request
      (rq_Id: "uuid option") (rq_Destination: string) (rq_Payload: 'v) (rq_RequestCommand: string)
      (rq_BrokerDestination: "brokerDest option")

datatype 'v restRequestWith =
    RestRequest
      (rr_Uri: string) (rr_Method: string) (rr_Body: 'v) (rr_Headers: "(string \<times> string) list")
      (rr_ResponseType: "goType option") (rr_ApiClass: string)

datatype gval =
    GNil
  | GBool bool
  | GInt int
  | GFloat int
  | GString string
  | GBytes string
  | GMap "(string \<times> gval) list"
  | GResponse "gval responseWith"
  | GResponsePtr "gval responseWith option"
  | GRequest "gval requestWith"
  | GRequestPtr "gval requestWith"
  | GStoreContent "(string \<times> gval) list" string "64 word"
  | GStoreUpdate string gval string "64 word"
  | GSession string int
  | GSetupREST string bool "nat list"
  | GRestRequest "gval restRequestWith option"
  | GOther nat

type_synonym response = "gval responseWith"
type_synonym request = "gval requestWith"
type_synonym restRequest = "gval restRequestWith"

text \<open>The zero values of the structs: what a composite literal leaves unset.\<close>

definition zeroResponse :: response where
  "zeroResponse = Response None [] GNil 0 False 0 [] GNil None [] False"

definition zeroRequest :: request where
  "zeroRequest = Request None [] GNil [] None"

fun rq_setId :: "uuid option \<Rightarrow> request \<Rightarrow> request" where
  "rq_setId i (Request _ d p c b) = Request i d p c b"

fun rq_setBrokerDestination :: "brokerDest option \<Rightarrow> request \<Rightarrow> request" where
  "rq_setBrokerDestination b (Request i d p c _) = Request i d p c b"

lemma rq_set_sel [simp]:
  "rq_Id (rq_setId i r) = i" "rq_Destination (rq_setId i r) = rq_Destination r"
  "rq_Payload (rq_setId i r) = rq_Payload r" "rq_RequestCommand (rq_setId i r) = rq_RequestCommand r"
  "rq_BrokerDestination (rq_setId i r) = rq_BrokerDestination r"
  "rq_BrokerDestination (rq_setBrokerDestination b r) = b"
  "rq_Payload (rq_setBrokerDestination b r) = rq_Payload r"
  "rq_Id (rq_setBrokerDestination b r) = rq_Id r"
  by (cases r; simp)+

definition CreateServiceRequest :: "uuid \<Rightarrow> string \<Rightarrow> string \<Rightarrow> request" where
  "CreateServiceRequest newId requestType body = Request (Some newId) [] (GBytes body) requestType None"

subsection \<open>Messages\<close>

type_synonym MessageHeader = "string \<times> string"

record message =
  m_Id :: "uuid option"
  m_DestinationId :: "uuid option"
  m_Channel :: string
  m_Destination :: string
  m_Payload :: gval
  m_Error :: "err option"
  m_Direction :: Direction
  m_Headers :: "MessageHeader list"

record messageConfig =
  mc_Id :: "uuid option"
  mc_DestinationId :: "uuid option"
  mc_Destination :: string
  mc_Channel :: string
  mc_Payload :: gval
  mc_Headers :: "MessageHeader list"
  mc_Direction :: Direction
  mc_Err :: "err option"

definition zeroConfig :: messageConfig where
  "zeroConfig = \<lparr>mc_Id = None, mc_DestinationId = None, mc_Destination = [], mc_Channel = [],
     mc_Payload = GNil, mc_Headers = [], mc_Direction = 0, mc_Err = None\<rparr>"

text \<open>The factory helpers. \<open>newId\<close> is what \<open>uuid.New()\<close> returns, if it is called.\<close>

definition checkId :: "uuid \<Rightarrow> messageConfig \<Rightarrow> messageConfig" where
  "checkId newId c = (if mc_Id c = None then c\<lparr>mc_Id := Some newId\<rparr> else c)"

definition GenerateRequest :: "uuid \<Rightarrow> messageConfig \<Rightarrow> message" where
  "GenerateRequest newId c0 = (let c = checkId newId c0 in
     \<lparr>m_Id = mc_Id c, m_DestinationId = mc_DestinationId c, m_Channel = mc_Channel c,
      m_Destination = mc_Destination c, m_Payload = mc_Payload c, m_Error = None,
      m_Direction = RequestDir, m_Headers = mc_Headers c\<rparr>)"

definition GenerateResponse :: "uuid \<Rightarrow> messageConfig \<Rightarrow> message" where
  "GenerateResponse newId c0 = (let c = checkId newId c0 in
     \<lparr>m_Id = mc_Id c, m_DestinationId = mc_DestinationId c, m_Channel = mc_Channel c,
      m_Destination = mc_Destination c, m_Payload = mc_Payload c, m_Error = None,
      m_Direction = ResponseDir, m_Headers = mc_Headers c\<rparr>)"

definition GenerateError :: "uuid \<Rightarrow> messageConfig \<Rightarrow> message" where
  "GenerateError newId c0 = (let c = checkId newId c0 in
     \<lparr>m_Id = mc_Id c, m_DestinationId = mc_DestinationId c, m_Channel = mc_Channel c,
      m_Destination = mc_Destination c, m_Payload = GNil, m_Error = mc_Err c,
      m_Direction = ErrorDir, m_Headers = []\<rparr>)"

lemma checkId_Id [simp]: "mc_Id (checkId n c) = Some (case mc_Id c of None \<Rightarrow> n | Some i \<Rightarrow> i)"
  by (auto simp: checkId_def)

lemma checkId_other [simp]:
  "mc_DestinationId (checkId n c) = mc_DestinationId c" "mc_Channel (checkId n c) = mc_Channel c"
  "mc_Destination (checkId n c) = mc_Destination c" "mc_Payload (checkId n c) = mc_Payload c"
  "mc_Headers (checkId n c) = mc_Headers c" "mc_Err (checkId n c) = mc_Err c"
  by (simp_all add: checkId_def)

lemmas Generate_defs = GenerateRequest_def GenerateResponse_def GenerateError_def

lemma Generate_Direction [simp]:
  "m_Direction (GenerateRequest n c) = RequestDir"
  "m_Direction (GenerateResponse n c) = ResponseDir"
  "m_Direction (GenerateError n c) = ErrorDir"
  by (simp_all add: Generate_defs Let_def)

lemma Generate_DestinationId [simp]:
  "m_DestinationId (GenerateRequest n c) = mc_DestinationId c"
  "m_DestinationId (GenerateResponse n c) = mc_DestinationId c"
  "m_DestinationId (GenerateError n c) = mc_DestinationId c"
  by (simp_all add: Generate_defs Let_def)

lemma Generate_Payload [simp]:
  "m_Payload (GenerateRequest n c) = mc_Payload c"
  "m_Payload (GenerateResponse n c) = mc_Payload c"
  "m_Payload (GenerateError n c) = GNil"
  by (simp_all add: Generate_defs Let_def)

lemma Generate_Error [simp]:
  "m_Error (GenerateRequest n c) = None" "m_Error (GenerateResponse n c) = None"
  "m_Error (GenerateError n c) = mc_Err c"
  by (simp_all add: Generate_defs Let_def)

lemma Generate_Id [simp]:
  "m_Id (GenerateRequest n c) = Some (case mc_Id c of None \<Rightarrow> n | Some i \<Rightarrow> i)"
  "m_Id (GenerateResponse n c) = Some (case mc_Id c of None \<Rightarrow> n | Some i \<Rightarrow> i)"
  "m_Id (GenerateError n c) = Some (case mc_Id c of None \<Rightarrow> n | Some i \<Rightarrow> i)"
  by (simp_all add: Generate_defs Let_def)

subsection \<open>Unwrapping a response envelope\<close>

definition responsePayload :: "response option \<Rightarrow> gval res" where
  "responsePayload resp =
     (case resp of
        None \<Rightarrow> Inr GNil
      | Some r \<Rightarrow> if rs_Error r then Inl (rs_ErrorMessage r) else Inr (rs_Payload r))"

text \<open>\<open>decodeResponse\<close> is \<open>json.Unmarshal\<close> into a \<open>Response\<close>: its error text or the
  decoded struct. The error text is prefixed as \<open>fmt.Errorf\<close> does; \<open>showBytes\<close> is the
  \<open>%v\<close> rendering of the payload.\<close>

fun unwrapResponsePayload ::
  "(string \<Rightarrow> response res) \<Rightarrow> (string \<Rightarrow> string) \<Rightarrow> string \<Rightarrow> gval \<Rightarrow> gval res" where
  "unwrapResponsePayload dec showBytes operation (GResponsePtr p) = responsePayload p"
| "unwrapResponsePayload dec showBytes operation (GResponse r) = responsePayload (Some r)"
| "unwrapResponsePayload dec showBytes operation (GBytes b) =
     (case dec b of
        Inl e \<Rightarrow> Inl (operation @ '': failed to unmarshal payload '' @ showBytes b @ '': '' @ e)
      | Inr r \<Rightarrow> responsePayload (Some r))"
| "unwrapResponsePayload dec showBytes operation payload = Inr payload"

text \<open>A value passes through unchanged unless it is one of the three envelope forms.\<close>

definition isEnvelope :: "gval \<Rightarrow> bool" where
  "isEnvelope v = (case v of GResponsePtr _ \<Rightarrow> True | GResponse _ \<Rightarrow> True | GBytes _ \<Rightarrow> True | _ \<Rightarrow> False)"

lemma unwrap_passthrough: "\<not> isEnvelope v \<Longrightarrow> unwrapResponsePayload dec sh op v = Inr v"
  by (cases v) (auto simp: isEnvelope_def)

end
