(* ===== verification/MonitorEvents.thy ===== *)
theory MonitorEvents
  imports Messages
begin

text \<open>
  Package \<open>monitor\<close> and the listener registry of the event bus (\<open>transportMonitor\<close> in
  bus/eventbus.go): event types, events, adding and removing listeners, and who is called
  for an event. A listener is a function value; \<open>'h\<close> names it.
\<close>

subsection \<open>Event types and events\<close>

type_synonym EventType = string

definition ChannelCreatedEvt :: EventType where "ChannelCreatedEvt = ''bus.channel.created''"
definition ChannelDestroyedEvt :: EventType where "ChannelDestroyedEvt = ''bus.channel.destroyed''"
definition ChannelSubscriberJoinedEvt :: EventType where
  "ChannelSubscriberJoinedEvt = ''bus.channel.subscriber.joined''"
definition ChannelSubscriberLeftEvt :: EventType where
  "ChannelSubscriberLeftEvt = ''bus.channel.subscriber.left''"
definition BrokerSubscribedEvt :: EventType where "BrokerSubscribedEvt = ''bus.broker.subscribed''"
definition BrokerUnsubscribedEvt :: EventType where "BrokerUnsubscribedEvt = ''bus.broker.unsubscribed''"
definition StoreCreatedEvt :: EventType where "StoreCreatedEvt = ''store.created''"
definition StoreDestroyedEvt :: EventType where "StoreDestroyedEvt = ''store.destroyed''"
definition StoreInitializedEvt :: EventType where "StoreInitializedEvt = ''store.initialized''"
definition FabricEndpointSubscribeEvt :: EventType where
  "FabricEndpointSubscribeEvt = ''fabric.endpoint.subscribe''"
definition FabricEndpointUnsubscribeEvt :: EventType where
  "FabricEndpointUnsubscribeEvt = ''fabric.endpoint.unsubscribe''"

lemmas EventType_defs = ChannelCreatedEvt_def ChannelDestroyedEvt_def ChannelSubscriberJoinedEvt_def
  ChannelSubscriberLeftEvt_def BrokerSubscribedEvt_def BrokerUnsubscribedEvt_def StoreCreatedEvt_def
  StoreDestroyedEvt_def StoreInitializedEvt_def FabricEndpointSubscribeEvt_def
  FabricEndpointUnsubscribeEvt_def

text \<open>The payloads that the code gives an event: nil, or a message.\<close>

datatype evData = EvNil | EvMessage message

record monitorEvent =
  ev_EventType :: EventType
  ev_EntityName :: string
  ev_Data :: evData

definition NewEvent :: "EventType \<Rightarrow> string \<Rightarrow> evData \<Rightarrow> monitorEvent" where
  "NewEvent evtType entityName payload =
     \<lparr>ev_EventType = evtType, ev_EntityName = entityName, ev_Data = payload\<rparr>"

lemma NewEvent_sel [simp]:
  "ev_EventType (NewEvent t n d) = t" "ev_EntityName (NewEvent t n d) = n" "ev_Data (NewEvent t n d) = d"
  by (simp_all add: NewEvent_def)

subsection \<open>The listener registry\<close>

type_synonym listenerId = int

record 'h monitor =
  mo_byType :: "(EventType, (listenerId, 'h) gomap) gomap"
  mo_all :: "(listenerId, 'h) gomap"
  mo_subId :: listenerId

definition newMonitor :: "'h monitor" where
  "newMonitor = \<lparr>mo_byType = gm_empty, mo_all = gm_empty, mo_subId = 0\<rparr>"

text \<open>The listeners registered for one type: the inner map, nil when absent.\<close>

definition listenersOf :: "'h monitor \<Rightarrow> EventType \<Rightarrow> (listenerId, 'h) gomap" where
  "listenersOf m t = (case gm_get (mo_byType m) t of None \<Rightarrow> gm_empty | Some ls \<Rightarrow> ls)"

fun addForTypes ::
  "listenerId \<Rightarrow> 'h \<Rightarrow> EventType list \<Rightarrow> (EventType, (listenerId, 'h) gomap) gomap
     \<Rightarrow> (EventType, (listenerId, 'h) gomap) gomap" where
  "addForTypes i h [] bt = bt"
| "addForTypes i h (t # ts) bt =
     (let listeners = (case gm_get bt t of None \<Rightarrow> gm_empty | Some ls \<Rightarrow> ls)
      in addForTypes i h ts (gm_set t (gm_set i h listeners) bt))"

definition addListener :: "'h \<Rightarrow> EventType list \<Rightarrow> 'h monitor \<Rightarrow> 'h monitor \<times> listenerId" where
  "addListener h eventTypes m0 =
     (let m = m0\<lparr>mo_subId := mo_subId m0 + 1\<rparr>; i = mo_subId m in
      if eventTypes = [] then (m\<lparr>mo_all := gm_set i h (mo_all m)\<rparr>, i)
      else (m\<lparr>mo_byType := addForTypes i h eventTypes (mo_byType m)\<rparr>, i))"

definition removeListener :: "listenerId \<Rightarrow> 'h monitor \<Rightarrow> 'h monitor" where
  "removeListener i m =
     m\<lparr>mo_all := gm_del i (mo_all m),
       mo_byType := map (\<lambda>(t, ls). (t, gm_del i ls)) (mo_byType m)\<rparr>"

text \<open>The listeners \<open>sendEvent\<close> calls, in the order of the slice it builds.\<close>

definition sendEvent :: "'h monitor \<Rightarrow> monitorEvent \<Rightarrow> 'h list" where
  "sendEvent m event = gm_vals (mo_all m) @ gm_vals (listenersOf m (ev_EventType event))"

subsection \<open>Well-formed registries\<close>

text \<open>Distinct keys everywhere, and every listener id was handed out.\<close>

definition monitor_ok :: "'h monitor \<Rightarrow> bool" where
  "monitor_ok m =
     (gm_ok (mo_all m) \<and> (\<forall>t. gm_ok (listenersOf m t)) \<and>
      (\<forall>i h. gm_get (mo_all m) i = Some h \<longrightarrow> i \<le> mo_subId m) \<and>
      (\<forall>t i h. gm_get (listenersOf m t) i = Some h \<longrightarrow> i \<le> mo_subId m))"

lemma monitor_ok_new: "monitor_ok newMonitor"
  by (simp add: monitor_ok_def newMonitor_def listenersOf_def)

lemma gm_set_idem: "gm_set i h (gm_set i h ls) = gm_set i h ls"
  by (induction ls) (auto simp: gm_set_def)

lemma addForTypes_get:
  "gm_get (addForTypes i h ts bt) t =
     (if t \<in> set ts then Some (gm_set i h (case gm_get bt t of None \<Rightarrow> gm_empty | Some ls \<Rightarrow> ls))
      else gm_get bt t)"
  by (induction ts arbitrary: bt) (auto simp: Let_def gm_set_idem)

lemma listenersOf_add:
  "listenersOf (fst (addListener h ts m)) t =
     (if t \<in> set ts then gm_set (mo_subId m + 1) h (listenersOf m t) else listenersOf m t)"
  by (auto simp: listenersOf_def addListener_def Let_def addForTypes_get split: option.splits)

lemma all_add:
  "mo_all (fst (addListener h ts m)) =
     (if ts = [] then gm_set (mo_subId m + 1) h (mo_all m) else mo_all m)"
  by (simp add: addListener_def Let_def)

lemma subId_add: "mo_subId (fst (addListener h ts m)) = mo_subId m + 1"
  by (simp add: addListener_def Let_def)

lemma listenersOf_remove: "listenersOf (removeListener i m) t = gm_del i (listenersOf m t)"
  by (auto simp: listenersOf_def removeListener_def gm_del_def gm_empty_def gm_get_map split: option.splits)

lemma monitor_ok_add: "monitor_ok m \<Longrightarrow> monitor_ok (fst (addListener h ts m))"
  by (fastforce simp: monitor_ok_def listenersOf_add all_add subId_add split: if_splits)

lemma monitor_ok_remove: "monitor_ok m \<Longrightarrow> monitor_ok (removeListener i m)"
  unfolding monitor_ok_def listenersOf_remove by (simp add: removeListener_def)

text \<open>Who hears an event: the listeners for all events and those for its type.\<close>

definition hears :: "'h monitor \<Rightarrow> listenerId \<Rightarrow> EventType \<Rightarrow> 'h \<Rightarrow> bool" where
  "hears m i t h \<longleftrightarrow> gm_get (mo_all m) i = Some h \<or> gm_get (listenersOf m t) i = Some h"

lemma sendEvent_hears:
  "monitor_ok m \<Longrightarrow> h \<in> set (sendEvent m e) \<longleftrightarrow> (\<exists>i. hears m i (ev_EventType e) h)"
  by (auto simp: sendEvent_def hears_def monitor_ok_def gm_vals_get)

lemma hears_remove: "hears (removeListener i m) j t h \<longleftrightarrow> j \<noteq> i \<and> hears m j t h"
  by (simp add: hears_def listenersOf_remove) (auto simp: removeListener_def)

lemma hears_bound: "monitor_ok m \<Longrightarrow> hears m i t h \<Longrightarrow> i \<le> mo_subId m"
  unfolding hears_def monitor_ok_def by blast

lemma hears_add:
  assumes "monitor_ok m" and "addListener h ts m = (m', i)"
  shows "hears m' j t k \<longleftrightarrow> (j = i \<and> k = h \<and> (ts = [] \<or> t \<in> set ts)) \<or> hears m j t k"
proof -
  have m': "m' = fst (addListener h ts m)" and i: "i = mo_subId m + 1"
    using assms(2) by (auto simp: addListener_def Let_def split: if_splits)
  have "\<not> hears m i t k" using hears_bound [OF assms(1)] i by fastforce
  then show ?thesis
    unfolding m' hears_def listenersOf_add all_add i [symmetric] by auto
qed

end
