(* ===== verification/Activity.thy ===== *)
theory Activity
  imports Prelude
begin

text \<open>
  \<open>channelActivity\<close> of bus/channel.go: sequence numbers for the deliveries in flight and the
  wait for quiescence. The waiter is a small-step machine that runs against concurrent
  \<open>begin\<close>, \<open>end\<close> and cancellation steps; the mutex is the rule that these two take
  no step while the waiter is inside its critical section.
\<close>

subsection \<open>The counters\<close>

record activity =
  ac_next :: "64 word"
  ac_outstanding :: "(64 word, unit) gomap"

definition newChannelActivity :: activity where
  "newChannelActivity = \<lparr>ac_next = 0, ac_outstanding = gm_empty\<rparr>"

definition watermark :: "activity \<Rightarrow> 64 word" where
  "watermark a = ac_next a"

definition act_begin :: "activity \<Rightarrow> activity \<times> 64 word" where
  "act_begin a = (let sq = ac_next a + 1 in
     (a\<lparr>ac_next := sq, ac_outstanding := gm_set sq () (ac_outstanding a)\<rparr>, sq))"

definition act_end :: "64 word \<Rightarrow> activity \<Rightarrow> activity" where
  "act_end sq a = a\<lparr>ac_outstanding := gm_del sq (ac_outstanding a)\<rparr>"

definition hasOutstandingAfter :: "activity \<Rightarrow> 64 word \<Rightarrow> 64 word \<Rightarrow> bool" where
  "hasOutstandingAfter a start target = list_ex (\<lambda>sq. start < sq \<and> sq \<le> target) (gm_keys (ac_outstanding a))"

definition outSet :: "activity \<Rightarrow> 64 word set" where
  "outSet a = set (gm_keys (ac_outstanding a))"

lemma outSet_simps [simp]:
  "outSet newChannelActivity = {}"
  "outSet (fst (act_begin a)) = insert (ac_next a + 1) (outSet a)"
  "outSet (act_end sq a) = outSet a - {sq}"
  by (auto simp: outSet_def newChannelActivity_def act_begin_def act_end_def Let_def gm_empty_def gm_keys_def [of "[]"])

lemma next_simps [simp]:
  "ac_next newChannelActivity = 0" "ac_next (fst (act_begin a)) = ac_next a + 1"
  "ac_next (act_end sq a) = ac_next a" "snd (act_begin a) = ac_next a + 1"
  by (auto simp: newChannelActivity_def act_begin_def act_end_def Let_def)

lemma hasOutstandingAfter_iff:
  "hasOutstandingAfter a start target \<longleftrightarrow> (\<exists>sq \<in> outSet a. start < sq \<and> sq \<le> target)"
  by (auto simp: hasOutstandingAfter_def list_ex_iff outSet_def)

subsection \<open>The counters against unbounded sequence numbers\<close>

datatype actEv = ABegin | AEnd "64 word"

fun actStep :: "activity \<Rightarrow> actEv \<Rightarrow> activity" where
  "actStep a ABegin = fst (act_begin a)"
| "actStep a (AEnd sq) = act_end sq a"

text \<open>The specification: deliveries are numbered 1, 2, 3, ... by natural numbers and are
  open from their start to their end.\<close>

fun specStep :: "nat \<times> nat set \<Rightarrow> actEv \<Rightarrow> nat \<times> nat set" where
  "specStep (n, S) ABegin = (Suc n, insert (Suc n) S)"
| "specStep (n, S) (AEnd sq) = (n, S - {unat sq})"

definition begins :: "actEv list \<Rightarrow> nat" where
  "begins es = length (filter (\<lambda>e. e = ABegin) es)"

lemma begins_snoc [simp]: "begins (es @ [e]) = begins es + (if e = ABegin then 1 else 0)"
  by (simp add: begins_def)

lemma spec_count: "fst (foldl specStep (0, {}) es) = begins es"
proof (induction es rule: rev_induct)
  case Nil
  then show ?case by (simp add: begins_def)
next
  case (snoc e es)
  then show ?case by (cases e; cases "foldl specStep (0, {}) es") auto
qed

lemma spec_bounded: "snd (foldl specStep (0, {}) es) \<subseteq> {1 .. begins es}"
proof (induction es rule: rev_induct)
  case Nil
  then show ?case by simp
next
  case (snoc e es)
  obtain n S where nS: "foldl specStep (0, {}) es = (n, S)" by fastforce
  have "n = begins es" using spec_count [of es] nS by simp
  then show ?case using snoc nS by (cases e) auto
qed

definition actOf :: "actEv list \<Rightarrow> activity" where
  "actOf es = foldl actStep newChannelActivity es"

lemma actOf_simps [simp]: "actOf [] = newChannelActivity" "actOf (es @ [e]) = actStep (actOf es) e"
  by (simp_all add: actOf_def)

lemma counters_refine:
  assumes "begins es < 2 ^ 64"
  shows "unat (ac_next (actOf es)) = fst (foldl specStep (0, {}) es) \<and>
         unat ` outSet (actOf es) = snd (foldl specStep (0, {}) es)"
  using assms
proof (induction es rule: rev_induct)
  case Nil
  then show ?case by simp
next
  case (snoc e es)
  let ?a = "actOf es"
  obtain n S where nS: "foldl specStep (0, {}) es = (n, S)" by fastforce
  have small: "begins es < 2 ^ 64" using snoc.prems by (simp split: if_splits)
  have IH: "unat (ac_next ?a) = n" "unat ` outSet ?a = S"
    using snoc.IH [OF small] nS by auto
  have n: "n = begins es" using spec_count [of es] nS by simp
  show ?case
  proof (cases e)
    case ABegin
    then have "Suc n < 2 ^ 64" using snoc.prems n by simp
    then have "unat (ac_next ?a + 1) = Suc n"
      using IH(1) by (simp add: unat_word_ariths)
    then show ?thesis using ABegin IH nS by simp
  next
    case (AEnd sq)
    have "unat ` (outSet ?a - {sq}) = unat ` outSet ?a - {unat sq}" by (auto simp: image_iff word_unat_eq_iff)
    then show ?thesis using AEnd IH nS by simp
  qed
qed

text \<open>Without wrap-around every open delivery has a number up to the watermark.\<close>

lemma outstanding_le_next:
  assumes "begins es < 2 ^ 64" and "sq \<in> outSet (actOf es)"
  shows "sq \<le> ac_next (actOf es)"
proof -
  have "unat sq \<in> {1 .. begins es}"
    using counters_refine [OF assms(1)] spec_bounded [of es] assms(2) by blast
  then show ?thesis
    using counters_refine [OF assms(1)] by (simp add: word_le_nat_alt spec_count)
qed

subsection \<open>The wait for quiescence\<close>

text \<open>The program points of \<open>waitQuiescentAfter\<close>: before the lock, the test of the inner
  loop, the tests after it, asleep in \<open>cond.Wait\<close> (with the flag whether a broadcast has
  reached it), returned.\<close>

datatype waiterPc =
    WEntry
  | WInner "64 word"
  | WOuter "64 word"
  | WSleep "64 word" bool
  | WDone "err option"

record waitSys =
  ws_act :: activity
  ws_ctx :: goctx
  ws_afterFunc :: bool
  ws_pc :: waiterPc

fun holdsLock :: "waiterPc \<Rightarrow> bool" where
  "holdsLock (WInner t) = True"
| "holdsLock (WOuter t) = True"
| "holdsLock pc = False"

fun broadcast :: "waiterPc \<Rightarrow> waiterPc" where
  "broadcast (WSleep t w) = WSleep t True"
| "broadcast pc = pc"

fun waiterStep :: "64 word \<Rightarrow> goctx \<Rightarrow> activity \<Rightarrow> waiterPc \<Rightarrow> waiterPc" where
  "waiterStep start ctx a WEntry = WInner (ac_next a)"
| "waiterStep start ctx a (WInner target) =
     (if hasOutstandingAfter a start target
      then (case ctxErr ctx of Some e \<Rightarrow> WDone (Some e) | None \<Rightarrow> WSleep target False)
      else WOuter target)"
| "waiterStep start ctx a (WOuter target) =
     (case ctxErr ctx of
        Some e \<Rightarrow> WDone (Some e)
      | None \<Rightarrow> if ac_next a = target then WDone None else WInner (ac_next a))"
| "waiterStep start ctx a (WSleep target woken) = (if woken then WInner target else WSleep target woken)"
| "waiterStep start ctx a (WDone r) = WDone r"

datatype waitEv =
    WaiterRuns
  | Begins
  | Ends "64 word"
  | Cancels err
  | AfterFuncRuns

text \<open>\<open>ws_afterFunc\<close>: the callback registered with \<open>context.AfterFunc\<close> is due but has not
  run. A context that is already done when the callback is registered makes it due at once.\<close>

fun waitStep :: "64 word \<Rightarrow> waitSys \<Rightarrow> waitEv \<Rightarrow> waitSys" where
  "waitStep start s WaiterRuns =
     s\<lparr>ws_pc := waiterStep start (ws_ctx s) (ws_act s) (ws_pc s),
       ws_afterFunc := (ws_afterFunc s \<or> (ws_pc s = WEntry \<and> ctxErr (ws_ctx s) \<noteq> None))\<rparr>"
| "waitStep start s Begins =
     (if holdsLock (ws_pc s) then s else s\<lparr>ws_act := fst (act_begin (ws_act s))\<rparr>)"
| "waitStep start s (Ends sq) =
     (if holdsLock (ws_pc s) then s
      else s\<lparr>ws_act := act_end sq (ws_act s), ws_pc := broadcast (ws_pc s)\<rparr>)"
| "waitStep start s (Cancels e) =
     (if ctxHasDone (ws_ctx s) \<and> ctxErr (ws_ctx s) = None
      then s\<lparr>ws_ctx := Cancellable (Some e), ws_afterFunc := (ws_pc s \<noteq> WEntry)\<rparr> else s)"
| "waitStep start s AfterFuncRuns =
     (if ws_afterFunc s \<and> \<not> holdsLock (ws_pc s)
      then s\<lparr>ws_afterFunc := False, ws_pc := broadcast (ws_pc s)\<rparr> else s)"

definition waitQuiescentAfter :: "goctx option \<Rightarrow> activity \<Rightarrow> waitSys" where
  "waitQuiescentAfter ctx a = \<lparr>ws_act = a, ws_ctx = orBackground ctx, ws_afterFunc = False, ws_pc = WEntry\<rparr>"

text \<open>The invariant: a sleeper nobody has woken still has work to wait for, and if its context
  is done its callback is due; the outer test is reached only with nothing left to wait for.\<close>

definition wait_inv :: "64 word \<Rightarrow> waitSys \<Rightarrow> bool" where
  "wait_inv start s =
     (case ws_pc s of
        WSleep t False \<Rightarrow> hasOutstandingAfter (ws_act s) start t \<and> (ctxErr (ws_ctx s) = None \<or> ws_afterFunc s)
      | WOuter t \<Rightarrow> \<not> hasOutstandingAfter (ws_act s) start t
      | _ \<Rightarrow> True)"

lemma wait_inv_init: "wait_inv start (waitQuiescentAfter ctx a)"
  by (simp add: wait_inv_def waitQuiescentAfter_def)

lemma broadcast_inv: "broadcast pc = WSleep t False \<longleftrightarrow> False" "broadcast pc = WOuter t \<longleftrightarrow> pc = WOuter t"
  by (cases pc; simp)+

lemma wait_inv_step: "wait_inv start s \<Longrightarrow> wait_inv start (waitStep start s e)"
proof (cases e)
  case WaiterRuns
  then show "wait_inv start s \<Longrightarrow> ?thesis"
    by (cases "ws_pc s") (auto simp: wait_inv_def split: option.splits if_splits bool.splits)
next
  case Begins
  then show "wait_inv start s \<Longrightarrow> ?thesis"
    by (cases "ws_pc s") (auto simp: wait_inv_def hasOutstandingAfter_iff split: if_splits bool.splits)
next
  case (Ends sq)
  then show "wait_inv start s \<Longrightarrow> ?thesis"
    by (cases "ws_pc s") (auto simp: wait_inv_def split: if_splits bool.splits)
next
  case (Cancels err)
  then show "wait_inv start s \<Longrightarrow> ?thesis"
    by (cases "ws_pc s") (auto simp: wait_inv_def split: if_splits bool.splits)
next
  case AfterFuncRuns
  then show "wait_inv start s \<Longrightarrow> ?thesis"
    by (cases "ws_pc s") (auto simp: wait_inv_def split: if_splits bool.splits)
qed

interpretation waiting: machine "waitStep start" "wait_inv start" for start
  by unfold_locales (rule wait_inv_step)

lemma waiter_returns_nil_iff:
  assumes "waiterStep start ctx a pc = WDone None" and "pc \<noteq> WDone None"
  shows "\<exists>t. pc = WOuter t \<and> ac_next a = t \<and> ctxErr ctx = None"
  using assms by (cases pc) (auto split: option.splits if_splits)

text \<open>Once nothing newer than \<open>start\<close> is open, a live waiter that is awake returns nil after
  at most four of its own steps.\<close>

definition waiterAlone :: "64 word \<Rightarrow> goctx \<Rightarrow> activity \<Rightarrow> nat \<Rightarrow> waiterPc \<Rightarrow> waiterPc" where
  "waiterAlone start ctx a n pc = (waiterStep start ctx a ^^ n) pc"

lemma waiterAlone_Suc: "waiterAlone start ctx a (Suc n) pc = waiterAlone start ctx a n (waiterStep start ctx a pc)"
  by (simp add: waiterAlone_def funpow_swap1)

lemma waiterAlone_0: "waiterAlone start ctx a 0 pc = pc"
  by (simp add: waiterAlone_def)

lemmas waiterAlone_simps = waiterAlone_Suc waiterAlone_0 numeral_eq_Suc

fun awake :: "waiterPc \<Rightarrow> bool" where
  "awake (WSleep t w) = w"
| "awake (WDone r) = False"
| "awake pc = True"

lemma quiet_returns:
  assumes "\<forall>sq \<in> outSet a. sq \<le> start" and "ctxErr ctx = None" and "awake pc"
  shows "waiterAlone start ctx a 5 pc = WDone None"
proof -
  have "\<not> hasOutstandingAfter a start t" for t
    using assms(1) by (fastforce simp: hasOutstandingAfter_iff)
  then show ?thesis
    using assms(2,3) by (cases pc) (auto simp: waiterAlone_simps)
qed

text \<open>The runs: the activity has a history \<open>es\<close> when the wait starts, and then \<open>ws\<close>
  happens.\<close>

definition waitRun :: "64 word \<Rightarrow> goctx option \<Rightarrow> actEv list \<Rightarrow> waitEv list \<Rightarrow> waitSys" where
  "waitRun start ctx es ws = foldl (waitStep start) (waitQuiescentAfter ctx (actOf es)) ws"

lemma waitRun_inv: "wait_inv start (waitRun start ctx es ws)"
  unfolding waitRun_def by (rule waiting.run_inv) (rule wait_inv_init)

lemma waitRun_snoc [simp]: "waitRun start ctx es (ws @ [e]) = waitStep start (waitRun start ctx es ws) e"
  by (simp add: waitRun_def)

lemma waitStep_act:
  "ws_act (waitStep start s e) = ws_act s \<or>
   ws_act (waitStep start s e) = actStep (ws_act s) ABegin \<or>
   (\<exists>sq. ws_act (waitStep start s e) = actStep (ws_act s) (AEnd sq))"
  by (cases e) auto

lemma waitRun_act:
  "\<exists>es'. ws_act (waitRun start ctx es ws) = actOf es' \<and> begins es' \<le> begins es + length ws"
proof (induction ws rule: rev_induct)
  case Nil
  show ?case by (rule exI [of _ es]) (simp add: waitRun_def waitQuiescentAfter_def)
next
  case (snoc e ws)
  then obtain es' where es': "ws_act (waitRun start ctx es ws) = actOf es'"
    "begins es' \<le> begins es + length ws" by blast
  from waitStep_act [of start "waitRun start ctx es ws" e]
  consider (same) "ws_act (waitRun start ctx es (ws @ [e])) = actOf es'"
    | (app) x where "ws_act (waitRun start ctx es (ws @ [e])) = actOf (es' @ [x])"
    using es'(1) by (metis actOf_simps(2) waitRun_snoc)
  then show ?case
  proof cases
    case same
    then show ?thesis using es'(2) by (intro exI [of _ es']) simp
  next
    case (app x)
    then show ?thesis using es'(2) by (intro exI [of _ "es' @ [x]"]) simp
  qed
qed

lemma waitRun_le_next:
  assumes "begins es + length ws < 2 ^ 64" and "sq \<in> outSet (ws_act (waitRun start ctx es ws))"
  shows "sq \<le> ac_next (ws_act (waitRun start ctx es ws))"
proof -
  obtain es' where "ws_act (waitRun start ctx es ws) = actOf es'" "begins es' \<le> begins es + length ws"
    using waitRun_act by blast
  then show ?thesis using outstanding_le_next [of es'] assms by simp
qed

lemma waitStep_returns_nil:
  assumes "ws_pc s \<noteq> WDone None" and "ws_pc (waitStep start s e) = WDone None"
  shows "ws_pc s = WOuter (ac_next (ws_act s)) \<and> ws_act (waitStep start s e) = ws_act s"
  using assms
proof (cases e)
  case WaiterRuns
  then show ?thesis using assms waiter_returns_nil_iff by fastforce
qed (use assms in \<open>cases "ws_pc s"; auto split: if_splits\<close>)+

lemma foldl_WaiterRuns:
  "ws_pc (foldl (waitStep start) s (replicate n WaiterRuns)) = waiterAlone start (ws_ctx s) (ws_act s) n (ws_pc s)"
  by (induction n arbitrary: s) (auto simp: waiterAlone_simps)

subsection \<open>Properties\<close>

text \<open>C4: a wait for quiescence that returns nil does so at a moment when every delivery that
  began after \<open>start\<close> has ended, whatever deliveries begin and end and whenever the context
  is cancelled while it waits.\<close>

theorem wait_returns_quiescent:
  assumes "ws_pc (waitRun start ctx es ws) \<noteq> WDone None"
    and "ws_pc (waitRun start ctx es (ws @ [e])) = WDone None"
    and "begins es + length ws < 2 ^ 64"
  shows "outSet (ws_act (waitRun start ctx es (ws @ [e]))) \<subseteq> {..start}"
proof -
  let ?s = "waitRun start ctx es ws"
  have pc: "ws_pc ?s = WOuter (ac_next (ws_act ?s))" and same: "ws_act (waitStep start ?s e) = ws_act ?s"
    using waitStep_returns_nil [of ?s start e] assms(1,2) by simp_all
  have "\<not> hasOutstandingAfter (ws_act ?s) start (ac_next (ws_act ?s))"
    using waitRun_inv [of start ctx es ws] pc by (simp add: wait_inv_def)
  then show ?thesis
    using waitRun_le_next [OF assms(3)] same by (force simp: hasOutstandingAfter_iff)
qed

lemma wait_returns_quiescent_witness:
  "outSet (ws_act (waitRun 0 None [] ([Begins, WaiterRuns, WaiterRuns, Ends 1] @
      [WaiterRuns, WaiterRuns] @ [WaiterRuns]))) \<subseteq> {..0}"
  using wait_returns_quiescent [of 0 None "[]" "[Begins, WaiterRuns, WaiterRuns, Ends 1, WaiterRuns, WaiterRuns]" WaiterRuns]
  by (simp add: waitRun_def waitQuiescentAfter_def hasOutstandingAfter_iff begins_def)

text \<open>C13: no wake-up is lost. In every interleaving, a wait that has not returned when nothing
  newer than \<open>start\<close> is open and its context is live returns nil within five of its own
  steps; it is never left asleep.\<close>

theorem wait_no_lost_wakeup:
  assumes "outSet (ws_act (waitRun start ctx es ws)) \<subseteq> {..start}"
    and "ctxErr (ws_ctx (waitRun start ctx es ws)) = None"
    and "\<forall>r. ws_pc (waitRun start ctx es ws) \<noteq> WDone r"
  shows "ws_pc (waitRun start ctx es (ws @ replicate 5 WaiterRuns)) = WDone None"
proof -
  let ?s = "waitRun start ctx es ws"
  have "\<not> hasOutstandingAfter (ws_act ?s) start t" for t
    using assms(1) by (fastforce simp: hasOutstandingAfter_iff)
  then have "awake (ws_pc ?s)"
    using waitRun_inv [of start ctx es ws] assms(3)
    by (cases "ws_pc ?s") (auto simp: wait_inv_def split: bool.splits)
  then have "waiterAlone start (ws_ctx ?s) (ws_act ?s) 5 (ws_pc ?s) = WDone None"
    using quiet_returns assms(1,2) by blast
  then show ?thesis
    using foldl_WaiterRuns [of start ?s 5] by (simp add: waitRun_def)
qed

lemma wait_no_lost_wakeup_witness:
  "ws_pc (waitRun 0 None [] ([Begins, WaiterRuns, WaiterRuns, Ends 1] @ replicate 5 WaiterRuns)) = WDone None"
  by (rule wait_no_lost_wakeup)
    (simp_all add: waitRun_def waitQuiescentAfter_def hasOutstandingAfter_iff)

text \<open>Cancellation ends the wait. Whatever has happened before, a wait whose context is
  done returns its error once the registered callback has run and the waiter is scheduled.\<close>

theorem wait_cancelled_returns:
  assumes "ctxErr (ws_ctx (waitRun start ctx es ws)) = Some e"
    and "\<forall>r. ws_pc (waitRun start ctx es ws) \<noteq> WDone r"
  shows "ws_pc (waitRun start ctx es (ws @ AfterFuncRuns # replicate 4 WaiterRuns)) = WDone (Some e)"
proof -
  let ?s = "waitRun start ctx es ws"
  let ?t = "waitStep start ?s AfterFuncRuns"
  have "awake (ws_pc ?t)"
    using waitRun_inv [of start ctx es ws] assms
    by (cases "ws_pc ?s") (auto simp: wait_inv_def split: bool.splits)
  moreover have "ctxErr (ws_ctx ?t) = Some e" using assms(1) by simp
  ultimately have "waiterAlone start (ws_ctx ?t) (ws_act ?t) 4 (ws_pc ?t) = WDone (Some e)"
    by (cases "ws_pc ?t") (auto simp: waiterAlone_simps)
  then show ?thesis
    using foldl_WaiterRuns [of start ?t 4] by (simp add: waitRun_def)
qed

lemma wait_cancelled_returns_witness:
  "ws_pc (waitRun 0 (Some (Cancellable None)) []
     ([Begins, WaiterRuns, WaiterRuns, Cancels ''context canceled''] @ AfterFuncRuns # replicate 4 WaiterRuns))
   = WDone (Some ''context canceled'')"
  by (rule wait_cancelled_returns)
    (simp_all add: waitRun_def waitQuiescentAfter_def hasOutstandingAfter_iff)

text \<open>C14: the 64-bit counters implement an unbounded numbering. As long as fewer than
  \<open>2 ^ 64\<close> deliveries have begun, the watermark is their number and the outstanding set is
  the set of the numbers begun and not ended.\<close>

theorem counters_refinement:
  assumes "begins es < 2 ^ 64"
  shows "(unat (watermark (actOf es)), unat ` outSet (actOf es)) = foldl specStep (0, {}) es"
  using counters_refine [OF assms] by (simp add: watermark_def prod_eq_iff)

lemma counters_refinement_witness:
  "(unat (watermark (actOf [ABegin, ABegin, AEnd 1])), unat ` outSet (actOf [ABegin, ABegin, AEnd 1])) = (2, {2})"
  proof -
  have *: "{Suc (Suc 0), Suc 0} - {Suc 0} = {2::nat}" by auto
  show ?thesis using counters_refinement [of "[ABegin, ABegin, AEnd 1]"] by (simp add: begins_def *)
qed

end
