(* ===== verification/Channel.thy ===== *)
theory Channel
  imports Messages Activity
begin

text \<open>
  bus/channel.go and bus/channel_event_handler.go: a channel, its copy-on-write handler list,
  dispatch, the delivery goroutine and the broker subscriptions. A handler object is named by
  a reference; its \<open>fired\<close> flag lives in the set \<open>ch_fired\<close>. The second part runs any
  number of dispatchers, deliveries and subscribers against one channel, one atomic access of
  the source per step.
\<close>

subsection \<open>Handlers and channels\<close>

type_synonym ref = nat

text \<open>Function values: a caller's function, or the wrapper closure of the message handler with
  the given reference. Contexts are references too, because a delivery outlives the call.\<close>

datatype ctxFn = UserCtxFn nat | WrapperFn ref

datatype ctxref = CBackground | CRef nat

definition normalizeContext :: "ctxref option \<Rightarrow> ctxref" where
  "normalizeContext ctx = (case ctx of None \<Rightarrow> CBackground | Some c \<Rightarrow> c)"

record channelEventHandler =
  h_ref :: ref
  h_callBackFunction :: "nat option"
  h_contextCallBackFunction :: "ctxFn option"
  h_runOnce :: bool
  h_uuid :: "uuid option"

text \<open>What the channel reads of the interface values \<open>bridge.Connection\<close> and
  \<open>bridge.Subscription\<close>; a nil interface is \<open>None\<close>. \<open>cs_stop\<close> tells whether the stop
  channel is closed, \<open>None\<close> when it is nil.\<close>

record busSub =
  su_Id :: uuid
  su_Destination :: string

record connectionSub =
  cs_c :: "uuid option"
  cs_s :: "busSub option"
  cs_stop :: "bool option"

record channel =
  ch_Name :: string
  ch_eventHandlers :: "channelEventHandler list option"
  ch_fired :: "ref set"
  ch_activity :: activity
  ch_galactic :: bool
  ch_galacticMappedDestination :: string
  ch_private :: bool
  ch_wg :: int
  ch_brokerSubs :: "connectionSub list"
  ch_brokerConns :: "uuid list"
  ch_brokerMappedEvent :: "bool list"

definition NewChannel :: "string \<Rightarrow> channel" where
  "NewChannel channelName =
     \<lparr>ch_Name = channelName, ch_eventHandlers = Some [], ch_fired = {},
      ch_activity = newChannelActivity, ch_galactic = False, ch_galacticMappedDestination = [],
      ch_private = False, ch_wg = 0, ch_brokerSubs = [], ch_brokerConns = [],
      ch_brokerMappedEvent = []\<rparr>"

definition SetPrivate :: "bool \<Rightarrow> channel \<Rightarrow> channel" where
  "SetPrivate p ch = ch\<lparr>ch_private := p\<rparr>"

definition SetGalactic :: "string \<Rightarrow> channel \<Rightarrow> channel" where
  "SetGalactic dest ch = ch\<lparr>ch_galactic := True, ch_galacticMappedDestination := dest\<rparr>"

definition SetLocal :: "channel \<Rightarrow> channel" where
  "SetLocal ch = ch\<lparr>ch_galactic := False, ch_galacticMappedDestination := []\<rparr>"

definition IsGalactic :: "channel \<Rightarrow> bool" where "IsGalactic ch = ch_galactic ch"

definition IsPrivate :: "channel \<Rightarrow> bool" where "IsPrivate ch = ch_private ch"

definition handlersSnapshot :: "channel \<Rightarrow> channelEventHandler list" where
  "handlersSnapshot ch = (case ch_eventHandlers ch of None \<Rightarrow> [] | Some hs \<Rightarrow> hs)"

definition ContainsHandlers :: "channel \<Rightarrow> bool" where
  "ContainsHandlers ch = (length (handlersSnapshot ch) > 0)"

definition spent :: "ref set \<Rightarrow> channelEventHandler \<Rightarrow> bool" where
  "spent fired h = (h_runOnce h \<and> h_ref h \<in> fired)"

definition storeHandlers :: "channelEventHandler list \<Rightarrow> channel \<Rightarrow> channel" where
  "storeHandlers hs ch = ch\<lparr>ch_eventHandlers := Some hs\<rparr>"

lemma storeHandlers_simps [simp]:
  "handlersSnapshot (storeHandlers hs ch) = hs" "ch_fired (storeHandlers hs ch) = ch_fired ch"
  "ch_wg (storeHandlers hs ch) = ch_wg ch" "ch_activity (storeHandlers hs ch) = ch_activity ch"
  "ch_brokerSubs (storeHandlers hs ch) = ch_brokerSubs ch" "ch_Name (storeHandlers hs ch) = ch_Name ch"
  by (simp_all add: storeHandlers_def handlersSnapshot_def)

lemma NewChannel_simps [simp]:
  "handlersSnapshot (NewChannel n) = []" "ch_fired (NewChannel n) = {}" "ch_wg (NewChannel n) = 0"
  "ch_activity (NewChannel n) = newChannelActivity" "ch_Name (NewChannel n) = n"
  by (simp_all add: NewChannel_def handlersSnapshot_def)

subsection \<open>Subscribing\<close>

definition subscribeHandler :: "channelEventHandler \<Rightarrow> channel \<Rightarrow> channel" where
  "subscribeHandler handler ch =
     storeHandlers (filter (\<lambda>h. \<not> (h_runOnce h \<and> h_ref h \<in> ch_fired ch)) (handlersSnapshot ch) @ [handler]) ch"

fun unsubscribeLoop ::
  "ref set \<Rightarrow> uuid option \<Rightarrow> channelEventHandler list \<Rightarrow> channelEventHandler list \<times> bool" where
  "unsubscribeLoop fired uid [] = ([], False)"
| "unsubscribeLoop fired uid (h # hs) =
     (let (rest, found) = unsubscribeLoop fired uid hs in
      if h_uuid h \<noteq> None \<and> uid \<noteq> None \<and> h_uuid h = uid then (rest, True)
      else if h_runOnce h \<and> h_ref h \<in> fired then (rest, found)
      else (h # rest, found))"

definition unsubscribeHandler :: "uuid option \<Rightarrow> channel \<Rightarrow> channel \<times> bool" where
  "unsubscribeHandler uid ch =
     (let (nxt, found) = unsubscribeLoop (ch_fired ch) uid (handlersSnapshot ch)
      in (storeHandlers nxt ch, found))"

definition pruneFiredRunOnceHandlers :: "channel \<Rightarrow> channel" where
  "pruneFiredRunOnceHandlers ch =
     (let current = handlersSnapshot ch;
          removed = list_ex (\<lambda>h. h_runOnce h \<and> h_ref h \<in> ch_fired ch) current
      in if removed then storeHandlers (filter (\<lambda>h. \<not> (h_runOnce h \<and> h_ref h \<in> ch_fired ch)) current) ch
         else ch)"

text \<open>A negative index makes the slice expression panic.\<close>

definition removeEventHandler :: "int \<Rightarrow> channel \<Rightarrow> channel res" where
  "removeEventHandler index ch =
     (let current = handlersSnapshot ch; numHandlers = int (length current) in
      if numHandlers \<le> 0 then Inr ch
      else if index \<ge> numHandlers then Inr ch
      else if index < 0 then Inl ''slice bounds out of range''
      else Inr (storeHandlers (take (nat index) current @ drop (nat index + 1) current) ch))"

lemma unsubscribeLoop_spec:
  "unsubscribeLoop fired uid hs =
     (filter (\<lambda>h. \<not> (uid \<noteq> None \<and> h_uuid h = uid) \<and> \<not> spent fired h) hs,
      \<exists>h \<in> set hs. uid \<noteq> None \<and> h_uuid h = uid)"
  by (induction hs) (auto simp: spent_def Let_def)

lemma unsubscribeHandler_spec:
  "unsubscribeHandler uid ch =
     (storeHandlers (filter (\<lambda>h. \<not> (uid \<noteq> None \<and> h_uuid h = uid) \<and> \<not> spent (ch_fired ch) h) (handlersSnapshot ch)) ch,
      \<exists>h \<in> set (handlersSnapshot ch). uid \<noteq> None \<and> h_uuid h = uid)"
  by (simp add: unsubscribeHandler_def unsubscribeLoop_spec)

lemma prune_snapshot:
  "handlersSnapshot (pruneFiredRunOnceHandlers ch) = filter (\<lambda>h. \<not> spent (ch_fired ch) h) (handlersSnapshot ch)"
  by (auto simp: pruneFiredRunOnceHandlers_def spent_def Let_def list_ex_iff intro!: filter_True [symmetric])

lemma prune_other [simp]:
  "ch_fired (pruneFiredRunOnceHandlers ch) = ch_fired ch"
  "ch_wg (pruneFiredRunOnceHandlers ch) = ch_wg ch"
  "ch_activity (pruneFiredRunOnceHandlers ch) = ch_activity ch"
  "ch_Name (pruneFiredRunOnceHandlers ch) = ch_Name ch"
  by (simp_all add: pruneFiredRunOnceHandlers_def Let_def)

lemma subscribe_snapshot:
  "handlersSnapshot (subscribeHandler h ch) = filter (\<lambda>h. \<not> spent (ch_fired ch) h) (handlersSnapshot ch) @ [h]"
  by (simp add: subscribeHandler_def spent_def)

lemma subscribe_other [simp]:
  "ch_fired (subscribeHandler h ch) = ch_fired ch" "ch_wg (subscribeHandler h ch) = ch_wg ch"
  "ch_activity (subscribeHandler h ch) = ch_activity ch" "ch_Name (subscribeHandler h ch) = ch_Name ch"
  by (simp_all add: subscribeHandler_def)

lemma unsubscribe_other [simp]:
  "ch_fired (fst (unsubscribeHandler u ch)) = ch_fired ch"
  "ch_wg (fst (unsubscribeHandler u ch)) = ch_wg ch"
  "ch_activity (fst (unsubscribeHandler u ch)) = ch_activity ch"
  "ch_Name (fst (unsubscribeHandler u ch)) = ch_Name ch"
  by (simp_all add: unsubscribeHandler_spec)

subsection \<open>Dispatch\<close>

text \<open>One round of the dispatch loop after the context test: the compare-and-swap of a
  run-once handler and the append. The triple is the fired flags, the scheduled handlers and
  \<open>pruneFiredRunOnce\<close>.\<close>

fun dispatchOne ::
  "channelEventHandler \<Rightarrow> ref set \<times> channelEventHandler list \<times> bool
     \<Rightarrow> ref set \<times> channelEventHandler list \<times> bool" where
  "dispatchOne h (fired, scheduled, prune) =
     (if h_runOnce h then
        if h_ref h \<in> fired then (fired, scheduled, True)
        else (insert (h_ref h) fired, scheduled @ [h], True)
      else (fired, scheduled @ [h], prune))"

text \<open>\<open>chk i\<close>: is the context done when the select of round \<open>i\<close> looks?\<close>

fun dispatchLoop ::
  "(nat \<Rightarrow> bool) \<Rightarrow> nat \<Rightarrow> channelEventHandler list \<Rightarrow> ref set \<times> channelEventHandler list \<times> bool
     \<Rightarrow> ref set \<times> channelEventHandler list \<times> bool" where
  "dispatchLoop chk i [] st = st"
| "dispatchLoop chk i (h # hs) st =
     (if chk i then st else dispatchLoop chk (Suc i) hs (dispatchOne h st))"

record delivery =
  dl_ctx :: ctxref
  dl_handlers :: "channelEventHandler list"
  dl_message :: message
  dl_seq :: "64 word"

definition setFired :: "ref set \<Rightarrow> channel \<Rightarrow> channel" where
  "setFired f ch = ch\<lparr>ch_fired := f\<rparr>"

definition wgAdd :: "int \<Rightarrow> channel \<Rightarrow> channel" where
  "wgAdd n ch = ch\<lparr>ch_wg := ch_wg ch + n\<rparr>"

definition activityBegin :: "channel \<Rightarrow> channel \<times> 64 word" where
  "activityBegin ch = (let (a, sq) = act_begin (ch_activity ch) in (ch\<lparr>ch_activity := a\<rparr>, sq))"

definition activityEnd :: "64 word \<Rightarrow> channel \<Rightarrow> channel" where
  "activityEnd sq ch = ch\<lparr>ch_activity := act_end sq (ch_activity ch)\<rparr>"

definition dispatchContext ::
  "(nat \<Rightarrow> bool) \<Rightarrow> ctxref option \<Rightarrow> message \<Rightarrow> channel \<Rightarrow> channel \<times> delivery option" where
  "dispatchContext chk ctx0 msg ch =
     (let ctx = normalizeContext ctx0;
          (fired, scheduled, prune) = dispatchLoop chk 0 (handlersSnapshot ch) (ch_fired ch, [], False);
          ch1 = setFired fired ch;
          ch2 = (if prune then pruneFiredRunOnceHandlers ch1 else ch1)
      in if scheduled = [] then (ch2, None)
         else (let (ch3, sq) = activityBegin ch2
               in (wgAdd 1 ch3, Some \<lparr>dl_ctx = ctx, dl_handlers = scheduled, dl_message = msg, dl_seq = sq\<rparr>)))"

definition SendContext ::
  "(nat \<Rightarrow> bool) \<Rightarrow> ctxref option \<Rightarrow> message \<Rightarrow> channel \<Rightarrow> channel \<times> delivery option" where
  "SendContext chk ctx msg ch = dispatchContext chk ctx msg ch"

text \<open>The background context is never done.\<close>

definition Send :: "message \<Rightarrow> channel \<Rightarrow> channel \<times> delivery option" where
  "Send msg ch = SendContext (\<lambda>i. False) (Some CBackground) msg ch"

text \<open>Which function a delivery calls for a handler, with what.\<close>

datatype invocation =
    CallCtxFn ctxFn ctxref message
  | CallFn nat message

definition invocationOf :: "delivery \<Rightarrow> channelEventHandler \<Rightarrow> invocation option" where
  "invocationOf d h =
     (case h_contextCallBackFunction h of
        Some f \<Rightarrow> Some (CallCtxFn f (dl_ctx d) (dl_message d))
      | None \<Rightarrow> (case h_callBackFunction h of
          Some f \<Rightarrow> Some (CallFn f (dl_message d))
        | None \<Rightarrow> None))"

definition sendMessageToHandlers :: "delivery \<Rightarrow> channel \<Rightarrow> channel \<times> invocation list" where
  "sendMessageToHandlers d ch =
     (activityEnd (dl_seq d) (wgAdd (- 1) ch), List.map_filter (invocationOf d) (dl_handlers d))"

lemma channel_updates [simp]:
  "handlersSnapshot (setFired f ch) = handlersSnapshot ch" "ch_fired (setFired f ch) = f"
  "ch_wg (setFired f ch) = ch_wg ch" "ch_activity (setFired f ch) = ch_activity ch"
  "handlersSnapshot (wgAdd n ch) = handlersSnapshot ch" "ch_fired (wgAdd n ch) = ch_fired ch"
  "ch_wg (wgAdd n ch) = ch_wg ch + n" "ch_activity (wgAdd n ch) = ch_activity ch"
  "handlersSnapshot (activityEnd q ch) = handlersSnapshot ch" "ch_fired (activityEnd q ch) = ch_fired ch"
  "ch_wg (activityEnd q ch) = ch_wg ch" "ch_activity (activityEnd q ch) = act_end q (ch_activity ch)"
  "handlersSnapshot (fst (activityBegin ch)) = handlersSnapshot ch"
  "ch_fired (fst (activityBegin ch)) = ch_fired ch" "ch_wg (fst (activityBegin ch)) = ch_wg ch"
  "ch_activity (fst (activityBegin ch)) = fst (act_begin (ch_activity ch))"
  "snd (activityBegin ch) = ac_next (ch_activity ch) + 1"
  "ch_Name (setFired f ch) = ch_Name ch" "ch_Name (wgAdd n ch) = ch_Name ch"
  "ch_Name (activityEnd q ch) = ch_Name ch" "ch_Name (fst (activityBegin ch)) = ch_Name ch"
  by (simp_all add: setFired_def wgAdd_def activityBegin_def activityEnd_def handlersSnapshot_def
      act_begin_def Let_def)

subsection \<open>What the sequential dispatch does\<close>

text \<open>The specification of the loop: the rounds before the context is done, and of their
  handlers those that are not spent, when references are distinct.\<close>

definition roundsBefore :: "(nat \<Rightarrow> bool) \<Rightarrow> channelEventHandler list \<Rightarrow> channelEventHandler list" where
  "roundsBefore chk hs = map snd (takeWhile (\<lambda>(i, h). \<not> chk i) (enumerate 0 hs))"

lemma dispatchLoop_no_chk:
  "distinct (map h_ref hs) \<Longrightarrow>
   dispatchLoop (\<lambda>i. False) i hs (fired, sched, prune) =
     (fired \<union> h_ref ` {h \<in> set hs. h_runOnce h}, sched @ filter (\<lambda>h. \<not> spent fired h) hs,
      prune \<or> (\<exists>h \<in> set hs. h_runOnce h))"
proof (induction hs arbitrary: i fired sched prune)
  case Nil
  then show ?case by simp
next
  case (Cons h hs)
  have *: "filter (\<lambda>x. \<not> spent (insert (h_ref h) fired) x) hs = filter (\<lambda>x. \<not> spent fired x) hs"
    using Cons.prems by (intro filter_cong) (auto simp: spent_def image_iff)
  show ?case using Cons.prems by (auto simp: Cons.IH * spent_def [of _ h])
qed

lemma dispatchLoop_takeWhile:
  "dispatchLoop chk i hs st =
   dispatchLoop (\<lambda>i. False) i (map snd (takeWhile (\<lambda>(i, h). \<not> chk i) (enumerate i hs))) st"
  by (induction chk i hs st rule: dispatchLoop.induct) auto

lemma dispatchLoop_no_chk_index:
  "dispatchLoop (\<lambda>i. False) i hs st = dispatchLoop (\<lambda>i. False) j hs st"
  by (induction hs arbitrary: i j st) auto

lemma roundsBefore_sublist: "set (roundsBefore chk hs) \<subseteq> set hs"
  unfolding roundsBefore_def
  by (auto dest!: set_takeWhileD simp: in_set_enumerate_eq)

lemma distinct_roundsBefore: "distinct (map f hs) \<Longrightarrow> distinct (map f (roundsBefore chk hs))"
proof -
  assume d: "distinct (map f hs)"
  have "map snd (takeWhile P (enumerate 0 hs)) = take (length (takeWhile P (enumerate 0 hs))) hs" for P
    by (metis map_snd_enumerate take_map takeWhile_eq_take)
  then show ?thesis using d by (metis distinct_take roundsBefore_def take_map)
qed

lemma dispatchLoop_spec:
  "distinct (map h_ref hs) \<Longrightarrow>
   dispatchLoop chk 0 hs (fired, [], False) =
     (fired \<union> h_ref ` {h \<in> set (roundsBefore chk hs). h_runOnce h},
      filter (\<lambda>h. \<not> spent fired h) (roundsBefore chk hs),
      \<exists>h \<in> set (roundsBefore chk hs). h_runOnce h)"
  using dispatchLoop_takeWhile [of chk 0 hs] dispatchLoop_no_chk [OF distinct_roundsBefore]
  by (simp add: roundsBefore_def [symmetric])

text \<open>The whole call: which handlers the goroutine gets, and what is left on the channel.\<close>

lemma dispatchContext_spec:
  assumes "distinct (map h_ref (handlersSnapshot ch))"
    and "rounds = roundsBefore chk (handlersSnapshot ch)"
  shows "case snd (dispatchContext chk ctx msg ch) of
      None \<Rightarrow> filter (\<lambda>h. \<not> spent (ch_fired ch) h) rounds = []
    | Some d \<Rightarrow> dl_handlers d = filter (\<lambda>h. \<not> spent (ch_fired ch) h) rounds \<and>
        dl_handlers d \<noteq> [] \<and> dl_message d = msg \<and> dl_ctx d = normalizeContext ctx"
    and "ch_fired (fst (dispatchContext chk ctx msg ch)) =
      ch_fired ch \<union> h_ref ` {h \<in> set rounds. h_runOnce h}"
  by (auto simp: dispatchContext_def Let_def case_prod_beta dispatchLoop_spec [OF assms(1)] assms(2))

subsection \<open>Broker subscriptions\<close>

text \<open>\<open>*cs.s.GetId()\<close> on a nil interface is a nil dereference.\<close>

fun isBrokerSubscribedLoop :: "busSub \<Rightarrow> connectionSub list \<Rightarrow> bool res" where
  "isBrokerSubscribedLoop sub [] = Inr False"
| "isBrokerSubscribedLoop sub (cs # css) =
     (case cs_s cs of
        None \<Rightarrow> Inl ''nil pointer dereference''
      | Some s \<Rightarrow> if su_Id sub = su_Id s then Inr True else isBrokerSubscribedLoop sub css)"

definition isBrokerSubscribed :: "busSub \<Rightarrow> channel \<Rightarrow> bool res" where
  "isBrokerSubscribed sub ch = isBrokerSubscribedLoop sub (ch_brokerSubs ch)"

definition subscribedTo :: "uuid \<Rightarrow> string \<Rightarrow> connectionSub \<Rightarrow> bool" where
  "subscribedTo c dest cs =
     (case (cs_s cs, cs_c cs) of (Some s, Some c') \<Rightarrow> su_Destination s = dest \<and> c' = c | _ \<Rightarrow> False)"

definition isBrokerSubscribedToDestination :: "uuid \<Rightarrow> string \<Rightarrow> channel \<Rightarrow> bool" where
  "isBrokerSubscribedToDestination c dest ch = list_ex (subscribedTo c dest) (ch_brokerSubs ch)"

definition addBrokerSubscriptionIfMissing :: "uuid \<Rightarrow> busSub \<Rightarrow> channel \<Rightarrow> channel \<times> bool" where
  "addBrokerSubscriptionIfMissing conn sub ch =
     (if list_ex (subscribedTo conn (su_Destination sub)) (ch_brokerSubs ch) then (ch, False)
      else (let hasConnection = list_ex (\<lambda>c. c = conn) (ch_brokerConns ch);
                conns = (if hasConnection then ch_brokerConns ch else ch_brokerConns ch @ [conn])
            in (ch\<lparr>ch_brokerConns := conns,
                   ch_brokerSubs := ch_brokerSubs ch @ [\<lparr>cs_c = Some conn, cs_s = Some sub, cs_stop = Some False\<rparr>]\<rparr>,
                True)))"

definition addBrokerSubscription :: "uuid \<Rightarrow> busSub \<Rightarrow> channel \<Rightarrow> channel" where
  "addBrokerSubscription conn sub ch = fst (addBrokerSubscriptionIfMissing conn sub ch)"

definition stopListening :: "connectionSub \<Rightarrow> connectionSub" where
  "stopListening cs = (if cs_stop cs = None then cs else cs\<lparr>cs_stop := Some True\<rparr>)"

definition removeSub :: "connectionSub list \<Rightarrow> nat \<Rightarrow> connectionSub list" where
  "removeSub s i = swapRemove i s"

text \<open>The removed subscription is returned too: its listener goroutine still holds it.\<close>

fun removeBrokerLoop :: "busSub \<Rightarrow> nat \<Rightarrow> connectionSub list \<Rightarrow> nat option res" where
  "removeBrokerLoop sub i [] = Inr None"
| "removeBrokerLoop sub i (cs # css) =
     (case cs_s cs of
        None \<Rightarrow> Inl ''nil pointer dereference''
      | Some s \<Rightarrow> if su_Id sub = su_Id s then Inr (Some i) else removeBrokerLoop sub (Suc i) css)"

definition removeBrokerSubscription :: "busSub \<Rightarrow> channel \<Rightarrow> (channel \<times> connectionSub option) res" where
  "removeBrokerSubscription sub ch =
     (case removeBrokerLoop sub 0 (ch_brokerSubs ch) of
        Inl e \<Rightarrow> Inl e
      | Inr None \<Rightarrow> Inr (ch, None)
      | Inr (Some i) \<Rightarrow>
          (let cs = stopListening (ch_brokerSubs ch ! i)
           in Inr (ch\<lparr>ch_brokerSubs := removeSub ((ch_brokerSubs ch)[i := cs]) i\<rparr>, Some cs)))"

definition closeBrokerSubscriptions :: "channel \<Rightarrow> channel \<times> connectionSub list" where
  "closeBrokerSubscriptions ch =
     (ch\<lparr>ch_brokerSubs := [], ch_brokerConns := []\<rparr>, map stopListening (ch_brokerSubs ch))"

text \<open>One round of \<open>listenToBrokerSubscription\<close>: what the select sees is an argument, a
  message from the subscription (\<open>None\<close>: its channel is closed) or the closed stop channel.\<close>

datatype selectCase = MsgCase "message option" | StopCase

definition listenToBrokerSubscription :: "selectCase \<Rightarrow> channel \<Rightarrow> (channel \<times> delivery option) option" where
  "listenToBrokerSubscription sel ch =
     (case sel of
        MsgCase (Some msg) \<Rightarrow> Some (Send msg ch)
      | MsgCase None \<Rightarrow> None
      | StopCase \<Rightarrow> None)"

definition mappedEvent :: "bool \<Rightarrow> channel \<Rightarrow> channel" where
  "mappedEvent b ch =
     (if length (ch_brokerMappedEvent ch) < 10
      then ch\<lparr>ch_brokerMappedEvent := ch_brokerMappedEvent ch @ [b]\<rparr> else ch)"

text \<open>At most one subscription per connection and destination, each with its connection in
  the connection list, none of them nil.\<close>

definition broker_ok :: "channel \<Rightarrow> bool" where
  "broker_ok ch =
     (distinct (map (\<lambda>cs. (cs_c cs, map_option su_Destination (cs_s cs))) (ch_brokerSubs ch)) \<and>
      (\<forall>cs \<in> set (ch_brokerSubs ch). cs_s cs \<noteq> None \<and> cs_stop cs = Some False \<and>
         (\<exists>c \<in> set (ch_brokerConns ch). cs_c cs = Some c)) \<and>
      distinct (ch_brokerConns ch))"

lemma broker_ok_new: "broker_ok (NewChannel n)"
  by (simp add: broker_ok_def NewChannel_def)

lemma broker_ok_add: "broker_ok ch \<Longrightarrow> broker_ok (fst (addBrokerSubscriptionIfMissing c sub ch))"
  by (fastforce simp: broker_ok_def addBrokerSubscriptionIfMissing_def Let_def list_ex_iff subscribedTo_def
      split: option.splits)

lemma broker_ok_close: "broker_ok (fst (closeBrokerSubscriptions ch))"
  by (simp add: broker_ok_def closeBrokerSubscriptions_def)

lemma removeBrokerLoop_Some:
  "removeBrokerLoop sub i css = Inr (Some k) \<Longrightarrow>
   i \<le> k \<and> k - i < length css \<and> map_option su_Id (cs_s (css ! (k - i))) = Some (su_Id sub)"
proof (induction sub i css rule: removeBrokerLoop.induct)
  case (2 sub i cs css)
  then show ?case
    by (cases "k - i") (auto simp: diff_Suc split: option.splits if_splits nat.splits)
qed simp

lemma butlast_swapRemove_subset: "i < length xs \<Longrightarrow> set (swapRemove i (xs[i := x])) \<subseteq> set xs"
proof -
  assume i: "i < length xs"
  have "mset (swapRemove i (xs[i := x])) = mset xs - {#xs ! i#}"
    using i mset_swapRemove [of i "xs[i := x]"] by (simp add: mset_update)
  then show ?thesis by (metis mset_subset_eqD diff_subset_eq_self set_mset_mset subsetI)
qed

lemma mset_swapRemove_update: "i < length xs \<Longrightarrow> mset (swapRemove i (xs[i := x])) = mset xs - {#xs ! i#}"
  using mset_swapRemove [of i "xs[i := x]"] by (simp add: mset_update)

lemma distinct_mset_sub:
  assumes "mset ys \<subseteq># mset xs" and "distinct xs" shows "distinct ys"
proof -
  have "count (mset ys) a = (if a \<in> set ys then 1 else 0)" for a
  proof -
    have "count (mset ys) a \<le> count (mset xs) a" using assms(1) by (rule mset_subset_eq_count)
    also have "\<dots> \<le> 1" using assms(2) by (simp add: distinct_count_atmost_1)
    finally show ?thesis by (metis One_nat_def count_mset_0_iff le_SucE le_zero_eq)
  qed
  then show ?thesis by (simp add: distinct_count_atmost_1)
qed

lemma distinct_map_mset_sub:
  "mset ys \<subseteq># mset xs \<Longrightarrow> distinct (map f xs) \<Longrightarrow> distinct (map f ys)"
  using distinct_mset_sub [of "map f ys" "map f xs"] by (simp add: image_mset_subseteq_mono)

lemma broker_ok_remove:
  assumes "broker_ok ch" and "removeBrokerSubscription sub ch = Inr (ch', r)"
  shows "broker_ok ch'"
proof (cases "removeBrokerLoop sub 0 (ch_brokerSubs ch)")
  case (Inl e)
  then show ?thesis using assms(2) by (simp add: removeBrokerSubscription_def)
next
  case (Inr k)
  show ?thesis
  proof (cases k)
    case None
    then show ?thesis using assms Inr by (simp add: removeBrokerSubscription_def)
  next
    case (Some i)
    then have i: "i < length (ch_brokerSubs ch)" using removeBrokerLoop_Some Inr by fastforce
    let ?ys = "ch_brokerSubs ch'"
    have conns: "ch_brokerConns ch' = ch_brokerConns ch"
      and ys: "mset ?ys = mset (ch_brokerSubs ch) - {#ch_brokerSubs ch ! i#}"
      using assms(2) Inr Some mset_swapRemove_update [OF i]
      by (auto simp: removeBrokerSubscription_def Let_def removeSub_def)
    have sub: "mset ?ys \<subseteq># mset (ch_brokerSubs ch)" by (simp add: ys)
    then have "set ?ys \<subseteq> set (ch_brokerSubs ch)" by (metis set_mset_mono set_mset_mset)
    then show ?thesis using assms(1) distinct_map_mset_sub [OF sub] conns
      by (auto simp: broker_ok_def)
  qed
qed

lemma isBrokerSubscribed_ok: "broker_ok ch \<Longrightarrow> isBrokerSubscribed sub ch =
    Inr (\<exists>cs \<in> set (ch_brokerSubs ch). map_option su_Id (cs_s cs) = Some (su_Id sub))"
proof -
  have "\<forall>cs \<in> set css. cs_s cs \<noteq> None \<Longrightarrow> isBrokerSubscribedLoop sub css =
      Inr (\<exists>cs \<in> set css. map_option su_Id (cs_s cs) = Some (su_Id sub))" for css
    by (induction css) (auto split: option.splits)
  then show "broker_ok ch \<Longrightarrow> ?thesis" by (simp add: isBrokerSubscribed_def broker_ok_def)
qed

end
