(* ===== verification/Delivery.thy ===== *)
theory Delivery
  imports Channel
begin

text \<open>
  The concurrency of bus/channel.go: any number of goroutines dispatch on one channel, deliver,
  subscribe and unsubscribe. A step is one atomic access of the source: a locked section, a
  compare-and-swap, an atomic load or store, one callback. \<open>obj\<close> is the heap of handler
  objects: the handler that a reference points to.
\<close>

datatype dispatchPc = DLoop | DPrune | DBegin | DSpawn "64 word"

record dispatcher =
  dp_ctx :: ctxref
  dp_message :: message
  dp_todo :: "channelEventHandler list"
  dp_scheduled :: "channelEventHandler list"
  dp_prune :: bool
  dp_pc :: dispatchPc

datatype goroutinePc = GRun | GEnding

record goroutine =
  gr_delivery :: delivery
  gr_pc :: goroutinePc

record chanSys =
  sy_ch :: channel
  sy_disp :: "dispatcher multiset"
  sy_gor :: "goroutine multiset"
  sy_log :: "(ref \<times> message) list"

definition startDispatch :: "ctxref option \<Rightarrow> message \<Rightarrow> channel \<Rightarrow> dispatcher" where
  "startDispatch ctx msg ch =
     \<lparr>dp_ctx = normalizeContext ctx, dp_message = msg, dp_todo = handlersSnapshot ch,
      dp_scheduled = [], dp_prune = False, dp_pc = DLoop\<rparr>"

definition roundOf :: "dispatcher \<Rightarrow> channel \<Rightarrow> dispatcher \<times> channel" where
  "roundOf d ch =
     (let (f, s, p) = dispatchOne (hd (dp_todo d)) (ch_fired ch, dp_scheduled d, dp_prune d)
      in (d\<lparr>dp_todo := tl (dp_todo d), dp_scheduled := s, dp_prune := p\<rparr>, setFired f ch))"

definition spawnOf :: "dispatcher \<Rightarrow> 64 word \<Rightarrow> goroutine" where
  "spawnOf d sq =
     \<lparr>gr_delivery = \<lparr>dl_ctx = dp_ctx d, dl_handlers = dp_scheduled d, dl_message = dp_message d, dl_seq = sq\<rparr>,
      gr_pc = GRun\<rparr>"

definition popHandler :: "goroutine \<Rightarrow> goroutine" where
  "popHandler g = g\<lparr>gr_delivery := (gr_delivery g)\<lparr>dl_handlers := tl (dl_handlers (gr_delivery g))\<rparr>\<rparr>"

abbreviation handlersOf :: "goroutine \<Rightarrow> channelEventHandler list" where
  "handlersOf g \<equiv> dl_handlers (gr_delivery g)"

inductive chanStep :: "(ref \<Rightarrow> channelEventHandler) \<Rightarrow> chanSys \<Rightarrow> chanSys \<Rightarrow> bool"
  for obj :: "ref \<Rightarrow> channelEventHandler" where
  Subscribe: "chanStep obj s (s\<lparr>sy_ch := subscribeHandler (obj r) (sy_ch s)\<rparr>)"
| Unsubscribe: "chanStep obj s (s\<lparr>sy_ch := fst (unsubscribeHandler u (sy_ch s))\<rparr>)"
| RemoveAt: "removeEventHandler i (sy_ch s) = Inr ch' \<Longrightarrow> chanStep obj s (s\<lparr>sy_ch := ch'\<rparr>)"
| Dispatch: "chanStep obj s (s\<lparr>sy_disp := add_mset (startDispatch ctx msg (sy_ch s)) (sy_disp s)\<rparr>)"
| Round: "sy_disp s = add_mset d D \<Longrightarrow> dp_pc d = DLoop \<Longrightarrow> dp_todo d \<noteq> [] \<Longrightarrow>
    roundOf d (sy_ch s) = (d', ch') \<Longrightarrow>
    chanStep obj s (s\<lparr>sy_ch := ch', sy_disp := add_mset d' D\<rparr>)"
| LoopEnd: "sy_disp s = add_mset d D \<Longrightarrow> dp_pc d = DLoop \<Longrightarrow> dp_todo d = [] \<or> ctxIsDone \<Longrightarrow>
    chanStep obj s (s\<lparr>sy_disp := add_mset (d\<lparr>dp_pc := DPrune\<rparr>) D\<rparr>)"
| Prune: "sy_disp s = add_mset d D \<Longrightarrow> dp_pc d = DPrune \<Longrightarrow>
    chanStep obj s (s\<lparr>sy_ch := (if dp_prune d then pruneFiredRunOnceHandlers (sy_ch s) else sy_ch s),
      sy_disp := (if dp_scheduled d = [] then D else add_mset (d\<lparr>dp_pc := DBegin\<rparr>) D)\<rparr>)"
| BeginActivity: "sy_disp s = add_mset d D \<Longrightarrow> dp_pc d = DBegin \<Longrightarrow>
    activityBegin (sy_ch s) = (ch', sq) \<Longrightarrow>
    chanStep obj s (s\<lparr>sy_ch := ch', sy_disp := add_mset (d\<lparr>dp_pc := DSpawn sq\<rparr>) D\<rparr>)"
| Spawn: "sy_disp s = add_mset d D \<Longrightarrow> dp_pc d = DSpawn sq \<Longrightarrow>
    chanStep obj s (s\<lparr>sy_ch := wgAdd 1 (sy_ch s), sy_disp := D, sy_gor := add_mset (spawnOf d sq) (sy_gor s)\<rparr>)"
| Deliver: "sy_gor s = add_mset g G \<Longrightarrow> gr_pc g = GRun \<Longrightarrow> handlersOf g = h # hs \<Longrightarrow>
    chanStep obj s (s\<lparr>sy_gor := add_mset (popHandler g) G,
      sy_log := sy_log s @ [(h_ref h, dl_message (gr_delivery g))]\<rparr>)"
| WgDone: "sy_gor s = add_mset g G \<Longrightarrow> gr_pc g = GRun \<Longrightarrow> handlersOf g = [] \<Longrightarrow>
    chanStep obj s (s\<lparr>sy_ch := wgAdd (- 1) (sy_ch s), sy_gor := add_mset (g\<lparr>gr_pc := GEnding\<rparr>) G\<rparr>)"
| EndActivity: "sy_gor s = add_mset g G \<Longrightarrow> gr_pc g = GEnding \<Longrightarrow>
    chanStep obj s (s\<lparr>sy_ch := activityEnd (dl_seq (gr_delivery g)) (sy_ch s), sy_gor := G\<rparr>)"

definition initSys :: "string \<Rightarrow> chanSys" where
  "initSys n = \<lparr>sy_ch = NewChannel n, sy_disp = {#}, sy_gor = {#}, sy_log = []\<rparr>"

subsection \<open>A run-once handler is scheduled once\<close>

definition refsIn :: "channelEventHandler list \<Rightarrow> ref multiset" where
  "refsIn hs = mset (map h_ref hs)"

text \<open>Everything ever scheduled: collected by a dispatcher, in a delivery, or delivered.\<close>

definition scheduledRefs :: "chanSys \<Rightarrow> ref multiset" where
  "scheduledRefs s =
     \<Sum>\<^sub># (image_mset (\<lambda>d. refsIn (dp_scheduled d)) (sy_disp s)) +
     \<Sum>\<^sub># (image_mset (\<lambda>g. refsIn (handlersOf g)) (sy_gor s)) +
     mset (map fst (sy_log s))"

definition handlersKnown :: "chanSys \<Rightarrow> channelEventHandler set" where
  "handlersKnown s = set (handlersSnapshot (sy_ch s)) \<union>
     (\<Union>d \<in> set_mset (sy_disp s). set (dp_todo d) \<union> set (dp_scheduled d)) \<union>
     (\<Union>g \<in> set_mset (sy_gor s). set (handlersOf g))"

definition isObj :: "(ref \<Rightarrow> channelEventHandler) \<Rightarrow> channelEventHandler \<Rightarrow> bool" where
  "isObj obj h \<longleftrightarrow> h = obj (h_ref h)"

lemma isObj_obj [simp]: "\<forall>r. h_ref (obj r) = r \<Longrightarrow> isObj obj (obj r)"
  by (simp add: isObj_def)

definition once_inv :: "(ref \<Rightarrow> channelEventHandler) \<Rightarrow> chanSys \<Rightarrow> bool" where
  "once_inv obj s \<longleftrightarrow>
     (\<forall>h \<in> handlersKnown s. isObj obj h) \<and>
     (\<forall>r. h_runOnce (obj r) \<longrightarrow> count (scheduledRefs s) r \<le> (if r \<in> ch_fired (sy_ch s) then 1 else 0))"

lemma once_inv_init: "once_inv obj (initSys n)"
  by (simp add: once_inv_def initSys_def handlersKnown_def scheduledRefs_def)

lemma refsIn_simps [simp]: "refsIn [] = {#}" "refsIn (h # hs) = add_mset (h_ref h) (refsIn hs)"
  "refsIn (xs @ ys) = refsIn xs + refsIn ys"
  by (simp_all add: refsIn_def)

lemma removeEventHandler_subset:
  "removeEventHandler i ch = Inr ch' \<Longrightarrow>
   set (handlersSnapshot ch') \<subseteq> set (handlersSnapshot ch) \<and> ch_fired ch' = ch_fired ch \<and>
   ch_wg ch' = ch_wg ch \<and> ch_activity ch' = ch_activity ch"
  by (auto simp: removeEventHandler_def Let_def dest: in_set_takeD in_set_dropD split: if_splits)

lemma unsubscribe_subset:
  "set (handlersSnapshot (fst (unsubscribeHandler u ch))) \<subseteq> set (handlersSnapshot ch)"
  by (auto simp: unsubscribeHandler_spec)

lemma roundOf_cases:
  assumes "roundOf d ch = (d', ch')" and "dp_todo d = h # hs"
  shows "ch_wg ch' = ch_wg ch" "ch_activity ch' = ch_activity ch"
    "handlersSnapshot ch' = handlersSnapshot ch" "dp_todo d' = hs" "dp_pc d' = dp_pc d"
    "(dp_scheduled d' = dp_scheduled d @ [h] \<and>
        (if h_runOnce h then h_ref h \<notin> ch_fired ch \<and> ch_fired ch' = insert (h_ref h) (ch_fired ch)
         else ch_fired ch' = ch_fired ch)) \<or>
     (dp_scheduled d' = dp_scheduled d \<and> ch_fired ch' = ch_fired ch)"
  using assms by (auto simp: roundOf_def split: if_splits)

lemma popHandler_simps [simp]:
  "handlersOf (popHandler g) = tl (handlersOf g)" "gr_pc (popHandler g) = gr_pc g"
  "dl_seq (gr_delivery (popHandler g)) = dl_seq (gr_delivery g)"
  by (simp_all add: popHandler_def)

lemma spawnOf_simps [simp]:
  "handlersOf (spawnOf d sq) = dp_scheduled d" "gr_pc (spawnOf d sq) = GRun"
  "dl_seq (gr_delivery (spawnOf d sq)) = sq"
  by (simp_all add: spawnOf_def)

lemma startDispatch_simps [simp]:
  "dp_todo (startDispatch c m ch) = handlersSnapshot ch" "dp_scheduled (startDispatch c m ch) = []"
  "dp_pc (startDispatch c m ch) = DLoop"
  by (simp_all add: startDispatch_def)

lemma activityBegin_cases:
  assumes "activityBegin ch = (ch', sq)"
  shows "handlersSnapshot ch' = handlersSnapshot ch" "ch_fired ch' = ch_fired ch" "ch_wg ch' = ch_wg ch"
    "ch_activity ch' = fst (act_begin (ch_activity ch))" "sq = ac_next (ch_activity ch) + 1"
proof -
  have "ch' = fst (activityBegin ch)" "sq = snd (activityBegin ch)" using assms by simp_all
  then show "handlersSnapshot ch' = handlersSnapshot ch" "ch_fired ch' = ch_fired ch" "ch_wg ch' = ch_wg ch"
    "ch_activity ch' = fst (act_begin (ch_activity ch))" "sq = ac_next (ch_activity ch) + 1"
    by simp_all
qed

text \<open>The two halves of the invariant, preserved separately.\<close>

lemma known_subset:
  assumes "chanStep obj s t"
  shows "handlersKnown t \<subseteq> handlersKnown s \<union> range obj"
  using assms
proof (cases rule: chanStep.cases)
  case (Subscribe r)
  then show ?thesis by (auto simp: handlersKnown_def subscribe_snapshot)
next
  case (Unsubscribe u)
  then show ?thesis using unsubscribe_subset by (fastforce simp: handlersKnown_def)
next
  case (RemoveAt i ch')
  then show ?thesis using removeEventHandler_subset by (fastforce simp: handlersKnown_def)
next
  case (Round d D d' ch')
  then obtain h hs where todo: "dp_todo d = h # hs" by (cases "dp_todo d") auto
  have "set (dp_todo d') \<union> set (dp_scheduled d') \<subseteq> set (dp_todo d) \<union> set (dp_scheduled d)"
    using roundOf_cases [OF Round(5) todo] todo by auto
  then show ?thesis using Round(1,2) roundOf_cases(3) [OF Round(5) todo]
    by (auto simp: handlersKnown_def)
next
  case (Prune d D)
  then show ?thesis by (auto simp: handlersKnown_def prune_snapshot)
next
  case (BeginActivity d D ch' sq)
  then show ?thesis using activityBegin_cases [OF BeginActivity(4)] by (auto simp: handlersKnown_def)
next
  case (Deliver g G h hs)
  then show ?thesis by (auto simp: handlersKnown_def)
next
  case (Dispatch ctx msg)
  then show ?thesis by (auto simp: handlersKnown_def)
next
  case (LoopEnd d D ctxIsDone)
  then show ?thesis by (auto simp: handlersKnown_def)
next
  case (Spawn d D sq)
  then show ?thesis by (auto simp: handlersKnown_def)
next
  case (WgDone g G)
  then show ?thesis by (auto simp: handlersKnown_def)
next
  case (EndActivity g G)
  then show ?thesis by (auto simp: handlersKnown_def)
qed

lemma known_step:
  assumes "chanStep obj s t" and "\<forall>r. h_ref (obj r) = r" and "\<forall>h \<in> handlersKnown s. isObj obj h"
  shows "\<forall>h \<in> handlersKnown t. isObj obj h"
  using known_subset [OF assms(1)] assms(2,3) isObj_obj by blast

lemma count_step:
  assumes "chanStep obj s t" and "\<forall>r. h_ref (obj r) = r" and "once_inv obj s"
    and "h_runOnce (obj r)"
  shows "count (scheduledRefs t) r \<le> (if r \<in> ch_fired (sy_ch t) then 1 else 0)"
proof -
  have c: "count (scheduledRefs s) r \<le> (if r \<in> ch_fired (sy_ch s) then 1 else 0)"
    and k: "\<forall>h \<in> handlersKnown s. isObj obj h"
    using assms(3,4) by (auto simp: once_inv_def)
  from assms(1) show ?thesis
  proof (cases rule: chanStep.cases)
    case (RemoveAt i ch')
    then show ?thesis using c removeEventHandler_subset by (fastforce simp: scheduledRefs_def)
  next
    case (Round d D d' ch')
    then obtain h hs where todo: "dp_todo d = h # hs" by (cases "dp_todo d") auto
    have "isObj obj h" using k Round(2) todo by (auto simp: handlersKnown_def)
    then have once: "r = h_ref h \<Longrightarrow> h_runOnce h" using assms(4) by (metis isObj_def)
    define R where "R = scheduledRefs s - refsIn (dp_scheduled d)"
    have S: "scheduledRefs s = refsIn (dp_scheduled d) + R"
      using Round(2) by (simp add: R_def scheduledRefs_def)
    have T: "scheduledRefs t = refsIn (dp_scheduled d') + R"
      using Round(1,2) by (simp add: R_def scheduledRefs_def)
    have ch: "sy_ch t = ch'" using Round(1) by simp
    from roundOf_cases(6) [OF Round(5) todo] show ?thesis
    proof
      assume *: "dp_scheduled d' = dp_scheduled d @ [h] \<and>
        (if h_runOnce h then h_ref h \<notin> ch_fired (sy_ch s) \<and> ch_fired ch' = insert (h_ref h) (ch_fired (sy_ch s))
         else ch_fired ch' = ch_fired (sy_ch s))"
      show ?thesis
      proof (cases "r = h_ref h")
        case True
        then show ?thesis using * c once [OF True] unfolding S T ch by simp
      next
        case False
        then show ?thesis using * c unfolding S T ch by (simp split: if_splits)
      qed
    next
      assume "dp_scheduled d' = dp_scheduled d \<and> ch_fired ch' = ch_fired (sy_ch s)"
      then show ?thesis using c unfolding S T ch by simp
    qed
  next
    case (Deliver g G h hs)
    then show ?thesis using c by (auto simp: scheduledRefs_def split: if_splits)
  next
    case (BeginActivity d D ch' sq)
    then show ?thesis using c activityBegin_cases [OF BeginActivity(4)] by (auto simp: scheduledRefs_def)
  next
    case (Prune d D)
    then show ?thesis using c by (cases "dp_scheduled d = []") (auto simp: scheduledRefs_def split: if_splits)
  qed (use c in \<open>simp_all add: scheduledRefs_def\<close>)
qed

lemma once_inv_step:
  assumes "\<forall>r. h_ref (obj r) = r" and "once_inv obj s" and "chanStep obj s t"
  shows "once_inv obj t"
  using known_step [OF assms(3,1)] count_step [OF assms(3,1,2)] assms(2) by (auto simp: once_inv_def)

text \<open>The heap of handler objects that the steps run with: each object at its own reference.\<close>

definition heapOk :: "(ref \<Rightarrow> channelEventHandler) \<Rightarrow> bool" where
  "heapOk obj \<longleftrightarrow> (\<forall>r. h_ref (obj r) = r)"

interpretation once: stepper "chanStep obj" "\<lambda>s. heapOk obj \<and> once_inv obj s" for obj
  by unfold_locales (auto simp: heapOk_def intro: once_inv_step)

subsection \<open>The wait group and the outstanding set count the deliveries\<close>

definition running :: "chanSys \<Rightarrow> goroutine multiset" where
  "running s = filter_mset (\<lambda>g. gr_pc g = GRun) (sy_gor s)"

definition wg_inv :: "chanSys \<Rightarrow> bool" where
  "wg_inv s \<longleftrightarrow> ch_wg (sy_ch s) = int (size (running s)) \<and>
     (\<forall>g \<in># sy_gor s. gr_pc g = GEnding \<longrightarrow> handlersOf g = [])"

lemma wg_inv_init: "wg_inv (initSys n)"
  by (simp add: wg_inv_def initSys_def running_def)

lemma wg_inv_step:
  assumes "wg_inv s" and "chanStep obj s t"
  shows "wg_inv t"
  using assms(2)
proof (cases rule: chanStep.cases)
  case (RemoveAt i ch')
  then show ?thesis using assms(1) removeEventHandler_subset by (fastforce simp: wg_inv_def running_def)
next
  case (Round d D d' ch')
  then obtain h hs where todo: "dp_todo d = h # hs" by (cases "dp_todo d") auto
  then show ?thesis using assms(1) Round(1) roundOf_cases(1) [OF Round(5) todo]
    by (simp add: wg_inv_def running_def)
next
  case (BeginActivity d D ch' sq)
  then show ?thesis using assms(1) activityBegin_cases(3) [OF BeginActivity(4)]
    by (simp add: wg_inv_def running_def)
qed (use assms(1) in \<open>auto simp: wg_inv_def running_def\<close>)

interpretation waitGroup: stepper "chanStep obj" wg_inv for obj
  by unfold_locales (rule wg_inv_step)

text \<open>The sequence numbers in use: by a dispatcher between \<open>begin\<close> and \<open>go\<close>, and by every
  delivery goroutine.\<close>

definition seqsOf :: "chanSys \<Rightarrow> 64 word multiset" where
  "seqsOf s =
     \<Sum>\<^sub># (image_mset (\<lambda>d. case dp_pc d of DSpawn sq \<Rightarrow> {#sq#} | _ \<Rightarrow> {#}) (sy_disp s)) +
     image_mset (\<lambda>g. dl_seq (gr_delivery g)) (sy_gor s)"

definition seq_inv :: "chanSys \<Rightarrow> bool" where
  "seq_inv s \<longleftrightarrow> seqsOf s = mset_set (outSet (ch_activity (sy_ch s)))"

text \<open>Absent wrap-around: \<open>k\<close> steps begin at most \<open>k\<close> deliveries.\<close>

definition seq_ok :: "nat \<Rightarrow> chanSys \<Rightarrow> bool" where
  "seq_ok k s \<longleftrightarrow> seq_inv s \<and> unat (ac_next (ch_activity (sy_ch s))) \<le> k \<and>
     (\<forall>sq \<in> outSet (ch_activity (sy_ch s)). sq \<le> ac_next (ch_activity (sy_ch s)))"

lemma finite_outSet [simp]: "finite (outSet a)"
  by (simp add: outSet_def)

lemma seqs_step:
  assumes "chanStep obj s t" and "ch_activity (sy_ch t) = ch_activity (sy_ch s)"
    and "sy_gor t = sy_gor s \<and> sy_disp t = sy_disp s"
  shows "seq_ok k s \<Longrightarrow> seq_ok (Suc k) t"
  using assms by (auto simp: seq_ok_def seq_inv_def seqsOf_def)

lemma seq_ok_same:
  assumes "ch_activity (sy_ch t) = ch_activity (sy_ch s)" and "seqsOf t = seqsOf s" and "seq_ok k s"
  shows "seq_ok (Suc k) t"
  using assms by (auto simp: seq_ok_def seq_inv_def)

lemma prune_if_activity [simp]:
  "ch_activity (if b then pruneFiredRunOnceHandlers c else c) = ch_activity c"
  by simp

lemma seq_ok_step:
  assumes "seq_ok k s" and "Suc k < 2 ^ 64" and "chanStep obj s t"
  shows "seq_ok (Suc k) t"
  using assms(3)
proof (cases rule: chanStep.cases)
  case (BeginActivity d D ch' sq)
  let ?a = "ch_activity (sy_ch s)"
  have sq: "sq = ac_next ?a + 1" and act: "ch_activity ch' = fst (act_begin ?a)"
    using activityBegin_cases [OF BeginActivity(4)] by auto
  have "unat (ac_next ?a) \<le> k" using assms(1) by (simp add: seq_ok_def)
  then have u: "unat sq = Suc (unat (ac_next ?a))"
    using assms(2) sq by (simp add: unat_word_ariths)
  then have lt: "ac_next ?a < sq" by (simp add: word_less_nat_alt)
  then have new: "sq \<notin> outSet ?a" using assms(1) by (auto simp: seq_ok_def)
  have "seqsOf t = add_mset sq (seqsOf s)" using BeginActivity(1-3) by (simp add: seqsOf_def)
  then have "seqsOf t = mset_set (insert sq (outSet ?a))"
    using new assms(1) by (simp add: seq_ok_def seq_inv_def)
  moreover have "x \<le> sq" if "x \<in> outSet ?a" for x
    using that lt assms(1) by (fastforce simp: seq_ok_def)
  ultimately show ?thesis
    using BeginActivity(1) act u sq assms(1) by (simp add: seq_ok_def seq_inv_def)
next
  case (EndActivity g G)
  have "seqsOf t = seqsOf s - {#dl_seq (gr_delivery g)#}"
    using EndActivity(1,2) by (simp add: seqsOf_def)
  moreover have "dl_seq (gr_delivery g) \<in># seqsOf s" using EndActivity(2) by (simp add: seqsOf_def)
  then have "dl_seq (gr_delivery g) \<in> outSet (ch_activity (sy_ch s))"
    using assms(1) by (simp add: seq_ok_def seq_inv_def)
  ultimately show ?thesis
    using EndActivity(1) assms(1) by (auto simp: seq_ok_def seq_inv_def mset_set_Diff)
next
  case (Round d D d' ch')
  then obtain h hs where todo: "dp_todo d = h # hs" by (cases "dp_todo d") auto
  show ?thesis
    by (rule seq_ok_same [OF _ _ assms(1)])
      (use Round(1-3) roundOf_cases [OF Round(5) todo] in \<open>simp_all add: seqsOf_def\<close>)
next
  case (RemoveAt i ch')
  show ?thesis
    by (rule seq_ok_same [OF _ _ assms(1)])
      (use RemoveAt removeEventHandler_subset in \<open>fastforce simp: seqsOf_def\<close>)+
next
  case (Prune d D)
  then show ?thesis
    by (intro seq_ok_same [OF _ _ assms(1)]) (simp_all add: seqsOf_def)
qed (rule seq_ok_same [OF _ _ assms(1)]; simp add: seqsOf_def)+

lemma seq_ok_init: "seq_ok 0 (initSys n)"
  by (simp add: seq_ok_def seq_inv_def seqsOf_def initSys_def)

lemma seq_ok_run: "(chanStep obj ^^ k) (initSys n) s \<Longrightarrow> k < 2 ^ 64 \<Longrightarrow> seq_ok k s"
proof (induction k arbitrary: s)
  case 0
  then have "s = initSys n" by simp
  then show ?case using seq_ok_init by simp
next
  case (Suc k)
  then obtain s' where s': "(chanStep obj ^^ k) (initSys n) s'" "chanStep obj s' s" by auto
  then have "seq_ok k s'" using Suc by simp
  then show ?case using seq_ok_step s'(2) Suc.prems(2) by blast
qed

subsection \<open>A concrete run\<close>

text \<open>One run-once handler, one message: subscribe, dispatch, deliver.\<close>

definition demoHeap :: "ref \<Rightarrow> channelEventHandler" where
  "demoHeap r = \<lparr>h_ref = r, h_callBackFunction = Some 7, h_contextCallBackFunction = None,
     h_runOnce = True, h_uuid = Some 1\<rparr>"

definition demoMsg :: message where
  "demoMsg = GenerateResponse 5 zeroConfig"

definition demoChannel :: channel where
  "demoChannel = subscribeHandler (demoHeap 0) (NewChannel ''news'')"

definition demoDisp :: "channelEventHandler list \<Rightarrow> channelEventHandler list \<Rightarrow> bool \<Rightarrow> dispatchPc \<Rightarrow> dispatcher" where
  "demoDisp todo sched p pc =
     \<lparr>dp_ctx = CBackground, dp_message = demoMsg, dp_todo = todo, dp_scheduled = sched,
      dp_prune = p, dp_pc = pc\<rparr>"

definition demoFired :: channel where "demoFired = setFired {0} demoChannel"

definition demoBegun :: channel where
  "demoBegun = fst (activityBegin (pruneFiredRunOnceHandlers demoFired))"

definition demoState :: "channel \<Rightarrow> dispatcher multiset \<Rightarrow> goroutine multiset \<Rightarrow> (ref \<times> message) list \<Rightarrow> chanSys" where
  "demoState c d g l = \<lparr>sy_ch = c, sy_disp = d, sy_gor = g, sy_log = l\<rparr>"

definition demoEnd :: chanSys where
  "demoEnd = demoState (wgAdd (- 1) (wgAdd 1 demoBegun)) {#}
     {#popHandler (spawnOf (demoDisp [] [demoHeap 0] True (DSpawn 1)) 1)\<lparr>gr_pc := GEnding\<rparr>#} [(0, demoMsg)]"

lemmas demo_defs = demoState_def demoDisp_def demoFired_def demoBegun_def demoEnd_def

lemma demo_heapOk: "heapOk demoHeap" by (simp add: heapOk_def demoHeap_def)

lemma demo_snapshot: "handlersSnapshot demoChannel = [demoHeap 0]" "ch_fired demoChannel = {}"
  "ch_activity demoChannel = newChannelActivity" "ch_wg demoChannel = 0"
  by (simp_all add: demoChannel_def subscribe_snapshot)

lemma demo_activity: "ch_activity demoBegun = fst (act_begin newChannelActivity)" "ch_wg demoBegun = 0"
  "activityBegin (pruneFiredRunOnceHandlers demoFired) = (demoBegun, 1)"
proof -
  show "ch_activity demoBegun = fst (act_begin newChannelActivity)" "ch_wg demoBegun = 0"
    by (simp_all add: demoBegun_def demoFired_def demo_snapshot)
  have "snd (activityBegin (pruneFiredRunOnceHandlers demoFired)) = 1"
    by (simp add: demoFired_def demo_snapshot)
  then show "activityBegin (pruneFiredRunOnceHandlers demoFired) = (demoBegun, 1)"
    by (simp add: demoBegun_def prod_eq_iff)
qed

lemma demo_run: "(chanStep demoHeap ^^ 9) (initSys ''news'') demoEnd"
proof -
  let ?h = "demoHeap 0"
  let ?g = "spawnOf (demoDisp [] [?h] True (DSpawn 1)) 1"
  have 1: "chanStep demoHeap (initSys ''news'') (demoState demoChannel {#} {#} [])"
    using Subscribe [of demoHeap "initSys ''news''" 0] by (simp add: initSys_def demoState_def demoChannel_def)
  have 2: "chanStep demoHeap (demoState demoChannel {#} {#} []) (demoState demoChannel {#demoDisp [?h] [] False DLoop#} {#} [])"
    using Dispatch [of demoHeap "demoState demoChannel {#} {#} []" None demoMsg]
    by (simp add: demoState_def demoDisp_def startDispatch_def demo_snapshot normalizeContext_def)
  have r: "roundOf (demoDisp [?h] [] False DLoop) demoChannel = (demoDisp [] [?h] True DLoop, demoFired)"
    by (simp add: roundOf_def demoDisp_def demo_snapshot demoHeap_def demoFired_def)
  have 3: "chanStep demoHeap (demoState demoChannel {#demoDisp [?h] [] False DLoop#} {#} [])
      (demoState demoFired {#demoDisp [] [?h] True DLoop#} {#} [])"
    using Round [of "demoState demoChannel {#demoDisp [?h] [] False DLoop#} {#} []"
        "demoDisp [?h] [] False DLoop" "{#}" "demoDisp [] [?h] True DLoop" demoFired demoHeap] r
    by (simp add: demoState_def) (simp add: demoDisp_def)
  have 4: "chanStep demoHeap (demoState demoFired {#demoDisp [] [?h] True DLoop#} {#} [])
      (demoState demoFired {#demoDisp [] [?h] True DPrune#} {#} [])"
    using LoopEnd [of "demoState demoFired {#demoDisp [] [?h] True DLoop#} {#} []"
        "demoDisp [] [?h] True DLoop" "{#}" True demoHeap]
    by (simp add: demoState_def demoDisp_def)
  let ?c = "pruneFiredRunOnceHandlers demoFired"
  have 5: "chanStep demoHeap (demoState demoFired {#demoDisp [] [?h] True DPrune#} {#} [])
      (demoState ?c {#demoDisp [] [?h] True DBegin#} {#} [])"
    using Prune [of "demoState demoFired {#demoDisp [] [?h] True DPrune#} {#} []"
        "demoDisp [] [?h] True DPrune" "{#}" demoHeap]
    by (simp add: demoState_def demoDisp_def)
  have 6: "chanStep demoHeap (demoState ?c {#demoDisp [] [?h] True DBegin#} {#} [])
      (demoState demoBegun {#demoDisp [] [?h] True (DSpawn 1)#} {#} [])"
    using BeginActivity [of "demoState ?c {#demoDisp [] [?h] True DBegin#} {#} []"
        "demoDisp [] [?h] True DBegin" "{#}" demoBegun 1 demoHeap]
    by (simp add: demoState_def demoDisp_def demo_activity)
  have 7: "chanStep demoHeap (demoState demoBegun {#demoDisp [] [?h] True (DSpawn 1)#} {#} [])
      (demoState (wgAdd 1 demoBegun) {#} {#?g#} [])"
    using Spawn [of "demoState demoBegun {#demoDisp [] [?h] True (DSpawn 1)#} {#} []"
        "demoDisp [] [?h] True (DSpawn 1)" "{#}" 1 demoHeap]
    by (simp add: demoState_def demoDisp_def)
  have 8: "chanStep demoHeap (demoState (wgAdd 1 demoBegun) {#} {#?g#} [])
      (demoState (wgAdd 1 demoBegun) {#} {#popHandler ?g#} [(0, demoMsg)])"
    using Deliver [of "demoState (wgAdd 1 demoBegun) {#} {#?g#} []" ?g "{#}" ?h "[]" demoHeap]
    by (simp add: demoState_def demoDisp_def spawnOf_def demoHeap_def)
  have 9: "chanStep demoHeap (demoState (wgAdd 1 demoBegun) {#} {#popHandler ?g#} [(0, demoMsg)]) demoEnd"
    using WgDone [of "demoState (wgAdd 1 demoBegun) {#} {#popHandler ?g#} [(0, demoMsg)]" "popHandler ?g" "{#}" demoHeap]
    by (simp add: demoState_def demoEnd_def demoDisp_def)
  have nine: "(9::nat) = Suc (Suc (Suc (Suc (Suc (Suc (Suc (Suc (Suc 0))))))))" by simp
  show ?thesis unfolding nine
    by (rule relpowp_Suc_I [where P = "chanStep demoHeap", OF _ 9], rule relpowp_Suc_I [where P = "chanStep demoHeap", OF _ 8], rule relpowp_Suc_I [where P = "chanStep demoHeap", OF _ 7],
        rule relpowp_Suc_I [where P = "chanStep demoHeap", OF _ 6], rule relpowp_Suc_I [where P = "chanStep demoHeap", OF _ 5], rule relpowp_Suc_I [where P = "chanStep demoHeap", OF _ 4],
        rule relpowp_Suc_I [where P = "chanStep demoHeap", OF _ 3], rule relpowp_Suc_I [where P = "chanStep demoHeap", OF _ 2], rule relpowp_Suc_I [where P = "chanStep demoHeap", OF _ 1])
      (rule relpowp_0_I)
qed

lemma demo_reach: "(chanStep demoHeap)\<^sup>*\<^sup>* (initSys ''news'') demoEnd"
  using demo_run by (rule relpowp_imp_rtranclp)

subsection \<open>Properties\<close>

text \<open>However dispatches, subscriptions and deliveries interleave on a channel, a handler
  registered with \<open>runOnce\<close> receives at most one message.\<close>

theorem runOnce_at_most_once:
  assumes "heapOk obj" and "(chanStep obj)\<^sup>*\<^sup>* (initSys n) s" and "h_runOnce (obj r)"
  shows "length (filter (\<lambda>(r', m). r' = r) (sy_log s)) \<le> 1"
proof -
  have "once_inv obj s" using once.inv_star [OF assms(2)] assms(1) once_inv_init by blast
  then have "count (scheduledRefs s) r \<le> (if r \<in> ch_fired (sy_ch s) then 1 else 0)"
    using assms(3) unfolding once_inv_def by blast
  then have "count (scheduledRefs s) r \<le> 1" by (simp split: if_splits)
  then have "count (mset (map fst (sy_log s))) r \<le> 1" by (simp add: scheduledRefs_def)
  moreover have "count (mset (map fst l)) r = length (filter (\<lambda>(r', m). r' = r) l)" for l :: "(ref \<times> message) list"
    by (induction l) auto
  ultimately show ?thesis by simp
qed

lemma runOnce_at_most_once_witness:
  "(chanStep demoHeap)\<^sup>*\<^sup>* (initSys ''news'') demoEnd \<and> sy_log demoEnd = [(0, demoMsg)] \<and>
   length (filter (\<lambda>(r', m). r' = 0) (sy_log demoEnd)) \<le> 1"
  using runOnce_at_most_once [OF demo_heapOk demo_reach, of 0] demo_reach
  by (simp add: demoHeap_def demoEnd_def demoState_def)

text \<open>C15: the wait group counts the deliveries in progress: it is never negative (\<open>Done\<close> would
  panic), and when it is zero, so that \<open>WaitForChannel\<close> returns, every goroutine that was
  spawned has called all its handlers.\<close>

theorem waitGroup_counts_deliveries:
  assumes "(chanStep obj)\<^sup>*\<^sup>* (initSys n) s"
  shows "0 \<le> ch_wg (sy_ch s) \<and> (ch_wg (sy_ch s) = 0 \<longrightarrow> (\<forall>g \<in># sy_gor s. handlersOf g = []))"
proof -
  have inv: "wg_inv s" using waitGroup.inv_star [OF assms] wg_inv_init by blast
  then have "0 \<le> ch_wg (sy_ch s)" by (simp add: wg_inv_def)
  moreover have "handlersOf g = []" if "ch_wg (sy_ch s) = 0" "g \<in># sy_gor s" for g
  proof -
    have "running s = {#}" using inv that(1) by (simp add: wg_inv_def)
    moreover have "g \<in># running s" if "gr_pc g = GRun" using that \<open>g \<in># sy_gor s\<close> by (simp add: running_def)
    ultimately have "gr_pc g \<noteq> GRun" by auto
    then show ?thesis using inv that(2) by (cases "gr_pc g") (auto simp: wg_inv_def)
  qed
  ultimately show ?thesis by blast
qed

lemma waitGroup_counts_deliveries_witness:
  "0 \<le> ch_wg (sy_ch demoEnd) \<and> ch_wg (sy_ch demoEnd) = 0"
  using waitGroup_counts_deliveries [OF demo_reach]
  by (simp add: demoEnd_def demoState_def demo_activity)

text \<open>When nothing newer than \<open>start\<close> is outstanding, the condition under which a wait for
  quiescence returns nil, every delivery goroutine in flight carries a sequence number up to
  \<open>start\<close>: all deliveries of later dispatches are finished, handlers and wait group included.\<close>

theorem quiescent_deliveries_done:
  assumes "(chanStep obj ^^ k) (initSys n) s" and "k < 2 ^ 64"
    and "outSet (ch_activity (sy_ch s)) \<subseteq> {..start}"
  shows "\<forall>g \<in># sy_gor s. dl_seq (gr_delivery g) \<le> start"
proof
  fix g assume "g \<in># sy_gor s"
  then have "dl_seq (gr_delivery g) \<in># seqsOf s" by (simp add: seqsOf_def)
  moreover have "seq_inv s" using seq_ok_run [OF assms(1,2)] by (simp add: seq_ok_def)
  ultimately show "dl_seq (gr_delivery g) \<le> start"
    using assms(3) by (auto simp: seq_inv_def)
qed

lemma quiescent_deliveries_done_witness:
  "dl_seq (gr_delivery (spawnOf (demoDisp [] [demoHeap 0] True (DSpawn 1)) 1)) \<le> 1"
  using quiescent_deliveries_done [OF demo_run, of 1]
  by (simp add: demoEnd_def demoState_def demo_activity)

end
