(* ===== verification/ChannelManager.thy ===== *)
theory ChannelManager
  imports Channel MonitorEvents
begin

text \<open>
  bus/channel_manager.go: the channels of a bus by name, over a heap of channel objects (a
  message handler keeps a pointer to its channel beyond the channel's removal from the map),
  and the monitor events of the operations.
\<close>

record chanMgr =
  cm_channels :: "(string, ref) gomap"
  cm_heap :: "channel list"
  cm_hrefs :: ref
  cm_monitor :: "nat monitor"
  cm_events :: "(monitorEvent \<times> nat list) list"

definition chanAt :: "('a chanMgr_scheme) \<Rightarrow> ref \<Rightarrow> channel" where
  "chanAt m r = cm_heap m ! r"

definition setChan :: "ref \<Rightarrow> channel \<Rightarrow> 'a chanMgr_scheme \<Rightarrow> 'a chanMgr_scheme" where
  "setChan r c m = m\<lparr>cm_heap := (cm_heap m)[r := c]\<rparr>"

text \<open>\<open>SendMonitorEvent\<close>: the event with the listeners that are called for it.\<close>

definition SendMonitorEvent :: "EventType \<Rightarrow> string \<Rightarrow> evData \<Rightarrow> 'a chanMgr_scheme \<Rightarrow> 'a chanMgr_scheme" where
  "SendMonitorEvent evtType entityName payload m =
     (let ev = NewEvent evtType entityName payload
      in m\<lparr>cm_events := cm_events m @ [(ev, sendEvent (cm_monitor m) ev)]\<rparr>)"

definition GetChannel :: "string \<Rightarrow> 'a chanMgr_scheme \<Rightarrow> ref res" where
  "GetChannel name m =
     (case gm_get (cm_channels m) name of
        Some r \<Rightarrow> Inr r
      | None \<Rightarrow> Inl (''Channel does not exist: '' @ name))"

definition GetAllChannels :: "'a chanMgr_scheme \<Rightarrow> (string, ref) gomap" where
  "GetAllChannels m = cm_channels m"

definition CheckChannelExists :: "string \<Rightarrow> 'a chanMgr_scheme \<Rightarrow> bool" where
  "CheckChannelExists name m = (gm_get (cm_channels m) name \<noteq> None)"

definition CreateChannel :: "string \<Rightarrow> 'a chanMgr_scheme \<Rightarrow> 'a chanMgr_scheme \<times> ref" where
  "CreateChannel name m =
     (case gm_get (cm_channels m) name of
        Some r \<Rightarrow> (m, r)
      | None \<Rightarrow>
          (let r = length (cm_heap m);
               m1 = m\<lparr>cm_heap := cm_heap m @ [NewChannel name],
                      cm_channels := gm_set name r (cm_channels m)\<rparr>
           in (SendMonitorEvent ChannelCreatedEvt name EvNil m1, r)))"

text \<open>The loop over the closed subscriptions. \<open>unsub\<close> is the broker's \<open>Unsubscribe\<close>,
  \<open>newId\<close> the id of the generated message.\<close>

fun notifyUnsubscribed ::
  "(busSub \<Rightarrow> err option) \<Rightarrow> uuid \<Rightarrow> string \<Rightarrow> ref \<Rightarrow> connectionSub list \<Rightarrow> 'a chanMgr_scheme \<Rightarrow> 'a chanMgr_scheme" where
  "notifyUnsubscribed unsub newId name r [] m = m"
| "notifyUnsubscribed unsub newId name r (cs # css) m =
     (case cs_s cs of
        None \<Rightarrow> notifyUnsubscribed unsub newId name r css m
      | Some s \<Rightarrow>
          (case unsub s of
             Some e \<Rightarrow> notifyUnsubscribed unsub newId name r css m
           | None \<Rightarrow>
               (let msg = GenerateResponse newId (zeroConfig\<lparr>mc_Payload := GString (su_Destination s)\<rparr>);
                    m1 = SendMonitorEvent BrokerUnsubscribedEvt name (EvMessage msg) m;
                    m2 = setChan r (mappedEvent False (chanAt m1 r)) m1
                in notifyUnsubscribed unsub newId name r css m2)))"

definition mgrCloseBrokerSubscriptions ::
  "(busSub \<Rightarrow> err option) \<Rightarrow> uuid \<Rightarrow> string \<Rightarrow> ref \<Rightarrow> 'a chanMgr_scheme \<Rightarrow> 'a chanMgr_scheme" where
  "mgrCloseBrokerSubscriptions unsub newId name r m =
     (let (c, subs) = closeBrokerSubscriptions (chanAt m r)
      in notifyUnsubscribed unsub newId name r subs (setChan r c m))"

definition DestroyChannel ::
  "(busSub \<Rightarrow> err option) \<Rightarrow> uuid \<Rightarrow> string \<Rightarrow> 'a chanMgr_scheme \<Rightarrow> 'a chanMgr_scheme" where
  "DestroyChannel unsub newId name m =
     (let destroyed = gm_get (cm_channels m) name;
          m1 = m\<lparr>cm_channels := gm_del name (cm_channels m)\<rparr>
      in case destroyed of
           None \<Rightarrow> m1
         | Some r \<Rightarrow>
             SendMonitorEvent ChannelDestroyedEvt name EvNil
               (mgrCloseBrokerSubscriptions unsub newId name r m1))"

definition newEventHandler ::
  "nat option \<Rightarrow> ctxFn option \<Rightarrow> bool \<Rightarrow> uuid \<Rightarrow> ref \<Rightarrow> channelEventHandler" where
  "newEventHandler fn cfn once i r =
     \<lparr>h_ref = r, h_callBackFunction = fn, h_contextCallBackFunction = cfn, h_runOnce = once, h_uuid = Some i\<rparr>"

definition subscribeNew ::
  "string \<Rightarrow> nat option \<Rightarrow> ctxFn option \<Rightarrow> bool \<Rightarrow> uuid \<Rightarrow> 'a chanMgr_scheme \<Rightarrow> 'a chanMgr_scheme \<times> uuid res" where
  "subscribeNew name fn cfn runOnce newId m =
     (case GetChannel name m of
        Inl e \<Rightarrow> (m, Inl e)
      | Inr r \<Rightarrow>
          (let h = newEventHandler fn cfn runOnce newId (cm_hrefs m);
               m1 = setChan r (subscribeHandler h (chanAt m r)) (m\<lparr>cm_hrefs := cm_hrefs m + 1\<rparr>)
           in (SendMonitorEvent ChannelSubscriberJoinedEvt name EvNil m1, Inr newId)))"

definition SubscribeChannelHandler ::
  "string \<Rightarrow> nat \<Rightarrow> bool \<Rightarrow> uuid \<Rightarrow> 'a chanMgr_scheme \<Rightarrow> 'a chanMgr_scheme \<times> uuid res" where
  "SubscribeChannelHandler name fn runOnce newId m = subscribeNew name (Some fn) None runOnce newId m"

definition SubscribeChannelHandlerContext ::
  "string \<Rightarrow> ctxFn \<Rightarrow> bool \<Rightarrow> uuid \<Rightarrow> 'a chanMgr_scheme \<Rightarrow> 'a chanMgr_scheme \<times> uuid res" where
  "SubscribeChannelHandlerContext name fn runOnce newId m = subscribeNew name None (Some fn) runOnce newId m"

text \<open>\<open>showId\<close> is the rendering of a \<open>*uuid.UUID\<close>.\<close>

definition UnsubscribeChannelHandler ::
  "(uuid option \<Rightarrow> string) \<Rightarrow> string \<Rightarrow> uuid option \<Rightarrow> 'a chanMgr_scheme \<Rightarrow> 'a chanMgr_scheme \<times> err option" where
  "UnsubscribeChannelHandler showId name uid m =
     (case GetChannel name m of
        Inl e \<Rightarrow> (m, Some e)
      | Inr r \<Rightarrow>
          (let (c, found) = unsubscribeHandler uid (chanAt m r); m1 = setChan r c m
           in if found then (SendMonitorEvent ChannelSubscriberLeftEvt name EvNil m1, None)
              else (m1, Some (''no handler in Channel '' @ squote name @ '' for uuid ['' @ showId uid @ '']''))))"

text \<open>\<open>WaitForChannel\<close> blocks while the wait group of the channel is not zero; the result
  says whether it returns in this state.\<close>

datatype waitOutcome = WaitBlocks | WaitReturns "err option"

definition WaitForChannel :: "string \<Rightarrow> 'a chanMgr_scheme \<Rightarrow> waitOutcome" where
  "WaitForChannel name m =
     (case GetChannel name m of
        Inl e \<Rightarrow> WaitReturns (Some (''no such Channel as '' @ squote name))
      | Inr r \<Rightarrow> if ch_wg (chanAt m r) = 0 then WaitReturns None else WaitBlocks)"

text \<open>\<open>subscribe\<close> is the connection's \<open>Subscribe\<close>. The second \<open>GetChannel\<close> finds the same
  channel as the first, as the two run under no concurrent change here.\<close>

record galacticEvent =
  ge_conn :: "uuid option"
  ge_dest :: string

definition handleGalacticChannelEvent ::
  "(uuid \<Rightarrow> string \<Rightarrow> busSub res) \<Rightarrow> uuid \<Rightarrow> string \<Rightarrow> galacticEvent \<Rightarrow> 'a chanMgr_scheme \<Rightarrow> 'a chanMgr_scheme" where
  "handleGalacticChannelEvent subscribe newId name ge m =
     (case (GetChannel name m, ge_conn ge) of
        (Inr r, Some conn) \<Rightarrow>
          (if isBrokerSubscribedToDestination conn (ge_dest ge) (chanAt m r) then m
           else (case subscribe conn (ge_dest ge) of
              Inl e \<Rightarrow> m
            | Inr sub \<Rightarrow>
                (let (c, added) = addBrokerSubscriptionIfMissing conn sub (chanAt m r) in
                 if \<not> added then m
                 else (let msg = GenerateResponse newId (zeroConfig\<lparr>mc_Payload := GString (ge_dest ge)\<rparr>);
                           m1 = SendMonitorEvent BrokerSubscribedEvt name (EvMessage msg) (setChan r c m)
                       in setChan r (mappedEvent True (chanAt m1 r)) m1))))
      | _ \<Rightarrow> m)"

definition MarkChannelAsGalactic ::
  "(uuid \<Rightarrow> string \<Rightarrow> busSub res) \<Rightarrow> uuid \<Rightarrow> string \<Rightarrow> string \<Rightarrow> uuid option \<Rightarrow> 'a chanMgr_scheme
     \<Rightarrow> 'a chanMgr_scheme \<times> err option" where
  "MarkChannelAsGalactic subscribe newId name dest conn m =
     (case GetChannel name m of
        Inl e \<Rightarrow> (m, Some e)
      | Inr r \<Rightarrow>
          (let m1 = setChan r (SetGalactic dest (chanAt m r)) m
           in (handleGalacticChannelEvent subscribe newId name \<lparr>ge_conn = conn, ge_dest = dest\<rparr> m1, None)))"

definition handleLocalChannelEvent ::
  "(busSub \<Rightarrow> err option) \<Rightarrow> uuid \<Rightarrow> string \<Rightarrow> 'a chanMgr_scheme \<Rightarrow> 'a chanMgr_scheme" where
  "handleLocalChannelEvent unsub newId name m =
     (case GetChannel name m of Inl e \<Rightarrow> m | Inr r \<Rightarrow> mgrCloseBrokerSubscriptions unsub newId name r m)"

definition MarkChannelAsLocal ::
  "(busSub \<Rightarrow> err option) \<Rightarrow> uuid \<Rightarrow> string \<Rightarrow> 'a chanMgr_scheme \<Rightarrow> 'a chanMgr_scheme \<times> err option" where
  "MarkChannelAsLocal unsub newId name m =
     (case GetChannel name m of
        Inl e \<Rightarrow> (m, Some e)
      | Inr r \<Rightarrow> (handleLocalChannelEvent unsub newId name (setChan r (SetLocal (chanAt m r)) m), None))"

definition newManager :: chanMgr where
  "newManager = \<lparr>cm_channels = gm_empty, cm_heap = [], cm_hrefs = 0, cm_monitor = newMonitor, cm_events = []\<rparr>"

subsection \<open>Frame lemmas\<close>

lemma SendMonitorEvent_simps [simp]:
  "cm_channels (SendMonitorEvent t n p m) = cm_channels m" "cm_heap (SendMonitorEvent t n p m) = cm_heap m"
  "cm_hrefs (SendMonitorEvent t n p m) = cm_hrefs m" "cm_monitor (SendMonitorEvent t n p m) = cm_monitor m"
  "chanMgr.more (SendMonitorEvent t n p m) = chanMgr.more m"
  "map fst (cm_events (SendMonitorEvent t n p m)) = map fst (cm_events m) @ [NewEvent t n p]"
  "chanAt (SendMonitorEvent t n p m) r = chanAt m r"
  by (simp_all add: SendMonitorEvent_def Let_def chanAt_def)

lemma setChan_simps [simp]:
  "cm_channels (setChan r c m) = cm_channels m" "cm_heap (setChan r c m) = (cm_heap m)[r := c]"
  "cm_hrefs (setChan r c m) = cm_hrefs m" "cm_monitor (setChan r c m) = cm_monitor m"
  "cm_events (setChan r c m) = cm_events m" "chanMgr.more (setChan r c m) = chanMgr.more m"
  by (simp_all add: setChan_def)

lemma chanAt_setChan: "r < length (cm_heap m) \<Longrightarrow> chanAt (setChan r c m) r' = (if r' = r then c else chanAt m r')"
  by (simp add: chanAt_def)

subsection \<open>The life of channels\<close>

text \<open>The creation and destruction events of one channel name, oldest first.\<close>

definition lifeOf :: "string \<Rightarrow> 'a chanMgr_scheme \<Rightarrow> EventType list" where
  "lifeOf name m =
     filter (\<lambda>t. t = ChannelCreatedEvt \<or> t = ChannelDestroyedEvt)
       (map ev_EventType (filter (\<lambda>e. ev_EntityName e = name) (map fst (cm_events m))))"

lemma lifeOf_Send [simp]:
  "lifeOf name (SendMonitorEvent t n p m) =
     lifeOf name m @ (if n = name \<and> (t = ChannelCreatedEvt \<or> t = ChannelDestroyedEvt) then [t] else [])"
  by (simp add: lifeOf_def)

lemma lifeOf_setChan [simp]: "lifeOf name (setChan r c m) = lifeOf name m"
  by (simp add: lifeOf_def)

lemma lifeOf_update [simp]:
  "lifeOf name (m\<lparr>cm_heap := h\<rparr>) = lifeOf name m" "lifeOf name (m\<lparr>cm_channels := cs\<rparr>) = lifeOf name m"
  "lifeOf name (m\<lparr>cm_hrefs := i\<rparr>) = lifeOf name m" "lifeOf name (m\<lparr>cm_monitor := mo\<rparr>) = lifeOf name m"
  by (simp_all add: lifeOf_def)

lemma other_events [simp]:
  "ChannelCreatedEvt \<noteq> ChannelDestroyedEvt" "BrokerUnsubscribedEvt \<noteq> ChannelCreatedEvt"
  "BrokerUnsubscribedEvt \<noteq> ChannelDestroyedEvt" "BrokerSubscribedEvt \<noteq> ChannelCreatedEvt"
  "BrokerSubscribedEvt \<noteq> ChannelDestroyedEvt" "ChannelSubscriberJoinedEvt \<noteq> ChannelCreatedEvt"
  "ChannelSubscriberJoinedEvt \<noteq> ChannelDestroyedEvt" "ChannelSubscriberLeftEvt \<noteq> ChannelCreatedEvt"
  "ChannelSubscriberLeftEvt \<noteq> ChannelDestroyedEvt" "ChannelDestroyedEvt \<noteq> ChannelCreatedEvt"
  by (simp_all add: EventType_defs)

definition names :: "'a chanMgr_scheme \<Rightarrow> string list" where
  "names m = map ch_Name (cm_heap m)"

lemma names_simps [simp]:
  "names (SendMonitorEvent t n p m) = names m" "names (m\<lparr>cm_channels := cs\<rparr>) = names m"
  "names (m\<lparr>cm_hrefs := i\<rparr>) = names m" "names (m\<lparr>cm_monitor := mo\<rparr>) = names m"
  by (simp_all add: names_def)

lemma names_setChan [simp]: "ch_Name c = ch_Name (chanAt m r) \<Longrightarrow> names (setChan r c m) = names m"
  unfolding names_def setChan_simps map_update chanAt_def
  by (metis list_update_beyond list_update_id map_update not_le_imp_less)

lemma chanAt_update [simp]:
  "chanAt (m\<lparr>cm_hrefs := i\<rparr>) r = chanAt m r" "chanAt (m\<lparr>cm_channels := cs\<rparr>) r = chanAt m r"
  by (simp_all add: chanAt_def)

lemma ch_Name_simps [simp]:
  "ch_Name (mappedEvent b c) = ch_Name c" "ch_Name (SetGalactic d c) = ch_Name c" "ch_Name (SetLocal c) = ch_Name c"
  "ch_Name (fst (addBrokerSubscriptionIfMissing cn su c)) = ch_Name c"
  "ch_Name (fst (closeBrokerSubscriptions c)) = ch_Name c"
  by (simp_all add: mappedEvent_def SetGalactic_def SetLocal_def addBrokerSubscriptionIfMissing_def
      closeBrokerSubscriptions_def Let_def)

lemma notify_frame [simp]:
  "cm_channels (notifyUnsubscribed u i n r css m) = cm_channels m"
  "names (notifyUnsubscribed u i n r css m) = names m"
  "lifeOf name (notifyUnsubscribed u i n r css m) = lifeOf name m"
  "cm_hrefs (notifyUnsubscribed u i n r css m) = cm_hrefs m"
  "cm_monitor (notifyUnsubscribed u i n r css m) = cm_monitor m"
  "chanMgr.more (notifyUnsubscribed u i n r css m) = chanMgr.more m"
  by (induction css arbitrary: m) (auto simp: Let_def split: option.splits)

lemma mgrClose_frame [simp]:
  "cm_channels (mgrCloseBrokerSubscriptions u i n r m) = cm_channels m"
  "names (mgrCloseBrokerSubscriptions u i n r m) = names m"
  "lifeOf name (mgrCloseBrokerSubscriptions u i n r m) = lifeOf name m"
  "cm_hrefs (mgrCloseBrokerSubscriptions u i n r m) = cm_hrefs m"
  "cm_monitor (mgrCloseBrokerSubscriptions u i n r m) = cm_monitor m"
  by (simp_all add: mgrCloseBrokerSubscriptions_def case_prod_beta)

lemma subscribeNew_frame [simp]:
  "cm_channels (fst (subscribeNew n f g b i m)) = cm_channels m"
  "names (fst (subscribeNew n f g b i m)) = names m"
  "lifeOf name (fst (subscribeNew n f g b i m)) = lifeOf name m"
  by (auto simp: subscribeNew_def GetChannel_def Let_def split: option.splits sum.splits)

lemma Unsubscribe_frame [simp]:
  "cm_channels (fst (UnsubscribeChannelHandler sh n u m)) = cm_channels m"
  "names (fst (UnsubscribeChannelHandler sh n u m)) = names m"
  "lifeOf name (fst (UnsubscribeChannelHandler sh n u m)) = lifeOf name m"
  by (auto simp: UnsubscribeChannelHandler_def GetChannel_def Let_def case_prod_beta split: option.splits sum.splits)

lemma galactic_frame [simp]:
  "cm_channels (handleGalacticChannelEvent sb i n ge m) = cm_channels m"
  "names (handleGalacticChannelEvent sb i n ge m) = names m"
  "lifeOf name (handleGalacticChannelEvent sb i n ge m) = lifeOf name m"
  by (auto simp: handleGalacticChannelEvent_def GetChannel_def Let_def case_prod_beta split: option.splits sum.splits)

datatype mgrOp =
    OpCreate string
  | OpDestroy uuid string
  | OpSubscribe string nat bool uuid
  | OpSubscribeContext string ctxFn bool uuid
  | OpUnsubscribe string "uuid option"
  | OpGalactic uuid string string "uuid option"
  | OpLocal uuid string
  | OpListen nat "EventType list"
  | OpUnlisten listenerId

text \<open>What the broker's interfaces answer is a parameter of a run.\<close>

record brokerOracle =
  or_unsub :: "busSub \<Rightarrow> err option"
  or_subscribe :: "uuid \<Rightarrow> string \<Rightarrow> busSub res"
  or_showId :: "uuid option \<Rightarrow> string"

fun mgrStep :: "brokerOracle \<Rightarrow> 'a chanMgr_scheme \<Rightarrow> mgrOp \<Rightarrow> 'a chanMgr_scheme" where
  "mgrStep br m (OpCreate n) = fst (CreateChannel n m)"
| "mgrStep br m (OpDestroy i n) = DestroyChannel (or_unsub br) i n m"
| "mgrStep br m (OpSubscribe n f b i) = fst (SubscribeChannelHandler n f b i m)"
| "mgrStep br m (OpSubscribeContext n f b i) = fst (SubscribeChannelHandlerContext n f b i m)"
| "mgrStep br m (OpUnsubscribe n u) = fst (UnsubscribeChannelHandler (or_showId br) n u m)"
| "mgrStep br m (OpGalactic i n d c) = fst (MarkChannelAsGalactic (or_subscribe br) i n d c m)"
| "mgrStep br m (OpLocal i n) = fst (MarkChannelAsLocal (or_unsub br) i n m)"
| "mgrStep br m (OpListen l ts) = m\<lparr>cm_monitor := fst (addListener l ts (cm_monitor m))\<rparr>"
| "mgrStep br m (OpUnlisten i) = m\<lparr>cm_monitor := removeListener i (cm_monitor m)\<rparr>"

text \<open>Well-formed managers: distinct names, and the object a name maps to has that name.\<close>

definition mgr_ok :: "'a chanMgr_scheme \<Rightarrow> bool" where
  "mgr_ok m = (gm_ok (cm_channels m) \<and>
     (\<forall>n r. gm_get (cm_channels m) n = Some r \<longrightarrow> r < length (names m) \<and> names m ! r = n))"

text \<open>What a sequence of life events says about a channel: gone or there at the end, or an
  impossible sequence (a destruction without a creation, a second creation).\<close>

fun runLife :: "bool \<Rightarrow> EventType list \<Rightarrow> bool option" where
  "runLife b [] = Some b"
| "runLife b (t # ts) =
     (if t = (if b then ChannelDestroyedEvt else ChannelCreatedEvt) then runLife (\<not> b) ts else None)"

lemma runLife_snoc: "runLife b (ts @ [t]) = Option.bind (runLife b ts) (\<lambda>c. runLife c [t])"
  by (induction ts arbitrary: b) auto

definition life_ok :: "'a chanMgr_scheme \<Rightarrow> bool" where
  "life_ok m = (mgr_ok m \<and> (\<forall>n. runLife False (lifeOf n m) = Some (CheckChannelExists n m)))"

lemma life_ok_same:
  assumes "cm_channels m' = cm_channels m" "names m' = names m" "\<And>n. lifeOf n m' = lifeOf n m" "life_ok m"
  shows "life_ok m'"
  using assms by (simp add: life_ok_def mgr_ok_def CheckChannelExists_def)

lemma life_ok_create: "life_ok m \<Longrightarrow> life_ok (fst (CreateChannel n m))"
proof (cases "gm_get (cm_channels m) n")
  case None
  assume *: "life_ok m"
  let ?m = "fst (CreateChannel n m)"
  have c: "cm_channels ?m = gm_set n (length (names m)) (cm_channels m)" "names ?m = names m @ [n]"
    using None by (simp_all add: CreateChannel_def Let_def names_def)
  have l: "lifeOf k ?m = lifeOf k m @ (if k = n then [ChannelCreatedEvt] else [])" for k
    using None by (simp add: CreateChannel_def Let_def)
  have "mgr_ok ?m" using * c unfolding life_ok_def mgr_ok_def
    by (fastforce simp: nth_append split: if_splits)
  moreover have "runLife False (lifeOf k m) = Some (CheckChannelExists k m)" for k
    using * by (simp add: life_ok_def)
  ultimately show ?thesis using c l None
    by (simp add: life_ok_def CheckChannelExists_def runLife_snoc)
qed (simp add: CreateChannel_def)

lemma life_ok_destroy: "life_ok m \<Longrightarrow> life_ok (DestroyChannel u i n m)"
proof -
  assume *: "life_ok m"
  let ?m = "DestroyChannel u i n m"
  have c: "cm_channels ?m = gm_del n (cm_channels m)" "names ?m = names m"
    by (simp_all add: DestroyChannel_def Let_def split: option.splits)
  have l: "lifeOf k ?m = lifeOf k m @ (if k = n \<and> CheckChannelExists n m then [ChannelDestroyedEvt] else [])" for k
    by (simp add: DestroyChannel_def Let_def CheckChannelExists_def split: option.splits)
  have "mgr_ok ?m" using * c by (simp add: life_ok_def mgr_ok_def)
  moreover have "runLife False (lifeOf k m) = Some (CheckChannelExists k m)" for k
    using * by (simp add: life_ok_def)
  ultimately show ?thesis using c l by (simp add: life_ok_def CheckChannelExists_def runLife_snoc)
qed

lemma life_ok_step: "life_ok m \<Longrightarrow> life_ok (mgrStep br m op)"
proof (cases op)
  case (OpCreate n)
  then show "life_ok m \<Longrightarrow> ?thesis" by (simp add: life_ok_create)
next
  case (OpDestroy i n)
  then show "life_ok m \<Longrightarrow> ?thesis" by (simp add: life_ok_destroy)
next
  case (OpSubscribe n f b i)
  then show "life_ok m \<Longrightarrow> ?thesis" by - (rule life_ok_same [where m = m], simp_all add: SubscribeChannelHandler_def)
next
  case (OpSubscribeContext n f b i)
  then show "life_ok m \<Longrightarrow> ?thesis"
    by - (rule life_ok_same [where m = m], simp_all add: SubscribeChannelHandlerContext_def)
next
  case (OpUnsubscribe n u)
  then show "life_ok m \<Longrightarrow> ?thesis" by - (rule life_ok_same [where m = m], simp_all)
next
  case (OpGalactic i n d c)
  then show "life_ok m \<Longrightarrow> ?thesis"
    by - (rule life_ok_same [where m = m], simp_all add: MarkChannelAsGalactic_def Let_def split: sum.splits)
next
  case (OpLocal i n)
  then show "life_ok m \<Longrightarrow> ?thesis"
    by - (rule life_ok_same [where m = m], simp_all add: MarkChannelAsLocal_def handleLocalChannelEvent_def GetChannel_def split: sum.splits option.splits)
next
  case (OpListen l ts)
  then show "life_ok m \<Longrightarrow> ?thesis" by - (rule life_ok_same [where m = m], simp_all)
next
  case (OpUnlisten i)
  then show "life_ok m \<Longrightarrow> ?thesis" by - (rule life_ok_same [where m = m], simp_all)
qed

interpretation manager: machine "mgrStep br" life_ok for br
  by unfold_locales (rule life_ok_step)

lemma life_ok_new: "life_ok newManager"
  by (simp add: life_ok_def mgr_ok_def newManager_def names_def lifeOf_def CheckChannelExists_def)

subsection \<open>Properties\<close>

text \<open>C17: over every sequence of manager operations and whatever the brokers answer, the
  creation and destruction events of a channel name alternate, starting with a creation, and
  they end with a creation exactly when the channel exists; each name maps to an object of
  that name.\<close>

theorem channel_events_tell_existence:
  "mgr_ok (foldl (mgrStep br) newManager ops) \<and>
   runLife False (lifeOf n (foldl (mgrStep br) newManager ops)) =
     Some (CheckChannelExists n (foldl (mgrStep br) newManager ops))"
  using manager.run_inv [OF life_ok_new] by (simp add: life_ok_def)

end
