(* ===== verification/MessageBus.thy ===== *)
theory MessageBus
  imports ChannelManager
begin

text \<open>
  bus/eventbus.go and bus/message_handler.go: the event bus over its channel manager. Message
  handlers are objects named by references; the functions that the wrapper closure captures
  are fields of the handler. A call of a user's function is an entry of \<open>bu_calls\<close>; a
  delivery goroutine is an entry of \<open>bu_gor\<close> and runs one handler per step, so that any API
  call, also one made inside a user's function, may come between.
\<close>

subsection \<open>State\<close>

record messageHandler =
  mh_id :: "uuid option"
  mh_destination :: "uuid option"
  mh_channel :: ref
  mh_requestMessage :: "message option"
  mh_ignoreId :: bool
  mh_direction :: Direction
  mh_allTraffic :: bool
  mh_runOnce :: bool
  mh_handlerContext :: "ctxref option"
  mh_successHandler :: "nat option"
  mh_errorHandler :: "nat option"
  mh_subscriptionId :: "uuid option"
  mh_invokeOnce :: "bool option"
  mh_setupOnce :: bool
  mh_closed :: bool

datatype userCall =
    SuccessCall ref nat ctxref message
  | ErrorCall ref nat ctxref "err option"
  | PlainCall nat message
  | CtxCall nat ctxref message

record bus =
  bu_mgr :: chanMgr
  bu_brokerConnections :: "(uuid, string) gomap"
  bu_mh :: "messageHandler list"
  bu_gor :: "(ref \<times> delivery) list"
  bu_closing :: "ref list"
  bu_calls :: "userCall list"
  bu_ctxErr :: "(nat, err) gomap"

definition newBus :: bus where
  "newBus = \<lparr>bu_mgr = newManager, bu_brokerConnections = gm_empty, bu_mh = [], bu_gor = [],
     bu_closing = [], bu_calls = [], bu_ctxErr = gm_empty\<rparr>"

definition ctxErrOf :: "bus \<Rightarrow> ctxref \<Rightarrow> err option" where
  "ctxErrOf b c = (case c of CBackground \<Rightarrow> None | CRef n \<Rightarrow> gm_get (bu_ctxErr b) n)"

definition onMgr :: "(chanMgr \<Rightarrow> chanMgr) \<Rightarrow> bus \<Rightarrow> bus" where
  "onMgr f b = b\<lparr>bu_mgr := f (bu_mgr b)\<rparr>"

definition mhAt :: "bus \<Rightarrow> ref \<Rightarrow> messageHandler" where "mhAt b r = bu_mh b ! r"

definition updMh :: "ref \<Rightarrow> (messageHandler \<Rightarrow> messageHandler) \<Rightarrow> bus \<Rightarrow> bus" where
  "updMh r f b = b\<lparr>bu_mh := (bu_mh b)[r := f (bu_mh b ! r)]\<rparr>"

definition logCall :: "userCall \<Rightarrow> bus \<Rightarrow> bus" where
  "logCall c b = b\<lparr>bu_calls := bu_calls b @ [c]\<rparr>"

subsection \<open>Sending\<close>

record sendMessageOptions =
  so_direction :: Direction
  so_channelName :: string
  so_payload :: gval
  so_err :: "err option"
  so_destinationId :: "uuid option"

definition buildConfig :: "uuid \<Rightarrow> string \<Rightarrow> gval \<Rightarrow> uuid option \<Rightarrow> messageConfig" where
  "buildConfig newId name payload dest =
     zeroConfig\<lparr>mc_Id := Some newId, mc_DestinationId := dest, mc_Channel := name, mc_Payload := payload\<rparr>"

definition buildError :: "uuid \<Rightarrow> string \<Rightarrow> err option \<Rightarrow> uuid option \<Rightarrow> messageConfig" where
  "buildError newId name e dest =
     zeroConfig\<lparr>mc_Id := Some newId, mc_DestinationId := dest, mc_Channel := name, mc_Err := e\<rparr>"

text \<open>The dispatch of a message on the channel object \<open>r\<close>; the delivery goroutine, if one is
  spawned, joins the running ones. \<open>cutAt\<close> is the round of the loop in which the context is
  first seen done.\<close>

definition roundDone :: "nat option \<Rightarrow> nat \<Rightarrow> bool" where
  "roundDone cutAt i = (case cutAt of None \<Rightarrow> False | Some k \<Rightarrow> k \<le> i)"

definition dispatchOn :: "ref \<Rightarrow> nat option \<Rightarrow> ctxref option \<Rightarrow> message \<Rightarrow> bus \<Rightarrow> bus" where
  "dispatchOn r cutAt ctx msg b =
     (let (c, d) = dispatchContext (roundDone cutAt) ctx msg (chanAt (bu_mgr b) r);
          b1 = onMgr (setChan r c) b
      in case d of None \<Rightarrow> b1 | Some dl \<Rightarrow> b1\<lparr>bu_gor := bu_gor b1 @ [(r, dl)]\<rparr>)"

definition messageFor :: "uuid \<Rightarrow> sendMessageOptions \<Rightarrow> message res" where
  "messageFor newId opts =
     (if so_direction opts = RequestDir then
        Inr (GenerateRequest newId (buildConfig newId (so_channelName opts) (so_payload opts) (so_destinationId opts)))
      else if so_direction opts = ResponseDir then
        Inr (GenerateResponse newId (buildConfig newId (so_channelName opts) (so_payload opts) (so_destinationId opts)))
      else if so_direction opts = ErrorDir then
        Inr (GenerateError newId (buildError newId (so_channelName opts) (so_err opts) (so_destinationId opts)))
      else Inl (''unsupported message direction '' @ itoa (so_direction opts)))"

definition sendMessageContext ::
  "ctxref option \<Rightarrow> sendMessageOptions \<Rightarrow> uuid \<Rightarrow> nat option \<Rightarrow> bus \<Rightarrow> bus \<times> err option" where
  "sendMessageContext ctx0 opts newId cutAt b =
     (let ctx = normalizeContext ctx0 in
      case ctxErrOf b ctx of
        Some e \<Rightarrow> (b, Some e)
      | None \<Rightarrow>
          (case GetChannel (so_channelName opts) (bu_mgr b) of
             Inl e \<Rightarrow> (b, Some e)
           | Inr r \<Rightarrow>
               (case messageFor newId opts of
                  Inl e \<Rightarrow> (b, Some e)
                | Inr msg \<Rightarrow> (dispatchOn r cutAt (Some ctx) msg b, None))))"

definition SendResponseMessageContext where
  "SendResponseMessageContext ctx name payload dest =
     sendMessageContext ctx \<lparr>so_direction = ResponseDir, so_channelName = name, so_payload = payload,
       so_err = None, so_destinationId = dest\<rparr>"

definition SendResponseMessage where
  "SendResponseMessage name payload dest = SendResponseMessageContext (Some CBackground) name payload dest"

definition SendBroadcastMessageContext where
  "SendBroadcastMessageContext ctx name payload =
     sendMessageContext ctx \<lparr>so_direction = ResponseDir, so_channelName = name, so_payload = payload,
       so_err = None, so_destinationId = None\<rparr>"

definition SendBroadcastMessage where
  "SendBroadcastMessage name payload = SendBroadcastMessageContext (Some CBackground) name payload"

definition SendRequestMessageContext where
  "SendRequestMessageContext ctx name payload dest =
     sendMessageContext ctx \<lparr>so_direction = RequestDir, so_channelName = name, so_payload = payload,
       so_err = None, so_destinationId = dest\<rparr>"

definition SendRequestMessage where
  "SendRequestMessage name payload dest = SendRequestMessageContext (Some CBackground) name payload dest"

definition SendErrorMessageContext where
  "SendErrorMessageContext ctx name e dest =
     sendMessageContext ctx \<lparr>so_direction = ErrorDir, so_channelName = name, so_payload = GNil,
       so_err = e, so_destinationId = dest\<rparr>"

definition SendErrorMessage where
  "SendErrorMessage name e dest = SendErrorMessageContext (Some CBackground) name e dest"

subsection \<open>Making message handlers\<close>

record messageHandlerOptions =
  mo_direction :: Direction
  mo_destinationId :: "uuid option"
  mo_ignoreId :: bool
  mo_allTraffic :: bool
  mo_runOnce :: bool
  mo_requireDestination :: bool
  mo_generateDestination :: bool
  mo_requestPayload :: gval
  mo_withRequest :: bool

definition zeroOptions :: messageHandlerOptions where
  "zeroOptions = \<lparr>mo_direction = 0, mo_destinationId = None, mo_ignoreId = False, mo_allTraffic = False,
     mo_runOnce = False, mo_requireDestination = False, mo_generateDestination = False,
     mo_requestPayload = GNil, mo_withRequest = False\<rparr>"

definition getOrNewId :: "uuid \<Rightarrow> uuid option \<Rightarrow> uuid option" where
  "getOrNewId newId i = (if i = None then Some newId else i)"

definition createMessageHandler :: "ref \<Rightarrow> uuid option \<Rightarrow> uuid \<Rightarrow> messageHandler" where
  "createMessageHandler ch dest newId =
     \<lparr>mh_id = Some newId, mh_destination = dest, mh_channel = ch, mh_requestMessage = None,
      mh_ignoreId = False, mh_direction = 0, mh_allTraffic = False, mh_runOnce = False,
      mh_handlerContext = Some CBackground, mh_successHandler = None, mh_errorHandler = None,
      mh_subscriptionId = None, mh_invokeOnce = None, mh_setupOnce = False, mh_closed = False\<rparr>"

definition wrapMessageHandler ::
  "ref \<Rightarrow> Direction \<Rightarrow> bool \<Rightarrow> bool \<Rightarrow> uuid option \<Rightarrow> bool \<Rightarrow> uuid \<Rightarrow> messageHandler" where
  "wrapMessageHandler ch direction ignoreId allTraffic dest runOnce newId =
     (createMessageHandler ch dest newId)
       \<lparr>mh_ignoreId := ignoreId, mh_invokeOnce := (if runOnce then Some False else None),
        mh_direction := direction, mh_allTraffic := allTraffic, mh_runOnce := runOnce\<rparr>"

text \<open>The three fresh ids: the generated destination, the handler's, the request's.\<close>

definition newMessageHandler ::
  "string \<Rightarrow> messageHandlerOptions \<Rightarrow> uuid \<times> uuid \<times> uuid \<Rightarrow> bus \<Rightarrow> bus \<times> ref res" where
  "newMessageHandler name opts ids b =
     (case GetChannel name (bu_mgr b) of
        Inl e \<Rightarrow> (b, Inl e)
      | Inr ch \<Rightarrow>
          (if mo_requireDestination opts \<and> mo_destinationId opts = None
           then (b, Inl ''DestinationId cannot be nil'')
           else (let dest = (if mo_generateDestination opts then getOrNewId (fst ids) (mo_destinationId opts)
                             else mo_destinationId opts);
                     mh = wrapMessageHandler ch (mo_direction opts) (mo_ignoreId opts) (mo_allTraffic opts)
                            dest (mo_runOnce opts) (fst (snd ids));
                     mh' = (if mo_withRequest opts
                            then mh\<lparr>mh_requestMessage := Some (GenerateRequest (snd (snd ids))
                                   (buildConfig (snd (snd ids)) name (mo_requestPayload opts) dest))\<rparr>
                            else mh)
                 in (b\<lparr>bu_mh := bu_mh b @ [mh']\<rparr>, Inr (length (bu_mh b))))))"

definition ListenStream where
  "ListenStream name = newMessageHandler name (zeroOptions\<lparr>mo_direction := ResponseDir, mo_ignoreId := True\<rparr>)"

definition ListenStreamForDestination where
  "ListenStreamForDestination name dest = newMessageHandler name
     (zeroOptions\<lparr>mo_direction := ResponseDir, mo_destinationId := dest, mo_requireDestination := True\<rparr>)"

definition ListenRequestStream where
  "ListenRequestStream name = newMessageHandler name
     (zeroOptions\<lparr>mo_direction := RequestDir, mo_ignoreId := True\<rparr>)"

definition ListenRequestStreamForDestination where
  "ListenRequestStreamForDestination name dest = newMessageHandler name
     (zeroOptions\<lparr>mo_direction := RequestDir, mo_destinationId := dest, mo_requireDestination := True\<rparr>)"

definition ListenRequestOnce where
  "ListenRequestOnce name = newMessageHandler name
     (zeroOptions\<lparr>mo_direction := RequestDir, mo_ignoreId := True, mo_runOnce := True,
        mo_generateDestination := True\<rparr>)"

definition ListenRequestOnceForDestination where
  "ListenRequestOnceForDestination name dest = newMessageHandler name
     (zeroOptions\<lparr>mo_direction := RequestDir, mo_destinationId := dest, mo_runOnce := True,
        mo_requireDestination := True\<rparr>)"

definition ListenFirehose where
  "ListenFirehose name = newMessageHandler name
     (zeroOptions\<lparr>mo_direction := RequestDir, mo_ignoreId := True, mo_allTraffic := True\<rparr>)"

definition ListenOnce where
  "ListenOnce name = newMessageHandler name
     (zeroOptions\<lparr>mo_direction := ResponseDir, mo_ignoreId := True, mo_runOnce := True,
        mo_generateDestination := True\<rparr>)"

definition ListenOnceForDestination where
  "ListenOnceForDestination name dest = newMessageHandler name
     (zeroOptions\<lparr>mo_direction := ResponseDir, mo_destinationId := dest, mo_runOnce := True,
        mo_requireDestination := True\<rparr>)"

definition RequestOnce where
  "RequestOnce name payload = newMessageHandler name
     (zeroOptions\<lparr>mo_direction := ResponseDir, mo_ignoreId := True, mo_runOnce := True,
        mo_generateDestination := True, mo_requestPayload := payload, mo_withRequest := True\<rparr>)"

definition RequestOnceForDestination where
  "RequestOnceForDestination name payload dest = newMessageHandler name
     (zeroOptions\<lparr>mo_direction := ResponseDir, mo_destinationId := dest, mo_runOnce := True,
        mo_requireDestination := True, mo_requestPayload := payload, mo_withRequest := True\<rparr>)"

definition RequestStream where
  "RequestStream name payload = newMessageHandler name
     (zeroOptions\<lparr>mo_direction := ResponseDir, mo_ignoreId := True, mo_generateDestination := True,
        mo_requestPayload := payload, mo_withRequest := True\<rparr>)"

definition RequestStreamForDestination where
  "RequestStreamForDestination name payload dest = newMessageHandler name
     (zeroOptions\<lparr>mo_direction := ResponseDir, mo_destinationId := dest, mo_requireDestination := True,
        mo_requestPayload := payload, mo_withRequest := True\<rparr>)"

definition GetId :: "bus \<Rightarrow> ref \<Rightarrow> uuid option" where "GetId b r = mh_id (mhAt b r)"

definition GetDestinationId :: "bus \<Rightarrow> ref \<Rightarrow> uuid option" where
  "GetDestinationId b r = mh_destination (mhAt b r)"

subsection \<open>Handle and Close\<close>

text \<open>The two operations synchronise on \<open>closeMu\<close> only, so each is a thread of atomic steps.
  \<open>Handle\<close>: the setup and the subscription, the locked section, the undoing.\<close>

datatype handlePc = HStart | HSubscribed "uuid option" | HRecorded "uuid option" bool | HEnd

definition chanNameOf :: "bus \<Rightarrow> ref \<Rightarrow> string" where
  "chanNameOf b r = ch_Name (chanAt (bu_mgr b) (mh_channel (mhAt b r)))"

definition busUnsubscribe :: "string \<Rightarrow> uuid option \<Rightarrow> bus \<Rightarrow> bus" where
  "busUnsubscribe name uid b = onMgr (\<lambda>m. fst (UnsubscribeChannelHandler (\<lambda>i. []) name uid m)) b"

fun handleStep ::
  "ref \<Rightarrow> ctxref option \<Rightarrow> nat option \<Rightarrow> nat option \<Rightarrow> uuid \<Rightarrow> handlePc \<times> bus \<Rightarrow> handlePc \<times> bus" where
  "handleStep r ctx sh eh newId (HStart, b) =
     (if mh_setupOnce (mhAt b r) then (HEnd, b)
      else (let b1 = updMh r (\<lambda>mh. mh\<lparr>mh_setupOnce := True, mh_handlerContext := Some (normalizeContext ctx),
                       mh_successHandler := sh, mh_errorHandler := eh\<rparr>) b;
                (m, res) = SubscribeChannelHandlerContext (chanNameOf b1 r) (WrapperFn r) False newId (bu_mgr b1)
            in (HSubscribed (case res of Inl e \<Rightarrow> None | Inr i \<Rightarrow> Some i), b1\<lparr>bu_mgr := m\<rparr>)))"
| "handleStep r ctx sh eh newId (HSubscribed sid, b) =
     (HRecorded sid (mh_closed (mhAt b r)), updMh r (\<lambda>mh. mh\<lparr>mh_subscriptionId := sid\<rparr>) b)"
| "handleStep r ctx sh eh newId (HRecorded sid closed, b) =
     (HEnd, if closed \<and> sid \<noteq> None then busUnsubscribe (chanNameOf b r) sid b else b)"
| "handleStep r ctx sh eh newId (HEnd, b) = (HEnd, b)"

definition HandleContext ::
  "ref \<Rightarrow> ctxref option \<Rightarrow> nat option \<Rightarrow> nat option \<Rightarrow> uuid \<Rightarrow> bus \<Rightarrow> bus" where
  "HandleContext r ctx sh eh newId b =
     snd (handleStep r ctx sh eh newId (handleStep r ctx sh eh newId (handleStep r ctx sh eh newId (HStart, b))))"

definition Handle :: "ref \<Rightarrow> nat option \<Rightarrow> nat option \<Rightarrow> uuid \<Rightarrow> bus \<Rightarrow> bus" where
  "Handle r sh eh newId b = HandleContext r (Some CBackground) sh eh newId b"

datatype closePc = CStart | CMarked "uuid option" | CEnd

fun closeStep :: "ref \<Rightarrow> closePc \<times> bus \<Rightarrow> closePc \<times> bus" where
  "closeStep r (CStart, b) =
     (CMarked (mh_subscriptionId (mhAt b r)), updMh r (\<lambda>mh. mh\<lparr>mh_closed := True\<rparr>) b)"
| "closeStep r (CMarked sid, b) =
     (CEnd, if sid \<noteq> None then busUnsubscribe (chanNameOf b r) sid b else b)"
| "closeStep r (CEnd, b) = (CEnd, b)"

definition Close :: "ref \<Rightarrow> bus \<Rightarrow> bus" where
  "Close r b = snd (closeStep r (closeStep r (CStart, b)))"

subsection \<open>Firing\<close>

text \<open>\<open>FireContext\<close> returns an error, or goes on to wait for quiescence after \<open>start\<close>.\<close>

datatype fireOutcome = FireErr err | FireWaits "64 word"

definition FireContext :: "ref \<Rightarrow> ctxref option \<Rightarrow> nat option \<Rightarrow> bus \<Rightarrow> bus \<times> fireOutcome" where
  "FireContext r ctx0 cutAt b =
     (case mh_requestMessage (mhAt b r) of
        None \<Rightarrow> (b, FireErr ''nothing to fire, request is empty'')
      | Some msg \<Rightarrow>
          (let ctx = normalizeContext ctx0 in
           case ctxErrOf b ctx of
             Some e \<Rightarrow> (b, FireErr e)
           | None \<Rightarrow>
               (let start = watermark (ch_activity (chanAt (bu_mgr b) (mh_channel (mhAt b r))))
                in (dispatchOn (mh_channel (mhAt b r)) cutAt (Some ctx) msg b, FireWaits start))))"

definition Fire :: "ref \<Rightarrow> bus \<Rightarrow> bus \<times> fireOutcome" where
  "Fire r b = FireContext r (Some CBackground) None b"

subsection \<open>The wrapper\<close>

definition handlerCtxDone :: "bus \<Rightarrow> ref \<Rightarrow> bool" where
  "handlerCtxDone b r =
     (case mh_handlerContext (mhAt b r) of None \<Rightarrow> False | Some c \<Rightarrow> ctxErrOf b c \<noteq> None)"

text \<open>The two inner closures differ in the user's function only. With \<open>runOnce\<close> the call runs
  inside \<open>invokeOnce.Do\<close> with \<open>Close\<close> deferred: the handler joins \<open>bu_closing\<close>.\<close>

definition guarded :: "ref \<Rightarrow> (nat \<Rightarrow> userCall) \<Rightarrow> nat option \<Rightarrow> bus \<Rightarrow> bus" where
  "guarded r mk fn b =
     (let call = (\<lambda>b. case fn of None \<Rightarrow> b | Some f \<Rightarrow> logCall (mk f) b);
          closing = (\<lambda>b. b\<lparr>bu_closing := bu_closing b @ [r]\<rparr>)
      in if handlerCtxDone b r then (if mh_runOnce (mhAt b r) then closing b else b)
         else if mh_runOnce (mhAt b r) then
           (if mh_invokeOnce (mhAt b r) = Some True then b
            else closing (call (updMh r (\<lambda>mh. mh\<lparr>mh_invokeOnce := Some True\<rparr>) b)))
         else call b)"

definition errorHandler :: "ref \<Rightarrow> ctxref \<Rightarrow> err option \<Rightarrow> bus \<Rightarrow> bus" where
  "errorHandler r ctx e b = guarded r (\<lambda>f. ErrorCall r f ctx e) (mh_errorHandler (mhAt b r)) b"

definition successHandler :: "ref \<Rightarrow> ctxref \<Rightarrow> message \<Rightarrow> bus \<Rightarrow> bus" where
  "successHandler r ctx msg b = guarded r (\<lambda>f. SuccessCall r f ctx msg) (mh_successHandler (mhAt b r)) b"

definition handlerWrapper :: "ref \<Rightarrow> ctxref \<Rightarrow> message \<Rightarrow> bus \<Rightarrow> bus" where
  "handlerWrapper r ctx msg b =
     (let mh = mhAt b r; i = mh_destination mh in
      if ctxErrOf b ctx \<noteq> None then b
      else if mh_allTraffic mh then
        (if m_Direction msg = ErrorDir then errorHandler r ctx (m_Error msg) b else successHandler r ctx msg b)
      else if m_Direction msg = ErrorDir then errorHandler r ctx (m_Error msg) b
      else if m_Direction msg = mh_direction mh then
        (if \<not> mh_ignoreId mh \<and> (m_DestinationId msg \<noteq> None \<and> i \<noteq> None) \<and> i = m_DestinationId msg
         then successHandler r ctx msg b
         else if mh_ignoreId mh then successHandler r ctx msg b
         else b)
      else b)"

subsection \<open>The bus as a machine\<close>

text \<open>A wrapper closure exists only for an allocated handler, so the guard never fails.\<close>

definition invoke :: "invocation \<Rightarrow> bus \<Rightarrow> bus" where
  "invoke iv b =
     (case iv of
        CallFn f msg \<Rightarrow> logCall (PlainCall f msg) b
      | CallCtxFn (UserCtxFn f) ctx msg \<Rightarrow> logCall (CtxCall f ctx msg) b
      | CallCtxFn (WrapperFn r) ctx msg \<Rightarrow> if r < length (bu_mh b) then handlerWrapper r ctx msg b else b)"

text \<open>One step of the \<open>i\<close>-th delivery goroutine: its next handler, or its end.\<close>

definition deliverStep :: "nat \<Rightarrow> bus \<Rightarrow> bus" where
  "deliverStep i b =
     (if i < length (bu_gor b) then
        (case bu_gor b ! i of (r, d) \<Rightarrow>
           (case dl_handlers d of
              [] \<Rightarrow> (onMgr (setChan r (activityEnd (dl_seq d) (wgAdd (- 1) (chanAt (bu_mgr b) r)))) b)
                     \<lparr>bu_gor := take i (bu_gor b) @ drop (Suc i) (bu_gor b)\<rparr>
            | h # hs \<Rightarrow>
                (let b1 = b\<lparr>bu_gor := (bu_gor b)[i := (r, d\<lparr>dl_handlers := hs\<rparr>)]\<rparr>
                 in case invocationOf d h of None \<Rightarrow> b1 | Some iv \<Rightarrow> invoke iv b1)))
      else b)"

text \<open>\<open>ConnectBroker\<close>: what the connector returns is an argument, the connection's id and its
  broker, or no connection.\<close>

definition ConnectBroker :: "(uuid \<times> string) res \<Rightarrow> bus \<Rightarrow> bus \<times> uuid res" where
  "ConnectBroker answer b =
     (case answer of
        Inl e \<Rightarrow> (b, Inl e)
      | Inr (c, d) \<Rightarrow> (b\<lparr>bu_brokerConnections := gm_set c d (bu_brokerConnections b)\<rparr>, Inr c))"

datatype busEv =
    EvMgr mgrOp
  | EvConnect "(uuid \<times> string) res"
  | EvNewHandler string messageHandlerOptions "uuid \<times> uuid \<times> uuid"
  | EvHandle ref "ctxref option" "nat option" "nat option" uuid
  | EvClose ref
  | EvRunClosing nat
  | EvSend "ctxref option" sendMessageOptions uuid "nat option"
  | EvFire ref "ctxref option" "nat option"
  | EvDeliver nat
  | EvCancel nat err

fun busStep :: "brokerOracle \<Rightarrow> bus \<Rightarrow> busEv \<Rightarrow> bus" where
  "busStep br b (EvMgr op) = onMgr (\<lambda>m. mgrStep br m op) b"
| "busStep br b (EvConnect a) = fst (ConnectBroker a b)"
| "busStep br b (EvNewHandler n opts ids) = fst (newMessageHandler n opts ids b)"
| "busStep br b (EvHandle r ctx sh eh i) =
     (if r < length (bu_mh b) then HandleContext r ctx sh eh i b else b)"
| "busStep br b (EvClose r) = (if r < length (bu_mh b) then Close r b else b)"
| "busStep br b (EvRunClosing i) =
     (if i < length (bu_closing b)
      then Close (bu_closing b ! i) (b\<lparr>bu_closing := take i (bu_closing b) @ drop (Suc i) (bu_closing b)\<rparr>)
      else b)"
| "busStep br b (EvSend ctx opts i cutAt) = fst (sendMessageContext ctx opts i cutAt b)"
| "busStep br b (EvFire r ctx cutAt) = (if r < length (bu_mh b) then fst (FireContext r ctx cutAt b) else b)"
| "busStep br b (EvDeliver i) = deliverStep i b"
| "busStep br b (EvCancel n e) =
     (if gm_get (bu_ctxErr b) n = None then b\<lparr>bu_ctxErr := gm_set n e (bu_ctxErr b)\<rparr> else b)"

end
