(* ===== verification/BusFacts.thy ===== *)
theory BusFacts
  imports MessageBus
begin

text \<open>
  What the event bus promises: which messages reach a handler's functions, once-handlers, the
  race of \<open>Close\<close> with \<open>Handle\<close>, and what a send schedules.
\<close>

subsection \<open>Frames\<close>

lemma onMgr_simps [simp]:
  "bu_mh (onMgr f b) = bu_mh b" "bu_calls (onMgr f b) = bu_calls b" "bu_gor (onMgr f b) = bu_gor b"
  "bu_closing (onMgr f b) = bu_closing b" "bu_ctxErr (onMgr f b) = bu_ctxErr b"
  "bu_mgr (onMgr f b) = f (bu_mgr b)" "mhAt (onMgr f b) r = mhAt b r"
  by (simp_all add: onMgr_def mhAt_def)

lemma updMh_simps [simp]:
  "bu_calls (updMh r f b) = bu_calls b" "bu_gor (updMh r f b) = bu_gor b" "bu_mgr (updMh r f b) = bu_mgr b"
  "bu_closing (updMh r f b) = bu_closing b" "bu_ctxErr (updMh r f b) = bu_ctxErr b"
  "length (bu_mh (updMh r f b)) = length (bu_mh b)"
  by (simp_all add: updMh_def)

lemma mhAt_updMh: "r < length (bu_mh b) \<Longrightarrow> mhAt (updMh r f b) r' = (if r' = r then f (mhAt b r) else mhAt b r')"
  by (simp add: updMh_def mhAt_def)

lemma logCall_simps [simp]:
  "bu_mh (logCall c b) = bu_mh b" "bu_calls (logCall c b) = bu_calls b @ [c]" "mhAt (logCall c b) r = mhAt b r"
  by (simp_all add: logCall_def mhAt_def)

lemma busUnsubscribe_simps [simp]:
  "bu_mh (busUnsubscribe n u b) = bu_mh b" "bu_calls (busUnsubscribe n u b) = bu_calls b"
  "mhAt (busUnsubscribe n u b) r = mhAt b r"
  by (simp_all add: busUnsubscribe_def)

lemma dispatchOn_simps [simp]:
  "bu_mh (dispatchOn r k c m b) = bu_mh b" "bu_calls (dispatchOn r k c m b) = bu_calls b"
  by (simp_all add: dispatchOn_def case_prod_beta Let_def split: option.splits)

lemma mhAt_update [simp]:
  "mhAt (b\<lparr>bu_gor := g\<rparr>) r = mhAt b r" "mhAt (b\<lparr>bu_closing := c\<rparr>) r = mhAt b r"
  "mhAt (b\<lparr>bu_mgr := m\<rparr>) r = mhAt b r" "mhAt (b\<lparr>bu_ctxErr := e\<rparr>) r = mhAt b r"
  by (simp_all add: mhAt_def)

subsection \<open>Which messages a handler's functions get\<close>

text \<open>The wrapper's decision, as one condition: not by the direction alone but by the
  destination too, unless the handler ignores ids; an error goes to the error function
  whatever its destination.\<close>

definition wantsMessage :: "messageHandler \<Rightarrow> message \<Rightarrow> bool" where
  "wantsMessage mh msg \<longleftrightarrow>
     mh_allTraffic mh \<or>
     m_Direction msg = mh_direction mh \<and>
       (mh_ignoreId mh \<or> m_DestinationId msg \<noteq> None \<and> m_DestinationId msg = mh_destination mh)"

definition blockedHandler :: "bus \<Rightarrow> ref \<Rightarrow> ctxref \<Rightarrow> bool" where
  "blockedHandler b r ctx \<longleftrightarrow>
     ctxErrOf b ctx \<noteq> None \<or> handlerCtxDone b r \<or> (mh_runOnce (mhAt b r) \<and> mh_invokeOnce (mhAt b r) = Some True)"

definition callsMade :: "bus \<Rightarrow> ref \<Rightarrow> ctxref \<Rightarrow> message \<Rightarrow> userCall list" where
  "callsMade b r ctx msg =
     (if blockedHandler b r ctx then []
      else if m_Direction msg = ErrorDir then
        (case mh_errorHandler (mhAt b r) of None \<Rightarrow> [] | Some f \<Rightarrow> [ErrorCall r f ctx (m_Error msg)])
      else if wantsMessage (mhAt b r) msg then
        (case mh_successHandler (mhAt b r) of None \<Rightarrow> [] | Some f \<Rightarrow> [SuccessCall r f ctx msg])
      else [])"

lemma guarded_calls:
  "bu_calls (guarded r mk fn b) =
     bu_calls b @ (if handlerCtxDone b r \<or> (mh_runOnce (mhAt b r) \<and> mh_invokeOnce (mhAt b r) = Some True) then []
                   else case fn of None \<Rightarrow> [] | Some f \<Rightarrow> [mk f])"
  by (auto simp: guarded_def Let_def split: option.splits)

lemma wrapper_calls: "bu_calls (handlerWrapper r ctx msg b) = bu_calls b @ callsMade b r ctx msg"
  by (auto simp: handlerWrapper_def errorHandler_def successHandler_def guarded_calls callsMade_def
      blockedHandler_def wantsMessage_def Let_def split: option.splits)

subsection \<open>Once-handlers\<close>

fun callRef :: "userCall \<Rightarrow> ref option" where
  "callRef (SuccessCall r f c m) = Some r"
| "callRef (ErrorCall r f c e) = Some r"
| "callRef c = None"

definition callsOf :: "ref \<Rightarrow> bus \<Rightarrow> nat" where
  "callsOf r b = length (filter (\<lambda>c. callRef c = Some r) (bu_calls b))"

definition once_ok :: "bus \<Rightarrow> bool" where
  "once_ok b \<longleftrightarrow>
     (\<forall>r < length (bu_mh b). mh_runOnce (mhAt b r) \<longrightarrow>
        (\<exists>d. mh_invokeOnce (mhAt b r) = Some d \<and> callsOf r b \<le> (if d then 1 else 0))) \<and>
     (\<forall>r \<ge> length (bu_mh b). callsOf r b = 0)"

text \<open>The once part of a handler that its own operations leave alone.\<close>

definition onceView :: "messageHandler \<Rightarrow> bool \<times> bool option" where
  "onceView mh = (mh_runOnce mh, mh_invokeOnce mh)"

lemma once_ok_frame:
  assumes "bu_calls b' = bu_calls b" and "map onceView (bu_mh b') = map onceView (bu_mh b)" and "once_ok b"
  shows "once_ok b'"
proof -
  have len: "length (bu_mh b') = length (bu_mh b)" using assms(2) by (metis length_map)
  have "onceView (mhAt b' r) = onceView (mhAt b r)" if "r < length (bu_mh b)" for r
    using assms(2) that len by (metis mhAt_def nth_map)
  then show ?thesis using assms(1,3) len
    by (auto simp: once_ok_def callsOf_def onceView_def)
qed

lemma onceView_updMh:
  "(\<And>mh. onceView (f mh) = onceView mh) \<Longrightarrow> map onceView (bu_mh (updMh r f b)) = map onceView (bu_mh b)"
  by (cases "r < length (bu_mh b)") (auto simp: updMh_def map_update list_update_same_conv list_update_beyond)

lemma once_ok_new: "once_ok newBus"
  by (simp add: once_ok_def newBus_def callsOf_def)

lemma callsOf_snoc [simp]:
  "callsOf r (logCall c b) = callsOf r b + (if callRef c = Some r then 1 else 0)"
  by (simp add: callsOf_def)

lemma callsOf_frame: "bu_calls b' = bu_calls b \<Longrightarrow> callsOf r b' = callsOf r b"
  by (simp add: callsOf_def)

lemma once_ok_guarded:
  assumes ok: "once_ok b" and r: "r < length (bu_mh b)" and mk: "\<And>f. callRef (mk f) = Some r"
  shows "once_ok (guarded r mk fn b)"
proof (cases "handlerCtxDone b r \<or> (mh_runOnce (mhAt b r) \<and> mh_invokeOnce (mhAt b r) = Some True)")
  case True
  then show ?thesis
    by (intro once_ok_frame [OF _ _ ok]) (auto simp: guarded_def Let_def)
next
  case False
  have calls: "callsOf q (guarded r mk fn b) = callsOf q b + (if q = r \<and> fn \<noteq> None then 1 else 0)" for q
    using False mk by (auto simp: callsOf_def guarded_calls split: option.splits)
  have len: "length (bu_mh (guarded r mk fn b)) = length (bu_mh b)"
    by (auto simp: guarded_def Let_def split: option.splits)
  have at: "mhAt (guarded r mk fn b) q =
      (if q = r \<and> mh_runOnce (mhAt b r) then (mhAt b r)\<lparr>mh_invokeOnce := Some True\<rparr> else mhAt b q)" for q
    using False r by (auto simp: guarded_def Let_def mhAt_updMh split: option.splits)
  show ?thesis unfolding once_ok_def len at calls
  proof (intro conjI allI impI)
    fix q assume q: "q < length (bu_mh b)"
      "mh_runOnce (if q = r \<and> mh_runOnce (mhAt b r) then (mhAt b r)\<lparr>mh_invokeOnce := Some True\<rparr> else mhAt b q)"
    then have once: "mh_runOnce (mhAt b q)" by (auto split: if_splits)
    then obtain d where d: "mh_invokeOnce (mhAt b q) = Some d" "callsOf q b \<le> (if d then 1 else 0)"
      using ok q(1) unfolding once_ok_def by blast
    show "\<exists>d. mh_invokeOnce (if q = r \<and> mh_runOnce (mhAt b r) then (mhAt b r)\<lparr>mh_invokeOnce := Some True\<rparr>
        else mhAt b q) = Some d \<and> callsOf q b + (if q = r \<and> fn \<noteq> None then 1 else 0) \<le> (if d then 1 else 0)"
    proof (cases "q = r")
      case True
      then show ?thesis using d once False by (auto split: if_splits)
    qed (use d in auto)
  next
    fix q assume "length (bu_mh b) \<le> q"
    then show "callsOf q b + (if q = r \<and> fn \<noteq> None then 1 else 0) = 0"
      using ok r by (auto simp: once_ok_def)
  qed
qed

lemma once_ok_wrapper:
  "once_ok b \<Longrightarrow> r < length (bu_mh b) \<Longrightarrow> once_ok (handlerWrapper r ctx msg b)"
  by (simp add: handlerWrapper_def errorHandler_def successHandler_def Let_def once_ok_guarded)

lemma once_ok_Close: "once_ok b \<Longrightarrow> once_ok (Close r b)"
  by (rule once_ok_frame [of _ b]) (auto simp: Close_def onceView_updMh onceView_def)

lemma once_ok_Handle: "once_ok b \<Longrightarrow> once_ok (HandleContext r ctx sh eh i b)"
proof (rule once_ok_frame [of _ b])
  show "bu_calls (HandleContext r ctx sh eh i b) = bu_calls b"
    by (simp add: HandleContext_def Let_def case_prod_beta)
  show "map onceView (bu_mh (HandleContext r ctx sh eh i b)) = map onceView (bu_mh b)"
    by (simp add: HandleContext_def Let_def case_prod_beta onceView_updMh onceView_def)
qed

lemma once_ok_newHandler: "once_ok b \<Longrightarrow> once_ok (fst (newMessageHandler n opts ids b))"
proof -
  assume ok: "once_ok b"
  have app: "once_ok (b\<lparr>bu_mh := bu_mh b @ [mh]\<rparr>)" if "mh_runOnce mh \<Longrightarrow> mh_invokeOnce mh = Some False" for mh
    using ok that by (auto simp: once_ok_def mhAt_def nth_append callsOf_def less_Suc_eq)
  show ?thesis using ok
    by (auto simp: newMessageHandler_def Let_def wrapMessageHandler_def split: sum.splits intro!: app)
qed

lemma once_ok_deliver: "once_ok b \<Longrightarrow> once_ok (deliverStep i b)"
proof -
  assume ok: "once_ok b"
  have gor: "once_ok (x\<lparr>bu_gor := g\<rparr>)" if "once_ok x" for x g
    by (rule once_ok_frame [OF _ _ that]) auto
  have mgr: "once_ok (onMgr f x)" if "once_ok x" for x f
    by (rule once_ok_frame [OF _ _ that]) auto
  have log: "once_ok (logCall c x)" if "once_ok x" "callRef c = None" for x c
    using that by (simp add: once_ok_def)
  have ivk: "once_ok (invoke iv x)" if "once_ok x" for x iv
    using that by (auto simp: invoke_def log once_ok_wrapper split: invocation.splits ctxFn.splits)
  show ?thesis using ok
    by (auto simp: deliverStep_def Let_def gor mgr ivk split: prod.splits list.splits option.splits)
qed

lemma once_ok_step: "once_ok b \<Longrightarrow> once_ok (busStep br b e)"
proof (cases e)
  case (EvMgr op)
  then show "once_ok b \<Longrightarrow> ?thesis" by - (rule once_ok_frame [of _ b], simp_all)
next
  case (EvConnect a)
  then show "once_ok b \<Longrightarrow> ?thesis"
    by - (rule once_ok_frame [of _ b], simp_all add: ConnectBroker_def case_prod_beta split: sum.splits)
next
  case (EvRunClosing i)
  then show "once_ok b \<Longrightarrow> ?thesis"
    by (auto intro!: once_ok_Close intro: once_ok_frame [of _ b])
next
  case (EvSend ctx opts i k)
  then show "once_ok b \<Longrightarrow> ?thesis"
    by - (rule once_ok_frame [of _ b],
        simp_all add: sendMessageContext_def Let_def split: option.splits sum.splits)
next
  case (EvFire r ctx k)
  then show "once_ok b \<Longrightarrow> ?thesis"
    by - (rule once_ok_frame [of _ b], simp_all add: FireContext_def Let_def split: option.splits)
next
  case (EvCancel n err)
  then show "once_ok b \<Longrightarrow> ?thesis" by - (rule once_ok_frame [of _ b], simp_all)
qed (simp_all add: once_ok_newHandler once_ok_Handle once_ok_Close once_ok_deliver)

interpretation onceBus: machine "busStep br" once_ok for br
  by unfold_locales (rule once_ok_step)

subsection \<open>Close against Handle\<close>

text \<open>A schedule says whose step is next: \<open>True\<close> for \<open>Handle\<close>, \<open>False\<close> for \<open>Close\<close>.\<close>

fun race ::
  "ref \<Rightarrow> ctxref option \<Rightarrow> nat option \<Rightarrow> nat option \<Rightarrow> uuid \<Rightarrow> bool list
     \<Rightarrow> handlePc \<times> closePc \<times> bus \<Rightarrow> handlePc \<times> closePc \<times> bus" where
  "race r ctx sh eh i [] s = s"
| "race r ctx sh eh i (True # ts) (h, c, b) =
     (let (h', b') = handleStep r ctx sh eh i (h, b) in race r ctx sh eh i ts (h', c, b'))"
| "race r ctx sh eh i (False # ts) (h, c, b) =
     (let (c', b') = closeStep r (c, b) in race r ctx sh eh i ts (h, c', b'))"

definition subscribedIds :: "ref \<Rightarrow> bus \<Rightarrow> uuid option set" where
  "subscribedIds ch b = h_uuid ` set (handlersSnapshot (chanAt (bu_mgr b) ch))"

definition raceEnv :: "ref \<Rightarrow> string \<Rightarrow> ref \<Rightarrow> bus \<Rightarrow> bool" where
  "raceEnv r name ch b \<longleftrightarrow>
     r < length (bu_mh b) \<and> mh_channel (mhAt b r) < length (names (bu_mgr b)) \<and>
     names (bu_mgr b) ! mh_channel (mhAt b r) = name \<and>
     gm_get (cm_channels (bu_mgr b)) name = Some ch \<and> ch < length (names (bu_mgr b))"

definition raceInv :: "ref \<Rightarrow> ref \<Rightarrow> uuid \<Rightarrow> handlePc \<Rightarrow> closePc \<Rightarrow> bus \<Rightarrow> bool" where
  "raceInv r ch i h c b \<longleftrightarrow>
     (mh_closed (mhAt b r) \<longleftrightarrow> c \<noteq> CStart) \<and>
     (case h of
        HStart \<Rightarrow> \<not> mh_setupOnce (mhAt b r) \<and> mh_subscriptionId (mhAt b r) = None \<and>
          c \<noteq> CMarked (Some i) \<and> Some i \<notin> subscribedIds ch b
      | HSubscribed sid \<Rightarrow> sid = Some i \<and> mh_subscriptionId (mhAt b r) = None \<and> c \<noteq> CMarked (Some i)
      | HRecorded sid cl \<Rightarrow> sid = Some i \<and> mh_subscriptionId (mhAt b r) = Some i \<and>
          (cl \<or> c = CStart \<or> c = CMarked (Some i) \<or> (c = CEnd \<and> Some i \<notin> subscribedIds ch b))
      | HEnd \<Rightarrow> (c = CStart \<longrightarrow> mh_subscriptionId (mhAt b r) = Some i) \<and>
          (c = CStart \<or> c = CMarked (Some i) \<or> Some i \<notin> subscribedIds ch b))"

lemma raceInv_simps:
  "raceInv r ch i HStart c b \<longleftrightarrow> (mh_closed (mhAt b r) \<longleftrightarrow> c \<noteq> CStart) \<and> \<not> mh_setupOnce (mhAt b r) \<and>
     mh_subscriptionId (mhAt b r) = None \<and> c \<noteq> CMarked (Some i) \<and> Some i \<notin> subscribedIds ch b"
  "raceInv r ch i (HSubscribed sid) c b \<longleftrightarrow> (mh_closed (mhAt b r) \<longleftrightarrow> c \<noteq> CStart) \<and> sid = Some i \<and>
     mh_subscriptionId (mhAt b r) = None \<and> c \<noteq> CMarked (Some i)"
  "raceInv r ch i (HRecorded sid cl) c b \<longleftrightarrow> (mh_closed (mhAt b r) \<longleftrightarrow> c \<noteq> CStart) \<and> sid = Some i \<and>
     mh_subscriptionId (mhAt b r) = Some i \<and>
     (cl \<or> c = CStart \<or> c = CMarked (Some i) \<or> (c = CEnd \<and> Some i \<notin> subscribedIds ch b))"
  "raceInv r ch i HEnd c b \<longleftrightarrow> (mh_closed (mhAt b r) \<longleftrightarrow> c \<noteq> CStart) \<and>
     (c = CStart \<longrightarrow> mh_subscriptionId (mhAt b r) = Some i) \<and>
     (c = CStart \<or> c = CMarked (Some i) \<or> Some i \<notin> subscribedIds ch b)"
  by (simp_all add: raceInv_def)

lemma raceEnv_name: "raceEnv r name ch b \<Longrightarrow> chanNameOf b r = name"
  by (auto simp: raceEnv_def chanNameOf_def names_def chanAt_def)

lemma raceEnv_updMh:
  "raceEnv r name ch b \<Longrightarrow> mh_channel (f (mhAt b r)) = mh_channel (mhAt b r) \<Longrightarrow> raceEnv r name ch (updMh r f b)"
  by (simp add: raceEnv_def mhAt_updMh)

lemma raceEnv_unsubscribe: "raceEnv r name ch b \<Longrightarrow> raceEnv r name ch (busUnsubscribe n u b)"
  by (simp add: raceEnv_def busUnsubscribe_def)

lemma subscribedIds_updMh [simp]: "subscribedIds ch (updMh r f b) = subscribedIds ch b"
  by (simp add: subscribedIds_def)

lemma subscribedIds_unsubscribe:
  assumes "gm_get (cm_channels (bu_mgr b)) name = Some ch" and "ch < length (names (bu_mgr b))"
  shows "Some i \<notin> subscribedIds ch (busUnsubscribe name (Some i) b)"
  using assms
  by (auto simp: subscribedIds_def busUnsubscribe_def UnsubscribeChannelHandler_def GetChannel_def Let_def
      case_prod_beta chanAt_setChan unsubscribeHandler_spec names_def)

lemma chanAt_setChan_cases: "chanAt (setChan r c m) q = chanAt m q \<or> (q = r \<and> chanAt (setChan r c m) q = c)"
  by (cases "r < length (cm_heap m)") (auto simp: chanAt_def nth_list_update list_update_beyond)

lemma subscribedIds_unsubscribe_subset: "subscribedIds ch (busUnsubscribe n u b) \<subseteq> subscribedIds ch b"
proof (cases "GetChannel n (bu_mgr b)")
  case (Inr r)
  let ?c = "fst (unsubscribeHandler u (chanAt (bu_mgr b) r))"
  have "chanAt (bu_mgr (busUnsubscribe n u b)) ch = chanAt (setChan r ?c (bu_mgr b)) ch"
    using Inr by (simp add: busUnsubscribe_def UnsubscribeChannelHandler_def Let_def case_prod_beta)
  then show ?thesis using chanAt_setChan_cases [of r ?c "bu_mgr b" ch]
    by (auto simp: subscribedIds_def unsubscribeHandler_spec)
qed (simp add: subscribedIds_def busUnsubscribe_def UnsubscribeChannelHandler_def)

lemma raceEnv_subscribe:
  assumes "raceEnv r name ch b"
  shows "raceEnv r name ch (b\<lparr>bu_mgr := fst (subscribeNew n f g o' i (bu_mgr b))\<rparr>)"
  using assms by (simp add: raceEnv_def)

lemma subscribeNew_result:
  "gm_get (cm_channels m) name = Some ch \<Longrightarrow> snd (subscribeNew name f g o' i m) = Inr i"
  by (simp add: subscribeNew_def GetChannel_def Let_def)

lemma race_handle:
  assumes "raceEnv r name ch b" and "raceInv r ch i h c b" and "handleStep r ctx sh eh i (h, b) = (h', b')"
  shows "raceEnv r name ch b' \<and> raceInv r ch i h' c b'"
proof (cases h)
  case HStart
  let ?f = "\<lambda>mh. mh\<lparr>mh_setupOnce := True, mh_handlerContext := Some (normalizeContext ctx),
      mh_successHandler := sh, mh_errorHandler := eh\<rparr>"
  have env: "raceEnv r name ch (updMh r ?f b)" using assms(1) by (simp add: raceEnv_updMh)
  then have res: "snd (subscribeNew name None (Some (WrapperFn r)) False i (bu_mgr (updMh r ?f b))) = Inr i"
    by (simp add: raceEnv_def subscribeNew_result)
  have r: "r < length (bu_mh b)" using assms(1) by (simp add: raceEnv_def)
  have b': "b' = (updMh r ?f b)\<lparr>bu_mgr := fst (subscribeNew name None (Some (WrapperFn r)) False i (bu_mgr b))\<rparr>"
    and h': "h' = HSubscribed (Some i)"
    using assms(2,3) res raceEnv_name [OF env]
    by (auto simp: HStart raceInv_simps Let_def case_prod_beta SubscribeChannelHandlerContext_def)
  show ?thesis
    using raceEnv_subscribe [OF env] assms(2) r unfolding b' h' by (simp add: HStart raceInv_simps mhAt_updMh)
next
  case (HSubscribed sid)
  then show ?thesis using assms
    by (auto simp: raceInv_simps raceEnv_updMh) (auto simp: raceEnv_def mhAt_updMh)
next
  case (HRecorded sid cl)
  have un: "Some i \<notin> subscribedIds ch (busUnsubscribe name (Some i) b)"
    using assms(1) subscribedIds_unsubscribe [of b name ch i] by (simp add: raceEnv_def)
  show ?thesis using assms HRecorded un raceEnv_name [OF assms(1)]
    by (auto simp: raceInv_simps raceEnv_unsubscribe split: if_splits)
qed (use assms in auto)

lemma race_close:
  assumes "raceEnv r name ch b" and "raceInv r ch i h c b" and "closeStep r (c, b) = (c', b')"
  shows "raceEnv r name ch b' \<and> raceInv r ch i h c' b'"
proof (cases c)
  case CStart
  then have b': "b' = updMh r (\<lambda>mh. mh\<lparr>mh_closed := True\<rparr>) b" "c' = CMarked (mh_subscriptionId (mhAt b r))"
    using assms(3) by auto
  have r: "r < length (bu_mh b)" using assms(1) by (simp add: raceEnv_def)
  show ?thesis using assms(1,2) r CStart unfolding b'
    by (cases h) (auto simp: raceInv_simps raceEnv_updMh mhAt_updMh)
next
  case (CMarked sid)
  have un: "Some i \<notin> subscribedIds ch (busUnsubscribe name (Some i) b)"
    using assms(1) subscribedIds_unsubscribe [of b name ch i] by (simp add: raceEnv_def)
  show ?thesis using assms CMarked un raceEnv_name [OF assms(1)]
      subscribedIds_unsubscribe_subset [of ch name _ b]
    by (cases h) (auto simp: raceInv_simps raceEnv_unsubscribe split: if_splits)
qed (use assms in auto)

lemma race_inv:
  "race r ctx sh eh i ts (h, c, b) = (h', c', b') \<Longrightarrow> raceEnv r name ch b \<Longrightarrow> raceInv r ch i h c b \<Longrightarrow>
   raceInv r ch i h' c' b'"
proof (induction ts arbitrary: h c b)
  case Nil
  then show ?case by simp
next
  case (Cons t ts)
  show ?case
  proof (cases t)
    case True
    obtain h1 b1 where s: "handleStep r ctx sh eh i (h, b) = (h1, b1)" by fastforce
    then show ?thesis using Cons True race_handle [OF Cons.prems(2,3) s] by simp
  next
    case False
    obtain c1 b1 where s: "closeStep r (c, b) = (c1, b1)" by fastforce
    then show ?thesis using Cons False race_close [OF Cons.prems(2,3) s] by simp
  qed
qed

subsection \<open>What a send schedules\<close>

lemma dispatchOn_gor:
  assumes "distinct (map h_ref (handlersSnapshot (chanAt (bu_mgr b) r)))"
    and "filter (\<lambda>h. \<not> spent (ch_fired (chanAt (bu_mgr b) r)) h) (handlersSnapshot (chanAt (bu_mgr b) r)) \<noteq> []"
  shows "\<exists>d. bu_gor (dispatchOn r None ctx msg b) = bu_gor b @ [(r, d)] \<and> dl_message d = msg \<and>
     dl_handlers d = filter (\<lambda>h. \<not> spent (ch_fired (chanAt (bu_mgr b) r)) h) (handlersSnapshot (chanAt (bu_mgr b) r))"
proof -
  let ?c = "chanAt (bu_mgr b) r"
  have all: "roundsBefore (roundDone None) hs = hs" for hs
  proof -
    have "takeWhile (\<lambda>(i, h). \<not> roundDone None i) (enumerate 0 hs) = enumerate 0 hs"
      by (rule takeWhile_eq_all_conv [THEN iffD2]) (auto simp: roundDone_def)
    then show ?thesis unfolding roundsBefore_def by (metis map_snd_enumerate)
  qed
  show ?thesis
    using dispatchContext_spec(1) [OF assms(1) refl, where chk = "roundDone None" and ctx = ctx and msg = msg] assms(2)
    by (auto simp: all dispatchOn_def case_prod_beta Let_def split: option.splits)
qed

subsection \<open>Properties\<close>

text \<open>What a bus message makes a message handler call. Nothing when the dispatch context or
  the handler's own context is done, or when a once-handler has been invoked; the error
  function for an error message; the success function for a message of the handler's
  direction, and of its destination unless it ignores ids, or for any message when it listens
  to all traffic; nothing else.\<close>

theorem handler_calls:
  "bu_calls (handlerWrapper r ctx msg b) = bu_calls b @ callsMade b r ctx msg"
  by (rule wrapper_calls)

text \<open>An error message reaches a handler whatever destination it is for.\<close>

lemma error_ignores_destination:
  "m_Direction msg = ErrorDir \<Longrightarrow>
   callsMade b r ctx (msg\<lparr>m_DestinationId := d\<rparr>) = callsMade b r ctx (msg\<lparr>m_DestinationId := d'\<rparr>)"
  by (simp add: callsMade_def split: option.splits)

text \<open>C2: over every sequence of bus operations, deliveries and cancellations, the functions of
  a once-handler (\<open>ListenOnce\<close>, \<open>RequestOnce\<close> and their variants) are called at most
  once, success and error together.\<close>

theorem once_handler_called_once:
  assumes "r < length (bu_mh (foldl (busStep br) newBus evs))"
    and "mh_runOnce (mhAt (foldl (busStep br) newBus evs) r)"
  shows "callsOf r (foldl (busStep br) newBus evs) \<le> 1"
proof -
  have "once_ok (foldl (busStep br) newBus evs)" by (rule onceBus.run_inv) (rule once_ok_new)
  then obtain d where "callsOf r (foldl (busStep br) newBus evs) \<le> (if d then 1 else 0)"
    using assms by (auto simp: once_ok_def)
  then show ?thesis by (auto split: if_splits)
qed

definition demoOracle :: brokerOracle where
  "demoOracle = \<lparr>or_unsub = (\<lambda>s. None), or_subscribe = (\<lambda>c d. Inl ''refused''), or_showId = (\<lambda>i. [])\<rparr>"

definition demoEvents :: "busEv list" where
  "demoEvents =
     [EvMgr (OpCreate ''c''),
      EvNewHandler ''c'' (zeroOptions\<lparr>mo_direction := ResponseDir, mo_ignoreId := True, mo_runOnce := True,
        mo_generateDestination := True\<rparr>) (1, 2, 3),
      EvHandle 0 None (Some 7) None 4,
      EvSend None \<lparr>so_direction = ResponseDir, so_channelName = ''c'', so_payload = GBool True,
        so_err = None, so_destinationId = None\<rparr> 5 None,
      EvDeliver 0]"

lemma once_handler_called_once_witness:
  "callsOf 0 (foldl (busStep demoOracle) newBus demoEvents) \<le> 1"
proof (rule once_handler_called_once)
  show "0 < length (bu_mh (foldl (busStep demoOracle) newBus demoEvents))"
    and "mh_runOnce (mhAt (foldl (busStep demoOracle) newBus demoEvents) 0)"
    by code_simp+
qed

text \<open>C18: \<open>Close\<close> against a first \<open>Handle\<close>: in whatever order their atomic steps interleave,
  once both have returned the handler's subscription is not on the channel.\<close>

theorem close_handle_race:
  assumes "race r ctx sh eh i ts (HStart, CStart, b) = (HEnd, CEnd, b')"
    and "raceEnv r name ch b"
    and "\<not> mh_setupOnce (mhAt b r)" and "\<not> mh_closed (mhAt b r)" and "mh_subscriptionId (mhAt b r) = None"
    and "Some i \<notin> subscribedIds ch b"
  shows "Some i \<notin> subscribedIds ch b'"
  using race_inv [OF assms(1,2)] assms(3-6) by (simp add: raceInv_simps)

definition demoBus :: bus where
  "demoBus = foldl (busStep demoOracle) newBus (take 2 demoEvents)"

lemma close_handle_race_witness:
  "Some 4 \<notin> subscribedIds 0
     (snd (snd (race 0 None (Some 7) None 4 [True, False, True, False, True] (HStart, CStart, demoBus))))"
proof (rule close_handle_race)
  show "race 0 None (Some 7) None 4 [True, False, True, False, True] (HStart, CStart, demoBus) =
      (HEnd, CEnd, snd (snd (race 0 None (Some 7) None 4 [True, False, True, False, True] (HStart, CStart, demoBus))))"
    by code_simp
  show "raceEnv 0 ''c'' 0 demoBus" by code_simp
  show "\<not> mh_setupOnce (mhAt demoBus 0)" "\<not> mh_closed (mhAt demoBus 0)"
    "mh_subscriptionId (mhAt demoBus 0) = None" "Some 4 \<notin> subscribedIds 0 demoBus"
    by code_simp+
qed

text \<open>A send to an existing channel under a live context, in one of the three directions,
  succeeds and hands the one generated message to one delivery goroutine, for every handler
  subscribed and not spent, in subscription order.\<close>

theorem send_schedules_all:
  assumes "ctxErrOf b (normalizeContext ctx) = None"
    and "GetChannel (so_channelName opts) (bu_mgr b) = Inr r"
    and "messageFor newId opts = Inr msg"
    and "distinct (map h_ref (handlersSnapshot (chanAt (bu_mgr b) r)))"
    and "hs = filter (\<lambda>h. \<not> spent (ch_fired (chanAt (bu_mgr b) r)) h) (handlersSnapshot (chanAt (bu_mgr b) r))"
    and "hs \<noteq> []"
  shows "snd (sendMessageContext ctx opts newId None b) = None \<and>
     (\<exists>d. bu_gor (fst (sendMessageContext ctx opts newId None b)) = bu_gor b @ [(r, d)] \<and>
        dl_message d = msg \<and> dl_handlers d = hs)"
  using assms dispatchOn_gor [OF assms(4), of "Some (normalizeContext ctx)" msg]
  by (simp add: sendMessageContext_def Let_def)

definition demoSend :: sendMessageOptions where
  "demoSend = \<lparr>so_direction = RequestDir, so_channelName = ''c'', so_payload = GNil, so_err = None,
     so_destinationId = None\<rparr>"

definition demoHandled :: bus where
  "demoHandled = foldl (busStep demoOracle) newBus (take 3 demoEvents)"

lemma send_schedules_all_witness: "snd (sendMessageContext None demoSend 9 None demoHandled) = None"
proof (rule send_schedules_all [THEN conjunct1])
  show "ctxErrOf demoHandled (normalizeContext None) = None"
    "GetChannel (so_channelName demoSend) (bu_mgr demoHandled) = Inr 0"
    "messageFor 9 demoSend = Inr (GenerateRequest 9 (buildConfig 9 ''c'' GNil None))"
    "distinct (map h_ref (handlersSnapshot (chanAt (bu_mgr demoHandled) 0)))"
    "[newEventHandler None (Some (WrapperFn 0)) False 4 0] =
       filter (\<lambda>h. \<not> spent (ch_fired (chanAt (bu_mgr demoHandled) 0)) h)
         (handlersSnapshot (chanAt (bu_mgr demoHandled) 0))"
    "[newEventHandler None (Some (WrapperFn 0)) False 4 0] \<noteq> []"
    by code_simp+
qed

end
