(* ===== verification/Transaction.thy ===== *)
theory Transaction
  imports Messages
begin

text \<open>
  bus/tx/transaction.go: a transaction batches requests and store waits. The lock makes each
  of its operations and callbacks one step; between the steps run the request loop, the
  listeners' answers, the store callbacks and the goroutine that watches the context. What a
  once-listener and \<open>WhenReady\<close> guarantee, that a request is answered at most once, is the
  list \<open>tx_pending\<close>: an answer takes its request out of it.
\<close>

datatype TransactionType = AsyncTransaction | SyncTransaction

datatype transactionState = UncommittedState | CommittedState | CompletedState | AbortedState

fun stateIndex :: "transactionState \<Rightarrow> nat" where
  "stateIndex UncommittedState = 0"
| "stateIndex CommittedState = 1"
| "stateIndex CompletedState = 2"
| "stateIndex AbortedState = 3"

instantiation transactionState :: linorder
begin

definition less_eq_transactionState :: "transactionState \<Rightarrow> transactionState \<Rightarrow> bool" where
  "less_eq_transactionState s t = (stateIndex s \<le> stateIndex t)"

definition less_transactionState :: "transactionState \<Rightarrow> transactionState \<Rightarrow> bool" where
  "less_transactionState s t = (stateIndex s < stateIndex t)"

instance
proof
  fix s t u :: transactionState
  show "s < t \<longleftrightarrow> s \<le> t \<and> \<not> t \<le> s"
    by (auto simp: less_eq_transactionState_def less_transactionState_def)
  show "s \<le> s" by (simp add: less_eq_transactionState_def)
  show "s \<le> t \<Longrightarrow> t \<le> u \<Longrightarrow> s \<le> u" by (simp add: less_eq_transactionState_def)
  show "s \<le> t \<Longrightarrow> t \<le> s \<Longrightarrow> s = t"
    by (cases s; cases t) (simp_all add: less_eq_transactionState_def)
  show "s \<le> t \<or> t \<le> s" by (auto simp: less_eq_transactionState_def)
qed

end

record busTransactionRequest =
  rq_requestIndex :: nat
  rq_storeName :: string
  rq_channelName :: string
  rq_payload :: gval

datatype txCall =
    CompleteCall nat "message option list"
  | ErrorCall nat err

text \<open>The fields of the struct, then the run-time that belongs to a commit: the requests the
  loop has still to execute, the requests sent and waiting for their answer, the requests sent
  so far, the spawned calls, the context, and the goroutine that waits for its end.\<close>

record busTransaction =
  tx_type :: TransactionType
  tx_state :: transactionState
  tx_requests :: "busTransactionRequest list"
  tx_responses :: "message option list"
  tx_onCompleteHandlers :: "nat list"
  tx_onErrorHandlers :: "nat list"
  tx_completedRequests :: nat
  tx_todo :: "nat list"
  tx_pending :: "nat list"
  tx_sent :: "nat list"
  tx_calls :: "txCall list"
  tx_ctx :: goctx
  tx_watching :: bool

definition newTransaction :: "TransactionType \<Rightarrow> busTransaction" where
  "newTransaction t =
     \<lparr>tx_type = t, tx_state = UncommittedState, tx_requests = [], tx_responses = [],
      tx_onCompleteHandlers = [], tx_onErrorHandlers = [], tx_completedRequests = 0,
      tx_todo = [], tx_pending = [], tx_sent = [], tx_calls = [], tx_ctx = Background, tx_watching = False\<rparr>"

subsection \<open>Building a transaction\<close>

definition checkUncommittedState :: "busTransaction \<Rightarrow> err option" where
  "checkUncommittedState tr =
     (if tx_state tr \<noteq> UncommittedState then Some ''transaction has already been committed'' else None)"

definition txSendRequest :: "string \<Rightarrow> gval \<Rightarrow> busTransaction \<Rightarrow> busTransaction \<times> err option" where
  "txSendRequest channel payload tr =
     (case checkUncommittedState tr of
        Some e \<Rightarrow> (tr, Some e)
      | None \<Rightarrow>
          (tr\<lparr>tx_requests := tx_requests tr @
             [\<lparr>rq_requestIndex = length (tx_requests tr), rq_storeName = [], rq_channelName = channel,
               rq_payload = payload\<rparr>]\<rparr>, None))"

text \<open>\<open>exists\<close>: the store manager has the store.\<close>

definition WaitForStoreReady :: "bool \<Rightarrow> string \<Rightarrow> busTransaction \<Rightarrow> busTransaction \<times> err option" where
  "WaitForStoreReady hasStore storeName tr =
     (case checkUncommittedState tr of
        Some e \<Rightarrow> (tr, Some e)
      | None \<Rightarrow>
          (if \<not> hasStore then (tr, Some (''cannot find store '' @ squote storeName))
           else (tr\<lparr>tx_requests := tx_requests tr @
             [\<lparr>rq_requestIndex = length (tx_requests tr), rq_storeName = storeName, rq_channelName = [],
               rq_payload = GNil\<rparr>]\<rparr>, None)))"

definition OnComplete :: "nat \<Rightarrow> busTransaction \<Rightarrow> busTransaction \<times> err option" where
  "OnComplete h tr =
     (case checkUncommittedState tr of
        Some e \<Rightarrow> (tr, Some e)
      | None \<Rightarrow> (tr\<lparr>tx_onCompleteHandlers := tx_onCompleteHandlers tr @ [h]\<rparr>, None))"

definition OnError :: "nat \<Rightarrow> busTransaction \<Rightarrow> busTransaction \<times> err option" where
  "OnError h tr =
     (case checkUncommittedState tr of
        Some e \<Rightarrow> (tr, Some e)
      | None \<Rightarrow> (tr\<lparr>tx_onErrorHandlers := tx_onErrorHandlers tr @ [h]\<rparr>, None))"

subsection \<open>Committing\<close>

definition CommitContext :: "goctx option \<Rightarrow> busTransaction \<Rightarrow> busTransaction \<times> err option" where
  "CommitContext ctx0 tr =
     (let ctx = orBackground ctx0 in
      case ctxErr ctx of
        Some e \<Rightarrow> (tr, Some e)
      | None \<Rightarrow>
          (case checkUncommittedState tr of
             Some e \<Rightarrow> (tr, Some e)
           | None \<Rightarrow>
               (if length (tx_requests tr) = 0 then (tr, Some ''cannot commit empty transaction'')
                else (tr\<lparr>tx_state := CommittedState, tx_ctx := ctx,
                        tx_responses := replicate (length (tx_requests tr)) None,
                        tx_watching := ctxHasDone ctx,
                        tx_todo := (if tx_type tr = AsyncTransaction
                                    then map rq_requestIndex (tx_requests tr)
                                    else [rq_requestIndex (tx_requests tr ! 0)])\<rparr>, None))))"

definition Commit :: "busTransaction \<Rightarrow> busTransaction \<times> err option" where
  "Commit tr = CommitContext (Some Background) tr"

definition onTransactionError :: "err \<Rightarrow> busTransaction \<Rightarrow> busTransaction" where
  "onTransactionError e tr =
     (if tx_state tr = AbortedState \<or> tx_state tr = CompletedState then tr
      else tr\<lparr>tx_state := AbortedState,
              tx_calls := tx_calls tr @ map (\<lambda>h. ErrorCall h e) (tx_onErrorHandlers tr)\<rparr>)"

definition onTransactionRequestSuccess :: "nat \<Rightarrow> message \<Rightarrow> busTransaction \<Rightarrow> busTransaction" where
  "onTransactionRequestSuccess i message tr =
     (if tx_state tr = AbortedState then tr
      else (let tr1 = tr\<lparr>tx_responses := (tx_responses tr)[i := Some message],
                         tx_completedRequests := tx_completedRequests tr + 1\<rparr>
            in if tx_completedRequests tr1 = length (tx_requests tr1)
               then tr1\<lparr>tx_state := CompletedState,
                        tx_calls := tx_calls tr1 @
                          map (\<lambda>h. CompleteCall h (tx_responses tr1)) (tx_onCompleteHandlers tr1)\<rparr>
               else if tx_type tr1 = SyncTransaction \<and> i < length (tx_requests tr1) - 1
               then tr1\<lparr>tx_todo := tx_todo tr1 @ [rq_requestIndex (tx_requests tr1 ! (i + 1))]\<rparr>
               else tr1))"

text \<open>What the collaborators answer while a request is executed: whether the listener can be
  made, whether the request message can be sent, whether the store exists.\<close>

record execAnswers =
  ea_listen :: "err option"
  ea_send :: "err option"
  ea_hasStore :: bool

definition sendRequest :: "execAnswers \<Rightarrow> nat \<Rightarrow> busTransaction \<Rightarrow> busTransaction" where
  "sendRequest ans i tr =
     (case ea_listen ans of
        Some e \<Rightarrow> onTransactionError e tr
      | None \<Rightarrow>
          (case ea_send ans of
             Some e \<Rightarrow> onTransactionError e tr
           | None \<Rightarrow> tr\<lparr>tx_pending := tx_pending tr @ [i], tx_sent := tx_sent tr @ [i]\<rparr>))"

definition waitForStore :: "execAnswers \<Rightarrow> nat \<Rightarrow> busTransaction \<Rightarrow> busTransaction" where
  "waitForStore ans i tr =
     (if \<not> ea_hasStore ans
      then onTransactionError (''cannot find store '' @ squote (rq_storeName (tx_requests tr ! i))) tr
      else (case ctxErr (tx_ctx tr) of
              Some e \<Rightarrow> onTransactionError e tr
            | None \<Rightarrow> tr\<lparr>tx_pending := tx_pending tr @ [i], tx_sent := tx_sent tr @ [i]\<rparr>))"

definition executeRequest :: "execAnswers \<Rightarrow> nat \<Rightarrow> busTransaction \<Rightarrow> busTransaction" where
  "executeRequest ans i tr =
     (case ctxErr (tx_ctx tr) of
        Some e \<Rightarrow> onTransactionError e tr
      | None \<Rightarrow>
          (if rq_storeName (tx_requests tr ! i) \<noteq> [] then waitForStore ans i tr else sendRequest ans i tr))"

subsection \<open>The steps of a transaction\<close>

datatype txEv =
    TSendRequest string gval
  | TWaitForStore bool string
  | TOnComplete nat
  | TOnError nat
  | TCommit "goctx option"
  | TExecute execAnswers
  | TReply nat message
  | TReplyError nat err
  | TStoreReady nat "(string \<times> gval) list"
  | TCancel err
  | TWatcher

definition answered :: "nat \<Rightarrow> busTransaction \<Rightarrow> busTransaction" where
  "answered i tr = tr\<lparr>tx_pending := remove1 i (tx_pending tr)\<rparr>"

definition isStoreRequest :: "nat \<Rightarrow> busTransaction \<Rightarrow> bool" where
  "isStoreRequest i tr = (rq_storeName (tx_requests tr ! i) \<noteq> [])"

text \<open>The response that a ready store stands for: its values as a map.\<close>

definition storeMessage :: "(string \<times> gval) list \<Rightarrow> message" where
  "storeMessage vals =
     \<lparr>m_Id = None, m_DestinationId = None, m_Channel = [], m_Destination = [],
      m_Payload = GMap vals, m_Error = None, m_Direction = ResponseDir, m_Headers = []\<rparr>"

text \<open>An event that cannot happen in a state leaves it unchanged: an answer to a request that
  is not pending, a listener's call under an ended context (the wrapper of the bus drops it).\<close>

fun txStep :: "busTransaction \<Rightarrow> txEv \<Rightarrow> busTransaction" where
  "txStep tr (TSendRequest c p) = fst (txSendRequest c p tr)"
| "txStep tr (TWaitForStore ex s) = fst (WaitForStoreReady ex s tr)"
| "txStep tr (TOnComplete h) = fst (OnComplete h tr)"
| "txStep tr (TOnError h) = fst (OnError h tr)"
| "txStep tr (TCommit ctx) = fst (CommitContext ctx tr)"
| "txStep tr (TExecute ans) =
     (case tx_todo tr of [] \<Rightarrow> tr | i # rest \<Rightarrow> executeRequest ans i (tr\<lparr>tx_todo := rest\<rparr>))"
| "txStep tr (TReply i m) =
     (if i \<in> set (tx_pending tr) \<and> \<not> isStoreRequest i tr \<and> ctxErr (tx_ctx tr) = None
      then onTransactionRequestSuccess i m (answered i tr) else tr)"
| "txStep tr (TReplyError i e) =
     (if i \<in> set (tx_pending tr) \<and> \<not> isStoreRequest i tr \<and> ctxErr (tx_ctx tr) = None
      then onTransactionError e (answered i tr) else tr)"
| "txStep tr (TStoreReady i vals) =
     (if i \<in> set (tx_pending tr) \<and> isStoreRequest i tr
      then (case ctxErr (tx_ctx tr) of
              Some e \<Rightarrow> onTransactionError e (answered i tr)
            | None \<Rightarrow> onTransactionRequestSuccess i (storeMessage vals) (answered i tr))
      else tr)"
| "txStep tr (TCancel e) =
     (if ctxHasDone (tx_ctx tr) \<and> ctxErr (tx_ctx tr) = None then tr\<lparr>tx_ctx := Cancellable (Some e)\<rparr> else tr)"
| "txStep tr TWatcher =
     (case ctxErr (tx_ctx tr) of
        Some e \<Rightarrow> if tx_watching tr then onTransactionError e (tr\<lparr>tx_watching := False\<rparr>) else tr
      | None \<Rightarrow> tr)"

subsection \<open>The invariant\<close>

definition answeredSet :: "busTransaction \<Rightarrow> nat set" where
  "answeredSet tr = {i. i < length (tx_responses tr) \<and> tx_responses tr ! i \<noteq> None}"

text \<open>The calls that each state has made.\<close>

definition calls_ok :: "busTransaction \<Rightarrow> bool" where
  "calls_ok tr \<longleftrightarrow>
     (case tx_state tr of
        UncommittedState \<Rightarrow> tx_calls tr = []
      | CommittedState \<Rightarrow> tx_calls tr = []
      | CompletedState \<Rightarrow>
          tx_calls tr = map (\<lambda>h. CompleteCall h (tx_responses tr)) (tx_onCompleteHandlers tr) \<and>
          None \<notin> set (tx_responses tr)
      | AbortedState \<Rightarrow> (\<exists>e. tx_calls tr = map (\<lambda>h. ErrorCall h e) (tx_onErrorHandlers tr)))"

text \<open>In a committed transaction the requests to execute, the pending and the answered ones are
  apart; a synchronous one has at most one in hand, and before it all are answered.\<close>

definition flow_ok :: "busTransaction \<Rightarrow> bool" where
  "flow_ok tr \<longleftrightarrow>
     distinct (tx_todo tr @ tx_pending tr) \<and>
     set (tx_todo tr @ tx_pending tr) \<inter> answeredSet tr = {} \<and>
     length (tx_responses tr) = length (tx_requests tr) \<and>
     tx_completedRequests tr = card (answeredSet tr) \<and>
     card (answeredSet tr) < length (tx_requests tr)"

definition sync_ok :: "busTransaction \<Rightarrow> bool" where
  "sync_ok tr \<longleftrightarrow>
     length (tx_todo tr @ tx_pending tr) \<le> 1 \<and>
     tx_sent tr = [0..<length (tx_sent tr)] \<and>
     (\<forall>k \<in> set (tx_todo tr). length (tx_sent tr) = k \<and> answeredSet tr = {..<k}) \<and>
     (\<forall>k \<in> set (tx_pending tr). length (tx_sent tr) = Suc k \<and> answeredSet tr = {..<k}) \<and>
     {..<length (tx_sent tr) - 1} \<subseteq> answeredSet tr"

definition tx_inv :: "busTransaction \<Rightarrow> bool" where
  "tx_inv tr \<longleftrightarrow>
     (\<forall>i < length (tx_requests tr). rq_requestIndex (tx_requests tr ! i) = i) \<and>
     calls_ok tr \<and>
     set (tx_todo tr @ tx_pending tr) \<subseteq> {..<length (tx_requests tr)} \<and>
     (tx_type tr = SyncTransaction \<longrightarrow> sync_ok tr) \<and>
     (case tx_state tr of
        UncommittedState \<Rightarrow> tx_todo tr = [] \<and> tx_pending tr = [] \<and> tx_sent tr = [] \<and>
          tx_completedRequests tr = 0 \<and> \<not> tx_watching tr \<and> tx_ctx tr = Background
      | CommittedState \<Rightarrow> flow_ok tr
      | CompletedState \<Rightarrow> tx_todo tr = [] \<and> tx_pending tr = []
      | AbortedState \<Rightarrow> True)"

lemma tx_inv_new: "tx_inv (newTransaction t)"
  by (simp add: tx_inv_def newTransaction_def calls_ok_def sync_ok_def answeredSet_def)

lemma answeredSet_updates [simp]:
  "answeredSet (tr\<lparr>tx_todo := x\<rparr>) = answeredSet tr" "answeredSet (tr\<lparr>tx_pending := y\<rparr>) = answeredSet tr"
  "answeredSet (tr\<lparr>tx_state := st\<rparr>) = answeredSet tr" "answeredSet (tr\<lparr>tx_calls := cs\<rparr>) = answeredSet tr"
  "answeredSet (tr\<lparr>tx_sent := z\<rparr>) = answeredSet tr" "answeredSet (tr\<lparr>tx_completedRequests := n\<rparr>) = answeredSet tr"
  "answeredSet (tr\<lparr>tx_ctx := c\<rparr>) = answeredSet tr" "answeredSet (tr\<lparr>tx_watching := w\<rparr>) = answeredSet tr"
  "answeredSet (answered i tr) = answeredSet tr"
  by (simp_all add: answeredSet_def answered_def)

lemma answered_simps [simp]:
  "tx_requests (answered i tr) = tx_requests tr" "tx_responses (answered i tr) = tx_responses tr"
  "tx_completedRequests (answered i tr) = tx_completedRequests tr" "tx_type (answered i tr) = tx_type tr"
  "tx_state (answered i tr) = tx_state tr" "tx_todo (answered i tr) = tx_todo tr"
  "tx_pending (answered i tr) = remove1 i (tx_pending tr)" "tx_sent (answered i tr) = tx_sent tr"
  "tx_calls (answered i tr) = tx_calls tr"
  by (simp_all add: answered_def)

lemma finite_answeredSet [simp]: "finite (answeredSet tr)"
  by (simp add: answeredSet_def)

lemma tx_inv_build:
  assumes "tx_inv tr" and "checkUncommittedState tr = None" and "rq_requestIndex q = length (tx_requests tr)"
  shows "tx_inv (tr\<lparr>tx_requests := tx_requests tr @ [q]\<rparr>)"
  using assms
  by (auto simp: tx_inv_def checkUncommittedState_def calls_ok_def sync_ok_def answeredSet_def nth_append
      less_Suc_eq split: if_splits)

lemma tx_inv_handlers:
  assumes "tx_inv tr" and "checkUncommittedState tr = None"
  shows "tx_inv (tr\<lparr>tx_onCompleteHandlers := hs\<rparr>)" "tx_inv (tr\<lparr>tx_onErrorHandlers := hs\<rparr>)"
  using assms
  by (auto simp: tx_inv_def checkUncommittedState_def calls_ok_def sync_ok_def answeredSet_def split: if_splits)

lemma tx_inv_commit: "tx_inv tr \<Longrightarrow> tx_inv (fst (CommitContext ctx tr))"
proof (cases "ctxErr (orBackground ctx) = None \<and> checkUncommittedState tr = None \<and> tx_requests tr \<noteq> []")
  case True
  assume inv: "tx_inv tr"
  have idx: "map rq_requestIndex (tx_requests tr) = [0..<length (tx_requests tr)]"
    using inv by (auto simp: tx_inv_def intro: nth_equalityI)
  have none: "{i. i < length (tx_requests tr) \<and> (\<exists>y :: message. replicate (length (tx_requests tr)) None ! i = Some y)} = {}"
    by auto
  have "rq_requestIndex (tx_requests tr ! 0) = 0" using inv True by (simp add: tx_inv_def)
  then show ?thesis using inv True
    by (auto simp: CommitContext_def tx_inv_def checkUncommittedState_def calls_ok_def sync_ok_def flow_ok_def
        answeredSet_def idx none Let_def split: if_splits)
next
  case False
  assume "tx_inv tr"
  then show ?thesis using False by (auto simp: CommitContext_def Let_def split: option.splits)
qed

lemma tx_inv_error: "tx_inv tr \<Longrightarrow> tx_state tr \<noteq> UncommittedState \<Longrightarrow> tx_inv (onTransactionError e tr)"
  by (cases "tx_state tr")
    (auto simp: onTransactionError_def tx_inv_def calls_ok_def sync_ok_def)

lemma tx_inv_drop_todo:
  "tx_inv tr \<Longrightarrow> tx_todo tr = i # rest \<Longrightarrow> tx_inv (tr\<lparr>tx_todo := rest\<rparr>)"
  by (cases "tx_state tr") (auto simp: tx_inv_def calls_ok_def sync_ok_def flow_ok_def)

lemma tx_inv_answered: "tx_inv tr \<Longrightarrow> tx_inv (answered i tr)"
proof -
  assume inv: "tx_inv tr"
  have sub: "set (remove1 i (tx_pending tr)) \<subseteq> set (tx_pending tr)" by (rule set_remove1_subset)
  have len: "length (remove1 i (tx_pending tr)) \<le> length (tx_pending tr)"
    by (simp add: length_remove1)
  have "sync_ok tr \<Longrightarrow> sync_ok (answered i tr)" using sub len by (fastforce simp: sync_ok_def)
  moreover have "flow_ok tr \<Longrightarrow> flow_ok (answered i tr)" using sub by (fastforce simp: flow_ok_def)
  ultimately show ?thesis using inv sub
    by (cases "tx_state tr") (auto simp: tx_inv_def calls_ok_def answered_def)
qed

lemma tx_inv_send:
  assumes "tx_inv tr" and "tx_todo tr = i # rest"
  shows "tx_inv (tr\<lparr>tx_todo := rest, tx_pending := tx_pending tr @ [i], tx_sent := tx_sent tr @ [i]\<rparr>)"
proof -
  have "sync_ok tr \<Longrightarrow> sync_ok (tr\<lparr>tx_todo := rest, tx_pending := tx_pending tr @ [i], tx_sent := tx_sent tr @ [i]\<rparr>)"
    using assms(2) by (auto simp: sync_ok_def)
  moreover have "flow_ok tr \<Longrightarrow> flow_ok (tr\<lparr>tx_todo := rest, tx_pending := tx_pending tr @ [i], tx_sent := tx_sent tr @ [i]\<rparr>)"
    using assms(2) by (auto simp: flow_ok_def)
  ultimately show ?thesis using assms by (cases "tx_state tr") (auto simp: tx_inv_def calls_ok_def)
qed

lemma tx_inv_execute:
  assumes "tx_inv tr" and "tx_todo tr = i # rest"
  shows "tx_inv (executeRequest ans i (tr\<lparr>tx_todo := rest\<rparr>))"
proof -
  have st: "tx_state tr \<noteq> UncommittedState" using assms by (auto simp: tx_inv_def)
  have err: "tx_inv (onTransactionError e (tr\<lparr>tx_todo := rest\<rparr>))" for e
    using tx_inv_error [OF tx_inv_drop_todo [OF assms]] st by simp
  show ?thesis using err tx_inv_send [OF assms]
    by (auto simp: executeRequest_def sendRequest_def waitForStore_def split: option.splits)
qed

lemma answeredSet_success:
  "i < length (tx_responses tr) \<Longrightarrow>
   answeredSet (tr\<lparr>tx_responses := (tx_responses tr)[i := Some m], tx_completedRequests := n\<rparr>) = insert i (answeredSet tr)"
  by (auto simp: answeredSet_def nth_list_update)

lemma answered_all: "A \<subseteq> {..<n} \<Longrightarrow> card A = n \<Longrightarrow> A = {..<n}"
  by (metis card_lessThan card_subset_eq finite_lessThan)

lemma tx_inv_success:
  assumes inv: "tx_inv tr" and i: "i \<in> set (tx_pending tr)"
  shows "tx_inv (onTransactionRequestSuccess i m (answered i tr))"
proof (cases "tx_state tr")
  case CommittedState
  let ?tr = "(answered i tr)\<lparr>tx_responses := (tx_responses tr)[i := Some m],
      tx_completedRequests := tx_completedRequests tr + 1\<rparr>"
  let ?n = "length (tx_requests tr)"
  have flow: "flow_ok tr" and sub: "set (tx_todo tr @ tx_pending tr) \<subseteq> {..<?n}"
    and idx: "\<And>j. j < ?n \<Longrightarrow> rq_requestIndex (tx_requests tr ! j) = j"
    and sync: "tx_type tr = SyncTransaction \<Longrightarrow> sync_ok tr" and calls: "tx_calls tr = []"
    using inv CommittedState by (auto simp: tx_inv_def calls_ok_def)
  have len: "length (tx_responses tr) = ?n" and lt: "i < ?n" using flow sub i by (auto simp: flow_ok_def)
  have ans: "answeredSet ?tr = insert i (answeredSet tr)"
    using answeredSet_success [of i "answered i tr"] len lt by simp
  have new: "i \<notin> answeredSet tr" using flow i by (auto simp: flow_ok_def)
  have card: "card (answeredSet ?tr) = Suc (card (answeredSet tr))" using ans new by simp
  have comp: "tx_completedRequests tr = card (answeredSet tr)" using flow by (simp add: flow_ok_def)
  have subA: "answeredSet ?tr \<subseteq> {..<?n}" using ans len lt by (auto simp: answeredSet_def)
  have rest: "set (remove1 i (tx_pending tr)) = set (tx_pending tr) - {i}"
    using flow by (simp add: flow_ok_def)
  show ?thesis
  proof (cases "Suc (card (answeredSet tr)) = ?n")
    case True
    then have all: "answeredSet ?tr = {..<?n}" using answered_all [OF subA] card by simp
    have disj: "set (tx_todo tr @ remove1 i (tx_pending tr)) \<inter> answeredSet ?tr = {}"
    proof -
      have "i \<notin> set (tx_todo tr)" using flow i by (auto simp: flow_ok_def)
      moreover have "set (tx_todo tr @ tx_pending tr) \<inter> answeredSet tr = {}" using flow by (simp add: flow_ok_def)
      ultimately show ?thesis unfolding ans set_append rest by blast
    qed
    have "set (tx_todo tr @ remove1 i (tx_pending tr)) \<subseteq> {..<?n}"
      using sub unfolding set_append rest by blast
    then have "set (tx_todo tr @ remove1 i (tx_pending tr)) = {}"
      using disj unfolding all by (simp only: Int_absorb2)
    then have empty: "tx_todo tr = []" "remove1 i (tx_pending tr) = []" by simp_all
    have full: "None \<notin> set ((tx_responses tr)[i := Some m])"
    proof
      assume "None \<in> set ((tx_responses tr)[i := Some m])"
      then obtain j where "j < ?n" "(tx_responses tr)[i := Some m] ! j = None"
        using len by (auto simp: in_set_conv_nth)
      moreover from this have "j \<in> answeredSet ?tr" using all by simp
      ultimately show False by (simp add: answeredSet_def)
    qed
    have sy: "sync_ok (?tr\<lparr>tx_state := CompletedState, tx_calls := c\<rparr>)" if "tx_type tr = SyncTransaction" for c
      using sync [OF that] empty ans by (auto simp: sync_ok_def)
    show ?thesis using True CommittedState comp empty full sy idx calls
      by (simp add: onTransactionRequestSuccess_def Let_def tx_inv_def calls_ok_def)
  next
    case False
    then have less: "card (answeredSet ?tr) < ?n"
      using card flow by (simp add: flow_ok_def)
    show ?thesis
    proof (cases "tx_type tr = SyncTransaction")
      case True
      have sok: "sync_ok tr" by (rule sync [OF True])
      then have "length (tx_todo tr @ tx_pending tr) \<le> 1" unfolding sync_ok_def by blast
      then have s1: "tx_pending tr = [i]" "tx_todo tr = []" using i by (cases "tx_pending tr"; simp)+
      have s2: "length (tx_sent tr) = Suc i" "answeredSet tr = {..<i}" "tx_sent tr = [0..<length (tx_sent tr)]"
        using sok i unfolding sync_ok_def by blast+
      have i1: "Suc i < ?n" using False s2(2) lt by simp
      let ?nx = "?tr\<lparr>tx_todo := [Suc i]\<rparr>"
      have res: "onTransactionRequestSuccess i m (answered i tr) = ?nx"
        using True CommittedState comp False i1 s1 idx [OF i1] by (simp add: onTransactionRequestSuccess_def Let_def)
      have A: "answeredSet ?nx = {..<Suc i}" using ans s2(2) by (simp add: lessThan_Suc)
      have "flow_ok ?nx" using A card less comp len s1 unfolding flow_ok_def by simp
      moreover have "sync_ok ?nx" using A s1 s2 unfolding sync_ok_def by simp
      ultimately show ?thesis
        unfolding res tx_inv_def using True CommittedState calls idx i1 s1 by (simp add: calls_ok_def)
    next
      case False
      have "flow_ok ?tr" using flow less card comp len ans rest i by (auto simp: flow_ok_def)
      then show ?thesis using False \<open>Suc (card (answeredSet tr)) \<noteq> ?n\<close> CommittedState comp idx calls sub rest
        by (auto simp: onTransactionRequestSuccess_def Let_def tx_inv_def calls_ok_def)
    qed
  qed
next
  case AbortedState
  then show ?thesis using tx_inv_answered [OF inv] by (simp add: onTransactionRequestSuccess_def)
qed (use inv i in \<open>auto simp: tx_inv_def\<close>)

lemma tx_inv_env:
  assumes "tx_inv tr" and "tx_state tr \<noteq> UncommittedState"
  shows "tx_inv (tr\<lparr>tx_ctx := c\<rparr>)" "tx_inv (tr\<lparr>tx_watching := w\<rparr>)"
  using assms by (cases "tx_state tr"; auto simp: tx_inv_def calls_ok_def flow_ok_def sync_ok_def)+

lemma uncommitted_env:
  "tx_inv tr \<Longrightarrow> tx_state tr = UncommittedState \<Longrightarrow> tx_ctx tr = Background \<and> \<not> tx_watching tr"
  by (simp add: tx_inv_def)

lemma pending_committed: "tx_inv tr \<Longrightarrow> i \<in> set (tx_pending tr) \<Longrightarrow> tx_state tr \<noteq> UncommittedState"
  by (auto simp: tx_inv_def)

lemma tx_inv_step: "tx_inv tr \<Longrightarrow> tx_inv (txStep tr e)"
proof (cases e)
  case (TSendRequest c p)
  then show "tx_inv tr \<Longrightarrow> ?thesis"
    by (auto simp: txSendRequest_def tx_inv_build split: option.splits)
next
  case (TWaitForStore ex s)
  then show "tx_inv tr \<Longrightarrow> ?thesis"
    by (auto simp: WaitForStoreReady_def tx_inv_build split: option.splits)
next
  case (TOnComplete h)
  then show "tx_inv tr \<Longrightarrow> ?thesis"
    by (auto simp: OnComplete_def tx_inv_handlers split: option.splits)
next
  case (TOnError h)
  then show "tx_inv tr \<Longrightarrow> ?thesis"
    by (auto simp: OnError_def tx_inv_handlers split: option.splits)
next
  case (TCommit ctx)
  then show "tx_inv tr \<Longrightarrow> ?thesis" by (simp add: tx_inv_commit)
next
  case (TExecute ans)
  then show "tx_inv tr \<Longrightarrow> ?thesis" by (auto simp: tx_inv_execute split: list.splits)
next
  case (TReply i m)
  then show "tx_inv tr \<Longrightarrow> ?thesis" by (simp add: tx_inv_success)
next
  case (TReplyError i err)
  then show "tx_inv tr \<Longrightarrow> ?thesis"
    using pending_committed by (auto simp: tx_inv_answered intro!: tx_inv_error)
next
  case (TStoreReady i vals)
  then show "tx_inv tr \<Longrightarrow> ?thesis"
    using pending_committed
    by (auto simp: tx_inv_success tx_inv_answered intro!: tx_inv_error split: option.splits)
next
  case (TCancel err)
  then show "tx_inv tr \<Longrightarrow> ?thesis"
    using tx_inv_env(1) [of tr] uncommitted_env [of tr] by (cases "tx_state tr = UncommittedState") auto
next
  case TWatcher
  then show "tx_inv tr \<Longrightarrow> ?thesis"
    using tx_inv_error [OF tx_inv_env(2) [of tr False]] uncommitted_env [of tr]
    by (cases "tx_state tr = UncommittedState") (auto split: option.splits)
qed

lemma state_step: "tx_inv tr \<Longrightarrow> tx_state tr \<le> tx_state (txStep tr e)"
proof -
  assume inv: "tx_inv tr"
  have err: "tx_state tr' \<le> tx_state (onTransactionError x tr')" for x tr'
    by (cases "tx_state tr'") (auto simp: onTransactionError_def less_eq_transactionState_def)
  have exec: "tx_state tr' \<le> tx_state (executeRequest ans i tr')" for ans i tr'
    using err by (auto simp: executeRequest_def sendRequest_def waitForStore_def split: option.splits)
  have succ: "tx_state tr \<le> tx_state (onTransactionRequestSuccess i m (answered i tr))" for i m
    by (cases "tx_state tr") (auto simp: onTransactionRequestSuccess_def Let_def less_eq_transactionState_def)
  have errA: "tx_state tr \<le> tx_state (onTransactionError x (answered i tr))" for x i
    using err [of "answered i tr" x] by simp
  show ?thesis
  proof (cases e)
    case (TCommit ctx)
    then show ?thesis
      by (auto simp: CommitContext_def checkUncommittedState_def Let_def less_eq_transactionState_def
          split: option.splits)
  next
    case (TExecute ans)
    then show ?thesis using exec [where tr' = "tr\<lparr>tx_todo := rest\<rparr>" for rest] by (auto split: list.splits)
  next
    case TWatcher
    then show ?thesis using err [where tr' = "tr\<lparr>tx_watching := False\<rparr>"] by (auto split: option.splits)
  next
    case (TStoreReady i vals)
    then show ?thesis using succ errA by (auto split: option.splits)
  next
    case (TReply i m)
    then show ?thesis using succ by auto
  next
    case (TReplyError i x)
    then show ?thesis using errA by auto
  qed (auto simp: txSendRequest_def WaitForStoreReady_def OnComplete_def OnError_def split: option.splits)
qed

interpretation tx: monotone_machine txStep tx_inv tx_state
  by unfold_locales (auto intro: tx_inv_step state_step)

definition txRun :: "TransactionType \<Rightarrow> txEv list \<Rightarrow> busTransaction" where
  "txRun t evs = foldl txStep (newTransaction t) evs"

lemma txRun_inv: "tx_inv (txRun t evs)"
  unfolding txRun_def by (rule tx.run_inv) (rule tx_inv_new)

lemma txRun_append: "txRun t (evs @ evs2) = foldl txStep (txRun t evs) evs2"
  by (simp add: txRun_def)

lemma type_step: "tx_type (txStep tr e) = tx_type tr"
  by (cases e) (auto simp: txSendRequest_def WaitForStoreReady_def OnComplete_def OnError_def CommitContext_def
      executeRequest_def sendRequest_def waitForStore_def onTransactionError_def onTransactionRequestSuccess_def
      Let_def split: option.splits list.splits)

lemma type_run: "tx_type (foldl txStep tr evs) = tx_type tr"
  by (induction evs arbitrary: tr) (simp_all add: type_step)

subsection \<open>Completion\<close>

text \<open>What happens to a committed transaction when nothing fails: the collaborators take every
  request, no listener gets an error and the context is not cancelled. All other events, late
  builder calls and commits among them, may come at any time.\<close>

definition allOk :: execAnswers where "allOk = \<lparr>ea_listen = None, ea_send = None, ea_hasStore = True\<rparr>"

fun unfailing :: "txEv \<Rightarrow> bool" where
  "unfailing (TExecute ans) = (ea_listen ans = None \<and> ea_send ans = None \<and> ea_hasStore ans)"
| "unfailing (TReplyError i e) = False"
| "unfailing (TCancel e) = False"
| "unfailing e = True"

text \<open>The answer that counts for request \<open>i\<close>: the first one after its execution, which is the
  execution number \<open>i\<close>; \<open>k\<close> executions have been. A channel request is answered by its
  listener, a store wait by the store.\<close>

fun firstAnswer :: "busTransactionRequest list \<Rightarrow> nat \<Rightarrow> nat \<Rightarrow> txEv list \<Rightarrow> message option" where
  "firstAnswer rqs i k [] = None"
| "firstAnswer rqs i k (TExecute ans # es) = firstAnswer rqs i (Suc k) es"
| "firstAnswer rqs i k (TReply j m # es) =
     (if j = i \<and> i < k \<and> rq_storeName (rqs ! i) = [] then Some m else firstAnswer rqs i k es)"
| "firstAnswer rqs i k (TStoreReady j vals # es) =
     (if j = i \<and> i < k \<and> rq_storeName (rqs ! i) \<noteq> [] then Some (storeMessage vals)
      else firstAnswer rqs i k es)"
| "firstAnswer rqs i k (e # es) = firstAnswer rqs i k es"

text \<open>After \<open>k\<close> executions of an asynchronous transaction of \<open>rqs\<close> with the handlers \<open>hs\<close>.\<close>

definition underway :: "busTransactionRequest list \<Rightarrow> nat list \<Rightarrow> nat \<Rightarrow> busTransaction \<Rightarrow> bool" where
  "underway rqs hs k tr \<longleftrightarrow>
     tx_inv tr \<and> tx_type tr = AsyncTransaction \<and> tx_requests tr = rqs \<and> tx_onCompleteHandlers tr = hs \<and>
     length (tx_responses tr) = length rqs \<and> ctxErr (tx_ctx tr) = None \<and> tx_todo tr = [k..<length rqs] \<and>
     set (tx_pending tr) = {i. i < k \<and> i < length rqs \<and> tx_responses tr ! i = None} \<and>
     (tx_state tr = CommittedState \<or> tx_state tr = CompletedState \<and> None \<notin> set (tx_responses tr))"

definition answerStep :: "busTransactionRequest list \<Rightarrow> nat \<Rightarrow> txEv \<Rightarrow> message option list \<Rightarrow> message option list" where
  "answerStep rqs k e resp =
     map (\<lambda>i. case resp ! i of Some m \<Rightarrow> Some m | None \<Rightarrow> firstAnswer rqs i k [e]) [0..<length resp]"

fun executions :: "txEv \<Rightarrow> nat" where
  "executions (TExecute ans) = 1"
| "executions e = 0"

lemma answerStep_simps:
  "length (answerStep rqs k e resp) = length resp"
  "i < length resp \<Longrightarrow> answerStep rqs k e resp ! i =
     (case resp ! i of Some m \<Rightarrow> Some m | None \<Rightarrow> firstAnswer rqs i k [e])"
  by (simp_all add: answerStep_def split: option.split)

lemma answerStep_late:
  "(\<And>i. i < length resp \<Longrightarrow> resp ! i = None \<Longrightarrow> firstAnswer rqs i k [e] = None) \<Longrightarrow> answerStep rqs k e resp = resp"
  by (rule nth_equalityI) (simp_all add: answerStep_simps split: option.split)

lemma answerStep_none: "(\<And>i. firstAnswer rqs i k [e] = None) \<Longrightarrow> answerStep rqs k e resp = resp"
  by (rule answerStep_late)

lemma answerStep_one:
  assumes "i < length resp" and "resp ! i = None" and "firstAnswer rqs i k [e] = Some m"
    and "\<And>j. j \<noteq> i \<Longrightarrow> firstAnswer rqs j k [e] = None"
  shows "answerStep rqs k e resp = resp[i := Some m]"
proof (rule nth_equalityI)
  fix j
  assume "j < length (answerStep rqs k e resp)"
  then show "answerStep rqs k e resp ! j = resp[i := Some m] ! j"
    using assms by (cases "j = i") (simp_all add: answerStep_simps split: option.split)
qed (simp add: answerStep_simps)

lemma firstAnswer_cons:
  "firstAnswer rqs i k (e # es) =
     (case firstAnswer rqs i k [e] of Some m \<Rightarrow> Some m | None \<Rightarrow> firstAnswer rqs i (k + executions e) es)"
  by (cases e) simp_all

lemma underwayD:
  assumes "underway rqs hs k tr"
  shows "tx_inv tr" "tx_type tr = AsyncTransaction" "tx_requests tr = rqs" "tx_onCompleteHandlers tr = hs"
    "length (tx_responses tr) = length rqs" "ctxErr (tx_ctx tr) = None" "tx_todo tr = [k..<length rqs]"
    "set (tx_pending tr) = {i. i < k \<and> i < length rqs \<and> tx_responses tr ! i = None}"
    "tx_state tr = CommittedState \<or> tx_state tr = CompletedState \<and> None \<notin> set (tx_responses tr)"
  using assms unfolding underway_def by blast+

lemma underway_started:
  assumes "underway rqs hs k tr"
  shows "tx_state tr \<noteq> UncommittedState" and "tx_state tr \<noteq> AbortedState"
  using underwayD(9) [OF assms] by (elim disjE conjE; simp)+

lemma underway_beyond: "underway rqs hs k tr \<Longrightarrow> length rqs \<le> k \<Longrightarrow> underway rqs hs (Suc k) tr"
  unfolding underway_def by (elim conjE, intro conjI) (simp_all, force)

lemma underway_answer:
  assumes u: "underway rqs hs k tr" and i: "i \<in> set (tx_pending tr)"
  shows "underway rqs hs k (onTransactionRequestSuccess i m (answered i tr))"
    and "tx_responses (onTransactionRequestSuccess i m (answered i tr)) = (tx_responses tr)[i := Some m]"
proof -
  let ?tr = "onTransactionRequestSuccess i m (answered i tr)"
  have inv: "tx_inv tr" and async: "tx_type tr = AsyncTransaction" using u by (simp_all add: underway_def)
  have com: "tx_state tr = CommittedState"
    using u i inv by (auto simp: underway_def tx_inv_def)
  have "distinct (tx_pending tr)" using inv com by (simp add: tx_inv_def flow_ok_def)
  then have rem: "set (remove1 i (tx_pending tr)) = set (tx_pending tr) - {i}" by (rule set_remove1_eq)
  have inv': "tx_inv ?tr" by (rule tx_inv_success [OF inv i])
  then have done_all: "tx_state ?tr = CompletedState \<Longrightarrow> None \<notin> set (tx_responses ?tr)"
    by (simp add: tx_inv_def calls_ok_def)
  show r: "tx_responses ?tr = (tx_responses tr)[i := Some m]"
    using com async by (simp add: onTransactionRequestSuccess_def Let_def answered_def)
  have fields: "tx_type ?tr = tx_type tr" "tx_requests ?tr = tx_requests tr"
    "tx_onCompleteHandlers ?tr = tx_onCompleteHandlers tr" "tx_ctx ?tr = tx_ctx tr" "tx_todo ?tr = tx_todo tr"
    "tx_pending ?tr = remove1 i (tx_pending tr)"
    using com async by (simp_all add: onTransactionRequestSuccess_def Let_def answered_def)
  have st: "tx_state ?tr = CommittedState \<or> tx_state ?tr = CompletedState"
    using com by (simp add: onTransactionRequestSuccess_def Let_def answered_def)
  show "underway rqs hs k ?tr"
    using u i inv' done_all st unfolding underway_def fields r rem
    by (auto simp: nth_list_update split: if_splits)
qed

lemma underway_execute:
  assumes u: "underway rqs hs k tr" and ans: "unfailing (TExecute ans)"
  shows "underway rqs hs (Suc k) (txStep tr (TExecute ans)) \<and>
         tx_responses (txStep tr (TExecute ans)) = tx_responses tr"
proof (cases "k < length rqs")
  case True
  then have todo: "tx_todo tr = k # [Suc k..<length rqs]" using u by (simp add: underway_def upt_conv_Cons)
  have ctx: "ctxErr (tx_ctx tr) = None" using u by (simp add: underway_def)
  have "tx_state tr = CommittedState"
    using u todo by (auto simp: underway_def tx_inv_def)
  then have "k \<notin> answeredSet tr" using u todo by (auto simp: underway_def tx_inv_def flow_ok_def)
  then have none: "tx_responses tr ! k = None" using u True by (simp add: underway_def answeredSet_def)
  have step: "txStep tr (TExecute ans) = tr\<lparr>tx_todo := [Suc k..<length rqs],
      tx_pending := tx_pending tr @ [k], tx_sent := tx_sent tr @ [k]\<rparr>"
    using ctx ans todo by (simp add: executeRequest_def sendRequest_def waitForStore_def)
  have "tx_inv (txStep tr (TExecute ans))" using u by (intro tx_inv_step) (simp add: underway_def)
  then show ?thesis using u True none unfolding step by (auto simp: underway_def less_Suc_eq)
next
  case False
  then show ?thesis using underway_beyond [OF u] underwayD(7) [OF u] u by simp
qed

lemma underway_rejects:
  assumes "underway rqs hs k tr"
  shows "txStep tr (TSendRequest c p) = tr" "txStep tr (TWaitForStore ex s) = tr"
    "txStep tr (TOnComplete h) = tr" "txStep tr (TOnError h) = tr"
proof -
  have "tx_state tr \<noteq> UncommittedState" by (rule underway_started(1) [OF assms])
  then show "txStep tr (TSendRequest c p) = tr" "txStep tr (TWaitForStore ex s) = tr"
    "txStep tr (TOnComplete h) = tr" "txStep tr (TOnError h) = tr"
    by (simp_all add: txSendRequest_def WaitForStoreReady_def OnComplete_def OnError_def checkUncommittedState_def)
qed

lemma underway_step:
  assumes u: "underway rqs hs k tr" and e: "unfailing e"
  shows "underway rqs hs (k + executions e) (txStep tr e) \<and>
         tx_responses (txStep tr e) = answerStep rqs k e (tx_responses tr)"
proof (cases e)
  case (TExecute ans)
  then show ?thesis using underway_execute [OF u] e by (simp add: answerStep_none)
next
  case (TReply i m)
  have req: "tx_requests tr = rqs" and ctx: "ctxErr (tx_ctx tr) = None" using u by (simp_all add: underway_def)
  show ?thesis
  proof (cases "i \<in> set (tx_pending tr) \<and> rq_storeName (rqs ! i) = []")
    case True
    then have "i < length (tx_responses tr) \<and> tx_responses tr ! i = None \<and> i < k"
      using u by (simp add: underway_def)
    then have "answerStep rqs k e (tx_responses tr) = (tx_responses tr)[i := Some m]"
      using TReply True by (intro answerStep_one) auto
    then show ?thesis using TReply True underway_answer [OF u, of i m] req ctx
      by (simp add: isStoreRequest_def)
  next
    case False
    then have "answerStep rqs k e (tx_responses tr) = tx_responses tr"
      using u TReply by (intro answerStep_late) (auto simp: underway_def)
    then show ?thesis using TReply False u req by (auto simp: isStoreRequest_def)
  qed
next
  case (TStoreReady i vals)
  have req: "tx_requests tr = rqs" and ctx: "ctxErr (tx_ctx tr) = None" using u by (simp_all add: underway_def)
  show ?thesis
  proof (cases "i \<in> set (tx_pending tr) \<and> rq_storeName (rqs ! i) \<noteq> []")
    case True
    then have "i < length (tx_responses tr) \<and> tx_responses tr ! i = None \<and> i < k"
      using u by (simp add: underway_def)
    then have "answerStep rqs k e (tx_responses tr) = (tx_responses tr)[i := Some (storeMessage vals)]"
      using TStoreReady True by (intro answerStep_one) auto
    then show ?thesis using TStoreReady True underway_answer [OF u, of i "storeMessage vals"] req ctx
      by (simp add: isStoreRequest_def)
  next
    case False
    then have "answerStep rqs k e (tx_responses tr) = tx_responses tr"
      using u TStoreReady by (intro answerStep_late) (auto simp: underway_def)
    then show ?thesis using TStoreReady False u req by (auto simp: isStoreRequest_def)
  qed
next
  case TWatcher
  then have "txStep tr e = tr" using u by (simp add: underway_def)
  then show ?thesis using TWatcher u by (simp add: answerStep_none)
next
  case (TCommit ctx)
  then have "txStep tr e = tr" using underway_started(1) [OF u]
    by (simp add: CommitContext_def checkUncommittedState_def Let_def split: option.split)
  then show ?thesis using TCommit u by (simp add: answerStep_none)
qed (use e underway_rejects [OF u] u in \<open>simp_all add: answerStep_none\<close>)

lemma underway_run:
  assumes "underway rqs hs k tr" and "list_all unfailing evs"
  shows "(\<exists>k'. underway rqs hs k' (foldl txStep tr evs)) \<and>
         tx_responses (foldl txStep tr evs) =
           map (\<lambda>i. case tx_responses tr ! i of Some m \<Rightarrow> Some m | None \<Rightarrow> firstAnswer rqs i k evs) [0..<length rqs]"
  using assms
proof (induction evs arbitrary: k tr)
  case Nil
  then have "length (tx_responses tr) = length rqs" by (simp add: underway_def)
  then have "tx_responses tr = map (\<lambda>i. case tx_responses tr ! i of Some m \<Rightarrow> Some m
      | None \<Rightarrow> firstAnswer rqs i k []) [0..<length rqs]"
    by (intro nth_equalityI) (simp_all split: option.split)
  then show ?case using Nil by auto
next
  case (Cons e evs)
  have u: "underway rqs hs (k + executions e) (txStep tr e)"
    and r: "tx_responses (txStep tr e) = answerStep rqs k e (tx_responses tr)"
    using underway_step [OF Cons.prems(1)] Cons.prems(2) by auto
  have len: "length (tx_responses tr) = length rqs" using Cons.prems(1) by (simp add: underway_def)
  have "(case tx_responses (txStep tr e) ! i of Some m \<Rightarrow> Some m
           | None \<Rightarrow> firstAnswer rqs i (k + executions e) evs) =
        (case tx_responses tr ! i of Some m \<Rightarrow> Some m | None \<Rightarrow> firstAnswer rqs i k (e # evs))"
    if "i < length rqs" for i
    using that len firstAnswer_cons [of rqs i k e evs] unfolding r answerStep_def
    by (simp split: option.splits)
  then show ?case using Cons.IH [OF u] Cons.prems(2) by simp
qed

lemma underway_calls:
  assumes "underway rqs hs k tr"
  shows "tx_state tr \<noteq> AbortedState"
    and "tx_calls tr = (if None \<in> set (tx_responses tr) then [] else map (\<lambda>h. CompleteCall h (tx_responses tr)) hs)"
proof -
  show "tx_state tr \<noteq> AbortedState" by (rule underway_started(2) [OF assms])
  have "None \<in> set (tx_responses tr)" if "tx_state tr = CommittedState"
  proof (rule ccontr)
    assume "None \<notin> set (tx_responses tr)"
    then have "answeredSet tr = {..<length (tx_responses tr)}" by (auto simp: answeredSet_def) (metis nth_mem not_None_eq)
    moreover have "flow_ok tr" using underwayD(1) [OF assms] that by (simp add: tx_inv_def)
    ultimately show False unfolding flow_ok_def by simp
  qed
  then show "tx_calls tr = (if None \<in> set (tx_responses tr) then [] else map (\<lambda>h. CompleteCall h (tx_responses tr)) hs)"
    using underwayD(1,4,9) [OF assms] by (elim disjE conjE) (simp_all add: tx_inv_def calls_ok_def)
qed

lemma commit_underway:
  assumes "tx_inv tr" and "tx_type tr = AsyncTransaction" and "tx_state tr = UncommittedState"
    and "tx_requests tr \<noteq> []" and "ctxErr (orBackground ctx) = None"
  shows "underway (tx_requests tr) (tx_onCompleteHandlers tr) 0 (txStep tr (TCommit ctx))"
    and "tx_responses (txStep tr (TCommit ctx)) = replicate (length (tx_requests tr)) None"
proof -
  have "map rq_requestIndex (tx_requests tr) = [0..<length (tx_requests tr)]"
    using assms(1) by (intro nth_equalityI) (simp_all add: tx_inv_def)
  then show "underway (tx_requests tr) (tx_onCompleteHandlers tr) 0 (txStep tr (TCommit ctx))"
    "tx_responses (txStep tr (TCommit ctx)) = replicate (length (tx_requests tr)) None"
    using assms tx_inv_step [OF assms(1), of "TCommit ctx"]
    by (auto simp: underway_def CommitContext_def checkUncommittedState_def Let_def tx_inv_def)
qed

subsection \<open>Properties\<close>

text \<open>C1: the outcome of a transaction is delivered once. Whatever happens, in any order, no
  handler runs before the outcome; a completed transaction has run each complete handler once
  with the responses, every one of them present, and no error handler; an aborted one has run
  each error handler once, with one error, and no complete handler.\<close>

theorem transaction_outcome:
  "case tx_state (txRun t evs) of
     UncommittedState \<Rightarrow> tx_calls (txRun t evs) = []
   | CommittedState \<Rightarrow> tx_calls (txRun t evs) = []
   | CompletedState \<Rightarrow>
       tx_calls (txRun t evs) =
         map (\<lambda>h. CompleteCall h (tx_responses (txRun t evs))) (tx_onCompleteHandlers (txRun t evs)) \<and>
       None \<notin> set (tx_responses (txRun t evs))
   | AbortedState \<Rightarrow>
       (\<exists>e. tx_calls (txRun t evs) = map (\<lambda>h. ErrorCall h e) (tx_onErrorHandlers (txRun t evs)))"
  using txRun_inv [of t evs] by (simp add: tx_inv_def calls_ok_def)

text \<open>A synchronous transaction sends its requests in their order, and when it has sent a
  request every earlier one has been answered.\<close>

theorem sync_transaction_in_order:
  "tx_sent (txRun SyncTransaction evs) = [0..<length (tx_sent (txRun SyncTransaction evs))] \<and>
   {..<length (tx_sent (txRun SyncTransaction evs)) - 1} \<subseteq> answeredSet (txRun SyncTransaction evs)"
proof -
  have "tx_type (txRun SyncTransaction evs) = SyncTransaction"
    by (simp add: txRun_def type_run) (simp add: newTransaction_def)
  then have "sync_ok (txRun SyncTransaction evs)" using txRun_inv by (simp add: tx_inv_def)
  then show ?thesis unfolding sync_ok_def by blast
qed

text \<open>The state of a transaction only moves forward, from uncommitted to committed to
  completed or aborted.\<close>

theorem transaction_forward:
  "tx_state (txRun t evs) \<le> tx_state (txRun t (evs @ evs2))"
  unfolding txRun_append by (rule tx.run_rank) (rule txRun_inv)

text \<open>C19: an asynchronous transaction completes as soon as every request has been answered.
  Whatever requests and store waits it was built of, and however their executions, their
  answers, the calls of ready stores and any further events are interleaved after the commit,
  as long as no collaborator refuses a request, no listener gets an error and the context is
  not cancelled: the transaction is not aborted, its responses are, at each request, the first
  answer to that request after its execution, no handler is called while an answer is missing,
  and with the last one every complete handler is called once, with the answers in the order
  of the requests, late answers changing nothing.\<close>

theorem async_transaction_completes:
  fixes built :: "txEv list" and ctx :: "goctx option" and evs :: "txEv list"
  defines "tr \<equiv> txRun AsyncTransaction built"
    and "fin \<equiv> txRun AsyncTransaction (built @ TCommit ctx # evs)"
  assumes "tx_state tr = UncommittedState" and "tx_requests tr \<noteq> []"
    and "ctxErr (orBackground ctx) = None" and "list_all unfailing evs"
  shows "tx_state fin \<noteq> AbortedState \<and>
     tx_responses fin = map (\<lambda>i. firstAnswer (tx_requests tr) i 0 evs) [0..<length (tx_requests tr)] \<and>
     tx_calls fin =
       (if None \<in> set (tx_responses fin) then []
        else map (\<lambda>h. CompleteCall h (tx_responses fin)) (tx_onCompleteHandlers tr))"
proof -
  have async: "tx_type tr = AsyncTransaction" by (simp add: tr_def txRun_def type_run) (simp add: newTransaction_def)
  have fin: "fin = foldl txStep (txStep tr (TCommit ctx)) evs" by (simp add: fin_def tr_def txRun_append)
  note com = commit_underway [OF txRun_inv [of AsyncTransaction built, folded tr_def] async assms(3-5)]
  obtain k where k: "underway (tx_requests tr) (tx_onCompleteHandlers tr) k fin"
    and r: "tx_responses fin = map (\<lambda>i. firstAnswer (tx_requests tr) i 0 evs) [0..<length (tx_requests tr)]"
    using underway_run [OF com(1) assms(6)] com(2) by (auto simp: fin)
  show ?thesis using underway_calls [OF k] r by simp
qed

definition demoBuilt :: "txEv list" where
  "demoBuilt = [TSendRequest ''a'' (GInt 1), TWaitForStore True ''s'', TSendRequest ''b'' (GInt 2), TOnComplete 9]"

lemma async_transaction_completes_witness:
  "tx_calls (txRun AsyncTransaction (demoBuilt @ TCommit None #
       [TExecute allOk, TReply 0 (storeMessage []), TReply 0 (GenerateResponse 7 zeroConfig), TExecute allOk,
        TExecute allOk, TReply 2 (GenerateResponse 2 zeroConfig), TStoreReady 1 [(''k'', GInt 5)]])) =
     [CompleteCall 9 [Some (storeMessage []), Some (storeMessage [(''k'', GInt 5)]),
                      Some (GenerateResponse 2 zeroConfig)]]"
proof -
  let ?evs = "[TExecute allOk, TReply 0 (storeMessage []), TReply 0 (GenerateResponse 7 zeroConfig), TExecute allOk,
        TExecute allOk, TReply 2 (GenerateResponse 2 zeroConfig), TStoreReady 1 [(''k'', GInt 5)]]"
  let ?tr = "txRun AsyncTransaction demoBuilt"
  have tr: "tx_state ?tr = UncommittedState" "tx_onCompleteHandlers ?tr = [9]"
    "map rq_storeName (tx_requests ?tr) = [[], ''s'', []]" by code_simp+
  have len: "length (tx_requests ?tr) = 3" using arg_cong [OF tr(3), of length] by simp
  have names: "rq_storeName (tx_requests ?tr ! 0) = []" "rq_storeName (tx_requests ?tr ! 1) = ''s''"
    "rq_storeName (tx_requests ?tr ! 2) = []"
    using tr(3) len nth_map [of _ "tx_requests ?tr" rq_storeName] by (simp_all flip: nth_map)
  have three: "[0..<3] = [0, 1, 2::nat]" "tx_requests ?tr \<noteq> []" using len by (auto simp: upt_rec)
  show ?thesis
    using async_transaction_completes [of demoBuilt None ?evs] tr(1,2) len names three
    by (simp add: allOk_def)
qed

end
