(* ===== verification/Store.thy ===== *)
theory Store
  imports Messages MonitorEvents
begin

text \<open>
  store/store.go, store_stream.go, mutation_store_stream.go and responses.go: one store with
  its items, version, change and mutation streams, readiness and the galactic (broker-backed)
  mode. Streams are objects of two heaps inside the store; a ready channel is named by the
  number of its creation. A user's function that is called becomes an entry of a log. States
  and request types, which the code compares with \<open>==\<close>, are comparable values.
\<close>

subsection \<open>Changes, filters, streams\<close>

record storeChange =
  sc_Id :: string
  sc_Value :: gval
  sc_State :: gval
  sc_IsDeleteChange :: bool
  sc_StoreVersion :: "64 word"

record streamFilter =
  sf_states :: "gval list"
  sf_itemId :: string
  sf_matchAllItems :: bool

definition filterMatch :: "streamFilter \<Rightarrow> storeChange \<Rightarrow> bool" where
  "filterMatch f change =
     (if sf_matchAllItems f \<or> sf_itemId f = sc_Id change
      then (if length (sf_states f) = 0 then True else list_ex (\<lambda>s. s = sc_State change) (sf_states f))
      else False)"

record storeStream =
  ss_handler :: "nat option"
  ss_filter :: streamFilter

record mutationRequest =
  mr_Request :: gval
  mr_RequestType :: gval
  mr_SuccessHandler :: nat
  mr_ErrorHandler :: nat

definition mutationMatch :: "gval list \<Rightarrow> mutationRequest \<Rightarrow> bool" where
  "mutationMatch types req =
     (if length types = 0 then True else list_ex (\<lambda>s. mr_RequestType req = s) types)"

record mutationStoreStream =
  ms_handler :: "nat option"
  ms_requestTypes :: "gval list"

record galacticConf =
  gc_topicPrefix :: string
  gc_pubPrefix :: string
  gc_syncChannelName :: string

record busStore =
  st_name :: string
  st_items :: "(string, gval) gomap"
  st_version :: "64 word"
  st_streamHeap :: "storeStream list"
  st_storeStreams :: "nat list"
  st_mutationHeap :: "mutationStoreStream list"
  st_mutationStreams :: "nat list"
  st_initialized :: bool
  st_readyC :: nat
  st_readyClosed :: "nat set"
  st_isGalactic :: bool
  st_galacticConf :: "galacticConf option"
  st_storeSynHandler :: "nat option"
  st_waiting :: "(nat \<times> nat) list"
  st_readyCalls :: "nat list"
  st_changeCalls :: "(nat \<times> storeChange) list"
  st_mutationCalls :: "(nat \<times> mutationRequest) list"
  st_sent :: "(string \<times> string) list"
  st_events :: "EventType list"

text \<open>What the store calls outside the repository or by reflection: \<open>json.Marshal\<close> of a
  request, and the conversion of a raw value to the item type.\<close>

record storeOracle =
  or_marshal :: "request \<Rightarrow> string res"
  or_convert :: "gval \<Rightarrow> gval res"

subsection \<open>Creation\<close>

definition initStore :: "busStore \<Rightarrow> busStore" where
  "initStore s = s\<lparr>st_readyC := st_readyC s + 1, st_storeStreams := [], st_mutationStreams := [],
     st_items := gm_empty, st_version := 1, st_initialized := False\<rparr>"

definition sendGalacticRequestContext ::
  "storeOracle \<Rightarrow> goctx option \<Rightarrow> string \<Rightarrow> gval \<Rightarrow> uuid \<Rightarrow> busStore \<Rightarrow> busStore" where
  "sendGalacticRequestContext orc ctx cmd payload newId s =
     (case ctxErr (orBackground ctx) of
        Some e \<Rightarrow> s
      | None \<Rightarrow>
          (case or_marshal orc (Request (Some newId) [] payload cmd None) of
             Inl e \<Rightarrow> s
           | Inr bytes \<Rightarrow>
               (case st_galacticConf s of
                  None \<Rightarrow> s
                | Some gc \<Rightarrow> s\<lparr>st_sent := st_sent s @ [(gc_pubPrefix gc @ gc_syncChannelName gc, bytes)]\<rparr>)))"

definition sendOpenStoreRequest :: "storeOracle \<Rightarrow> uuid \<Rightarrow> busStore \<Rightarrow> busStore" where
  "sendOpenStoreRequest orc newId s =
     sendGalacticRequestContext orc (Some Background) ''openStore'' (GMap [(''storeId'', GString (st_name s))]) newId s"

definition sendCloseStoreRequest :: "storeOracle \<Rightarrow> uuid \<Rightarrow> busStore \<Rightarrow> busStore" where
  "sendCloseStoreRequest orc newId s =
     sendGalacticRequestContext orc (Some Background) ''closeStore'' (GMap [(''storeId'', GString (st_name s))]) newId s"

text \<open>\<open>listen\<close>: the message handler that \<open>ListenStream\<close> on the sync channel returns.\<close>

definition initGalacticStore :: "storeOracle \<Rightarrow> nat res \<Rightarrow> uuid \<Rightarrow> busStore \<Rightarrow> busStore" where
  "initGalacticStore orc listen newId s =
     (case listen of
        Inl e \<Rightarrow> s
      | Inr h \<Rightarrow> sendOpenStoreRequest orc newId (s\<lparr>st_storeSynHandler := Some h\<rparr>))"

definition newBusStore ::
  "storeOracle \<Rightarrow> string \<Rightarrow> galacticConf option \<Rightarrow> nat res \<Rightarrow> uuid \<Rightarrow> busStore" where
  "newBusStore orc name conf listen newId =
     (let s = initStore \<lparr>st_name = name, st_items = gm_empty, st_version = 0, st_streamHeap = [],
                st_storeStreams = [], st_mutationHeap = [], st_mutationStreams = [], st_initialized = False,
                st_readyC = 0, st_readyClosed = {}, st_isGalactic = False, st_galacticConf = conf,
                st_storeSynHandler = None, st_waiting = [], st_readyCalls = [], st_changeCalls = [],
                st_mutationCalls = [], st_sent = [], st_events = []\<rparr>;
          s1 = s\<lparr>st_isGalactic := (conf \<noteq> None)\<rparr>
      in if st_isGalactic s1 then initGalacticStore orc listen newId s1 else s1)"

definition OnDestroy :: "storeOracle \<Rightarrow> uuid \<Rightarrow> busStore \<Rightarrow> busStore \<times> nat option" where
  "OnDestroy orc newId s =
     (if st_isGalactic s then (sendCloseStoreRequest orc newId s, st_storeSynHandler s) else (s, None))"

definition StoreIsGalactic :: "busStore \<Rightarrow> bool" where "StoreIsGalactic s = st_isGalactic s"

definition GetName :: "busStore \<Rightarrow> string" where "GetName s = st_name s"

subsection \<open>Readiness\<close>

definition Initialize :: "busStore \<Rightarrow> busStore" where
  "Initialize s =
     (if st_initialized s then s
      else s\<lparr>st_initialized := True, st_readyClosed := insert (st_readyC s) (st_readyClosed s),
             st_events := st_events s @ [StoreInitializedEvt]\<rparr>)"

definition WhenReady :: "nat \<Rightarrow> busStore \<Rightarrow> busStore" where
  "WhenReady f s = s\<lparr>st_waiting := st_waiting s @ [(st_readyC s, f)]\<rparr>"

text \<open>The goroutine of the \<open>i\<close>-th waiting function runs when its channel is closed.\<close>

definition runReady :: "nat \<Rightarrow> busStore \<Rightarrow> busStore" where
  "runReady i s =
     (if i < length (st_waiting s) \<and> fst (st_waiting s ! i) \<in> st_readyClosed s
      then s\<lparr>st_readyCalls := st_readyCalls s @ [snd (st_waiting s ! i)],
             st_waiting := take i (st_waiting s) @ drop (Suc i) (st_waiting s)\<rparr>
      else s)"

definition Reset :: "storeOracle \<Rightarrow> uuid \<Rightarrow> busStore \<Rightarrow> busStore" where
  "Reset orc newId s =
     (let s1 = initStore s in if st_isGalactic s1 then sendOpenStoreRequest orc newId s1 else s1)"

fun putAll :: "(string \<times> gval) list \<Rightarrow> (string, gval) gomap \<Rightarrow> (string, gval) gomap" where
  "putAll [] m = m"
| "putAll ((k, v) # kvs) m = putAll kvs (gm_set k v m)"

definition Populate :: "(string, gval) gomap \<Rightarrow> busStore \<Rightarrow> busStore \<times> err option" where
  "Populate items s =
     (if st_isGalactic s then (s, Some ''populate() API is not supported for galactic stores'')
      else if length (st_items s) > 0 then (s, Some ''store items already initialized'')
      else (Initialize (s\<lparr>st_items := putAll items (st_items s)\<rparr>), None))"

subsection \<open>Notifying the streams\<close>

definition streamCalls :: "busStore \<Rightarrow> storeChange \<Rightarrow> nat list \<Rightarrow> (nat \<times> storeChange) list" where
  "streamCalls s change rs =
     List.map_filter (\<lambda>r.
       (let st = st_streamHeap s ! r in
        if \<not> filterMatch (ss_filter st) change then None
        else (case ss_handler st of None \<Rightarrow> None | Some h \<Rightarrow> Some (h, change)))) rs"

definition onStoreChange :: "goctx option \<Rightarrow> storeChange option \<Rightarrow> busStore \<Rightarrow> busStore" where
  "onStoreChange ctx change s =
     (case change of
        None \<Rightarrow> s
      | Some c \<Rightarrow>
          (case ctxErr (orBackground ctx) of
             Some e \<Rightarrow> s
           | None \<Rightarrow> s\<lparr>st_changeCalls := st_changeCalls s @ streamCalls s c (st_storeStreams s)\<rparr>))"

subsection \<open>Items\<close>

definition putInternalContext :: "string \<Rightarrow> gval \<Rightarrow> gval \<Rightarrow> busStore \<Rightarrow> busStore \<times> storeChange" where
  "putInternalContext i v state s =
     (let s1 = (if \<not> st_isGalactic s then s\<lparr>st_version := st_version s + 1\<rparr> else s);
          s2 = s1\<lparr>st_items := gm_set i v (st_items s1)\<rparr>
      in (s2, \<lparr>sc_Id = i, sc_Value = v, sc_State = state, sc_IsDeleteChange = False,
               sc_StoreVersion = st_version s2\<rparr>))"

definition removeInternalContext :: "string \<Rightarrow> gval \<Rightarrow> busStore \<Rightarrow> busStore \<times> storeChange option \<times> bool" where
  "removeInternalContext i state s =
     (case gm_get (st_items s) i of
        None \<Rightarrow> (s, None, False)
      | Some v \<Rightarrow>
          (let s1 = (if \<not> st_isGalactic s then s\<lparr>st_version := st_version s + 1\<rparr> else s);
               s2 = s1\<lparr>st_items := gm_del i (st_items s1)\<rparr>
           in (s2, Some \<lparr>sc_Id = i, sc_Value = v, sc_State = state, sc_IsDeleteChange = True,
                         sc_StoreVersion = st_version s2\<rparr>, True)))"

definition sendUpdateStoreRequest ::
  "storeOracle \<Rightarrow> goctx option \<Rightarrow> string \<Rightarrow> gval \<Rightarrow> 64 word \<Rightarrow> uuid \<Rightarrow> busStore \<Rightarrow> busStore" where
  "sendUpdateStoreRequest orc ctx i v version newId s =
     sendGalacticRequestContext orc ctx ''updateStore''
       (GMap [(''storeId'', GString (st_name s)), (''clientStoreVersion'', GInt (sint version)),
              (''itemId'', GString i), (''newItemValue'', v)]) newId s"

definition putGalactic :: "storeOracle \<Rightarrow> goctx option \<Rightarrow> string \<Rightarrow> gval \<Rightarrow> uuid \<Rightarrow> busStore \<Rightarrow> busStore" where
  "putGalactic orc ctx i v newId s = sendUpdateStoreRequest orc ctx i v (st_version s) newId s"

definition PutContext ::
  "storeOracle \<Rightarrow> goctx option \<Rightarrow> string \<Rightarrow> gval \<Rightarrow> gval \<Rightarrow> uuid \<Rightarrow> busStore \<Rightarrow> busStore" where
  "PutContext orc ctx0 i v state newId s =
     (let ctx = orBackground ctx0 in
      case ctxErr ctx of
        Some e \<Rightarrow> s
      | None \<Rightarrow>
          (if st_isGalactic s then putGalactic orc (Some ctx) i v newId s
           else (let (s1, change) = putInternalContext i v state s
                 in onStoreChange (Some Background) (Some change) s1)))"

definition Put :: "storeOracle \<Rightarrow> string \<Rightarrow> gval \<Rightarrow> gval \<Rightarrow> uuid \<Rightarrow> busStore \<Rightarrow> busStore" where
  "Put orc i v state newId s = PutContext orc (Some Background) i v state newId s"

definition removeGalactic ::
  "storeOracle \<Rightarrow> goctx option \<Rightarrow> string \<Rightarrow> uuid \<Rightarrow> busStore \<Rightarrow> busStore \<times> bool" where
  "removeGalactic orc ctx i newId s =
     (if gm_get (st_items s) i \<noteq> None
      then (sendUpdateStoreRequest orc ctx i GNil (st_version s) newId s, True) else (s, False))"

definition RemoveContext ::
  "storeOracle \<Rightarrow> goctx option \<Rightarrow> string \<Rightarrow> gval \<Rightarrow> uuid \<Rightarrow> busStore \<Rightarrow> busStore \<times> bool" where
  "RemoveContext orc ctx0 i state newId s =
     (let ctx = orBackground ctx0 in
      case ctxErr ctx of
        Some e \<Rightarrow> (s, False)
      | None \<Rightarrow>
          (if st_isGalactic s then removeGalactic orc (Some ctx) i newId s
           else (let (s1, change, removed) = removeInternalContext i state s
                 in (if removed then onStoreChange (Some Background) change s1 else s1, removed))))"

definition Remove :: "storeOracle \<Rightarrow> string \<Rightarrow> gval \<Rightarrow> uuid \<Rightarrow> busStore \<Rightarrow> busStore \<times> bool" where
  "Remove orc i state newId s = RemoveContext orc (Some Background) i state newId s"

definition Get :: "string \<Rightarrow> busStore \<Rightarrow> gval option" where
  "Get i s = gm_get (st_items s) i"

definition GetValue :: "string \<Rightarrow> busStore \<Rightarrow> gval" where
  "GetValue i s = (case Get i s of None \<Rightarrow> GNil | Some v \<Rightarrow> v)"

definition AllValues :: "busStore \<Rightarrow> gval list" where "AllValues s = gm_vals (st_items s)"

definition AllValuesAsMap :: "busStore \<Rightarrow> (string, gval) gomap" where "AllValuesAsMap s = st_items s"

definition AllValuesAndVersion :: "busStore \<Rightarrow> (string, gval) gomap \<times> 64 word" where
  "AllValuesAndVersion s = (st_items s, st_version s)"

subsection \<open>Mutations\<close>

definition mutationCalls :: "busStore \<Rightarrow> mutationRequest \<Rightarrow> nat list \<Rightarrow> (nat \<times> mutationRequest) list" where
  "mutationCalls s req rs =
     List.map_filter (\<lambda>r.
       (let m = st_mutationHeap s ! r in
        if \<not> mutationMatch (ms_requestTypes m) req then None
        else (case ms_handler m of None \<Rightarrow> None | Some h \<Rightarrow> Some (h, req)))) rs"

definition MutateContext :: "goctx option \<Rightarrow> gval \<Rightarrow> gval \<Rightarrow> nat \<Rightarrow> nat \<Rightarrow> busStore \<Rightarrow> busStore" where
  "MutateContext ctx request requestType sh eh s =
     (case ctxErr (orBackground ctx) of
        Some e \<Rightarrow> s
      | None \<Rightarrow>
          s\<lparr>st_mutationCalls := st_mutationCalls s @
              mutationCalls s \<lparr>mr_Request = request, mr_RequestType = requestType, mr_SuccessHandler = sh,
                mr_ErrorHandler = eh\<rparr> (st_mutationStreams s)\<rparr>)"

definition Mutate :: "gval \<Rightarrow> gval \<Rightarrow> nat \<Rightarrow> nat \<Rightarrow> busStore \<Rightarrow> busStore" where
  "Mutate request requestType sh eh s = MutateContext (Some Background) request requestType sh eh s"

subsection \<open>Subscribing to streams\<close>

definition newStoreStream :: "streamFilter \<Rightarrow> busStore \<Rightarrow> busStore \<times> nat" where
  "newStoreStream f s =
     (s\<lparr>st_streamHeap := st_streamHeap s @ [\<lparr>ss_handler = None, ss_filter = f\<rparr>]\<rparr>, length (st_streamHeap s))"

definition OnChange :: "string \<Rightarrow> gval list \<Rightarrow> busStore \<Rightarrow> busStore \<times> nat" where
  "OnChange i states s = newStoreStream \<lparr>sf_states = states, sf_itemId = i, sf_matchAllItems = False\<rparr> s"

definition OnAllChanges :: "gval list \<Rightarrow> busStore \<Rightarrow> busStore \<times> nat" where
  "OnAllChanges states s = newStoreStream \<lparr>sf_states = states, sf_itemId = [], sf_matchAllItems = True\<rparr> s"

definition onStreamSubscribe :: "nat \<Rightarrow> busStore \<Rightarrow> busStore" where
  "onStreamSubscribe r s = s\<lparr>st_storeStreams := st_storeStreams s @ [r]\<rparr>"

text \<open>The search loop leaves \<open>i\<close> and \<open>s\<close> at the first match, or at the last element.\<close>

fun findStream :: "nat \<Rightarrow> nat \<Rightarrow> nat list \<Rightarrow> nat option" where
  "findStream r i [] = None"
| "findStream r i (x # xs) = (if x = r then Some i else findStream r (Suc i) xs)"

definition removeStream :: "nat \<Rightarrow> nat list \<Rightarrow> nat list" where
  "removeStream r rs = (case findStream r 0 rs of None \<Rightarrow> rs | Some i \<Rightarrow> swapRemove i rs)"

definition onStreamUnsubscribe :: "nat \<Rightarrow> busStore \<Rightarrow> busStore" where
  "onStreamUnsubscribe r s = s\<lparr>st_storeStreams := removeStream r (st_storeStreams s)\<rparr>"

definition setStreamHandler :: "nat \<Rightarrow> nat option \<Rightarrow> busStore \<Rightarrow> busStore" where
  "setStreamHandler r h s =
     s\<lparr>st_streamHeap := (st_streamHeap s)[r := (st_streamHeap s ! r)\<lparr>ss_handler := h\<rparr>]\<rparr>"

definition streamSubscribe :: "nat \<Rightarrow> nat option \<Rightarrow> busStore \<Rightarrow> busStore \<times> err option" where
  "streamSubscribe r handler s =
     (case handler of
        None \<Rightarrow> (s, Some ''invalid StoreChangeHandlerFunction'')
      | Some h \<Rightarrow>
          (if ss_handler (st_streamHeap s ! r) \<noteq> None then (s, Some ''stream already subscribed'')
           else (onStreamSubscribe r (setStreamHandler r (Some h) s), None)))"

definition streamUnsubscribe :: "nat \<Rightarrow> busStore \<Rightarrow> busStore \<times> err option" where
  "streamUnsubscribe r s =
     (if ss_handler (st_streamHeap s ! r) = None then (s, Some ''stream not subscribed'')
      else (onStreamUnsubscribe r (setStreamHandler r None s), None))"

definition newMutationStoreStream :: "gval list \<Rightarrow> mutationStoreStream" where
  "newMutationStoreStream types = \<lparr>ms_handler = None, ms_requestTypes = types\<rparr>"

definition OnMutationRequest :: "gval list \<Rightarrow> busStore \<Rightarrow> busStore \<times> nat" where
  "OnMutationRequest types s =
     (s\<lparr>st_mutationHeap := st_mutationHeap s @ [newMutationStoreStream types]\<rparr>,
      length (st_mutationHeap s))"

definition setMutationHandler :: "nat \<Rightarrow> nat option \<Rightarrow> busStore \<Rightarrow> busStore" where
  "setMutationHandler r h s =
     s\<lparr>st_mutationHeap := (st_mutationHeap s)[r := (st_mutationHeap s ! r)\<lparr>ms_handler := h\<rparr>]\<rparr>"

definition onMutationStreamSubscribe :: "nat \<Rightarrow> busStore \<Rightarrow> busStore" where
  "onMutationStreamSubscribe r s = s\<lparr>st_mutationStreams := st_mutationStreams s @ [r]\<rparr>"

definition onMutationStreamUnsubscribe :: "nat \<Rightarrow> busStore \<Rightarrow> busStore" where
  "onMutationStreamUnsubscribe r s = s\<lparr>st_mutationStreams := removeStream r (st_mutationStreams s)\<rparr>"

definition mutationSubscribe :: "nat \<Rightarrow> nat option \<Rightarrow> busStore \<Rightarrow> busStore \<times> err option" where
  "mutationSubscribe r handler s =
     (case handler of
        None \<Rightarrow> (s, Some ''invalid MutationRequestHandlerFunction'')
      | Some h \<Rightarrow>
          (if ms_handler (st_mutationHeap s ! r) \<noteq> None then (s, Some ''stream already subscribed'')
           else (onMutationStreamSubscribe r (setMutationHandler r (Some h) s), None)))"

definition mutationUnsubscribe :: "nat \<Rightarrow> busStore \<Rightarrow> busStore \<times> err option" where
  "mutationUnsubscribe r s =
     (if ms_handler (st_mutationHeap s ! r) = None then (s, Some ''stream not subscribed'')
      else (onMutationStreamUnsubscribe r (setMutationHandler r None s), None))"

subsection \<open>Galactic messages\<close>

record storeContentResponse =
  cr_Items :: "(string, gval) gomap"
  cr_StoreId :: string
  cr_StoreVersion :: "64 word"

record updateStoreResponse =
  ur_ItemId :: string
  ur_NewItemValue :: gval
  ur_StoreId :: string
  ur_StoreVersion :: "64 word"

definition NewStoreContentResponse :: "string \<Rightarrow> (string, gval) gomap \<Rightarrow> 64 word \<Rightarrow> storeContentResponse" where
  "NewStoreContentResponse sid items version =
     \<lparr>cr_Items = items, cr_StoreId = sid, cr_StoreVersion = version\<rparr>"

definition NewUpdateStoreResponse :: "string \<Rightarrow> string \<Rightarrow> gval \<Rightarrow> 64 word \<Rightarrow> updateStoreResponse" where
  "NewUpdateStoreResponse sid i v version =
     \<lparr>ur_ItemId = i, ur_NewItemValue = v, ur_StoreId = sid, ur_StoreVersion = version\<rparr>"

text \<open>A float carries an integral value here; the conversion to \<open>int64\<close> is modulo 2^64.\<close>

definition updateVersionFromResponse :: "(string, gval) gomap \<Rightarrow> busStore \<Rightarrow> busStore" where
  "updateVersionFromResponse resp s =
     (case gm_get resp ''storeVersion'' of
        Some (GFloat f) \<Rightarrow> s\<lparr>st_version := word_of_int f\<rparr>
      | Some (GInt n) \<Rightarrow> s\<lparr>st_version := word_of_int n\<rparr>
      | _ \<Rightarrow> s\<lparr>st_version := 1\<rparr>)"

fun convertItems :: "storeOracle \<Rightarrow> (string, gval) gomap \<Rightarrow> (string, gval) gomap \<Rightarrow> (string, gval) gomap" where
  "convertItems orc [] m = m"
| "convertItems orc ((k, v) # kvs) m =
     (case or_convert orc v of
        Inl e \<Rightarrow> convertItems orc kvs m
      | Inr w \<Rightarrow> convertItems orc kvs (gm_set k w m))"

definition handleStoreContent :: "storeOracle \<Rightarrow> (string, gval) gomap \<Rightarrow> busStore \<Rightarrow> busStore" where
  "handleStoreContent orc resp s =
     (case gm_get resp ''items'' of
        Some (GMap items) \<Rightarrow>
          Initialize ((updateVersionFromResponse resp s)\<lparr>st_items := convertItems orc items gm_empty\<rparr>)
      | _ \<Rightarrow> s)"

definition handleStoreUpdate :: "storeOracle \<Rightarrow> (string, gval) gomap \<Rightarrow> busStore \<Rightarrow> busStore" where
  "handleStoreUpdate orc resp s =
     (case gm_get resp ''itemId'' of
        Some (GString i) \<Rightarrow>
          (let s1 = updateVersionFromResponse resp s;
               raw = gm_get resp ''newItemValue''
           in if raw = None \<or> raw = Some GNil
              then (let (s2, change, removed) = removeInternalContext i (GString ''galacticSyncRemove'') s1
                    in onStoreChange (Some Background) change s2)
              else (case or_convert orc (the raw) of
                      Inl e \<Rightarrow> s1
                    | Inr v \<Rightarrow>
                        (let (s2, change) = putInternalContext i v (GString ''galacticSyncUpdate'') s1
                         in onStoreChange (Some Background) (Some change) s2)))
      | _ \<Rightarrow> s)"

definition handleSyncResponse :: "storeOracle \<Rightarrow> (string, gval) gomap \<Rightarrow> busStore \<Rightarrow> busStore" where
  "handleSyncResponse orc resp s =
     (let storeId = (case gm_get resp ''storeId'' of Some (GString i) \<Rightarrow> i | _ \<Rightarrow> []) in
      if storeId \<noteq> st_name s then s
      else (case gm_get resp ''responseType'' of
              Some (GString t) \<Rightarrow>
                (if t = ''storeContentResponse'' then handleStoreContent orc resp s
                 else if t = ''updateStoreResponse'' then handleStoreUpdate orc resp s
                 else s)
            | _ \<Rightarrow> s))"

text \<open>The success function on the sync channel; \<open>dec\<close> is \<open>json.Unmarshal\<close> into a map.\<close>

definition galacticHandler ::
  "storeOracle \<Rightarrow> (string \<Rightarrow> (string, gval) gomap res) \<Rightarrow> message \<Rightarrow> busStore \<Rightarrow> busStore" where
  "galacticHandler orc dec msg s =
     (case m_Payload msg of
        GBytes d \<Rightarrow> (case dec d of Inl e \<Rightarrow> s | Inr resp \<Rightarrow> handleSyncResponse orc resp s)
      | _ \<Rightarrow> s)"

end
