(* ===== verification/StoreFacts.thy ===== *)
theory StoreFacts
  imports Store
begin

text \<open>
  What a store promises: its invariant over every operation, who hears a change, the copy that
  a galactic store keeps of a local one, and the ready functions that a reset strands.
\<close>

subsection \<open>The store as a machine\<close>

datatype storeEv =
    SPut "goctx option" string gval gval uuid
  | SRemove "goctx option" string gval uuid
  | SPopulate "(string, gval) gomap"
  | SInitialize
  | SReset uuid
  | SWhenReady nat
  | SRunReady nat
  | SOnChange string "gval list"
  | SOnAllChanges "gval list"
  | SSubscribe nat "nat option"
  | SUnsubscribe nat
  | SOnMutationRequest "gval list"
  | SMutationSubscribe nat "nat option"
  | SMutationUnsubscribe nat
  | SMutate "goctx option" gval gval nat nat
  | SGalactic "(string, gval) gomap"

fun storeStep :: "storeOracle \<Rightarrow> busStore \<Rightarrow> storeEv \<Rightarrow> busStore" where
  "storeStep orc s (SPut ctx i v st n) = PutContext orc ctx i v st n s"
| "storeStep orc s (SRemove ctx i st n) = fst (RemoveContext orc ctx i st n s)"
| "storeStep orc s (SPopulate items) = fst (Populate items s)"
| "storeStep orc s SInitialize = Initialize s"
| "storeStep orc s (SReset n) = Reset orc n s"
| "storeStep orc s (SWhenReady f) = WhenReady f s"
| "storeStep orc s (SRunReady i) = runReady i s"
| "storeStep orc s (SOnChange i sts) = fst (OnChange i sts s)"
| "storeStep orc s (SOnAllChanges sts) = fst (OnAllChanges sts s)"
| "storeStep orc s (SSubscribe r h) = (if r < length (st_streamHeap s) then fst (streamSubscribe r h s) else s)"
| "storeStep orc s (SUnsubscribe r) = (if r < length (st_streamHeap s) then fst (streamUnsubscribe r s) else s)"
| "storeStep orc s (SOnMutationRequest ts) = fst (OnMutationRequest ts s)"
| "storeStep orc s (SMutationSubscribe r h) =
     (if r < length (st_mutationHeap s) then fst (mutationSubscribe r h s) else s)"
| "storeStep orc s (SMutationUnsubscribe r) =
     (if r < length (st_mutationHeap s) then fst (mutationUnsubscribe r s) else s)"
| "storeStep orc s (SMutate ctx q t sh eh) = MutateContext ctx q t sh eh s"
| "storeStep orc s (SGalactic resp) = (if st_isGalactic s then handleSyncResponse orc resp s else s)"

subsection \<open>The invariant\<close>

text \<open>In three independent parts: the items, the stream lists, the readiness.\<close>

definition listed :: "nat list \<Rightarrow> nat option list \<Rightarrow> bool" where
  "listed rs hs \<longleftrightarrow> distinct rs \<and> (\<forall>r \<in> set rs. r < length hs \<and> hs ! r \<noteq> None)"

definition streams_ok :: "busStore \<Rightarrow> bool" where
  "streams_ok s \<longleftrightarrow> listed (st_storeStreams s) (map ss_handler (st_streamHeap s)) \<and>
     listed (st_mutationStreams s) (map ms_handler (st_mutationHeap s))"

definition ready_ok :: "busStore \<Rightarrow> bool" where
  "ready_ok s \<longleftrightarrow>
     (st_initialized s \<longleftrightarrow> st_readyC s \<in> st_readyClosed s) \<and>
     (\<forall>g \<in> st_readyClosed s. g \<le> st_readyC s) \<and> (\<forall>(g, f) \<in> set (st_waiting s). g \<le> st_readyC s)"

definition store_ok :: "busStore \<Rightarrow> bool" where
  "store_ok s \<longleftrightarrow> gm_ok (st_items s) \<and> streams_ok s \<and> ready_ok s"

text \<open>The parts of the state that an operation leaves alone.\<close>

definition streamView where
  "streamView s = (st_storeStreams s, st_streamHeap s, st_mutationStreams s, st_mutationHeap s)"

definition readyView where
  "readyView s = (st_initialized s, st_readyC s, st_readyClosed s, st_waiting s)"

lemma streams_ok_frame: "streamView s' = streamView s \<Longrightarrow> streams_ok s \<Longrightarrow> streams_ok s'"
  by (simp add: streams_ok_def streamView_def)

lemma ready_ok_frame: "readyView s' = readyView s \<Longrightarrow> ready_ok s \<Longrightarrow> ready_ok s'"
  by (simp add: ready_ok_def readyView_def)

lemma sendGalactic_simps [simp]:
  "st_items (sendGalacticRequestContext orc ctx c p n s) = st_items s"
  "st_version (sendGalacticRequestContext orc ctx c p n s) = st_version s"
  "st_changeCalls (sendGalacticRequestContext orc ctx c p n s) = st_changeCalls s"
  "st_isGalactic (sendGalacticRequestContext orc ctx c p n s) = st_isGalactic s"
  "streamView (sendGalacticRequestContext orc ctx c p n s) = streamView s"
  "readyView (sendGalacticRequestContext orc ctx c p n s) = readyView s"
  "st_name (sendGalacticRequestContext orc ctx c p n s) = st_name s"
  by (simp_all add: sendGalacticRequestContext_def streamView_def readyView_def split: option.splits sum.splits)

lemma onStoreChange_simps [simp]:
  "st_items (onStoreChange ctx c s) = st_items s" "st_version (onStoreChange ctx c s) = st_version s"
  "st_isGalactic (onStoreChange ctx c s) = st_isGalactic s" "st_name (onStoreChange ctx c s) = st_name s"
  "streamView (onStoreChange ctx c s) = streamView s" "readyView (onStoreChange ctx c s) = readyView s"
  by (simp_all add: onStoreChange_def streamView_def readyView_def split: option.splits)

lemma putInternal_simps [simp]:
  "st_items (fst (putInternalContext i v st s)) = gm_set i v (st_items s)"
  "streamView (fst (putInternalContext i v st s)) = streamView s"
  "readyView (fst (putInternalContext i v st s)) = readyView s"
  "st_isGalactic (fst (putInternalContext i v st s)) = st_isGalactic s"
  "st_name (fst (putInternalContext i v st s)) = st_name s"
  "st_version (fst (putInternalContext i v st s)) = (if st_isGalactic s then st_version s else st_version s + 1)"
  "st_changeCalls (fst (putInternalContext i v st s)) = st_changeCalls s"
  by (simp_all add: putInternalContext_def Let_def streamView_def readyView_def)

lemma removeInternal_simps [simp]:
  "gm_get (st_items (fst (removeInternalContext i st s))) k = (if k = i then None else gm_get (st_items s) k)"
  "gm_ok (st_items s) \<Longrightarrow> gm_ok (st_items (fst (removeInternalContext i st s)))"
  "streamView (fst (removeInternalContext i st s)) = streamView s"
  "readyView (fst (removeInternalContext i st s)) = readyView s"
  "st_isGalactic (fst (removeInternalContext i st s)) = st_isGalactic s"
  "st_name (fst (removeInternalContext i st s)) = st_name s"
  "st_changeCalls (fst (removeInternalContext i st s)) = st_changeCalls s"
  by (auto simp: removeInternalContext_def Let_def streamView_def readyView_def split: option.splits)

lemma updateVersion_simps [simp]:
  "st_items (updateVersionFromResponse resp s) = st_items s"
  "streamView (updateVersionFromResponse resp s) = streamView s"
  "readyView (updateVersionFromResponse resp s) = readyView s"
  "st_isGalactic (updateVersionFromResponse resp s) = st_isGalactic s"
  "st_name (updateVersionFromResponse resp s) = st_name s"
  by (auto simp: updateVersionFromResponse_def streamView_def readyView_def split: option.splits gval.splits)

lemma gm_ok_putAll: "gm_ok m \<Longrightarrow> gm_ok (putAll kvs m)"
  by (induction kvs m rule: putAll.induct) auto

lemma gm_ok_convertItems: "gm_ok m \<Longrightarrow> gm_ok (convertItems orc kvs m)"
  by (induction orc kvs m rule: convertItems.induct) (auto split: sum.splits)

lemma view_updates [simp]:
  "streamView (s\<lparr>st_items := x\<rparr>) = streamView s" "readyView (s\<lparr>st_items := x\<rparr>) = readyView s"
  "streamView (Initialize s) = streamView s" "streamView (WhenReady f s) = streamView s"
  "streamView (runReady i s) = streamView s" "st_items (Initialize s) = st_items s"
  "st_items (WhenReady f s) = st_items s" "st_items (runReady i s) = st_items s"
  "st_isGalactic (Initialize s) = st_isGalactic s" "st_name (Initialize s) = st_name s"
  "st_version (Initialize s) = st_version s"
  by (simp_all add: streamView_def readyView_def Initialize_def WhenReady_def runReady_def)

lemma ready_ok_Initialize: "ready_ok s \<Longrightarrow> ready_ok (Initialize s)"
  by (auto simp: ready_ok_def Initialize_def)

lemma ready_ok_initStore: "ready_ok s \<Longrightarrow> ready_ok (initStore s)"
  by (fastforce simp: ready_ok_def initStore_def)

lemma ready_ok_waiting: "ready_ok s \<Longrightarrow> ready_ok (WhenReady f s)" "ready_ok s \<Longrightarrow> ready_ok (runReady i s)"
proof -
  show "ready_ok s \<Longrightarrow> ready_ok (WhenReady f s)" by (simp add: ready_ok_def WhenReady_def)
  assume ok: "ready_ok s"
  have "set (take i xs @ drop (Suc i) xs) \<subseteq> set xs" for xs :: "(nat \<times> nat) list"
    unfolding set_append by (meson Un_least set_drop_subset set_take_subset)
  then have sub: "set (st_waiting (runReady i s)) \<subseteq> set (st_waiting s)" by (simp add: runReady_def)
  have same: "st_initialized (runReady i s) = st_initialized s" "st_readyC (runReady i s) = st_readyC s"
    "st_readyClosed (runReady i s) = st_readyClosed s" by (simp_all add: runReady_def)
  show "ready_ok (runReady i s)" using ok sub unfolding ready_ok_def same by blast
qed

lemma findStream_Some: "findStream r i rs = Some k \<Longrightarrow> i \<le> k \<and> k - i < length rs \<and> rs ! (k - i) = r"
  by (induction r i rs rule: findStream.induct) (auto simp: Suc_diff_le split: if_splits)

lemma findStream_None: "findStream r i rs = None \<longleftrightarrow> r \<notin> set rs"
  by (induction r i rs rule: findStream.induct) auto

lemma mset_removeStream: "r \<in> set rs \<Longrightarrow> mset (removeStream r rs) = mset rs - {#r#}"
proof -
  assume "r \<in> set rs"
  then obtain k where k: "findStream r 0 rs = Some k" using findStream_None by fastforce
  then have "k < length rs" "rs ! k = r" using findStream_Some [of r 0 rs k] by auto
  then show ?thesis using mset_swapRemove [of k rs] k by (simp add: removeStream_def)
qed

lemma removeStream_distinct:
  assumes "distinct rs" shows "distinct (removeStream r rs)" "set (removeStream r rs) = set rs - {r}"
proof -
  have "distinct (removeStream r rs) \<and> set (removeStream r rs) = set rs - {r}"
  proof (cases "r \<in> set rs")
    case True
    have m: "mset (removeStream r rs) = mset (remove1 r rs)" using mset_removeStream [OF True] by simp
    have "distinct (removeStream r rs)"
      using mset_eq_imp_distinct_iff [OF m] distinct_remove1 [OF assms] by (simp only:)
    moreover have "set (removeStream r rs) = set (remove1 r rs)" by (rule mset_eq_setD [OF m])
    ultimately show ?thesis using set_remove1_eq [OF assms] by (simp only:)
  next
    case False
    then have "findStream r 0 rs = None" by (simp add: findStream_None)
    then show ?thesis using assms False by (simp add: removeStream_def)
  qed
  then show "distinct (removeStream r rs)" "set (removeStream r rs) = set rs - {r}" by auto
qed

lemma listed_add:
  assumes "listed rs hs" and "r < length hs" and "hs ! r = None"
  shows "listed (rs @ [r]) (hs[r := Some h])"
proof -
  have "r \<notin> set rs" using assms by (auto simp: listed_def)
  then show ?thesis using assms by (auto simp: listed_def nth_list_update)
qed

lemma listed_remove: "listed rs hs \<Longrightarrow> listed (removeStream r rs) (hs[r := None])"
  unfolding listed_def by (simp add: removeStream_distinct)

lemma listed_new: "listed rs hs \<Longrightarrow> listed rs (hs @ [x])"
  by (auto simp: listed_def nth_append)

lemma streams_ok_subscribe:
  assumes "streams_ok s" and "r < length (st_streamHeap s)"
  shows "streams_ok (fst (streamSubscribe r h s))" "streams_ok (fst (streamUnsubscribe r s))"
  using assms
  by (simp_all add: streams_ok_def streamSubscribe_def streamUnsubscribe_def onStreamSubscribe_def
      onStreamUnsubscribe_def setStreamHandler_def map_update listed_add listed_remove split: option.splits)

lemma streams_ok_mutation:
  assumes "streams_ok s" and "r < length (st_mutationHeap s)"
  shows "streams_ok (fst (mutationSubscribe r h s))" "streams_ok (fst (mutationUnsubscribe r s))"
  using assms
  by (simp_all add: streams_ok_def mutationSubscribe_def mutationUnsubscribe_def onMutationStreamSubscribe_def onMutationStreamUnsubscribe_def
      setMutationHandler_def map_update listed_add listed_remove split: option.splits)

lemma streams_ok_new:
  assumes "streams_ok s"
  shows "streams_ok (fst (newStoreStream f s))" "streams_ok (fst (OnMutationRequest ts s))"
  using assms by (simp_all add: streams_ok_def newStoreStream_def OnMutationRequest_def newMutationStoreStream_def listed_new)

lemma subscription_views [simp]:
  "readyView (fst (streamSubscribe r h s)) = readyView s" "st_items (fst (streamSubscribe r h s)) = st_items s"
  "readyView (fst (streamUnsubscribe r s)) = readyView s" "st_items (fst (streamUnsubscribe r s)) = st_items s"
  "readyView (fst (mutationSubscribe r h s)) = readyView s" "st_items (fst (mutationSubscribe r h s)) = st_items s"
  "readyView (fst (mutationUnsubscribe r s)) = readyView s" "st_items (fst (mutationUnsubscribe r s)) = st_items s"
  "readyView (fst (newStoreStream f s)) = readyView s" "st_items (fst (newStoreStream f s)) = st_items s"
  "readyView (fst (OnMutationRequest ts s)) = readyView s" "st_items (fst (OnMutationRequest ts s)) = st_items s"
  by (simp_all add: readyView_def streamSubscribe_def streamUnsubscribe_def onStreamSubscribe_def
      onStreamUnsubscribe_def setStreamHandler_def mutationSubscribe_def mutationUnsubscribe_def onMutationStreamSubscribe_def onMutationStreamUnsubscribe_def
      setMutationHandler_def newStoreStream_def OnMutationRequest_def newMutationStoreStream_def split: option.splits)

lemma store_okI:
  "store_ok s \<Longrightarrow> gm_ok (st_items s') \<Longrightarrow> streamView s' = streamView s \<Longrightarrow> readyView s' = readyView s \<Longrightarrow> store_ok s'"
  using streams_ok_frame ready_ok_frame by (auto simp: store_ok_def)

lemma store_ok_Put: "store_ok s \<Longrightarrow> store_ok (PutContext orc ctx i v st n s)"
  by (rule store_okI [of s])
    (auto simp: PutContext_def putGalactic_def sendUpdateStoreRequest_def Let_def case_prod_beta store_ok_def
      split: option.splits)

lemma store_ok_Remove: "store_ok s \<Longrightarrow> store_ok (fst (RemoveContext orc ctx i st n s))"
  by (rule store_okI [of s])
    (auto simp: RemoveContext_def removeGalactic_def sendUpdateStoreRequest_def Let_def case_prod_beta store_ok_def
      split: option.splits)

lemma store_ok_Initialize: "store_ok s \<Longrightarrow> store_ok (Initialize s)"
  using streams_ok_frame [of "Initialize s" s] by (simp add: store_ok_def ready_ok_Initialize)

lemma store_ok_items: "store_ok s \<Longrightarrow> gm_ok m \<Longrightarrow> store_ok (s\<lparr>st_items := m\<rparr>)"
  by (rule store_okI [of s]) auto

lemma store_ok_version: "store_ok s \<Longrightarrow> store_ok (updateVersionFromResponse resp s)"
  by (rule store_okI [of s]) (auto simp: store_ok_def)

lemma store_ok_galactic: "store_ok s \<Longrightarrow> store_ok (handleSyncResponse orc resp s)"
proof -
  assume ok: "store_ok s"
  have content: "store_ok (handleStoreContent orc resp s)"
    using ok store_ok_Initialize store_ok_items [OF store_ok_version [OF ok]] gm_ok_convertItems gm_ok_empty
    by (auto simp: handleStoreContent_def split: option.splits gval.splits)
  have "store_ok (handleStoreUpdate orc resp s)"
    by (rule store_okI [OF ok])
      (use ok in \<open>auto simp: handleStoreUpdate_def Let_def case_prod_beta store_ok_def split: option.splits gval.splits sum.splits\<close>)
  then show ?thesis using ok content
    by (auto simp: handleSyncResponse_def Let_def split: option.splits gval.splits)
qed

lemma store_ok_Reset: "store_ok s \<Longrightarrow> store_ok (Reset orc n s)"
proof -
  assume "store_ok s"
  then have "store_ok (initStore s)"
    using ready_ok_initStore by (auto simp: store_ok_def initStore_def streams_ok_def listed_def)
  moreover from this have "store_ok (sendOpenStoreRequest orc n (initStore s))"
    unfolding sendOpenStoreRequest_def by (rule store_okI) (simp_all add: initStore_def)
  ultimately show ?thesis by (simp add: Reset_def Let_def)
qed

lemma store_ok_step: "store_ok s \<Longrightarrow> store_ok (storeStep orc s e)"
proof (cases e)
  case (SPopulate items)
  then show "store_ok s \<Longrightarrow> ?thesis"
    using store_ok_Initialize store_ok_items gm_ok_putAll by (auto simp: Populate_def store_ok_def)
next
  case (SWhenReady f)
  then show "store_ok s \<Longrightarrow> ?thesis"
    using streams_ok_frame [of "WhenReady f s" s] ready_ok_waiting(1) by (simp add: store_ok_def)
next
  case (SRunReady i)
  then show "store_ok s \<Longrightarrow> ?thesis"
    using streams_ok_frame [of "runReady i s" s] ready_ok_waiting(2) by (simp add: store_ok_def)
next
  case (SOnChange i sts)
  then show "store_ok s \<Longrightarrow> ?thesis" using ready_ok_frame streams_ok_new(1)
    by (simp add: OnChange_def store_ok_def)
next
  case (SOnAllChanges sts)
  then show "store_ok s \<Longrightarrow> ?thesis" using ready_ok_frame streams_ok_new(1)
    by (simp add: OnAllChanges_def store_ok_def)
next
  case (SSubscribe r h)
  then show "store_ok s \<Longrightarrow> ?thesis" using ready_ok_frame streams_ok_subscribe by (simp add: store_ok_def)
next
  case (SUnsubscribe r)
  then show "store_ok s \<Longrightarrow> ?thesis" using ready_ok_frame streams_ok_subscribe by (simp add: store_ok_def)
next
  case (SOnMutationRequest ts)
  then show "store_ok s \<Longrightarrow> ?thesis" using ready_ok_frame streams_ok_new(2) by (simp add: store_ok_def)
next
  case (SMutationSubscribe r h)
  then show "store_ok s \<Longrightarrow> ?thesis" using ready_ok_frame streams_ok_mutation by (simp add: store_ok_def)
next
  case (SMutationUnsubscribe r)
  then show "store_ok s \<Longrightarrow> ?thesis" using ready_ok_frame streams_ok_mutation by (simp add: store_ok_def)
next
  case (SMutate ctx q t sh eh)
  then show "store_ok s \<Longrightarrow> ?thesis"
    by - (rule store_okI [of s],
        simp_all add: MutateContext_def store_ok_def streamView_def readyView_def split: option.splits)
qed (simp_all add: store_ok_Put store_ok_Remove store_ok_Initialize store_ok_Reset store_ok_galactic)

interpretation store: machine "storeStep orc" store_ok for orc
  by unfold_locales (rule store_ok_step)

lemma store_ok_newBusStore: "store_ok (newBusStore orc name conf listen n)"
proof -
  have frame: "store_ok s \<Longrightarrow> store_ok (initGalacticStore orc listen n s)" for s
    by (rule store_okI [of s])
      (auto simp: initGalacticStore_def sendOpenStoreRequest_def store_ok_def streamView_def readyView_def
        sendGalacticRequestContext_def split: sum.splits option.splits)
  have wrap: "store_ok s \<Longrightarrow> store_ok (if st_isGalactic s then initGalacticStore orc listen n s else s)" for s
    using frame by simp
  show ?thesis unfolding newBusStore_def Let_def
    by (rule wrap) (simp add: initStore_def store_ok_def streams_ok_def listed_def ready_ok_def)
qed

subsection \<open>Who hears a change\<close>

lemma map_filter_total:
  "(\<And>x. x \<in> set xs \<Longrightarrow> g x = (if P x then Some (h x) else None)) \<Longrightarrow> List.map_filter g xs = map h (filter P xs)"
  by (induction xs) (auto simp: List.map_filter_simps)

lemma streamCalls_listed:
  assumes "listed rs (map ss_handler (st_streamHeap s))"
  shows "streamCalls s change rs =
     map (\<lambda>r. (the (ss_handler (st_streamHeap s ! r)), change))
       (filter (\<lambda>r. filterMatch (ss_filter (st_streamHeap s ! r)) change) rs)"
  unfolding streamCalls_def Let_def
  by (rule map_filter_total) (use assms in \<open>auto simp: listed_def\<close>)

lemma streamCalls_cong: "streamView s' = streamView s \<Longrightarrow> streamCalls s' = streamCalls s"
  by (simp add: streamView_def streamCalls_def fun_eq_iff)

lemma streamView_storeStreams: "streamView s' = streamView s \<Longrightarrow> st_storeStreams s' = st_storeStreams s"
  by (simp add: streamView_def)

lemma onStoreChange_calls:
  "st_changeCalls (onStoreChange (Some Background) (Some c) s) = st_changeCalls s @ streamCalls s c (st_storeStreams s)"
  by (simp add: onStoreChange_def)

lemma putInternal_change:
  "snd (putInternalContext i v st s) =
     \<lparr>sc_Id = i, sc_Value = v, sc_State = st, sc_IsDeleteChange = False,
      sc_StoreVersion = (if st_isGalactic s then st_version s else st_version s + 1)\<rparr>"
  by (simp add: putInternalContext_def Let_def)

lemma Put_calls:
  assumes "\<not> st_isGalactic s" and "ctxErr (orBackground ctx) = None"
  shows "st_changeCalls (PutContext orc ctx i v st n s) =
     st_changeCalls s @ streamCalls s (snd (putInternalContext i v st s)) (st_storeStreams s)"
proof -
  let ?s1 = "fst (putInternalContext i v st s)"
  have eq: "PutContext orc ctx i v st n s =
      onStoreChange (Some Background) (Some (snd (putInternalContext i v st s))) ?s1"
    using assms by (simp add: PutContext_def Let_def case_prod_beta)
  have v: "streamView ?s1 = streamView s" by simp
  show ?thesis unfolding eq onStoreChange_calls streamCalls_cong [OF v] streamView_storeStreams [OF v] by simp
qed

subsection \<open>Ready functions that a reset strands\<close>

definition stranded :: "nat \<Rightarrow> nat \<Rightarrow> busStore \<Rightarrow> bool" where
  "stranded g f s \<longleftrightarrow> (g, f) \<in> set (st_waiting s) \<and> g < st_readyC s \<and> g \<notin> st_readyClosed s"

lemma stranded_frame: "readyView s' = readyView s \<Longrightarrow> stranded g f s \<Longrightarrow> stranded g f s'"
  by (simp add: stranded_def readyView_def)

lemma stranded_Initialize: "stranded g f s \<Longrightarrow> stranded g f (Initialize s)"
  by (simp add: stranded_def Initialize_def)

lemma in_set_take_drop: "x \<in> set xs \<Longrightarrow> i < length xs \<Longrightarrow> xs ! i \<noteq> x \<Longrightarrow> x \<in> set (take i xs @ drop (Suc i) xs)"
  by (metis id_take_nth_drop in_set_conv_decomp set_append Un_iff set_ConsD)

lemma stranded_runReady: "stranded g f s \<Longrightarrow> stranded g f (runReady i s)"
  using in_set_take_drop [of "(g, f)" "st_waiting s" i] by (fastforce simp: stranded_def runReady_def)

lemma stranded_Reset: "stranded g f s \<Longrightarrow> stranded g f (Reset orc n s)"
proof -
  assume "stranded g f s"
  then have "stranded g f (initStore s)" by (simp add: stranded_def initStore_def)
  moreover from this have "stranded g f (sendOpenStoreRequest orc n (initStore s))"
    unfolding sendOpenStoreRequest_def by (rule stranded_frame [rotated]) simp
  ultimately show ?thesis by (simp add: Reset_def Let_def)
qed

lemma readyView_items:
  "readyView (PutContext orc ctx i v st n s) = readyView s"
  "readyView (fst (RemoveContext orc ctx i st n s)) = readyView s"
  "readyView (MutateContext ctx q t sh eh s) = readyView s"
  "readyView (handleStoreUpdate orc resp s) = readyView s"
  by (auto simp: PutContext_def RemoveContext_def MutateContext_def handleStoreUpdate_def putGalactic_def
      removeGalactic_def sendUpdateStoreRequest_def Let_def case_prod_beta
      split: option.splits gval.splits sum.splits) (auto simp: readyView_def)

lemma stranded_galactic: "stranded g f s \<Longrightarrow> stranded g f (handleSyncResponse orc resp s)"
proof -
  assume st: "stranded g f s"
  have "stranded g f ((updateVersionFromResponse resp s)\<lparr>st_items := m\<rparr>)" for m
    by (rule stranded_frame [OF _ st]) simp
  then have "stranded g f (handleStoreContent orc resp s)"
    using st by (auto simp: handleStoreContent_def intro!: stranded_Initialize split: option.splits gval.splits)
  moreover have "stranded g f (handleStoreUpdate orc resp s)"
    by (rule stranded_frame [OF readyView_items(4) st])
  ultimately show ?thesis using st by (simp add: handleSyncResponse_def Let_def split: option.splits gval.splits)
qed

lemma stranded_step:
  assumes st: "stranded g f s"
  shows "stranded g f (storeStep orc s e)"
proof -
  have frame: "stranded g f s'" if "readyView s' = readyView s" for s'
    by (rule stranded_frame [OF that st])
  show ?thesis
  proof (cases e)
    case (SPopulate items)
    have "stranded g f (s\<lparr>st_items := m\<rparr>)" for m by (rule frame) simp
    then show ?thesis using SPopulate st by (auto simp: Populate_def intro: stranded_Initialize)
  next
    case (SWhenReady h)
    then show ?thesis using st by (simp add: stranded_def WhenReady_def)
  next
    case (SGalactic resp)
    then show ?thesis using st stranded_galactic by simp
  qed (use st in \<open>simp_all add: stranded_Initialize stranded_Reset stranded_runReady readyView_items OnChange_def
    OnAllChanges_def frame\<close>)
qed

interpretation stranding: machine "storeStep orc" "stranded g f" for orc g f
  by unfold_locales (rule stranded_step)

subsection \<open>Properties\<close>

definition emptyStore :: "storeOracle \<Rightarrow> string \<Rightarrow> busStore" where
  "emptyStore orc name = newBusStore orc name None (Inl []) 0"

text \<open>C20: a put on a local store under a live context stores the value under its id and nothing
  else, raises the version by one, and calls exactly the subscribed streams whose filter
  matches, each once, in the order of the list, with the change and its new version.\<close>

theorem put_stores_and_notifies:
  assumes "s = foldl (storeStep orc) (emptyStore orc name) evs" and "\<not> st_isGalactic s"
    and "ctxErr (orBackground ctx) = None"
    and "s' = PutContext orc ctx i v st n s"
    and "c = \<lparr>sc_Id = i, sc_Value = v, sc_State = st, sc_IsDeleteChange = False, sc_StoreVersion = st_version s + 1\<rparr>"
  shows "(\<lambda>k. Get k s') = (\<lambda>k. Get k s)(i := Some v) \<and> st_version s' = st_version s + 1 \<and>
     st_changeCalls s' = st_changeCalls s @
       map (\<lambda>r. (the (ss_handler (st_streamHeap s ! r)), c))
         (filter (\<lambda>r. filterMatch (ss_filter (st_streamHeap s ! r)) c) (st_storeStreams s))"
proof -
  have "store_ok s" unfolding assms(1) emptyStore_def
    by (rule store.run_inv) (rule store_ok_newBusStore)
  then have l: "listed (st_storeStreams s) (map ss_handler (st_streamHeap s))"
    by (simp add: store_ok_def streams_ok_def)
  have c: "snd (putInternalContext i v st s) = c" using assms(2,5) by (simp add: putInternal_change)
  have "st_changeCalls s' = st_changeCalls s @
       map (\<lambda>r. (the (ss_handler (st_streamHeap s ! r)), c))
         (filter (\<lambda>r. filterMatch (ss_filter (st_streamHeap s ! r)) c) (st_storeStreams s))"
    unfolding assms(4) Put_calls [OF assms(2,3)] c streamCalls_listed [OF l] by (rule refl)
  moreover have "(\<lambda>k. Get k s') = (\<lambda>k. Get k s)(i := Some v) \<and> st_version s' = st_version s + 1"
    using assms(2,3) unfolding assms(4) by (simp add: Get_def fun_eq_iff PutContext_def Let_def case_prod_beta)
  ultimately show ?thesis by simp
qed

definition plainOracle :: storeOracle where
  "plainOracle = \<lparr>or_marshal = (\<lambda>r. Inl ''none''), or_convert = Inr\<rparr>"

lemma put_stores_and_notifies_witness:
  "Get ''k'' (PutContext plainOracle None ''k'' (GInt 1) GNil 0
      (foldl (storeStep plainOracle) (emptyStore plainOracle ''s'') [SOnAllChanges [], SSubscribe 0 (Some 5)]))
   = Some (GInt 1)"
proof -
  let ?s = "foldl (storeStep plainOracle) (emptyStore plainOracle ''s'') [SOnAllChanges [], SSubscribe 0 (Some 5)]"
  have "\<not> st_isGalactic ?s" by code_simp
  from put_stores_and_notifies [OF refl this, of None, OF _ refl refl, of "''k''" "GInt 1" GNil 0]
  show ?thesis by (simp add: fun_eq_iff)
qed

text \<open>A reset strands ready functions. A function registered with \<open>WhenReady\<close> on a store
  that is not initialized, and is then reset, never runs: whatever happens after the reset,
  initialization included, its goroutine stays waiting.\<close>

theorem reset_strands_waiters:
  assumes "s = foldl (storeStep orc) (emptyStore orc name) evs" and "\<not> st_initialized s"
    and "(st_readyC s, f) \<in> set (st_waiting s)"
  shows "(st_readyC s, f) \<in> set (st_waiting (foldl (storeStep orc) (Reset orc n s) evs2)) \<and>
     st_readyC s \<notin> st_readyClosed (foldl (storeStep orc) (Reset orc n s) evs2)"
proof -
  have "store_ok s" unfolding assms(1) emptyStore_def
    by (rule store.run_inv) (rule store_ok_newBusStore)
  then have "st_readyC s \<notin> st_readyClosed s" using assms(2) by (simp add: store_ok_def ready_ok_def)
  then have "stranded (st_readyC s) f (Reset orc n s)"
    using assms(3) by (auto simp: stranded_def Reset_def initStore_def Let_def sendOpenStoreRequest_def
        sendGalacticRequestContext_def split: sum.splits option.splits)
  then show ?thesis using stranding.run_inv [of "st_readyC s" f "Reset orc n s"] by (simp add: stranded_def)
qed

lemma reset_strands_waiters_witness:
  "st_readyCalls (foldl (storeStep plainOracle)
      (Reset plainOracle 0 (foldl (storeStep plainOracle) (emptyStore plainOracle ''s'') [SWhenReady 7]))
      [SInitialize, SRunReady 0]) = [] \<and>
   (1, 7) \<in> set (st_waiting (foldl (storeStep plainOracle)
      (Reset plainOracle 0 (foldl (storeStep plainOracle) (emptyStore plainOracle ''s'') [SWhenReady 7]))
      [SInitialize, SRunReady 0]))"
proof -
  let ?s = "foldl (storeStep plainOracle) (emptyStore plainOracle ''s'') [SWhenReady 7]"
  have h: "\<not> st_initialized ?s" "(st_readyC ?s, 7) \<in> set (st_waiting ?s)" "st_readyC ?s = 1"
    by code_simp+
  have "st_readyCalls (foldl (storeStep plainOracle) (Reset plainOracle 0 ?s) [SInitialize, SRunReady 0]) = []"
    by code_simp
  then show ?thesis
    using reset_strands_waiters [OF refl h(1,2), of 0 "[SInitialize, SRunReady 0]"] h(3) by simp
qed

end
