(* ===== verification/StoreSync.thy ===== *)
theory StoreSync
  imports StoreFacts
begin

text \<open>
  store/store_manager.go and store/store_sync_service.go: the stores by name over a heap of
  store objects, and the service that serves stores to remote clients. The functions that the
  service hands to a store, a change listener or a ready function, are named by numbers that
  the service allocates; \<open>sm_out\<close> is what it sends on the clients' sync channels.
\<close>

subsection \<open>State\<close>

datatype syncOut =
    OutContent storeContentResponse
  | OutUpdate updateStoreResponse
  | OutError "uuid option" string

record syncClientChannel =
  cl_channelName :: string
  cl_listening :: bool
  cl_openStores :: "(string, bool) gomap"

record syncStoreListener =
  sl_store :: nat
  sl_stream :: nat
  sl_clientSyncChannels :: "(string, bool) gomap"

record storeSyncChannelConfig =
  sc_topicPrefix :: string
  sc_pubPrefix :: string
  sc_syncChannelName :: string
  sc_conn :: uuid

record storeManager =
  sm_stores :: "(string, nat) gomap"
  sm_heap :: "busStore list"
  sm_syncChannels :: "(uuid, storeSyncChannelConfig) gomap"
  sm_events :: "(EventType \<times> string) list"
  sm_syncClients :: "(string, nat) gomap"
  sm_clientHeap :: "syncClientChannel list"
  sm_syncStoreListeners :: "(string, nat) gomap"
  sm_listenerHeap :: "syncStoreListener list"
  sm_changeFns :: "(nat, nat) gomap"
  sm_readyFns :: "(nat, string \<times> nat \<times> string) gomap"
  sm_nextFn :: nat
  sm_out :: "(string \<times> syncOut) list"

definition NewManager :: storeManager where
  "NewManager = \<lparr>sm_stores = gm_empty, sm_heap = [], sm_syncChannels = gm_empty, sm_events = [],
     sm_syncClients = gm_empty, sm_clientHeap = [], sm_syncStoreListeners = gm_empty, sm_listenerHeap = [],
     sm_changeFns = gm_empty, sm_readyFns = gm_empty, sm_nextFn = 1000, sm_out = []\<rparr>"

definition storeAt :: "storeManager \<Rightarrow> nat \<Rightarrow> busStore" where "storeAt m r = sm_heap m ! r"

definition setStore :: "nat \<Rightarrow> busStore \<Rightarrow> storeManager \<Rightarrow> storeManager" where
  "setStore r s m = m\<lparr>sm_heap := (sm_heap m)[r := s]\<rparr>"

definition emitStoreEvent :: "EventType \<Rightarrow> string \<Rightarrow> storeManager \<Rightarrow> storeManager" where
  "emitStoreEvent t name m = m\<lparr>sm_events := sm_events m @ [(t, name)]\<rparr>"

subsection \<open>The manager\<close>

definition CreateStore :: "storeOracle \<Rightarrow> string \<Rightarrow> storeManager \<Rightarrow> storeManager \<times> nat" where
  "CreateStore orc name m =
     (case gm_get (sm_stores m) name of
        Some r \<Rightarrow> (m, r)
      | None \<Rightarrow>
          (let r = length (sm_heap m) in
           (emitStoreEvent StoreCreatedEvt name
              (m\<lparr>sm_heap := sm_heap m @ [newBusStore orc name None (Inl []) 0],
                 sm_stores := gm_set name r (sm_stores m)\<rparr>), r)))"

definition GetStore :: "string \<Rightarrow> storeManager \<Rightarrow> nat option" where
  "GetStore name m = gm_get (sm_stores m) name"

definition DestroyStore :: "storeOracle \<Rightarrow> uuid \<Rightarrow> string \<Rightarrow> storeManager \<Rightarrow> storeManager \<times> bool" where
  "DestroyStore orc newId name m =
     (case gm_get (sm_stores m) name of
        None \<Rightarrow> (m, False)
      | Some r \<Rightarrow>
          (let s = fst (OnDestroy orc newId (storeAt m r));
               m1 = (setStore r s m)\<lparr>sm_stores := gm_del name (sm_stores m)\<rparr>
           in (emitStoreEvent StoreDestroyedEvt name m1, True)))"

text \<open>\<open>showId\<close> renders a uuid; \<open>mark\<close> is what marking the new channel galactic returns.\<close>

definition ConfigureStoreSyncChannel ::
  "(uuid \<Rightarrow> string) \<Rightarrow> err option \<Rightarrow> uuid \<Rightarrow> string \<Rightarrow> string \<Rightarrow> storeManager \<Rightarrow> storeManager \<times> err option" where
  "ConfigureStoreSyncChannel showId mark conn topicPrefix pubPrefix m =
     (if gm_get (sm_syncChannels m) conn \<noteq> None
      then (m, Some ''store sync channel already configured for this connection'')
      else (let tp = (if \<not> HasSuffix topicPrefix ''/'' then topicPrefix @ ''/'' else topicPrefix);
                pp = (if \<not> HasSuffix pubPrefix ''/'' then pubPrefix @ ''/'' else pubPrefix);
                syncChannel = ''transport-store-sync.'' @ showId conn;
                cfg = \<lparr>sc_topicPrefix = tp, sc_pubPrefix = pp, sc_syncChannelName = syncChannel, sc_conn = conn\<rparr>
            in (m\<lparr>sm_syncChannels := gm_set conn cfg (sm_syncChannels m)\<rparr>, mark)))"

definition OpenGalacticStore ::
  "storeOracle \<Rightarrow> nat res \<Rightarrow> uuid \<Rightarrow> string \<Rightarrow> uuid \<Rightarrow> storeManager \<Rightarrow> storeManager \<times> nat option \<times> err option" where
  "OpenGalacticStore orc listen newId name conn m =
     (case gm_get (sm_syncChannels m) conn of
        None \<Rightarrow> (m, None, Some ''sync channel is not configured for this connection'')
      | Some cfg \<Rightarrow>
          (case gm_get (sm_stores m) name of
             Some r \<Rightarrow>
               (if st_isGalactic (storeAt m r) then (m, Some r, None)
                else (m, Some r, Some ''cannot open galactic store: there is a local store with the same name''))
           | None \<Rightarrow>
               (let r = length (sm_heap m);
                    conf = \<lparr>gc_topicPrefix = sc_topicPrefix cfg, gc_pubPrefix = sc_pubPrefix cfg,
                            gc_syncChannelName = sc_syncChannelName cfg\<rparr>
                in (emitStoreEvent StoreCreatedEvt name
                      (m\<lparr>sm_heap := sm_heap m @ [newBusStore orc name (Some conf) listen newId],
                         sm_stores := gm_set name r (sm_stores m)\<rparr>), Some r, None))))"

subsection \<open>What the service sends\<close>

definition sendSync :: "string \<Rightarrow> syncOut \<Rightarrow> storeManager \<Rightarrow> storeManager" where
  "sendSync channel out m = m\<lparr>sm_out := sm_out m @ [(channel, out)]\<rparr>"

definition sendErrorResponse :: "string \<Rightarrow> string \<Rightarrow> uuid option \<Rightarrow> storeManager \<Rightarrow> storeManager" where
  "sendErrorResponse channel errorMsg reqId m = sendSync channel (OutError reqId errorMsg) m"

text \<open>The listener's function on a change of its store.\<close>

definition updateFor :: "string \<Rightarrow> storeChange \<Rightarrow> updateStoreResponse" where
  "updateFor name change =
     (let u = NewUpdateStoreResponse name (sc_Id change) (sc_Value change) (sc_StoreVersion change)
      in if sc_IsDeleteChange change then u\<lparr>ur_NewItemValue := GNil\<rparr> else u)"

definition listenerCall :: "nat \<Rightarrow> storeChange \<Rightarrow> storeManager \<Rightarrow> storeManager" where
  "listenerCall l change m =
     (let li = sm_listenerHeap m ! l;
          u = updateFor (GetName (storeAt m (sl_store li))) change
      in foldl (\<lambda>m ch. sendSync ch (OutUpdate u) m) m (gm_keys (sl_clientSyncChannels li)))"

definition changeCall :: "nat \<times> storeChange \<Rightarrow> storeManager \<Rightarrow> storeManager" where
  "changeCall hc m = (case gm_get (sm_changeFns m) (fst hc) of None \<Rightarrow> m | Some l \<Rightarrow> listenerCall l (snd hc) m)"

text \<open>An operation of a store, with the listener functions it calls while it runs.\<close>

definition onStore :: "nat \<Rightarrow> (busStore \<Rightarrow> busStore) \<Rightarrow> storeManager \<Rightarrow> storeManager" where
  "onStore r f m =
     (let s = storeAt m r; s' = f s
      in foldl (\<lambda>m hc. changeCall hc m) (setStore r s' m) (drop (length (st_changeCalls s)) (st_changeCalls s')))"

text \<open>A waiting ready function of a store runs: a content response with the items of then.\<close>

definition readyCall :: "nat \<Rightarrow> storeManager \<Rightarrow> storeManager" where
  "readyCall f m =
     (case gm_get (sm_readyFns m) f of
        None \<Rightarrow> m
      | Some (channel, r, storeId) \<Rightarrow>
          (let (items, version) = AllValuesAndVersion (storeAt m r)
           in sendSync channel (OutContent (NewStoreContentResponse storeId items version)) m))"

definition runStoreReady :: "nat \<Rightarrow> nat \<Rightarrow> storeManager \<Rightarrow> storeManager" where
  "runStoreReady r i m =
     (let s = storeAt m r; s' = runReady i s
      in foldl (\<lambda>m f. readyCall f m) (setStore r s' m) (drop (length (st_readyCalls s)) (st_readyCalls s')))"

subsection \<open>Clients\<close>

definition newSyncStoreListener :: "nat \<Rightarrow> storeManager \<Rightarrow> storeManager \<times> nat" where
  "newSyncStoreListener r m =
     (let l = length (sm_listenerHeap m); h = sm_nextFn m;
          (s1, stream) = OnAllChanges [] (storeAt m r);
          s2 = fst (streamSubscribe stream (Some h) s1)
      in ((setStore r s2 m)
            \<lparr>sm_listenerHeap := sm_listenerHeap m @ [\<lparr>sl_store = r, sl_stream = stream, sl_clientSyncChannels = gm_empty\<rparr>],
             sm_changeFns := gm_set h l (sm_changeFns m), sm_nextFn := h + 1\<rparr>, l))"

definition updListener :: "nat \<Rightarrow> (syncStoreListener \<Rightarrow> syncStoreListener) \<Rightarrow> storeManager \<Rightarrow> storeManager" where
  "updListener l f m = m\<lparr>sm_listenerHeap := (sm_listenerHeap m)[l := f (sm_listenerHeap m ! l)]\<rparr>"

definition addChannel :: "nat \<Rightarrow> string \<Rightarrow> storeManager \<Rightarrow> storeManager" where
  "addChannel l ch m = updListener l (\<lambda>li. li\<lparr>sl_clientSyncChannels := gm_set ch True (sl_clientSyncChannels li)\<rparr>) m"

definition removeChannel :: "nat \<Rightarrow> string \<Rightarrow> storeManager \<Rightarrow> storeManager" where
  "removeChannel l ch m = updListener l (\<lambda>li. li\<lparr>sl_clientSyncChannels := gm_del ch (sl_clientSyncChannels li)\<rparr>) m"

definition listenerEmpty :: "nat \<Rightarrow> storeManager \<Rightarrow> bool" where
  "listenerEmpty l m = (length (sl_clientSyncChannels (sm_listenerHeap m ! l)) = 0)"

definition unsubscribeListener :: "nat \<Rightarrow> storeManager \<Rightarrow> storeManager" where
  "unsubscribeListener l m =
     (let li = sm_listenerHeap m ! l
      in setStore (sl_store li) (fst (streamUnsubscribe (sl_stream li) (storeAt m (sl_store li)))) m)"

text \<open>Taking a channel out of a store's listener, which goes when it was the last one.\<close>

definition dropChannel :: "string \<Rightarrow> string \<Rightarrow> storeManager \<Rightarrow> storeManager" where
  "dropChannel storeId channel m =
     (case gm_get (sm_syncStoreListeners m) storeId of
        None \<Rightarrow> m
      | Some l \<Rightarrow>
          (let m1 = removeChannel l channel m in
           if listenerEmpty l m1
           then (unsubscribeListener l m1)\<lparr>sm_syncStoreListeners := gm_del storeId (sm_syncStoreListeners m1)\<rparr>
           else m1))"

definition openNewClientSyncChannel :: "bool \<Rightarrow> string \<Rightarrow> storeManager \<Rightarrow> storeManager" where
  "openNewClientSyncChannel canListen channelName m =
     (if gm_get (sm_syncClients m) channelName \<noteq> None then m
      else m\<lparr>sm_clientHeap := sm_clientHeap m @
               [\<lparr>cl_channelName = channelName, cl_listening = canListen, cl_openStores = gm_empty\<rparr>],
             sm_syncClients := gm_set channelName (length (sm_clientHeap m)) (sm_syncClients m)\<rparr>)"

definition closeClientSyncChannel :: "string \<Rightarrow> storeManager \<Rightarrow> storeManager" where
  "closeClientSyncChannel channelName m =
     (case gm_get (sm_syncClients m) channelName of
        None \<Rightarrow> m
      | Some c \<Rightarrow>
          (foldl (\<lambda>m storeId. dropChannel storeId channelName m) m (gm_keys (cl_openStores (sm_clientHeap m ! c))))
            \<lparr>sm_syncClients := gm_del channelName (sm_syncClients m)\<rparr>)"

text \<open>The service's monitor listener.\<close>

definition syncMonitorEvent :: "bool \<Rightarrow> EventType \<Rightarrow> string \<Rightarrow> storeManager \<Rightarrow> storeManager" where
  "syncMonitorEvent canListen t entityName m =
     (if \<not> HasPrefix entityName ''transport-store-sync.'' then m
      else if t = FabricEndpointSubscribeEvt then openNewClientSyncChannel canListen entityName m
      else if t = ChannelDestroyedEvt then closeClientSyncChannel entityName m
      else m)"

definition getStringProperty :: "string \<Rightarrow> (string, gval) gomap \<Rightarrow> string \<times> bool" where
  "getStringProperty i req =
     (case gm_get req i of Some (GString s) \<Rightarrow> (s, True) | _ \<Rightarrow> ([], False))"

definition updClient :: "nat \<Rightarrow> (syncClientChannel \<Rightarrow> syncClientChannel) \<Rightarrow> storeManager \<Rightarrow> storeManager" where
  "updClient c f m = m\<lparr>sm_clientHeap := (sm_clientHeap m)[c := f (sm_clientHeap m ! c)]\<rparr>"

definition openStore :: "nat \<Rightarrow> (string, gval) gomap \<Rightarrow> uuid option \<Rightarrow> storeManager \<Rightarrow> storeManager" where
  "openStore c req reqId m =
     (let channel = cl_channelName (sm_clientHeap m ! c); (storeId, ok) = getStringProperty ''storeId'' req in
      if \<not> ok \<or> storeId = [] then sendErrorResponse channel ''Invalid OpenStoreRequest'' reqId m
      else (case GetStore storeId m of
              None \<Rightarrow> sendErrorResponse channel (''Cannot open non-existing store: '' @ storeId) reqId m
            | Some r \<Rightarrow>
                (let m1 = updClient c (\<lambda>cl. cl\<lparr>cl_openStores := gm_set storeId True (cl_openStores cl)\<rparr>) m;
                     (m2, l) = (case gm_get (sm_syncStoreListeners m1) storeId of
                                  Some l \<Rightarrow> (m1, l)
                                | None \<Rightarrow> (let (m', l) = newSyncStoreListener r m1
                                          in (m'\<lparr>sm_syncStoreListeners := gm_set storeId l (sm_syncStoreListeners m')\<rparr>, l)));
                     m3 = addChannel l channel m2;
                     f = sm_nextFn m3
                 in (setStore r (WhenReady f (storeAt m3 r)) m3)
                      \<lparr>sm_readyFns := gm_set f (channel, r, storeId) (sm_readyFns m3), sm_nextFn := f + 1\<rparr>)))"

definition closeStore :: "nat \<Rightarrow> (string, gval) gomap \<Rightarrow> uuid option \<Rightarrow> storeManager \<Rightarrow> storeManager" where
  "closeStore c req reqId m =
     (let channel = cl_channelName (sm_clientHeap m ! c); (storeId, ok) = getStringProperty ''storeId'' req in
      if \<not> ok \<or> storeId = [] then sendErrorResponse channel ''Invalid CloseStoreRequest'' reqId m
      else dropChannel storeId channel
             (updClient c (\<lambda>cl. cl\<lparr>cl_openStores := gm_del storeId (cl_openStores cl)\<rparr>) m))"

definition updateStore ::
  "storeOracle \<Rightarrow> uuid \<Rightarrow> nat \<Rightarrow> (string, gval) gomap \<Rightarrow> uuid option \<Rightarrow> storeManager \<Rightarrow> storeManager" where
  "updateStore orc newId c req reqId m =
     (let channel = cl_channelName (sm_clientHeap m ! c);
          (storeId, ok) = getStringProperty ''storeId'' req;
          (itemId, ok2) = getStringProperty ''itemId'' req in
      if \<not> ok \<or> storeId = [] then sendErrorResponse channel ''Invalid UpdateStoreRequest: missing storeId'' reqId m
      else if \<not> ok2 \<or> itemId = [] then sendErrorResponse channel ''Invalid UpdateStoreRequest: missing itemId'' reqId m
      else (case GetStore storeId m of
              None \<Rightarrow> sendErrorResponse channel (''Cannot update non-existing store: '' @ storeId) reqId m
            | Some r \<Rightarrow>
                (let rawValue = (case gm_get req ''newItemValue'' of None \<Rightarrow> GNil | Some v \<Rightarrow> v) in
                 if rawValue = GNil
                 then onStore r (\<lambda>s. fst (Remove orc itemId (GString ''galacticStoreSyncRemove'') newId s)) m
                 else (case or_convert orc rawValue of
                         Inl e \<Rightarrow> sendErrorResponse channel
                           (''Cannot deserialize UpdateStoreRequest item value: '' @ e) reqId m
                       | Inr v \<Rightarrow>
                           (if v = GNil
                            then sendErrorResponse channel ''Cannot deserialize UpdateStoreRequest item value'' reqId m
                            else onStore r (Put orc itemId v (GString ''galacticStoreSyncUpdate'') newId) m)))))"

text \<open>The request handler of a client's sync channel.\<close>

definition handleClientRequest :: "storeOracle \<Rightarrow> uuid \<Rightarrow> nat \<Rightarrow> message \<Rightarrow> storeManager \<Rightarrow> storeManager" where
  "handleClientRequest orc newId c msg m =
     (case m_Payload msg of
        GRequestPtr rq \<Rightarrow>
          (case rq_Payload rq of
             GMap req \<Rightarrow>
               (if rq_RequestCommand rq = ''openStore'' then openStore c req (rq_Id rq) m
                else if rq_RequestCommand rq = ''closeStore'' then closeStore c req (rq_Id rq) m
                else if rq_RequestCommand rq = ''updateStore'' then updateStore orc newId c req (rq_Id rq) m
                else m)
           | _ \<Rightarrow> m)
      | _ \<Rightarrow> m)"

end
