(* ===== verification/StoreSyncFacts.thy ===== *)
theory StoreSyncFacts
  imports StoreSync
begin

text \<open>
  What store synchronisation achieves: a galactic store that receives the content and then the
  updates of a local store is a copy of it. And what it misses: a store that is destroyed and
  created again under its name while a client has it open.
\<close>

subsection \<open>Responses as the client reads them\<close>

text \<open>What encoding to JSON and decoding into \<open>any\<close> makes of a value, which fails when the
  value has no JSON form, and of a string, which it leaves alone when it is valid UTF-8.\<close>

record jsonWire =
  wi_value :: "gval \<Rightarrow> gval res"
  wi_string :: "string \<Rightarrow> string"

text \<open>A decoded number is a \<open>float64\<close>: an integer of more than 53 bits is rounded to 53, to the
  even neighbour when it lies in the middle. An \<open>int64\<close> has at most 11 bits too many.\<close>

fun excessBits :: "nat \<Rightarrow> nat \<Rightarrow> nat" where
  "excessBits 0 n = 0"
| "excessBits (Suc k) n = (if n < 2 ^ 53 then 0 else Suc (excessBits k (n div 2)))"

definition float64 :: "int \<Rightarrow> int" where
  "float64 n =
     (let m = nat \<bar>n\<bar>; u = 2 ^ excessBits 11 m; q = m div u; r = m mod u;
          q' = (if u < 2 * r \<or> u = 2 * r \<and> odd q then q + 1 else q)
      in sgn n * int (q' * u))"

lemma eleven: "(11::nat) = Suc (Suc (Suc (Suc (Suc (Suc (Suc (Suc (Suc (Suc (Suc 0))))))))))" by simp

lemma float64_small: "\<bar>n\<bar> < 2 ^ 53 \<Longrightarrow> float64 n = n"
proof -
  assume "\<bar>n\<bar> < 2 ^ 53"
  then have "nat \<bar>n\<bar> < 2 ^ 53" by (simp add: nat_less_iff)
  moreover have "excessBits 11 m = 0" if "m < 2 ^ 53" for m using that by (simp add: eleven)
  ultimately have "excessBits 11 (nat \<bar>n\<bar>) = 0" by blast
  then show ?thesis by (simp add: float64_def sgn_if)
qed

text \<open>Beyond that a version is not kept.\<close>

lemma float64_rounds: "float64 (2 ^ 53 + 1) = 2 ^ 53"
proof -
  have "excessBits 11 9007199254740993 = 1" unfolding eleven by simp
  then show ?thesis by (simp add: float64_def)
qed

text \<open>The JSON objects of the response structs after decoding into a map, by their tags; an
  error when an item cannot be encoded.\<close>

fun wireItems :: "jsonWire \<Rightarrow> (string, gval) gomap \<Rightarrow> (string, gval) gomap res" where
  "wireItems W [] = Inr []"
| "wireItems W ((k, v) # kvs) =
     (case wi_value W v of
        Inl e \<Rightarrow> Inl e
      | Inr w \<Rightarrow> (case wireItems W kvs of Inl e \<Rightarrow> Inl e | Inr rest \<Rightarrow> Inr ((wi_string W k, w) # rest)))"

definition contentFields :: "jsonWire \<Rightarrow> storeContentResponse \<Rightarrow> (string, gval) gomap res" where
  "contentFields W r =
     (case wireItems W (cr_Items r) of
        Inl e \<Rightarrow> Inl e
      | Inr items \<Rightarrow> Inr
          [(''items'', GMap items), (''responseType'', GString ''storeContentResponse''),
           (''storeId'', GString (wi_string W (cr_StoreId r))),
           (''storeVersion'', GFloat (float64 (sint (cr_StoreVersion r))))])"

definition updateFields :: "jsonWire \<Rightarrow> updateStoreResponse \<Rightarrow> (string, gval) gomap res" where
  "updateFields W r =
     (case wi_value W (ur_NewItemValue r) of
        Inl e \<Rightarrow> Inl e
      | Inr w \<Rightarrow> Inr
          [(''itemId'', GString (wi_string W (ur_ItemId r))), (''newItemValue'', w),
           (''responseType'', GString ''updateStoreResponse''),
           (''storeId'', GString (wi_string W (ur_StoreId r))),
           (''storeVersion'', GFloat (float64 (sint (ur_StoreVersion r))))])"

text \<open>A response that cannot be encoded is not sent.\<close>

definition received :: "storeOracle \<Rightarrow> (string, gval) gomap res \<Rightarrow> busStore \<Rightarrow> busStore" where
  "received orc decoded c = (case decoded of Inl e \<Rightarrow> c | Inr resp \<Rightarrow> handleSyncResponse orc resp c)"

text \<open>What a client makes of a value of the server: the wire form, converted to the item type
  of its store. None: the value has no JSON form, or it is null there, or it does not convert.\<close>

definition takenOver :: "storeOracle \<Rightarrow> jsonWire \<Rightarrow> gval \<Rightarrow> gval option" where
  "takenOver orc W v =
     (case wi_value W v of
        Inl e \<Rightarrow> None
      | Inr w \<Rightarrow> if w = GNil then None else (case or_convert orc w of Inl e \<Rightarrow> None | Inr u \<Rightarrow> Some u))"

lemma takenOver_some:
  "takenOver orc W v = Some u \<longleftrightarrow> (\<exists>w. wi_value W v = Inr w \<and> w \<noteq> GNil \<and> or_convert orc w = Inr u)"
  by (auto simp: takenOver_def split: sum.splits)

lemma updateFor_simps [simp]:
  "ur_ItemId (updateFor n c) = sc_Id c" "ur_StoreId (updateFor n c) = n"
  "ur_StoreVersion (updateFor n c) = sc_StoreVersion c"
  "ur_NewItemValue (updateFor n c) = (if sc_IsDeleteChange c then GNil else sc_Value c)"
  by (simp_all add: updateFor_def NewUpdateStoreResponse_def Let_def)

subsection \<open>The copy\<close>

datatype srvOp = SrvPut string gval gval | SrvRemove string gval

fun srvStep :: "storeOracle \<Rightarrow> busStore \<Rightarrow> srvOp \<Rightarrow> busStore" where
  "srvStep orc s (SrvPut i v st) = Put orc i v st 0 s"
| "srvStep orc s (SrvRemove i st) = fst (Remove orc i st 0 s)"

text \<open>The operations that reach a client: those with a valid key and a value it can take over.\<close>

fun opFine :: "storeOracle \<Rightarrow> jsonWire \<Rightarrow> srvOp \<Rightarrow> bool" where
  "opFine cl W (SrvPut i v st) = (wi_string W i = i \<and> takenOver cl W v \<noteq> None)"
| "opFine cl W (SrvRemove i st) = (wi_string W i = i)"

definition clientApply :: "storeOracle \<Rightarrow> jsonWire \<Rightarrow> string \<Rightarrow> (nat \<times> storeChange) list \<Rightarrow> busStore \<Rightarrow> busStore" where
  "clientApply cl W name calls c =
     foldl (\<lambda>c hc. received cl (updateFields W (updateFor name (snd hc))) c) c calls"

definition serverReady :: "nat \<Rightarrow> nat \<Rightarrow> busStore \<Rightarrow> bool" where
  "serverReady r h s \<longleftrightarrow> \<not> st_isGalactic s \<and> st_storeStreams s = [r] \<and>
     st_streamHeap s ! r = \<lparr>ss_handler = Some h, ss_filter = \<lparr>sf_states = [], sf_itemId = [], sf_matchAllItems = True\<rparr>\<rparr>"

definition copyOf :: "storeOracle \<Rightarrow> jsonWire \<Rightarrow> busStore \<Rightarrow> busStore \<Rightarrow> bool" where
  "copyOf cl W c s \<longleftrightarrow> st_isGalactic c \<and> st_name c = st_name s \<and>
     (\<forall>k. Get k c = Option.bind (Get k s) (takenOver cl W)) \<and>
     st_version c = word_of_int (float64 (sint (st_version s)))"

lemma serverReady_view:
  "streamView s' = streamView s \<Longrightarrow> st_isGalactic s' = st_isGalactic s \<Longrightarrow> serverReady r h s \<Longrightarrow> serverReady r h s'"
  by (simp add: serverReady_def streamView_def)

lemma serverReady_calls: "serverReady r h s \<Longrightarrow> streamCalls s c (st_storeStreams s) = [(h, c)]"
  by (simp add: serverReady_def streamCalls_def filterMatch_def List.map_filter_simps)

lemma clientApply_simps [simp]:
  "clientApply cl W name [] c = c"
  "clientApply cl W name (hc # hcs) c =
     clientApply cl W name hcs (received cl (updateFields W (updateFor name (snd hc))) c)"
  by (simp_all add: clientApply_def)

lemma clientApply_append:
  "clientApply cl W name (xs @ ys) c = clientApply cl W name ys (clientApply cl W name xs c)"
  by (simp add: clientApply_def)

text \<open>One message at the client.\<close>

lemma client_put:
  assumes "st_isGalactic c" and "takenOver cl W v = Some u" and "wi_string W i = i"
    and "wi_string W (st_name c) = st_name c" and "name = st_name c"
    and "ch = \<lparr>sc_Id = i, sc_Value = v, sc_State = st, sc_IsDeleteChange = False, sc_StoreVersion = ver\<rparr>"
    and "c' = received cl (updateFields W (updateFor name ch)) c"
  shows "st_isGalactic c' \<and> st_name c' = st_name c \<and> (\<forall>k. Get k c' = (if k = i then Some u else Get k c)) \<and>
     st_version c' = word_of_int (float64 (sint ver))"
proof -
  obtain w where w: "wi_value W v = Inr w" "w \<noteq> GNil" "or_convert cl w = Inr u"
    using assms(2) by (auto simp: takenOver_some)
  show ?thesis unfolding assms(5-7) using assms(1,3,4) w
    by (simp add: received_def updateFields_def handleSyncResponse_def handleStoreUpdate_def Let_def
        case_prod_beta Get_def gm_get_def [of "(_, _) # _"])
      (simp add: updateVersionFromResponse_def gm_get_def [of "(_, _) # _"])
qed

lemma client_remove:
  assumes "st_isGalactic c" and "wi_value W GNil = Inr GNil" and "wi_string W i = i"
    and "wi_string W (st_name c) = st_name c" and "name = st_name c"
    and "ch = \<lparr>sc_Id = i, sc_Value = v, sc_State = st, sc_IsDeleteChange = True, sc_StoreVersion = ver\<rparr>"
    and "c' = received cl (updateFields W (updateFor name ch)) c"
  shows "st_isGalactic c' \<and> st_name c' = st_name c \<and> (\<forall>k. Get k c' = (if k = i then None else Get k c)) \<and>
     st_version c' = word_of_int (float64 (sint ver))"
proof -
  have ver: "st_version (fst (removeInternalContext i s0 x)) = st_version x" if "st_isGalactic x" for s0 x
    using that by (simp add: removeInternalContext_def Let_def split: option.splits)
  show ?thesis unfolding assms(5-7) using assms(1-4)
    by (simp add: received_def updateFields_def handleSyncResponse_def handleStoreUpdate_def Let_def
        case_prod_beta Get_def ver gm_get_def [of "(_, _) # _"])
      (simp add: updateVersionFromResponse_def gm_get_def [of "(_, _) # _"])
qed

lemma copy_step:
  assumes "copyOf cl W c s" and "serverReady r h s" and "opFine cl W op"
    and "wi_value W GNil = Inr GNil" and "wi_string W (st_name s) = st_name s"
  shows "\<exists>calls. st_changeCalls (srvStep orc s op) = st_changeCalls s @ calls \<and>
     copyOf cl W (clientApply cl W (st_name s) calls c) (srvStep orc s op) \<and> serverReady r h (srvStep orc s op)"
proof -
  have c: "st_isGalactic c" "wi_string W (st_name c) = st_name c" "st_name s = st_name c"
    "\<And>k. Get k c = Option.bind (Get k s) (takenOver cl W)"
    using assms(1,5) by (auto simp: copyOf_def)
  show ?thesis
  proof (cases op)
    case (SrvPut i v st)
    let ?ch = "\<lparr>sc_Id = i, sc_Value = v, sc_State = st, sc_IsDeleteChange = False, sc_StoreVersion = st_version s + 1\<rparr>"
    have loc: "\<not> st_isGalactic s" using assms(2) by (simp add: serverReady_def)
    obtain u where u: "takenOver cl W v = Some u" "wi_string W i = i" using assms(3) SrvPut by auto
    have s': "srvStep orc s op = onStoreChange (Some Background) (Some ?ch) (fst (putInternalContext i v st s))"
      using loc SrvPut by (simp add: Put_def PutContext_def Let_def case_prod_beta putInternal_change)
    have rdy: "serverReady r h (fst (putInternalContext i v st s))"
      using serverReady_view [OF _ _ assms(2)] by simp
    have calls: "st_changeCalls (srvStep orc s op) = st_changeCalls s @ [(h, ?ch)]"
      unfolding s' onStoreChange_calls serverReady_calls [OF rdy] by simp
    have "serverReady r h (srvStep orc s op)" unfolding s' by (rule serverReady_view [OF _ _ rdy]) simp_all
    moreover have "copyOf cl W (clientApply cl W (st_name s) [(h, ?ch)] c) (srvStep orc s op)"
      using client_put [OF c(1) u c(2) c(3) refl refl, where st = st and ver = "st_version s + 1"] c(4) c(3) [symmetric] u loc
      unfolding s' by (simp add: copyOf_def Get_def)
    ultimately show ?thesis using calls by blast
  next
    case (SrvRemove i st)
    have loc: "\<not> st_isGalactic s" using assms(2) by (simp add: serverReady_def)
    have i: "wi_string W i = i" using assms(3) SrvRemove by simp
    show ?thesis
    proof (cases "gm_get (st_items s) i")
      case None
      have "srvStep orc s op = s"
        using None SrvRemove loc by (simp add: Remove_def RemoveContext_def Let_def removeInternalContext_def)
      then show ?thesis using assms by (intro exI [of _ "[]"]) simp
    next
      case (Some v)
      let ?ch = "\<lparr>sc_Id = i, sc_Value = v, sc_State = st, sc_IsDeleteChange = True, sc_StoreVersion = st_version s + 1\<rparr>"
      let ?s1 = "fst (removeInternalContext i st s)"
      have ch: "snd (removeInternalContext i st s) = (Some ?ch, True)" and ver: "st_version ?s1 = st_version s + 1"
        using Some loc by (simp_all add: removeInternalContext_def Let_def)
      have s': "srvStep orc s op = onStoreChange (Some Background) (Some ?ch) ?s1"
        using loc SrvRemove ch by (simp add: Remove_def RemoveContext_def Let_def case_prod_beta)
      have rdy: "serverReady r h ?s1" using serverReady_view [OF _ _ assms(2)] by simp
      have calls: "st_changeCalls (srvStep orc s op) = st_changeCalls s @ [(h, ?ch)]"
        unfolding s' onStoreChange_calls serverReady_calls [OF rdy] by simp
      have "serverReady r h (srvStep orc s op)" unfolding s' by (rule serverReady_view [OF _ _ rdy]) simp_all
      moreover have "copyOf cl W (clientApply cl W (st_name s) [(h, ?ch)] c) (srvStep orc s op)"
        using client_remove [OF c(1) assms(4) i c(2) c(3) refl refl, where v = v and st = st and ver = "st_version s + 1" and cl = cl]
          c(4) c(3) [symmetric] ver
        unfolding s' by (simp add: copyOf_def Get_def)
      ultimately show ?thesis using calls by blast
    qed
  qed
qed

lemma srvStep_name: "st_name (srvStep orc s op) = st_name s"
  by (cases op) (auto simp: Put_def PutContext_def putGalactic_def sendUpdateStoreRequest_def Remove_def
      RemoveContext_def removeGalactic_def Let_def case_prod_beta)

lemma copy_run:
  "copyOf cl W c s \<Longrightarrow> serverReady r h s \<Longrightarrow> list_all (opFine cl W) ops \<Longrightarrow>
   wi_value W GNil = Inr GNil \<Longrightarrow> wi_string W (st_name s) = st_name s \<Longrightarrow>
   \<exists>calls. st_changeCalls (foldl (srvStep orc) s ops) = st_changeCalls s @ calls \<and>
     copyOf cl W (clientApply cl W (st_name s) calls c) (foldl (srvStep orc) s ops)"
proof (induction ops arbitrary: s c)
  case Nil
  then show ?case by (intro exI [of _ "[]"]) simp
next
  case (Cons op ops)
  obtain calls where 1: "st_changeCalls (srvStep orc s op) = st_changeCalls s @ calls"
    "copyOf cl W (clientApply cl W (st_name s) calls c) (srvStep orc s op)" "serverReady r h (srvStep orc s op)"
    using copy_step [OF Cons.prems(1,2), of op orc] Cons.prems(3-5) by auto
  obtain calls2 where 2: "st_changeCalls (foldl (srvStep orc) (srvStep orc s op) ops) =
      st_changeCalls (srvStep orc s op) @ calls2"
    "copyOf cl W (clientApply cl W (st_name s) calls2 (clientApply cl W (st_name s) calls c))
      (foldl (srvStep orc) (srvStep orc s op) ops)"
    using Cons.IH [OF 1(2,3)] Cons.prems(3-5) srvStep_name by auto
  show ?case using 1 2 by (intro exI [of _ "calls @ calls2"]) (simp add: clientApply_append)
qed

text \<open>The items of a content response at the client, all of which it can take over.\<close>

definition itemsFine :: "storeOracle \<Rightarrow> jsonWire \<Rightarrow> (string, gval) gomap \<Rightarrow> bool" where
  "itemsFine cl W kvs = list_all (\<lambda>(k, v). wi_string W k = k \<and> takenOver cl W v \<noteq> None) kvs"

lemma wireItems_get:
  "gm_ok kvs \<Longrightarrow> itemsFine cl W kvs \<Longrightarrow>
   \<exists>ws. wireItems W kvs = Inr ws \<and>
     (\<forall>m k. gm_get (convertItems cl ws m) k =
        (case gm_get kvs k of Some v \<Rightarrow> takenOver cl W v | None \<Rightarrow> gm_get m k))"
proof (induction kvs)
  case Nil
  then show ?case by (simp add: gm_get_def)
next
  case (Cons kv kvs)
  obtain k' v where kv: "kv = (k', v)" by (cases kv)
  have ok: "gm_ok kvs" "k' \<notin> fst ` set kvs" using Cons.prems(1) kv by (auto simp: gm_ok_def)
  then have none: "gm_get kvs k' = None" by (simp add: gm_get_def map_of_eq_None_iff)
  obtain ws where ws: "wireItems W kvs = Inr ws"
    "\<And>m k. gm_get (convertItems cl ws m) k = (case gm_get kvs k of Some v \<Rightarrow> takenOver cl W v | None \<Rightarrow> gm_get m k)"
    using Cons.IH ok(1) Cons.prems(2) by (auto simp: itemsFine_def)
  obtain u where u: "takenOver cl W v = Some u" "wi_string W k' = k'"
    using Cons.prems(2) kv by (auto simp: itemsFine_def)
  then obtain w where w: "wi_value W v = Inr w" "or_convert cl w = Inr u" by (auto simp: takenOver_some)
  have "gm_get (convertItems cl ((k', w) # ws) m) k =
      (case gm_get (kv # kvs) k of Some v \<Rightarrow> takenOver cl W v | None \<Rightarrow> gm_get m k)" for m k
    using w ws(2) none u kv by (cases "k = k'") (simp_all add: gm_get_def [of "(k', v) # kvs"] gm_get_def [symmetric] split: option.split)
  then show ?case using ws(1) w u kv by simp
qed

lemma copy_content:
  assumes "st_isGalactic c" and "st_name c = st_name s" and "gm_ok (st_items s)"
    and "itemsFine cl W (st_items s)" and "wi_string W (st_name s) = st_name s"
  shows "copyOf cl W (received cl
     (contentFields W (NewStoreContentResponse (st_name s) (st_items s) (st_version s))) c) s"
proof -
  obtain ws where ws: "wireItems W (st_items s) = Inr ws"
    "\<And>m k. gm_get (convertItems cl ws m) k =
       (case gm_get (st_items s) k of Some v \<Rightarrow> takenOver cl W v | None \<Rightarrow> gm_get m k)"
    using wireItems_get [OF assms(3,4)] by blast
  show ?thesis using assms(1,2,5) ws
    by (simp add: copyOf_def received_def contentFields_def handleSyncResponse_def handleStoreContent_def Let_def
        NewStoreContentResponse_def Get_def gm_get_def [of "(_, _) # _"])
      (auto simp: updateVersionFromResponse_def gm_get_def [of "(_, _) # _"] split: option.splits)
qed

subsection \<open>A listener left on a destroyed store\<close>

lemma onStore_no_streams:
  assumes "st_storeStreams (storeAt m r) = []" and "\<not> st_isGalactic (storeAt m r)"
  shows "sm_out (onStore r (Put orc i v st n) m) = sm_out m"
proof -
  let ?s = "storeAt m r"
  have "st_changeCalls (Put orc i v st n ?s) = st_changeCalls ?s @ streamCalls ?s (snd (putInternalContext i v st ?s)) []"
    using Put_calls [OF assms(2), of "Some Background" orc i v st n] assms(1) by (simp add: Put_def)
  then have "st_changeCalls (Put orc i v st n ?s) = st_changeCalls ?s"
    by (simp add: streamCalls_def List.map_filter_simps)
  then show ?thesis by (simp add: onStore_def Let_def setStore_def)
qed

lemma openStore_existing_listener:
  assumes "gm_get req ''storeId'' = Some (GString name)" and "name \<noteq> []"
    and "GetStore name m = Some r" and "gm_get (sm_syncStoreListeners m) name = Some l"
    and "r < length (sm_heap m)"
  shows "st_storeStreams (storeAt (openStore c req reqId m) r) = st_storeStreams (storeAt m r) \<and>
     st_isGalactic (storeAt (openStore c req reqId m) r) = st_isGalactic (storeAt m r) \<and>
     sm_out (openStore c req reqId m) = sm_out m"
  using assms
  by (simp add: openStore_def getStringProperty_def Let_def updClient_def addChannel_def updListener_def
      setStore_def storeAt_def WhenReady_def)

subsection \<open>Properties\<close>


definition demoServer :: busStore where
  "demoServer = foldl (storeStep plainOracle) (emptyStore plainOracle ''s'')
     [SPut None ''a'' (GInt 1) GNil 0, SOnAllChanges [], SSubscribe 0 (Some 5)]"

definition demoClient :: busStore where
  "demoClient = newBusStore plainOracle ''s''
     (Some \<lparr>gc_topicPrefix = ''/topic/'', gc_pubPrefix = ''/pub/'', gc_syncChannelName = ''sync''\<rparr>) (Inr 0) 1"

text \<open>A wire on which a number comes back as a float, and a client that takes any value.\<close>

definition plainWire :: jsonWire where
  "plainWire = \<lparr>wi_value = (\<lambda>v. case v of GInt n \<Rightarrow> Inr (GFloat (float64 n)) | GOther n \<Rightarrow> Inl ''json: unsupported type'' | v \<Rightarrow> Inr v),
     wi_string = (\<lambda>s. s)\<rparr>"

lemma takenOver_int: "takenOver plainOracle plainWire (GInt n) = Some (GFloat (float64 n))"
  by (simp add: takenOver_def plainWire_def plainOracle_def)


text \<open>A store created again under the name of a destroyed one is not forwarded. As long as
  the service keeps the listener of the old store object under the name, a client that opens
  the store afterwards is added to that listener, and a put on the new store sends it nothing.\<close>

theorem stale_listener_misses_updates:
  assumes "gm_get req ''storeId'' = Some (GString name)" and "name \<noteq> []"
    and "GetStore name m = Some r" and "r < length (sm_heap m)"
    and "gm_get (sm_syncStoreListeners m) name = Some l"
    and "st_storeStreams (storeAt m r) = []" and "\<not> st_isGalactic (storeAt m r)"
  shows "sm_out (onStore r (Put orc i v st n) (openStore c req reqId m)) = sm_out m"
  using openStore_existing_listener [OF assms(1-3,5,4)] assms(6,7) onStore_no_streams by simp

text \<open>How it comes about: a client opens the store, the store is destroyed and created again.\<close>

definition openReq :: "(string, gval) gomap" where "openReq = [(''storeId'', GString ''s'')]"

definition staleManager :: storeManager where
  "staleManager =
     fst (CreateStore plainOracle ''s'' (fst (DestroyStore plainOracle 0 ''s''
       (openStore 0 openReq None
         (openNewClientSyncChannel True ''transport-store-sync.1''
           (fst (CreateStore plainOracle ''s'' NewManager)))))))"

lemma stale_listener_misses_updates_witness:
  "sm_out (onStore 1 (Put plainOracle ''k'' (GInt 1) GNil 0) (openStore 0 openReq None staleManager)) = []"
proof -
  have "gm_get openReq ''storeId'' = Some (GString ''s'')" "''s'' \<noteq> []" "GetStore ''s'' staleManager = Some 1"
    "1 < length (sm_heap staleManager)" "gm_get (sm_syncStoreListeners staleManager) ''s'' = Some 0"
    "st_storeStreams (storeAt staleManager 1) = []" "\<not> st_isGalactic (storeAt staleManager 1)"
    "sm_out staleManager = []"
    by code_simp+
  then show ?thesis using stale_listener_misses_updates by simp
qed

end
