(* ===== verification/StompConn.thy ===== *)
theory StompConn
  imports Prelude
begin

text \<open>
  stompserver/config.go, errors.go and stomp_connection.go: the configuration, the middleware
  chain and one server-side STOMP connection. The headers of a frame are an abstract type of
  the STOMP library; the operations on them are the record \<open>headerOps\<close>, and what the code
  relies on is \<open>headerLaws\<close>. Times are in milliseconds, as integers far below the overflow of
  \<open>time.Duration\<close>. What is written to the client and what is sent to the server's event
  channel are logs of the connection.
\<close>

subsection \<open>Frames of the STOMP library\<close>

record 'h headerOps =
  ho_new :: "(string \<times> string) list \<Rightarrow> 'h"
  ho_contains :: "'h \<Rightarrow> string \<Rightarrow> string option"
  ho_get :: "'h \<Rightarrow> string \<Rightarrow> string"
  ho_add :: "'h \<Rightarrow> string \<Rightarrow> string \<Rightarrow> 'h"
  ho_set :: "'h \<Rightarrow> string \<Rightarrow> string \<Rightarrow> 'h"
  ho_del :: "'h \<Rightarrow> string \<Rightarrow> 'h"

definition headerLaws :: "'h headerOps \<Rightarrow> bool" where
  "headerLaws ho \<longleftrightarrow>
     (\<forall>kvs k. ho_contains ho (ho_new ho kvs) k = map_of kvs k) \<and>
     (\<forall>h k. ho_get ho h k = (case ho_contains ho h k of None \<Rightarrow> [] | Some v \<Rightarrow> v)) \<and>
     (\<forall>h k v k'. ho_contains ho (ho_set ho h k v) k' = (if k' = k then Some v else ho_contains ho h k')) \<and>
     (\<forall>h k k'. ho_contains ho (ho_del ho h k) k' = (if k' = k then None else ho_contains ho h k')) \<and>
     (\<forall>h k v k'. ho_contains ho (ho_add ho h k v) k' =
        (if k' = k \<and> ho_contains ho h k = None then Some v else ho_contains ho h k'))"

record 'h stompFrame =
  fr_Command :: string
  fr_Header :: 'h
  fr_Body :: string

definition frameNew :: "'h headerOps \<Rightarrow> string \<Rightarrow> (string \<times> string) list \<Rightarrow> 'h stompFrame" where
  "frameNew ho cmd kvs = \<lparr>fr_Command = cmd, fr_Header = ho_new ho kvs, fr_Body = []\<rparr>"

subsection \<open>Errors and configuration\<close>

definition notConnectedStompError :: err where "notConnectedStompError = ''not connected''"
definition unexpectedStompCommandError :: err where "unexpectedStompCommandError = ''unexpected frame command''"
definition unsupportedStompCommandError :: err where "unsupportedStompCommandError = ''unsupported command''"
definition unsupportedStompVersionError :: err where "unsupportedStompVersionError = ''unsupported STOMP version''"
definition invalidSubscriptionError :: err where "invalidSubscriptionError = ''invalid Subscription''"
definition invalidFrameError :: err where "invalidFrameError = ''invalid frame''"
definition invalidHeaderError :: err where "invalidHeaderError = ''invalid frame header''"
definition invalidSendDestinationError :: err where "invalidSendDestinationError = ''invalid send destination''"

record authInfo =
  au_Username :: string
  au_Id :: int
  au_Roles :: "string list"

definition HasRole :: "authInfo \<Rightarrow> string \<Rightarrow> bool" where
  "HasRole a role = list_ex (\<lambda>r. r = role) (au_Roles a)"

record subscription =
  su_id :: string
  su_destination :: string

datatype connState = Connecting | Connected | Closed

fun connStateIndex :: "connState \<Rightarrow> nat" where
  "connStateIndex Connecting = 0"
| "connStateIndex Connected = 1"
| "connStateIndex Closed = 2"

instantiation connState :: linorder
begin

definition less_eq_connState :: "connState \<Rightarrow> connState \<Rightarrow> bool" where
  "less_eq_connState s t = (connStateIndex s \<le> connStateIndex t)"

definition less_connState :: "connState \<Rightarrow> connState \<Rightarrow> bool" where
  "less_connState s t = (connStateIndex s < connStateIndex t)"

instance
proof
  fix s t u :: connState
  show "s < t \<longleftrightarrow> s \<le> t \<and> \<not> t \<le> s" by (auto simp: less_eq_connState_def less_connState_def)
  show "s \<le> s" by (simp add: less_eq_connState_def)
  show "s \<le> t \<Longrightarrow> t \<le> u \<Longrightarrow> s \<le> u" by (simp add: less_eq_connState_def)
  show "s \<le> t \<Longrightarrow> t \<le> s \<Longrightarrow> s = t" by (cases s; cases t) (simp_all add: less_eq_connState_def)
  show "s \<le> t \<or> t \<le> s" by (auto simp: less_eq_connState_def)
qed

end

datatype sessionEvent =
    ConnectionStarting
  | ConnectionEstablished
  | ConnectionClosed
  | SubscribeToTopic
  | UnsubscribeFromTopic
  | IncomingMessage

record 'h connEvent =
  ce_ConnId :: string
  ce_eventType :: sessionEvent
  ce_destination :: string
  ce_sub :: "subscription option"
  ce_frame :: "'h stompFrame option"

text \<open>A written frame is \<open>None\<close> for a heart-beat.\<close>

record 'h stompConn =
  sn_state :: connState
  sn_version :: string
  sn_readTimeoutMs :: int
  sn_writeTimeout :: int
  sn_id :: string
  sn_ipAddress :: string
  sn_subscriptions :: "(string, subscription) gomap"
  sn_currentMessageId :: "64 word"
  sn_outFrames :: "'h stompFrame list"
  sn_done :: bool
  sn_running :: bool
  sn_written :: "'h stompFrame option list"
  sn_events :: "'h connEvent list"

type_synonym 'h frameHandler = "'h stompFrame \<Rightarrow> 'h stompConn \<Rightarrow> 'h stompConn \<times> err option"
type_synonym 'h middleware = "'h frameHandler \<Rightarrow> 'h frameHandler"

record 'h stompConfig =
  cf_heartbeat :: "64 word"
  cf_appDestPrefix :: "string list"
  cf_middleware :: "(string, 'h middleware list) gomap"

definition NewStompConfig :: "64 word \<Rightarrow> string list \<Rightarrow> 'h stompConfig" where
  "NewStompConfig heartBeatMs prefixes =
     \<lparr>cf_heartbeat = heartBeatMs,
      cf_appDestPrefix = map (\<lambda>p. if p \<noteq> [] \<and> \<not> HasSuffix p ''/'' then p @ ''/'' else p) prefixes,
      cf_middleware = [(''*'', [])]\<rparr>"

definition SetMiddlewareRegistry :: "(string, 'h middleware list) gomap \<Rightarrow> 'h stompConfig \<Rightarrow> 'h stompConfig" where
  "SetMiddlewareRegistry reg c = c\<lparr>cf_middleware := reg\<rparr>"

definition IsAppRequestDestination :: "'h stompConfig \<Rightarrow> string \<Rightarrow> bool" where
  "IsAppRequestDestination c destination =
     list_ex (\<lambda>prefix. prefix \<noteq> [] \<and> HasPrefix destination prefix) (cf_appDestPrefix c)"

subsection \<open>Middleware\<close>

fun chainFrom :: "nat \<Rightarrow> 'h middleware list \<Rightarrow> 'h frameHandler \<Rightarrow> 'h frameHandler" where
  "chainFrom 0 mws final = final"
| "chainFrom (Suc i) mws final = chainFrom i mws ((mws ! i) final)"

definition ChainMiddleware :: "'h middleware list \<Rightarrow> 'h frameHandler \<Rightarrow> 'h frameHandler" where
  "ChainMiddleware mws final = chainFrom (length mws) mws final"

definition ChainCommandMiddleware ::
  "(string, 'h middleware list) gomap \<Rightarrow> string \<Rightarrow> 'h frameHandler \<Rightarrow> 'h frameHandler" where
  "ChainCommandMiddleware reg command coreHandler =
     (let global = (case gm_get reg ''*'' of None \<Rightarrow> [] | Some ms \<Rightarrow> ms);
          specific = (case gm_get reg command of None \<Rightarrow> [] | Some ms \<Rightarrow> ms)
      in ChainMiddleware (global @ specific) coreHandler)"

subsection \<open>The connection's own operations\<close>

definition newStompConn :: "string \<Rightarrow> string \<Rightarrow> 'h stompConn" where
  "newStompConn newId addr =
     \<lparr>sn_state = Connecting, sn_version = [], sn_readTimeoutMs = 0, sn_writeTimeout = 0, sn_id = newId,
      sn_ipAddress = addr, sn_subscriptions = gm_empty, sn_currentMessageId = 0, sn_outFrames = [],
      sn_done = False, sn_running = True, sn_written = [], sn_events = []\<rparr>"

definition GetSubscriptions :: "'h stompConn \<Rightarrow> (string, subscription) gomap" where
  "GetSubscriptions c = sn_subscriptions c"

definition AddSubscription :: "string \<Rightarrow> string \<Rightarrow> 'h stompConn \<Rightarrow> 'h stompConn \<times> subscription \<times> bool" where
  "AddSubscription i dest c =
     (case gm_get (sn_subscriptions c) i of
        Some s \<Rightarrow> (c, s, False)
      | None \<Rightarrow>
          (let s = \<lparr>su_id = i, su_destination = dest\<rparr>
           in (c\<lparr>sn_subscriptions := gm_set i s (sn_subscriptions c)\<rparr>, s, True)))"

definition RemoveSubscription :: "string \<Rightarrow> 'h stompConn \<Rightarrow> 'h stompConn \<times> subscription option" where
  "RemoveSubscription i c =
     (case gm_get (sn_subscriptions c) i of
        None \<Rightarrow> (c, None)
      | Some s \<Rightarrow> (c\<lparr>sn_subscriptions := gm_del i (sn_subscriptions c)\<rparr>, Some s))"

text \<open>What the environment does during a step: the result of the write to the client, whether
  the server's event loop takes an event before the time limit or its end, and whether another
  goroutine closes the connection after the handler has tested the state.\<close>

record stepEnv =
  en_write :: "err option"
  en_event :: bool
  en_closes :: bool

text \<open>A write on a connection that has been closed fails.\<close>

definition writeFrame :: "stepEnv \<Rightarrow> 'h stompFrame option \<Rightarrow> 'h stompConn \<Rightarrow> 'h stompConn \<times> err option" where
  "writeFrame env f c =
     (if sn_done c then (c, Some ''use of closed network connection'')
      else case en_write env of
             Some e \<Rightarrow> (c, Some e)
           | None \<Rightarrow> (c\<lparr>sn_written := sn_written c @ [f]\<rparr>, None))"

definition sendEvent :: "stepEnv \<Rightarrow> 'h connEvent \<Rightarrow> 'h stompConn \<Rightarrow> 'h stompConn" where
  "sendEvent env ev c = (if en_event env then c\<lparr>sn_events := sn_events c @ [ev]\<rparr> else c)"

definition eventOf :: "'h stompConn \<Rightarrow> sessionEvent \<Rightarrow> string \<Rightarrow> subscription option \<Rightarrow> 'h stompFrame option \<Rightarrow> 'h connEvent" where
  "eventOf c t dest s f = \<lparr>ce_ConnId = sn_id c, ce_eventType = t, ce_destination = dest, ce_sub = s, ce_frame = f\<rparr>"

definition connClose :: "stepEnv \<Rightarrow> 'h stompConn \<Rightarrow> 'h stompConn" where
  "connClose env c =
     (if sn_done c then c
      else sendEvent env (eventOf c ConnectionClosed [] None None) (c\<lparr>sn_state := Closed, sn_done := True\<rparr>))"

definition closedMeanwhile :: "stepEnv \<Rightarrow> 'h stompConn \<Rightarrow> 'h stompConn" where
  "closedMeanwhile env c = (if en_closes env then connClose env c else c)"

text \<open>\<open>taken\<close>: the select takes the send; it may only when the queue of 32 has room, and must
  not block when the connection is done.\<close>

definition SendFrameToSubscription ::
  "'h headerOps \<Rightarrow> bool \<Rightarrow> 'h stompFrame \<Rightarrow> subscription \<Rightarrow> 'h stompConn \<Rightarrow> 'h stompConn" where
  "SendFrameToSubscription ho taken f s c =
     (if taken \<and> length (sn_outFrames c) < 32
      then c\<lparr>sn_outFrames := sn_outFrames c @ [f\<lparr>fr_Header := ho_add ho (fr_Header f) ''subscription'' (su_id s)\<rparr>]\<rparr>
      else c)"

definition SendError :: "'h headerOps \<Rightarrow> stepEnv \<Rightarrow> err \<Rightarrow> 'h stompConn \<Rightarrow> 'h stompConn" where
  "SendError ho env e c = fst (writeFrame env (Some (frameNew ho ''ERROR'' [(''message'', e)])) c)"

definition SendConnMessage :: "'h headerOps \<Rightarrow> stepEnv \<Rightarrow> string \<Rightarrow> 'h stompConn \<Rightarrow> 'h stompConn" where
  "SendConnMessage ho env msg c = fst (writeFrame env (Some (frameNew ho ''MESSAGE'' [(''message'', msg)])) c)"

subsection \<open>Version and heart-beat\<close>

fun firstSupported :: "string list \<Rightarrow> string list \<Rightarrow> string option" where
  "firstSupported [] versions = None"
| "firstSupported (sv # svs) versions =
     (if list_ex (\<lambda>v. v = sv) versions then Some sv else firstSupported svs versions)"

definition determineVersion :: "'h headerOps \<Rightarrow> 'h stompFrame \<Rightarrow> string res" where
  "determineVersion ho f =
     (case ho_contains ho (fr_Header f) ''accept-version'' of
        None \<Rightarrow> Inr ''1.0''
      | Some acceptVersion \<Rightarrow>
          (case firstSupported [''1.2'', ''1.1'', ''1.0''] (splitOn (CHR '','') acceptVersion) of
             Some v \<Rightarrow> Inr v
           | None \<Rightarrow> Inl unsupportedStompVersionError))"

text \<open>\<open>parse\<close> is the library's \<open>ParseHeartBeat\<close>. A \<open>time.Duration\<close> is a number of nanoseconds.\<close>

definition getHeartBeat :: "'h headerOps \<Rightarrow> (string \<Rightarrow> (int \<times> int) res) \<Rightarrow> 'h stompFrame \<Rightarrow> (int \<times> int) res" where
  "getHeartBeat ho parse f =
     (case ho_contains ho (fr_Header f) ''heart-beat'' of
        Some hb \<Rightarrow> parse hb
      | None \<Rightarrow> Inr (0, 0))"

definition maxHeartBeatDuration :: int where "maxHeartBeatDuration = 999999999 * 1000000"

text \<open>The configured heart-beat is an \<open>int64\<close> of milliseconds; the product that makes it a duration wraps. A duration
  over \<open>time.Millisecond\<close> is truncated towards zero.\<close>

definition minHeartBeat :: "'h stompConfig \<Rightarrow> int" where
  "minHeartBeat cfg =
     (let d = sint (cf_heartbeat cfg * 1000000) in if d > maxHeartBeatDuration then maxHeartBeatDuration else d)"

definition inMilliseconds :: "int \<Rightarrow> int" where
  "inMilliseconds d = sgn d * (\<bar>d\<bar> div 1000000)"

definition clampHeartBeat :: "int \<Rightarrow> int \<Rightarrow> int" where
  "clampHeartBeat minHb x = (if x > 0 \<and> (minHb = 0 \<or> x < minHb) then minHb else x)"

definition containsHeader :: "'h headerOps \<Rightarrow> 'h stompFrame \<Rightarrow> string list \<Rightarrow> bool" where
  "containsHeader ho f headers = list_ex (\<lambda>h. ho_contains ho (fr_Header f) h \<noteq> None) headers"

subsection \<open>The frame handlers\<close>

definition handleConnect ::
  "'h headerOps \<Rightarrow> (string \<Rightarrow> (int \<times> int) res) \<Rightarrow> 'h stompConfig \<Rightarrow> stepEnv \<Rightarrow> 'h stompFrame
     \<Rightarrow> 'h stompConn \<Rightarrow> 'h stompConn \<times> err option" where
  "handleConnect ho parse cfg env f c =
     (if sn_state c = Connected then (c, Some unexpectedStompCommandError)
      else if containsHeader ho f [''receipt''] then (c, Some invalidHeaderError)
      else (case determineVersion ho f of
              Inl e \<Rightarrow> (c\<lparr>sn_version := []\<rparr>, Some e)
            | Inr v \<Rightarrow>
                (let c1 = c\<lparr>sn_version := v\<rparr> in
                 if v = ''1.0'' then (c1, Some unsupportedStompVersionError)
                 else (case getHeartBeat ho parse f of
                         Inl e \<Rightarrow> (c1, Some e)
                       | Inr (cx0, cy0) \<Rightarrow>
                           (let cxDuration = clampHeartBeat (minHeartBeat cfg) cx0;
                                cyDuration = clampHeartBeat (minHeartBeat cfg) cy0;
                                cx = inMilliseconds cxDuration; cy = inMilliseconds cyDuration;
                                c2 = c1\<lparr>sn_writeTimeout := cyDuration, sn_readTimeoutMs := cx\<rparr>;
                                response = frameNew ho ''CONNECTED''
                                  [(''version'', v), (''server'', ''pb33f-ranch/0.0.1''),
                                   (''heart-beat'', itoa cy @ '','' @ itoa cx)]
                            in (case writeFrame env (Some response) c2 of
                                  (c3, Some e) \<Rightarrow> (c3, Some e)
                                | (c3, None) \<Rightarrow>
                                    (sendEvent env (eventOf c3 ConnectionEstablished [] None None)
                                       ((closedMeanwhile env c3)\<lparr>sn_state := Connected\<rparr>), None)))))))"

definition sendReceiptResponse ::
  "'h headerOps \<Rightarrow> stepEnv \<Rightarrow> 'h stompFrame \<Rightarrow> 'h stompConn \<Rightarrow> 'h stompFrame \<times> 'h stompConn \<times> err option" where
  "sendReceiptResponse ho env f c =
     (case ho_contains ho (fr_Header f) ''receipt'' of
        None \<Rightarrow> (f, c, None)
      | Some receipt \<Rightarrow>
          (let f1 = f\<lparr>fr_Header := ho_del ho (fr_Header f) ''receipt''\<rparr>;
               (c1, e) = writeFrame env (Some (frameNew ho ''RECEIPT'' [(''receipt-id'', receipt)])) c
           in (f1, c1, e)))"

definition handleDisconnect ::
  "'h headerOps \<Rightarrow> stepEnv \<Rightarrow> 'h stompFrame \<Rightarrow> 'h stompConn \<Rightarrow> 'h stompConn \<times> err option" where
  "handleDisconnect ho env f c =
     (if sn_state c = Connecting then (c, Some notConnectedStompError)
      else (case sendReceiptResponse ho env f c of
              (f1, c1, Some e) \<Rightarrow> (c1, Some e)
            | (f1, c1, None) \<Rightarrow> (connClose env c1, None)))"

definition coreSubscribeHandler :: "stepEnv \<Rightarrow> string \<Rightarrow> string \<Rightarrow> 'h frameHandler" where
  "coreSubscribeHandler env subId dest f c =
     (let (c1, s, added) = AddSubscription subId dest c in
      if \<not> added then (c1, None)
      else (sendEvent env (eventOf c1 SubscribeToTopic dest (Some s) (Some f)) c1, None))"

definition handleSubscribe ::
  "'h headerOps \<Rightarrow> 'h stompConfig \<Rightarrow> stepEnv \<Rightarrow> 'h stompFrame \<Rightarrow> 'h stompConn \<Rightarrow> 'h stompConn \<times> err option" where
  "handleSubscribe ho cfg env f c =
     (case sn_state c of
        Connecting \<Rightarrow> (c, Some notConnectedStompError)
      | Closed \<Rightarrow> (c, None)
      | Connected \<Rightarrow>
          (case ho_contains ho (fr_Header f) ''id'' of
             None \<Rightarrow> (c, Some invalidSubscriptionError)
           | Some subId \<Rightarrow>
               (case ho_contains ho (fr_Header f) ''destination'' of
                  None \<Rightarrow> (c, Some invalidFrameError)
                | Some dest \<Rightarrow>
                    ChainCommandMiddleware (cf_middleware cfg) ''SUBSCRIBE''
                      (coreSubscribeHandler env subId dest) f (closedMeanwhile env c))))"

definition handleUnsubscribe ::
  "'h headerOps \<Rightarrow> stepEnv \<Rightarrow> 'h stompFrame \<Rightarrow> 'h stompConn \<Rightarrow> 'h stompConn \<times> err option" where
  "handleUnsubscribe ho env f c =
     (case sn_state c of
        Connecting \<Rightarrow> (c, Some notConnectedStompError)
      | Closed \<Rightarrow> (c, None)
      | Connected \<Rightarrow>
          (case ho_contains ho (fr_Header f) ''id'' of
             None \<Rightarrow> (c, Some invalidSubscriptionError)
           | Some i \<Rightarrow>
               (case sendReceiptResponse ho env f (closedMeanwhile env c) of
                  (f1, c1, Some e) \<Rightarrow> (c1, Some e)
                | (f1, c1, None) \<Rightarrow>
                    (case RemoveSubscription i c1 of
                       (c2, None) \<Rightarrow> (c2, None)
                     | (c2, Some s) \<Rightarrow>
                         (sendEvent env (eventOf c2 UnsubscribeFromTopic (su_destination s) (Some s) None) c2, None)))))"

definition handleSend ::
  "'h headerOps \<Rightarrow> 'h stompConfig \<Rightarrow> stepEnv \<Rightarrow> 'h stompFrame \<Rightarrow> 'h stompConn \<Rightarrow> 'h stompConn \<times> err option" where
  "handleSend ho cfg env f c =
     (case sn_state c of
        Connecting \<Rightarrow> (c, Some notConnectedStompError)
      | Closed \<Rightarrow> (c, None)
      | Connected \<Rightarrow>
          (if containsHeader ho f [''transaction''] then (c, Some unsupportedStompCommandError)
           else (case ho_contains ho (fr_Header f) ''destination'' of
                   None \<Rightarrow> (c, Some invalidFrameError)
                 | Some dest \<Rightarrow>
                     (if \<not> IsAppRequestDestination cfg (ho_get ho (fr_Header f) ''destination'')
                      then (c, Some invalidSendDestinationError)
                      else (case sendReceiptResponse ho env f (closedMeanwhile env c) of
                              (f1, c1, Some e) \<Rightarrow> (c1, Some e)
                            | (f1, c1, None) \<Rightarrow>
                                (sendEvent env (eventOf c1 IncomingMessage dest None
                                   (Some (f1\<lparr>fr_Command := ''MESSAGE''\<rparr>))) c1, None))))))"

definition handleIncomingFrame ::
  "'h headerOps \<Rightarrow> (string \<Rightarrow> (int \<times> int) res) \<Rightarrow> 'h stompConfig \<Rightarrow> stepEnv \<Rightarrow> 'h stompFrame
     \<Rightarrow> 'h stompConn \<Rightarrow> 'h stompConn \<times> err option" where
  "handleIncomingFrame ho parse cfg env f c =
     (if fr_Command f = ''CONNECT'' \<or> fr_Command f = ''STOMP'' then handleConnect ho parse cfg env f c
      else if fr_Command f = ''DISCONNECT'' then handleDisconnect ho env f c
      else if fr_Command f = ''SEND'' then handleSend ho cfg env f c
      else if fr_Command f = ''SUBSCRIBE'' then handleSubscribe ho cfg env f c
      else if fr_Command f = ''UNSUBSCRIBE'' then handleUnsubscribe ho env f c
      else (c, Some unsupportedStompCommandError))"

definition populateMessageIdHeader ::
  "'h headerOps \<Rightarrow> 'h stompFrame \<Rightarrow> 'h stompConn \<Rightarrow> 'h stompFrame \<times> 'h stompConn" where
  "populateMessageIdHeader ho f c =
     (if fr_Command f = ''MESSAGE'' then
        (let n = sn_currentMessageId c + 1
         in (f\<lparr>fr_Header := ho_del ho (ho_set ho (fr_Header f) ''message-id'' (digitsOf (unat n))) ''ack''\<rparr>,
             c\<lparr>sn_currentMessageId := n\<rparr>))
      else (f, c))"

subsection \<open>The loop\<close>

text \<open>One round of \<open>run\<close> for each case of its select, and the calls that other goroutines
  make. The loop tests the state at its head; a frame can still arrive between the test and the
  select, so \<open>InFrame\<close> is possible in any state while the loop runs. Leaving the loop closes
  the connection. What a middleware may do is reach the connection through its interface, and
  call the handler it wraps.\<close>

datatype 'h connStepEv =
    InFrame stepEnv "'h stompFrame"
  | InClosed stepEnv
  | OutFrame stepEnv
  | HeartBeatTimer stepEnv
  | LoopHead stepEnv
  | CallClose stepEnv
  | CallSend bool "'h stompFrame" subscription

inductive ifaceStep :: "'h headerOps \<Rightarrow> 'h stompConn \<Rightarrow> 'h stompConn \<Rightarrow> bool" for ho where
  iface_close: "ifaceStep ho c (connClose env c)"
| iface_send: "ifaceStep ho c (SendFrameToSubscription ho taken f s c)"
| iface_add: "ifaceStep ho c (fst (AddSubscription i dest c))"
| iface_remove: "ifaceStep ho c (fst (RemoveSubscription i c))"
| iface_error: "ifaceStep ho c (SendError ho env e c)"
| iface_message: "ifaceStep ho c (SendConnMessage ho env msg c)"

definition mwRun :: "'h headerOps \<Rightarrow> 'h frameHandler \<Rightarrow> 'h stompConn \<Rightarrow> 'h stompConn \<Rightarrow> bool" where
  "mwRun ho h = (\<lambda>c c'. ifaceStep ho c c' \<or> (\<exists>f. c' = fst (h f c)))\<^sup>*\<^sup>*"

definition middlewareLaw :: "'h headerOps \<Rightarrow> 'h stompConfig \<Rightarrow> bool" where
  "middlewareLaw ho cfg \<longleftrightarrow>
     (\<forall>k mws mw h f c. gm_get (cf_middleware cfg) k = Some mws \<longrightarrow> mw \<in> set mws \<longrightarrow> mwRun ho h c (fst (mw h f c)))"

definition leaveLoop :: "stepEnv \<Rightarrow> 'h stompConn \<Rightarrow> 'h stompConn" where
  "leaveLoop env c = connClose env (c\<lparr>sn_running := False\<rparr>)"

fun connStep ::
  "'h headerOps \<Rightarrow> (string \<Rightarrow> (int \<times> int) res) \<Rightarrow> 'h stompConfig \<Rightarrow> 'h stompConn \<Rightarrow> 'h connStepEv \<Rightarrow> 'h stompConn" where
  "connStep ho parse cfg c (InFrame env f) =
     (if sn_running c then
        (case handleIncomingFrame ho parse cfg env f c of
           (c1, None) \<Rightarrow> c1
         | (c1, Some e) \<Rightarrow> leaveLoop env (SendError ho env e c1))
      else c)"
| "connStep ho parse cfg c (InClosed env) = (if sn_running c then leaveLoop env c else c)"
| "connStep ho parse cfg c (OutFrame env) =
     (if sn_running c then
        (case sn_outFrames c of
           [] \<Rightarrow> c
         | f # fs \<Rightarrow>
             (let (f1, c1) = populateMessageIdHeader ho f (c\<lparr>sn_outFrames := fs\<rparr>);
                  (c2, e) = writeFrame env (Some f1) c1
              in if e \<noteq> None \<or> fr_Command f1 = ''ERROR'' then leaveLoop env c2 else c2))
      else c)"
| "connStep ho parse cfg c (HeartBeatTimer env) =
     (if sn_running c \<and> sn_writeTimeout c > 0 then
        (let (c1, e) = writeFrame env None c in if e \<noteq> None then leaveLoop env c1 else c1)
      else c)"
| "connStep ho parse cfg c (LoopHead env) =
     (if sn_running c \<and> sn_state c = Closed then leaveLoop env c else c)"
| "connStep ho parse cfg c (CallClose env) = connClose env c"
| "connStep ho parse cfg c (CallSend taken f s) = SendFrameToSubscription ho taken f s c"

end
