(* ===== verification/StompServer.thy ===== *)
theory StompServer
  imports StompConn
begin

text \<open>
  stompserver/server.go: the STOMP server. Connection objects live in a heap by their id; the
  maps of the server hold ids. Queued events and the calls of the registered callbacks are
  lists; senders that wait for room in a channel count as queued. \<open>serverStep\<close> composes the
  server with its connections: what a connection announces is queued for the event loop.
\<close>

subsection \<open>net.SplitHostPort\<close>

definition SplitHostPort :: "string \<Rightarrow> (string \<times> string) res" where
  "SplitHostPort hp =
     (case lastIndexByte hp (CHR '':'') of
        None \<Rightarrow> Inl ''missing port in address''
      | Some i \<Rightarrow>
          (if hd hp = CHR ''['' then
             (case indexByte hp (CHR '']'') of
                None \<Rightarrow> Inl ''missing ']' in address''
              | Some e \<Rightarrow>
                  (if e + 1 = length hp then Inl ''missing port in address''
                   else if e + 1 \<noteq> i then
                     Inl (if hp ! (e + 1) = CHR '':'' then ''too many colons in address'' else ''missing port in address'')
                   else if indexByte (drop 1 hp) (CHR ''['') \<noteq> None then Inl ''unexpected '[' in address''
                   else if indexByte (drop (e + 1) hp) (CHR '']'') \<noteq> None then Inl ''unexpected ']' in address''
                   else Inr (take (e - 1) (drop 1 hp), drop (i + 1) hp)))
           else if indexByte (take i hp) (CHR '':'') \<noteq> None then Inl ''too many colons in address''
           else if indexByte hp (CHR ''['') \<noteq> None then Inl ''unexpected '[' in address''
           else if indexByte hp (CHR '']'') \<noteq> None then Inl ''unexpected ']' in address''
           else Inr (take i hp, drop (i + 1) hp)))"

definition extractIPFromAddress :: "string \<Rightarrow> string" where
  "extractIPFromAddress address = (case SplitHostPort address of Inl e \<Rightarrow> address | Inr (host, port) \<Rightarrow> host)"

subsection \<open>State\<close>

datatype 'h apiEvent =
    CloseServer
  | SendToTopic string "'h stompFrame"
  | SendPrivate string string "'h stompFrame"
  | CloseConnectionByIP string err

datatype 'h serverCall =
    ConnectionCall nat "'h connEvent"
  | SubscribeCall nat string string string "'h stompFrame option"
  | UnsubscribeCall nat string string string
  | RequestCall nat string string string

type_synonym connSubscriptions = "(string, subscription) gomap"

record 'h stompServer =
  sv_config :: "'h stompConfig"
  sv_running :: bool
  sv_accepting :: bool
  sv_done :: bool
  sv_connections :: "(string, 'h stompConn) gomap"
  sv_pending :: "string list"
  sv_connectionsMap :: "(string, unit) gomap"
  sv_subscriptionsMap :: "(string, (string, connSubscriptions) gomap) gomap"
  sv_connectionEvents :: "'h connEvent list"
  sv_apiEvents :: "'h apiEvent list"
  sv_connectionEventCallbacks :: "(sessionEvent, nat) gomap"
  sv_subscribeCallbacks :: "nat list"
  sv_unsubscribeCallbacks :: "nat list"
  sv_applicationRequestCallbacks :: "nat list"
  sv_calls :: "'h serverCall list"
  sv_panicked :: bool

definition NewStompServer :: "'h stompConfig \<Rightarrow> 'h stompServer" where
  "NewStompServer cfg =
     \<lparr>sv_config = cfg, sv_running = False, sv_accepting = False, sv_done = False, sv_connections = gm_empty, sv_pending = [],
      sv_connectionsMap = gm_empty, sv_subscriptionsMap = gm_empty, sv_connectionEvents = [], sv_apiEvents = [],
      sv_connectionEventCallbacks = gm_empty, sv_subscribeCallbacks = [], sv_unsubscribeCallbacks = [],
      sv_applicationRequestCallbacks = [], sv_calls = [], sv_panicked = False\<rparr>"

subsection \<open>Registration\<close>

definition OnSubscribeEvent :: "nat \<Rightarrow> 'h stompServer \<Rightarrow> 'h stompServer" where
  "OnSubscribeEvent k s = s\<lparr>sv_subscribeCallbacks := sv_subscribeCallbacks s @ [k]\<rparr>"

definition OnUnsubscribeEvent :: "nat \<Rightarrow> 'h stompServer \<Rightarrow> 'h stompServer" where
  "OnUnsubscribeEvent k s = s\<lparr>sv_unsubscribeCallbacks := sv_unsubscribeCallbacks s @ [k]\<rparr>"

definition OnApplicationRequest :: "nat \<Rightarrow> 'h stompServer \<Rightarrow> 'h stompServer" where
  "OnApplicationRequest k s = s\<lparr>sv_applicationRequestCallbacks := sv_applicationRequestCallbacks s @ [k]\<rparr>"

definition SetConnectionEventCallback :: "sessionEvent \<Rightarrow> nat \<Rightarrow> 'h stompServer \<Rightarrow> 'h stompServer" where
  "SetConnectionEventCallback t k s = s\<lparr>sv_connectionEventCallbacks := gm_set t k (sv_connectionEventCallbacks s)\<rparr>"

definition logCalls :: "'h serverCall list \<Rightarrow> 'h stompServer \<Rightarrow> 'h stompServer" where
  "logCalls cs s = s\<lparr>sv_calls := sv_calls s @ cs\<rparr>"

definition connectionCallback :: "'h connEvent \<Rightarrow> 'h stompServer \<Rightarrow> 'h stompServer" where
  "connectionCallback e s =
     (case gm_get (sv_connectionEventCallbacks s) (ce_eventType e) of
        None \<Rightarrow> s
      | Some k \<Rightarrow> logCalls [ConnectionCall k e] s)"

subsection \<open>Connection events\<close>

definition subscriptionsAt :: "'h stompServer \<Rightarrow> string \<Rightarrow> (string, connSubscriptions) gomap option" where
  "subscriptionsAt s dest = gm_get (sv_subscriptionsMap s) dest"

definition unsubscribeCallsFor :: "nat list \<Rightarrow> string \<Rightarrow> connSubscriptions \<Rightarrow> 'h serverCall list" where
  "unsubscribeCallsFor cbs con subs =
     concat (map (\<lambda>sub. map (\<lambda>k. UnsubscribeCall k con (su_id sub) (su_destination sub)) cbs) (gm_vals subs))"

definition onConnectionStarting :: "'h connEvent \<Rightarrow> 'h stompServer \<Rightarrow> 'h stompServer" where
  "onConnectionStarting e s =
     connectionCallback e (s\<lparr>sv_connectionsMap := gm_set (ce_ConnId e) () (sv_connectionsMap s)\<rparr>)"

definition onConnectionClosed :: "'h connEvent \<Rightarrow> 'h stompServer \<Rightarrow> 'h stompServer" where
  "onConnectionClosed e s =
     (let con = ce_ConnId e;
          calls = concat (map (\<lambda>(d, cs). case gm_get cs con of
                                  None \<Rightarrow> []
                                | Some subs \<Rightarrow> unsubscribeCallsFor (sv_unsubscribeCallbacks s) con subs)
                            (sv_subscriptionsMap s))
      in connectionCallback e
           (logCalls calls
              (s\<lparr>sv_connectionsMap := gm_del con (sv_connectionsMap s),
                 sv_subscriptionsMap := map (\<lambda>(d, cs). (d, gm_del con cs)) (sv_subscriptionsMap s)\<rparr>)))"

definition onSubscribeToTopic :: "'h connEvent \<Rightarrow> 'h stompServer \<Rightarrow> 'h stompServer" where
  "onSubscribeToTopic e s =
     (case ce_sub e of
        None \<Rightarrow> s\<lparr>sv_panicked := True\<rparr>
      | Some sub \<Rightarrow>
          (let con = ce_ConnId e; dest = ce_destination e;
               subsMap = (case subscriptionsAt s dest of None \<Rightarrow> gm_empty | Some m \<Rightarrow> m);
               conSub = (case gm_get subsMap con of None \<Rightarrow> gm_empty | Some m \<Rightarrow> m)
           in connectionCallback e
                (logCalls (map (\<lambda>k. SubscribeCall k con (su_id sub) dest (ce_frame e)) (sv_subscribeCallbacks s))
                   (s\<lparr>sv_subscriptionsMap :=
                        gm_set dest (gm_set con (gm_set (su_id sub) sub conSub) subsMap) (sv_subscriptionsMap s)\<rparr>))))"

definition onUnsubscribeFromTopic :: "'h connEvent \<Rightarrow> 'h stompServer \<Rightarrow> 'h stompServer" where
  "onUnsubscribeFromTopic e s =
     (case subscriptionsAt s (ce_destination e) of
        None \<Rightarrow> connectionCallback e s
      | Some subs \<Rightarrow>
          (case gm_get subs (ce_ConnId e) of
             None \<Rightarrow> connectionCallback e s
           | Some conSub \<Rightarrow>
               (case ce_sub e of
                  None \<Rightarrow> s\<lparr>sv_panicked := True\<rparr>
                | Some sub \<Rightarrow>
                    (case gm_get conSub (su_id sub) of
                       None \<Rightarrow> connectionCallback e s
                     | Some x \<Rightarrow>
                         connectionCallback e
                           (logCalls (map (\<lambda>k. UnsubscribeCall k (ce_ConnId e) (su_id sub) (ce_destination e))
                                        (sv_unsubscribeCallbacks s))
                              (s\<lparr>sv_subscriptionsMap :=
                                   gm_set (ce_destination e)
                                     (gm_set (ce_ConnId e) (gm_del (su_id sub) conSub) subs) (sv_subscriptionsMap s)\<rparr>))))))"

definition onIncomingMessage :: "'h connEvent \<Rightarrow> 'h stompServer \<Rightarrow> 'h stompServer" where
  "onIncomingMessage e s =
     (if IsAppRequestDestination (sv_config s) (ce_destination e) then
        (case (ce_frame e, sv_applicationRequestCallbacks s) of
           (None, k # ks) \<Rightarrow> s\<lparr>sv_panicked := True\<rparr>
         | (None, []) \<Rightarrow> connectionCallback e s
         | (Some f, ks) \<Rightarrow>
             connectionCallback e
               (logCalls (map (\<lambda>k. RequestCall k (ce_destination e) (fr_Body f) (ce_ConnId e)) ks) s))
      else connectionCallback e s)"

definition handleConnectionEvent :: "'h connEvent \<Rightarrow> 'h stompServer \<Rightarrow> 'h stompServer" where
  "handleConnectionEvent e s =
     (case ce_eventType e of
        ConnectionStarting \<Rightarrow> onConnectionStarting e s
      | ConnectionEstablished \<Rightarrow> s
      | ConnectionClosed \<Rightarrow> onConnectionClosed e s
      | SubscribeToTopic \<Rightarrow> onSubscribeToTopic e s
      | UnsubscribeFromTopic \<Rightarrow> onUnsubscribeFromTopic e s
      | IncomingMessage \<Rightarrow> onIncomingMessage e s)"

subsection \<open>Sending to subscriptions\<close>

text \<open>A frame that is cloned for each receiver is here the same value. A send to a connection that
  has ended may be dropped or queued (\<open>late\<close>); to a live one it is queued, and the event loop
  waits while the queue is full.\<close>

definition updConnection :: "string \<Rightarrow> ('h stompConn \<Rightarrow> 'h stompConn) \<Rightarrow> 'h stompServer \<Rightarrow> 'h stompServer" where
  "updConnection i g s =
     (case gm_get (sv_connections s) i of
        None \<Rightarrow> s
      | Some c \<Rightarrow> s\<lparr>sv_connections := gm_set i (g c) (sv_connections s)\<rparr>)"

definition sendToOne :: "'h headerOps \<Rightarrow> (string \<Rightarrow> bool) \<Rightarrow> 'h stompFrame \<Rightarrow> string \<times> subscription \<Rightarrow> 'h stompServer \<Rightarrow> 'h stompServer" where
  "sendToOne ho late f p s =
     updConnection (fst p) (\<lambda>c. SendFrameToSubscription ho (\<not> sn_done c \<or> late (fst p)) f (snd p) c) s"

definition subscriptionPairs :: "string \<Rightarrow> connSubscriptions \<Rightarrow> (string \<times> subscription) list" where
  "subscriptionPairs con subs = map (Pair con) (gm_vals subs)"

definition topicTargets :: "'h stompServer \<Rightarrow> string \<Rightarrow> (string \<times> subscription) list" where
  "topicTargets s dest =
     (case subscriptionsAt s dest of
        None \<Rightarrow> []
      | Some subsMap \<Rightarrow> concat (map (\<lambda>(con, subs). subscriptionPairs con subs) subsMap))"

definition clientTargets :: "'h stompServer \<Rightarrow> string \<Rightarrow> string \<Rightarrow> (string \<times> subscription) list" where
  "clientTargets s con dest =
     (case subscriptionsAt s dest of
        None \<Rightarrow> []
      | Some subsMap \<Rightarrow> (case gm_get subsMap con of None \<Rightarrow> [] | Some subs \<Rightarrow> subscriptionPairs con subs))"

definition sendFrame :: "'h headerOps \<Rightarrow> (string \<Rightarrow> bool) \<Rightarrow> string \<Rightarrow> 'h stompFrame \<Rightarrow> 'h stompServer \<Rightarrow> 'h stompServer" where
  "sendFrame ho late dest f s = foldl (\<lambda>t p. sendToOne ho late f p t) s (topicTargets s dest)"

definition sendFrameToClient ::
  "'h headerOps \<Rightarrow> (string \<Rightarrow> bool) \<Rightarrow> string \<Rightarrow> string \<Rightarrow> 'h stompFrame \<Rightarrow> 'h stompServer \<Rightarrow> 'h stompServer" where
  "sendFrameToClient ho late con dest f s = foldl (\<lambda>t p. sendToOne ho late f p t) s (clientTargets s con dest)"

definition roomFor :: "(string \<times> subscription) list \<Rightarrow> string \<times> 'h stompConn \<Rightarrow> bool" where
  "roomFor ps p \<longleftrightarrow>
     sn_done (snd p) \<or> filter (\<lambda>q. fst q = fst p) ps = [] \<or>
     length (sn_outFrames (snd p)) + length (filter (\<lambda>q. fst q = fst p) ps) \<le> 32"

definition mustWait :: "(string \<times> subscription) list \<Rightarrow> 'h stompServer \<Rightarrow> bool" where
  "mustWait ps s \<longleftrightarrow> \<not> list_all (roomFor ps) (sv_connections s)"

subsection \<open>The interface\<close>

definition bodyFrame :: "'h headerOps \<Rightarrow> string \<Rightarrow> string \<Rightarrow> 'h stompFrame" where
  "bodyFrame ho dest body =
     (frameNew ho ''MESSAGE'' [(''destination'', dest), (''content-length'', digitsOf (length body)),
        (''content-type'', ''application/json;charset=UTF-8'')])\<lparr>fr_Body := body\<rparr>"

definition sendAPIEvent :: "'h apiEvent \<Rightarrow> 'h stompServer \<Rightarrow> 'h stompServer \<times> bool" where
  "sendAPIEvent e s =
     (if \<not> sv_running s \<or> sv_done s then (s, False)
      else (s\<lparr>sv_apiEvents := sv_apiEvents s @ [e]\<rparr>, True))"

definition SendMessage :: "'h headerOps \<Rightarrow> string \<Rightarrow> string \<Rightarrow> 'h stompServer \<Rightarrow> 'h stompServer" where
  "SendMessage ho dest body s = fst (sendAPIEvent (SendToTopic dest (bodyFrame ho dest body)) s)"

definition SendMessageToClient :: "'h headerOps \<Rightarrow> string \<Rightarrow> string \<Rightarrow> string \<Rightarrow> 'h stompServer \<Rightarrow> 'h stompServer" where
  "SendMessageToClient ho con dest body s = fst (sendAPIEvent (SendPrivate con dest (bodyFrame ho dest body)) s)"

definition CloseConnectionsByIP :: "string \<Rightarrow> err \<Rightarrow> 'h stompServer \<Rightarrow> 'h stompServer" where
  "CloseConnectionsByIP ip msg s = fst (sendAPIEvent (CloseConnectionByIP ip msg) s)"

definition serverStart :: "'h stompServer \<Rightarrow> 'h stompServer" where
  "serverStart s = (if sv_done s \<or> sv_running s then s else s\<lparr>sv_running := True, sv_accepting := True\<rparr>)"

text \<open>The close event waits for room in the queue, in a goroutine of its own if need be.\<close>

definition sendCloseEvent :: "'h stompServer \<Rightarrow> 'h stompServer" where
  "sendCloseEvent s = (if sv_done s then s else s\<lparr>sv_apiEvents := sv_apiEvents s @ [CloseServer]\<rparr>)"

definition serverStop :: "'h stompServer \<Rightarrow> 'h stompServer" where
  "serverStop s =
     (if sv_running s then sendCloseEvent (s\<lparr>sv_running := False\<rparr>) else s)"

subsection \<open>The event loop\<close>

text \<open>What a connection does: its new events join the queue of the server.\<close>

definition withConnection ::
  "string \<Rightarrow> ('h stompConn \<Rightarrow> 'h stompConn) \<Rightarrow> 'h stompServer \<Rightarrow> 'h stompServer" where
  "withConnection i g s =
     (case gm_get (sv_connections s) i of
        None \<Rightarrow> s
      | Some c \<Rightarrow>
          s\<lparr>sv_connections := gm_set i (g c) (sv_connections s),
            sv_connectionEvents := sv_connectionEvents s @ drop (length (sn_events c)) (sn_events (g c))\<rparr>)"

definition withConnections ::
  "string list \<Rightarrow> ('h stompConn \<Rightarrow> 'h stompConn) \<Rightarrow> 'h stompServer \<Rightarrow> 'h stompServer" where
  "withConnections is g s = foldl (\<lambda>t i. withConnection i g t) s is"

definition connectionsFrom :: "string \<Rightarrow> 'h stompServer \<Rightarrow> string list" where
  "connectionsFrom ip s =
     filter (\<lambda>i. case gm_get (sv_connections s) i of
                    None \<Rightarrow> False
                  | Some c \<Rightarrow> extractIPFromAddress (sn_ipAddress c) = ip) (gm_keys (sv_connectionsMap s))"

text \<open>The loop has ended when \<open>sv_done\<close> is set.\<close>

definition runApiEvent ::
  "'h headerOps \<Rightarrow> (string \<Rightarrow> bool) \<Rightarrow> stepEnv \<Rightarrow> 'h apiEvent \<Rightarrow> 'h stompServer \<Rightarrow> 'h stompServer" where
  "runApiEvent ho late env e s =
     (case e of
        CloseServer \<Rightarrow>
          (withConnections (gm_keys (sv_connectionsMap s)) (connClose env) (s\<lparr>sv_done := True\<rparr>))
             \<lparr>sv_connectionsMap := gm_empty\<rparr>
      | SendToTopic dest f \<Rightarrow> sendFrame ho late dest f s
      | SendPrivate con dest f \<Rightarrow> sendFrameToClient ho late con dest f s
      | CloseConnectionByIP ip msg \<Rightarrow>
          withConnections (connectionsFrom ip s) (\<lambda>c. connClose env (SendError ho env msg c)) s)"

fun apiTargets :: "'h stompServer \<Rightarrow> 'h apiEvent \<Rightarrow> (string \<times> subscription) list" where
  "apiTargets s (SendToTopic dest f) = topicTargets s dest"
| "apiTargets s (SendPrivate con dest f) = clientTargets s con dest"
| "apiTargets s CloseServer = []"
| "apiTargets s (CloseConnectionByIP ip msg) = []"

text \<open>\<open>SvAccept\<close> is a round of \<open>waitForConnections\<close> up to the start of the new connection's
  goroutines: what the checker says of the address, and the new id. \<open>SvAnnounce\<close> is the rest of
  the round: the starting event is sent, or the connection is closed and the loop left. The loop
  tests \<open>running\<close> at its head only, so a connection can still be accepted after a stop.\<close>

datatype 'h serverEv =
    SvAccept string string "err option"
  | SvAnnounce stepEnv
  | SvConnection string "'h connStepEv"
  | SvApi "'h apiEvent"
  | SvStart
  | SvStop
  | SvRunApi "string \<Rightarrow> bool" stepEnv
  | SvRunConnection

definition acceptConnection :: "string \<Rightarrow> string \<Rightarrow> err option \<Rightarrow> 'h stompServer \<Rightarrow> 'h stompServer" where
  "acceptConnection addr i blocked s =
     (if \<not> sv_accepting s \<or> sv_pending s \<noteq> [] \<or> gm_get (sv_connections s) i \<noteq> None then s
      else if blocked \<noteq> None then s\<lparr>sv_accepting := sv_running s\<rparr>
      else s\<lparr>sv_connections := gm_set i (newStompConn i addr) (sv_connections s), sv_pending := [i]\<rparr>)"

definition sendConnectionEvent :: "'h connEvent \<Rightarrow> 'h stompServer \<Rightarrow> 'h stompServer \<times> bool" where
  "sendConnectionEvent e s =
     (if \<not> sv_running s \<or> sv_done s then (s, False)
      else (s\<lparr>sv_connectionEvents := sv_connectionEvents s @ [e]\<rparr>, True))"

definition announceConnection :: "stepEnv \<Rightarrow> 'h stompServer \<Rightarrow> 'h stompServer" where
  "announceConnection env s =
     (case sv_pending s of
        [] \<Rightarrow> s
      | i # is \<Rightarrow>
          (case sendConnectionEvent \<lparr>ce_ConnId = i, ce_eventType = ConnectionStarting, ce_destination = [], ce_sub = None, ce_frame = None\<rparr>
                  (s\<lparr>sv_pending := is\<rparr>) of
             (t, False) \<Rightarrow> withConnection i (connClose env) (t\<lparr>sv_accepting := False\<rparr>)
           | (t, True) \<Rightarrow> t))"

fun serverStep ::
  "'h headerOps \<Rightarrow> (string \<Rightarrow> (int \<times> int) res) \<Rightarrow> 'h stompServer \<Rightarrow> 'h serverEv \<Rightarrow> 'h stompServer" where
  "serverStep ho parse s (SvAccept addr i blocked) = acceptConnection addr i blocked s"
| "serverStep ho parse s (SvAnnounce env) = announceConnection env s"
| "serverStep ho parse s (SvConnection i e) = withConnection i (\<lambda>c. connStep ho parse (sv_config s) c e) s"
| "serverStep ho parse s (SvApi e) = fst (sendAPIEvent e s)"
| "serverStep ho parse s SvStart = serverStart s"
| "serverStep ho parse s SvStop = serverStop s"
| "serverStep ho parse s (SvRunApi late env) =
     (if sv_done s then s
      else (case sv_apiEvents s of
              [] \<Rightarrow> s
            | e # es \<Rightarrow>
                (if mustWait (apiTargets s e) s then s
                 else runApiEvent ho late env e (s\<lparr>sv_apiEvents := es\<rparr>))))"
| "serverStep ho parse s SvRunConnection =
     (if sv_done s then s
      else (case sv_connectionEvents s of
              [] \<Rightarrow> s
            | e # es \<Rightarrow> handleConnectionEvent e (s\<lparr>sv_connectionEvents := es\<rparr>)))"

end
