(* ===== verification/StompConnFacts.thy ===== *)
theory StompConnFacts
  imports StompConn
begin

text \<open>
  What holds of a server-side STOMP connection (stompserver/stomp_connection.go) in every run:
  the lifecycle, the guards of the frame handlers, the events sent to the server, and the
  functional behaviour of version choice, heart-beats and message ids.
\<close>

named_theorems conn_step "the fields that the operations of a connection leave alone"

subsection \<open>The primitive operations\<close>

definition connectedWritten :: "'h stompConn \<Rightarrow> bool" where
  "connectedWritten c = list_ex (\<lambda>w. case w of None \<Rightarrow> False | Some f \<Rightarrow> fr_Command f = ''CONNECTED'') (sn_written c)"

definition closedEvents :: "'h stompConn \<Rightarrow> 'h connEvent list" where
  "closedEvents c = filter (\<lambda>e. ce_eventType e = ConnectionClosed) (sn_events c)"

definition clientEvent :: "'h connEvent \<Rightarrow> bool" where
  "clientEvent e \<longleftrightarrow> ce_eventType e = SubscribeToTopic \<or> ce_eventType e = UnsubscribeFromTopic \<or> ce_eventType e = IncomingMessage"

definition eventOk :: "'h headerOps \<Rightarrow> 'h stompConfig \<Rightarrow> 'h connEvent \<Rightarrow> bool" where
  "eventOk ho cfg e \<longleftrightarrow>
     (ce_eventType e = IncomingMessage \<longrightarrow>
        IsAppRequestDestination cfg (ce_destination e) \<and>
        (case ce_frame e of
           None \<Rightarrow> False
         | Some f \<Rightarrow> fr_Command f = ''MESSAGE'' \<and> ho_contains ho (fr_Header f) ''transaction'' = None \<and>
                     ho_contains ho (fr_Header f) ''receipt'' = None)) \<and>
     (ce_eventType e = SubscribeToTopic \<or> ce_eventType e = UnsubscribeFromTopic \<longrightarrow>
        (case ce_sub e of None \<Rightarrow> False | Some s \<Rightarrow> su_destination s = ce_destination e))"

definition connInv :: "'h headerOps \<Rightarrow> 'h stompConfig \<Rightarrow> 'h stompConn \<Rightarrow> bool" where
  "connInv ho cfg c \<longleftrightarrow>
     length (closedEvents c) \<le> (if sn_done c then 1 else 0) \<and>
     (sn_state c = Closed \<longrightarrow> sn_done c) \<and>
     (sn_state c = Connected \<longrightarrow> connectedWritten c) \<and>
     (list_ex clientEvent (sn_events c) \<longrightarrow> connectedWritten c) \<and>
     list_all (eventOk ho cfg) (sn_events c)"

lemmas connInv_defs = connInv_def closedEvents_def connectedWritten_def clientEvent_def eventOk_def

lemma connInv_new: "connInv ho cfg (newStompConn i a)"
  by (simp add: connInv_defs newStompConn_def)

lemma writeFrame_fields [simp, conn_step]:
  "sn_done (fst (writeFrame env f c)) = sn_done c"
  "sn_state (fst (writeFrame env f c)) = sn_state c"
  "sn_events (fst (writeFrame env f c)) = sn_events c"
  "sn_subscriptions (fst (writeFrame env f c)) = sn_subscriptions c"
  by (simp_all add: writeFrame_def split: option.splits)

lemma writeFrame_connected: "connectedWritten c \<Longrightarrow> connectedWritten (fst (writeFrame env f c))"
  by (simp add: writeFrame_def connectedWritten_def split: option.splits)

lemma writeFrame_inv: "connInv ho cfg c \<Longrightarrow> connInv ho cfg (fst (writeFrame env f c))"
  by (auto simp: connInv_def closedEvents_def intro: writeFrame_connected)

lemma writeFrame_done: "sn_done c \<Longrightarrow> writeFrame env f c = (c, Some ''use of closed network connection'')"
  by (simp add: writeFrame_def)

lemma writeFrame_ok: "snd (writeFrame env f c) = None \<Longrightarrow>
    \<not> sn_done c \<and> fst (writeFrame env f c) = c\<lparr>sn_written := sn_written c @ [f]\<rparr>"
  by (auto simp: writeFrame_def split: if_splits option.splits)

lemma sendEvent_fields [simp, conn_step]:
  "sn_done (sendEvent env e c) = sn_done c"
  "sn_state (sendEvent env e c) = sn_state c"
  "sn_written (sendEvent env e c) = sn_written c"
  "sn_subscriptions (sendEvent env e c) = sn_subscriptions c"
  "sn_running (sendEvent env e c) = sn_running c"
  "sn_version (sendEvent env e c) = sn_version c"
  "sn_readTimeoutMs (sendEvent env e c) = sn_readTimeoutMs c"
  "sn_writeTimeout (sendEvent env e c) = sn_writeTimeout c"
  by (simp_all add: sendEvent_def)

lemma connectedWritten_cong: "sn_written c' = sn_written c \<Longrightarrow> connectedWritten c' = connectedWritten c"
  by (simp add: connectedWritten_def)

lemma sendEvent_inv:
  assumes "connInv ho cfg c" and "ce_eventType e \<noteq> ConnectionClosed"
    and "clientEvent e \<Longrightarrow> connectedWritten c" and "eventOk ho cfg e"
  shows "connInv ho cfg (sendEvent env e c)"
  using assms by (auto simp: sendEvent_def connInv_def closedEvents_def connectedWritten_def)

lemma connClose_done [simp]: "sn_done (connClose env c)"
  by (simp add: connClose_def)

lemma connClose_written [simp, conn_step]: "sn_written (connClose env c) = sn_written c"
  by (simp add: connClose_def)

lemma connClose_idem: "sn_done c \<Longrightarrow> connClose env c = c"
  by (simp add: connClose_def)

lemma connClose_inv: "connInv ho cfg c \<Longrightarrow> connInv ho cfg (connClose env c)"
  by (cases "sn_done c"; cases "en_event env")
     (simp_all add: connClose_def sendEvent_def eventOf_def connInv_defs)

lemma closedMeanwhile_inv: "connInv ho cfg c \<Longrightarrow> connInv ho cfg (closedMeanwhile env c)"
  by (simp add: closedMeanwhile_def connClose_inv)

lemma closedMeanwhile_written [simp, conn_step]: "sn_written (closedMeanwhile env c) = sn_written c"
  by (simp add: closedMeanwhile_def)

lemma closedMeanwhile_done: "sn_done c \<Longrightarrow> closedMeanwhile env c = c"
  by (simp add: closedMeanwhile_def connClose_idem)

text \<open>Updates that touch no field of the invariant.\<close>

lemma connInv_frame:
  "connInv ho cfg c \<Longrightarrow> sn_done c' = sn_done c \<Longrightarrow> sn_state c' = sn_state c \<Longrightarrow>
   sn_events c' = sn_events c \<Longrightarrow> sn_written c' = sn_written c \<Longrightarrow> connInv ho cfg c'"
  by (simp add: connInv_def closedEvents_def connectedWritten_def)

lemma AddSubscription_frame [simp, conn_step]:
  "sn_done (fst (AddSubscription i d c)) = sn_done c"
  "sn_state (fst (AddSubscription i d c)) = sn_state c"
  "sn_events (fst (AddSubscription i d c)) = sn_events c"
  "sn_written (fst (AddSubscription i d c)) = sn_written c"
  by (simp_all add: AddSubscription_def Let_def split: option.splits)

lemma RemoveSubscription_frame [simp, conn_step]:
  "sn_done (fst (RemoveSubscription i c)) = sn_done c"
  "sn_state (fst (RemoveSubscription i c)) = sn_state c"
  "sn_events (fst (RemoveSubscription i c)) = sn_events c"
  "sn_written (fst (RemoveSubscription i c)) = sn_written c"
  by (simp_all add: RemoveSubscription_def split: option.splits)

lemma SendFrame_frame [simp, conn_step]:
  "sn_done (SendFrameToSubscription ho t f s c) = sn_done c"
  "sn_state (SendFrameToSubscription ho t f s c) = sn_state c"
  "sn_events (SendFrameToSubscription ho t f s c) = sn_events c"
  "sn_written (SendFrameToSubscription ho t f s c) = sn_written c"
  by (simp_all add: SendFrameToSubscription_def)

subsection \<open>Middleware\<close>

lemma mwRun_refl: "mwRun ho h c c"
  by (simp add: mwRun_def)

lemma mwRun_self: "mwRun ho h c (fst (h f c))"
  unfolding mwRun_def by (rule r_into_rtranclp) blast

lemma mwRun_trans: "mwRun ho h a b \<Longrightarrow> mwRun ho h b c \<Longrightarrow> mwRun ho h a c"
  unfolding mwRun_def by (rule rtranclp_trans)

lemma mwRun_inner:
  assumes "mwRun ho g c c'" and "\<And>f d. mwRun ho h d (fst (g f d))"
  shows "mwRun ho h c c'"
  using assms(1) unfolding mwRun_def [of ho g]
proof (induction rule: rtranclp_induct)
  case base
  then show ?case by (rule mwRun_refl)
next
  case (step y z)
  from step.hyps(2) have "mwRun ho h y z"
  proof
    assume "ifaceStep ho y z"
    then show ?thesis unfolding mwRun_def by blast
  next
    assume "\<exists>f. z = fst (g f y)"
    then show ?thesis using assms(2) by blast
  qed
  with step.IH show ?case by (rule mwRun_trans)
qed

lemma chainFrom_mwRun:
  "(\<And>mw g f d. mw \<in> set mws \<Longrightarrow> mwRun ho g d (fst (mw g f d))) \<Longrightarrow> n \<le> length mws \<Longrightarrow>
   mwRun ho h c (fst (chainFrom n mws h f c))"
proof (induction n arbitrary: h c)
  case 0
  then show ?case by (simp add: mwRun_self)
next
  case (Suc n)
  have "mwRun ho ((mws ! n) h) c (fst (chainFrom n mws ((mws ! n) h) f c))"
    using Suc.prems by (intro Suc.IH) auto
  moreover have "\<And>f' d. mwRun ho h d (fst ((mws ! n) h f' d))"
    using Suc.prems by auto
  ultimately show ?case by (simp add: mwRun_inner)
qed

lemma ChainCommandMiddleware_mwRun:
  assumes "middlewareLaw ho cfg"
  shows "mwRun ho h c (fst (ChainCommandMiddleware (cf_middleware cfg) cmd h f c))"
proof -
  have "\<And>mw g f d. mw \<in> set ((case gm_get (cf_middleware cfg) ''*'' of None \<Rightarrow> [] | Some ms \<Rightarrow> ms) @
      (case gm_get (cf_middleware cfg) cmd of None \<Rightarrow> [] | Some ms \<Rightarrow> ms)) \<Longrightarrow> mwRun ho g d (fst (mw g f d))"
    using assms unfolding middlewareLaw_def by (auto split: option.splits) metis+
  then show ?thesis
    unfolding ChainCommandMiddleware_def ChainMiddleware_def Let_def
    by (intro chainFrom_mwRun) auto
qed

text \<open>An invariant of the interface and of the wrapped handler is one of the whole chain.\<close>

lemma chain_preserves:
  assumes law: "middlewareLaw ho cfg"
    and iface: "\<And>d d'. P d \<Longrightarrow> ifaceStep ho d d' \<Longrightarrow> P d'"
    and core: "\<And>f d. P d \<Longrightarrow> P (fst (h f d))"
    and start: "P c"
  shows "P (fst (ChainCommandMiddleware (cf_middleware cfg) cmd h f c))"
proof -
  have "stepper (\<lambda>d d'. ifaceStep ho d d' \<or> (\<exists>f. d' = fst (h f d))) P"
    by unfold_locales (auto intro: iface core)
  from stepper.inv_star [OF this ChainCommandMiddleware_mwRun [OF law, unfolded mwRun_def] start]
  show ?thesis .
qed

lemma ifaceStep_inv: "connInv ho cfg c \<Longrightarrow> ifaceStep ho c c' \<Longrightarrow> connInv ho cfg c'"
  by (erule ifaceStep.cases)
     (auto simp: SendError_def SendConnMessage_def intro: connClose_inv writeFrame_inv connInv_frame)

lemma writeFrame_cases:
  "writeFrame env f c = (c', r) \<Longrightarrow>
     (r \<noteq> None \<and> c' = c) \<or> (r = None \<and> \<not> sn_done c \<and> c' = c\<lparr>sn_written := sn_written c @ [f]\<rparr>)"
  by (auto simp: writeFrame_def split: if_splits option.splits)

subsection \<open>The frame handlers keep the invariant\<close>

lemma connected_after_connect:
  assumes "connInv ho cfg c" and "fr_Command f = ''CONNECTED''"
  shows "connInv ho cfg (sendEvent env (eventOf d ConnectionEstablished [] None None)
           ((closedMeanwhile env (c\<lparr>sn_written := sn_written c @ [Some f]\<rparr>))\<lparr>sn_state := Connected\<rparr>))"
proof -
  let ?c = "c\<lparr>sn_written := sn_written c @ [Some f]\<rparr>"
  have "connInv ho cfg ?c" using assms(1) by (auto simp: connInv_def closedEvents_def connectedWritten_def)
  then have m: "connInv ho cfg (closedMeanwhile env ?c)" by (rule closedMeanwhile_inv)
  have w: "connectedWritten (closedMeanwhile env ?c)"
    using assms(2) by (simp add: connectedWritten_def)
  from m w have "connInv ho cfg ((closedMeanwhile env ?c)\<lparr>sn_state := Connected\<rparr>)"
    by (auto simp: connInv_def closedEvents_def connectedWritten_def)
  then show ?thesis by (rule sendEvent_inv) (simp_all add: eventOf_def clientEvent_def eventOk_def)
qed

lemma handleConnect_inv:
  assumes "connInv ho cfg c" shows "connInv ho cfg (fst (handleConnect ho parse cfg env f c))"
proof -
  have upd: "connInv ho cfg (c\<lparr>sn_version := v\<rparr>)"
    "connInv ho cfg (c\<lparr>sn_version := v, sn_writeTimeout := cy, sn_readTimeoutMs := cx\<rparr>)" for v cx cy
    using assms by (auto intro: connInv_frame)
  show ?thesis
    using assms
    by (auto simp: handleConnect_def Let_def upd frameNew_def split: sum.splits prod.splits option.splits
        dest!: writeFrame_cases intro!: connected_after_connect)
qed

lemma sendReceiptResponse_inv:
  "connInv ho cfg c \<Longrightarrow> connInv ho cfg (fst (snd (sendReceiptResponse ho env f c)))"
  by (auto simp: sendReceiptResponse_def Let_def case_prod_beta writeFrame_inv split: option.splits)

lemma sendReceiptResponse_connected:
  "connectedWritten c \<Longrightarrow> connectedWritten (fst (snd (sendReceiptResponse ho env f c)))"
  by (auto simp: sendReceiptResponse_def Let_def case_prod_beta writeFrame_connected split: option.splits)

lemma handleDisconnect_inv: "connInv ho cfg c \<Longrightarrow> connInv ho cfg (fst (handleDisconnect ho env f c))"
  using sendReceiptResponse_inv [of ho cfg c env f]
  by (auto simp: handleDisconnect_def connClose_inv split: prod.splits option.splits)

lemma coreSubscribeHandler_keeps:
  assumes "connInv ho cfg c \<and> connectedWritten c"
  shows "connInv ho cfg (fst (coreSubscribeHandler env i d f c)) \<and> connectedWritten (fst (coreSubscribeHandler env i d f c))"
proof -
  let ?c = "fst (AddSubscription i d c)"
  have inv: "connInv ho cfg ?c" using assms by (auto intro: connInv_frame)
  have w: "connectedWritten ?c" using assms by (simp add: connectedWritten_def)
  have ev: "connInv ho cfg (sendEvent env (eventOf ?c SubscribeToTopic d (Some s) g) ?c)"
    if "su_destination s = d" for s g
    using inv w that by (intro sendEvent_inv) (auto simp: eventOf_def eventOk_def)
  have "su_destination (fst (snd (AddSubscription i d c))) = d" if "snd (snd (AddSubscription i d c))"
    using that by (auto simp: AddSubscription_def Let_def split: option.splits)
  then show ?thesis using inv w ev
    by (simp add: coreSubscribeHandler_def Let_def case_prod_beta) (simp add: connectedWritten_def)
qed

lemma ifaceStep_connected: "connectedWritten c \<Longrightarrow> ifaceStep ho c c' \<Longrightarrow> connectedWritten c'"
  by (erule ifaceStep.cases)
     (auto simp: SendError_def SendConnMessage_def intro: writeFrame_connected,
      auto simp: connectedWritten_def)

lemma handleSubscribe_inv:
  assumes law: "middlewareLaw ho cfg" and inv: "connInv ho cfg c"
  shows "connInv ho cfg (fst (handleSubscribe ho cfg env f c))"
proof -
  let ?P = "\<lambda>d. connInv ho cfg d \<and> connectedWritten d"
  have "?P (fst (ChainCommandMiddleware (cf_middleware cfg) ''SUBSCRIBE'' (coreSubscribeHandler env i d) f (closedMeanwhile env c)))"
    if "sn_state c = Connected" for i d
  proof (rule chain_preserves [OF law, where P = ?P])
    show "?P d'" if "?P e" and "ifaceStep ho e d'" for e d'
      using that by (auto intro: ifaceStep_inv ifaceStep_connected)
    show "?P (fst (coreSubscribeHandler env i d g e))" if "?P e" for g e
      using that by (rule coreSubscribeHandler_keeps)
    have "connectedWritten c" using inv that by (simp add: connInv_def)
    then have "connectedWritten (closedMeanwhile env c)" by (simp add: connectedWritten_def)
    then show "?P (closedMeanwhile env c)" using inv by (simp add: closedMeanwhile_inv)
  qed
  then show ?thesis
    using inv by (auto simp: handleSubscribe_def split: connState.splits option.splits)
qed

lemma handleUnsubscribe_inv:
  assumes inv: "connInv ho cfg c" shows "connInv ho cfg (fst (handleUnsubscribe ho env f c))"
proof -
  let ?r = "sendReceiptResponse ho env f (closedMeanwhile env c)"
  let ?c1 = "fst (snd ?r)"
  have c1: "connInv ho cfg ?c1" using inv by (intro sendReceiptResponse_inv closedMeanwhile_inv)
  have c2: "connInv ho cfg (fst (RemoveSubscription i ?c1))" for i
    using c1 by (auto intro: connInv_frame)
  have "connInv ho cfg (sendEvent env (eventOf d UnsubscribeFromTopic (su_destination s) (Some s) g) (fst (RemoveSubscription i ?c1)))"
    if "sn_state c = Connected" for i d s g
  proof (rule sendEvent_inv [OF c2])
    have "connectedWritten c" using inv that by (simp add: connInv_def)
    then have "connectedWritten (closedMeanwhile env c)" by (simp add: connectedWritten_def)
    then have "connectedWritten ?c1" by (rule sendReceiptResponse_connected)
    then show "connectedWritten (fst (RemoveSubscription i ?c1))" by (simp add: connectedWritten_def)
  qed (simp_all add: eventOf_def eventOk_def)
  then show ?thesis
    using inv c1 c2 by (auto simp: handleUnsubscribe_def split: connState.splits option.splits prod.splits)
      (metis fst_conv)+
qed

lemma sendReceiptResponse_frame:
  assumes "headerLaws ho"
  shows "ho_contains ho (fr_Header (fst (sendReceiptResponse ho env f c))) ''receipt'' = None"
    and "k \<noteq> ''receipt'' \<Longrightarrow>
         ho_contains ho (fr_Header (fst (sendReceiptResponse ho env f c))) k = ho_contains ho (fr_Header f) k"
  using assms by (auto simp: sendReceiptResponse_def headerLaws_def Let_def case_prod_beta split: option.splits)

lemma handleSend_inv:
  assumes laws: "headerLaws ho" and inv: "connInv ho cfg c"
  shows "connInv ho cfg (fst (handleSend ho cfg env f c))"
proof -
  let ?r = "sendReceiptResponse ho env f (closedMeanwhile env c)"
  let ?c1 = "fst (snd ?r)" and ?f1 = "fst ?r"
  have c1: "connInv ho cfg ?c1" using inv by (intro sendReceiptResponse_inv closedMeanwhile_inv)
  have get: "ho_get ho (fr_Header f) ''destination'' = dest"
    if "ho_contains ho (fr_Header f) ''destination'' = Some dest" for dest
    using laws that by (simp add: headerLaws_def)
  have ev: "connInv ho cfg (sendEvent env (eventOf ?c1 IncomingMessage dest None (Some (?f1\<lparr>fr_Command := ''MESSAGE''\<rparr>))) ?c1)"
    if st: "sn_state c = Connected" and app: "IsAppRequestDestination cfg dest"
      and notx: "\<not> containsHeader ho f [''transaction'']" for dest
  proof (rule sendEvent_inv [OF c1])
    have "connectedWritten c" using inv st by (simp add: connInv_def)
    then have "connectedWritten (closedMeanwhile env c)" by (simp add: connectedWritten_def)
    then show "connectedWritten ?c1" by (rule sendReceiptResponse_connected)
    have "ho_contains ho (fr_Header ?f1) ''transaction'' = None"
      using sendReceiptResponse_frame(2) [OF laws, of "''transaction''"] notx by (simp add: containsHeader_def)
    then show "eventOk ho cfg (eventOf ?c1 IncomingMessage dest None (Some (?f1\<lparr>fr_Command := ''MESSAGE''\<rparr>)))"
      using app sendReceiptResponse_frame(1) [OF laws] by (simp add: eventOk_def eventOf_def)
  qed (simp add: eventOf_def)
  obtain f1 c1' r where r: "?r = (f1, c1', r)" by (cases ?r)
  show ?thesis
    using inv c1 ev get unfolding handleSend_def r
    by (auto split: connState.splits option.splits)
qed

lemma handleIncomingFrame_inv:
  assumes "headerLaws ho" and "middlewareLaw ho cfg" and "connInv ho cfg c"
  shows "connInv ho cfg (fst (handleIncomingFrame ho parse cfg env f c))"
  using assms
  by (simp add: handleIncomingFrame_def handleConnect_inv handleDisconnect_inv handleSend_inv handleSubscribe_inv
      handleUnsubscribe_inv)

lemma leaveLoop_inv: "connInv ho cfg c \<Longrightarrow> connInv ho cfg (leaveLoop env c)"
  unfolding leaveLoop_def by (rule connClose_inv) (auto intro: connInv_frame)

lemma SendError_inv: "connInv ho cfg c \<Longrightarrow> connInv ho cfg (SendError ho env e c)"
  by (simp add: SendError_def writeFrame_inv)

lemma populate_frame [simp, conn_step]:
  "sn_done (snd (populateMessageIdHeader ho f c)) = sn_done c"
  "sn_state (snd (populateMessageIdHeader ho f c)) = sn_state c"
  "sn_events (snd (populateMessageIdHeader ho f c)) = sn_events c"
  "sn_written (snd (populateMessageIdHeader ho f c)) = sn_written c"
  by (simp_all add: populateMessageIdHeader_def Let_def)

lemma outFrame_inv:
  assumes "connInv ho cfg c"
  shows "connInv ho cfg (fst (writeFrame env g (snd (populateMessageIdHeader ho f (c\<lparr>sn_outFrames := fs\<rparr>)))))"
  using assms by (intro writeFrame_inv) (auto intro: connInv_frame)

lemma connStep_inv:
  assumes "headerLaws ho" and "middlewareLaw ho cfg" and "connInv ho cfg c"
  shows "connInv ho cfg (connStep ho parse cfg c e)"
proof (cases e)
  case (InFrame env f)
  have "connInv ho cfg (fst (handleIncomingFrame ho parse cfg env f c))"
    using assms by (rule handleIncomingFrame_inv)
  then show ?thesis using InFrame assms(3)
    by (auto split: prod.splits option.splits intro!: leaveLoop_inv SendError_inv)
next
  case (OutFrame env)
  then show ?thesis using assms(3)
    by (auto simp: Let_def case_prod_beta split: list.splits intro: leaveLoop_inv outFrame_inv)
next
  case (HeartBeatTimer env)
  then show ?thesis using assms(3)
    by (auto simp: Let_def case_prod_beta intro: leaveLoop_inv writeFrame_inv)
next
  case (CallSend t f s)
  then show ?thesis using assms(3) by (auto intro: connInv_frame)
qed (use assms(3) in \<open>auto intro: leaveLoop_inv connClose_inv\<close>)

text \<open>The invariant together with the laws of the library's headers and of the middleware.\<close>

definition connGood :: "'h headerOps \<Rightarrow> 'h stompConfig \<Rightarrow> 'h stompConn \<Rightarrow> bool" where
  "connGood ho cfg c \<longleftrightarrow> headerLaws ho \<and> middlewareLaw ho cfg \<and> connInv ho cfg c"

interpretation conn: machine "connStep ho parse cfg" "connGood ho cfg" for ho parse cfg
  by unfold_locales (auto simp: connGood_def intro: connStep_inv)

text \<open>Silence after the end, a second invariant: what was written then is all that is written.\<close>

definition silentAt :: "'h headerOps \<Rightarrow> 'h stompConfig \<Rightarrow> 'h stompFrame option list \<Rightarrow> 'h stompConn \<Rightarrow> bool" where
  "silentAt ho cfg w c \<longleftrightarrow> middlewareLaw ho cfg \<and> sn_done c \<and> sn_written c = w"

lemma ifaceStep_silent: "sn_done c \<and> sn_written c = w \<Longrightarrow> ifaceStep ho c c' \<Longrightarrow> sn_done c' \<and> sn_written c' = w"
  by (erule ifaceStep.cases) (auto simp: SendError_def SendConnMessage_def writeFrame_done)

lemma receipt_silent:
  "sn_done c \<Longrightarrow> fst (snd (sendReceiptResponse ho env f c)) = c"
  by (auto simp: sendReceiptResponse_def writeFrame_done split: option.splits)

lemma handleSubscribe_silent:
  assumes law: "middlewareLaw ho cfg" and d: "sn_done c \<and> sn_written c = w"
  shows "sn_done (fst (handleSubscribe ho cfg env f c)) \<and> sn_written (fst (handleSubscribe ho cfg env f c)) = w"
proof -
  let ?P = "\<lambda>d. sn_done d \<and> sn_written d = w"
  have "?P (fst (ChainCommandMiddleware (cf_middleware cfg) ''SUBSCRIBE'' (coreSubscribeHandler env i s) f c))" for i s
    by (rule chain_preserves [OF law, where P = ?P])
       (use d ifaceStep_silent in \<open>auto simp: coreSubscribeHandler_def Let_def case_prod_beta\<close>)
  then show ?thesis
    using d by (auto simp: handleSubscribe_def closedMeanwhile_done split: connState.splits option.splits)
qed

lemma handleIncomingFrame_silent:
  assumes law: "middlewareLaw ho cfg" and d: "sn_done c \<and> sn_written c = w"
  shows "sn_done (fst (handleIncomingFrame ho parse cfg env f c)) \<and>
         sn_written (fst (handleIncomingFrame ho parse cfg env f c)) = w"
proof -
  note rs = receipt_silent [of c ho env f]
  have "sn_done (fst (handleConnect ho parse cfg env f c)) \<and> sn_written (fst (handleConnect ho parse cfg env f c)) = w"
    using d by (auto simp: handleConnect_def Let_def writeFrame_done split: sum.splits)
  moreover have "sn_done (fst (handleDisconnect ho env f c)) \<and> sn_written (fst (handleDisconnect ho env f c)) = w"
    using d rs by (auto simp: handleDisconnect_def split: prod.splits option.splits)
  moreover have "sn_done (fst (handleSend ho cfg env f c)) \<and> sn_written (fst (handleSend ho cfg env f c)) = w"
    using d rs by (auto simp: handleSend_def closedMeanwhile_done split: connState.splits option.splits prod.splits)
  moreover have "sn_done (fst (handleUnsubscribe ho env f c)) \<and> sn_written (fst (handleUnsubscribe ho env f c)) = w"
  proof -
    obtain f1 r where r: "sendReceiptResponse ho env f c = (f1, c, r)"
      using d rs by (cases "sendReceiptResponse ho env f c") auto
    show ?thesis
      using d by (auto simp: handleUnsubscribe_def closedMeanwhile_done r RemoveSubscription_def
          split: connState.splits option.splits)
  qed
  moreover note handleSubscribe_silent [OF law d, of env f]
  ultimately show ?thesis using d by (simp add: handleIncomingFrame_def)
qed

lemma leaveLoop_silent: "sn_done c \<Longrightarrow> sn_done (leaveLoop env c) \<and> sn_written (leaveLoop env c) = sn_written c"
  by (simp add: leaveLoop_def)

lemma connStep_silent: "silentAt ho cfg w c \<Longrightarrow> silentAt ho cfg w (connStep ho parse cfg c e)"
proof -
  assume s: "silentAt ho cfg w c"
  then have law: "middlewareLaw ho cfg" and d: "sn_done c \<and> sn_written c = w"
    by (simp_all add: silentAt_def)
  have "sn_done (connStep ho parse cfg c e) \<and> sn_written (connStep ho parse cfg c e) = w"
  proof (cases e)
    case (InFrame env f)
    then show ?thesis
      using d handleIncomingFrame_silent [OF law d, of parse env f]
      by (auto simp: SendError_def writeFrame_done leaveLoop_silent split: prod.splits option.splits)
  next
    case (OutFrame env)
    then show ?thesis using d
      by (auto simp: Let_def case_prod_beta writeFrame_done leaveLoop_silent split: list.splits)
  qed (use d in \<open>auto simp: writeFrame_done leaveLoop_silent\<close>)
  then show ?thesis using law by (simp add: silentAt_def)
qed

interpretation silence: machine "connStep ho parse cfg" "silentAt ho cfg w" for ho parse cfg w
  by unfold_locales (rule connStep_silent)

subsection \<open>Subscriptions and the events that announce them\<close>

definition replayEvent :: "(string, subscription) gomap \<Rightarrow> 'h connEvent \<Rightarrow> (string, subscription) gomap" where
  "replayEvent m e =
     (case ce_sub e of
        None \<Rightarrow> m
      | Some s \<Rightarrow>
          (if ce_eventType e = SubscribeToTopic then gm_set (su_id s) s m
           else if ce_eventType e = UnsubscribeFromTopic then gm_del (su_id s) m else m))"

definition replayEvents :: "'h connEvent list \<Rightarrow> (string, subscription) gomap" where
  "replayEvents es = foldl replayEvent gm_empty es"

fun stepEnvOf :: "'h connStepEv \<Rightarrow> stepEnv option" where
  "stepEnvOf (InFrame env f) = Some env"
| "stepEnvOf (InClosed env) = Some env"
| "stepEnvOf (OutFrame env) = Some env"
| "stepEnvOf (HeartBeatTimer env) = Some env"
| "stepEnvOf (LoopHead env) = Some env"
| "stepEnvOf (CallClose env) = Some env"
| "stepEnvOf (CallSend t f s) = None"

definition eventsTaken :: "'h connStepEv \<Rightarrow> bool" where
  "eventsTaken e \<longleftrightarrow> (case stepEnvOf e of None \<Rightarrow> True | Some env \<Rightarrow> en_event env)"

definition subsTracked :: "'h stompConn \<Rightarrow> bool" where
  "subsTracked c \<longleftrightarrow>
     sn_subscriptions c = replayEvents (sn_events c) \<and>
     (\<forall>i s. gm_get (sn_subscriptions c) i = Some s \<longrightarrow> su_id s = i)"

lemma subsTracked_frame:
  "subsTracked c \<Longrightarrow> sn_subscriptions c' = sn_subscriptions c \<Longrightarrow> sn_events c' = sn_events c \<Longrightarrow> subsTracked c'"
  by (simp add: subsTracked_def)

lemma subsTracked_updates [simp]:
  "subsTracked (c\<lparr>sn_state := st\<rparr>) = subsTracked c" "subsTracked (c\<lparr>sn_version := v\<rparr>) = subsTracked c"
  "subsTracked (c\<lparr>sn_writeTimeout := wt\<rparr>) = subsTracked c" "subsTracked (c\<lparr>sn_readTimeoutMs := rt\<rparr>) = subsTracked c"
  "subsTracked (c\<lparr>sn_written := w\<rparr>) = subsTracked c"
  by (simp_all add: subsTracked_def)

lemma subsTracked_event:
  "subsTracked c \<Longrightarrow> ce_sub e = None \<Longrightarrow> subsTracked (sendEvent env e c)"
  by (simp add: subsTracked_def sendEvent_def replayEvents_def replayEvent_def)

lemma subsTracked_write [simp]: "subsTracked (fst (writeFrame env f c)) = subsTracked c"
  by (simp add: subsTracked_def)

lemma subsTracked_close: "subsTracked c \<Longrightarrow> subsTracked (connClose env c)"
  by (auto simp: connClose_def eventOf_def intro!: subsTracked_event intro: subsTracked_frame)

lemma subsTracked_meanwhile: "subsTracked c \<Longrightarrow> subsTracked (closedMeanwhile env c)"
  by (simp add: closedMeanwhile_def subsTracked_close)

lemma subsTracked_receipt: "subsTracked c \<Longrightarrow> subsTracked (fst (snd (sendReceiptResponse ho env f c)))"
  by (auto simp: sendReceiptResponse_def Let_def case_prod_beta split: option.splits)

lemma subsTracked_core:
  "subsTracked c \<Longrightarrow> en_event env \<Longrightarrow> subsTracked (fst (coreSubscribeHandler env i d f c))"
  by (auto simp: coreSubscribeHandler_def AddSubscription_def Let_def sendEvent_def eventOf_def subsTracked_def
      replayEvents_def replayEvent_def split: option.splits)

lemma subsTracked_unsubscribe:
  assumes "subsTracked c" and "en_event env" and "gm_get (sn_subscriptions c) i = Some s"
  shows "subsTracked (sendEvent env (eventOf d UnsubscribeFromTopic t (Some s) None)
           (c\<lparr>sn_subscriptions := gm_del i (sn_subscriptions c)\<rparr>))"
  using assms by (auto simp: sendEvent_def eventOf_def subsTracked_def replayEvents_def replayEvent_def)

lemma subsTracked_incoming:
  assumes t: "subsTracked c" and env: "en_event env"
    and noMw: "ChainCommandMiddleware (cf_middleware cfg) ''SUBSCRIBE'' = (\<lambda>h. h)"
  shows "subsTracked (fst (handleIncomingFrame ho parse cfg env f c))"
proof -
  let ?m = "closedMeanwhile env c"
  have m: "subsTracked ?m" using t by (rule subsTracked_meanwhile)
  have "subsTracked (fst (handleConnect ho parse cfg env f c))"
    using t by (auto simp: handleConnect_def Let_def eventOf_def split: sum.splits prod.splits option.splits
        dest!: writeFrame_cases intro!: subsTracked_event subsTracked_meanwhile)
  moreover have "subsTracked (fst (handleDisconnect ho env f c))"
    using t subsTracked_receipt [OF t, of ho env f]
    by (auto simp: handleDisconnect_def subsTracked_close split: prod.splits option.splits)
  moreover have "subsTracked (fst (handleSend ho cfg env f c))"
    using t subsTracked_receipt [OF m, of ho env f]
    by (auto simp: handleSend_def eventOf_def split: connState.splits prod.splits option.splits intro!: subsTracked_event)
  moreover have "subsTracked (fst (handleSubscribe ho cfg env f c))"
    using t subsTracked_core [OF m env]
    by (auto simp: handleSubscribe_def noMw split: connState.splits option.splits)
  moreover have "subsTracked (fst (handleUnsubscribe ho env f c))"
    using t subsTracked_receipt [OF m, of ho env f] env
    by (auto simp: handleUnsubscribe_def RemoveSubscription_def split: connState.splits prod.splits option.splits
        intro: subsTracked_unsubscribe)
  ultimately show ?thesis using t by (simp add: handleIncomingFrame_def)
qed

lemma subsTracked_leave: "subsTracked c \<Longrightarrow> subsTracked (leaveLoop env c)"
  unfolding leaveLoop_def by (rule subsTracked_close) (auto intro: subsTracked_frame)

lemma subsTracked_step:
  assumes t: "subsTracked c" and taken: "eventsTaken e"
    and noMw: "ChainCommandMiddleware (cf_middleware cfg) ''SUBSCRIBE'' = (\<lambda>h. h)"
  shows "subsTracked (connStep ho parse cfg c e)"
proof (cases e)
  case (InFrame env f)
  then have "subsTracked (fst (handleIncomingFrame ho parse cfg env f c))"
    using t taken noMw by (auto simp: eventsTaken_def intro: subsTracked_incoming)
  then show ?thesis using InFrame t
    by (auto simp: SendError_def split: prod.splits option.splits intro!: subsTracked_leave)
next
  case (OutFrame env)
  have "subsTracked (snd (populateMessageIdHeader ho f (c\<lparr>sn_outFrames := fs\<rparr>)))" for f fs
    using t by (auto simp: populateMessageIdHeader_def Let_def intro: subsTracked_frame)
  then show ?thesis using OutFrame t
    by (auto simp: Let_def case_prod_beta split: list.splits intro!: subsTracked_leave)
next
  case (CallSend tk f s)
  then show ?thesis using t by (auto simp: SendFrameToSubscription_def intro: subsTracked_frame)
qed (use t in \<open>auto simp: Let_def case_prod_beta intro!: subsTracked_leave subsTracked_close\<close>)

lemma noMiddleware: "ChainCommandMiddleware (cf_middleware (NewStompConfig hb ps)) cmd = (\<lambda>h. h)"
  by (rule ext) (simp add: ChainCommandMiddleware_def ChainMiddleware_def NewStompConfig_def gm_get_def)

lemma subsTracked_run:
  "subsTracked c \<Longrightarrow> list_all eventsTaken es \<Longrightarrow>
   subsTracked (foldl (connStep ho parse (NewStompConfig hb ps)) c es)"
  by (induction es arbitrary: c) (auto intro!: subsTracked_step noMiddleware)

subsection \<open>Properties\<close>

text \<open>Headers as association lists, for the concrete runs.\<close>

definition listHeaders :: "(string \<times> string) list headerOps" where
  "listHeaders = \<lparr>ho_new = (\<lambda>kvs. kvs), ho_contains = map_of,
     ho_get = (\<lambda>h k. case map_of h k of None \<Rightarrow> [] | Some v \<Rightarrow> v),
     ho_add = (\<lambda>h k v. h @ [(k, v)]), ho_set = (\<lambda>h k v. AList.update k v h), ho_del = (\<lambda>h k. AList.delete k h)\<rparr>"

lemma headerLaws_listHeaders: "headerLaws listHeaders"
  by (auto simp: headerLaws_def listHeaders_def update_conv' delete_conv' map_add_def split: option.splits)

lemma middlewareLaw_empty: "middlewareLaw ho (NewStompConfig hb ps)"
  by (simp add: middlewareLaw_def NewStompConfig_def gm_get_def)

definition okEnv :: stepEnv where
  "okEnv = \<lparr>en_write = None, en_event = True, en_closes = False\<rparr>"

definition connectFrame :: "(string \<times> string) list stompFrame" where
  "connectFrame = frameNew listHeaders ''CONNECT'' [(''accept-version'', ''1.1,1.2''), (''heart-beat'', ''x'')]"

definition subscribeFrame :: "string \<Rightarrow> string \<Rightarrow> (string \<times> string) list stompFrame" where
  "subscribeFrame i d = frameNew listHeaders ''SUBSCRIBE'' [(''id'', i), (''destination'', d)]"

definition parseTo :: "int \<times> int \<Rightarrow> string \<Rightarrow> (int \<times> int) res" where
  "parseTo p s = Inr p"

definition sampleConfig :: "(string \<times> string) list stompConfig" where
  "sampleConfig = NewStompConfig 5 [''/pub'']"

definition sampleRun :: "(string \<times> string) list connStepEv list \<Rightarrow> (string \<times> string) list stompConn" where
  "sampleRun es = foldl (connStep listHeaders (parseTo (1000000, 9000000)) sampleConfig) (newStompConn ''c'' ''ip'') es"

definition sendFrameSample :: "(string \<times> string) list stompFrame" where
  "sendFrameSample = frameNew listHeaders ''SEND'' [(''destination'', ''/pub/a''), (''receipt'', ''7'')]"

lemma sampleConfig_law: "middlewareLaw listHeaders sampleConfig"
  by (simp add: sampleConfig_def middlewareLaw_empty)

text \<open>C3: Nothing a client asks for is announced to the server before the connection is
  established: in every run, if an event for a subscribe, an unsubscribe or an incoming message
  has been sent to the server, a CONNECTED frame was written to the client before.\<close>

theorem client_events_after_connect:
  assumes "headerLaws ho" and "middlewareLaw ho cfg"
    and "c = foldl (connStep ho parse cfg) (newStompConn i a) es"
    and "e \<in> set (sn_events c)" and "clientEvent e"
  shows "connectedWritten c"
proof -
  have "connGood ho cfg c"
    unfolding assms(3) by (rule conn.run_inv) (simp add: connGood_def assms connInv_new)
  then show ?thesis using assms(4,5) by (auto simp: connGood_def connInv_def list_ex_iff)
qed

theorem client_events_after_connect_witness:
  "sn_events (sampleRun [InFrame okEnv (subscribeFrame ''s'' ''/t'')]) \<noteq> [] \<and>
   connectedWritten (sampleRun [InFrame okEnv connectFrame, InFrame okEnv (subscribeFrame ''s'' ''/t'')])"
proof
  show "sn_events (sampleRun [InFrame okEnv (subscribeFrame ''s'' ''/t'')]) \<noteq> []" by code_simp
  let ?es = "[InFrame okEnv connectFrame, InFrame okEnv (subscribeFrame ''s'' ''/t'')]"
  have "list_ex clientEvent (sn_events (sampleRun ?es))" by code_simp
  then obtain e where "e \<in> set (sn_events (sampleRun ?es))" and "clientEvent e" by (auto simp: list_ex_iff)
  with client_events_after_connect [OF headerLaws_listHeaders sampleConfig_law, of "sampleRun ?es"]
  show "connectedWritten (sampleRun ?es)" by (simp only: sampleRun_def)
qed

text \<open>Incoming messages reach the server only for application destinations: every incoming
  message event of every run has a destination under an application prefix, and carries a
  MESSAGE frame without transaction and receipt headers.\<close>

theorem incoming_only_for_applications:
  assumes "headerLaws ho" and "middlewareLaw ho cfg"
    and "c = foldl (connStep ho parse cfg) (newStompConn i a) es"
    and "e \<in> set (sn_events c)" and "ce_eventType e = IncomingMessage"
  shows "IsAppRequestDestination cfg (ce_destination e) \<and>
         (\<exists>f. ce_frame e = Some f \<and> fr_Command f = ''MESSAGE'' \<and>
              ho_contains ho (fr_Header f) ''transaction'' = None \<and> ho_contains ho (fr_Header f) ''receipt'' = None)"
proof -
  have "connGood ho cfg c"
    unfolding assms(3) by (rule conn.run_inv) (simp add: connGood_def assms connInv_new)
  then have "eventOk ho cfg e" using assms(4) by (auto simp: connGood_def connInv_def list_all_iff)
  then show ?thesis using assms(5) by (auto simp: eventOk_def split: option.splits)
qed

theorem incoming_only_for_applications_witness:
  "IsAppRequestDestination sampleConfig
     (ce_destination (sn_events (sampleRun [InFrame okEnv connectFrame, InFrame okEnv sendFrameSample]) ! 1))"
proof -
  let ?c = "sampleRun [InFrame okEnv connectFrame, InFrame okEnv sendFrameSample]"
  have "ce_eventType (sn_events ?c ! 1) = IncomingMessage" and "length (sn_events ?c) = 2" by code_simp+
  then show ?thesis
    using incoming_only_for_applications [OF headerLaws_listHeaders sampleConfig_law sampleRun_def
        nth_mem [of 1 "sn_events ?c"]]
    by simp
qed

text \<open>C21: A connection ends once and is silent afterwards: whatever the client, the server, the
  other goroutines and the middleware do, it announces its end at most once, and from the end on
  nothing more is written to the client.\<close>

theorem closed_once_then_silent:
  assumes "headerLaws ho" and "middlewareLaw ho cfg"
    and "c = foldl (connStep ho parse cfg) (newStompConn i a) es"
  shows "length (closedEvents c) \<le> 1 \<and>
         (sn_done c \<longrightarrow> sn_written (foldl (connStep ho parse cfg) c es') = sn_written c)"
proof
  have "connGood ho cfg c"
    unfolding assms(3) by (rule conn.run_inv) (simp add: connGood_def assms connInv_new)
  then show "length (closedEvents c) \<le> 1" by (auto simp: connGood_def connInv_def split: if_splits)
  show "sn_done c \<longrightarrow> sn_written (foldl (connStep ho parse cfg) c es') = sn_written c"
    using silence.run_inv [of ho cfg "sn_written c" c parse es'] assms(2) by (simp add: silentAt_def)
qed

theorem closed_once_then_silent_witness:
  "length (closedEvents (sampleRun [InFrame okEnv connectFrame, CallClose okEnv, InClosed okEnv])) \<le> 1 \<and>
   length (sn_written (foldl (connStep listHeaders (parseTo (1000000, 9000000)) sampleConfig)
      (sampleRun [InFrame okEnv connectFrame, CallClose okEnv]) [InFrame okEnv sendFrameSample])) = 1"
proof
  show "length (closedEvents (sampleRun [InFrame okEnv connectFrame, CallClose okEnv, InClosed okEnv])) \<le> 1"
    using closed_once_then_silent [OF headerLaws_listHeaders sampleConfig_law refl]
    by (simp only: sampleRun_def)
  let ?c = "sampleRun [InFrame okEnv connectFrame, CallClose okEnv]"
  have d: "sn_done ?c" and w: "length (sn_written ?c) = 1" by code_simp+
  show "length (sn_written (foldl (connStep listHeaders (parseTo (1000000, 9000000)) sampleConfig) ?c
      [InFrame okEnv sendFrameSample])) = 1"
    using closed_once_then_silent [OF headerLaws_listHeaders sampleConfig_law refl] d w
    by (simp only: sampleRun_def)
qed

text \<open>The server's picture of a connection's subscriptions is exact: with the default
  configuration and no lost event, replaying the subscribe and unsubscribe events sent so far
  gives exactly the connection's subscription table, in every run.\<close>

theorem subscription_events_replay:
  assumes "list_all eventsTaken es"
    and "c = foldl (connStep ho parse (NewStompConfig hb ps)) (newStompConn i a) es"
  shows "GetSubscriptions c = replayEvents (sn_events c)"
proof -
  have "subsTracked (newStompConn i a)"
    by (simp add: subsTracked_def newStompConn_def replayEvents_def)
  then have "subsTracked c" unfolding assms(2) using assms(1) by (rule subsTracked_run)
  then show ?thesis by (simp add: subsTracked_def GetSubscriptions_def)
qed

theorem subscription_events_replay_witness:
  "length (replayEvents (sn_events (sampleRun
     [InFrame okEnv connectFrame, InFrame okEnv (subscribeFrame ''s'' ''/t'')]))) = 1"
proof -
  let ?es = "[InFrame okEnv connectFrame, InFrame okEnv (subscribeFrame ''s'' ''/t'')]"
  have "list_all eventsTaken ?es" by (simp add: eventsTaken_def okEnv_def)
  from subscription_events_replay [OF this refl, of listHeaders "parseTo (1000000, 9000000)" 5 "[''/pub'']" "''c''" "''ip''"]
  have "replayEvents (sn_events (sampleRun ?es)) = GetSubscriptions (sampleRun ?es)"
    by (simp only: sampleRun_def sampleConfig_def)
  moreover have "length (GetSubscriptions (sampleRun ?es)) = 1" by code_simp
  ultimately show ?thesis by simp
qed

text \<open>The product that turns the configured milliseconds into a duration is exact up to about 292 years.\<close>

lemma minHeartBeat_exact:
  assumes "0 \<le> sint (cf_heartbeat cfg)" and "sint (cf_heartbeat cfg) \<le> 9223372036854"
  shows "minHeartBeat cfg = 1000000 * min (sint (cf_heartbeat cfg)) 999999999"
proof -
  have "sint (cf_heartbeat cfg * 1000000) = sint (cf_heartbeat cfg) * 1000000"
    using assms by (simp add: sint_word_ariths signed_take_bit_int_eq_self)
  then show ?thesis by (simp add: minHeartBeat_def maxHeartBeatDuration_def min_def)
qed

text \<open>Beyond that it wraps: a larger heart-beat can give a negative duration, so that no minimum is kept.\<close>

lemma minHeartBeat_overflows:
  "minHeartBeat (NewStompConfig 9223372036855 ps) < 0"
  "clampHeartBeat (minHeartBeat (NewStompConfig 9223372036855 ps)) 1000000 = 1000000"
  by (simp_all add: minHeartBeat_def NewStompConfig_def maxHeartBeatDuration_def clampHeartBeat_def Let_def)

text \<open>C22: A CONNECT on a new connection that offers version 1.2 or 1.1 is answered with the highest
  version offered, and the connection is then established. Its heart-beats are off, when the client or the server asks for none,
  or at least the server's minimum \<open>m\<close>, where the server writes with the precision of a nanosecond and
  the answer and the read timeout are in whole milliseconds. The minimum is the configured heart-beat, capped at 999999999 ms,
  as long as the configured one, an \<open>int64\<close>, is between 0 and 9223372036854 ms; its product with a million wraps beyond, and a
  minimum that has become negative bounds nothing.\<close>

theorem connect_negotiates:
  assumes "headerLaws ho" and "sn_state c = Connecting" and "\<not> sn_done c"
    and "en_write env = None" and "\<not> en_closes env"
    and "ho_contains ho (fr_Header f) ''receipt'' = None"
    and "ho_contains ho (fr_Header f) ''accept-version'' = Some (joinWith '','' vs)"
    and "vs \<noteq> []" and "\<forall>v\<in>set vs. CHR '','' \<notin> set v" and "''1.2'' \<in> set vs \<or> ''1.1'' \<in> set vs"
    and "getHeartBeat ho parse f = Inr (cx, cy)" and "0 \<le> cx" and "0 \<le> cy"
    and "m = minHeartBeat cfg"
    and "c' = fst (handleConnect ho parse cfg env f c)"
  shows "snd (handleConnect ho parse cfg env f c) = None \<and> sn_state c' = Connected \<and>
         sn_version c' = (if ''1.2'' \<in> set vs then ''1.2'' else ''1.1'') \<and>
         sn_readTimeoutMs c' = (if cx = 0 \<or> m = 0 then 0 else max cx m div 1000000) \<and>
         sn_writeTimeout c' = (if cy = 0 \<or> m = 0 then 0 else max cy m) \<and>
         sn_written c' = sn_written c @ [Some (frameNew ho ''CONNECTED''
           [(''version'', sn_version c'), (''server'', ''pb33f-ranch/0.0.1''),
            (''heart-beat'', itoa (sn_writeTimeout c' div 1000000) @ '','' @ itoa (sn_readTimeoutMs c'))])] \<and>
         (0 \<le> sint (cf_heartbeat cfg) \<and> sint (cf_heartbeat cfg) \<le> 9223372036854 \<longrightarrow>
            m = 1000000 * min (sint (cf_heartbeat cfg)) 999999999)"
proof -
  let ?v = "if ''1.2'' \<in> set vs then ''1.2'' else ''1.1''"
  have split: "splitOn (CHR '','') (joinWith '','' vs) = vs" using assms(8,9) by (rule splitOn_joinWith)
  have has: "list_ex (\<lambda>v. v = x) vs \<longleftrightarrow> x \<in> set vs" for x :: string by (auto simp: list_ex_iff)
  have v: "determineVersion ho f = Inr ?v"
    using assms(7,10) by (auto simp: determineVersion_def split has)
  have clamp: "clampHeartBeat m x = (if x = 0 \<or> m = 0 then 0 else max x m)" if "0 \<le> x" for x
    using that by (auto simp: clampHeartBeat_def)
  have ms: "inMilliseconds (clampHeartBeat m x) = clampHeartBeat m x div 1000000" if "0 \<le> x" for x
  proof -
    have "0 \<le> clampHeartBeat m x" using clamp [OF that] that by (auto simp: le_max_iff_disj)
    then show ?thesis by (cases "clampHeartBeat m x = 0") (simp_all add: inMilliseconds_def)
  qed
  have v0: "?v \<noteq> ''1.0''" by simp
  have run: "handleConnect ho parse cfg env f c =
      (sendEvent env (eventOf c ConnectionEstablished [] None None)
        (c\<lparr>sn_version := ?v, sn_writeTimeout := clampHeartBeat m cy, sn_readTimeoutMs := clampHeartBeat m cx div 1000000,
           sn_written := sn_written c @ [Some (frameNew ho ''CONNECTED''
             [(''version'', ?v), (''server'', ''pb33f-ranch/0.0.1''),
              (''heart-beat'', itoa (clampHeartBeat m cy div 1000000) @ '','' @ itoa (clampHeartBeat m cx div 1000000))])],
           sn_state := Connected\<rparr>), None)"
    using assms(2-6) v0 ms [OF assms(12)] ms [OF assms(13)]
    by (simp only: handleConnect_def containsHeader_def v assms(11) assms(14) [symmetric] sum.case prod.case Let_def)
       (simp add: writeFrame_def closedMeanwhile_def eventOf_def)
  show ?thesis
    unfolding assms(15) run using clamp [OF assms(12)] clamp [OF assms(13)] minHeartBeat_exact [of cfg] assms(14) by simp
qed

theorem connect_negotiates_witness:
  "sn_state (sampleRun [InFrame okEnv connectFrame]) = Connected \<and>
   sn_readTimeoutMs (sampleRun [InFrame okEnv connectFrame]) = 5 \<and>
   sn_writeTimeout (sampleRun [InFrame okEnv connectFrame]) = 9000000"
proof -
  let ?n = "newStompConn ''c'' ''ip'' :: (string \<times> string) list stompConn"
  let ?h = "handleConnect listHeaders (parseTo (1000000, 9000000)) sampleConfig okEnv connectFrame ?n"
  have "sampleRun [InFrame okEnv connectFrame] = fst ?h" if "snd ?h = None"
    using that by (cases ?h) (simp add: sampleRun_def newStompConn_def handleIncomingFrame_def connectFrame_def frameNew_def)
  moreover have "snd ?h = None \<and> sn_state (fst ?h) = Connected \<and>
      sn_readTimeoutMs (fst ?h) = (if (1000000::int) = 0 \<or> (5000000::int) = 0 then 0 else max 1000000 5000000 div 1000000) \<and>
      sn_writeTimeout (fst ?h) = (if (9000000::int) = 0 \<or> (5000000::int) = 0 then 0 else max 9000000 5000000)"
    using connect_negotiates [OF headerLaws_listHeaders, where c = ?n and env = okEnv and f = connectFrame
        and vs = "[''1.1'', ''1.2'']" and parse = "parseTo (1000000, 9000000)" and cx = 1000000 and cy = 9000000 and cfg = sampleConfig
        and m = 5000000 and c' = "fst ?h"]
    by (simp add: newStompConn_def okEnv_def connectFrame_def frameNew_def listHeaders_def getHeartBeat_def parseTo_def
        sampleConfig_def NewStompConfig_def minHeartBeat_def maxHeartBeatDuration_def)
  ultimately show ?thesis by simp
qed

definition numbered :: "'h headerOps \<Rightarrow> 64 word \<Rightarrow> 'h stompFrame \<Rightarrow> 'h stompFrame" where
  "numbered ho n f = f\<lparr>fr_Header := ho_del ho (ho_set ho (fr_Header f) ''message-id'' (digitsOf (unat n))) ''ack''\<rparr>"

lemma outFrame_step:
  assumes "sn_running c" and "\<not> sn_done c" and "en_write env = None" and "sn_outFrames c = f # fs"
    and "fr_Command f = ''MESSAGE''"
  shows "connStep ho parse cfg c (OutFrame env) =
    c\<lparr>sn_outFrames := fs, sn_currentMessageId := sn_currentMessageId c + 1,
      sn_written := sn_written c @ [Some (numbered ho (sn_currentMessageId c + 1) f)]\<rparr>"
  using assms by (simp add: populateMessageIdHeader_def writeFrame_def numbered_def Let_def)

text \<open>Messages to a client are numbered 1, 2, 3 and so on: writing out the queued MESSAGE frames
  sets on each the message id that follows the last one used, drops its ack header, and keeps
  the order of the queue.\<close>

theorem message_ids_consecutive:
  assumes "sn_running c" and "\<not> sn_done c" and "\<forall>f\<in>set (sn_outFrames c). fr_Command f = ''MESSAGE''"
    and "\<forall>env\<in>set envs. en_write env = None" and "length envs = length (sn_outFrames c)"
  shows "sn_written (foldl (connStep ho parse cfg) c (map OutFrame envs)) =
         sn_written c @ map (\<lambda>i. Some (numbered ho (sn_currentMessageId c + of_nat (Suc i)) (sn_outFrames c ! i)))
           [0..<length (sn_outFrames c)]"
  using assms
proof (induction envs arbitrary: c)
  case Nil
  then show ?case by simp
next
  case (Cons env envs)
  then obtain f fs where q: "sn_outFrames c = f # fs" by (cases "sn_outFrames c") auto
  let ?c = "connStep ho parse cfg c (OutFrame env)"
  have step: "?c = c\<lparr>sn_outFrames := fs, sn_currentMessageId := sn_currentMessageId c + 1,
      sn_written := sn_written c @ [Some (numbered ho (sn_currentMessageId c + 1) f)]\<rparr>"
    using Cons.prems q by (intro outFrame_step) auto
  have ih: "sn_written (foldl (connStep ho parse cfg) ?c (map OutFrame envs)) =
      sn_written ?c @ map (\<lambda>i. Some (numbered ho (sn_currentMessageId ?c + of_nat (Suc i)) (sn_outFrames ?c ! i)))
        [0..<length (sn_outFrames ?c)]"
    using Cons.prems q by (intro Cons.IH) (simp_all add: step del: connStep.simps)
  have "[0..<length (f # fs)] = 0 # map Suc [0..<length fs]" by (simp only: length_Cons upt_conv_Cons map_Suc_upt zero_less_Suc)
  then show ?case
    using ih by (simp add: q step add.assoc del: connStep.simps upt_Suc)
qed

theorem message_ids_consecutive_witness:
  "sn_written (foldl (connStep listHeaders (parseTo (1000000, 9000000)) sampleConfig)
     ((newStompConn ''c'' ''ip'')\<lparr>sn_outFrames := [frameNew listHeaders ''MESSAGE'' [(''ack'', ''x'')], frameNew listHeaders ''MESSAGE'' []]\<rparr>)
     (map OutFrame [okEnv, okEnv])) =
   [Some (frameNew listHeaders ''MESSAGE'' [(''message-id'', ''1'')]), Some (frameNew listHeaders ''MESSAGE'' [(''message-id'', ''2'')])]"
proof -
  let ?f = "frameNew listHeaders ''MESSAGE'' [(''ack'', ''x'')]" and ?g = "frameNew listHeaders ''MESSAGE'' []"
  have n: "numbered listHeaders 1 ?f = frameNew listHeaders ''MESSAGE'' [(''message-id'', ''1'')]"
    "numbered listHeaders 2 ?g = frameNew listHeaders ''MESSAGE'' [(''message-id'', ''2'')]"
    by code_simp+
  have "sn_written (foldl (connStep listHeaders (parseTo (1000000, 9000000)) sampleConfig) ((newStompConn ''c'' ''ip'')\<lparr>sn_outFrames := [?f, ?g]\<rparr>)
     (map OutFrame [okEnv, okEnv])) = [Some (numbered listHeaders 1 ?f), Some (numbered listHeaders 2 ?g)]"
    by (subst message_ids_consecutive) (simp_all add: newStompConn_def okEnv_def upt_rec, simp_all add: frameNew_def)
  then show ?thesis unfolding n .
qed

lemma setMiddleware_prefixes:
  "IsAppRequestDestination (SetMiddlewareRegistry reg cfg) = IsAppRequestDestination cfg"
  "minHeartBeat (SetMiddlewareRegistry reg cfg) = minHeartBeat cfg"
  by (auto simp: IsAppRequestDestination_def SetMiddlewareRegistry_def minHeartBeat_def)

text \<open>Only SUBSCRIBE frames pass through the registered middleware: for every other command the
  handling of a frame does not depend on the registry, the entry for all commands included.\<close>

theorem middleware_only_on_subscribe:
  assumes "fr_Command f \<noteq> ''SUBSCRIBE''"
  shows "handleIncomingFrame ho parse (SetMiddlewareRegistry reg cfg) env f c = handleIncomingFrame ho parse cfg env f c"
  using assms
  by (simp only: handleIncomingFrame_def handleConnect_def handleSend_def setMiddleware_prefixes if_False simp_thms)

theorem middleware_only_on_subscribe_witness:
  "sn_events (fst (handleIncomingFrame listHeaders (parseTo (1000000, 9000000))
     (SetMiddlewareRegistry [(''*'', [\<lambda>h f c. (c, Some ''refused'')])] sampleConfig) okEnv sendFrameSample
     (sampleRun [InFrame okEnv connectFrame]))) \<noteq> []"
proof -
  have "fr_Command sendFrameSample \<noteq> ''SUBSCRIBE''" by code_simp
  moreover have "sn_events (fst (handleIncomingFrame listHeaders (parseTo (1000000, 9000000)) sampleConfig okEnv sendFrameSample
     (sampleRun [InFrame okEnv connectFrame]))) \<noteq> []" by code_simp
  ultimately show ?thesis by (simp only: middleware_only_on_subscribe simp_thms)
qed

end
