(* ===== verification/StompServerFacts.thy ===== *)
theory StompServerFacts
  imports StompServer StompConnFacts
begin

text \<open>
  What the STOMP server (stompserver/server.go) keeps: its subscription map is a relation
  between destinations, connections and subscription ids, the callbacks tell exactly how it
  changes, and a message reaches exactly the subscriptions of its destination.
\<close>

subsection \<open>The subscription map as a relation\<close>

definition subsRel :: "'h stompServer \<Rightarrow> (string \<times> string \<times> string) set" where
  "subsRel s = {(d, con, i). \<exists>m subs. subscriptionsAt s d = Some m \<and> gm_get m con = Some subs \<and> gm_get subs i \<noteq> None}"

fun applyEvent :: "'h connEvent \<Rightarrow> (string \<times> string \<times> string) set \<Rightarrow> (string \<times> string \<times> string) set" where
  "applyEvent e R =
     (case (ce_eventType e, ce_sub e) of
        (ConnectionClosed, _) \<Rightarrow> {(d, con, i) \<in> R. con \<noteq> ce_ConnId e}
      | (SubscribeToTopic, Some sub) \<Rightarrow> insert (ce_destination e, ce_ConnId e, su_id sub) R
      | (UnsubscribeFromTopic, Some sub) \<Rightarrow> R - {(ce_destination e, ce_ConnId e, su_id sub)}
      | _ \<Rightarrow> R)"

definition needsSub :: "'h connEvent \<Rightarrow> bool" where
  "needsSub e \<longleftrightarrow> ce_eventType e = SubscribeToTopic \<or> ce_eventType e = UnsubscribeFromTopic"

lemma logCalls_fields [simp]:
  "sv_subscriptionsMap (logCalls cs s) = sv_subscriptionsMap s"
  "sv_connections (logCalls cs s) = sv_connections s"
  "sv_connectionsMap (logCalls cs s) = sv_connectionsMap s"
  "sv_panicked (logCalls cs s) = sv_panicked s"
  "sv_calls (logCalls cs s) = sv_calls s @ cs"
  "sv_subscribeCallbacks (logCalls cs s) = sv_subscribeCallbacks s"
  "sv_unsubscribeCallbacks (logCalls cs s) = sv_unsubscribeCallbacks s"
  "sv_connectionEventCallbacks (logCalls cs s) = sv_connectionEventCallbacks s"
  "sv_connectionEvents (logCalls cs s) = sv_connectionEvents s"
  "sv_config (logCalls cs s) = sv_config s"
  by (simp_all add: logCalls_def)

lemma connectionCallback_fields [simp]:
  "sv_subscriptionsMap (connectionCallback e s) = sv_subscriptionsMap s"
  "sv_connections (connectionCallback e s) = sv_connections s"
  "sv_connectionsMap (connectionCallback e s) = sv_connectionsMap s"
  "sv_panicked (connectionCallback e s) = sv_panicked s"
  "sv_subscribeCallbacks (connectionCallback e s) = sv_subscribeCallbacks s"
  "sv_unsubscribeCallbacks (connectionCallback e s) = sv_unsubscribeCallbacks s"
  "sv_connectionEvents (connectionCallback e s) = sv_connectionEvents s"
  "sv_config (connectionCallback e s) = sv_config s"
  by (simp_all add: connectionCallback_def split: option.splits)

lemma subsRel_cong: "sv_subscriptionsMap s = sv_subscriptionsMap t \<Longrightarrow> subsRel s = subsRel t"
  by (simp add: subsRel_def subscriptionsAt_def)

lemma subsRel_frame [simp]:
  "subsRel (logCalls cs s) = subsRel s" "subsRel (connectionCallback e s) = subsRel s"
  "subsRel (s\<lparr>sv_connectionsMap := m\<rparr>) = subsRel s" "subsRel (s\<lparr>sv_connectionEvents := es\<rparr>) = subsRel s"
  by (rule subsRel_cong, simp)+

lemma subsRel_closed:
  "subsRel (s\<lparr>sv_subscriptionsMap := map (\<lambda>(d, cs). (d, gm_del con cs)) (sv_subscriptionsMap s)\<rparr>) =
   {(d, c, i) \<in> subsRel s. c \<noteq> con}"
  using gm_get_map [of "\<lambda>d cs. gm_del con cs" "sv_subscriptionsMap s"]
  by (auto simp: subsRel_def subscriptionsAt_def split: if_splits)

lemma subsRel_set:
  "subsRel (s\<lparr>sv_subscriptionsMap := gm_set d m (sv_subscriptionsMap s)\<rparr>) =
   {(d', c, i) \<in> subsRel s. d' \<noteq> d} \<union> {(d', c, i). d' = d \<and> (\<exists>subs. gm_get m c = Some subs \<and> gm_get subs i \<noteq> None)}"
  by (auto simp: subsRel_def subscriptionsAt_def split: if_splits)

lemma subsRel_subscribe:
  assumes "ce_sub e = Some sub"
  shows "subsRel (onSubscribeToTopic e s) = insert (ce_destination e, ce_ConnId e, su_id sub) (subsRel s)"
  using assms
  by (auto simp: onSubscribeToTopic_def Let_def subsRel_set)
     (auto simp: subsRel_def subscriptionsAt_def split: option.splits if_splits)

lemma subsRel_unsubscribe:
  assumes "ce_sub e = Some sub"
  shows "subsRel (onUnsubscribeFromTopic e s) = subsRel s - {(ce_destination e, ce_ConnId e, su_id sub)}"
  using assms
  by (auto simp: onUnsubscribeFromTopic_def subsRel_set split: option.splits)
     (auto simp: subsRel_def subscriptionsAt_def split: option.splits if_splits)

lemma subsRel_handle:
  assumes "needsSub e \<Longrightarrow> ce_sub e \<noteq> None"
  shows "subsRel (handleConnectionEvent e s) = applyEvent e (subsRel s)"
proof (cases "ce_eventType e")
  case ConnectionStarting
  then show ?thesis by (simp add: handleConnectionEvent_def onConnectionStarting_def)
next
  case ConnectionClosed
  then show ?thesis
    using subsRel_closed [where con = "ce_ConnId e" and s = "s\<lparr>sv_connectionsMap := gm_del (ce_ConnId e) (sv_connectionsMap s)\<rparr>"]
    by (simp add: handleConnectionEvent_def onConnectionClosed_def Let_def)
next
  case SubscribeToTopic
  with assms obtain sub where "ce_sub e = Some sub" by (auto simp: needsSub_def)
  with SubscribeToTopic show ?thesis by (simp add: handleConnectionEvent_def subsRel_subscribe)
next
  case UnsubscribeFromTopic
  with assms obtain sub where "ce_sub e = Some sub" by (auto simp: needsSub_def)
  with UnsubscribeFromTopic show ?thesis by (simp add: handleConnectionEvent_def subsRel_unsubscribe)
next
  case IncomingMessage
  then show ?thesis
    by (auto simp: handleConnectionEvent_def onIncomingMessage_def subsRel_def subscriptionsAt_def split: option.splits list.splits)
qed (simp add: handleConnectionEvent_def)

subsection \<open>What the callbacks tell\<close>

fun replayCall :: "nat \<Rightarrow> nat \<Rightarrow> (string \<times> string \<times> string) set \<Rightarrow> 'h serverCall \<Rightarrow> (string \<times> string \<times> string) set" where
  "replayCall k k' R (SubscribeCall j con i d f) = (if j = k then insert (d, con, i) R else R)"
| "replayCall k k' R (UnsubscribeCall j con i d) = (if j = k' then R - {(d, con, i)} else R)"
| "replayCall k k' R (ConnectionCall j e) = R"
| "replayCall k k' R (RequestCall j d b con) = R"

definition told :: "nat \<Rightarrow> nat \<Rightarrow> 'h stompServer \<Rightarrow> (string \<times> string \<times> string) set" where
  "told k k' s = foldl (replayCall k k') {} (sv_calls s)"

definition tableOk :: "'h stompServer \<Rightarrow> bool" where
  "tableOk s \<longleftrightarrow>
     (\<forall>d m con subs i sub. subscriptionsAt s d = Some m \<longrightarrow> gm_get m con = Some subs \<longrightarrow> gm_get subs i = Some sub \<longrightarrow>
        su_id sub = i \<and> su_destination sub = d) \<and>
     (\<forall>d m. subscriptionsAt s d = Some m \<longrightarrow> gm_ok m \<and> (\<forall>con subs. gm_get m con = Some subs \<longrightarrow> gm_ok subs))"

definition tellsTable :: "nat \<Rightarrow> nat \<Rightarrow> 'h stompServer \<Rightarrow> bool" where
  "tellsTable k k' s \<longleftrightarrow>
     k \<in> set (sv_subscribeCallbacks s) \<and> k' \<in> set (sv_unsubscribeCallbacks s) \<and> tableOk s \<and> told k k' s = subsRel s"

lemma told_logCalls: "told k k' (logCalls cs s) = foldl (replayCall k k') (told k k' s) cs"
  by (simp add: told_def)

lemma told_connectionCallback [simp]: "told k k' (connectionCallback e s) = told k k' s"
  by (simp add: connectionCallback_def told_logCalls split: option.splits)

lemma told_updates [simp]:
  "told k k' (s\<lparr>sv_subscriptionsMap := m\<rparr>) = told k k' s" "told k k' (s\<lparr>sv_connectionsMap := c\<rparr>) = told k k' s"
  "told k k' (s\<lparr>sv_connectionEvents := es\<rparr>) = told k k' s"
  by (simp_all add: told_def)

lemma replay_subscribe:
  "foldl (replayCall k k') R (map (\<lambda>j. SubscribeCall j con i d f) js) = (if k \<in> set js then insert (d, con, i) R else R)"
  by (induction js arbitrary: R) auto

definition isUnsubscribeCall :: "'h serverCall \<Rightarrow> bool" where
  "isUnsubscribeCall c \<longleftrightarrow> (case c of UnsubscribeCall j con i d \<Rightarrow> True | _ \<Rightarrow> False)"

lemma replay_unsubscribes:
  "list_all isUnsubscribeCall cs \<Longrightarrow>
   foldl (replayCall k k') R cs = R - {(d, con, i). UnsubscribeCall k' con i d \<in> set cs}"
  by (induction cs arbitrary: R) (auto simp: isUnsubscribeCall_def split: serverCall.splits)

lemma unsubscribeCallsFor_set:
  "UnsubscribeCall j c i d \<in> set (unsubscribeCallsFor cbs con subs) \<longleftrightarrow>
   j \<in> set cbs \<and> c = con \<and> (\<exists>sub \<in> set (gm_vals subs). su_id sub = i \<and> su_destination sub = d)"
  by (auto simp: unsubscribeCallsFor_def)

lemma unsubscribeCallsFor_all: "list_all isUnsubscribeCall (unsubscribeCallsFor cbs con subs)"
  by (auto simp: unsubscribeCallsFor_def list_all_iff isUnsubscribeCall_def)

definition closingCalls :: "string \<Rightarrow> 'h stompServer \<Rightarrow> 'h serverCall list" where
  "closingCalls con s =
     concat (map (\<lambda>(d, cs). case gm_get cs con of None \<Rightarrow> [] | Some subs \<Rightarrow> unsubscribeCallsFor (sv_unsubscribeCallbacks s) con subs)
       (sv_subscriptionsMap s))"

lemma closingCalls_all: "list_all isUnsubscribeCall (closingCalls con s)"
  using unsubscribeCallsFor_all
  by (auto simp: closingCalls_def list_all_iff split: option.splits)

lemma closingCalls_cover:
  assumes "tableOk s" and "(d, con, i) \<in> subsRel s" and "k' \<in> set (sv_unsubscribeCallbacks s)"
  shows "UnsubscribeCall k' con i d \<in> set (closingCalls con s)"
proof -
  from assms(2) obtain m subs sub where m: "gm_get (sv_subscriptionsMap s) d = Some m" "gm_get m con = Some subs"
    "gm_get subs i = Some sub" by (auto simp: subsRel_def subscriptionsAt_def)
  then have "su_id sub = i" "su_destination sub = d"
    using assms(1) unfolding tableOk_def subscriptionsAt_def by blast+
  moreover have "sub \<in> set (gm_vals subs)" using m(3) gm_get_SomeD [of subs i sub] by (force simp: gm_vals_def)
  ultimately have "UnsubscribeCall k' con i d \<in> set (unsubscribeCallsFor (sv_unsubscribeCallbacks s) con subs)"
    using assms(3) by (auto simp: unsubscribeCallsFor_set)
  moreover have "(d, m) \<in> set (sv_subscriptionsMap s)" using m(1) by (rule gm_get_SomeD)
  ultimately show ?thesis using m(2) unfolding closingCalls_def by force
qed

lemma closingCalls_only:
  "UnsubscribeCall k' c i d \<in> set (closingCalls con s) \<Longrightarrow> c = con"
  by (auto simp: closingCalls_def unsubscribeCallsFor_set split: option.splits)

lemma told_closed:
  assumes "tellsTable k k' s"
  shows "told k k' (onConnectionClosed e s) = {(d, c, i) \<in> subsRel s. c \<noteq> ce_ConnId e}"
proof -
  have "told k k' (onConnectionClosed e s) = foldl (replayCall k k') (subsRel s) (closingCalls (ce_ConnId e) s)"
    using assms by (simp add: onConnectionClosed_def Let_def told_logCalls closingCalls_def tellsTable_def)
  also have "\<dots> = subsRel s - {(d, c, i). UnsubscribeCall k' c i d \<in> set (closingCalls (ce_ConnId e) s)}"
    by (rule replay_unsubscribes) (rule closingCalls_all)
  also have "\<dots> = {(d, c, i) \<in> subsRel s. c \<noteq> ce_ConnId e}"
    using assms closingCalls_cover closingCalls_only by (fastforce simp: tellsTable_def)
  finally show ?thesis .
qed

lemma tableOk_cong: "sv_subscriptionsMap s = sv_subscriptionsMap t \<Longrightarrow> tableOk s = tableOk t"
  by (simp add: tableOk_def subscriptionsAt_def)

lemma tableOk_frame [simp]:
  "tableOk (logCalls cs s) = tableOk s" "tableOk (connectionCallback e s) = tableOk s"
  "tableOk (s\<lparr>sv_connectionsMap := m\<rparr>) = tableOk s" "tableOk (s\<lparr>sv_connectionEvents := es\<rparr>) = tableOk s"
  by (rule tableOk_cong, simp)+

lemma tableOk_closed:
  "tableOk s \<Longrightarrow> tableOk (s\<lparr>sv_subscriptionsMap := map (\<lambda>(d, cs). (d, gm_del con cs)) (sv_subscriptionsMap s)\<rparr>)"
  using gm_get_map [of "\<lambda>d cs. gm_del con cs" "sv_subscriptionsMap s"]
  unfolding tableOk_def subscriptionsAt_def by (auto split: if_splits)

lemma tableOk_subscribe:
  assumes "tableOk s" and "ce_sub e = Some sub" and "su_destination sub = ce_destination e"
  shows "tableOk (onSubscribeToTopic e s)"
  using assms unfolding tableOk_def subscriptionsAt_def
  by (auto simp: onSubscribeToTopic_def Let_def subscriptionsAt_def split: if_splits option.splits)

lemma tableOk_unsubscribe:
  assumes "tableOk s"
  shows "tableOk (onUnsubscribeFromTopic e s)"
  using assms unfolding tableOk_def subscriptionsAt_def
  by (auto simp: onUnsubscribeFromTopic_def subscriptionsAt_def split: if_splits option.splits)

lemma eventOk_sub:
  "eventOk ho cfg e \<Longrightarrow> needsSub e \<Longrightarrow> \<exists>sub. ce_sub e = Some sub \<and> su_destination sub = ce_destination e"
  by (auto simp: eventOk_def needsSub_def split: option.splits)

lemma handle_callbacks [simp]:
  "sv_subscribeCallbacks (handleConnectionEvent e s) = sv_subscribeCallbacks s"
  "sv_unsubscribeCallbacks (handleConnectionEvent e s) = sv_unsubscribeCallbacks s"
  "sv_connections (handleConnectionEvent e s) = sv_connections s"
  "sv_connectionEvents (handleConnectionEvent e s) = sv_connectionEvents s"
  "sv_config (handleConnectionEvent e s) = sv_config s"
  by (simp_all add: handleConnectionEvent_def onConnectionStarting_def onConnectionClosed_def onSubscribeToTopic_def
      onUnsubscribeFromTopic_def onIncomingMessage_def Let_def split: sessionEvent.splits option.splits list.splits)

lemma told_handle:
  fixes s :: "'h stompServer"
  assumes t: "tellsTable k k' s" and ok: "eventOk ho cfg e"
  shows "told k k' (handleConnectionEvent e s) = applyEvent e (subsRel s)"
proof (cases "ce_eventType e")
  case ConnectionClosed
  then show ?thesis using told_closed [OF t] by (simp add: handleConnectionEvent_def)
next
  case SubscribeToTopic
  with ok obtain sub where "ce_sub e = Some sub" using eventOk_sub needsSub_def by blast
  with SubscribeToTopic t show ?thesis
    by (simp add: handleConnectionEvent_def onSubscribeToTopic_def Let_def told_logCalls replay_subscribe tellsTable_def)
next
  case UnsubscribeFromTopic
  with ok obtain sub where sub: "ce_sub e = Some sub" using eventOk_sub needsSub_def by blast
  let ?cs = "map (\<lambda>j. UnsubscribeCall j (ce_ConnId e) (su_id sub) (ce_destination e)) (sv_unsubscribeCallbacks s) :: 'h serverCall list"
  have cs: "foldl (replayCall k k') R ?cs = R - {(ce_destination e, ce_ConnId e, su_id sub)}" for R
    using t by (subst replay_unsubscribes) (auto simp: list_all_iff isUnsubscribeCall_def tellsTable_def)
  have "told k k' (onUnsubscribeFromTopic e s) =
      (if (ce_destination e, ce_ConnId e, su_id sub) \<in> subsRel s then foldl (replayCall k k') (told k k' s) ?cs else told k k' s)"
    by (simp add: onUnsubscribeFromTopic_def sub told_logCalls subsRel_def subscriptionsAt_def split: option.splits)
  then have "told k k' (onUnsubscribeFromTopic e s) = subsRel s - {(ce_destination e, ce_ConnId e, su_id sub)}"
    using t by (simp add: cs tellsTable_def)
  then show ?thesis using UnsubscribeFromTopic sub by (simp add: handleConnectionEvent_def)
next
  case IncomingMessage
  have req: "foldl (replayCall k k') R (map (\<lambda>j. RequestCall j d b c) js) = R" for R d b c js
    by (induction js arbitrary: R) auto
  have p: "told k k' (s\<lparr>sv_panicked := b\<rparr>) = told k k' s" for b by (simp add: told_def)
  show ?thesis using IncomingMessage t
    by (simp add: handleConnectionEvent_def onIncomingMessage_def told_logCalls tellsTable_def req p split: option.splits list.splits)
qed (use t in \<open>simp_all add: handleConnectionEvent_def onConnectionStarting_def tellsTable_def\<close>)

lemma tableOk_handle: "tableOk s \<Longrightarrow> eventOk ho cfg e \<Longrightarrow> tableOk (handleConnectionEvent e s)"
proof (cases "ce_eventType e")
  case ConnectionClosed
  assume "tableOk s"
  then show ?thesis
    using ConnectionClosed tableOk_closed [where con = "ce_ConnId e" and s = "s\<lparr>sv_connectionsMap := gm_del (ce_ConnId e) (sv_connectionsMap s)\<rparr>"]
    by (simp add: handleConnectionEvent_def onConnectionClosed_def Let_def)
next
  case SubscribeToTopic
  assume "tableOk s" and "eventOk ho cfg e"
  then show ?thesis using SubscribeToTopic eventOk_sub [of ho cfg e]
    by (auto simp: handleConnectionEvent_def needsSub_def intro: tableOk_subscribe)
next
  case UnsubscribeFromTopic
  assume "tableOk s"
  then show ?thesis using UnsubscribeFromTopic by (simp add: handleConnectionEvent_def tableOk_unsubscribe)
next
  case IncomingMessage
  assume "tableOk s"
  moreover have "tableOk (s\<lparr>sv_panicked := b\<rparr>) = tableOk s" for b by (rule tableOk_cong) simp
  ultimately show ?thesis using IncomingMessage
    by (simp add: handleConnectionEvent_def onIncomingMessage_def split: option.splits list.splits)
qed (simp_all add: handleConnectionEvent_def onConnectionStarting_def)

lemma tellsTable_handle:
  assumes "tellsTable k k' s" and "eventOk ho cfg e"
  shows "tellsTable k k' (handleConnectionEvent e s)"
proof -
  have "subsRel (handleConnectionEvent e s) = applyEvent e (subsRel s)"
    using eventOk_sub [OF assms(2)] by (intro subsRel_handle) auto
  then show ?thesis
    using assms told_handle [OF assms] tableOk_handle [of s ho cfg e] by (simp add: tellsTable_def del: applyEvent.simps)
qed

lemma panic_handle: "eventOk ho cfg e \<Longrightarrow> sv_panicked (handleConnectionEvent e s) = sv_panicked s"
  by (cases "ce_eventType e")
     (auto simp: handleConnectionEvent_def onConnectionStarting_def onConnectionClosed_def onSubscribeToTopic_def
      onUnsubscribeFromTopic_def onIncomingMessage_def eventOk_def Let_def split: option.splits list.splits)

subsection \<open>The server with its connections\<close>

definition serverInv :: "'h headerOps \<Rightarrow> nat \<Rightarrow> nat \<Rightarrow> 'h stompServer \<Rightarrow> bool" where
  "serverInv ho k k' s \<longleftrightarrow>
     headerLaws ho \<and> middlewareLaw ho (sv_config s) \<and> tellsTable k k' s \<and>
     (\<forall>i c. gm_get (sv_connections s) i = Some c \<longrightarrow> connInv ho (sv_config s) c) \<and>
     list_all (eventOk ho (sv_config s)) (sv_connectionEvents s) \<and> \<not> sv_panicked s"

definition sameTable :: "'h stompServer \<Rightarrow> 'h stompServer \<Rightarrow> bool" where
  "sameTable s t \<longleftrightarrow>
     sv_subscriptionsMap t = sv_subscriptionsMap s \<and> sv_calls t = sv_calls s \<and> sv_config t = sv_config s \<and>
     sv_subscribeCallbacks t = sv_subscribeCallbacks s \<and> sv_unsubscribeCallbacks t = sv_unsubscribeCallbacks s \<and>
     sv_panicked t = sv_panicked s"

lemma tellsTable_same: "sameTable s t \<Longrightarrow> tellsTable k k' s \<Longrightarrow> tellsTable k k' t"
  using subsRel_cong [of t s] tableOk_cong [of t s] by (auto simp: sameTable_def tellsTable_def told_def)

lemma serverInv_frame:
  assumes "serverInv ho k k' s" and "sameTable s t"
    and "\<And>i c. gm_get (sv_connections t) i = Some c \<Longrightarrow> connInv ho (sv_config s) c"
    and "list_all (eventOk ho (sv_config s)) (sv_connectionEvents t)"
  shows "serverInv ho k k' t"
  using assms tellsTable_same [OF assms(2), of k k'] by (auto simp: serverInv_def sameTable_def)

lemma withConnection_inv:
  assumes inv: "serverInv ho k k' s" and g: "\<And>c. connInv ho (sv_config s) c \<Longrightarrow> connInv ho (sv_config s) (g c)"
  shows "serverInv ho k k' (withConnection i g s)"
proof (cases "gm_get (sv_connections s) i")
  case None
  then show ?thesis using inv by (simp add: withConnection_def)
next
  case (Some c)
  then have gc: "connInv ho (sv_config s) (g c)" using inv g by (auto simp: serverInv_def)
  then have "list_all (eventOk ho (sv_config s)) (drop n (sn_events (g c)))" for n
    by (auto simp: connInv_def list_all_iff dest: in_set_dropD)
  then show ?thesis using inv gc Some
    by (intro serverInv_frame [OF inv]) (auto simp: withConnection_def sameTable_def serverInv_def split: if_splits)
qed

lemma withConnection_config [simp]: "sv_config (withConnection i g s) = sv_config s"
  by (simp add: withConnection_def split: option.splits)

lemma withConnections_inv:
  assumes "serverInv ho k k' s" and "\<And>c. connInv ho (sv_config s) c \<Longrightarrow> connInv ho (sv_config s) (g c)"
  shows "serverInv ho k k' (withConnections is g s)"
  using assms unfolding withConnections_def
proof (induction "is" arbitrary: s)
  case (Cons i "is")
  from Cons.prems have "serverInv ho k k' (withConnection i g s)" by (rule withConnection_inv)
  from Cons.IH [OF this] Cons.prems(2) show ?case by simp
qed simp

lemma updConnection_inv:
  assumes inv: "serverInv ho k k' s" and g: "\<And>c. connInv ho (sv_config s) c \<Longrightarrow> connInv ho (sv_config s) (g c)"
  shows "serverInv ho k k' (updConnection i g s)"
  using inv g by (intro serverInv_frame [OF inv])
    (auto simp: updConnection_def sameTable_def serverInv_def split: if_splits option.splits)

lemma updConnection_fields [simp]:
  "sv_config (updConnection i g s) = sv_config s"
  "sv_subscriptionsMap (updConnection i g s) = sv_subscriptionsMap s"
  by (simp_all add: updConnection_def split: option.splits)

lemma sendAll_inv:
  "serverInv ho k k' s \<Longrightarrow> serverInv ho k k' (foldl (\<lambda>t p. sendToOne ho late f p t) s ps)"
proof (induction ps arbitrary: s)
  case (Cons p ps)
  then have "serverInv ho k k' (sendToOne ho late f p s)"
    unfolding sendToOne_def by (intro updConnection_inv) (auto intro: connInv_frame)
  then show ?case using Cons.IH by simp
qed simp

lemma serverInv_plain:
  "serverInv ho k k' s \<Longrightarrow> sameTable s t \<Longrightarrow> sv_connections t = sv_connections s \<Longrightarrow>
   sv_connectionEvents t = sv_connectionEvents s \<Longrightarrow> serverInv ho k k' t"
  by (rule serverInv_frame) (auto simp: serverInv_def)

lemma serverInv_updates:
  assumes "serverInv ho k k' s"
  shows "serverInv ho k k' (s\<lparr>sv_done := b\<rparr>)" "serverInv ho k k' (s\<lparr>sv_running := b\<rparr>)"
    "serverInv ho k k' (s\<lparr>sv_accepting := b\<rparr>)" "serverInv ho k k' (s\<lparr>sv_pending := p\<rparr>)"
    "serverInv ho k k' (s\<lparr>sv_apiEvents := as\<rparr>)" "serverInv ho k k' (s\<lparr>sv_connectionsMap := m\<rparr>)"
  by (rule serverInv_plain [OF assms]; simp add: sameTable_def)+

lemma runApiEvent_inv:
  assumes "serverInv ho k k' s" shows "serverInv ho k k' (runApiEvent ho late env e s)"
proof (cases e)
  case CloseServer
  have "serverInv ho k k' (withConnections (gm_keys (sv_connectionsMap s)) (connClose env) (s\<lparr>sv_done := True\<rparr>))"
    by (rule withConnections_inv) (auto intro: serverInv_updates assms connClose_inv)
  then show ?thesis using CloseServer by (simp add: runApiEvent_def serverInv_updates)
next
  case (CloseConnectionByIP ip msg)
  then show ?thesis using assms
    by (auto simp: runApiEvent_def intro!: withConnections_inv connClose_inv SendError_inv)
qed (use assms in \<open>simp_all add: runApiEvent_def sendFrame_def sendFrameToClient_def sendAll_inv\<close>)

lemma handle_inv:
  assumes inv: "serverInv ho k k' s" and q: "sv_connectionEvents s = e # es"
  shows "serverInv ho k k' (handleConnectionEvent e (s\<lparr>sv_connectionEvents := es\<rparr>))"
proof -
  have ok: "eventOk ho (sv_config s) e" using inv q by (simp add: serverInv_def)
  have "serverInv ho k k' (s\<lparr>sv_connectionEvents := es\<rparr>)"
    using inv q by (intro serverInv_frame [OF inv]) (auto simp: sameTable_def serverInv_def)
  then show ?thesis
    using tellsTable_handle [OF _ ok, of k k' "s\<lparr>sv_connectionEvents := es\<rparr>"] panic_handle [OF ok] by (simp add: serverInv_def)
qed

lemma acceptConnection_inv: "serverInv ho k k' s \<Longrightarrow> serverInv ho k k' (acceptConnection addr i blocked s)"
  by (auto simp: acceptConnection_def serverInv_updates)
     (rule serverInv_frame, auto simp: sameTable_def serverInv_def connInv_new split: if_splits)

lemma announceConnection_inv:
  assumes "serverInv ho k k' s" shows "serverInv ho k k' (announceConnection env s)"
proof (cases "sv_pending s")
  case (Cons i "is")
  have c: "serverInv ho k k' (s\<lparr>sv_pending := is, sv_accepting := False\<rparr>)"
    by (intro serverInv_updates assms)
  then have "serverInv ho k k' (withConnection i (connClose env) (s\<lparr>sv_pending := is, sv_accepting := False\<rparr>))"
    by (rule withConnection_inv) (rule connClose_inv)
  moreover have "serverInv ho k k' (s\<lparr>sv_pending := is, sv_connectionEvents := sv_connectionEvents s @
      [\<lparr>ce_ConnId = i, ce_eventType = ConnectionStarting, ce_destination = [], ce_sub = None, ce_frame = None\<rparr>]\<rparr>)"
    using assms by (intro serverInv_frame [OF assms]) (auto simp: sameTable_def serverInv_def eventOk_def)
  ultimately show ?thesis using Cons by (simp add: announceConnection_def sendConnectionEvent_def Let_def)
qed (use assms in \<open>simp add: announceConnection_def sendConnectionEvent_def\<close>)

lemma serverStep_inv:
  assumes "serverInv ho k k' s" shows "serverInv ho k k' (serverStep ho parse s e)"
proof (cases e)
  case (SvConnection i ce)
  have "headerLaws ho" "middlewareLaw ho (sv_config s)" using assms by (simp_all add: serverInv_def)
  then show ?thesis using SvConnection assms
    by (auto intro!: withConnection_inv connStep_inv)
next
  case (SvRunApi late env)
  then show ?thesis using assms
    by (auto split: list.splits intro!: runApiEvent_inv serverInv_updates)
next
  case SvRunConnection
  then show ?thesis using assms by (auto split: list.splits intro: handle_inv)
qed (use assms in \<open>auto simp: sendAPIEvent_def serverStart_def serverStop_def sendCloseEvent_def Let_def acceptConnection_inv announceConnection_inv
    intro!: serverInv_updates intro: serverInv_plain\<close>)

interpretation server: machine "serverStep ho parse" "serverInv ho k k'" for ho parse k k'
  by unfold_locales (rule serverStep_inv)

subsection \<open>Who gets a message\<close>

definition frameFor :: "'h headerOps \<Rightarrow> 'h stompFrame \<Rightarrow> subscription \<Rightarrow> 'h stompFrame" where
  "frameFor ho f sub = f\<lparr>fr_Header := ho_add ho (fr_Header f) ''subscription'' (su_id sub)\<rparr>"

lemma sendToOne_get:
  "gm_get (sv_connections (sendToOne ho late f p s)) i =
   (case gm_get (sv_connections s) i of
      None \<Rightarrow> None
    | Some c \<Rightarrow> Some (if i = fst p then SendFrameToSubscription ho (\<not> sn_done c \<or> late i) f (snd p) c else c))"
  by (auto simp: sendToOne_def updConnection_def split: option.splits)

lemma sendAll_get:
  assumes "gm_get (sv_connections s) con = Some c" and "\<not> sn_done c"
    and "filter (\<lambda>p. fst p = con) ps = [] \<or> length (sn_outFrames c) + length (filter (\<lambda>p. fst p = con) ps) \<le> 32"
  shows "gm_get (sv_connections (foldl (\<lambda>t p. sendToOne ho late f p t) s ps)) con =
         Some (c\<lparr>sn_outFrames := sn_outFrames c @ map (\<lambda>p. frameFor ho f (snd p)) (filter (\<lambda>p. fst p = con) ps)\<rparr>)"
  using assms
proof (induction ps arbitrary: s c)
  case (Cons p ps)
  let ?s = "sendToOne ho late f p s"
  let ?c = "if con = fst p then c\<lparr>sn_outFrames := sn_outFrames c @ [frameFor ho f (snd p)]\<rparr> else c"
  have "gm_get (sv_connections ?s) con = Some ?c"
    using Cons.prems by (auto simp: sendToOne_get SendFrameToSubscription_def frameFor_def split: if_splits)
  moreover have "\<not> sn_done ?c" using Cons.prems(2) by simp
  moreover have "filter (\<lambda>p. fst p = con) ps = [] \<or>
      length (sn_outFrames ?c) + length (filter (\<lambda>p. fst p = con) ps) \<le> 32"
    using Cons.prems(3) by auto
  ultimately have "gm_get (sv_connections (foldl (\<lambda>t p. sendToOne ho late f p t) ?s ps)) con =
      Some (?c\<lparr>sn_outFrames := sn_outFrames ?c @ map (\<lambda>p. frameFor ho f (snd p)) (filter (\<lambda>p. fst p = con) ps)\<rparr>)"
    by (rule Cons.IH)
  then show ?case by auto
qed simp

lemma targets_of_connection:
  "gm_ok m \<Longrightarrow> filter (\<lambda>p. fst p = con) (concat (map (\<lambda>(c, subs). subscriptionPairs c subs) m)) =
     (case gm_get m con of None \<Rightarrow> [] | Some subs \<Rightarrow> subscriptionPairs con subs)"
proof (induction m)
  case (Cons p m)
  obtain c subs where p: "p = (c, subs)" by (cases p)
  have f: "filter (\<lambda>q. fst q = con) (subscriptionPairs c subs) = (if c = con then subscriptionPairs c subs else [])"
    by (auto simp: subscriptionPairs_def filter_map comp_def)
  from Cons.prems have ok: "gm_ok m" and nc: "gm_get m c = None"
    by (auto simp: gm_ok_def p gm_get_def map_of_eq_None_iff)
  show ?case using Cons.IH [OF ok] nc by (auto simp: p f gm_get_def)
qed (simp add: gm_get_def)

lemma topicTargets_of_connection:
  "tableOk s \<Longrightarrow> filter (\<lambda>p. fst p = con) (topicTargets s dest) = clientTargets s con dest"
  using targets_of_connection [where con = con]
  by (auto simp: topicTargets_def clientTargets_def tableOk_def split: option.splits)

lemma clientTargets_ids:
  assumes "tableOk s"
  shows "distinct (map (\<lambda>p. su_id (snd p)) (clientTargets s con dest)) \<and>
         set (map (\<lambda>p. su_id (snd p)) (clientTargets s con dest)) = {i. (dest, con, i) \<in> subsRel s}"
proof (cases "\<exists>m subs. subscriptionsAt s dest = Some m \<and> gm_get m con = Some subs")
  case True
  then obtain m subs where m: "subscriptionsAt s dest = Some m" "gm_get m con = Some subs" by blast
  then have ok: "gm_ok subs" and ids: "\<And>i sub. gm_get subs i = Some sub \<Longrightarrow> su_id sub = i"
    using assms unfolding tableOk_def by blast+
  have "\<And>p. p \<in> set subs \<Longrightarrow> su_id (snd p) = fst p"
    using ids gm_get_Some_iff [OF ok] by (metis prod.collapse)
  then have "map (\<lambda>sub. su_id sub) (gm_vals subs) = gm_keys subs"
    by (simp add: gm_vals_def gm_keys_def)
  then have k: "map (\<lambda>p. su_id (snd p)) (clientTargets s con dest) = gm_keys subs"
    by (simp add: clientTargets_def subscriptionPairs_def m comp_def)
  show ?thesis unfolding k using ok m by (auto simp: gm_ok_def gm_keys_iff subsRel_def) (auto simp: gm_keys_def)
next
  case False
  then have "clientTargets s con dest = []" by (auto simp: clientTargets_def split: option.splits)
  then show ?thesis using False by (auto simp: subsRel_def)
qed

subsection \<open>Properties\<close>

definition registeredServer :: "nat \<Rightarrow> nat \<Rightarrow> 'h stompConfig \<Rightarrow> 'h stompServer" where
  "registeredServer k k' cfg = OnUnsubscribeEvent k' (OnSubscribeEvent k (NewStompServer cfg))"

lemma registeredServer_inv:
  "headerLaws ho \<Longrightarrow> middlewareLaw ho cfg \<Longrightarrow> serverInv ho k k' (registeredServer k k' cfg)"
  by (simp add: serverInv_def registeredServer_def OnUnsubscribeEvent_def OnSubscribeEvent_def NewStompServer_def
      tellsTable_def tableOk_def subscriptionsAt_def told_def subsRel_def)

lemma server_run_inv:
  assumes "headerLaws ho" and "middlewareLaw ho cfg"
  shows "serverInv ho k k' (foldl (serverStep ho parse) (registeredServer k k' cfg) es)"
  by (rule server.run_inv) (rule registeredServer_inv [OF assms])

text \<open>The handler of connection events implements the abstract relation between destinations,
  connections and subscription ids: a subscribe event adds its triple, an unsubscribe event
  removes it, the end of a connection removes all its triples, and no other event changes it.\<close>

theorem server_subscriptions_refine:
  assumes "needsSub e \<Longrightarrow> ce_sub e \<noteq> None"
  shows "subsRel (handleConnectionEvent e s) =
    (case (ce_eventType e, ce_sub e) of
       (ConnectionClosed, _) \<Rightarrow> {(d, con, i) \<in> subsRel s. con \<noteq> ce_ConnId e}
     | (SubscribeToTopic, Some sub) \<Rightarrow> insert (ce_destination e, ce_ConnId e, su_id sub) (subsRel s)
     | (UnsubscribeFromTopic, Some sub) \<Rightarrow> subsRel s - {(ce_destination e, ce_ConnId e, su_id sub)}
     | _ \<Rightarrow> subsRel s)"
  using subsRel_handle [OF assms] by simp

definition subscribeEvent :: "string \<Rightarrow> string \<Rightarrow> string \<Rightarrow> (string \<times> string) list connEvent" where
  "subscribeEvent con i d =
     \<lparr>ce_ConnId = con, ce_eventType = SubscribeToTopic, ce_destination = d,
      ce_sub = Some \<lparr>su_id = i, su_destination = d\<rparr>, ce_frame = None\<rparr>"

theorem server_subscriptions_refine_witness:
  "subsRel (handleConnectionEvent (subscribeEvent ''c'' ''s'' ''/t'') (NewStompServer sampleConfig)) = {(''/t'', ''c'', ''s'')}"
proof -
  have "subsRel (NewStompServer sampleConfig) = {}"
    by (simp add: subsRel_def subscriptionsAt_def NewStompServer_def)
  then show ?thesis
    by (subst server_subscriptions_refine) (simp_all add: subscribeEvent_def)
qed

text \<open>C7: The subscribe and unsubscribe callbacks tell exactly what the server's subscription map
  holds: in every run of a server with its connections, replaying the calls of one subscribe and
  one unsubscribe callback gives the relation in the map, and the event loop never fails on an
  event.\<close>

theorem callbacks_tell_subscriptions:
  assumes "headerLaws ho" and "middlewareLaw ho cfg"
    and "s = foldl (serverStep ho parse) (registeredServer k k' cfg) es"
  shows "foldl (replayCall k k') {} (sv_calls s) = subsRel s \<and> \<not> sv_panicked s"
proof -
  have "serverInv ho k k' s" unfolding assms(3) by (rule server_run_inv [OF assms(1,2)])
  then show ?thesis by (simp add: serverInv_def tellsTable_def told_def)
qed

definition sampleServer :: "(string \<times> string) list serverEv list \<Rightarrow> (string \<times> string) list stompServer" where
  "sampleServer es = foldl (serverStep listHeaders (parseTo (1000000, 9000000))) (registeredServer 1 2 sampleConfig) es"

definition acceptedRun :: "(string \<times> string) list serverEv list" where
  "acceptedRun = [SvStart, SvAccept ''10.0.0.1:80'' ''c'' None, SvAnnounce okEnv, SvRunConnection,
     SvConnection ''c'' (InFrame okEnv connectFrame), SvRunConnection]"

definition subscribedRun :: "(string \<times> string) list serverEv list" where
  "subscribedRun = acceptedRun @ [SvConnection ''c'' (InFrame okEnv (subscribeFrame ''s'' ''/t'')), SvRunConnection]"

theorem callbacks_tell_subscriptions_witness:
  "subsRel (sampleServer subscribedRun) = {(''/t'', ''c'', ''s'')} \<and> \<not> sv_panicked (sampleServer subscribedRun)"
proof -
  have "sv_calls (sampleServer subscribedRun) = [SubscribeCall 1 ''c'' ''s'' ''/t'' (Some (subscribeFrame ''s'' ''/t''))]"
    by code_simp
  then show ?thesis
    using callbacks_tell_subscriptions [OF headerLaws_listHeaders sampleConfig_law sampleServer_def, of subscribedRun]
    by simp
qed

text \<open>C23: A message to a topic reaches exactly the subscriptions of its destination: in a reachable
  server whose queues have room, each open connection gets one copy, labelled with the
  subscription's id, for each of its subscriptions to the destination, in order after what was
  queued, and nothing else.\<close>

theorem send_reaches_subscriptions:
  assumes "headerLaws ho" and "middlewareLaw ho cfg"
    and "s = foldl (serverStep ho parse) (registeredServer k k' cfg) es"
    and "\<not> mustWait (topicTargets s dest) s"
    and "gm_get (sv_connections s) con = Some c" and "\<not> sn_done c"
  shows "gm_get (sv_connections (sendFrame ho late dest f s)) con =
           Some (c\<lparr>sn_outFrames := sn_outFrames c @ map (\<lambda>p. frameFor ho f (snd p)) (clientTargets s con dest)\<rparr>) \<and>
         distinct (map (\<lambda>p. su_id (snd p)) (clientTargets s con dest)) \<and>
         set (map (\<lambda>p. su_id (snd p)) (clientTargets s con dest)) = {i. (dest, con, i) \<in> subsRel s}"
proof -
  have ok: "tableOk s"
    using server_run_inv [OF assms(1,2), of k k' parse es] unfolding assms(3) by (simp add: serverInv_def tellsTable_def)
  have "(con, c) \<in> set (sv_connections s)" using assms(5) by (rule gm_get_SomeD)
  then have "filter (\<lambda>p. fst p = con) (topicTargets s dest) = [] \<or>
      length (sn_outFrames c) + length (filter (\<lambda>p. fst p = con) (topicTargets s dest)) \<le> 32"
    using assms(4,6) by (auto simp: mustWait_def list_all_iff roomFor_def)
  from sendAll_get [OF assms(5,6) this] clientTargets_ids [OF ok, of con dest]
  show ?thesis unfolding sendFrame_def topicTargets_of_connection [OF ok] by blast
qed

theorem send_reaches_subscriptions_witness:
  "\<exists>c. gm_get (sv_connections (sendFrame listHeaders (\<lambda>i. False) ''/t'' (bodyFrame listHeaders ''/t'' ''hi'') (sampleServer subscribedRun))) ''c'' = Some c \<and>
       map fr_Body (sn_outFrames c) = [''hi'']"
proof -
  let ?s = "sampleServer subscribedRun"
  have room: "\<not> mustWait (topicTargets ?s ''/t'') ?s" by code_simp
  have ex: "gm_get (sv_connections ?s) ''c'' \<noteq> None" by code_simp
  have d: "map_option sn_done (gm_get (sv_connections ?s) ''c'') = Some False" by code_simp
  have o: "map_option sn_outFrames (gm_get (sv_connections ?s) ''c'') = Some []" by code_simp
  have t: "clientTargets ?s ''c'' ''/t'' = [(''c'', \<lparr>su_id = ''s'', su_destination = ''/t''\<rparr>)]" by code_simp
  from ex obtain c where c: "gm_get (sv_connections ?s) ''c'' = Some c" by auto
  with d o have "\<not> sn_done c" and "sn_outFrames c = []" by simp_all
  with send_reaches_subscriptions [OF headerLaws_listHeaders sampleConfig_law sampleServer_def room c]
  show ?thesis by (simp add: t frameFor_def bodyFrame_def)
qed

lemma lastIndexByte_append: "d \<notin> set q \<Longrightarrow> lastIndexByte (p @ d # q) d = Some (length p)"
proof -
  assume "d \<notin> set q"
  have "indexByte (xs @ d # ys) d = Some (length xs)" if "d \<notin> set xs" for xs ys
    using that by (induction xs) auto
  from this [of "rev q" "rev p"] \<open>d \<notin> set q\<close> show ?thesis by (simp add: lastIndexByte_def)
qed

lemma indexByte_append: "d \<notin> set xs \<Longrightarrow> indexByte (xs @ d # ys) d = Some (length xs)"
  by (induction xs) auto

text \<open>The address of a client is read back from its network form: the host of \<open>host:port\<close> and
  of \<open>[host]:port\<close> is recovered, and an address without a colon is taken as it is.\<close>

theorem ip_of_address:
  assumes "CHR '':'' \<notin> set port" and "CHR ''['' \<notin> set port" and "CHR '']'' \<notin> set port"
    and "CHR ''['' \<notin> set host" and "CHR '']'' \<notin> set host"
  shows "extractIPFromAddress (CHR ''['' # host @ CHR '']'' # CHR '':'' # port) = host \<and>
         (CHR '':'' \<notin> set host \<longrightarrow>
            extractIPFromAddress (host @ CHR '':'' # port) = host \<and> extractIPFromAddress host = host)"
proof (intro conjI impI)
  let ?a = "CHR ''['' # host @ CHR '']'' # CHR '':'' # port"
  have "lastIndexByte ?a (CHR '':'') = Some (length host + 2)"
    using lastIndexByte_append [of "CHR '':''" port "CHR ''['' # host @ [CHR '']'']"] assms(1) by simp
  moreover have "indexByte ?a (CHR '']'') = Some (length host + 1)"
    using indexByte_append [of "CHR '']''" "CHR ''['' # host" "CHR '':'' # port"] assms(5) by simp
  moreover have "indexByte (drop 1 ?a) (CHR ''['') = None" using assms by (simp add: indexByte_None)
  moreover have "indexByte (drop (length host + 2) ?a) (CHR '']'') = None" using assms by (simp add: indexByte_None)
  ultimately show "extractIPFromAddress ?a = host"
    by (simp add: extractIPFromAddress_def SplitHostPort_def)
  assume nc: "CHR '':'' \<notin> set host"
  let ?b = "host @ CHR '':'' # port"
  have h: "hd ?b \<noteq> CHR ''[''" using assms(4) by (cases host) auto
  have n: "indexByte ?b (CHR ''['') = None" "indexByte ?b (CHR '']'') = None" "indexByte (take (length host) ?b) (CHR '':'') = None"
    using assms nc by (simp_all add: indexByte_None)
  show "extractIPFromAddress ?b = host"
    using h n by (simp add: extractIPFromAddress_def SplitHostPort_def lastIndexByte_append [OF assms(1)])
  have "lastIndexByte host (CHR '':'') = None" using nc by (simp add: lastIndexByte_def indexByte_None)
  then show "extractIPFromAddress host = host" by (simp add: extractIPFromAddress_def SplitHostPort_def)
qed

theorem ip_of_address_witness: "extractIPFromAddress ''[::1]:8080'' = ''::1''"
  using ip_of_address [of "''8080''" "''::1''"] by simp

lemma withConnections_close:
  assumes "gm_get (sv_connections s) i = Some c" and "i \<in> set is \<or> sn_done c"
  shows "\<exists>c'. gm_get (sv_connections (withConnections is (connClose env) s)) i = Some c' \<and> sn_done c'"
  using assms unfolding withConnections_def
proof (induction "is" arbitrary: s c)
  case (Cons j js)
  have "gm_get (sv_connections (withConnection j (connClose env) s)) i = Some (if j = i then connClose env c else c)"
    using Cons.prems(1) by (simp add: withConnection_def split: option.splits)
  moreover have "i \<in> set js \<or> sn_done (if j = i then connClose env c else c)"
    using Cons.prems(2) by auto
  ultimately show ?case using Cons.IH by simp
qed auto

lemma withConnection_done [simp]: "sv_done (withConnection i g s) = sv_done s"
  by (simp add: withConnection_def split: option.splits)

lemma withConnections_done [simp]: "sv_done (withConnections is g s) = sv_done s"
  unfolding withConnections_def by (induction "is" arbitrary: s) simp_all

lemma mustWait_none [simp]: "\<not> mustWait [] s"
  by (simp add: mustWait_def list_all_iff roomFor_def)

text \<open>When the event loop handles the close of the server, every connection it knows is closed,
  its map of connections is empty, and the loop handles nothing more.\<close>

theorem close_server_closes_connections:
  assumes "\<not> sv_done s" and "sv_apiEvents s = CloseServer # as"
    and "i \<in> set (gm_keys (sv_connectionsMap s))" and "gm_get (sv_connections s) i = Some c"
    and "t = serverStep ho parse s (SvRunApi late env)"
  shows "(\<exists>c'. gm_get (sv_connections t) i = Some c' \<and> sn_done c') \<and> sv_connectionsMap t = [] \<and> sv_done t \<and>
         serverStep ho parse t SvRunConnection = t \<and> serverStep ho parse t (SvRunApi late' env') = t"
proof -
  let ?s = "s\<lparr>sv_apiEvents := as, sv_done := True\<rparr>"
  let ?w = "withConnections (gm_keys (sv_connectionsMap s)) (connClose env) ?s"
  have t: "t = ?w\<lparr>sv_connectionsMap := gm_empty\<rparr>"
    using assms(1,2) by (simp add: assms(5) runApiEvent_def)
  have "\<exists>c'. gm_get (sv_connections ?w) i = Some c' \<and> sn_done c'"
    using assms(3,4) by (intro withConnections_close) auto
  then show ?thesis unfolding t by (simp add: gm_empty_def)
qed

theorem close_server_closes_connections_witness:
  "sv_connectionsMap (sampleServer (acceptedRun @ [SvStop] @ [SvRunApi (\<lambda>i. True) okEnv])) = [] \<and>
   map_option sn_done (gm_get (sv_connections (sampleServer (acceptedRun @ [SvStop] @ [SvRunApi (\<lambda>i. True) okEnv]))) ''c'') = Some True"
proof -
  let ?s = "sampleServer (acceptedRun @ [SvStop])"
  have st: "sampleServer (acceptedRun @ [SvStop] @ [SvRunApi (\<lambda>i. True) okEnv]) =
      serverStep listHeaders (parseTo (1000000, 9000000)) ?s (SvRunApi (\<lambda>i. True) okEnv)"
    by (simp only: sampleServer_def foldl_append foldl.simps)
  have d: "\<not> sv_done ?s" by code_simp
  have a: "sv_apiEvents ?s = CloseServer # []" by code_simp
  have m: "gm_keys (sv_connectionsMap ?s) = [''c'']" by code_simp
  have ex: "gm_get (sv_connections ?s) ''c'' \<noteq> None" by code_simp
  then obtain c where c: "gm_get (sv_connections ?s) ''c'' = Some c" by auto
  have "''c'' \<in> set (gm_keys (sv_connectionsMap ?s))" by (simp add: m)
  from close_server_closes_connections [OF d a this c st] show ?thesis by auto
qed

subsection \<open>What the server misses\<close>

definition adrift :: "string \<Rightarrow> 'h stompConn \<Rightarrow> 'h stompServer \<Rightarrow> bool" where
  "adrift i c s \<longleftrightarrow> sv_done s \<and> i \<notin> set (sv_pending s) \<and> gm_get (sv_connections s) i = Some c"

definition ownStep :: "string \<Rightarrow> 'h serverEv \<Rightarrow> bool" where
  "ownStep i e \<longleftrightarrow> (case e of SvConnection j ce \<Rightarrow> j = i | _ \<Rightarrow> False)"

lemma withConnection_pending [simp]: "sv_pending (withConnection i g s) = sv_pending s"
  by (simp add: withConnection_def split: option.splits)

lemma withConnection_other: "j \<noteq> i \<Longrightarrow> gm_get (sv_connections (withConnection j g s)) i = gm_get (sv_connections s) i"
  by (simp add: withConnection_def split: option.splits)

lemma adrift_step: "adrift i c s \<Longrightarrow> \<not> ownStep i e \<Longrightarrow> adrift i c (serverStep ho parse s e)"
  by (cases e)
     (auto simp: adrift_def ownStep_def acceptConnection_def announceConnection_def sendConnectionEvent_def withConnection_other sendAPIEvent_def
        serverStart_def serverStop_def sendCloseEvent_def Let_def split: list.splits)

lemma adrift_run: "adrift i c s \<Longrightarrow> list_all (\<lambda>e. \<not> ownStep i e) es \<Longrightarrow> adrift i c (foldl (serverStep ho parse) s es)"
  by (induction es arbitrary: s) (auto intro: adrift_step)

text \<open>A connection whose starting event is still queued when the server handles its close is
  never closed by the server: it is not in the map of connections then, and whatever happens
  later, short of the connection's own client or goroutines, leaves it as it is.\<close>

theorem stop_leaves_queued_connection:
  assumes "s = sampleServer [SvStart, SvAccept ''10.0.0.1:80'' ''c'' None, SvAnnounce okEnv, SvStop, SvRunApi (\<lambda>i. True) okEnv]"
    and "list_all (\<lambda>e. \<not> ownStep ''c'' e) es"
    and "t = foldl (serverStep listHeaders (parseTo (1000000, 9000000))) s es"
  shows "sv_done t \<and> map_option sn_done (gm_get (sv_connections t) ''c'') = Some False"
proof -
  have d: "map_option sn_done (gm_get (sv_connections s) ''c'') = Some False" unfolding assms(1) by code_simp
  then obtain c where c: "gm_get (sv_connections s) ''c'' = Some c" and "\<not> sn_done c" by auto
  moreover have "sv_done s \<and> sv_pending s = []" unfolding assms(1) by code_simp
  ultimately have "adrift ''c'' c s" by (simp add: adrift_def)
  then have "adrift ''c'' c t" unfolding assms(3) using assms(2) by (rule adrift_run)
  then show ?thesis using \<open>\<not> sn_done c\<close> by (simp add: adrift_def)
qed

theorem stop_leaves_queued_connection_witness:
  "map_option sn_done (gm_get (sv_connections (sampleServer [SvStart, SvAccept ''10.0.0.1:80'' ''c'' None, SvAnnounce okEnv,
     SvStop, SvRunApi (\<lambda>i. True) okEnv])) ''c'') = Some False"
proof -
  have "list_all (\<lambda>e. \<not> ownStep ''c'' e) []" by simp
  from stop_leaves_queued_connection [OF refl this refl] show ?thesis by simp
qed

lemma sampleServer_told: "told 1 2 (sampleServer es) = subsRel (sampleServer es)"
  unfolding sampleServer_def
  using server_run_inv [OF headerLaws_listHeaders sampleConfig_law] by (simp only: serverInv_def tellsTable_def)

text \<open>A subscription that a connection makes while another goroutine closes it stays in the
  server's map for ever: the end of the connection is handled first, the subscribe event after
  it, so the map keeps a subscription of a connection that has ended and that the server no
  longer knows, and no unsubscribe callback is called.\<close>

theorem late_subscription_stays:
  "let s = sampleServer (acceptedRun @ [SvConnection ''c'' (InFrame (okEnv\<lparr>en_closes := True\<rparr>) (subscribeFrame ''s'' ''/t'')),
             SvRunConnection, SvRunConnection, SvConnection ''c'' (LoopHead okEnv)])
   in subsRel s = {(''/t'', ''c'', ''s'')} \<and> gm_get (sv_connectionsMap s) ''c'' = None \<and> sv_connectionEvents s = [] \<and>
      map_option (\<lambda>c. sn_done c \<and> \<not> sn_running c) (gm_get (sv_connections s) ''c'') = Some True \<and>
      filter isUnsubscribeCall (sv_calls s) = []"
proof -
  let ?s = "sampleServer (acceptedRun @ [SvConnection ''c'' (InFrame (okEnv\<lparr>en_closes := True\<rparr>) (subscribeFrame ''s'' ''/t'')),
             SvRunConnection, SvRunConnection, SvConnection ''c'' (LoopHead okEnv)])"
  have "sv_calls ?s = [SubscribeCall 1 ''c'' ''s'' ''/t'' (Some (subscribeFrame ''s'' ''/t''))]" by code_simp
  moreover have "told 1 2 ?s = subsRel ?s" by (rule sampleServer_told)
  moreover have "gm_get (sv_connectionsMap ?s) ''c'' = None" by code_simp
  moreover have "sv_connectionEvents ?s = []" by code_simp
  moreover have "map_option (\<lambda>c. sn_done c \<and> \<not> sn_running c) (gm_get (sv_connections ?s) ''c'') = Some True" by code_simp
  ultimately show ?thesis unfolding Let_def by (simp add: told_def isUnsubscribeCall_def)
qed

definition establishedCall :: "'h serverCall \<Rightarrow> bool" where
  "establishedCall c \<longleftrightarrow> (case c of ConnectionCall k e \<Rightarrow> ce_eventType e = ConnectionEstablished | _ \<Rightarrow> False)"

lemma callsKept [simp]:
  "sv_calls (withConnection i g s) = sv_calls s" "sv_calls (updConnection i g s) = sv_calls s"
  by (simp_all add: withConnection_def updConnection_def split: option.splits)

lemma callsKept_folds [simp]:
  "sv_calls (withConnections is g s) = sv_calls s" "sv_calls (foldl (\<lambda>t p. sendToOne ho late f p t) s ps) = sv_calls s"
  unfolding withConnections_def sendToOne_def
  by (induction "is" arbitrary: s, simp_all, induction ps arbitrary: s, simp_all)

definition noEstablished :: "'h stompServer \<Rightarrow> bool" where
  "noEstablished s \<longleftrightarrow> list_all (\<lambda>c. \<not> establishedCall c) (sv_calls s)"

lemma noEstablished_log:
  "noEstablished s \<Longrightarrow> list_all (\<lambda>c. \<not> establishedCall c) cs \<Longrightarrow> noEstablished (logCalls cs s)"
  by (simp add: noEstablished_def)

lemma noEstablished_callback:
  "noEstablished s \<Longrightarrow> ce_eventType e \<noteq> ConnectionEstablished \<Longrightarrow> noEstablished (connectionCallback e s)"
  by (auto simp: connectionCallback_def noEstablished_def establishedCall_def split: option.splits)

lemma closingCalls_quiet: "list_all (\<lambda>c. \<not> establishedCall c) (closingCalls con s)"
  using closingCalls_all [of con s]
  by (auto simp: list_all_iff isUnsubscribeCall_def establishedCall_def split: serverCall.splits)

lemma noEstablished_updates [simp]:
  "noEstablished (s\<lparr>sv_subscriptionsMap := m\<rparr>) = noEstablished s" "noEstablished (s\<lparr>sv_connectionsMap := c\<rparr>) = noEstablished s"
  "noEstablished (s\<lparr>sv_panicked := b\<rparr>) = noEstablished s" "noEstablished (s\<lparr>sv_connectionEvents := es\<rparr>) = noEstablished s"
  by (simp_all add: noEstablished_def)

lemma noEstablished_handle: "noEstablished s \<Longrightarrow> noEstablished (handleConnectionEvent e s)"
  using closingCalls_quiet [of "ce_ConnId e" s]
  by (cases "ce_eventType e")
     (auto simp: handleConnectionEvent_def onConnectionStarting_def onConnectionClosed_def onSubscribeToTopic_def
       onUnsubscribeFromTopic_def onIncomingMessage_def Let_def list_all_iff establishedCall_def closingCalls_def
       split: option.splits list.splits intro!: noEstablished_callback noEstablished_log)

lemma noEstablished_step: "noEstablished s \<Longrightarrow> noEstablished (serverStep ho parse s e)"
proof (cases e)
  case SvRunConnection
  assume "noEstablished s"
  then show ?thesis using SvRunConnection by (auto split: list.splits intro: noEstablished_handle)
next
  case (SvRunApi late env)
  assume "noEstablished s"
  then show ?thesis using SvRunApi
    by (simp add: noEstablished_def runApiEvent_def sendFrame_def sendFrameToClient_def split: list.splits apiEvent.splits)
qed (simp_all add: noEstablished_def acceptConnection_def announceConnection_def sendConnectionEvent_def sendAPIEvent_def serverStart_def
    serverStop_def sendCloseEvent_def Let_def split: list.splits)

interpretation quiet: machine "serverStep ho parse" noEstablished for ho parse
  by unfold_locales (rule noEstablished_step)

text \<open>A callback registered for the established event is never called: no run of the server,
  whatever callbacks are registered, logs a connection callback for that event.\<close>

theorem established_callback_never_called:
  assumes "sv_calls s = []"
  shows "list_all (\<lambda>c. \<not> establishedCall c) (sv_calls (foldl (serverStep ho parse) s es))"
  using quiet.run_inv [of s ho parse es] assms by (simp add: noEstablished_def)

theorem established_callback_never_called_witness:
  "list_all (\<lambda>c. \<not> establishedCall c) (sv_calls (foldl (serverStep listHeaders (parseTo (1000000, 9000000)))
     (SetConnectionEventCallback ConnectionEstablished 5 (NewStompServer sampleConfig)) acceptedRun)) \<and>
   map_option sn_state (gm_get (sv_connections (sampleServer acceptedRun)) ''c'') = Some Connected"
proof
  have "sv_calls (SetConnectionEventCallback ConnectionEstablished 5 (NewStompServer sampleConfig)) = []"
    by (simp add: SetConnectionEventCallback_def NewStompServer_def)
  then show "list_all (\<lambda>c. \<not> establishedCall c) (sv_calls (foldl (serverStep listHeaders (parseTo (1000000, 9000000)))
     (SetConnectionEventCallback ConnectionEstablished 5 (NewStompServer sampleConfig)) acceptedRun))"
    by (rule established_callback_never_called)
  show "map_option sn_state (gm_get (sv_connections (sampleServer acceptedRun)) ''c'') = Some Connected" by code_simp
qed

end
