(* ===== verification/Fabric.thy ===== *)
theory Fabric
  imports MessageBus StompConn
begin

text \<open>
  transport/fabric: the endpoint that bridges STOMP clients and the event bus (config.go,
  endpoint.go) and the message router (router.go), over the model of the bus. The functions that
  the endpoint gives to the bus are indices of \<open>fa_fns\<close>, a table of what they do. What the
  endpoint asks of the STOMP server is a log. \<open>json.Marshal\<close> and \<open>json.Unmarshal\<close> are the
  arguments \<open>enc\<close> and \<open>dec\<close>; fresh ids and the answers of brokers come with each call.
\<close>

subsection \<open>Configuration\<close>

definition RANCH_INTERNAL_CHANNEL_PREFIX :: string where
  "RANCH_INTERNAL_CHANNEL_PREFIX = ''_ranchInternal/''"

definition STOMP_SESSION_NOTIFY_CHANNEL :: string where
  "STOMP_SESSION_NOTIFY_CHANNEL = RANCH_INTERNAL_CHANNEL_PREFIX @ ''stomp-session-notify''"

record endpointConfig =
  ec_TopicPrefix :: string
  ec_UserQueuePrefix :: string
  ec_AppRequestPrefix :: string
  ec_AppRequestQueuePrefix :: string
  ec_Heartbeat :: "64 word"

definition validate :: "endpointConfig \<Rightarrow> err option" where
  "validate ec =
     (if ec_TopicPrefix ec = [] \<or> \<not> HasPrefix (ec_TopicPrefix ec) ''/'' then Some ''invalid TopicPrefix''
      else if ec_AppRequestQueuePrefix ec \<noteq> [] \<and> ec_UserQueuePrefix ec = [] then Some ''missing UserQueuePrefix''
      else None)"

definition ensureTrailingSlash :: "string \<Rightarrow> string" where
  "ensureTrailingSlash s = (if s \<noteq> [] \<and> \<not> HasSuffix s ''/'' then s @ ''/'' else s)"

definition TopicDestination :: "endpointConfig option \<Rightarrow> string \<Rightarrow> string" where
  "TopicDestination cfg channel =
     (let prefix = (case cfg of
                      Some c \<Rightarrow> if ec_TopicPrefix c \<noteq> [] then ensureTrailingSlash (ec_TopicPrefix c) else ''/topic/''
                    | None \<Rightarrow> ''/topic/'')
      in prefix @ TrimPrefix channel ''/'')"

definition isProtectedDestination :: "string \<Rightarrow> bool" where
  "isProtectedDestination d = HasPrefix d RANCH_INTERNAL_CHANNEL_PREFIX"

subsection \<open>State\<close>

text \<open>The functions given to the bus: the fallback forwarder of a channel and its error function,
  with the destination it was made for, and the two functions of a route.\<close>

record routeSpec =
  sp_BusChannel :: string
  sp_DefaultDest :: string
  sp_AllowOverride :: bool
  sp_Direction :: Direction

datatype fabricFn =
    FnForward string
  | FnForwardError string
  | FnRoute string
  | FnRouteError string

datatype serverSend =
    ToTopic string string
  | ToClient string string string

record channelMapping =
  ma_subs :: "(string, bool) gomap"
  ma_handler :: "ref option"
  ma_autoCreated :: bool

record routeHandle =
  rh_spec :: routeSpec
  rh_stream :: ref
  rh_once :: bool

record fabric =
  fa_config :: endpointConfig
  fa_bus :: "bus option"
  fa_fns :: "fabricFn list"
  fa_chanMappings :: "(string, channelMapping) gomap"
  fa_routes :: "(string, nat) gomap"
  fa_handles :: "routeHandle list"
  fa_pending :: "nat list"
  fa_closed :: bool
  fa_sent :: "serverSend list"
  fa_stopped :: bool
  fa_panicked :: bool

text \<open>\<open>New\<close>: the configuration is validated, then its prefixes are completed.\<close>

definition completeConfig :: "endpointConfig \<Rightarrow> endpointConfig" where
  "completeConfig ec =
     ec\<lparr>ec_TopicPrefix := ensureTrailingSlash (ec_TopicPrefix ec),
        ec_AppRequestPrefix := ensureTrailingSlash (ec_AppRequestPrefix ec),
        ec_AppRequestQueuePrefix := ensureTrailingSlash (ec_AppRequestQueuePrefix ec),
        ec_UserQueuePrefix := ensureTrailingSlash (ec_UserQueuePrefix ec)\<rparr>"

definition newFabricEndpoint :: "bus option \<Rightarrow> endpointConfig \<Rightarrow> fabric" where
  "newFabricEndpoint b config =
     \<lparr>fa_config = completeConfig config, fa_bus = b, fa_fns = [], fa_chanMappings = gm_empty, fa_routes = gm_empty,
      fa_handles = [], fa_pending = [], fa_closed = False, fa_sent = [], fa_stopped = False, fa_panicked = False\<rparr>"

definition New :: "bus option \<Rightarrow> endpointConfig \<Rightarrow> fabric res" where
  "New b config = (case validate config of Some e \<Rightarrow> Inl e | None \<Rightarrow> Inr (newFabricEndpoint b config))"

text \<open>The STOMP configuration that the endpoint gives to its server.\<close>

definition stompConfigOf :: "endpointConfig \<Rightarrow> 'h stompConfig" where
  "stompConfigOf config = NewStompConfig (ec_Heartbeat config) [ec_AppRequestPrefix config, ec_AppRequestQueuePrefix config]"

definition onBus :: "(bus \<Rightarrow> bus) \<Rightarrow> fabric \<Rightarrow> fabric" where
  "onBus g s = (case fa_bus s of None \<Rightarrow> s | Some b \<Rightarrow> s\<lparr>fa_bus := Some (g b)\<rparr>)"

text \<open>A call of a method of a nil bus fails.\<close>

definition needBus :: "(bus \<Rightarrow> bus) \<Rightarrow> fabric \<Rightarrow> fabric" where
  "needBus g s = (case fa_bus s of None \<Rightarrow> s\<lparr>fa_panicked := True\<rparr> | Some b \<Rightarrow> s\<lparr>fa_bus := Some (g b)\<rparr>)"

definition sendToServer :: "serverSend \<Rightarrow> fabric \<Rightarrow> fabric" where
  "sendToServer x s = s\<lparr>fa_sent := fa_sent s @ [x]\<rparr>"

definition busMonitorEvent :: "EventType \<Rightarrow> string \<Rightarrow> fabric \<Rightarrow> fabric" where
  "busMonitorEvent t name s = onBus (onMgr (SendMonitorEvent t name EvNil)) s"

definition sendSessionEvent :: "uuid \<Rightarrow> string \<Rightarrow> int \<Rightarrow> fabric \<Rightarrow> fabric" where
  "sendSessionEvent newId connId eventType s =
     onBus (\<lambda>b. fst (SendResponseMessage STOMP_SESSION_NOTIFY_CHANNEL (GSession connId eventType) None newId None b)) s"

subsection \<open>Forwarding\<close>

definition marshalMessagePayload :: "(gval \<Rightarrow> string res) \<Rightarrow> message \<Rightarrow> string res" where
  "marshalMessagePayload enc msg =
     (case m_Payload msg of
        GString t \<Rightarrow> Inr t
      | GBytes t \<Rightarrow> Inr t
      | p \<Rightarrow> enc p)"

text \<open>The response a payload holds, and whether it is one: a pointer to a response may be nil.\<close>

definition convertPayloadToResponseObj :: "message \<Rightarrow> response option \<times> bool" where
  "convertPayloadToResponseObj msg =
     (case m_Payload msg of
        GResponse r \<Rightarrow> (Some r, True)
      | GResponsePtr p \<Rightarrow> (p, True)
      | _ \<Rightarrow> (None, False))"

definition forwardMessage ::
  "(gval \<Rightarrow> string res) \<Rightarrow> string \<Rightarrow> string \<Rightarrow> bool \<Rightarrow> message \<Rightarrow> fabric \<Rightarrow> fabric" where
  "forwardMessage enc channelName defaultDestination allowOverride msg s =
     (case marshalMessagePayload enc msg of
        Inl e \<Rightarrow> s
      | Inr data \<Rightarrow>
          (let (resp, ok) = convertPayloadToResponseObj msg;
               direct = (if allowOverride \<and> ok then Option.bind resp rs_BrokerDestination else None)
           in case direct of
                Some bd \<Rightarrow> sendToServer (ToClient (bd_ConnectionId bd) (bd_Destination bd) data) s
              | None \<Rightarrow>
                  (if m_Payload msg = GResponsePtr None then s\<lparr>fa_panicked := True\<rparr>
                   else sendToServer (ToTopic defaultDestination data) s)))"

definition sendRouteError :: "(gval \<Rightarrow> string res) \<Rightarrow> string \<Rightarrow> fabric \<Rightarrow> fabric" where
  "sendRouteError enc destination s =
     (case enc (GResponsePtr (Some (Response None [] GNil 0 True 500 ''fabric route error'' GNil None [] False))) of
        Inl e \<Rightarrow> s
      | Inr payload \<Rightarrow> sendToServer (ToTopic destination payload) s)"

subsection \<open>Subscriptions\<close>

definition getChannelNameFromSubscription :: "endpointConfig \<Rightarrow> string \<Rightarrow> string option" where
  "getChannelNameFromSubscription ec d =
     (if HasPrefix d (ec_TopicPrefix ec) then Some (drop (length (ec_TopicPrefix ec)) d)
      else if ec_UserQueuePrefix ec \<noteq> [] \<and> HasPrefix d (ec_UserQueuePrefix ec)
      then Some (drop (length (ec_UserQueuePrefix ec)) d)
      else None)"

definition hasRoute :: "string \<Rightarrow> fabric \<Rightarrow> bool" where
  "hasRoute channel s = (gm_get (fa_routes s) channel \<noteq> None)"

text \<open>The ids drawn during one operation: for two handlers, a subscription and a message, and
  what a broker answers to an unsubscribe.\<close>

record freshIds =
  fi_first :: "uuid \<times> uuid \<times> uuid"
  fi_second :: "uuid \<times> uuid \<times> uuid"
  fi_sub :: uuid
  fi_msg :: uuid
  fi_unsub :: "busSub \<Rightarrow> err option"

text \<open>The fallback forwarder: a stream on the channel, which is created if it does not exist.
  The result is the handler and whether the channel was created.\<close>

definition openForwarder :: "freshIds \<Rightarrow> string \<Rightarrow> bus \<Rightarrow> bus \<times> (ref \<times> bool) option" where
  "openForwarder ids channelName b =
     (case ListenStream channelName (fi_first ids) b of
        (b1, Inr r) \<Rightarrow> (b1, Some (r, False))
      | (b1, Inl e) \<Rightarrow>
          (case ListenStream channelName (fi_second ids) (onMgr (\<lambda>m. fst (CreateChannel channelName m)) b1) of
             (b2, Inr r) \<Rightarrow> (b2, Some (r, True))
           | (b2, Inl e2) \<Rightarrow> (b2, None)))"

definition installForwarder :: "freshIds \<Rightarrow> string \<Rightarrow> string \<Rightarrow> fabric \<Rightarrow> fabric \<times> (ref \<times> bool) option" where
  "installForwarder ids channelName destination s =
     (case fa_bus s of
        None \<Rightarrow> (s, None)
      | Some b \<Rightarrow>
          (case openForwarder ids channelName b of
             (b1, None) \<Rightarrow> (s\<lparr>fa_bus := Some b1\<rparr>, None)
           | (b1, Some (r, created)) \<Rightarrow>
               (let n = length (fa_fns s) in
                (s\<lparr>fa_bus := Some (Handle r (Some n) (Some (Suc n)) (fi_sub ids) b1),
                        fa_fns := fa_fns s @ [FnForward channelName, FnForwardError destination]\<rparr>, Some (r, created)))))"

definition mappingId :: "string \<Rightarrow> string \<Rightarrow> string" where
  "mappingId conId subId = conId @ ''#'' @ subId"

definition recordSubscription :: "string \<Rightarrow> string \<Rightarrow> channelMapping \<Rightarrow> fabric \<Rightarrow> fabric" where
  "recordSubscription channelName key cm s =
     busMonitorEvent FabricEndpointSubscribeEvt channelName
       (s\<lparr>fa_chanMappings := gm_set channelName (cm\<lparr>ma_subs := gm_set key True (ma_subs cm)\<rparr>) (fa_chanMappings s)\<rparr>)"

definition addSubscription :: "freshIds \<Rightarrow> string \<Rightarrow> string \<Rightarrow> string \<Rightarrow> fabric \<Rightarrow> fabric" where
  "addSubscription ids conId subId destination s =
     (case getChannelNameFromSubscription (fa_config s) destination of
        None \<Rightarrow> s
      | Some channelName \<Rightarrow>
          (if isProtectedDestination channelName then s
           else (case gm_get (fa_chanMappings s) channelName of
                   Some cm \<Rightarrow> recordSubscription channelName (mappingId conId subId) cm s
                 | None \<Rightarrow>
                     (if hasRoute channelName s
                      then recordSubscription channelName (mappingId conId subId)
                             \<lparr>ma_subs = gm_empty, ma_handler = None, ma_autoCreated = False\<rparr> s
                      else (case installForwarder ids channelName destination s of
                              (s1, None) \<Rightarrow> s1
                            | (s1, Some (r, created)) \<Rightarrow>
                                recordSubscription channelName (mappingId conId subId)
                                  \<lparr>ma_subs = gm_empty, ma_handler = Some r, ma_autoCreated = created\<rparr> s1)))))"

definition closeMapping :: "freshIds \<Rightarrow> string \<Rightarrow> channelMapping \<Rightarrow> fabric \<Rightarrow> fabric" where
  "closeMapping ids channelName cm s =
     (let s1 = (case ma_handler cm of None \<Rightarrow> s | Some r \<Rightarrow> onBus (Close r) s);
          s2 = s1\<lparr>fa_chanMappings := gm_del channelName (fa_chanMappings s1)\<rparr>
      in if ma_autoCreated cm then needBus (onMgr (DestroyChannel (fi_unsub ids) (fi_msg ids) channelName)) s2 else s2)"

definition removeSubscription :: "freshIds \<Rightarrow> string \<Rightarrow> string \<Rightarrow> string \<Rightarrow> fabric \<Rightarrow> fabric" where
  "removeSubscription ids conId subId destination s =
     (case getChannelNameFromSubscription (fa_config s) destination of
        None \<Rightarrow> s
      | Some channelName \<Rightarrow>
          (case gm_get (fa_chanMappings s) channelName of
             None \<Rightarrow> s
           | Some cm \<Rightarrow>
               (if gm_get (ma_subs cm) (mappingId conId subId) \<noteq> Some True then s
                else (let cm1 = cm\<lparr>ma_subs := gm_del (mappingId conId subId) (ma_subs cm)\<rparr>;
                          s1 = s\<lparr>fa_chanMappings := gm_set channelName cm1 (fa_chanMappings s)\<rparr>;
                          s2 = (if length (ma_subs cm1) = 0 then closeMapping ids channelName cm1 s1 else s1)
                      in busMonitorEvent FabricEndpointUnsubscribeEvt channelName s2))))"

definition detachSubscriptionForwarder :: "string \<Rightarrow> fabric \<Rightarrow> fabric \<times> ref option" where
  "detachSubscriptionForwarder channelName s =
     (case gm_get (fa_chanMappings s) channelName of
        None \<Rightarrow> (s, None)
      | Some cm \<Rightarrow>
          (s\<lparr>fa_chanMappings := gm_set channelName (cm\<lparr>ma_handler := None, ma_autoCreated := False\<rparr>) (fa_chanMappings s)\<rparr>,
           ma_handler cm))"

subsection \<open>Requests of clients\<close>

definition bridgeMessage :: "(string \<Rightarrow> request res) \<Rightarrow> uuid \<Rightarrow> string \<Rightarrow> string \<Rightarrow> string \<Rightarrow> fabric \<Rightarrow> fabric" where
  "bridgeMessage dec newId destination body connectionId s =
     (let ec = fa_config s;
          target = (if ec_AppRequestQueuePrefix ec \<noteq> [] \<and> HasPrefix destination (ec_AppRequestQueuePrefix ec)
                    then Some (drop (length (ec_AppRequestQueuePrefix ec)) destination, True)
                    else if ec_AppRequestPrefix ec \<noteq> [] \<and> HasPrefix destination (ec_AppRequestPrefix ec)
                    then Some (drop (length (ec_AppRequestPrefix ec)) destination, False)
                    else None)
      in case target of
           None \<Rightarrow> s
         | Some (channelName, isPrivateRequest) \<Rightarrow>
             (case dec body of
                Inl e \<Rightarrow> s
              | Inr req0 \<Rightarrow>
                  (let req = (if isPrivateRequest
                              then rq_setBrokerDestination
                                     (Some (BrokerDestinationConfig (ec_UserQueuePrefix ec @ channelName) connectionId)) req0
                              else req0)
                   in needBus (\<lambda>b. fst (SendRequestMessage channelName (GRequestPtr req) None newId None b)) s)))"

subsection \<open>Routes\<close>

text \<open>A registration is three steps, as subscriptions may come between them: the stream is opened
  and the route published, the fallback forwarder is detached and closed, the stream is handled.
  \<open>fa_pending\<close> lists the routes between the first and the second. The \<open>%q\<close> of a channel name is
  written for a name that needs no escape.\<close>

definition listenRoute :: "freshIds \<Rightarrow> routeSpec \<Rightarrow> bus \<Rightarrow> bus \<times> ref res" where
  "listenRoute ids spec b =
     (if sp_Direction spec = RequestDir then ListenRequestStream (sp_BusChannel spec) (fi_first ids) b
      else if sp_Direction spec = ResponseDir then ListenStream (sp_BusChannel spec) (fi_first ids) b
      else (b, Inl (''unsupported route direction '' @ itoa (sp_Direction spec))))"

definition closeStream :: "nat \<Rightarrow> fabric \<Rightarrow> fabric" where
  "closeStream n s =
     (if rh_once (fa_handles s ! n) then s
      else onBus (Close (rh_stream (fa_handles s ! n)))
             (s\<lparr>fa_handles := (fa_handles s)[n := (fa_handles s ! n)\<lparr>rh_once := True\<rparr>]\<rparr>))"

definition publishRoute :: "freshIds \<Rightarrow> routeSpec \<Rightarrow> fabric \<Rightarrow> fabric \<times> nat res" where
  "publishRoute ids spec0 s =
     (if sp_BusChannel spec0 = [] then (s, Inl ''route bus channel is required'')
      else (let spec = (if sp_DefaultDest spec0 = []
                        then spec0\<lparr>sp_DefaultDest := TopicDestination (Some (fa_config s)) (sp_BusChannel spec0)\<rparr>
                        else spec0)
            in case fa_bus s of
                 None \<Rightarrow> (s, Inl ''route bus is nil'')
               | Some b \<Rightarrow>
                   (if fa_closed s then (s, Inl ''message router is closed'')
                    else (case listenRoute ids spec b of
                            (b1, Inl e) \<Rightarrow> (s\<lparr>fa_bus := Some b1\<rparr>, Inl e)
                          | (b1, Inr r) \<Rightarrow>
                              (if hasRoute (sp_BusChannel spec) s
                               then (s\<lparr>fa_bus := Some (Close r b1)\<rparr>,
                                     Inl (''route already registered for channel '' @ [CHR 0x22] @ sp_BusChannel spec @ [CHR 0x22]))
                               else (let n = length (fa_handles s) in
                                     (s\<lparr>fa_bus := Some b1,
                                        fa_handles := fa_handles s @ [\<lparr>rh_spec = spec, rh_stream = r, rh_once = False\<rparr>],
                                        fa_routes := gm_set (sp_BusChannel spec) n (fa_routes s),
                                        fa_pending := n # fa_pending s\<rparr>, Inr n)))))))"

definition channelOfRoute :: "fabric \<Rightarrow> nat \<Rightarrow> string" where
  "channelOfRoute s n = sp_BusChannel (rh_spec (fa_handles s ! n))"

definition detachRoute :: "nat \<Rightarrow> fabric \<Rightarrow> fabric" where
  "detachRoute n s0 =
     (let s = s0\<lparr>fa_pending := filter (\<lambda>m. m \<noteq> n) (fa_pending s0)\<rparr> in
      case detachSubscriptionForwarder (channelOfRoute s n) s of
        (s1, None) \<Rightarrow> s1
      | (s1, Some r) \<Rightarrow> onBus (Close r) s1)"

definition attachRoute :: "uuid \<Rightarrow> nat \<Rightarrow> fabric \<Rightarrow> fabric" where
  "attachRoute newId n s =
     (let k = length (fa_fns s); h = fa_handles s ! n in
      onBus (HandleContext (rh_stream h) (Some CBackground) (Some k) (Some (Suc k)) newId)
        (s\<lparr>fa_fns := fa_fns s @ [FnRoute (sp_BusChannel (rh_spec h)), FnRouteError (sp_DefaultDest (rh_spec h))]\<rparr>))"

definition RegisterRoute :: "freshIds \<Rightarrow> routeSpec \<Rightarrow> fabric \<Rightarrow> fabric \<times> nat res" where
  "RegisterRoute ids spec s =
     (case publishRoute ids spec s of
        (s1, Inl e) \<Rightarrow> (s1, Inl e)
      | (s1, Inr n) \<Rightarrow> (attachRoute (fi_sub ids) n (detachRoute n s1), Inr n))"

definition RouteMessage :: "(gval \<Rightarrow> string res) \<Rightarrow> err option \<Rightarrow> string \<Rightarrow> message \<Rightarrow> fabric \<Rightarrow> fabric \<times> err option" where
  "RouteMessage enc ctx channel msg s =
     (case ctx of
        Some e \<Rightarrow> (s, Some e)
      | None \<Rightarrow>
          (case gm_get (fa_routes s) channel of
             None \<Rightarrow> (s, Some (''route not registered for channel '' @ [CHR 0x22] @ channel @ [CHR 0x22]))
           | Some n \<Rightarrow>
               (let spec = rh_spec (fa_handles s ! n) in
                (forwardMessage enc (sp_BusChannel spec) (sp_DefaultDest spec) (sp_AllowOverride spec) msg s, None))))"

definition closeRoute :: "nat \<Rightarrow> fabric \<Rightarrow> fabric" where
  "closeRoute n s =
     (let ch = channelOfRoute s n;
          s1 = (if gm_get (fa_routes s) ch = Some n then s\<lparr>fa_routes := gm_del ch (fa_routes s)\<rparr> else s)
      in closeStream n s1)"

definition routerClose :: "fabric \<Rightarrow> fabric" where
  "routerClose s =
     (if fa_closed s then s
      else foldl (\<lambda>t n. closeStream n t) (s\<lparr>fa_routes := gm_empty, fa_closed := True\<rparr>) (gm_vals (fa_routes s)))"

definition fabricStop :: "fabric \<Rightarrow> fabric" where
  "fabricStop s = (if fa_stopped s then s else (routerClose s)\<lparr>fa_stopped := True\<rparr>)"

subsection \<open>The endpoint as a machine\<close>

text \<open>\<open>FaCall k\<close> is a call by the bus of the \<open>k\<close>-th function with a message or an error; the
  context of a route's function has not ended (the background context).\<close>

definition runFabricFn ::
  "(gval \<Rightarrow> string res) \<Rightarrow> fabricFn \<Rightarrow> err option + message \<Rightarrow> fabric \<Rightarrow> fabric" where
  "runFabricFn enc f arg s =
     (case (f, arg) of
        (FnForward ch, Inr msg) \<Rightarrow> forwardMessage enc ch (ec_TopicPrefix (fa_config s) @ ch) True msg s
      | (FnForwardError dest, Inl (Some e)) \<Rightarrow> sendToServer (ToTopic dest e) s
      | (FnForwardError dest, Inl None) \<Rightarrow> s\<lparr>fa_panicked := True\<rparr>
      | (FnRoute ch, Inr msg) \<Rightarrow> fst (RouteMessage enc None ch msg s)
      | (FnRouteError dest, Inl e) \<Rightarrow> sendRouteError enc dest s
      | _ \<Rightarrow> s)"

datatype fabricEv =
    FaSubscribe freshIds string string string
  | FaUnsubscribe freshIds string string string
  | FaRequest uuid string string string
  | FaSession uuid string int
  | FaPublish freshIds routeSpec
  | FaDetach nat
  | FaAttach uuid nat
  | FaCloseRoute nat
  | FaStop
  | FaCall nat "err option + message"
  | FaBus brokerOracle busEv

fun fabricStep :: "(gval \<Rightarrow> string res) \<Rightarrow> (string \<Rightarrow> request res) \<Rightarrow> fabric \<Rightarrow> fabricEv \<Rightarrow> fabric" where
  "fabricStep enc dec s (FaSubscribe ids con i d) = addSubscription ids con i d s"
| "fabricStep enc dec s (FaUnsubscribe ids con i d) = removeSubscription ids con i d s"
| "fabricStep enc dec s (FaRequest newId d body con) = bridgeMessage dec newId d body con s"
| "fabricStep enc dec s (FaSession newId con t) = sendSessionEvent newId con t s"
| "fabricStep enc dec s (FaPublish ids spec) = fst (publishRoute ids spec s)"
| "fabricStep enc dec s (FaDetach n) = (if n \<in> set (fa_pending s) then detachRoute n s else s)"
| "fabricStep enc dec s (FaAttach newId n) =
     (if n < length (fa_handles s) \<and> n \<notin> set (fa_pending s) then attachRoute newId n s else s)"
| "fabricStep enc dec s (FaCloseRoute n) = (if n < length (fa_handles s) then closeRoute n s else s)"
| "fabricStep enc dec s FaStop = fabricStop s"
| "fabricStep enc dec s (FaCall k arg) = (if k < length (fa_fns s) then runFabricFn enc (fa_fns s ! k) arg s else s)"
| "fabricStep enc dec s (FaBus br e) = onBus (\<lambda>b. busStep br b e) s"

end
