(* ===== verification/FabricFacts.thy ===== *)
theory FabricFacts
  imports Fabric
begin

text \<open>
  What the Fabric endpoint (transport/fabric) keeps: a channel is forwarded by its route or by
  the fallback, never by both; a mapping lives exactly while it has subscribers; a private
  request is answered to its sender only. And what it misses.
\<close>

subsection \<open>The invariant\<close>

definition mappingOk :: "channelMapping \<Rightarrow> bool" where
  "mappingOk cm \<longleftrightarrow> ma_subs cm \<noteq> [] \<and> gm_ok (ma_subs cm) \<and> (\<forall>k v. gm_get (ma_subs cm) k = Some v \<longrightarrow> v)"

definition fabricInv :: "fabric \<Rightarrow> bool" where
  "fabricInv s \<longleftrightarrow>
     (\<forall>ch n. gm_get (fa_routes s) ch = Some n \<longrightarrow> n < length (fa_handles s) \<and> channelOfRoute s n = ch) \<and>
     (\<forall>ch n cm. gm_get (fa_routes s) ch = Some n \<longrightarrow> n \<notin> set (fa_pending s) \<longrightarrow>
        gm_get (fa_chanMappings s) ch = Some cm \<longrightarrow> ma_handler cm = None) \<and>
     (\<forall>ch cm. gm_get (fa_chanMappings s) ch = Some cm \<longrightarrow> mappingOk cm \<and> \<not> isProtectedDestination ch) \<and>
     (fa_closed s \<longrightarrow> fa_routes s = [])"

definition sameRouting :: "fabric \<Rightarrow> fabric \<Rightarrow> bool" where
  "sameRouting s t \<longleftrightarrow>
     fa_chanMappings t = fa_chanMappings s \<and> fa_routes t = fa_routes s \<and> fa_handles t = fa_handles s \<and>
     fa_pending t = fa_pending s \<and> fa_closed t = fa_closed s"

lemma fabricInv_same: "fabricInv s \<Longrightarrow> sameRouting s t \<Longrightarrow> fabricInv t"
  by (simp add: fabricInv_def sameRouting_def channelOfRoute_def)

lemma onBus_same [simp]: "sameRouting s (onBus g s)" "sameRouting s (needBus g s)" "sameRouting s (sendToServer x s)"
  "sameRouting s (busMonitorEvent t n s)"
  by (simp_all add: onBus_def needBus_def sendToServer_def busMonitorEvent_def sameRouting_def split: option.splits)

lemma same_trans: "sameRouting s t \<Longrightarrow> sameRouting t u \<Longrightarrow> sameRouting s u"
  by (simp add: sameRouting_def)

lemma onBus_inv: "fabricInv s \<Longrightarrow> fabricInv (onBus g s)"
  by (erule fabricInv_same) simp

lemma onBus_fields [simp]:
  "fa_chanMappings (onBus g s) = fa_chanMappings s" "fa_routes (onBus g s) = fa_routes s"
  "fa_handles (onBus g s) = fa_handles s" "fa_pending (onBus g s) = fa_pending s"
  "fa_closed (onBus g s) = fa_closed s" "fa_config (onBus g s) = fa_config s"
  "fa_fns (onBus g s) = fa_fns s" "fa_sent (onBus g s) = fa_sent s"
  by (simp_all add: onBus_def split: option.splits)

lemma busMonitorEvent_inv [simp]: "fabricInv (busMonitorEvent t n s) = fabricInv s"
  by (auto simp: fabricInv_def channelOfRoute_def busMonitorEvent_def)

lemma forwardMessage_same: "sameRouting s (forwardMessage enc ch d o1 msg s)"
  by (auto simp: forwardMessage_def Let_def sameRouting_def sendToServer_def split: sum.splits option.splits prod.splits)

lemma runFabricFn_same: "sameRouting s (runFabricFn enc f arg s)"
  by (auto simp: runFabricFn_def RouteMessage_def forwardMessage_same sendRouteError_def sendToServer_def sameRouting_def Let_def
      split: fabricFn.splits sum.splits option.splits)
     (use forwardMessage_same in \<open>auto simp: sameRouting_def\<close>)

lemma bridgeMessage_same: "sameRouting s (bridgeMessage dec newId d body con s)"
  by (auto simp: bridgeMessage_def Let_def needBus_def sameRouting_def split: option.splits sum.splits)

lemma installForwarder_same: "sameRouting s (fst (installForwarder ids ch d s))"
  by (auto simp: installForwarder_def Let_def sameRouting_def split: option.splits prod.splits)

subsection \<open>Subscriptions\<close>

lemma mapping_set_inv:
  assumes "fabricInv s" and "mappingOk cm" and "\<not> isProtectedDestination ch"
    and "\<And>n. gm_get (fa_routes s) ch = Some n \<Longrightarrow> n \<notin> set (fa_pending s) \<Longrightarrow> ma_handler cm = None"
  shows "fabricInv (s\<lparr>fa_chanMappings := gm_set ch cm (fa_chanMappings s)\<rparr>)"
  using assms by (auto simp: fabricInv_def channelOfRoute_def split: if_splits)

lemma mapping_del_inv: "fabricInv s \<Longrightarrow> fabricInv (s\<lparr>fa_chanMappings := gm_del ch (fa_chanMappings s)\<rparr>)"
  by (auto simp: fabricInv_def channelOfRoute_def split: if_splits)

lemma gm_del_set: "gm_del k (gm_set k v m) = gm_del k m"
  by (induction m) (auto simp: gm_del_def gm_set_def)

lemma gm_set_nonempty: "gm_set k v m \<noteq> []"
  using gm_get_set [of k v m k] by (auto simp: gm_get_def)

lemma mappingOk_add:
  "gm_ok (ma_subs cm) \<Longrightarrow> (\<forall>k v. gm_get (ma_subs cm) k = Some v \<longrightarrow> v) \<Longrightarrow>
   mappingOk (cm\<lparr>ma_subs := gm_set key True (ma_subs cm)\<rparr>)"
  by (auto simp: mappingOk_def gm_set_nonempty split: if_splits)

lemma recordSubscription_inv:
  assumes "fabricInv s" and "gm_ok (ma_subs cm)" and "\<forall>k v. gm_get (ma_subs cm) k = Some v \<longrightarrow> v"
    and "\<not> isProtectedDestination ch"
    and "\<And>n. gm_get (fa_routes s) ch = Some n \<Longrightarrow> n \<notin> set (fa_pending s) \<Longrightarrow> ma_handler cm = None"
  shows "fabricInv (recordSubscription ch key cm s)"
  unfolding recordSubscription_def busMonitorEvent_inv
  by (rule mapping_set_inv) (use assms mappingOk_add in auto)

lemma addSubscription_inv:
  assumes inv: "fabricInv s" shows "fabricInv (addSubscription ids con i d s)"
proof (cases "getChannelNameFromSubscription (fa_config s) d")
  case (Some ch)
  show ?thesis
  proof (cases "isProtectedDestination ch")
    case False
    show ?thesis
    proof (cases "gm_get (fa_chanMappings s) ch")
      case (Some cm)
      then have "mappingOk cm" and "\<And>n. gm_get (fa_routes s) ch = Some n \<Longrightarrow> n \<notin> set (fa_pending s) \<Longrightarrow> ma_handler cm = None"
        using inv by (auto simp: fabricInv_def)
      then have "fabricInv (recordSubscription ch (mappingId con i) cm s)"
        using inv False by (intro recordSubscription_inv) (auto simp: mappingOk_def)
      then show ?thesis using Some False \<open>getChannelNameFromSubscription (fa_config s) d = Some ch\<close>
        by (simp add: addSubscription_def)
    next
      case None
      obtain s1 r where r: "installForwarder ids ch d s = (s1, r)" by (cases "installForwarder ids ch d s")
      have same: "sameRouting s s1" using installForwarder_same [of s ids ch d] r by simp
      then have inv1: "fabricInv s1" by (rule fabricInv_same [OF inv])
      have "fabricInv (recordSubscription ch (mappingId con i) \<lparr>ma_subs = gm_empty, ma_handler = None, ma_autoCreated = False\<rparr> s)"
        using inv False by (intro recordSubscription_inv) auto
      moreover have "fabricInv (recordSubscription ch (mappingId con i)
          \<lparr>ma_subs = gm_empty, ma_handler = Some h, ma_autoCreated = a\<rparr> s1)" if "\<not> hasRoute ch s" for h a
        using inv1 False that same by (intro recordSubscription_inv) (auto simp: hasRoute_def sameRouting_def)
      ultimately show ?thesis using None False Some inv1
        by (simp add: addSubscription_def r split: option.splits)
    qed
  qed (use inv Some in \<open>simp add: addSubscription_def\<close>)
qed (use inv in \<open>simp add: addSubscription_def\<close>)

lemma removeSubscription_inv:
  assumes inv: "fabricInv s" shows "fabricInv (removeSubscription ids con i d s)"
proof (cases "getChannelNameFromSubscription (fa_config s) d")
  case (Some ch)
  show ?thesis
  proof (cases "gm_get (fa_chanMappings s) ch")
    case (Some cm)
    let ?k = "mappingId con i"
    let ?cm = "cm\<lparr>ma_subs := gm_del ?k (ma_subs cm)\<rparr>"
    let ?s = "s\<lparr>fa_chanMappings := gm_set ch ?cm (fa_chanMappings s)\<rparr>"
    have cm: "mappingOk cm" "\<not> isProtectedDestination ch" using inv Some by (auto simp: fabricInv_def)
    have "mappingOk ?cm" if "gm_del ?k (ma_subs cm) \<noteq> []"
      using cm that by (auto simp: mappingOk_def split: if_splits)
    then have keep: "fabricInv ?s" if "gm_del ?k (ma_subs cm) \<noteq> []"
      using that inv cm Some by (intro mapping_set_inv) (auto simp: fabricInv_def)
    have "fabricInv (closeMapping ids ch ?cm ?s)"
    proof -
      let ?t = "case ma_handler cm of None \<Rightarrow> ?s | Some r \<Rightarrow> onBus (Close r) ?s"
      have "fabricInv (?t\<lparr>fa_chanMappings := gm_del ch (fa_chanMappings ?t)\<rparr>)"
        using mapping_del_inv [OF inv, of ch]
        by (cases "ma_handler cm") (simp_all add: gm_del_set fabricInv_def channelOfRoute_def)
      then show ?thesis
        by (auto simp: closeMapping_def Let_def intro: fabricInv_same [OF _ onBus_same(2)] split: option.splits)
    qed
    then show ?thesis using keep inv Some \<open>getChannelNameFromSubscription (fa_config s) d = Some ch\<close>
      by (cases "gm_del ?k (ma_subs cm) = []") (simp_all add: removeSubscription_def Let_def)
  qed (use inv Some in \<open>simp add: removeSubscription_def\<close>)
qed (use inv in \<open>simp add: removeSubscription_def\<close>)

subsection \<open>Routes\<close>

lemma closeStream_channel [simp]:
  "channelOfRoute (closeStream n s) m = channelOfRoute s m" "length (fa_handles (closeStream n s)) = length (fa_handles s)"
  "fa_routes (closeStream n s) = fa_routes s" "fa_chanMappings (closeStream n s) = fa_chanMappings s"
  "fa_pending (closeStream n s) = fa_pending s" "fa_closed (closeStream n s) = fa_closed s"
  by (cases "n < length (fa_handles s)"; auto simp: closeStream_def channelOfRoute_def nth_list_update list_update_beyond)+

lemma fabricInv_cong:
  assumes "fabricInv s" and "\<And>n. channelOfRoute t n = channelOfRoute s n" and "length (fa_handles t) = length (fa_handles s)"
    and "fa_routes t = fa_routes s" and "fa_chanMappings t = fa_chanMappings s" and "fa_pending t = fa_pending s"
    and "fa_closed t = fa_closed s"
  shows "fabricInv t"
  using assms by (simp add: fabricInv_def)

lemma closeStream_inv: "fabricInv s \<Longrightarrow> fabricInv (closeStream n s)"
  by (erule fabricInv_cong) simp_all

lemma publishRoute_inv:
  assumes inv: "fabricInv s" shows "fabricInv (fst (publishRoute ids spec s))"
proof -
  have bus: "fabricInv (s\<lparr>fa_bus := b\<rparr>)" for b
    by (rule fabricInv_same [OF inv]) (simp add: sameRouting_def)
  have new: "fabricInv (s\<lparr>fa_bus := b, fa_handles := fa_handles s @ [\<lparr>rh_spec = sp, rh_stream = r, rh_once = False\<rparr>],
        fa_routes := gm_set ch (length (fa_handles s)) (fa_routes s),
        fa_pending := length (fa_handles s) # fa_pending s\<rparr>)"
    if "\<not> fa_closed s" and "sp_BusChannel sp = ch" for b sp r ch
    using inv that by (auto simp: fabricInv_def channelOfRoute_def nth_append less_SucI split: if_splits)
  show ?thesis
    using inv bus new by (auto simp: publishRoute_def Let_def split: option.splits sum.splits prod.splits)
qed

lemma detachRoute_inv:
  assumes inv: "fabricInv s" shows "fabricInv (detachRoute n s)"
proof -
  let ?s = "s\<lparr>fa_pending := filter (\<lambda>m. m \<noteq> n) (fa_pending s)\<rparr>"
  let ?ch = "channelOfRoute s n"
  have ch: "channelOfRoute ?s n = ?ch" by (simp add: channelOfRoute_def)
  have "fabricInv (fst (detachSubscriptionForwarder ?ch ?s))"
  proof (cases "gm_get (fa_chanMappings s) ?ch")
    case None
    then show ?thesis using inv
      by (auto simp: detachSubscriptionForwarder_def fabricInv_def channelOfRoute_def)
  next
    case (Some cm)
    then have ok: "mappingOk cm" "\<not> isProtectedDestination ?ch" using inv by (auto simp: fabricInv_def)
    have "mappingOk (cm\<lparr>ma_handler := None, ma_autoCreated := False\<rparr>) = mappingOk cm" by (simp add: mappingOk_def)
    then show ?thesis using inv Some ok
      by (auto simp: detachSubscriptionForwarder_def fabricInv_def channelOfRoute_def split: if_splits)
  qed
  then show ?thesis
    by (auto simp: detachRoute_def Let_def ch onBus_inv split: prod.splits option.splits)
qed

lemma attachRoute_inv: "fabricInv s \<Longrightarrow> fabricInv (attachRoute newId n s)"
  by (erule fabricInv_same) (auto simp: attachRoute_def Let_def sameRouting_def onBus_def split: option.splits)

lemma closeRoute_inv: "fabricInv s \<Longrightarrow> fabricInv (closeRoute n s)"
  unfolding closeRoute_def Let_def
proof (rule closeStream_inv)
  assume inv: "fabricInv s"
  have "gm_del ch [] = []" for ch :: string and x :: nat by (simp add: gm_del_def)
  then have "fabricInv (s\<lparr>fa_routes := gm_del ch (fa_routes s)\<rparr>)" for ch
    using inv by (auto simp: fabricInv_def channelOfRoute_def gm_del_def [of _ "[]"] split: if_splits)
  then show "fabricInv (if gm_get (fa_routes s) (channelOfRoute s n) = Some n
      then s\<lparr>fa_routes := gm_del (channelOfRoute s n) (fa_routes s)\<rparr> else s)"
    using inv by simp
qed

lemma routerClose_inv:
  assumes "fabricInv s" shows "fabricInv (routerClose s)"
proof -
  have "fabricInv (foldl (\<lambda>t n. closeStream n t) t ns)" if "fabricInv t" for t ns
    using that by (induction ns arbitrary: t) (auto intro: closeStream_inv)
  moreover have "fabricInv (s\<lparr>fa_routes := gm_empty, fa_closed := True\<rparr>)"
    using assms by (auto simp: fabricInv_def channelOfRoute_def gm_empty_def gm_get_def)
  ultimately show ?thesis using assms by (simp add: routerClose_def)
qed

lemma fabricStep_inv:
  assumes "fabricInv s" shows "fabricInv (fabricStep enc dec s e)"
proof (cases e)
  case FaStop
  have "fabricInv ((routerClose s)\<lparr>fa_stopped := True\<rparr>)"
    by (rule fabricInv_same [OF routerClose_inv [OF assms]]) (simp add: sameRouting_def)
  then show ?thesis using FaStop assms by (simp add: fabricStop_def)
next
  case (FaRequest i d body con)
  then show ?thesis using fabricInv_same [OF assms bridgeMessage_same] by simp
next
  case (FaCall k arg)
  then show ?thesis using fabricInv_same [OF assms runFabricFn_same] assms by simp
qed (use assms in \<open>simp_all add: addSubscription_inv removeSubscription_inv publishRoute_inv detachRoute_inv attachRoute_inv
    closeRoute_inv onBus_inv sendSessionEvent_def\<close>)

interpretation fabric: machine "fabricStep enc dec" fabricInv for enc dec
  by unfold_locales (rule fabricStep_inv)

lemma newFabricEndpoint_inv: "fabricInv (newFabricEndpoint b ec)"
  by (simp add: fabricInv_def newFabricEndpoint_def gm_empty_def gm_get_def)

subsection \<open>Properties\<close>

text \<open>C24: A channel is forwarded by its route or by the fallback forwarder, never by both: in every
  run, once the registration of a channel's route has detached the forwarder, the mapping of the
  channel holds no handler, whatever subscriptions came in between; and a mapping always has a
  subscriber and is never one of an internal channel.\<close>

theorem route_replaces_forwarder:
  assumes "s = foldl (fabricStep enc dec) (newFabricEndpoint b ec) es"
    and "gm_get (fa_chanMappings s) ch = Some cm"
  shows "ma_subs cm \<noteq> [] \<and> \<not> isProtectedDestination ch \<and>
         (\<forall>n. gm_get (fa_routes s) ch = Some n \<and> n \<notin> set (fa_pending s) \<longrightarrow> ma_handler cm = None)"
proof -
  have "fabricInv s" unfolding assms(1) by (rule fabric.run_inv) (rule newFabricEndpoint_inv)
  then show ?thesis using assms(2) by (auto simp: fabricInv_def mappingOk_def)
qed

definition plainIds :: freshIds where
  "plainIds = \<lparr>fi_first = (1, 2, 3), fi_second = (4, 5, 6), fi_sub = 7, fi_msg = 8, fi_unsub = (\<lambda>x. None)\<rparr>"

definition sampleEndpoint :: endpointConfig where
  "sampleEndpoint = \<lparr>ec_TopicPrefix = ''/topic'', ec_UserQueuePrefix = ''/user'', ec_AppRequestPrefix = ''/pub'',
     ec_AppRequestQueuePrefix = ''/pub/queue'', ec_Heartbeat = 0\<rparr>"

definition encodeText :: "gval \<Rightarrow> string res" where
  "encodeText v = Inr ''data''"

definition decodeText :: "string \<Rightarrow> request res" where
  "decodeText t = Inr (Request None [] (GString t) [] None)"

definition sampleFabric :: "fabricEv list \<Rightarrow> fabric" where
  "sampleFabric es = foldl (fabricStep encodeText decodeText) (newFabricEndpoint (Some newBus) sampleEndpoint) es"

definition sampleRoute :: routeSpec where
  "sampleRoute = \<lparr>sp_BusChannel = ''news'', sp_DefaultDest = [], sp_AllowOverride = True, sp_Direction = ResponseDir\<rparr>"

definition routedRun :: "fabricEv list" where
  "routedRun = [FaSubscribe plainIds ''c'' ''1'' ''/topic/news'', FaPublish plainIds sampleRoute,
     FaSubscribe plainIds ''d'' ''1'' ''/topic/news'', FaDetach 0, FaAttach 9 0]"

theorem route_replaces_forwarder_witness:
  "\<exists>cm. gm_get (fa_chanMappings (sampleFabric routedRun)) ''news'' = Some cm \<and> ma_handler cm = None \<and> ma_subs cm \<noteq> []"
proof -
  let ?s = "sampleFabric routedRun"
  have ex: "gm_get (fa_chanMappings ?s) ''news'' \<noteq> None" by code_simp
  then obtain cm where cm: "gm_get (fa_chanMappings ?s) ''news'' = Some cm" by auto
  have "gm_get (fa_routes ?s) ''news'' = Some 0" "fa_pending ?s = []" by code_simp+
  with route_replaces_forwarder [OF sampleFabric_def cm] cm show ?thesis by simp
qed

text \<open>A private request is answered to its sender only: a client's SEND to the private request
  prefix goes to the bus channel named by the rest of the destination with the client's queue and
  connection as broker destination, and every response that keeps this broker destination is
  forwarded to that connection alone, on a destination that subscribers of the same channel
  use.\<close>

theorem private_request_answered_to_sender:
  assumes "fa_bus s = Some b" and "ec_AppRequestQueuePrefix (fa_config s) \<noteq> []"
    and "ec_UserQueuePrefix (fa_config s) \<noteq> []"
    and "\<not> HasPrefix (ec_UserQueuePrefix (fa_config s) @ ch) (ec_TopicPrefix (fa_config s))"
    and "dec body = Inr req"
    and "r = rq_setBrokerDestination (Some (BrokerDestinationConfig (ec_UserQueuePrefix (fa_config s) @ ch) con)) req"
    and "m_Payload msg = GResponsePtr (Some resp)" and "rs_BrokerDestination resp = rq_BrokerDestination r"
    and "enc (m_Payload msg) = Inr data"
  shows "bridgeMessage dec newId (ec_AppRequestQueuePrefix (fa_config s) @ ch) body con s =
           s\<lparr>fa_bus := Some (fst (SendRequestMessage ch (GRequestPtr r) None newId None b))\<rparr> \<and>
         forwardMessage enc ch' d True msg t = sendToServer (ToClient con (ec_UserQueuePrefix (fa_config s) @ ch) data) t \<and>
         getChannelNameFromSubscription (fa_config s) (ec_UserQueuePrefix (fa_config s) @ ch) = Some ch"
  using assms
  by (simp add: bridgeMessage_def needBus_def forwardMessage_def marshalMessagePayload_def convertPayloadToResponseObj_def
      getChannelNameFromSubscription_def Let_def)

theorem private_request_answered_to_sender_witness:
  "fa_sent (forwardMessage encodeText ''x'' ''/topic/x'' True
     \<lparr>m_Id = None, m_DestinationId = None, m_Channel = ''x'', m_Destination = [],
       m_Payload = GResponsePtr (Some (Response None [] GNil 0 False 0 [] GNil (Some (BrokerDestinationConfig ''/user/x'' ''c'')) [] False)),
       m_Error = None, m_Direction = ResponseDir, m_Headers = []\<rparr> (sampleFabric [])) = [ToClient ''c'' ''/user/x'' ''data'']"
proof -
  let ?resp = "Response None [] GNil 0 False 0 [] GNil (Some (BrokerDestinationConfig ''/user/x'' ''c'')) [] False"
  let ?msg = "\<lparr>m_Id = None, m_DestinationId = None, m_Channel = ''x'', m_Destination = [], m_Payload = GResponsePtr (Some ?resp),
     m_Error = None, m_Direction = ResponseDir, m_Headers = []\<rparr>"
  have cfg: "fa_config (sampleFabric []) = completeConfig sampleEndpoint" and b: "fa_bus (sampleFabric []) = Some newBus"
    and sent: "fa_sent (sampleFabric []) = []"
    by (simp_all add: sampleFabric_def newFabricEndpoint_def)
  have pre: "ec_AppRequestQueuePrefix (completeConfig sampleEndpoint) \<noteq> []" "ec_UserQueuePrefix (completeConfig sampleEndpoint) = ''/user/''"
    "ec_TopicPrefix (completeConfig sampleEndpoint) = ''/topic/''"
    by code_simp+
  have "forwardMessage encodeText ''x'' ''/topic/x'' True ?msg (sampleFabric []) =
      sendToServer (ToClient ''c'' (ec_UserQueuePrefix (fa_config (sampleFabric [])) @ ''x'') ''data'') (sampleFabric [])"
    using private_request_answered_to_sender [OF b, where ch = "''x''" and con = "''c''" and dec = decodeText and body = "[]"
        and req = "Request None [] (GString []) [] None" and msg = ?msg and resp = ?resp and enc = encodeText and data = "''data''"
        and r = "rq_setBrokerDestination (Some (BrokerDestinationConfig ''/user/x'' ''c'')) (Request None [] (GString []) [] None)"]
    by (simp add: cfg pre decodeText_def encodeText_def)
  then show ?thesis by (simp add: sendToServer_def sent cfg pre)
qed

text \<open>Internal channels are protected against subscriptions only: a client cannot subscribe to
  a channel with the internal prefix, but its SEND to the same channel is put on the bus.\<close>

theorem internal_channel_takes_requests:
  assumes "fa_bus s = Some b" and "ec_AppRequestQueuePrefix (fa_config s) = []" and "ec_AppRequestPrefix (fa_config s) \<noteq> []"
    and "ch = RANCH_INTERNAL_CHANNEL_PREFIX @ name" and "dec body = Inr req"
  shows "addSubscription ids con i (ec_TopicPrefix (fa_config s) @ ch) s = s \<and>
         bridgeMessage dec newId (ec_AppRequestPrefix (fa_config s) @ ch) body con s =
           s\<lparr>fa_bus := Some (fst (SendRequestMessage ch (GRequestPtr req) None newId None b))\<rparr>"
  using assms
  by (simp add: addSubscription_def getChannelNameFromSubscription_def isProtectedDestination_def bridgeMessage_def needBus_def)

theorem internal_channel_takes_requests_witness:
  "let s = newFabricEndpoint (Some newBus) (sampleEndpoint\<lparr>ec_AppRequestQueuePrefix := []\<rparr>)
   in addSubscription plainIds ''c'' ''1'' ''/topic/_ranchInternal/x'' s = s"
proof -
  let ?s = "newFabricEndpoint (Some newBus) (sampleEndpoint\<lparr>ec_AppRequestQueuePrefix := []\<rparr>)"
  have cfg: "ec_AppRequestQueuePrefix (fa_config ?s) = []" "ec_AppRequestPrefix (fa_config ?s) \<noteq> []" "ec_TopicPrefix (fa_config ?s) = ''/topic/''"
    by code_simp+
  have "fa_bus ?s = Some newBus" by (simp add: newFabricEndpoint_def)
  from internal_channel_takes_requests [OF this cfg(1,2), of "''_ranchInternal/x''" "''x''" decodeText "[]" "Request None [] (GString []) [] None" plainIds "''c''" "''1''" 0]
  show ?thesis by (simp add: cfg RANCH_INTERNAL_CHANNEL_PREFIX_def decodeText_def)
qed

text \<open>After the route of a channel that has subscribers is closed, nothing forwards the channel
  any more: a subscription that comes then finds the mapping and installs no forwarder, so the
  mapping stays without a handler and no function is given to the bus.\<close>

theorem closed_route_leaves_no_forwarder:
  assumes "getChannelNameFromSubscription (fa_config s) d = Some ch" and "\<not> isProtectedDestination ch"
    and "gm_get (fa_chanMappings s) ch = Some cm" and "ma_handler cm = None"
    and "t = addSubscription ids con i d (closeRoute n s)"
  shows "fa_fns t = fa_fns s \<and> (\<exists>cm'. gm_get (fa_chanMappings t) ch = Some cm' \<and> ma_handler cm' = None)"
proof -
  have c: "fa_config (closeRoute n s) = fa_config s" "fa_fns (closeRoute n s) = fa_fns s"
    "fa_chanMappings (closeRoute n s) = fa_chanMappings s"
    by (auto simp: closeRoute_def closeStream_def Let_def)
  show ?thesis
    using assms(1-4) unfolding assms(5)
    by (simp add: addSubscription_def c recordSubscription_def busMonitorEvent_def)
qed

theorem closed_route_leaves_no_forwarder_witness:
  "fa_fns (addSubscription plainIds ''e'' ''1'' ''/topic/news'' (closeRoute 0 (sampleFabric routedRun))) =
   [FnForward ''news'', FnForwardError ''/topic/news'', FnRoute ''news'', FnRouteError ''/topic/news''] \<and>
   hasRoute ''news'' (closeRoute 0 (sampleFabric routedRun)) = False"
proof
  let ?s = "sampleFabric routedRun"
  have ex: "gm_get (fa_chanMappings ?s) ''news'' \<noteq> None" by code_simp
  then obtain cm where cm: "gm_get (fa_chanMappings ?s) ''news'' = Some cm" by auto
  have h: "map_option ma_handler (gm_get (fa_chanMappings ?s) ''news'') = Some None" by code_simp
  have d: "getChannelNameFromSubscription (fa_config ?s) ''/topic/news'' = Some ''news''" by code_simp
  have p: "\<not> isProtectedDestination ''news''" by code_simp
  have f: "fa_fns ?s = [FnForward ''news'', FnForwardError ''/topic/news'', FnRoute ''news'', FnRouteError ''/topic/news'']" by code_simp
  from closed_route_leaves_no_forwarder [OF d p cm _ refl] h cm f
  show "fa_fns (addSubscription plainIds ''e'' ''1'' ''/topic/news'' (closeRoute 0 ?s)) =
     [FnForward ''news'', FnForwardError ''/topic/news'', FnRoute ''news'', FnRouteError ''/topic/news'']" by simp
  show "hasRoute ''news'' (closeRoute 0 ?s) = False" by code_simp
qed

end
