(* ===== verification/Services.thy ===== *)
theory Services
  imports MessageBus
begin

text \<open>
  Package \<open>service\<close>: the base functions given to services (fabric_core.go), the registry
  (service_registry.go) with its lifecycle manager (service_lifecycle_manager.go), and the REST
  service (rest_service.go), over the model of the bus. A service is the set of interfaces it
  implements; what its own code does is an argument. The functions that the registry gives to
  the bus are indices of a table.
\<close>

subsection \<open>The core given to a service\<close>

record fabricCore =
  co_channelName :: string
  co_headers :: "(string, string) gomap"

definition SetHeaders :: "(string, string) gomap \<Rightarrow> fabricCore \<Rightarrow> fabricCore" where
  "SetHeaders hs core = core\<lparr>co_headers := hs\<rparr>"

definition GenerateJSONHeaders :: "(string, string) gomap" where
  "GenerateJSONHeaders = [(''Content-Type'', ''application/json'')]"

definition SetDefaultJSONHeaders :: "fabricCore \<Rightarrow> fabricCore" where
  "SetDefaultJSONHeaders core = SetHeaders GenerateJSONHeaders core"

fun setAll :: "(string \<times> 'v) list \<Rightarrow> (string, 'v) gomap \<Rightarrow> (string, 'v) gomap" where
  "setAll [] m = m"
| "setAll ((k, v) # kvs) m = setAll kvs (gm_set k v m)"

definition mergeHeadersWithDefaults :: "fabricCore \<Rightarrow> (string, gval) gomap \<Rightarrow> (string, gval) gomap" where
  "mergeHeadersWithDefaults core headers =
     setAll headers (setAll (map (\<lambda>(k, v). (k, GString v)) (co_headers core)) gm_empty)"

definition sendResponseMessage :: "fabricCore \<Rightarrow> uuid \<Rightarrow> response \<Rightarrow> uuid option \<Rightarrow> bus \<Rightarrow> bus" where
  "sendResponseMessage core newId response dest b =
     fst (SendResponseMessage (co_channelName core) (GResponsePtr (Some response)) dest newId None b)"

text \<open>The responses of the send functions; the payload of a string response is a string. In
  \<open>Response\<close> the order is id, destination, payload, status, error, code, message, object, broker
  destination, headers, marshal.\<close>

definition responseFor ::
  "fabricCore \<Rightarrow> request \<Rightarrow> gval \<Rightarrow> (string, gval) gomap \<Rightarrow> bool \<Rightarrow> int \<Rightarrow> response" where
  "responseFor core req payload headers marshal code =
     Response (rq_Id req) (co_channelName core) payload code False 0 [] GNil (rq_BrokerDestination req)
       (mergeHeadersWithDefaults core headers) marshal"

definition errorFor ::
  "fabricCore \<Rightarrow> request \<Rightarrow> int \<Rightarrow> string \<Rightarrow> gval \<Rightarrow> (string, gval) gomap \<Rightarrow> bool \<Rightarrow> response" where
  "errorFor core req code msg payload headers marshal =
     Response (rq_Id req) (co_channelName core) payload 0 True code msg GNil (rq_BrokerDestination req)
       (mergeHeadersWithDefaults core headers) marshal"

definition SendResponse :: "fabricCore \<Rightarrow> uuid \<Rightarrow> request \<Rightarrow> gval \<Rightarrow> bus \<Rightarrow> bus" where
  "SendResponse core newId req payload = sendResponseMessage core newId (responseFor core req payload [] True 0) (rq_Id req)"

definition SendResponseAsString :: "fabricCore \<Rightarrow> uuid \<Rightarrow> request \<Rightarrow> string \<Rightarrow> bus \<Rightarrow> bus" where
  "SendResponseAsString core newId req payload =
     sendResponseMessage core newId (responseFor core req (GString payload) [] False 0) (rq_Id req)"

definition SendResponseAsStringWithHeaders ::
  "fabricCore \<Rightarrow> uuid \<Rightarrow> request \<Rightarrow> string \<Rightarrow> (string, gval) gomap \<Rightarrow> bus \<Rightarrow> bus" where
  "SendResponseAsStringWithHeaders core newId req payload hs =
     sendResponseMessage core newId (responseFor core req (GString payload) hs False 0) (rq_Id req)"

definition SendResponseWithHeaders ::
  "fabricCore \<Rightarrow> uuid \<Rightarrow> request \<Rightarrow> gval \<Rightarrow> (string, gval) gomap \<Rightarrow> bus \<Rightarrow> bus" where
  "SendResponseWithHeaders core newId req payload hs =
     sendResponseMessage core newId (responseFor core req payload hs True 0) (rq_Id req)"

definition SendResponseWithHeadersAndCode ::
  "fabricCore \<Rightarrow> uuid \<Rightarrow> request \<Rightarrow> gval \<Rightarrow> (string, gval) gomap \<Rightarrow> int \<Rightarrow> bus \<Rightarrow> bus" where
  "SendResponseWithHeadersAndCode core newId req payload hs code =
     sendResponseMessage core newId (responseFor core req payload hs True code) (rq_Id req)"

definition SendErrorResponseWithPayload ::
  "fabricCore \<Rightarrow> uuid \<Rightarrow> request \<Rightarrow> int \<Rightarrow> string \<Rightarrow> gval \<Rightarrow> bus \<Rightarrow> bus" where
  "SendErrorResponseWithPayload core newId req code msg payload =
     sendResponseMessage core newId (errorFor core req code msg payload [] True) (rq_Id req)"

definition SendErrorResponse :: "fabricCore \<Rightarrow> uuid \<Rightarrow> request \<Rightarrow> int \<Rightarrow> string \<Rightarrow> bus \<Rightarrow> bus" where
  "SendErrorResponse core newId req code msg = SendErrorResponseWithPayload core newId req code msg GNil"

definition SendErrorResponseWithHeaders ::
  "fabricCore \<Rightarrow> uuid \<Rightarrow> request \<Rightarrow> int \<Rightarrow> string \<Rightarrow> (string, gval) gomap \<Rightarrow> bus \<Rightarrow> bus" where
  "SendErrorResponseWithHeaders core newId req code msg hs =
     sendResponseMessage core newId (errorFor core req code msg GNil hs True) (rq_Id req)"

definition SendErrorResponseWithHeadersAndPayload ::
  "fabricCore \<Rightarrow> uuid \<Rightarrow> request \<Rightarrow> int \<Rightarrow> string \<Rightarrow> gval \<Rightarrow> (string, gval) gomap \<Rightarrow> bus \<Rightarrow> bus" where
  "SendErrorResponseWithHeadersAndPayload core newId req code msg payload hs =
     sendResponseMessage core newId (errorFor core req code msg payload hs True) (rq_Id req)"

definition SendErrorResponseAsStringWithHeadersAndPayload ::
  "fabricCore \<Rightarrow> uuid \<Rightarrow> request \<Rightarrow> int \<Rightarrow> string \<Rightarrow> string \<Rightarrow> (string, gval) gomap \<Rightarrow> bus \<Rightarrow> bus" where
  "SendErrorResponseAsStringWithHeadersAndPayload core newId req code msg payload hs =
     sendResponseMessage core newId (errorFor core req code msg (GString payload) hs False) (rq_Id req)"

definition HandleUnknownRequest :: "fabricCore \<Rightarrow> uuid \<Rightarrow> request \<Rightarrow> bus \<Rightarrow> bus" where
  "HandleUnknownRequest core newId req =
     SendErrorResponse core newId req 403
       (''unsupported request for '' @ [CHR 0x22] @ co_channelName core @ [CHR 0x22] @ '': '' @ rq_RequestCommand req)"

subsection \<open>A REST request made by a service\<close>

definition RestServiceChannel :: string where "RestServiceChannel = ''fabric-rest''"

text \<open>The result of \<open>ListenOnceForDestination\<close> is used without looking at its error: with no REST
  channel the handler is nil and the call of its method fails (\<open>None\<close>).\<close>

fun rr_setHeaders :: "(string, string) gomap \<Rightarrow> restRequest \<Rightarrow> restRequest" where
  "rr_setHeaders hs (RestRequest u m b _ t a) = RestRequest u m b hs t a"

fun rr_setResponseType :: "goType option \<Rightarrow> restRequest \<Rightarrow> restRequest" where
  "rr_setResponseType t (RestRequest u m b hs _ a) = RestRequest u m b hs t a"

definition mergedRestHeaders :: "fabricCore \<Rightarrow> restRequest \<Rightarrow> (string, string) gomap" where
  "mergedRestHeaders core rr = setAll (rr_Headers rr) (setAll (co_headers core) gm_empty)"

definition RestServiceRequest ::
  "fabricCore \<Rightarrow> restRequest \<Rightarrow> nat \<Rightarrow> nat \<Rightarrow> uuid \<Rightarrow> uuid \<times> uuid \<times> uuid \<Rightarrow> uuid \<Rightarrow> uuid \<Rightarrow> bus \<Rightarrow> bus option" where
  "RestServiceRequest core rr onMsg onErr rid ids sid mid b =
     (let rr1 = rr_setHeaders (mergedRestHeaders core rr) rr;
          request = Request (Some rid) [] (GRestRequest (Some rr1)) [] None
      in case ListenOnceForDestination RestServiceChannel (Some rid) ids b of
           (b1, Inl e) \<Rightarrow> None
         | (b1, Inr r) \<Rightarrow>
             Some (fst (SendRequestMessage RestServiceChannel (GRequestPtr request) (Some rid) mid None
                          (Handle r (Some onMsg) (Some onErr) sid b1))))"

text \<open>What the function given to that handler calls: the error function for a response with the
  error flag, else the success function. A payload that is not a response pointer, or a nil
  one, fails (\<open>None\<close>).\<close>

datatype restCall = RestSuccess response | RestError response

definition restResponse :: "message \<Rightarrow> restCall option" where
  "restResponse msg =
     (case m_Payload msg of
        GResponsePtr (Some r) \<Rightarrow> Some (if rs_Error r then RestError r else RestSuccess r)
      | _ \<Rightarrow> None)"

definition restFailure :: "string \<Rightarrow> restCall" where
  "restFailure e = RestError (Response None [] GNil 0 True 500 e GNil None [] False)"

subsection \<open>The registry\<close>

text \<open>\<open>sc_init\<close> is the \<open>Init\<close> of a service that has one: from the core and the bus to the headers
  it leaves in the core, the bus, and its error. The cores are objects, named by references: the
  service may set headers later (\<open>RgSetHeaders\<close>).\<close>

record fabricService =
  sc_id :: nat
  sc_init :: "(fabricCore \<Rightarrow> bus \<Rightarrow> (string, string) gomap \<times> bus \<times> err option) option"
  sc_bridge :: "nat list option"
  sc_context :: bool
  sc_isRest :: bool
  sc_onReady :: bool
  sc_onShutdown :: bool

record serviceWrapper =
  sw_service :: fabricService
  sw_core :: ref
  sw_handler :: "ref option"

datatype serviceCall = ServiceCall (scl_service: nat) (scl_context: bool) (scl_request: request) (scl_channel: string)

record serviceRegistry =
  rg_services :: "(string, serviceWrapper) gomap"
  rg_bus :: bus
  rg_busId :: uuid
  rg_cores :: "fabricCore list"
  rg_fns :: "(fabricService \<times> ref) list"
  rg_calls :: "serviceCall list"
  rg_baseHost :: "string option"

definition internalServices :: "string list" where "internalServices = [''fabric-rest'']"

definition LifecycleManagerChannelName :: string where
  "LifecycleManagerChannelName = ''_ranchInternal/service-lifecycle-manager''"

definition ServiceReadyStore :: string where "ServiceReadyStore = ''service-ready-notification-store''"

definition onRegBus :: "(bus \<Rightarrow> bus) \<Rightarrow> serviceRegistry \<Rightarrow> serviceRegistry" where
  "onRegBus g s = s\<lparr>rg_bus := g (rg_bus s)\<rparr>"

definition NewServiceRegistry :: "uuid \<Rightarrow> bus \<Rightarrow> serviceRegistry" where
  "NewServiceRegistry busId b =
     \<lparr>rg_services = gm_empty, rg_bus = onMgr (\<lambda>m. fst (CreateChannel LifecycleManagerChannelName m)) b, rg_busId = busId,
      rg_cores = [], rg_fns = [], rg_calls = [], rg_baseHost = None\<rparr>"

definition GetService :: "string \<Rightarrow> serviceRegistry \<Rightarrow> fabricService res" where
  "GetService name s =
     (case gm_get (rg_services s) name of
        Some sw \<Rightarrow> Inr (sw_service sw)
      | None \<Rightarrow> Inl (''fabric service not found at channel '' @ name))"

definition SetGlobalRestServiceBaseHost :: "string \<Rightarrow> serviceRegistry \<Rightarrow> serviceRegistry" where
  "SetGlobalRestServiceBaseHost host s =
     (case gm_get (rg_services s) RestServiceChannel of
        Some sw \<Rightarrow> if sc_isRest (sw_service sw) then s\<lparr>rg_baseHost := Some host\<rparr> else s
      | None \<Rightarrow> s)"

definition GetAllServiceChannels :: "serviceRegistry \<Rightarrow> string list" where
  "GetAllServiceChannels s = filter (\<lambda>n. n \<notin> set internalServices) (gm_keys (rg_services s))"

definition GetOnReadyCapableService :: "string \<Rightarrow> serviceRegistry \<Rightarrow> fabricService option" where
  "GetOnReadyCapableService name s =
     (case GetService name s of Inl e \<Rightarrow> None | Inr svc \<Rightarrow> if sc_onReady svc then Some svc else None)"

definition GetOnServerShutdownService :: "string \<Rightarrow> serviceRegistry \<Rightarrow> fabricService option" where
  "GetOnServerShutdownService name s =
     (case GetService name s of Inl e \<Rightarrow> None | Inr svc \<Rightarrow> if sc_onShutdown svc then Some svc else None)"

definition GetRESTBridgeEnabledService :: "string \<Rightarrow> serviceRegistry \<Rightarrow> nat list option" where
  "GetRESTBridgeEnabledService name s = (case GetService name s of Inl e \<Rightarrow> None | Inr svc \<Rightarrow> sc_bridge svc)"

text \<open>The ids drawn by one operation.\<close>

record svcIds =
  si_handler :: "uuid \<times> uuid \<times> uuid"
  si_sub :: uuid
  si_msg :: uuid

definition wrapperInit ::
  "svcIds \<Rightarrow> fabricService \<Rightarrow> string \<Rightarrow> serviceRegistry \<Rightarrow> serviceRegistry \<times> serviceWrapper res" where
  "wrapperInit ids svc name s =
     (let core = \<lparr>co_channelName = name, co_headers = gm_empty\<rparr>;
          k = length (rg_cores s);
          s1 = onRegBus (onMgr (\<lambda>m. fst (CreateChannel name m))) s;
          (hs, b2, ierr) = (case sc_init svc of None \<Rightarrow> (gm_empty, rg_bus s1, None) | Some f \<Rightarrow> f core (rg_bus s1));
          s2 = s1\<lparr>rg_bus := b2, rg_cores := rg_cores s1 @ [SetHeaders hs core]\<rparr>
      in case ierr of
           Some e \<Rightarrow> (s2, Inl e)
         | None \<Rightarrow>
             (case ListenRequestStream name (si_handler ids) (rg_bus s2) of
                (b3, Inl e) \<Rightarrow> (s2\<lparr>rg_bus := b3\<rparr>, Inl e)
              | (b3, Inr r) \<Rightarrow>
                  (let n = length (rg_fns s2) in
                   (s2\<lparr>rg_bus := HandleContext r (Some CBackground) (Some n) (Some n) (si_sub ids) b3,
                       rg_fns := rg_fns s2 @ [(svc, k)]\<rparr>,
                    Inr \<lparr>sw_service = svc, sw_core = k, sw_handler = Some r\<rparr>))))"

definition sendSetup :: "svcIds \<Rightarrow> string \<Rightarrow> bool \<Rightarrow> nat list \<Rightarrow> serviceRegistry \<Rightarrow> serviceRegistry \<times> err option" where
  "sendSetup ids name override config s =
     (let (b, e) = SendResponseMessage LifecycleManagerChannelName (GSetupREST name override config) (Some (rg_busId s))
                     (si_msg ids) None (rg_bus s)
      in (s\<lparr>rg_bus := b\<rparr>, e))"

definition RegisterService ::
  "svcIds \<Rightarrow> fabricService option \<Rightarrow> string \<Rightarrow> serviceRegistry \<Rightarrow> serviceRegistry \<times> err option" where
  "RegisterService ids service name s =
     (case service of
        None \<Rightarrow> (s, Some ''unable to register service: nil service'')
      | Some svc \<Rightarrow>
          (if gm_get (rg_services s) name \<noteq> None
           then (s, Some (''unable to register service: service channel name is already used: '' @ name))
           else (case wrapperInit ids svc name s of
                   (s1, Inl e) \<Rightarrow> (s1, Some e)
                 | (s1, Inr sw) \<Rightarrow>
                     (let s2 = s1\<lparr>rg_services := gm_set name sw (rg_services s1)\<rparr>
                      in if name \<in> set internalServices then (s2, None)
                         else (case GetRESTBridgeEnabledService name s2 of
                                 None \<Rightarrow> (s2, None)
                               | Some config \<Rightarrow> sendSetup ids name False config s2)))))"

definition UnregisterService :: "string \<Rightarrow> serviceRegistry \<Rightarrow> serviceRegistry \<times> err option" where
  "UnregisterService name s =
     (case gm_get (rg_services s) name of
        None \<Rightarrow> (s, Some (''unable to unregister service: no service is registered for channel '' @ [CHR 0x22] @ name @ [CHR 0x22]))
      | Some sw \<Rightarrow>
          (let s1 = (case sw_handler sw of None \<Rightarrow> s | Some r \<Rightarrow> onRegBus (Close r) s)
           in (s1\<lparr>rg_services := gm_del name (rg_services s1)\<rparr>, None)))"

definition OverrideRESTBridgeConfig :: "svcIds \<Rightarrow> string \<Rightarrow> nat list \<Rightarrow> serviceRegistry \<Rightarrow> serviceRegistry \<times> err option" where
  "OverrideRESTBridgeConfig ids name config s =
     (case GetService name s of Inl e \<Rightarrow> (s, Some e) | Inr svc \<Rightarrow> sendSetup ids name True config s)"

text \<open>The function given to the bus for a service: the request it is called with. The id of the
  request is the destination id of the message, if that is set. A pointer to a request is here
  the request itself.\<close>

definition requestOf :: "message \<Rightarrow> request option" where
  "requestOf msg =
     (case m_Payload msg of
        GRequestPtr r \<Rightarrow> Some r
      | GRequest r \<Rightarrow> Some r
      | _ \<Rightarrow> None)"

definition serviceFn :: "nat \<Rightarrow> message \<Rightarrow> serviceRegistry \<Rightarrow> serviceRegistry" where
  "serviceFn k msg s =
     (case requestOf msg of
        None \<Rightarrow> s
      | Some r0 \<Rightarrow>
          (let (svc, c) = rg_fns s ! k;
               r = (if m_DestinationId msg \<noteq> None then rq_setId (m_DestinationId msg) r0 else r0)
           in s\<lparr>rg_calls := rg_calls s @ [ServiceCall (sc_id svc) (sc_context svc) r (co_channelName (rg_cores s ! c))]\<rparr>))"

subsection \<open>The registry as a machine\<close>

datatype registryEv =
    RgRegister svcIds "fabricService option" string
  | RgUnregister string
  | RgOverride svcIds string "nat list"
  | RgCall nat message
  | RgSetHeaders ref "(string, string) gomap"
  | RgBaseHost string
  | RgBus brokerOracle busEv

fun registryStep :: "serviceRegistry \<Rightarrow> registryEv \<Rightarrow> serviceRegistry" where
  "registryStep s (RgRegister ids svc name) = fst (RegisterService ids svc name s)"
| "registryStep s (RgUnregister name) = fst (UnregisterService name s)"
| "registryStep s (RgOverride ids name config) = fst (OverrideRESTBridgeConfig ids name config s)"
| "registryStep s (RgCall k msg) = (if k < length (rg_fns s) then serviceFn k msg s else s)"
| "registryStep s (RgSetHeaders c hs) =
     (if c < length (rg_cores s) then s\<lparr>rg_cores := (rg_cores s)[c := SetHeaders hs (rg_cores s ! c)]\<rparr> else s)"
| "registryStep s (RgBaseHost host) = SetGlobalRestServiceBaseHost host s"
| "registryStep s (RgBus br e) = onRegBus (\<lambda>b. busStep br b e) s"

end
