(* ===== verification/Http.thy ===== *)
theory Http
  imports Prelude
begin

text \<open>
  What the code uses of \<open>net/http\<close>: headers with their canonical keys, requests, response
  writers and handlers. A handler takes the request and the writer; \<open>None\<close> is a panic, which the
  server recovers from by closing the connection.
\<close>

subsection \<open>Headers\<close>

text \<open>\<open>http.Header\<close> as its entries in order; the keys are put in canonical form: the first
  letter and each letter after a dash in upper case, the others in lower case, unless the key has
  a byte that is not allowed in one.\<close>

type_synonym httpHeader = "(string \<times> string) list"

definition isUpperChar :: "char \<Rightarrow> bool" where
  "isUpperChar c \<longleftrightarrow> 65 \<le> (of_char c :: nat) \<and> (of_char c :: nat) \<le> 90"

definition isLowerChar :: "char \<Rightarrow> bool" where
  "isLowerChar c \<longleftrightarrow> 97 \<le> (of_char c :: nat) \<and> (of_char c :: nat) \<le> 122"

definition upperChar :: "char \<Rightarrow> char" where
  "upperChar c = (if isLowerChar c then char_of ((of_char c :: nat) - 32) else c)"

definition lowerChar :: "char \<Rightarrow> char" where
  "lowerChar c = (if isUpperChar c then char_of ((of_char c :: nat) + 32) else c)"

definition tokenChar :: "char \<Rightarrow> bool" where
  "tokenChar c \<longleftrightarrow> isUpperChar c \<or> isLowerChar c \<or> c \<in> set ''0123456789'' \<or> c \<in> set ''!#$%&*+-.^_`|~'' \<or> c = CHR 0x27"

fun canonicalFrom :: "bool \<Rightarrow> string \<Rightarrow> string" where
  "canonicalFrom up [] = []"
| "canonicalFrom up (c # cs) = (if up then upperChar c else lowerChar c) # canonicalFrom (c = CHR ''-'') cs"

definition canonicalKey :: "string \<Rightarrow> string" where
  "canonicalKey k = (if list_all tokenChar k then canonicalFrom True k else k)"

definition headerAdd :: "string \<Rightarrow> string \<Rightarrow> httpHeader \<Rightarrow> httpHeader" where
  "headerAdd k v h = h @ [(canonicalKey k, v)]"

definition headerGet :: "string \<Rightarrow> httpHeader \<Rightarrow> string" where
  "headerGet k h = (case map_of h (canonicalKey k) of None \<Rightarrow> [] | Some v \<Rightarrow> v)"

definition headerSet :: "string \<Rightarrow> string \<Rightarrow> httpHeader \<Rightarrow> httpHeader" where
  "headerSet k v h = filter (\<lambda>p. fst p \<noteq> canonicalKey k) h @ [(canonicalKey k, v)]"

lemma headerGet_snoc:
  "headerGet k (h @ [(canonicalKey k', v)]) =
     (if map_of h (canonicalKey k) = None then (if canonicalKey k' = canonicalKey k then v else []) else headerGet k h)"
  by (auto simp: headerGet_def map_add_def split: option.splits)

lemma map_of_filter_key: "map_of (filter (\<lambda>p. fst p \<noteq> k) h) k' = (if k' = k then None else map_of h k')"
  by (induction h) auto

lemma headerGet_set:
  "headerGet k (headerSet k' v h) = (if canonicalKey k = canonicalKey k' then v else headerGet k h)"
  by (auto simp: headerGet_def headerSet_def map_add_def map_of_filter_key split: option.splits)

subsection \<open>Requests and responses\<close>

record httpRequest =
  hq_Method :: string
  hq_Path :: string
  hq_RawQuery :: string
  hq_RequestURI :: string
  hq_Header :: httpHeader
  hq_RemoteAddr :: string
  hq_Body :: string

text \<open>The header is sent as it is when the status is written; the first write of a body writes the
  status 200, if none has been written.\<close>

record httpWriter =
  hw_Header :: httpHeader
  hw_Status :: "nat option"
  hw_Sent :: httpHeader
  hw_Body :: string

definition freshWriter :: httpWriter where
  "freshWriter = \<lparr>hw_Header = [], hw_Status = None, hw_Sent = [], hw_Body = []\<rparr>"

definition setHeader :: "string \<Rightarrow> string \<Rightarrow> httpWriter \<Rightarrow> httpWriter" where
  "setHeader k v w = w\<lparr>hw_Header := headerSet k v (hw_Header w)\<rparr>"

definition WriteHeader :: "nat \<Rightarrow> httpWriter \<Rightarrow> httpWriter" where
  "WriteHeader code w =
     (case hw_Status w of None \<Rightarrow> w\<lparr>hw_Status := Some code, hw_Sent := hw_Header w\<rparr> | Some _ \<Rightarrow> w)"

definition writeBody :: "string \<Rightarrow> httpWriter \<Rightarrow> httpWriter" where
  "writeBody s w = (let w1 = WriteHeader 200 w in w1\<lparr>hw_Body := hw_Body w1 @ s\<rparr>)"

type_synonym handler = "httpRequest \<Rightarrow> httpWriter \<Rightarrow> httpWriter option"

text \<open>A value of \<open>http.Handler\<close>: an \<open>http.HandlerFunc\<close> or another type.\<close>

datatype handlerVal = HandlerFunc (serves: handler) | OtherHandler (serves: handler)

definition nilFunc :: handler where "nilFunc = (\<lambda>req w. None)"

type_synonym middlewareFunc = "handlerVal \<Rightarrow> handlerVal"

text \<open>\<open>http.Error\<close> and \<open>http.NotFound\<close>.\<close>

definition httpError :: "string \<Rightarrow> nat \<Rightarrow> httpWriter \<Rightarrow> httpWriter" where
  "httpError msg code w =
     writeBody (msg @ [CHR 0x0A]) (WriteHeader code
       (setHeader ''X-Content-Type-Options'' ''nosniff''
         (setHeader ''Content-Type'' ''text/plain; charset=utf-8''
           (w\<lparr>hw_Header := filter (\<lambda>p. fst p \<noteq> ''Content-Length'') (hw_Header w)\<rparr>))))"

definition httpNotFound :: handler where
  "httpNotFound req w = Some (httpError ''404 page not found'' 404 w)"

lemma writer_simps [simp]:
  "hw_Status (setHeader k v w) = hw_Status w" "hw_Body (setHeader k v w) = hw_Body w"
  "hw_Header (WriteHeader c w) = hw_Header w" "hw_Body (WriteHeader c w) = hw_Body w"
  "hw_Header (writeBody s w) = hw_Header w"
  by (simp_all add: setHeader_def WriteHeader_def writeBody_def Let_def split: option.split)

subsection \<open>The multiplexer\<close>

text \<open>\<open>http.ServeMux\<close> for patterns without a host: an optional method, and a path of literal
  segments, wildcards for one segment, and a last wildcard for the rest; a final slash is such a
  wildcard, and \<open>{$}\<close> matches the final slash only. Registering panics (\<open>None\<close>) for a pattern that
  does not parse or that conflicts with another: neither is more specific and both can match. Paths
  are taken without percent-encoding; the body of a redirect is left out.\<close>

datatype patSeg = PLit string | PWild string | PMulti

record muxPattern =
  pt_method :: string
  pt_segs :: "patSeg list"
  pt_text :: string

definition validWildcardName :: "string \<Rightarrow> bool" where
  "validWildcardName s \<longleftrightarrow>
     (case s of [] \<Rightarrow> False
      | c # cs \<Rightarrow> (isUpperChar c \<or> isLowerChar c \<or> c = CHR ''_'') \<and>
          list_all (\<lambda>d. isUpperChar d \<or> isLowerChar d \<or> d = CHR ''_'' \<or> d \<in> set ''0123456789'') cs)"

fun parseSegs :: "string list \<Rightarrow> string list \<Rightarrow> patSeg list option" where
  "parseSegs names [] = Some []"
| "parseSegs names (w # ws) =
     (if w = [] then (if ws = [] then Some [PMulti] else map_option ((#) (PLit w)) (parseSegs names ws))
      else if CHR ''{'' \<notin> set w then map_option ((#) (PLit w)) (parseSegs names ws)
      else if hd w \<noteq> CHR ''{'' \<or> last w \<noteq> CHR ''}'' then None
      else (let name = tl (butlast w) in
            if name = ''$'' then (if ws = [] then Some [PLit ''/''] else None)
            else if HasSuffix name ''...''
            then (if ws = [] \<and> validWildcardName (TrimSuffix name ''...'') \<and> TrimSuffix name ''...'' \<notin> set names
                  then Some [PMulti] else None)
            else if \<not> validWildcardName name \<or> name \<in> set names then None
            else map_option ((#) (PWild name)) (parseSegs (name # names) ws)))"

definition parsePattern :: "string \<Rightarrow> muxPattern option" where
  "parsePattern s =
     (let (m, path) = (case indexByte s (CHR '' '') of None \<Rightarrow> ([], s) | Some i \<Rightarrow> (take i s, drop (Suc i) s))
      in case path of
           [] \<Rightarrow> None
         | c # cs \<Rightarrow>
             (if c \<noteq> CHR ''/'' \<or> \<not> list_all tokenChar m then None
              else map_option (\<lambda>segs. \<lparr>pt_method = m, pt_segs = segs, pt_text = s\<rparr>) (parseSegs [] (splitOn (CHR ''/'') cs))))"

datatype relationship = Equivalent | MoreGeneral | MoreSpecific | Disjoint | Overlaps

definition combineRelationships :: "relationship \<Rightarrow> relationship \<Rightarrow> relationship" where
  "combineRelationships r q =
     (if r = Equivalent then q else if q = Equivalent then r
      else if r = Disjoint \<or> q = Disjoint then Disjoint
      else if r = Overlaps \<or> q = Overlaps \<or> r \<noteq> q then Overlaps else r)"

fun compareSegments :: "patSeg \<Rightarrow> patSeg \<Rightarrow> relationship" where
  "compareSegments PMulti PMulti = Equivalent"
| "compareSegments PMulti _ = MoreGeneral"
| "compareSegments _ PMulti = MoreSpecific"
| "compareSegments (PWild _) (PWild _) = Equivalent"
| "compareSegments (PWild _) (PLit s) = (if s = ''/'' then Disjoint else MoreGeneral)"
| "compareSegments (PLit s) (PWild _) = (if s = ''/'' then Disjoint else MoreSpecific)"
| "compareSegments (PLit s) (PLit t) = (if s = t then Equivalent else Disjoint)"

fun comparePathsFrom :: "bool \<Rightarrow> bool \<Rightarrow> relationship \<Rightarrow> patSeg list \<Rightarrow> patSeg list \<Rightarrow> relationship" where
  "comparePathsFrom m1 m2 rel [] [] = rel"
| "comparePathsFrom m1 m2 rel [] (_ # _) = (if m1 then combineRelationships rel MoreGeneral else Disjoint)"
| "comparePathsFrom m1 m2 rel (_ # _) [] = (if m2 then combineRelationships rel MoreSpecific else Disjoint)"
| "comparePathsFrom m1 m2 rel (s # ss) (t # ts) =
     (let r = combineRelationships rel (compareSegments s t)
      in if r = Disjoint then Disjoint else comparePathsFrom m1 m2 r ss ts)"

definition endsMulti :: "muxPattern \<Rightarrow> bool" where
  "endsMulti p \<longleftrightarrow> pt_segs p \<noteq> [] \<and> last (pt_segs p) = PMulti"

definition comparePaths :: "muxPattern \<Rightarrow> muxPattern \<Rightarrow> relationship" where
  "comparePaths p q =
     (if length (pt_segs p) \<noteq> length (pt_segs q) \<and> \<not> endsMulti p \<and> \<not> endsMulti q then Disjoint
      else comparePathsFrom (endsMulti p) (endsMulti q) Equivalent (pt_segs p) (pt_segs q))"

definition compareMethods :: "muxPattern \<Rightarrow> muxPattern \<Rightarrow> relationship" where
  "compareMethods p q =
     (let m = pt_method p; n = pt_method q in
      if m = n then Equivalent else if m = [] then MoreGeneral else if n = [] then MoreSpecific
      else if m = ''GET'' \<and> n = ''HEAD'' then MoreGeneral else if m = ''HEAD'' \<and> n = ''GET'' then MoreSpecific
      else Disjoint)"

definition conflictsWith :: "muxPattern \<Rightarrow> muxPattern \<Rightarrow> bool" where
  "conflictsWith p q \<longleftrightarrow>
     compareMethods p q \<noteq> Disjoint \<and>
     combineRelationships (compareMethods p q) (comparePaths p q) \<in> {Equivalent, Overlaps}"

text \<open>A multiplexer: its patterns with what they are registered for.\<close>

type_synonym 'a mux = "(muxPattern \<times> 'a) list"

definition muxHandle :: "string \<Rightarrow> 'a \<Rightarrow> 'a mux \<Rightarrow> 'a mux option" where
  "muxHandle pattern h mux =
     (case parsePattern pattern of
        None \<Rightarrow> None
      | Some p \<Rightarrow> if list_ex (\<lambda>(q, _). conflictsWith p q) mux then None else Some (mux @ [(p, h)]))"

definition pathSegs :: "string \<Rightarrow> string list" where
  "pathSegs path =
     (let ws = splitOn (CHR ''/'') (tl path) in if last ws = [] then butlast ws @ [''/''] else ws)"

definition restOf :: "(patSeg \<Rightarrow> bool) \<Rightarrow> (patSeg list \<times> 'b) list \<Rightarrow> (patSeg list \<times> 'b) list" where
  "restOf P cs = map (\<lambda>(ss, b). (tl ss, b)) (filter (\<lambda>(ss, b). ss \<noteq> [] \<and> P (hd ss)) cs)"

fun isWild :: "patSeg \<Rightarrow> bool" where
  "isWild (PWild _) = True"
| "isWild _ = False"

fun matchSegs :: "(patSeg list \<times> 'b) list \<Rightarrow> string list \<Rightarrow> 'b option" where
  "matchSegs cs [] = (case filter (\<lambda>(ss, b). ss = []) cs of [] \<Rightarrow> None | (_, b) # _ \<Rightarrow> Some b)"
| "matchSegs cs (w # ws) =
     (case matchSegs (restOf (\<lambda>s. s = PLit w) cs) ws of
        Some b \<Rightarrow> Some b
      | None \<Rightarrow>
          (case (if w = ''/'' then None else matchSegs (restOf isWild cs) ws) of
             Some b \<Rightarrow> Some b
           | None \<Rightarrow> (case filter (\<lambda>(ss, b). ss = [PMulti]) cs of [] \<Rightarrow> None | (_, b) # _ \<Rightarrow> Some b)))"

definition matchMethod :: "string \<Rightarrow> string \<Rightarrow> 'a mux \<Rightarrow> (muxPattern \<times> 'a) option" where
  "matchMethod m path mux =
     matchSegs (map (\<lambda>(p, h). (pt_segs p, (p, h))) (filter (\<lambda>(p, h). pt_method p = m) mux)) (pathSegs path)"

definition muxMatch :: "string \<Rightarrow> string \<Rightarrow> 'a mux \<Rightarrow> (muxPattern \<times> 'a) option" where
  "muxMatch method path mux =
     (case (if method = [] then None else matchMethod method path mux) of
        Some n \<Rightarrow> Some n
      | None \<Rightarrow>
          (case (if method = ''HEAD'' then matchMethod ''GET'' path mux else None) of
             Some n \<Rightarrow> Some n
           | None \<Rightarrow> matchMethod [] path mux))"

definition exactMatch :: "(muxPattern \<times> 'a) option \<Rightarrow> string \<Rightarrow> bool" where
  "exactMatch n path =
     (case n of
        None \<Rightarrow> False
      | Some (p, h) \<Rightarrow>
          path \<noteq> [] \<and> last path \<noteq> CHR ''/'' \<or> length (pt_segs p) = count_list path (CHR ''/''))"

fun cleanParts :: "string list \<Rightarrow> string list \<Rightarrow> string list" where
  "cleanParts acc [] = rev acc"
| "cleanParts acc (w # ws) =
     (if w = [] \<or> w = ''.'' then cleanParts acc ws
      else if w = ''..'' then cleanParts (case acc of [] \<Rightarrow> [] | _ # a \<Rightarrow> a) ws
      else cleanParts (w # acc) ws)"

definition cleanPath :: "string \<Rightarrow> string" where
  "cleanPath p =
     (if p = [] then ''/''
      else let p1 = (if hd p = CHR ''/'' then p else CHR ''/'' # p);
               np = CHR ''/'' # joinWith ''/'' (cleanParts [] (splitOn (CHR ''/'') p1))
           in if last p1 = CHR ''/'' \<and> np \<noteq> ''/'' then np @ ''/'' else np)"

datatype 'a muxResult = MuxHandler muxPattern 'a | MuxRedirect string string | MuxNone

definition urlText :: "string \<Rightarrow> string \<Rightarrow> string" where
  "urlText path query = (if query = [] then path else path @ ''?'' @ query)"

definition muxFind :: "httpRequest \<Rightarrow> 'a mux \<Rightarrow> 'a muxResult" where
  "muxFind req mux =
     (let path = (if hq_Method req = ''CONNECT'' then hq_Path req else cleanPath (hq_Path req));
          n = muxMatch (hq_Method req) path mux
      in if \<not> exactMatch n path \<and> (path = [] \<or> last path \<noteq> CHR ''/'') \<and>
            exactMatch (muxMatch (hq_Method req) (path @ ''/'') mux) (path @ ''/'')
         then MuxRedirect (cleanPath (hq_Path req) @ ''/'') (urlText (cleanPath (hq_Path req) @ ''/'') (hq_RawQuery req))
         else if path \<noteq> hq_Path req
         then MuxRedirect (case n of None \<Rightarrow> [] | Some (p, h) \<Rightarrow> pt_text p) (urlText path (hq_RawQuery req))
         else case n of None \<Rightarrow> MuxNone | Some (p, h) \<Rightarrow> MuxHandler p h)"

text \<open>The pattern that \<open>Handler\<close> reports, empty for none.\<close>

definition muxPatternOf :: "'a muxResult \<Rightarrow> string" where
  "muxPatternOf r = (case r of MuxHandler p h \<Rightarrow> pt_text p | MuxRedirect s u \<Rightarrow> s | MuxNone \<Rightarrow> [])"

definition redirectTo :: "string \<Rightarrow> httpWriter \<Rightarrow> httpWriter" where
  "redirectTo url w = WriteHeader 301 (setHeader ''Location'' url w)"

lemma matchSegs_in: "matchSegs cs ws = Some b \<Longrightarrow> b \<in> snd ` set cs"
proof (induction cs ws rule: matchSegs.induct)
  case (2 cs w ws)
  have "snd ` set (restOf P cs) \<subseteq> snd ` set cs" for P by (force simp: restOf_def)
  with 2 show ?case
    by (auto split: option.splits if_splits list.splits dest!: filter_eq_ConsD)
qed (auto split: list.splits dest!: filter_eq_ConsD)

lemma muxMatch_in: "muxMatch m path mux = Some n \<Longrightarrow> n \<in> set mux"
  by (auto simp: muxMatch_def matchMethod_def split: option.splits if_splits dest!: matchSegs_in)

lemma muxFind_in: "muxFind req mux = MuxHandler p h \<Longrightarrow> (p, h) \<in> set mux"
  by (auto simp: muxFind_def Let_def split: if_splits option.splits dest: muxMatch_in)

end
