(* ===== verification/RestService.thy ===== *)
theory RestService
  imports Services Http
begin

text \<open>
  The REST service (service/rest_service.go) and service/fabric_error.go: what the service
  makes of a request, of its payload, and of the answer of the HTTP server. The network, the
  URL parser and the JSON encoder are arguments.
\<close>

subsection \<open>What the service depends on\<close>

record httpResponse =
  hr_StatusCode :: int
  hr_Status :: string
  hr_Body :: "string res"

text \<open>\<open>re_marshal\<close>: \<open>json.Marshal\<close>. \<open>re_convert\<close>: \<open>ConvertValueToType\<close> to a request, with \<open>None\<close>
  for a nil result. \<open>re_newRequest\<close>: the error of \<open>http.NewRequestWithContext\<close> for a method and an
  address. \<open>re_setHost\<close>: \<open>url.Parse\<close>, the new host and \<open>String\<close>, or \<open>None\<close> where the address does
  not parse. \<open>re_do\<close>: the answer to method, address, headers and body. \<open>re_decodeMap\<close>: decoding
  into a map. \<open>re_decodeInto\<close>: decoding into a new value of a type, with \<open>None\<close> for the literal
  \<open>null\<close>, for which the decoder sets the interface that holds the pointer to nil.\<close>

record restEnv =
  re_marshal :: "gval \<Rightarrow> string res"
  re_convert :: "(string \<times> gval) list \<Rightarrow> restRequest option res"
  re_newRequest :: "string \<Rightarrow> string \<Rightarrow> err option"
  re_setHost :: "string \<Rightarrow> string \<Rightarrow> string option"
  re_do :: "string \<Rightarrow> string \<Rightarrow> httpHeader \<Rightarrow> string \<Rightarrow> httpResponse res"
  re_decodeMap :: "string \<Rightarrow> gval res"
  re_decodeInto :: "goType \<Rightarrow> string \<Rightarrow> gval option res"

subsection \<open>The service\<close>

definition marshalBody :: "restEnv \<Rightarrow> restRequest \<Rightarrow> string res" where
  "marshalBody env rr =
     (case rr_Body rr of
        GString s \<Rightarrow> Inr s
      | GBytes bs \<Rightarrow> Inr bs
      | v \<Rightarrow> re_marshal env v)"

text \<open>The outer option is the boolean of the code, the inner one the pointer: the type assertion also succeeds for a nil one.\<close>

definition getRestServiceRequest :: "restEnv \<Rightarrow> request \<Rightarrow> restRequest option option" where
  "getRestServiceRequest env request =
     (case rq_Payload request of
        GRestRequest rr \<Rightarrow> Some rr
      | GMap kvs \<Rightarrow>
          (case re_convert env kvs of
             Inr (Some rr) \<Rightarrow>
               Some (Some (if rr_ApiClass rr = ''java.lang.String'' then rr_setResponseType (Some TString) rr else rr))
           | _ \<Rightarrow> None)
      | _ \<Rightarrow> None)"

text \<open>The base host of the service is empty until it is set.\<close>

definition getRequestUrl :: "restEnv \<Rightarrow> string \<Rightarrow> string \<Rightarrow> string" where
  "getRequestUrl env baseHost address =
     (if baseHost = [] then address
      else case re_setHost env address baseHost of None \<Rightarrow> address | Some u \<Rightarrow> u)"

text \<open>The result \<open>None\<close> is where the code fails: the reflection on a nil interface.\<close>

fun deserializeResponse :: "restEnv \<Rightarrow> string res \<Rightarrow> goType option \<Rightarrow> gval res option" where
  "deserializeResponse env body (Some TString) = Some (case body of Inl e \<Rightarrow> Inl e | Inr s \<Rightarrow> Inr (GString s))"
| "deserializeResponse env body (Some TByteSlice) = Some (case body of Inl e \<Rightarrow> Inl e | Inr s \<Rightarrow> Inr (GBytes s))"
| "deserializeResponse env body (Some (TPtr t)) =
     Some (case body of
             Inl e \<Rightarrow> Inl e
           | Inr s \<Rightarrow> (case re_decodeInto env t s of Inl e \<Rightarrow> Inl e | Inr None \<Rightarrow> Inr GNil | Inr (Some v) \<Rightarrow> Inr v))"
| "deserializeResponse env body (Some (TOther n)) =
     (case body of
        Inl e \<Rightarrow> Some (Inl e)
      | Inr s \<Rightarrow>
          (case re_decodeInto env (TOther n) s of
             Inl e \<Rightarrow> Some (Inl e)
           | Inr None \<Rightarrow> None
           | Inr (Some v) \<Rightarrow> Some (Inr v)))"
| "deserializeResponse env body None =
     Some (case body of Inl e \<Rightarrow> Inl e | Inr s \<Rightarrow> re_decodeMap env s)"

definition requestHeaders :: "restRequest \<Rightarrow> httpHeader" where
  "requestHeaders rr =
     (let h = foldl (\<lambda>h (k, v). headerAdd k v h) [] (rr_Headers rr)
      in if headerGet ''Content-Type'' h = [] then headerAdd ''Content-Type'' ''application/merge-patch+json'' h else h)"

definition effectiveType :: "restRequest \<Rightarrow> goType option" where
  "effectiveType rr =
     (if strContains (headerGet ''Content-Type'' (requestHeaders rr)) ''json'' then rr_ResponseType rr else Some TByteSlice)"

definition failureText :: "httpResponse \<Rightarrow> string" where
  "failureText hr = ''rest-service error, unable to complete request: '' @ hr_Status hr"

text \<open>The result \<open>None\<close> is where the code fails: a nil request has no body, and see above.\<close>

definition HandleServiceRequestContext ::
  "restEnv \<Rightarrow> string \<Rightarrow> uuid \<Rightarrow> request \<Rightarrow> fabricCore \<Rightarrow> bus \<Rightarrow> bus option" where
  "HandleServiceRequestContext env baseHost newId request core b =
     (case getRestServiceRequest env request of
        None \<Rightarrow> Some (SendErrorResponse core newId request 500 ''invalid RestServiceRequest payload'' b)
      | Some None \<Rightarrow> None
      | Some (Some rr) \<Rightarrow>
          (case marshalBody env rr of
             Inl e \<Rightarrow> Some (SendErrorResponse core newId request 500 (''cannot marshal request body: '' @ e) b)
           | Inr body \<Rightarrow>
               (let url = getRequestUrl env baseHost (rr_Uri rr) in
                case re_newRequest env (rr_Method rr) url of
                  Some e \<Rightarrow> Some (SendErrorResponse core newId request 500 e b)
                | None \<Rightarrow>
                    (case re_do env (rr_Method rr) url (requestHeaders rr) body of
                       Inl e \<Rightarrow> Some (SendErrorResponse core newId request 500 e b)
                     | Inr hr \<Rightarrow>
                         (if hr_StatusCode hr \<ge> 300
                          then Some (SendErrorResponseWithPayload core newId request (hr_StatusCode hr) (failureText hr)
                                 (GMap [(''errorCode'', GInt (hr_StatusCode hr)), (''message'', GString (failureText hr))]) b)
                          else (case deserializeResponse env (hr_Body hr) (effectiveType rr) of
                                  None \<Rightarrow> None
                                | Some (Inl e) \<Rightarrow>
                                    Some (SendErrorResponse core newId request 500 (''failed to deserialize response:'' @ e) b)
                                | Some (Inr v) \<Rightarrow> Some (SendResponse core newId request v b)))))))"

definition HandleServiceRequest ::
  "restEnv \<Rightarrow> string \<Rightarrow> uuid \<Rightarrow> request \<Rightarrow> fabricCore \<Rightarrow> bus \<Rightarrow> bus option" where
  "HandleServiceRequest env baseHost newId request core b = HandleServiceRequestContext env baseHost newId request core b"

subsection \<open>Standard error objects\<close>

record fabricError =
  fe_Type :: string
  fe_Title :: string
  fe_Status :: int
  fe_Detail :: string
  fe_Instance :: string

definition GetFabricError :: "string \<Rightarrow> int \<Rightarrow> string \<Rightarrow> fabricError" where
  "GetFabricError message code detail =
     \<lparr>fe_Type = ''https://github.com/pb33f/ranch/blob/main/plank/services/fabric_error.md'', fe_Title = message,
      fe_Status = code, fe_Detail = detail, fe_Instance = []\<rparr>"

subsection \<open>What the header of a request says\<close>

text \<open>A request always leaves with a content type.\<close>

lemma content_type_set:
  "headerGet ''Content-Type'' (requestHeaders rr) \<noteq> [] \<or>
   map_of (foldl (\<lambda>h (k, v). headerAdd k v h) [] (rr_Headers rr)) (canonicalKey ''Content-Type'') = Some []"
  by (auto simp: requestHeaders_def Let_def headerAdd_def headerGet_snoc headerGet_def split: option.splits)

end
