(* ===== verification/ServicesFacts.thy ===== *)
theory ServicesFacts
  imports RestService BusFacts
begin

text \<open>
  What holds of the services (package \<open>service\<close>): a response goes to the requester and carries
  the request's ids, a registered service stays connected to its handler whatever the bus does,
  and what a REST request does when there is no REST service.
\<close>

subsection \<open>Handlers that are set up stay as they are\<close>

definition setupView :: "messageHandler \<Rightarrow> bool \<times> nat option \<times> Direction \<times> bool \<times> bool \<times> ref \<times> uuid option \<times> bool \<times> ctxref option \<times> nat option" where
  "setupView mh = (mh_setupOnce mh, mh_successHandler mh, mh_direction mh, mh_ignoreId mh, mh_allTraffic mh, mh_channel mh,
     mh_destination mh, mh_runOnce mh, mh_handlerContext mh, mh_errorHandler mh)"

definition keepsHandlers :: "bus \<Rightarrow> bus \<Rightarrow> bool" where
  "keepsHandlers b b' \<longleftrightarrow>
     (\<forall>r < length (bu_mh b). r < length (bu_mh b') \<and>
        (mh_setupOnce (mhAt b r) \<longrightarrow> setupView (mhAt b' r) = setupView (mhAt b r)))"

lemma keeps_refl: "keepsHandlers b b"
  by (simp add: keepsHandlers_def)

lemma keeps_trans: "keepsHandlers a b \<Longrightarrow> keepsHandlers b c \<Longrightarrow> keepsHandlers a c"
  unfolding keepsHandlers_def setupView_def by auto

lemma keeps_same: "bu_mh b' = bu_mh b \<Longrightarrow> keepsHandlers b b'"
  by (simp add: keepsHandlers_def mhAt_def)

lemma keeps_then: "keepsHandlers a b \<Longrightarrow> bu_mh c = bu_mh b \<Longrightarrow> keepsHandlers a c"
  by (simp add: keepsHandlers_def mhAt_def)

lemma keeps_updMh: "(\<And>mh. mh_setupOnce mh \<Longrightarrow> setupView (f mh) = setupView mh) \<Longrightarrow> keepsHandlers b (updMh r f b)"
  unfolding keepsHandlers_def
  by (cases "r < length (bu_mh b)") (auto simp: updMh_def mhAt_def list_update_beyond nth_list_update)

lemma keeps_updMh_view: "(\<And>mh. setupView (f mh) = setupView mh) \<Longrightarrow> keepsHandlers b (updMh r f b)"
  by (rule keeps_updMh)

lemma keeps_newHandler: "keepsHandlers b (fst (newMessageHandler n opts ids b))"
  by (auto simp: newMessageHandler_def Let_def keepsHandlers_def mhAt_def nth_append split: sum.splits)

lemma keeps_handleStep: "keepsHandlers b (snd (handleStep r ctx sh eh i (h, b)))"
proof (cases h)
  case HStart
  let ?f = "\<lambda>mh. mh\<lparr>mh_setupOnce := True, mh_handlerContext := Some (normalizeContext ctx),
      mh_successHandler := sh, mh_errorHandler := eh\<rparr>"
  have f: "keepsHandlers b (updMh r ?f b)" if "\<not> mh_setupOnce (mhAt b r)"
    unfolding keepsHandlers_def using that
    by (cases "r < length (bu_mh b)") (auto simp: mhAt_updMh updMh_def mhAt_def list_update_beyond nth_list_update)
  show ?thesis using HStart
    by (auto simp: Let_def case_prod_beta keeps_refl intro!: keeps_then [OF f])
next
  case (HSubscribed sid)
  then show ?thesis by (auto intro: keeps_updMh_view simp: setupView_def)
next
  case (HRecorded sid c)
  then show ?thesis by (auto simp: keeps_refl intro: keeps_same)
qed (simp add: keeps_refl)

lemma keeps_HandleContext: "keepsHandlers b (HandleContext r ctx sh eh i b)"
proof -
  let ?s = "handleStep r ctx sh eh i"
  have "keepsHandlers b (snd (?s (HStart, b)))" by (rule keeps_handleStep)
  moreover have "keepsHandlers (snd x) (snd (?s x))" for x using keeps_handleStep by (cases x) simp
  ultimately show ?thesis unfolding HandleContext_def by (meson keeps_trans)
qed

lemma keeps_Close: "keepsHandlers b (Close r b)"
proof -
  have "keepsHandlers b (updMh r (\<lambda>mh. mh\<lparr>mh_closed := True\<rparr>) b)"
    by (rule keeps_updMh_view) (simp add: setupView_def)
  then show ?thesis
    by (auto simp: Close_def elim: keeps_then)
qed

lemma keeps_wrapper: "keepsHandlers b (handlerWrapper r ctx msg b)"
proof -
  have g: "keepsHandlers b (guarded r mk fn b)" for mk fn
  proof -
    have u: "keepsHandlers b (updMh r (\<lambda>mh. mh\<lparr>mh_invokeOnce := Some True\<rparr>) b)"
      by (rule keeps_updMh_view) (simp add: setupView_def)
    show ?thesis
      by (auto simp: guarded_def Let_def keeps_refl split: option.splits intro: keeps_same keeps_then [OF u])
  qed
  then show ?thesis
    by (auto simp: handlerWrapper_def errorHandler_def successHandler_def Let_def keeps_refl)
qed

lemma keeps_deliver: "keepsHandlers b (deliverStep i b)"
proof -
  have w: "keepsHandlers b (handlerWrapper r ctx msg (b\<lparr>bu_gor := g\<rparr>))" for r ctx msg g
    by (rule keeps_trans [OF keeps_same keeps_wrapper]) simp
  show ?thesis
    by (auto simp: deliverStep_def keeps_refl Let_def invoke_def split: prod.splits list.splits option.splits
        invocation.splits ctxFn.splits intro: keeps_same w)
qed

lemma keeps_step: "keepsHandlers b (busStep br b e)"
proof (cases e)
  case (EvConnect a)
  then show ?thesis by (auto simp: ConnectBroker_def split: sum.splits intro: keeps_same)
next
  case (EvRunClosing i)
  then show ?thesis by (auto simp: keeps_refl intro: keeps_trans [OF keeps_same keeps_Close])
next
  case (EvSend ctx opts i c)
  then show ?thesis
    by (auto simp: sendMessageContext_def Let_def keeps_refl split: option.splits sum.splits intro: keeps_same)
next
  case (EvFire r ctx c)
  then show ?thesis
    by (auto simp: FireContext_def Let_def keeps_refl case_prod_beta split: option.splits sum.splits intro!: keeps_same)
qed (auto simp: keeps_newHandler keeps_HandleContext keeps_Close keeps_deliver keeps_refl intro: keeps_same)

lemma keeps_run: "keepsHandlers b (foldl (busStep br) b es)"
  by (induction es arbitrary: b) (auto simp: keeps_refl intro: keeps_trans keeps_step)

lemma keeps_sendResponse: "keepsHandlers b (fst (SendResponseMessage n p d i c b))"
  by (auto simp: SendResponseMessage_def SendResponseMessageContext_def sendMessageContext_def Let_def keeps_refl
      split: option.splits sum.splits intro: keeps_same)

subsection \<open>Registered services\<close>

text \<open>The init function of a service works on the bus through its operations.\<close>

definition lawfulService :: "fabricService \<Rightarrow> bool" where
  "lawfulService svc \<longleftrightarrow>
     (\<forall>f core b. sc_init svc = Some f \<longrightarrow> (\<exists>br es. fst (snd (f core b)) = foldl (busStep br) b es))"

definition lawfulEvent :: "registryEv \<Rightarrow> bool" where
  "lawfulEvent e \<longleftrightarrow> (case e of RgRegister ids (Some svc) name \<Rightarrow> lawfulService svc | _ \<Rightarrow> True)"

definition servesAt :: "serviceRegistry \<Rightarrow> string \<Rightarrow> serviceWrapper \<Rightarrow> bool" where
  "servesAt s name sw \<longleftrightarrow>
     (\<exists>r k. sw_handler sw = Some r \<and> r < length (bu_mh (rg_bus s)) \<and> k < length (rg_fns s) \<and>
        rg_fns s ! k = (sw_service sw, sw_core sw) \<and> sw_core sw < length (rg_cores s) \<and>
        co_channelName (rg_cores s ! sw_core sw) = name \<and>
        mh_setupOnce (mhAt (rg_bus s) r) \<and> mh_successHandler (mhAt (rg_bus s) r) = Some k \<and>
        mh_direction (mhAt (rg_bus s) r) = RequestDir \<and> mh_ignoreId (mhAt (rg_bus s) r) \<and>
        \<not> mh_runOnce (mhAt (rg_bus s) r) \<and> \<not> mh_allTraffic (mhAt (rg_bus s) r) \<and>
        mh_handlerContext (mhAt (rg_bus s) r) = Some CBackground)"

definition registryInv :: "serviceRegistry \<Rightarrow> bool" where
  "registryInv s \<longleftrightarrow> (\<forall>name sw. gm_get (rg_services s) name = Some sw \<longrightarrow> servesAt s name sw)"

lemma servesAt_keeps:
  assumes "servesAt s name sw" and "keepsHandlers (rg_bus s) (rg_bus t)" and "\<exists>xs. rg_fns t = rg_fns s @ xs"
    and "\<exists>xs. map co_channelName (rg_cores t) = map co_channelName (rg_cores s) @ xs"
  shows "servesAt t name sw"
proof -
  obtain xs where xs: "map co_channelName (rg_cores t) = map co_channelName (rg_cores s) @ xs" using assms(4) by blast
  have core: "c < length (rg_cores t) \<and> co_channelName (rg_cores t ! c) = co_channelName (rg_cores s ! c)"
    if "c < length (rg_cores s)" for c
  proof -
    have len: "c < length (rg_cores t)" using arg_cong [OF xs, of length] that by simp
    then show ?thesis using arg_cong [OF xs, of "\<lambda>l. l ! c"] that by (simp add: nth_append)
  qed
  then show ?thesis
    using assms(1-3) unfolding servesAt_def keepsHandlers_def setupView_def by (force simp: nth_append)
qed

lemma registryInv_keeps:
  assumes "registryInv s" and "keepsHandlers (rg_bus s) (rg_bus t)" and "\<exists>xs. rg_fns t = rg_fns s @ xs"
    and "\<exists>xs. map co_channelName (rg_cores t) = map co_channelName (rg_cores s) @ xs"
    and "rg_services t = rg_services s"
  shows "registryInv t"
  using assms servesAt_keeps unfolding registryInv_def by metis

lemma HandleContext_sets:
  assumes "r < length (bu_mh b)" and "\<not> mh_setupOnce (mhAt b r)"
  shows "mh_setupOnce (mhAt (HandleContext r ctx sh eh i b) r)" "mh_successHandler (mhAt (HandleContext r ctx sh eh i b) r) = sh"
    "mh_direction (mhAt (HandleContext r ctx sh eh i b) r) = mh_direction (mhAt b r)"
    "mh_ignoreId (mhAt (HandleContext r ctx sh eh i b) r) = mh_ignoreId (mhAt b r)"
    "mh_runOnce (mhAt (HandleContext r ctx sh eh i b) r) = mh_runOnce (mhAt b r)"
    "mh_allTraffic (mhAt (HandleContext r ctx sh eh i b) r) = mh_allTraffic (mhAt b r)"
    "mh_handlerContext (mhAt (HandleContext r ctx sh eh i b) r) = Some (normalizeContext ctx)"
    "length (bu_mh (HandleContext r ctx sh eh i b)) = length (bu_mh b)"
    "mh_errorHandler (mhAt (HandleContext r ctx sh eh i b) r) = eh"
  using assms by (simp_all add: HandleContext_def Let_def case_prod_beta mhAt_updMh)

lemma ListenRequestStream_new:
  assumes "ListenRequestStream name ids b = (b', Inr r)"
  shows "r = length (bu_mh b) \<and> length (bu_mh b') = Suc r \<and> \<not> mh_setupOnce (mhAt b' r) \<and>
         mh_direction (mhAt b' r) = RequestDir \<and> mh_ignoreId (mhAt b' r) \<and>
         \<not> mh_runOnce (mhAt b' r) \<and> \<not> mh_allTraffic (mhAt b' r)"
  using assms
  by (auto simp: ListenRequestStream_def newMessageHandler_def zeroOptions_def wrapMessageHandler_def createMessageHandler_def
      Let_def mhAt_def split: sum.splits)

lemma wrapperInit_facts:
  assumes law: "lawfulService svc" and w: "wrapperInit ids svc name s = (t, res)"
  shows "keepsHandlers (rg_bus s) (rg_bus t) \<and> (\<exists>xs. rg_fns t = rg_fns s @ xs) \<and>
         (\<exists>xs. rg_cores t = rg_cores s @ xs) \<and> rg_services t = rg_services s \<and>
         (case res of Inl e \<Rightarrow> True | Inr sw \<Rightarrow> servesAt t name sw)"
proof -
  let ?core = "\<lparr>co_channelName = name, co_headers = gm_empty\<rparr>"
  let ?b1 = "onMgr (\<lambda>m. fst (CreateChannel name m)) (rg_bus s)"
  let ?i = "case sc_init svc of None \<Rightarrow> (gm_empty, ?b1, None) | Some f \<Rightarrow> f ?core ?b1"
  obtain hs b2 ierr where b2: "?i = (hs, b2, ierr)"
    by (cases ?i)
  let ?cs = "rg_cores s @ [SetHeaders hs ?core]"
  have k1: "keepsHandlers ?b1 b2"
  proof (cases "sc_init svc")
    case None
    then show ?thesis using b2 by (simp add: keeps_refl)
  next
    case (Some f)
    then obtain br es where "fst (snd (f ?core ?b1)) = foldl (busStep br) ?b1 es"
      using law unfolding lawfulService_def by blast
    then show ?thesis using b2 Some keeps_run by (metis fst_conv snd_conv option.simps(5))
  qed
  have "keepsHandlers (rg_bus s) ?b1" by (rule keeps_same) simp
  then have k2: "keepsHandlers (rg_bus s) b2" by (rule keeps_trans [OF _ k1])
  obtain b3 lr where l: "ListenRequestStream name (si_handler ids) b2 = (b3, lr)" by (cases "ListenRequestStream name (si_handler ids) b2")
  have "keepsHandlers b2 b3" using keeps_newHandler l unfolding ListenRequestStream_def by (metis fst_conv)
  then have k3: "keepsHandlers (rg_bus s) b3" by (rule keeps_trans [OF k2])
  have w': "(t, res) = (case ierr of Some e \<Rightarrow> (s\<lparr>rg_bus := b2, rg_cores := ?cs\<rparr>, Inl e) | None \<Rightarrow>
      (case lr of Inl e \<Rightarrow> (s\<lparr>rg_bus := b3, rg_cores := ?cs\<rparr>, Inl e)
       | Inr r \<Rightarrow> (s\<lparr>rg_bus := HandleContext r (Some CBackground) (Some (length (rg_fns s))) (Some (length (rg_fns s)))
                                    (si_sub ids) b3, rg_cores := ?cs, rg_fns := rg_fns s @ [(svc, length (rg_cores s))]\<rparr>,
                    Inr \<lparr>sw_service = svc, sw_core = length (rg_cores s), sw_handler = Some r\<rparr>)))"
    unfolding w [symmetric] using b2 l
    by (cases "sc_init svc"; cases ierr; cases lr) (auto simp: wrapperInit_def onRegBus_def Let_def)
  show ?thesis
  proof (cases "ierr = None \<and> (\<exists>r. lr = Inr r)")
    case False
    then show ?thesis using w' k2 k3 by (cases ierr; cases lr) auto
  next
    case True
    then obtain r where r: "lr = Inr r" by blast
    note new = ListenRequestStream_new [OF l [unfolded r]]
    let ?b4 = "HandleContext r (Some CBackground) (Some (length (rg_fns s))) (Some (length (rg_fns s))) (si_sub ids) b3"
    have k4: "keepsHandlers (rg_bus s) ?b4" by (rule keeps_trans [OF k3 keeps_HandleContext])
    have t: "t = s\<lparr>rg_bus := ?b4, rg_cores := ?cs, rg_fns := rg_fns s @ [(svc, length (rg_cores s))]\<rparr>"
      "res = Inr \<lparr>sw_service = svc, sw_core = length (rg_cores s), sw_handler = Some r\<rparr>"
      using w' True r by auto
    have "servesAt t name \<lparr>sw_service = svc, sw_core = length (rg_cores s), sw_handler = Some r\<rparr>"
      unfolding servesAt_def t(1) using new HandleContext_sets [of r b3]
      by (rule_tac x = r in exI, rule_tac x = "length (rg_fns s)" in exI) (simp add: SetHeaders_def normalizeContext_def)
    then show ?thesis using k4 t by simp
  qed
qed

lemma sendSetup_keeps:
  "keepsHandlers (rg_bus s) (rg_bus (fst (sendSetup ids n ov c s))) \<and> rg_fns (fst (sendSetup ids n ov c s)) = rg_fns s \<and>
   rg_cores (fst (sendSetup ids n ov c s)) = rg_cores s \<and> rg_services (fst (sendSetup ids n ov c s)) = rg_services s"
  using keeps_sendResponse by (simp add: sendSetup_def case_prod_beta)

lemma RegisterService_inv:
  assumes inv: "registryInv s" and law: "\<And>svc. service = Some svc \<Longrightarrow> lawfulService svc"
  shows "registryInv (fst (RegisterService ids service name s))"
proof (cases service)
  case (Some svc)
  obtain t res where w: "wrapperInit ids svc name s = (t, res)" by (cases "wrapperInit ids svc name s")
  note f = wrapperInit_facts [OF law [OF Some] w]
  have t: "registryInv t" using f by (intro registryInv_keeps [OF inv]) auto
  show ?thesis
  proof (cases res)
    case (Inr sw)
    let ?u = "t\<lparr>rg_services := gm_set name sw (rg_services t)\<rparr>"
    have "registryInv ?u"
      using t f Inr unfolding registryInv_def servesAt_def by (auto split: if_splits)
    moreover have "registryInv (fst (sendSetup ids name ov c ?u))" if "registryInv ?u" for ov c
      by (rule registryInv_keeps [OF that sendSetup_keeps [THEN conjunct1]]) (use sendSetup_keeps in auto)
    ultimately show ?thesis using inv w Inr Some by (simp add: RegisterService_def Let_def split: option.splits)
  qed (use inv t w Some in \<open>simp add: RegisterService_def\<close>)
qed (use inv in \<open>simp add: RegisterService_def\<close>)

lemma UnregisterService_inv: "registryInv s \<Longrightarrow> registryInv (fst (UnregisterService name s))"
proof -
  assume inv: "registryInv s"
  have c: "registryInv (onRegBus (Close r) s)" for r
    by (rule registryInv_keeps [OF inv]) (auto simp: onRegBus_def keeps_Close)
  have "registryInv (t\<lparr>rg_services := gm_del name (rg_services t)\<rparr>)" if "registryInv t" for t
    using that by (auto simp: registryInv_def servesAt_def split: if_splits)
  then show ?thesis using inv c by (auto simp: UnregisterService_def Let_def split: option.splits)
qed

lemma registryStep_inv: "registryInv s \<Longrightarrow> lawfulEvent e \<Longrightarrow> registryInv (registryStep s e)"
proof (cases e)
  case (RgRegister ids svc name)
  assume "registryInv s" and "lawfulEvent e"
  then show ?thesis using RgRegister by (auto simp: lawfulEvent_def intro!: RegisterService_inv split: option.splits)
next
  case (RgOverride ids name c)
  assume inv: "registryInv s"
  have "registryInv (fst (sendSetup ids name ov c s))" for ov
    by (rule registryInv_keeps [OF inv sendSetup_keeps [THEN conjunct1]]) (use sendSetup_keeps in auto)
  then show ?thesis using RgOverride inv by (simp add: OverrideRESTBridgeConfig_def split: sum.splits)
next
  case (RgCall k msg)
  assume inv: "registryInv s"
  have "registryInv (serviceFn k msg s)"
    using inv by (auto simp: serviceFn_def registryInv_def servesAt_def Let_def split: option.splits prod.splits)
  then show ?thesis using RgCall inv by simp
next
  case (RgSetHeaders c hs)
  assume inv: "registryInv s"
  have "map co_channelName ((rg_cores s)[c := SetHeaders hs (rg_cores s ! c)]) = map co_channelName (rg_cores s)"
    if "c < length (rg_cores s)"
    using that by (intro nth_equalityI) (auto simp: nth_list_update SetHeaders_def)
  then show ?thesis using RgSetHeaders inv by (auto intro: registryInv_keeps [OF inv] simp: keeps_refl)
next
  case (RgBaseHost host)
  assume inv: "registryInv s"
  show ?thesis using RgBaseHost
    by (auto simp: SetGlobalRestServiceBaseHost_def inv keeps_refl intro!: registryInv_keeps [OF inv] split: option.splits)
next
  case (RgBus br be)
  assume inv: "registryInv s"
  show ?thesis using RgBus by (auto simp: onRegBus_def intro!: registryInv_keeps [OF inv] keeps_step)
qed (simp add: UnregisterService_inv)

definition lawfulStep :: "serviceRegistry \<Rightarrow> serviceRegistry \<Rightarrow> bool" where
  "lawfulStep s t \<longleftrightarrow> (\<exists>e. lawfulEvent e \<and> t = registryStep s e)"

interpretation registry: stepper lawfulStep registryInv
  by unfold_locales (auto simp: lawfulStep_def intro: registryStep_inv)

lemma lawful_run: "list_all lawfulEvent es \<Longrightarrow> lawfulStep\<^sup>*\<^sup>* s (foldl registryStep s es)"
proof (induction es arbitrary: s)
  case (Cons e es)
  then have "lawfulStep s (registryStep s e)" by (auto simp: lawfulStep_def)
  with Cons show ?case by (auto intro: converse_rtranclp_into_rtranclp)
qed simp

lemma callsMade_request:
  assumes "servesAt s name sw" and "ctxErrOf (rg_bus s) ctx = None" and "m_Direction msg = RequestDir"
  shows "\<exists>r k. sw_handler sw = Some r \<and> k < length (rg_fns s) \<and> rg_fns s ! k = (sw_service sw, sw_core sw) \<and>
     co_channelName (rg_cores s ! sw_core sw) = name \<and> callsMade (rg_bus s) r ctx msg = [SuccessCall r k ctx msg]"
  using assms unfolding servesAt_def
  by (auto simp: callsMade_def blockedHandler_def wantsMessage_def handlerCtxDone_def ctxErrOf_def)

subsection \<open>Properties\<close>

text \<open>C6: in every run of a registry over its bus (registrations, also of services whose \<open>Init\<close>
  works on the bus, unregistrations, sends, deliveries, closings of other handlers), a registered
  service is connected: a request that reaches the handler of its channel under a live context
  calls the function of that service and nothing else, and the function passes the request on
  with the id of the message's destination, if there is one.\<close>

theorem registered_service_serves:
  assumes "s = foldl registryStep (NewServiceRegistry busId b0) es" and "list_all lawfulEvent es"
    and "gm_get (rg_services s) name = Some sw"
    and "ctxErrOf (rg_bus s) ctx = None" and "m_Direction msg = RequestDir" and "requestOf msg = Some req"
  shows "\<exists>r k. sw_handler sw = Some r \<and>
     bu_calls (handlerWrapper r ctx msg (rg_bus s)) = bu_calls (rg_bus s) @ [SuccessCall r k ctx msg] \<and>
     rg_calls (registryStep s (RgCall k msg)) = rg_calls s @
       [ServiceCall (sc_id (sw_service sw)) (sc_context (sw_service sw))
         (rq_setId (case m_DestinationId msg of None \<Rightarrow> rq_Id req | Some d \<Rightarrow> Some d) req) name]"
proof -
  have "registryInv (NewServiceRegistry busId b0)" by (simp add: registryInv_def NewServiceRegistry_def)
  then have "registryInv s" using registry.inv_star lawful_run assms(1,2) by blast
  then have "servesAt s name sw" using assms(3) by (simp add: registryInv_def)
  from callsMade_request [OF this assms(4,5)] obtain r k where
    rk: "sw_handler sw = Some r" "k < length (rg_fns s)" "rg_fns s ! k = (sw_service sw, sw_core sw)"
      "co_channelName (rg_cores s ! sw_core sw) = name" "callsMade (rg_bus s) r ctx msg = [SuccessCall r k ctx msg]" by blast
  have "rq_setId (rq_Id req) req = req" by (cases req) simp
  then have "rg_calls (registryStep s (RgCall k msg)) = rg_calls s @
       [ServiceCall (sc_id (sw_service sw)) (sc_context (sw_service sw))
         (rq_setId (case m_DestinationId msg of None \<Rightarrow> rq_Id req | Some d \<Rightarrow> Some d) req) name]"
    using rk assms(6) by (auto simp: serviceFn_def Let_def split: option.splits)
  then show ?thesis using rk wrapper_calls by metis
qed

definition demoService :: fabricService where
  "demoService = \<lparr>sc_id = 7, sc_init = Some (\<lambda>core b. (GenerateJSONHeaders, busStep demoOracle b (EvMgr (OpCreate ''other'')), None)),
     sc_bridge = None, sc_context = True, sc_isRest = False, sc_onReady = False, sc_onShutdown = False\<rparr>"

definition demoSvcIds :: svcIds where
  "demoSvcIds = \<lparr>si_handler = (1, 2, 3), si_sub = 4, si_msg = 5\<rparr>"

definition demoRegistryEvs :: "registryEv list" where
  "demoRegistryEvs = [RgRegister demoSvcIds (Some demoService) ''svc'', RgBus demoOracle (EvMgr (OpCreate ''third''))]"

definition demoRegistry :: serviceRegistry where
  "demoRegistry = foldl registryStep (NewServiceRegistry 9 newBus) demoRegistryEvs"

definition demoRequestMsg :: message where
  "demoRequestMsg = GenerateRequest 11 (buildConfig 11 ''svc'' (GRequest (Request (Some 1) [] GNil ''cmd'' None)) (Some 6))"

lemma demoService_lawful: "lawfulService demoService"
proof -
  have "\<exists>br es. busStep demoOracle b (EvMgr (OpCreate ''other'')) = foldl (busStep br) b es" for b
    by (rule exI [of _ demoOracle], rule exI [of _ "[EvMgr (OpCreate ''other'')]"]) simp
  then show ?thesis by (simp add: lawfulService_def demoService_def del: busStep.simps)
qed

definition demoReq :: request where
  "demoReq = Request (Some 1) [] GNil ''cmd'' None"

lemma registered_service_serves_witness:
  "\<exists>sw. gm_get (rg_services demoRegistry) ''svc'' = Some sw \<and>
     (\<exists>r k. sw_handler sw = Some r \<and>
        bu_calls (handlerWrapper r CBackground demoRequestMsg (rg_bus demoRegistry)) =
          bu_calls (rg_bus demoRegistry) @ [SuccessCall r k CBackground demoRequestMsg] \<and>
        rg_calls (registryStep demoRegistry (RgCall k demoRequestMsg)) = rg_calls demoRegistry @
          [ServiceCall (sc_id (sw_service sw)) (sc_context (sw_service sw))
            (rq_setId (case m_DestinationId demoRequestMsg of None \<Rightarrow> rq_Id demoReq | Some d \<Rightarrow> Some d) demoReq) ''svc''])"
proof -
  have "map_option sw_handler (gm_get (rg_services demoRegistry) ''svc'') = Some (Some 0)" by code_simp
  then obtain sw where sw: "gm_get (rg_services demoRegistry) ''svc'' = Some sw" by auto
  have law: "list_all lawfulEvent demoRegistryEvs" by (simp add: demoRegistryEvs_def lawfulEvent_def demoService_lawful)
  have msg: "m_Direction demoRequestMsg = RequestDir" "requestOf demoRequestMsg = Some demoReq" by code_simp+
  have ctx: "ctxErrOf (rg_bus demoRegistry) CBackground = None" by (simp add: ctxErrOf_def)
  show ?thesis using sw registered_service_serves [OF demoRegistry_def law sw ctx msg] by blast
qed

text \<open>What a function that answers a request does: it sends one response, for the id of the request,
  that carries the id and the broker destination of the request and the service's channel.\<close>

definition answerSent :: "fabricCore \<Rightarrow> uuid \<Rightarrow> request \<Rightarrow> bus \<Rightarrow> response \<Rightarrow> bus \<Rightarrow> bool" where
  "answerSent core newId request b resp b' \<longleftrightarrow>
     b' = sendResponseMessage core newId resp (rq_Id request) b \<and>
     rs_Id resp = rq_Id request \<and> rs_Destination resp = co_channelName core \<and>
     rs_BrokerDestination resp = rq_BrokerDestination request"

definition answersWith :: "fabricCore \<Rightarrow> uuid \<Rightarrow> request \<Rightarrow> bus \<Rightarrow> (int \<Rightarrow> bool) \<Rightarrow> bus \<Rightarrow> bool" where
  "answersWith core newId request b codes b' \<longleftrightarrow>
     (\<exists>resp. answerSent core newId request b resp b' \<and> rs_Error resp = (rs_ErrorCode resp \<noteq> 0) \<and> codes (rs_ErrorCode resp))"

lemma answers_error:
  "c \<noteq> 0 \<Longrightarrow> P c \<Longrightarrow> answersWith core newId request b P (SendErrorResponseWithPayload core newId request c msg v b)"
  "c \<noteq> 0 \<Longrightarrow> P c \<Longrightarrow> answersWith core newId request b P (SendErrorResponse core newId request c msg b)"
  unfolding answersWith_def answerSent_def SendErrorResponse_def SendErrorResponseWithPayload_def conj_assoc
  by (rule exI, rule conjI, rule refl, simp add: errorFor_def)+

lemma answers_ok: "P 0 \<Longrightarrow> answersWith core newId request b P (SendResponse core newId request v b)"
  unfolding answersWith_def answerSent_def SendResponse_def conj_assoc by (rule exI, rule conjI, rule refl) (simp add: responseFor_def)

lemma deserialize_fails:
  "deserializeResponse env body T = None \<Longrightarrow>
   \<exists>n s. T = Some (TOther n) \<and> body = Inr s \<and> re_decodeInto env (TOther n) s = Inr None"
  by (cases "(env, body, T)" rule: deserializeResponse.cases) (auto split: sum.splits option.splits)

text \<open>The answer of a service goes to the requester: the message put on the service's channel is
  a response for the id of the request; a handler that listens for the responses of one
  destination is called with it if and only if that destination is the request's id.\<close>

theorem response_reaches_requester:
  assumes "GetChannel (co_channelName core) (bu_mgr b) = Inr r"
    and "mh_direction (mhAt b' h) = ResponseDir" and "\<not> mh_allTraffic (mhAt b' h)" and "\<not> mh_ignoreId (mhAt b' h)"
    and "mh_successHandler (mhAt b' h) = Some f" and "\<not> blockedHandler b' h ctx"
  shows "\<exists>msg. sendResponseMessage core newId resp (rq_Id request) b = dispatchOn r None (Some CBackground) msg b \<and>
     m_Payload msg = GResponsePtr (Some resp) \<and> m_Channel msg = co_channelName core \<and>
     callsMade b' h ctx msg =
       (if rq_Id request \<noteq> None \<and> mh_destination (mhAt b' h) = rq_Id request then [SuccessCall h f ctx msg] else [])"
  using assms
  by (intro exI [of _ "GenerateResponse newId (buildConfig newId (co_channelName core) (GResponsePtr (Some resp)) (rq_Id request))"])
    (auto simp: sendResponseMessage_def SendResponseMessage_def SendResponseMessageContext_def sendMessageContext_def
      normalizeContext_def ctxErrOf_def messageFor_def callsMade_def wantsMessage_def buildConfig_def Generate_defs
      zeroConfig_def checkId_def Let_def)

definition demoListening :: bus where
  "demoListening = foldl (busStep demoOracle) newBus
     [EvMgr (OpCreate ''svc''),
      EvNewHandler ''svc'' (zeroOptions\<lparr>mo_direction := ResponseDir, mo_destinationId := Some 6, mo_requireDestination := True\<rparr>) (1, 2, 3),
      EvHandle 0 None (Some 7) None 4]"

lemma response_reaches_requester_witness:
  "\<exists>msg. sendResponseMessage (fabricCore.make ''svc'' []) 12 zeroResponse (rq_Id (Request (Some 6) [] GNil [] None)) demoListening =
       dispatchOn 0 None (Some CBackground) msg demoListening \<and>
     m_Payload msg = GResponsePtr (Some zeroResponse) \<and> m_Channel msg = co_channelName (fabricCore.make ''svc'' []) \<and>
     callsMade demoListening 0 CBackground msg =
       (if rq_Id (Request (Some 6) [] GNil [] None) \<noteq> None \<and>
          mh_destination (mhAt demoListening 0) = rq_Id (Request (Some 6) [] GNil [] None)
        then [SuccessCall 0 7 CBackground msg] else [])"
proof (rule response_reaches_requester)
  show "GetChannel (co_channelName (fabricCore.make ''svc'' [])) (bu_mgr demoListening) = Inr 0"
    "mh_direction (mhAt demoListening 0) = ResponseDir" "\<not> mh_allTraffic (mhAt demoListening 0)"
    "\<not> mh_ignoreId (mhAt demoListening 0)" "mh_successHandler (mhAt demoListening 0) = Some 7"
    "\<not> blockedHandler demoListening 0 CBackground"
    by code_simp+
qed

text \<open>The answer that the HTTP server gave, when everything before it worked.\<close>

definition exchanged :: "restEnv \<Rightarrow> string \<Rightarrow> request \<Rightarrow> restRequest \<Rightarrow> httpResponse \<Rightarrow> bool" where
  "exchanged env baseHost request rr hr \<longleftrightarrow>
     getRestServiceRequest env request = Some (Some rr) \<and> re_newRequest env (rr_Method rr) (getRequestUrl env baseHost (rr_Uri rr)) = None \<and>
     (\<exists>body. marshalBody env rr = Inr body \<and>
        re_do env (rr_Method rr) (getRequestUrl env baseHost (rr_Uri rr)) (requestHeaders rr) body = Inr hr)"

text \<open>What the requester must be told: the code, and without an error the payload.\<close>

definition restOutcome :: "restEnv \<Rightarrow> string \<Rightarrow> request \<Rightarrow> int \<Rightarrow> string \<Rightarrow> gval \<Rightarrow> bool" where
  "restOutcome env baseHost request code message payload \<longleftrightarrow>
     (if \<exists>rr hr. exchanged env baseHost request rr hr
      then \<exists>rr hr. exchanged env baseHost request rr hr \<and>
             (if hr_StatusCode hr \<ge> 300 then code = hr_StatusCode hr \<and> message = failureText hr
              else (case deserializeResponse env (hr_Body hr) (effectiveType rr) of
                      Some (Inr v) \<Rightarrow> code = 0 \<and> payload = v
                    | Some (Inl e) \<Rightarrow> code = 500 \<and> message = ''failed to deserialize response:'' @ e
                    | None \<Rightarrow> False))
      else code = 500)"

lemma exchanged_unique: "exchanged env h request rr hr \<Longrightarrow> exchanged env h request rr' hr' \<Longrightarrow> rr' = rr \<and> hr' = hr"
  by (auto simp: exchanged_def)

lemma outcome_exchanged:
  assumes "exchanged env h request rr hr"
  shows "restOutcome env h request code message payload \<longleftrightarrow>
     (if hr_StatusCode hr \<ge> 300 then code = hr_StatusCode hr \<and> message = failureText hr
      else (case deserializeResponse env (hr_Body hr) (effectiveType rr) of
              Some (Inr v) \<Rightarrow> code = 0 \<and> payload = v
            | Some (Inl e) \<Rightarrow> code = 500 \<and> message = ''failed to deserialize response:'' @ e
            | None \<Rightarrow> False))"
proof -
  have "\<exists>rr hr. exchanged env h request rr hr" using assms by blast
  moreover have "(\<exists>rr' hr'. exchanged env h request rr' hr' \<and> P rr' hr') \<longleftrightarrow> P rr hr" for P
    using assms exchanged_unique by blast
  ultimately show ?thesis unfolding restOutcome_def by (simp only: if_True)
qed

text \<open>C25: a request to the REST service is answered exactly once, on every path, and the code tells why.
  When there was no exchange with the HTTP server, because the payload is not a REST request, its body cannot
  be marshalled, or the HTTP request cannot be built or fails, the answer is the error 500. When there was one, a
  status of 300 or more is the error code, with the status line as its message; otherwise the answer has no
  error and carries the value that the body was read as, or it is the error 500 when the body cannot be read. The
  exceptions, where the service fails: the payload is a nil pointer to a REST request; or the answer is the JSON literal null and
  the request names a response type that is neither a string, bytes nor a pointer.\<close>

theorem rest_request_answered:
  "(case HandleServiceRequestContext env baseHost newId request core b of
      None \<Rightarrow> getRestServiceRequest env request = Some None \<or>
        (\<exists>rr hr n s. exchanged env baseHost request rr hr \<and> hr_StatusCode hr < 300 \<and> hr_Body hr = Inr s \<and>
           rr_ResponseType rr = Some (TOther n) \<and> re_decodeInto env (TOther n) s = Inr None)
    | Some b' \<Rightarrow> \<exists>resp. answerSent core newId request b resp b' \<and> rs_Error resp = (rs_ErrorCode resp \<noteq> 0) \<and>
        restOutcome env baseHost request (rs_ErrorCode resp) (rs_ErrorMessage resp) (rs_Payload resp))"
proof -
  let ?u = "getRequestUrl env baseHost"
  let ?ok = "\<lambda>b'. \<exists>resp. answerSent core newId request b resp b' \<and> rs_Error resp = (rs_ErrorCode resp \<noteq> 0) \<and>
        restOutcome env baseHost request (rs_ErrorCode resp) (rs_ErrorMessage resp) (rs_Payload resp)"
  have err: "?ok (SendErrorResponse core newId request 500 m b)" if "\<And>v. restOutcome env baseHost request 500 m v" for m
    unfolding answerSent_def SendErrorResponse_def SendErrorResponseWithPayload_def conj_assoc
    by (rule exI, rule conjI, rule refl) (simp add: errorFor_def that)
  have status: "?ok (SendErrorResponseWithPayload core newId request c m v b)"
    if "restOutcome env baseHost request c m v" "c \<noteq> 0" for c m v
    unfolding answerSent_def SendErrorResponseWithPayload_def conj_assoc
    by (rule exI, rule conjI, rule refl) (simp add: errorFor_def that)
  have ok: "?ok (SendResponse core newId request v b)" if "\<And>m. restOutcome env baseHost request 0 m v" for v
    unfolding answerSent_def SendResponse_def conj_assoc by (rule exI, rule conjI, rule refl) (simp add: responseFor_def that)
  show ?thesis
  proof (cases "\<exists>rr hr. exchanged env baseHost request rr hr")
    case False
    then have none: "restOutcome env baseHost request 500 m v" for m v by (simp only: restOutcome_def if_False)
    show ?thesis
      using False err [OF none]
      unfolding HandleServiceRequestContext_def exchanged_def Let_def
      by (auto split: option.split sum.split)
  next
    case True
    then obtain rr hr where x: "exchanged env baseHost request rr hr" by blast
    then obtain body where run: "getRestServiceRequest env request = Some (Some rr)" "marshalBody env rr = Inr body"
        "re_newRequest env (rr_Method rr) (?u (rr_Uri rr)) = None"
        "re_do env (rr_Method rr) (?u (rr_Uri rr)) (requestHeaders rr) body = Inr hr" by (auto simp: exchanged_def)
    show ?thesis
    proof (cases "hr_StatusCode hr \<ge> 300")
      case True
      then show ?thesis using status outcome_exchanged [OF x] by (simp add: HandleServiceRequestContext_def run Let_def)
    next
      case low: False
      show ?thesis
      proof (cases "deserializeResponse env (hr_Body hr) (effectiveType rr)")
        case None
        from deserialize_fails [OF this] obtain n s where
          n: "effectiveType rr = Some (TOther n)" "hr_Body hr = Inr s" "re_decodeInto env (TOther n) s = Inr None" by blast
        then have "rr_ResponseType rr = Some (TOther n)" by (simp add: effectiveType_def split: if_splits)
        moreover have "HandleServiceRequestContext env baseHost newId request core b = None"
          using low None by (simp add: HandleServiceRequestContext_def run Let_def)
        ultimately show ?thesis using n x low by (auto simp: not_le)
      next
        case (Some d)
        show ?thesis
        proof (cases d)
          case (Inl e)
          then show ?thesis using low Some err outcome_exchanged [OF x] by (simp add: HandleServiceRequestContext_def run Let_def)
        next
          case (Inr v)
          then show ?thesis using low Some ok outcome_exchanged [OF x] by (simp add: HandleServiceRequestContext_def run Let_def)
        qed
      qed
    qed
  qed
qed

text \<open>A nil pointer makes the service fail.\<close>

lemma nil_request_fails: "HandleServiceRequestContext env h i (Request r d (GRestRequest None) c x) core b = None"
  by (simp add: HandleServiceRequestContext_def getRestServiceRequest_def)

text \<open>The exception is reached.\<close>

definition nullEnv :: restEnv where
  "nullEnv = \<lparr>re_marshal = (\<lambda>v. Inr []), re_convert = (\<lambda>m. Inr None), re_newRequest = (\<lambda>m u. None),
     re_setHost = (\<lambda>u h. None), re_do = (\<lambda>m u h bd. Inr \<lparr>hr_StatusCode = 200, hr_Status = ''200 OK'', hr_Body = Inr ''null''\<rparr>),
     re_decodeMap = (\<lambda>s. Inr GNil), re_decodeInto = (\<lambda>t s. Inr None)\<rparr>"

lemma null_answer_fails:
  "HandleServiceRequestContext nullEnv [] 1
     (Request (Some 6) [] (GRestRequest (Some (RestRequest ''/x'' ''GET'' GNil [(''Content-Type'', ''application/json'')] (Some (TOther 3)) []))) [] None)
     core b = None"
proof -
  have "effectiveType (RestRequest ''/x'' ''GET'' GNil [(''Content-Type'', ''application/json'')] (Some (TOther 3)) []) = Some (TOther 3)"
    by code_simp
  then show ?thesis
    by (simp add: HandleServiceRequestContext_def nullEnv_def getRestServiceRequest_def marshalBody_def Let_def)
qed

text \<open>A service that makes a REST request while no REST service has created its channel fails (the
  handler it then uses is nil); otherwise the request is sent.\<close>

theorem rest_request_needs_channel:
  "(RestServiceRequest core rr onMsg onErr rid ids sid mid b = None) =
   (\<exists>e. GetChannel RestServiceChannel (bu_mgr b) = Inl e)"
  by (auto simp: RestServiceRequest_def ListenOnceForDestination_def newMessageHandler_def zeroOptions_def Let_def
      split: sum.splits)

end
