(* ===== verification/Bridge.thy ===== *)
theory Bridge
  imports StompConn Channel
begin

text \<open>
  Package \<open>bridge\<close>: one connection to a message broker over WebSocket or TCP (connection.go,
  subscription.go, bridge_client.go, bridge_client_subscription.go) and the connector that makes it
  (broker_connector.go, broker_connector_config.go). Channels are unbuffered: a send waits for a
  reader. The goroutine that handles the frames of the WebSocket is a program counter, so that what
  it waits for, and what waits for it, is part of the state. The STOMP library's headers are the
  operations of \<open>headerOps\<close>; the library's TCP connection is its answers and a log. A connection
  is not nil here.
\<close>

subsection \<open>Configuration\<close>

record tlsConfig =
  tl_InsecureSkipVerify :: bool
  tl_Certificates :: "string list"
  tl_GetCertificate :: bool

record webSocketConfig =
  ws_WSPath :: string
  ws_UseTLS :: bool
  ws_TLSConfig :: "tlsConfig option"
  ws_CertFile :: string
  ws_KeyFile :: string

record brokerConnectorConfig =
  bk_Username :: string
  bk_Password :: string
  bk_ServerAddr :: string
  bk_UseWS :: bool
  bk_WebSocketConfig :: "webSocketConfig option"
  bk_HostHeader :: string
  bk_HeartBeatOut :: int
  bk_HeartBeatIn :: int
  bk_STOMPHeader :: "(string, string) gomap"
  bk_HttpHeader :: "(string \<times> string) list"

text \<open>\<open>loadCert\<close> is \<open>tls.LoadX509KeyPair\<close>. The result is \<open>None\<close> where the code reads through a nil
  TLS configuration.\<close>

definition LoadX509KeyPairFromFiles ::
  "(string \<Rightarrow> string \<Rightarrow> string res) \<Rightarrow> string \<Rightarrow> string \<Rightarrow> webSocketConfig \<Rightarrow> (webSocketConfig \<times> err option) option" where
  "LoadX509KeyPairFromFiles loadCert certFile keyFile w =
     (case ws_TLSConfig w of
        None \<Rightarrow> None
      | Some tc \<Rightarrow>
          (let hasCert = (tl_Certificates tc \<noteq> [] \<or> tl_GetCertificate tc) in
           if \<not> hasCert \<or> certFile \<noteq> [] \<or> keyFile \<noteq> []
           then (case loadCert certFile keyFile of
                   Inl e \<Rightarrow> Some (w\<lparr>ws_TLSConfig := Some (tc\<lparr>tl_Certificates := [[]]\<rparr>)\<rparr>, Some e)
                 | Inr c \<Rightarrow> Some (w\<lparr>ws_TLSConfig := Some (tc\<lparr>tl_Certificates := [c]\<rparr>)\<rparr>, None))
           else Some (w, None)))"

definition basicTLSConfig :: tlsConfig where
  "basicTLSConfig = \<lparr>tl_InsecureSkipVerify = True, tl_Certificates = [], tl_GetCertificate = False\<rparr>"

definition checkConfig :: "brokerConnectorConfig option \<Rightarrow> brokerConnectorConfig res" where
  "checkConfig config =
     (case config of
        None \<Rightarrow> Inl ''config is nil''
      | Some c \<Rightarrow>
          (if bk_ServerAddr c = [] then Inl ''config invalid, config missing server address''
           else case bk_WebSocketConfig c of
                  Some w \<Rightarrow>
                    (if ws_UseTLS w \<and> ws_TLSConfig w = None
                     then Inr (c\<lparr>bk_WebSocketConfig := Some (w\<lparr>ws_TLSConfig := Some basicTLSConfig\<rparr>)\<rparr>)
                     else Inr c)
                | None \<Rightarrow> Inr c))"

subsection \<open>State\<close>

text \<open>A channel of messages: whether it is closed, and what its readers have got.\<close>

record msgChan =
  gc_closed :: bool
  gc_received :: "message list"

record bridgeClientSub =
  bs_Id :: uuid
  bs_Destination :: string
  bs_subscribed :: bool
  bs_C :: ref

datatype tcpPc = TcpIdle | TcpSending message | TcpEnded

record connSubscription =
  cs_id :: uuid
  cs_destination :: string
  cs_c :: ref
  cs_stompTCPSub :: bool
  cs_wsStompSub :: "ref option"
  cs_listener :: tcpPc

text \<open>The goroutine \<open>handleIncomingSTOMPFrames\<close>: waiting for a frame, handing \<open>true\<close> to
  \<open>Connect\<close>, handing a message to the channel of a subscription while it holds the subscription's
  read lock, sending on a nil channel, or ended.\<close>

datatype loopPc = LoopIdle | LoopConnecting | LoopSending ref message | LoopStuck | LoopEnded

record 'h bridge =
  br_useWs :: bool
  br_conn :: bool
  br_wsConn :: bool
  br_subscriptions :: "(string, ref) gomap"
  br_subs :: "connSubscription list"
  br_Subscriptions :: "(string, ref) gomap"
  br_wsSubs :: "bridgeClientSub list"
  br_chans :: "msgChan list"
  br_loop :: loopPc
  br_connected :: bool
  br_stompConnected :: bool
  br_waiting :: bool
  br_alive :: bool
  br_inbox :: "'h stompFrame list"
  br_seen :: "'h stompFrame list"
  br_sending :: "'h stompFrame list"
  br_written :: "'h stompFrame list"
  br_subscribing :: "(nat \<times> string) list"
  br_unsubscribing :: "(ref \<times> bool) list"
  br_panic :: bool

definition newChan :: msgChan where "newChan = \<lparr>gc_closed = False, gc_received = []\<rparr>"

definition freshBridge :: "bool \<Rightarrow> 'h bridge" where
  "freshBridge useWs =
     \<lparr>br_useWs = useWs, br_conn = \<not> useWs, br_wsConn = useWs, br_subscriptions = gm_empty, br_subs = [],
      br_Subscriptions = gm_empty, br_wsSubs = [], br_chans = [], br_loop = (if useWs then LoopIdle else LoopEnded),
      br_connected = False, br_stompConnected = False, br_waiting = useWs, br_alive = useWs, br_inbox = [], br_seen = [],
      br_sending = [], br_written = [], br_subscribing = [], br_unsubscribing = [], br_panic = False\<rparr>"

subsection \<open>The WebSocket client\<close>

text \<open>A frame is written unless the socket is closed, which is not reported.\<close>

definition SendWsFrame :: "'h stompFrame \<Rightarrow> 'h bridge \<Rightarrow> 'h bridge" where
  "SendWsFrame f s = (if br_alive s then s\<lparr>br_written := br_written s @ [f]\<rparr> else s)"

definition wsConnectFrame :: "'h headerOps \<Rightarrow> brokerConnectorConfig \<Rightarrow> 'h stompFrame" where
  "wsConnectFrame ho config = frameNew ho ''CONNECT''
     ([(''accept-version'', ''1.2''), (''login'', bk_Username config), (''passcode'', bk_Password config),
       (''heart-beat'', itoa (bk_HeartBeatOut config) @ '','' @ itoa (bk_HeartBeatIn config))]
      @ bk_STOMPHeader config)"

text \<open>\<open>dial\<close> is the answer of the WebSocket dialer. \<open>None\<close> is a failure of the code.\<close>

definition ConnectWsClient ::
  "'h headerOps \<Rightarrow> (string \<Rightarrow> string \<Rightarrow> string res) \<Rightarrow> err option \<Rightarrow> brokerConnectorConfig \<Rightarrow> 'h bridge res option" where
  "ConnectWsClient ho loadCert dial config =
     (case bk_WebSocketConfig config of
        None \<Rightarrow> None
      | Some w \<Rightarrow>
          (let tls = (if ws_UseTLS w \<and> (ws_CertFile w \<noteq> [] \<or> ws_KeyFile w \<noteq> [])
                      then LoadX509KeyPairFromFiles loadCert (ws_CertFile w) (ws_KeyFile w) w else Some (w, None))
           in case tls of
                None \<Rightarrow> None
              | Some (_, Some e) \<Rightarrow> Some (Inl e)
              | Some (_, None) \<Rightarrow>
                  (case dial of
                     Some e \<Rightarrow> Some (Inl e)
                   | None \<Rightarrow> Some (Inr (SendWsFrame (wsConnectFrame ho config) (freshBridge True))))))"

definition updSub :: "ref \<Rightarrow> (connSubscription \<Rightarrow> connSubscription) \<Rightarrow> 'h bridge \<Rightarrow> 'h bridge" where
  "updSub k g s = s\<lparr>br_subs := (br_subs s)[k := g (br_subs s ! k)]\<rparr>"

definition updWsSub :: "ref \<Rightarrow> (bridgeClientSub \<Rightarrow> bridgeClientSub) \<Rightarrow> 'h bridge \<Rightarrow> 'h bridge" where
  "updWsSub k g s = s\<lparr>br_wsSubs := (br_wsSubs s)[k := g (br_wsSubs s ! k)]\<rparr>"

definition updChan :: "ref \<Rightarrow> (msgChan \<Rightarrow> msgChan) \<Rightarrow> 'h bridge \<Rightarrow> 'h bridge" where
  "updChan k g s = s\<lparr>br_chans := (br_chans s)[k := g (br_chans s ! k)]\<rparr>"

text \<open>\<open>showId\<close> is the text of an id. The result is the new subscription.\<close>

definition WsSubscribe :: "'h headerOps \<Rightarrow> (uuid \<Rightarrow> string) \<Rightarrow> string \<Rightarrow> uuid \<Rightarrow> 'h bridge \<Rightarrow> 'h bridge \<times> ref" where
  "WsSubscribe ho showId destination newId s =
     (let k = length (br_wsSubs s);
          sub = \<lparr>bs_Id = newId, bs_Destination = destination, bs_subscribed = True, bs_C = length (br_chans s)\<rparr>;
          f = frameNew ho ''SUBSCRIBE'' [(''id'', showId newId), (''destination'', destination), (''ack'', ''auto'')]
      in (SendWsFrame f (s\<lparr>br_chans := br_chans s @ [newChan], br_wsSubs := br_wsSubs s @ [sub],
                            br_Subscriptions := gm_set destination k (br_Subscriptions s)\<rparr>), k))"

text \<open>The frame is written by a goroutine of its own.\<close>

definition WsSend ::
  "'h headerOps \<Rightarrow> string \<Rightarrow> string \<Rightarrow> string \<Rightarrow> ('h stompFrame \<Rightarrow> 'h stompFrame) list \<Rightarrow> 'h bridge \<Rightarrow> 'h bridge" where
  "WsSend ho destination contentType payload opts s =
     (let f0 = frameNew ho ''SEND'' [(''destination'', destination), (''content-length'', itoa (int (length payload))),
                                    (''content-type'', contentType)];
          f = (foldl (\<lambda>f opt. opt f) f0 opts)\<lparr>fr_Body := payload\<rparr>
      in s\<lparr>br_sending := br_sending s @ [f]\<rparr>)"

definition runSend :: "nat \<Rightarrow> 'h bridge \<Rightarrow> 'h bridge" where
  "runSend i s =
     (if i < length (br_sending s)
      then SendWsFrame (br_sending s ! i) (s\<lparr>br_sending := take i (br_sending s) @ drop (Suc i) (br_sending s)\<rparr>)
      else s)"

text \<open>A round of the loop takes the next frame. A destination has one entry in the map, so at most
  one subscription matches. The error channel of a subscription is never made.\<close>

definition messageOf :: "uuid \<Rightarrow> string \<Rightarrow> 'h stompFrame \<Rightarrow> message" where
  "messageOf newId destination f = GenerateResponse newId (zeroConfig\<lparr>mc_Payload := GBytes (fr_Body f), mc_Destination := destination\<rparr>)"

definition loopFrame :: "'h headerOps \<Rightarrow> uuid \<Rightarrow> 'h stompFrame \<Rightarrow> 'h bridge \<Rightarrow> 'h bridge" where
  "loopFrame ho newId f s =
     (if fr_Command f = ''CONNECTED'' then
        s\<lparr>br_stompConnected := True, br_connected := True, br_loop := LoopConnecting\<rparr>
      else if fr_Command f = ''MESSAGE'' then
        (case gm_get (br_Subscriptions s) (ho_get ho (fr_Header f) ''destination'') of
           None \<Rightarrow> s
         | Some k \<Rightarrow>
             (let sub = br_wsSubs s ! k in
              if bs_subscribed sub \<and> \<not> gc_closed (br_chans s ! bs_C sub)
              then s\<lparr>br_loop := LoopSending k (messageOf newId (bs_Destination sub) f)\<rparr>
              else s))
      else if fr_Command f = ''ERROR'' then
        (case gm_get (br_Subscriptions s) (ho_get ho (fr_Header f) ''destination'') of
           None \<Rightarrow> s
         | Some k \<Rightarrow> s\<lparr>br_loop := LoopStuck\<rparr>)
      else s)"

definition loopStep :: "'h headerOps \<Rightarrow> uuid \<Rightarrow> 'h bridge \<Rightarrow> 'h bridge" where
  "loopStep ho newId s =
     (case (br_loop s, br_inbox s) of
        (LoopIdle, f # fs) \<Rightarrow> loopFrame ho newId f (s\<lparr>br_inbox := fs, br_seen := br_seen s @ [f]\<rparr>)
      | _ \<Rightarrow> s)"

text \<open>The reader of the socket puts each frame that parses into the channel of the loop; it waits while the
  channel is full.\<close>

definition listenSocket :: "'h stompFrame option \<Rightarrow> 'h bridge \<Rightarrow> 'h bridge" where
  [simp]: "listenSocket f s = (case f of None \<Rightarrow> s | Some g \<Rightarrow> s\<lparr>br_inbox := br_inbox s @ [g]\<rparr>)"

text \<open>\<open>Connect\<close> waits for one \<open>true\<close>.\<close>

definition connectReturns :: "'h bridge \<Rightarrow> 'h bridge" where
  "connectReturns s =
     (if br_waiting s \<and> br_loop s = LoopConnecting then s\<lparr>br_waiting := False, br_loop := LoopIdle\<rparr> else s)"

subsection \<open>Reading a channel\<close>

text \<open>A reader gets the message of the goroutine that waits to send on the channel; \<open>Some None\<close> is
  what a closed channel gives, and \<open>None\<close> that the reader waits.\<close>

definition tcpSender :: "ref \<Rightarrow> 'h bridge \<Rightarrow> (ref \<times> message) option" where
  "tcpSender c s =
     (case filter (\<lambda>k. cs_stompTCPSub (br_subs s ! k) \<and> cs_c (br_subs s ! k) = c \<and>
                       (case cs_listener (br_subs s ! k) of TcpSending m \<Rightarrow> True | _ \<Rightarrow> False)) [0..<length (br_subs s)] of
        [] \<Rightarrow> None
      | k # _ \<Rightarrow> (case cs_listener (br_subs s ! k) of TcpSending m \<Rightarrow> Some (k, m) | _ \<Rightarrow> None))"

definition receiveFrom :: "ref \<Rightarrow> 'h bridge \<Rightarrow> 'h bridge \<times> message option option" where
  "receiveFrom c s =
     (if gc_closed (br_chans s ! c) then (s, Some None)
      else let got = (\<lambda>m. updChan c (\<lambda>ch. ch\<lparr>gc_received := gc_received ch @ [m]\<rparr>));
               tcp = (case tcpSender c s of
                        None \<Rightarrow> (s, None)
                      | Some (k, m) \<Rightarrow> (got m (updSub k (\<lambda>b. b\<lparr>cs_listener := TcpIdle\<rparr>) s), Some (Some m)))
           in case br_loop s of
                LoopSending k m \<Rightarrow>
                  (if bs_C (br_wsSubs s ! k) = c then (got m (s\<lparr>br_loop := LoopIdle\<rparr>), Some (Some m)) else tcp)
              | _ \<Rightarrow> tcp)"

subsection \<open>Subscriptions\<close>

definition subscribeWs ::
  "'h headerOps \<Rightarrow> (uuid \<Rightarrow> string) \<Rightarrow> string \<Rightarrow> uuid \<Rightarrow> 'h bridge \<Rightarrow> 'h bridge \<times> ref res" where
  "subscribeWs ho showId destination newId s =
     (if br_wsConn s then
        (let (s1, k) = WsSubscribe ho showId destination newId s;
             n = length (br_subs s1);
             sub = \<lparr>cs_id = newId, cs_destination = destination, cs_c = bs_C (br_wsSubs s1 ! k), cs_stompTCPSub = False,
                    cs_wsStompSub = Some k, cs_listener = TcpEnded\<rparr>
         in (s1\<lparr>br_subs := br_subs s1 @ [sub], br_subscriptions := gm_set destination n (br_subscriptions s1)\<rparr>, Inr n))
      else (s, Inl ''cannot subscribe, websocket not connected / established''))"

text \<open>The error of the library's \<open>Subscribe\<close> is dropped; its subscription is then nil and the
  code fails when it reads the channel of it (\<open>ok\<close> is whether there was no error).\<close>

definition subscribeTCP :: "bool \<Rightarrow> string \<Rightarrow> uuid \<Rightarrow> 'h bridge \<Rightarrow> 'h bridge \<times> ref res" where
  "subscribeTCP ok destination newId s =
     (if br_conn s then
        (if ok then
           (let n = length (br_subs s);
                sub = \<lparr>cs_id = newId, cs_destination = [], cs_c = length (br_chans s), cs_stompTCPSub = True,
                       cs_wsStompSub = None, cs_listener = TcpIdle\<rparr>
            in (s\<lparr>br_chans := br_chans s @ [newChan], br_subs := br_subs s @ [sub],
                  br_subscriptions := gm_set destination n (br_subscriptions s)\<rparr>, Inr n))
         else (s\<lparr>br_panic := True\<rparr>, Inl ''invalid memory address or nil pointer dereference''))
      else (s, Inl ''no STOMP TCP connection established''))"

text \<open>\<open>Subscribe\<close> releases the lock between the look-up and the creation. With TCP a reply
  destination differs in a header given to the library only.\<close>

definition lookupSubscription :: "string \<Rightarrow> 'h bridge \<Rightarrow> ref option" where
  "lookupSubscription destination s = gm_get (br_subscriptions s) destination"

definition createSubscription ::
  "'h headerOps \<Rightarrow> (uuid \<Rightarrow> string) \<Rightarrow> bool \<Rightarrow> string \<Rightarrow> uuid \<Rightarrow> 'h bridge \<Rightarrow> 'h bridge \<times> ref res" where
  "createSubscription ho showId ok destination newId s =
     (if br_useWs s then subscribeWs ho showId destination newId s else subscribeTCP ok destination newId s)"

definition BridgeSubscribe ::
  "'h headerOps \<Rightarrow> (uuid \<Rightarrow> string) \<Rightarrow> bool \<Rightarrow> string \<Rightarrow> uuid \<Rightarrow> 'h bridge \<Rightarrow> 'h bridge \<times> ref res" where
  "BridgeSubscribe ho showId ok destination newId s =
     (case lookupSubscription destination s of
        Some k \<Rightarrow> (s, Inr k)
      | None \<Rightarrow> createSubscription ho showId ok destination newId s)"

text \<open>\<open>SubscribeReplyDestination\<close>: over TCP the library is given the header \<open>reply-to\<close> besides, which it
  keeps to itself; \<open>opts\<close> is what it is given.\<close>

definition replyOptions :: "'h headerOps \<Rightarrow> string \<Rightarrow> ('h stompFrame \<Rightarrow> 'h stompFrame) list" where
  "replyOptions ho destination = [\<lambda>f. f\<lparr>fr_Header := ho_add ho (fr_Header f) ''reply-to'' destination\<rparr>]"

definition subscribeTCPUsingReplyDestination ::
  "'h headerOps \<Rightarrow> (('h stompFrame \<Rightarrow> 'h stompFrame) list \<Rightarrow> bool) \<Rightarrow> string \<Rightarrow> uuid \<Rightarrow> 'h bridge \<Rightarrow> 'h bridge \<times> ref res" where
  "subscribeTCPUsingReplyDestination ho ok destination newId s = subscribeTCP (ok (replyOptions ho destination)) destination newId s"

definition SubscribeReplyDestination ::
  "'h headerOps \<Rightarrow> (uuid \<Rightarrow> string) \<Rightarrow> (('h stompFrame \<Rightarrow> 'h stompFrame) list \<Rightarrow> bool) \<Rightarrow> string \<Rightarrow> uuid \<Rightarrow> 'h bridge
     \<Rightarrow> 'h bridge \<times> ref res" where
  "SubscribeReplyDestination ho showId ok destination newId s =
     (case lookupSubscription destination s of
        Some k \<Rightarrow> (s, Inr k)
      | None \<Rightarrow>
          if br_useWs s then subscribeWs ho showId destination newId s
          else subscribeTCPUsingReplyDestination ho ok destination newId s)"

text \<open>\<open>Unsubscribe\<close> over WebSocket: it takes the write lock of the client's subscription, for which it
  waits while the loop hands a message to that subscription; then it writes the frame and closes
  the channel. A second close of the channel fails.\<close>

definition closeChan :: "ref \<Rightarrow> 'h bridge \<Rightarrow> 'h bridge" where
  "closeChan c s =
     (if gc_closed (br_chans s ! c) then s\<lparr>br_panic := True\<rparr>
      else updChan c (\<lambda>ch. ch\<lparr>gc_closed := True\<rparr>) s)"

definition loopHolds :: "ref \<Rightarrow> 'h bridge \<Rightarrow> bool" where
  "loopHolds k s = (case br_loop s of LoopSending j m \<Rightarrow> j = k | _ \<Rightarrow> False)"

definition unsubscribeTCP :: "ref \<Rightarrow> 'h bridge \<Rightarrow> 'h bridge" where
  "unsubscribeTCP n s =
     (let sub = br_subs s ! n;
          s1 = (case cs_listener sub of TcpSending m \<Rightarrow> updSub n (\<lambda>b. b\<lparr>cs_listener := TcpEnded\<rparr>) s | _ \<Rightarrow> s)
      in closeChan (cs_c sub) s1)"

definition markUnsubscribed :: "ref \<Rightarrow> 'h bridge \<Rightarrow> 'h bridge" where
  "markUnsubscribed n s =
     (case cs_wsStompSub (br_subs s ! n) of
        None \<Rightarrow> s
      | Some k \<Rightarrow>
          (if loopHolds k s then s
           else (updWsSub k (\<lambda>b. b\<lparr>bs_subscribed := False\<rparr>) s)\<lparr>br_unsubscribing := br_unsubscribing s @ [(n, False)]\<rparr>))"

definition finishUnsubscribe :: "'h headerOps \<Rightarrow> (uuid \<Rightarrow> string) \<Rightarrow> nat \<Rightarrow> 'h bridge \<Rightarrow> 'h bridge" where
  "finishUnsubscribe ho showId i s =
     (if i < length (br_unsubscribing s) then
        (let (n, written) = br_unsubscribing s ! i; sub = br_subs s ! n in
         case cs_wsStompSub sub of
           None \<Rightarrow> s
         | Some k \<Rightarrow>
             (if \<not> written
              then SendWsFrame (frameNew ho ''UNSUBSCRIBE'' [(''id'', showId (bs_Id (br_wsSubs s ! k))),
                                                             (''destination'', bs_Destination (br_wsSubs s ! k))])
                     (s\<lparr>br_unsubscribing := (br_unsubscribing s)[i := (n, True)]\<rparr>)
              else closeChan (cs_c sub)
                     (s\<lparr>br_unsubscribing := take i (br_unsubscribing s) @ drop (Suc i) (br_unsubscribing s)\<rparr>)))
      else s)"

subsection \<open>Frames of a TCP subscription\<close>

record 'h tcpFrame =
  tf_Destination :: string
  tf_Body :: string
  tf_Header :: 'h

definition tcpMessage :: "'h headerOps \<Rightarrow> uuid \<Rightarrow> 'h tcpFrame \<Rightarrow> message" where
  "tcpMessage ho newId f =
     (let cf = zeroConfig\<lparr>mc_Payload := GBytes (tf_Body f), mc_Destination := tf_Destination f\<rparr>
      in GenerateResponse newId
           (case ho_contains ho (tf_Header f) ''reply-to'' of
              None \<Rightarrow> cf
            | Some r \<Rightarrow> cf\<lparr>mc_Headers := [(''reply-to'', r)]\<rparr>))"

text \<open>A nil frame, which is what the closed channel of the library gives, is skipped and the next is
  read at once. A send on a closed channel ends the goroutine.\<close>

definition listenTCPFrames :: "'h headerOps \<Rightarrow> uuid \<Rightarrow> ref \<Rightarrow> 'h tcpFrame option \<Rightarrow> 'h bridge \<Rightarrow> 'h bridge" where
  "listenTCPFrames ho newId n f s =
     (case (cs_listener (br_subs s ! n), f) of
        (TcpIdle, Some g) \<Rightarrow>
          updSub n (\<lambda>b. b\<lparr>cs_listener := (if gc_closed (br_chans s ! cs_c b) then TcpEnded
                                           else TcpSending (tcpMessage ho newId g))\<rparr>) s
      | _ \<Rightarrow> s)"

subsection \<open>Sending and disconnecting\<close>

text \<open>Over TCP the frame goes to the library, whose error is dropped: the log of the connection
  gets it.\<close>

definition BridgeSendMessage ::
  "'h headerOps \<Rightarrow> string \<Rightarrow> string \<Rightarrow> string \<Rightarrow> ('h stompFrame \<Rightarrow> 'h stompFrame) list \<Rightarrow> 'h bridge \<Rightarrow> 'h bridge \<times> err option" where
  "BridgeSendMessage ho destination contentType payload opts s =
     (if \<not> br_useWs s \<and> br_conn s then
        (s\<lparr>br_written := br_written s @
             [(foldl (\<lambda>f opt. opt f)
                 (frameNew ho ''SEND'' [(''destination'', destination), (''content-type'', contentType)]) opts)\<lparr>fr_Body := payload\<rparr>]\<rparr>,
         None)
      else if br_useWs s \<and> br_wsConn s then (WsSend ho destination contentType payload opts s, None)
      else (s, Some ''cannot send message, no connection''))"

definition SendJSONMessage where
  "SendJSONMessage ho destination payload opts = BridgeSendMessage ho destination ''application/json'' payload opts"

definition replyToHeader :: "'h headerOps \<Rightarrow> string \<Rightarrow> 'h stompFrame \<Rightarrow> 'h stompFrame" where
  "replyToHeader ho r f = f\<lparr>fr_Header := ho_add ho (fr_Header f) ''reply-to'' r\<rparr>"

definition SendMessageWithReplyDestination where
  "SendMessageWithReplyDestination ho destination reply contentType payload opts =
     BridgeSendMessage ho destination contentType payload (opts @ [replyToHeader ho reply])"

definition Conversation ::
  "'h headerOps \<Rightarrow> (uuid \<Rightarrow> string) \<Rightarrow> bool \<Rightarrow> string \<Rightarrow> string \<Rightarrow> ('h stompFrame \<Rightarrow> 'h stompFrame) list \<Rightarrow> uuid \<Rightarrow> 'h bridge
     \<Rightarrow> 'h bridge \<times> ref option \<times> err option" where
  "Conversation ho showId ok destination payload opts newId s =
     (case BridgeSubscribe ho showId ok destination newId s of
        (s1, Inl e) \<Rightarrow> (s1, None, Some e)
      | (s1, Inr k) \<Rightarrow>
          (let (s2, e) = SendJSONMessage ho (''/pub'' @ destination) payload opts s1 in (s2, Some k, e)))"

text \<open>The wait of \<open>RequestResponse\<close>: the error of a context that is done, or what the channel of
  the subscription gives, which is nil when it is closed; \<open>None\<close> while it waits.\<close>

definition awaitResponse :: "err option \<Rightarrow> ref \<Rightarrow> 'h bridge \<Rightarrow> 'h bridge \<times> message option res option" where
  "awaitResponse ended k s =
     (case ended of
        Some e \<Rightarrow> (s, Some (Inl e))
      | None \<Rightarrow> (case receiveFrom (cs_c (br_subs s ! k)) s of
                   (s1, None) \<Rightarrow> (s1, None)
                 | (s1, Some m) \<Rightarrow> (s1, Some (Inr m))))"

text \<open>\<open>RequestResponse\<close> up to its wait: the subscription it then waits for, or the error. Without a
  destination in the context it panics (\<open>None\<close>).\<close>

definition RequestResponse ::
  "'h headerOps \<Rightarrow> (uuid \<Rightarrow> string) \<Rightarrow> bool \<Rightarrow> string option \<Rightarrow> string \<Rightarrow> ('h stompFrame \<Rightarrow> 'h stompFrame) list \<Rightarrow> uuid
     \<Rightarrow> 'h bridge \<Rightarrow> 'h bridge \<times> ref res option" where
  "RequestResponse ho showId ok dest payload opts newId s =
     (case dest of
        None \<Rightarrow> (s, None)
      | Some destination \<Rightarrow>
          (case BridgeSubscribe ho showId ok destination newId s of
             (s1, Inl e) \<Rightarrow> (s1, Some (Inl e))
           | (s1, Inr k) \<Rightarrow>
               (case SendJSONMessage ho (''/pub'' @ destination) payload opts s1 of
                  (s2, Some e) \<Rightarrow> (s2, Some (Inl e))
                | (s2, None) \<Rightarrow> (s2, Some (Inr k)))))"

text \<open>Over WebSocket the end is handed to the loop, for which the caller waits until the loop is
  ready to take it; then the socket is closed.\<close>

definition WsDisconnect :: "'h bridge \<Rightarrow> 'h bridge" where
  "WsDisconnect s = s\<lparr>br_loop := LoopEnded, br_alive := False\<rparr>"

definition cleanUpConnection :: "'h bridge \<Rightarrow> 'h bridge" where
  "cleanUpConnection s = s\<lparr>br_conn := False, br_wsConn := False\<rparr>"

definition BridgeDisconnect :: "'h bridge \<Rightarrow> 'h bridge" where
  "BridgeDisconnect s =
     (if br_useWs s then
        (if br_wsConn s \<and> br_connected s \<and> br_loop s = LoopIdle then cleanUpConnection (WsDisconnect s) else s)
      else if br_conn s then cleanUpConnection s else s)"

subsection \<open>The connector\<close>

definition effectiveHost :: "brokerConnectorConfig \<Rightarrow> string" where
  "effectiveHost config = (if bk_HostHeader config = [] then ''/'' else bk_HostHeader config)"

text \<open>The options that the STOMP library is given, and the connection; \<open>dialTCP\<close> answers with the error of
  \<open>stomp.Dial\<close> for an address and options.\<close>

datatype dialOption =
    DoLogin string string
  | DoHost string
  | DoHeartBeat int int
  | DoHeader string string

definition dialOptions :: "brokerConnectorConfig \<Rightarrow> dialOption list" where
  "dialOptions config =
     [DoLogin (bk_Username config) (bk_Password config), DoHost (effectiveHost config),
      DoHeartBeat (bk_HeartBeatOut config) (bk_HeartBeatIn config)] @
     map (\<lambda>(k, v). DoHeader k v) (bk_STOMPHeader config)"

definition connectTCP ::
  "(string \<Rightarrow> dialOption list \<Rightarrow> err option) \<Rightarrow> brokerConnectorConfig \<Rightarrow> 'h bridge res option" where
  "connectTCP dialTCP config =
     (case dialTCP (bk_ServerAddr config) (dialOptions config) of
        Some e \<Rightarrow> Some (Inl e)
      | None \<Rightarrow> Some (Inr (freshBridge False)))"

definition connectWs ::
  "'h headerOps \<Rightarrow> (string \<Rightarrow> string \<Rightarrow> string res) \<Rightarrow> err option \<Rightarrow> brokerConnectorConfig \<Rightarrow> 'h bridge res option" where
  "connectWs ho loadCert dial config =
     (case bk_WebSocketConfig config of
        None \<Rightarrow> None
      | Some w \<Rightarrow>
          (case ConnectWsClient ho loadCert dial config of
             None \<Rightarrow> None
           | Some (Inl e) \<Rightarrow> Some (Inl (''cannot connect to host '' @ squote (bk_ServerAddr config) @
                                        '' via path '' @ squote (ws_WSPath w) @ '', stopping''))
           | Some (Inr s) \<Rightarrow> Some (Inr s)))"

definition BrokerConnect ::
  "'h headerOps \<Rightarrow> (string \<Rightarrow> string \<Rightarrow> string res) \<Rightarrow> err option \<Rightarrow> (string \<Rightarrow> dialOption list \<Rightarrow> err option) \<Rightarrow>
   brokerConnectorConfig option \<Rightarrow> 'h bridge res option" where
  "BrokerConnect ho loadCert dial dialTCP config =
     (case checkConfig config of
        Inl e \<Rightarrow> Some (Inl e)
      | Inr c \<Rightarrow> if bk_UseWS c then connectWs ho loadCert dial c else connectTCP dialTCP c)"

subsection \<open>The connection as a machine\<close>

text \<open>\<open>BvLookup\<close> and \<open>BvCreate\<close> are the two critical sections of a \<open>Subscribe\<close> by the caller \<open>t\<close>;
  \<open>BvUnsubscribe\<close> and two \<open>BvFinish\<close> are those of an \<open>Unsubscribe\<close>.\<close>

datatype 'h bridgeEv =
    BvInbound "'h stompFrame"
  | BvLoop uuid
  | BvConnectReturns
  | BvLookup nat string
  | BvCreate nat uuid bool
  | BvUnsubscribe ref
  | BvFinish nat
  | BvSend string string string "('h stompFrame \<Rightarrow> 'h stompFrame) list"
  | BvRunSend nat
  | BvReceive ref
  | BvTcpFrame ref uuid "'h tcpFrame option"
  | BvSocketClosed
  | BvDisconnect

fun bridgeStep :: "'h headerOps \<Rightarrow> (uuid \<Rightarrow> string) \<Rightarrow> 'h bridge \<Rightarrow> 'h bridgeEv \<Rightarrow> 'h bridge" where
  "bridgeStep ho sh s (BvInbound f) = listenSocket (Some f) s"
| "bridgeStep ho sh s (BvLoop i) = loopStep ho i s"
| "bridgeStep ho sh s BvConnectReturns = connectReturns s"
| "bridgeStep ho sh s (BvLookup t d) =
     (case lookupSubscription d s of
        Some k \<Rightarrow> s
      | None \<Rightarrow> s\<lparr>br_subscribing := br_subscribing s @ [(t, d)]\<rparr>)"
| "bridgeStep ho sh s (BvCreate t i ok) =
     (case map_of (br_subscribing s) t of
        None \<Rightarrow> s
      | Some d \<Rightarrow> fst (createSubscription ho sh ok d i
                    (s\<lparr>br_subscribing := filter (\<lambda>p. fst p \<noteq> t) (br_subscribing s)\<rparr>)))"
| "bridgeStep ho sh s (BvUnsubscribe n) =
     (if n < length (br_subs s)
      then (if cs_stompTCPSub (br_subs s ! n) then unsubscribeTCP n s else markUnsubscribed n s) else s)"
| "bridgeStep ho sh s (BvFinish i) = finishUnsubscribe ho sh i s"
| "bridgeStep ho sh s (BvSend d ct p opts) = fst (BridgeSendMessage ho d ct p opts s)"
| "bridgeStep ho sh s (BvRunSend i) = runSend i s"
| "bridgeStep ho sh s (BvReceive c) = (if c < length (br_chans s) then fst (receiveFrom c s) else s)"
| "bridgeStep ho sh s (BvTcpFrame n i f) = (if n < length (br_subs s) then listenTCPFrames ho i n f s else s)"
| "bridgeStep ho sh s BvSocketClosed = s\<lparr>br_alive := False\<rparr>"
| "bridgeStep ho sh s BvDisconnect = BridgeDisconnect s"

end
