(* ===== verification/BridgeFacts.thy ===== *)
theory BridgeFacts
  imports Bridge StompConnFacts
begin

text \<open>
  What holds of a connection to a broker (theory \<open>Bridge\<close>): what the readers of a subscription
  get, what a reader that stops reading or an error frame holds up, and what a second
  \<open>Subscribe\<close> returns.
\<close>

subsection \<open>Fields that the operations leave alone\<close>

lemma SendWsFrame_fields [simp]:
  "br_useWs (SendWsFrame f s) = br_useWs s" "br_conn (SendWsFrame f s) = br_conn s" "br_wsConn (SendWsFrame f s) = br_wsConn s"
  "br_subscriptions (SendWsFrame f s) = br_subscriptions s" "br_subs (SendWsFrame f s) = br_subs s"
  "br_Subscriptions (SendWsFrame f s) = br_Subscriptions s" "br_wsSubs (SendWsFrame f s) = br_wsSubs s"
  "br_chans (SendWsFrame f s) = br_chans s" "br_loop (SendWsFrame f s) = br_loop s" "br_connected (SendWsFrame f s) = br_connected s"
  "br_waiting (SendWsFrame f s) = br_waiting s" "br_inbox (SendWsFrame f s) = br_inbox s" "br_seen (SendWsFrame f s) = br_seen s"
  "br_subscribing (SendWsFrame f s) = br_subscribing s" "br_unsubscribing (SendWsFrame f s) = br_unsubscribing s"
  "br_alive (SendWsFrame f s) = br_alive s" "br_panic (SendWsFrame f s) = br_panic s"
  by (simp_all add: SendWsFrame_def)

subsection \<open>The objects of a connection\<close>

text \<open>Each subscription of the client has a channel of its own, which is closed only after the
  subscription has been marked; the client's map names a subscription of that destination; a
  subscription of the connection is over TCP or names one of the client.\<close>

definition wsOk :: "bridgeClientSub list \<Rightarrow> msgChan list \<Rightarrow> bool" where
  "wsOk W C \<longleftrightarrow>
     (\<forall>j < length W. bs_C (W ! j) < length C \<and> (gc_closed (C ! bs_C (W ! j)) \<longrightarrow> \<not> bs_subscribed (W ! j)) \<and>
        (\<forall>i < length W. bs_C (W ! i) = bs_C (W ! j) \<longrightarrow> i = j))"

definition subsOk :: "connSubscription list \<Rightarrow> bridgeClientSub list \<Rightarrow> msgChan list \<Rightarrow> bool" where
  "subsOk S W C \<longleftrightarrow>
     (\<forall>n < length S. cs_c (S ! n) < length C \<and>
        (case cs_wsStompSub (S ! n) of
           None \<Rightarrow> cs_stompTCPSub (S ! n) \<and> (\<forall>j < length W. bs_C (W ! j) \<noteq> cs_c (S ! n))
         | Some k \<Rightarrow> \<not> cs_stompTCPSub (S ! n) \<and> k < length W \<and> cs_c (S ! n) = bs_C (W ! k)))"

definition mapOk :: "(string, ref) gomap \<Rightarrow> bridgeClientSub list \<Rightarrow> bool" where
  "mapOk M W \<longleftrightarrow> (\<forall>d j. gm_get M d = Some j \<longrightarrow> j < length W \<and> bs_Destination (W ! j) = d)"

definition loopOk :: "loopPc \<Rightarrow> bridgeClientSub list \<Rightarrow> bool" where
  "loopOk l W \<longleftrightarrow> (case l of LoopSending j m \<Rightarrow> j < length W | _ \<Rightarrow> True)"

definition marksOk :: "(ref \<times> bool) list \<Rightarrow> connSubscription list \<Rightarrow> bridgeClientSub list \<Rightarrow> bool" where
  "marksOk U S W \<longleftrightarrow>
     (\<forall>p \<in> set U. fst p < length S \<and>
        (\<forall>k. cs_wsStompSub (S ! fst p) = Some k \<longrightarrow> k < length W \<and> \<not> bs_subscribed (W ! k)))"

definition objectsOk :: "'h bridge \<Rightarrow> bool" where
  "objectsOk s \<longleftrightarrow>
     wsOk (br_wsSubs s) (br_chans s) \<and> subsOk (br_subs s) (br_wsSubs s) (br_chans s) \<and>
     mapOk (br_Subscriptions s) (br_wsSubs s) \<and> loopOk (br_loop s) (br_wsSubs s) \<and>
     marksOk (br_unsubscribing s) (br_subs s) (br_wsSubs s)"

lemma loopOk_simps [simp]:
  "loopOk LoopIdle W" "loopOk LoopConnecting W" "loopOk LoopStuck W" "loopOk LoopEnded W"
  "loopOk (LoopSending j m) W = (j < length W)"
  by (simp_all add: loopOk_def)

lemma nth_upd: "xs[k := v] ! n = (if n = k \<and> n < length xs then v else xs ! n)"
  by (cases "n = k") (auto simp: list_update_beyond)

lemma wsOk_append: "wsOk W C \<Longrightarrow> bs_C b = length C \<Longrightarrow> wsOk (W @ [b]) (C @ [newChan])"
  unfolding wsOk_def by (auto simp: nth_append newChan_def)

lemma wsOk_chan_append: "wsOk W C \<Longrightarrow> wsOk W (C @ [c])"
  unfolding wsOk_def by (auto simp: nth_append less_Suc_eq)

lemma wsOk_chan_update:
  "wsOk W C \<Longrightarrow> gc_closed ch = gc_closed (C ! c) \<Longrightarrow> wsOk W (C[c := ch])"
  unfolding wsOk_def by (auto simp: nth_upd)

lemma wsOk_close:
  "wsOk W C \<Longrightarrow> (\<And>j. j < length W \<Longrightarrow> bs_C (W ! j) = c \<Longrightarrow> \<not> bs_subscribed (W ! j)) \<Longrightarrow> wsOk W (C[c := ch])"
  unfolding wsOk_def by (auto simp: nth_upd)

lemma wsOk_mark: "wsOk W C \<Longrightarrow> wsOk (W[k := (W ! k)\<lparr>bs_subscribed := False\<rparr>]) C"
  unfolding wsOk_def by (auto simp: nth_upd)

lemma subsOk_chans: "subsOk S W C \<Longrightarrow> length C' \<ge> length C \<Longrightarrow> subsOk S W C'"
  unfolding subsOk_def by (auto split: option.splits dest: less_le_trans)

lemma subsOk_mark: "subsOk S W C \<Longrightarrow> subsOk S (W[k := (W ! k)\<lparr>bs_subscribed := False\<rparr>]) C"
  unfolding subsOk_def by (auto simp: nth_upd split: option.splits)

lemma subsOk_listener: "subsOk S W C \<Longrightarrow> subsOk (S[k := (S ! k)\<lparr>cs_listener := l\<rparr>]) W C"
  unfolding subsOk_def by (auto simp: nth_upd split: option.splits)

lemma subsOk_newWs:
  "subsOk S W C \<Longrightarrow> bs_C b = length C \<Longrightarrow> \<not> cs_stompTCPSub x \<Longrightarrow> cs_wsStompSub x = Some (length W) \<Longrightarrow> cs_c x = length C \<Longrightarrow>
   subsOk (S @ [x]) (W @ [b]) (C @ [newChan])"
  unfolding subsOk_def by (auto simp: nth_append less_Suc_eq split: option.splits)

lemma subsOk_newTCP:
  "subsOk S W C \<Longrightarrow> wsOk W C \<Longrightarrow> cs_stompTCPSub x \<Longrightarrow> cs_wsStompSub x = None \<Longrightarrow> cs_c x = length C \<Longrightarrow>
   subsOk (S @ [x]) W (C @ [newChan])"
  unfolding subsOk_def wsOk_def by (fastforce simp: nth_append less_Suc_eq split: option.splits)

lemma mapOk_append: "mapOk M W \<Longrightarrow> bs_Destination b = d \<Longrightarrow> mapOk (gm_set d (length W) M) (W @ [b])"
  unfolding mapOk_def by (fastforce simp: nth_append less_Suc_eq split: if_splits)

lemma mapOk_mark: "mapOk M W \<Longrightarrow> mapOk M (W[k := (W ! k)\<lparr>bs_subscribed := False\<rparr>])"
  unfolding mapOk_def by (auto simp: nth_upd)

lemma loopOk_append: "loopOk l W \<Longrightarrow> loopOk l (W @ [b])"
  by (cases l) auto

lemma loopOk_length: "loopOk l W \<Longrightarrow> length W' = length W \<Longrightarrow> loopOk l W'"
  by (cases l) auto

lemma marksOk_append: "marksOk U S W \<Longrightarrow> marksOk U (S @ X) (W @ Y)"
  unfolding marksOk_def by (fastforce simp: nth_append)

lemma marksOk_subset: "marksOk U S W \<Longrightarrow> set U' \<subseteq> set U \<Longrightarrow> marksOk U' S W"
  unfolding marksOk_def by blast

lemma marksOk_mark: "marksOk U S W \<Longrightarrow> marksOk U S (W[k := (W ! k)\<lparr>bs_subscribed := False\<rparr>])"
  unfolding marksOk_def by (auto simp: nth_upd)

lemma marksOk_listener: "marksOk U S W \<Longrightarrow> marksOk U (S[k := (S ! k)\<lparr>cs_listener := l\<rparr>]) W"
  unfolding marksOk_def by (auto simp: nth_upd)

lemmas objects_intros = wsOk_append wsOk_chan_append wsOk_mark subsOk_mark subsOk_listener mapOk_append mapOk_mark
  loopOk_append marksOk_mark marksOk_listener

lemma objectsOk_cong:
  assumes "objectsOk s" and "br_wsSubs t = br_wsSubs s" and "br_chans t = br_chans s" and "br_subs t = br_subs s"
    and "br_Subscriptions t = br_Subscriptions s" and "loopOk (br_loop t) (br_wsSubs s)"
    and "set (br_unsubscribing t) \<subseteq> set (br_unsubscribing s)"
  shows "objectsOk t"
proof -
  have "marksOk (br_unsubscribing t) (br_subs s) (br_wsSubs s)"
    by (rule marksOk_subset [OF _ assms(7)]) (use assms(1) in \<open>simp add: objectsOk_def\<close>)
  then show ?thesis using assms(1-6) by (simp add: objectsOk_def)
qed

lemma objectsOk_loop: "objectsOk s \<Longrightarrow> loopOk (br_loop s) (br_wsSubs s)"
  by (simp add: objectsOk_def)

subsection \<open>Every operation keeps the objects\<close>

lemma createSubscription_ok:
  assumes "objectsOk s"
  shows "objectsOk (fst (createSubscription ho sh ok d i s))"
proof -
  have ws: "objectsOk (fst (subscribeWs ho sh d i s))"
    using assms unfolding objectsOk_def subscribeWs_def WsSubscribe_def
    by (auto simp: Let_def intro: objects_intros subsOk_newWs marksOk_append)
  have "marksOk (br_unsubscribing s) (br_subs s @ [x]) (br_wsSubs s)" for x
    using assms marksOk_append [where X = "[x]" and Y = "[]"] by (simp add: objectsOk_def)
  then have "objectsOk (fst (subscribeTCP ok d i s))"
    using assms unfolding objectsOk_def subscribeTCP_def by (auto simp: Let_def intro: objects_intros subsOk_newTCP)
  then show ?thesis using ws by (simp add: createSubscription_def)
qed

lemma receiveFrom_ok: "objectsOk s \<Longrightarrow> objectsOk (fst (receiveFrom c s))"
proof -
  assume ok: "objectsOk s"
  have got: "objectsOk (updChan c (\<lambda>ch. ch\<lparr>gc_received := gc_received ch @ [m]\<rparr>) u)" if "objectsOk u" for u :: "'a bridge" and m
    using that unfolding objectsOk_def updChan_def
    by (auto intro: wsOk_chan_update subsOk_chans)
  have idle: "objectsOk (updSub k (\<lambda>b. b\<lparr>cs_listener := TcpIdle\<rparr>) s)" for k
    using ok unfolding objectsOk_def updSub_def by (auto intro: objects_intros)
  have loop: "objectsOk (s\<lparr>br_loop := LoopIdle\<rparr>)"
    using ok by (rule objectsOk_cong) auto
  show ?thesis
    by (auto simp: receiveFrom_def Let_def ok got [OF idle] got [OF loop] split: option.splits loopPc.splits)
qed

lemma loopFrame_fields [simp]:
  "br_wsSubs (loopFrame ho i f s) = br_wsSubs s" "br_chans (loopFrame ho i f s) = br_chans s"
  "br_subs (loopFrame ho i f s) = br_subs s" "br_Subscriptions (loopFrame ho i f s) = br_Subscriptions s"
  "br_unsubscribing (loopFrame ho i f s) = br_unsubscribing s" "br_seen (loopFrame ho i f s) = br_seen s"
  "br_subscriptions (loopFrame ho i f s) = br_subscriptions s" "br_subscribing (loopFrame ho i f s) = br_subscribing s"
  by (simp_all add: loopFrame_def Let_def split: option.split)

lemma loopFrame_ok:
  assumes "objectsOk s"
  shows "objectsOk (loopFrame ho i f s)"
proof (rule objectsOk_cong [OF assms])
  show "loopOk (br_loop (loopFrame ho i f s)) (br_wsSubs s)"
    using assms unfolding objectsOk_def mapOk_def loopFrame_def by (auto simp: Let_def split: option.splits)
qed simp_all

lemma loopStep_ok:
  assumes "objectsOk s"
  shows "objectsOk (loopStep ho i s)"
proof -
  have "objectsOk (s\<lparr>br_inbox := fs, br_seen := x\<rparr>)" for fs x
    using assms by (rule objectsOk_cong) (simp_all add: objectsOk_loop [OF assms])
  then show ?thesis using assms by (simp add: loopStep_def loopFrame_ok split: loopPc.splits list.splits)
qed

lemma br_wsSubs_updSub: "br_wsSubs (updSub k g s) = br_wsSubs s"
  by (simp add: updSub_def)

lemma updSub_listener_ok: "objectsOk s \<Longrightarrow> objectsOk (updSub k (\<lambda>b. b\<lparr>cs_listener := g b\<rparr>) s)"
  unfolding objectsOk_def updSub_def by (auto intro: objects_intros)

lemma closeChan_ok:
  assumes "objectsOk s" and "\<And>j. j < length (br_wsSubs s) \<Longrightarrow> bs_C (br_wsSubs s ! j) = c \<Longrightarrow> \<not> bs_subscribed (br_wsSubs s ! j)"
  shows "objectsOk (closeChan c s)"
  using assms unfolding objectsOk_def closeChan_def updChan_def
  by (auto intro: wsOk_close subsOk_chans)

lemma unsubscribeTCP_ok:
  assumes "objectsOk s" and "n < length (br_subs s)" and "cs_stompTCPSub (br_subs s ! n)"
  shows "objectsOk (unsubscribeTCP n s)"
proof -
  have c: "\<forall>j < length (br_wsSubs s). bs_C (br_wsSubs s ! j) \<noteq> cs_c (br_subs s ! n)"
    using assms unfolding objectsOk_def subsOk_def by (auto split: option.splits)
  have "objectsOk (closeChan (cs_c (br_subs s ! n)) u)" if "objectsOk u" and "br_wsSubs u = br_wsSubs s" for u :: "'a bridge"
    by (rule closeChan_ok [OF that(1)]) (use c that(2) in auto)
  then show ?thesis
    unfolding unsubscribeTCP_def Let_def
    by (cases "cs_listener (br_subs s ! n)") (simp_all add: updSub_listener_ok assms(1) br_wsSubs_updSub)
qed

lemma markUnsubscribed_ok:
  assumes "objectsOk s" and "n < length (br_subs s)"
  shows "objectsOk (markUnsubscribed n s)"
proof (cases "cs_wsStompSub (br_subs s ! n)")
  case (Some k)
  then have k: "k < length (br_wsSubs s)" using assms unfolding objectsOk_def subsOk_def by (auto split: option.splits)
  have "marksOk (br_unsubscribing s @ [(n, False)]) (br_subs s) ((br_wsSubs s)[k := (br_wsSubs s ! k)\<lparr>bs_subscribed := False\<rparr>])"
    using assms Some k unfolding objectsOk_def marksOk_def by (simp add: nth_upd)
  then show ?thesis
    using assms Some unfolding objectsOk_def markUnsubscribed_def updWsSub_def
    by (simp add: wsOk_mark subsOk_mark mapOk_mark) (metis loopOk_length length_list_update)
qed (use assms in \<open>simp add: markUnsubscribed_def\<close>)

lemma finishUnsubscribe_ok:
  assumes "objectsOk s"
  shows "objectsOk (finishUnsubscribe ho sh i s)"
proof (cases "i < length (br_unsubscribing s)")
  case True
  obtain n w where p: "br_unsubscribing s ! i = (n, w)" by (cases "br_unsubscribing s ! i")
  have mark: "n < length (br_subs s)" "\<And>k. cs_wsStompSub (br_subs s ! n) = Some k \<Longrightarrow> \<not> bs_subscribed (br_wsSubs s ! k)"
    using assms True p nth_mem [OF True] unfolding objectsOk_def marksOk_def by fastforce+
  show ?thesis
  proof (cases "cs_wsStompSub (br_subs s ! n)")
    case (Some k)
    have c: "\<not> bs_subscribed (br_wsSubs s ! j)"
      if "j < length (br_wsSubs s)" "bs_C (br_wsSubs s ! j) = cs_c (br_subs s ! n)" for j
    proof -
      have "k < length (br_wsSubs s)" "cs_c (br_subs s ! n) = bs_C (br_wsSubs s ! k)"
        using assms mark(1) Some unfolding objectsOk_def subsOk_def by (auto split: option.splits)
      then have "j = k" using assms that unfolding objectsOk_def wsOk_def by metis
      then show ?thesis using mark(2) Some by blast
    qed
    have sub: "set (take i (br_unsubscribing s) @ drop (Suc i) (br_unsubscribing s)) \<subseteq> set (br_unsubscribing s)"
      by (auto dest: in_set_takeD in_set_dropD)
    have u: "objectsOk (s\<lparr>br_unsubscribing := take i (br_unsubscribing s) @ drop (Suc i) (br_unsubscribing s)\<rparr>)"
      using assms by (rule objectsOk_cong) (use sub objectsOk_loop [OF assms] in auto)
    have "marksOk ((br_unsubscribing s)[i := (n, True)]) (br_subs s) (br_wsSubs s)"
      using assms mark unfolding objectsOk_def marksOk_def subsOk_def
      by (auto dest!: set_update_subset_insert [THEN subsetD] split: option.splits)
    then have v: "objectsOk (SendWsFrame f (s\<lparr>br_unsubscribing := (br_unsubscribing s)[i := (n, True)]\<rparr>))" for f
      using assms by (simp add: objectsOk_def)
    have "objectsOk (closeChan (cs_c (br_subs s ! n))
        (s\<lparr>br_unsubscribing := take i (br_unsubscribing s) @ drop (Suc i) (br_unsubscribing s)\<rparr>))"
      by (rule closeChan_ok [OF u]) (use c in simp)
    with v show ?thesis using True p Some by (simp add: finishUnsubscribe_def Let_def)
  qed (use True p assms in \<open>simp add: finishUnsubscribe_def Let_def\<close>)
qed (use assms in \<open>simp add: finishUnsubscribe_def\<close>)

lemma bridgeStep_ok: "objectsOk s \<Longrightarrow> objectsOk (bridgeStep ho sh s e)"
proof (cases e)
  case (BvTcpFrame n i f)
  assume "objectsOk s"
  then show ?thesis
    using BvTcpFrame by (auto simp: listenTCPFrames_def intro!: updSub_listener_ok split: tcpPc.splits option.splits)
next
  case (BvUnsubscribe n)
  assume "objectsOk s"
  then show ?thesis using BvUnsubscribe by (simp add: unsubscribeTCP_ok markUnsubscribed_ok)
next
  case (BvCreate t i ok)
  assume ok: "objectsOk s"
  have "objectsOk (s\<lparr>br_subscribing := x\<rparr>)" for x
    using ok by (rule objectsOk_cong) (simp_all add: objectsOk_loop [OF ok])
  then show ?thesis using BvCreate ok by (simp add: createSubscription_ok split: option.split)
next
  case (BvSend d ct p opts)
  assume ok: "objectsOk s"
  show ?thesis using ok
    by (rule objectsOk_cong) (simp_all add: BvSend BridgeSendMessage_def WsSend_def Let_def objectsOk_loop [OF ok])
next
  case (BvRunSend i)
  assume ok: "objectsOk s"
  show ?thesis using ok
    by (rule objectsOk_cong) (simp_all add: BvRunSend runSend_def objectsOk_loop [OF ok])
next
  case BvDisconnect
  assume ok: "objectsOk s"
  show ?thesis using ok
    by (rule objectsOk_cong) (simp_all add: BvDisconnect BridgeDisconnect_def WsDisconnect_def cleanUpConnection_def objectsOk_loop [OF ok])
next
  case BvConnectReturns
  assume ok: "objectsOk s"
  show ?thesis using ok
    by (rule objectsOk_cong) (simp_all add: BvConnectReturns connectReturns_def objectsOk_loop [OF ok])
next
  case (BvLookup t d)
  assume ok: "objectsOk s"
  show ?thesis using ok
    by (rule objectsOk_cong) (simp_all add: BvLookup objectsOk_loop [OF ok] split: option.split)
next
  case (BvInbound f)
  assume ok: "objectsOk s"
  show ?thesis using ok by (rule objectsOk_cong) (simp_all add: BvInbound objectsOk_loop [OF ok])
next
  case BvSocketClosed
  assume ok: "objectsOk s"
  show ?thesis using ok by (rule objectsOk_cong) (simp_all add: BvSocketClosed objectsOk_loop [OF ok])
qed (simp_all add: loopStep_ok finishUnsubscribe_ok receiveFrom_ok)

interpretation bridge: machine "bridgeStep ho sh" objectsOk for ho sh
  by unfold_locales (rule bridgeStep_ok)

lemma freshBridge_ok: "objectsOk (freshBridge useWs)"
  by (simp add: objectsOk_def freshBridge_def wsOk_def subsOk_def mapOk_def marksOk_def)

subsection \<open>What a subscription's readers get\<close>

definition isFor :: "'h headerOps \<Rightarrow> string \<Rightarrow> 'h stompFrame \<Rightarrow> bool" where
  "isFor ho d f \<longleftrightarrow> fr_Command f = ''MESSAGE'' \<and> ho_get ho (fr_Header f) ''destination'' = d"

text \<open>The payloads handed to the readers of a client's subscription, with the one that waits for a
  reader, and the bodies of the frames for a destination that the loop has handled after the first
  \<open>n\<close>.\<close>

definition handed :: "ref \<Rightarrow> 'h bridge \<Rightarrow> gval list" where
  "handed k s =
     map m_Payload (gc_received (br_chans s ! bs_C (br_wsSubs s ! k))) @
     (case br_loop s of LoopSending j m \<Rightarrow> if j = k then [m_Payload m] else [] | _ \<Rightarrow> [])"

definition wanted :: "'h headerOps \<Rightarrow> string \<Rightarrow> nat \<Rightarrow> 'h bridge \<Rightarrow> gval list" where
  "wanted ho d n s = map (\<lambda>f. GBytes (fr_Body f)) (filter (isFor ho d) (drop n (br_seen s)))"

text \<open>The client's map names the subscription, and it has not been unsubscribed.\<close>

definition listens :: "ref \<Rightarrow> 'h bridge \<Rightarrow> bool" where
  "listens k s \<longleftrightarrow> gm_get (br_Subscriptions s) (bs_Destination (br_wsSubs s ! k)) = Some k \<and> bs_subscribed (br_wsSubs s ! k)"

definition orderInv :: "'h headerOps \<Rightarrow> ref \<Rightarrow> string \<Rightarrow> nat \<Rightarrow> 'h bridge \<Rightarrow> bool" where
  "orderInv ho k d n s \<longleftrightarrow>
     objectsOk s \<and> k < length (br_wsSubs s) \<and> bs_Destination (br_wsSubs s ! k) = d \<and> n \<le> length (br_seen s) \<and>
     (listens k s \<longrightarrow> handed k s = wanted ho d n s)"

text \<open>A step that does not concern the subscription.\<close>

definition quiet :: "ref \<Rightarrow> 'h bridge \<Rightarrow> 'h bridge \<Rightarrow> bool" where
  "quiet k s t \<longleftrightarrow>
     k < length (br_wsSubs t) \<and> bs_Destination (br_wsSubs t ! k) = bs_Destination (br_wsSubs s ! k) \<and>
     (listens k t \<longrightarrow> listens k s) \<and> handed k t = handed k s \<and> br_seen t = br_seen s"

lemma quiet_inv: "orderInv ho k d n s \<Longrightarrow> objectsOk t \<Longrightarrow> quiet k s t \<Longrightarrow> orderInv ho k d n t"
  unfolding orderInv_def quiet_def by (auto simp: wanted_def)

lemma quiet_same:
  assumes "k < length (br_wsSubs s)" and "br_wsSubs t = br_wsSubs s" and "br_Subscriptions t = br_Subscriptions s"
    and "br_chans t = br_chans s" and "br_loop t = br_loop s \<or> (\<forall>m. br_loop s \<noteq> LoopSending k m) \<and> (\<forall>m. br_loop t \<noteq> LoopSending k m)"
    and "br_seen t = br_seen s"
  shows "quiet k s t"
  using assms unfolding quiet_def listens_def handed_def by (auto split: loopPc.splits)

lemma quiet_trans: "quiet k s t \<Longrightarrow> quiet k t u \<Longrightarrow> quiet k s u"
  unfolding quiet_def by auto

lemma quiet_closeChan: "k < length (br_wsSubs s) \<Longrightarrow> quiet k s (closeChan c s)"
  by (auto simp: quiet_def closeChan_def updChan_def listens_def handed_def nth_upd)

lemma quiet_create:
  assumes "objectsOk s" and k: "k < length (br_wsSubs s)"
  shows "quiet k s (fst (createSubscription ho sh ok d i s))"
proof -
  have "bs_C (br_wsSubs s ! k) < length (br_chans s)" using assms unfolding objectsOk_def wsOk_def by blast
  then have "quiet k s (fst (subscribeWs ho sh d i s))" and "quiet k s (fst (subscribeTCP ok d i s))"
    using k by (auto simp: quiet_def subscribeWs_def WsSubscribe_def subscribeTCP_def Let_def listens_def handed_def nth_append
        split: if_splits)
  then show ?thesis by (simp add: createSubscription_def)
qed

lemma quiet_mark: "k < length (br_wsSubs s) \<Longrightarrow> quiet k s (markUnsubscribed n s)"
  by (auto simp: markUnsubscribed_def quiet_def listens_def handed_def updWsSub_def nth_upd split: option.splits)

lemma quiet_receive:
  assumes ok: "objectsOk s" and k: "k < length (br_wsSubs s)"
  shows "quiet k s (fst (receiveFrom c s))"
proof -
  let ?got = "\<lambda>m. updChan c (\<lambda>ch. ch\<lparr>gc_received := gc_received ch @ [m]\<rparr>)"
  have C: "bs_C (br_wsSubs s ! k) < length (br_chans s)" using ok k unfolding objectsOk_def wsOk_def by blast
  have tcp: "quiet k s (?got m (updSub j (\<lambda>b. b\<lparr>cs_listener := TcpIdle\<rparr>) s))" if sender: "tcpSender c s = Some (j, m)" for j m
  proof -
    obtain n where n: "n < length (br_subs s)" "cs_stompTCPSub (br_subs s ! n)" "cs_c (br_subs s ! n) = c"
    proof -
      have "filter (\<lambda>k. cs_stompTCPSub (br_subs s ! k) \<and> cs_c (br_subs s ! k) = c \<and>
                       (case cs_listener (br_subs s ! k) of TcpSending m \<Rightarrow> True | _ \<Rightarrow> False)) [0..<length (br_subs s)] \<noteq> []"
        using sender by (auto simp: tcpSender_def)
      then show ?thesis using that by (auto simp: filter_empty_conv)
    qed
    then have "bs_C (br_wsSubs s ! k) \<noteq> c"
      using ok k unfolding objectsOk_def subsOk_def by (auto split: option.splits)
    then show ?thesis
      using k by (auto simp: quiet_def updChan_def updSub_def listens_def handed_def nth_upd)
  qed
  have loop: "quiet k s (?got m (s\<lparr>br_loop := LoopIdle\<rparr>))"
    if "br_loop s = LoopSending j m" and "bs_C (br_wsSubs s ! j) = c" for j m
  proof -
    have j: "j < length (br_wsSubs s)" using objectsOk_loop [OF ok] that by simp
    have "j = k" if "bs_C (br_wsSubs s ! k) = c"
      using ok j k that \<open>bs_C (br_wsSubs s ! j) = c\<close> unfolding objectsOk_def wsOk_def by metis
    then show ?thesis
      using k C that by (auto simp: quiet_def updChan_def listens_def handed_def nth_upd)
  qed
  have "quiet k s s" using k by (intro quiet_same) simp_all
  then show ?thesis
    by (auto simp: receiveFrom_def Let_def tcp loop split: option.splits loopPc.splits)
qed

lemma quiet_finish:
  assumes k: "k < length (br_wsSubs s)"
  shows "quiet k s (finishUnsubscribe ho sh i s)"
proof -
  have "quiet k s (closeChan c (s\<lparr>br_unsubscribing := x\<rparr>))" and "quiet k s (SendWsFrame f (s\<lparr>br_unsubscribing := x\<rparr>))" for c x f
    using k by (auto intro: quiet_same intro!: quiet_trans [OF quiet_same quiet_closeChan])
  moreover have "quiet k s s" using k by (intro quiet_same) simp_all
  ultimately show ?thesis by (simp add: finishUnsubscribe_def Let_def split: prod.split option.split)
qed

lemma quiet_unsubscribeTCP:
  assumes k: "k < length (br_wsSubs s)"
  shows "quiet k s (unsubscribeTCP n s)"
proof -
  have "quiet k s (updSub n g s)" and "quiet k s s" for g using k by (auto intro: quiet_same simp: updSub_def)
  moreover have "k < length (br_wsSubs (updSub n g s))" for g using k by (simp add: br_wsSubs_updSub)
  ultimately show ?thesis
    unfolding unsubscribeTCP_def Let_def
    by (auto intro: quiet_trans [OF _ quiet_closeChan] quiet_closeChan k split: tcpPc.split)
qed

lemma orderInv_loop:
  assumes inv: "orderInv ho k d n s"
  shows "orderInv ho k d n (loopStep ho i s)"
proof (cases "br_loop s = LoopIdle \<and> br_inbox s \<noteq> []")
  case True
  then obtain f fs where f: "br_inbox s = f # fs" "br_loop s = LoopIdle" by (cases "br_inbox s") auto
  let ?s = "s\<lparr>br_inbox := fs, br_seen := br_seen s @ [f]\<rparr>"
  have t: "loopStep ho i s = loopFrame ho i f ?s" using f by (simp add: loopStep_def)
  have ok: "objectsOk (loopStep ho i s)" using inv by (simp add: orderInv_def loopStep_ok)
  have w: "wanted ho d n (loopStep ho i s) = wanted ho d n s @ (if isFor ho d f then [GBytes (fr_Body f)] else [])"
    using inv unfolding t by (simp add: orderInv_def wanted_def)
  have "handed k (loopStep ho i s) = handed k s @ (if isFor ho d f then [GBytes (fr_Body f)] else [])"
    if l: "listens k (loopStep ho i s)"
  proof -
    have l': "listens k s" using l unfolding t by (simp add: listens_def)
    have open_k: "\<not> gc_closed (br_chans s ! bs_C (br_wsSubs s ! k))"
      using inv l' unfolding orderInv_def objectsOk_def wsOk_def listens_def by blast
    have other: "j \<noteq> k" if "gm_get (br_Subscriptions s) d' = Some j" and "d' \<noteq> d" for d' j
      using inv that unfolding orderInv_def objectsOk_def mapOk_def by blast
    have d: "gm_get (br_Subscriptions s) d = Some k" "bs_subscribed (br_wsSubs s ! k)" "bs_Destination (br_wsSubs s ! k) = d"
      using inv l' by (auto simp: orderInv_def listens_def)
    show ?thesis
      unfolding t using d open_k f
      by (auto simp: loopFrame_def isFor_def handed_def messageOf_def zeroConfig_def Let_def
          dest: other split: option.splits)
  qed
  moreover have "listens k (loopStep ho i s) = listens k s" unfolding t by (simp add: listens_def)
  ultimately show ?thesis using inv ok w unfolding orderInv_def t by auto
qed (use inv in \<open>auto simp: loopStep_def split: loopPc.splits list.splits\<close>)

lemma orderInv_step:
  assumes inv: "orderInv ho k d n s"
  shows "orderInv ho k d n (bridgeStep ho sh s e)"
proof (cases "\<exists>i. e = BvLoop i")
  case True
  then show ?thesis using inv orderInv_loop by auto
next
  case False
  have ok: "objectsOk s" and k: "k < length (br_wsSubs s)" using inv by (auto simp: orderInv_def)
  have refl: "quiet k s s" using k by (intro quiet_same) simp_all
  have "quiet k s (bridgeStep ho sh s e)"
  proof (cases e)
    case (BvCreate t i ok')
    have "objectsOk (s\<lparr>br_subscribing := x\<rparr>)" for x
      using ok by (rule objectsOk_cong) (simp_all add: objectsOk_loop [OF ok])
    then have "quiet k s (fst (createSubscription ho sh ok' d' i (s\<lparr>br_subscribing := x\<rparr>)))" for x d'
      using k by (intro quiet_trans [OF quiet_same quiet_create]) simp_all
    then show ?thesis using BvCreate refl by (simp split: option.split)
  next
    case (BvTcpFrame j i f)
    have "quiet k s (updSub j g s)" for g using k by (intro quiet_same) (simp_all add: updSub_def)
    then show ?thesis using BvTcpFrame refl by (simp add: listenTCPFrames_def split: tcpPc.split option.split)
  next
    case (BvLookup t d)
    then show ?thesis using refl k by (auto intro: quiet_same split: option.splits)
  next
    case (BvSend d' ct p opts)
    then show ?thesis using refl k by (auto simp: BridgeSendMessage_def WsSend_def Let_def intro: quiet_same)
  next
    case (BvRunSend i)
    then show ?thesis using refl k by (auto simp: runSend_def intro: quiet_same)
  next
    case BvDisconnect
    then show ?thesis using refl k by (auto simp: BridgeDisconnect_def WsDisconnect_def cleanUpConnection_def intro: quiet_same)
  next
    case BvConnectReturns
    then show ?thesis using refl k by (auto simp: connectReturns_def intro: quiet_same)
  qed (use False refl k in \<open>auto intro: quiet_same quiet_unsubscribeTCP quiet_mark quiet_finish quiet_receive [OF ok]\<close>)
  then show ?thesis using inv quiet_inv bridgeStep_ok [OF ok] by blast
qed

interpretation order: machine "bridgeStep ho sh" "orderInv ho k d n" for ho sh k d n
  by unfold_locales (rule orderInv_step)

subsection \<open>A loop that waits\<close>

definition waitsFor :: "ref \<Rightarrow> message \<Rightarrow> bridgeClientSub \<Rightarrow> 'h stompFrame list \<Rightarrow> bool \<Rightarrow> 'h bridge \<Rightarrow> bool" where
  "waitsFor k m sub seen conn s \<longleftrightarrow> br_useWs s \<and>
     br_loop s = LoopSending k m \<and> k < length (br_wsSubs s) \<and> br_wsSubs s ! k = sub \<and> br_seen s = seen \<and> br_wsConn s = conn"

lemma waitsFor_step:
  assumes "waitsFor k m sub seen conn s" and "e \<noteq> BvReceive (bs_C sub)"
  shows "waitsFor k m sub seen conn (bridgeStep ho sh s e)"
proof (cases e)
  case (BvReceive c)
  then show ?thesis using assms
    by (auto simp: waitsFor_def receiveFrom_def updChan_def updSub_def split: option.splits)
next
  case (BvUnsubscribe n)
  then show ?thesis using assms
    by (auto simp: waitsFor_def unsubscribeTCP_def markUnsubscribed_def closeChan_def updChan_def updSub_def updWsSub_def
        loopHolds_def Let_def nth_upd split: option.splits tcpPc.splits)
next
  case (BvFinish i)
  then show ?thesis using assms
    by (auto simp: waitsFor_def finishUnsubscribe_def closeChan_def updChan_def Let_def split: option.splits prod.splits)
next
  case (BvCreate t i ok)
  then show ?thesis using assms
    by (auto simp: waitsFor_def createSubscription_def subscribeWs_def WsSubscribe_def subscribeTCP_def Let_def nth_append
        split: option.splits)
next
  case (BvTcpFrame n i f)
  then show ?thesis using assms
    by (auto simp: waitsFor_def listenTCPFrames_def updSub_def split: option.splits tcpPc.splits)
qed (use assms in \<open>auto simp: waitsFor_def loopStep_def connectReturns_def BridgeSendMessage_def WsSend_def runSend_def
    BridgeDisconnect_def WsDisconnect_def cleanUpConnection_def Let_def split: option.splits\<close>)

definition stuckWith :: "'h stompFrame list \<Rightarrow> bool \<Rightarrow> 'h bridge \<Rightarrow> bool" where
  "stuckWith seen conn s \<longleftrightarrow> br_useWs s \<and> br_loop s = LoopStuck \<and> br_seen s = seen \<and> br_wsConn s = conn"

lemma stuckWith_step: "stuckWith seen conn s \<Longrightarrow> stuckWith seen conn (bridgeStep ho sh s e)"
proof (cases e)
  case (BvUnsubscribe n)
  assume "stuckWith seen conn s"
  then show ?thesis using BvUnsubscribe
    by (auto simp: stuckWith_def unsubscribeTCP_def markUnsubscribed_def closeChan_def updChan_def updSub_def updWsSub_def
        Let_def split: option.splits tcpPc.splits)
qed (auto simp: stuckWith_def loopStep_def connectReturns_def BridgeSendMessage_def WsSend_def runSend_def
    BridgeDisconnect_def WsDisconnect_def cleanUpConnection_def receiveFrom_def finishUnsubscribe_def closeChan_def updChan_def updSub_def createSubscription_def
    subscribeWs_def WsSubscribe_def listenTCPFrames_def Let_def split: option.splits prod.splits tcpPc.splits)

interpretation stuck: machine "bridgeStep ho sh" "stuckWith seen conn" for ho sh seen conn
  by unfold_locales (rule stuckWith_step)

subsection \<open>A closed subscription\<close>

definition closedFor :: "string \<Rightarrow> ref \<Rightarrow> 'h bridge \<Rightarrow> bool" where
  "closedFor d n s \<longleftrightarrow>
     lookupSubscription d s = Some n \<and> n < length (br_subs s) \<and> cs_c (br_subs s ! n) < length (br_chans s) \<and>
     gc_closed (br_chans s ! cs_c (br_subs s ! n)) \<and> d \<notin> snd ` set (br_subscribing s)"

lemma closedFor_step: "closedFor d n s \<Longrightarrow> closedFor d n (bridgeStep ho sh s e)"
proof (cases e)
  case (BvCreate t i ok)
  assume c: "closedFor d n s"
  have "d' \<noteq> d" if "map_of (br_subscribing s) t = Some d'" for d'
    using c map_of_SomeD [OF that] by (force simp: closedFor_def)
  then show ?thesis using BvCreate c
    by (auto simp: closedFor_def lookupSubscription_def createSubscription_def subscribeWs_def WsSubscribe_def subscribeTCP_def
        Let_def nth_append split: option.splits)
next
  case (BvUnsubscribe j)
  assume "closedFor d n s"
  then show ?thesis using BvUnsubscribe
    by (auto simp: closedFor_def lookupSubscription_def unsubscribeTCP_def markUnsubscribed_def closeChan_def updChan_def
        updSub_def updWsSub_def nth_upd Let_def split: option.splits tcpPc.splits)
next
  case (BvFinish j)
  assume "closedFor d n s"
  then show ?thesis using BvFinish
    by (auto simp: closedFor_def lookupSubscription_def finishUnsubscribe_def closeChan_def updChan_def nth_upd Let_def
        split: option.splits prod.splits)
next
  case (BvReceive c)
  assume "closedFor d n s"
  then show ?thesis using BvReceive
    by (auto simp: closedFor_def lookupSubscription_def receiveFrom_def updChan_def updSub_def nth_upd Let_def
        split: option.splits loopPc.splits)
next
  case (BvLoop i)
  assume "closedFor d n s"
  then show ?thesis using BvLoop
    by (auto simp: closedFor_def lookupSubscription_def loopStep_def split: list.splits loopPc.splits)
next
  case (BvTcpFrame j i f)
  assume "closedFor d n s"
  then show ?thesis using BvTcpFrame
    by (auto simp: closedFor_def lookupSubscription_def listenTCPFrames_def updSub_def nth_upd split: option.splits tcpPc.splits)
qed (auto simp: closedFor_def lookupSubscription_def connectReturns_def BridgeSendMessage_def WsSend_def runSend_def
    BridgeDisconnect_def WsDisconnect_def cleanUpConnection_def Let_def split: option.splits)

interpretation closedSub: machine "bridgeStep ho sh" "closedFor d n" for ho sh d n
  by unfold_locales (rule closedFor_step)

subsection \<open>Properties\<close>

text \<open>C5: on a WebSocket connection, in whatever order frames come in, callers subscribe, unsubscribe,
  send and disconnect and readers read, what the readers of a subscription have got, with the
  message that waits for a reader, is the bodies of the MESSAGE frames for its destination
  that were handled since it was made, each once and in the order of arrival, for as long as it is
  the client's subscription for that destination and is not unsubscribed.\<close>

theorem broker_messages_in_order:
  assumes "ConnectWsClient ho loadCert dial config = Some (Inr s)"
    and "subscribeWs ho sh d i (foldl (bridgeStep ho sh) s before) = (s1, Inr n)"
    and "cs_wsStompSub (br_subs s1 ! n) = Some k"
    and "s2 = foldl (bridgeStep ho sh) s1 after" and "listens k s2"
  shows "handed k s2 = wanted ho d (length (br_seen s1)) s2"
proof -
  let ?s0 = "foldl (bridgeStep ho sh) s before"
  have "objectsOk s"
    using assms(1) by (auto simp: ConnectWsClient_def Let_def objectsOk_def freshBridge_def wsOk_def subsOk_def
        mapOk_def marksOk_def split: option.splits if_splits)
  then have ok: "objectsOk ?s0" by (rule bridge.run_inv)
  have "br_wsConn ?s0" using assms(2) by (auto simp: subscribeWs_def split: if_splits)
  then have k: "k = length (br_wsSubs ?s0)" and s1: "length (br_wsSubs s1) = Suc k" "br_wsSubs s1 ! k =
      \<lparr>bs_Id = i, bs_Destination = d, bs_subscribed = True, bs_C = length (br_chans ?s0)\<rparr>"
    "br_chans s1 = br_chans ?s0 @ [newChan]" "br_loop s1 = br_loop ?s0"
    using assms(2,3) by (auto simp: subscribeWs_def WsSubscribe_def Let_def)
  have "createSubscription ho sh True d i (?s0\<lparr>br_useWs := True\<rparr>) = (s1\<lparr>br_useWs := True\<rparr>, Inr n)"
    using assms(2) \<open>br_wsConn ?s0\<close> by (auto simp: createSubscription_def subscribeWs_def WsSubscribe_def SendWsFrame_def Let_def)
  moreover have "objectsOk (?s0\<lparr>br_useWs := True\<rparr>)" using ok by (simp add: objectsOk_def)
  ultimately have "objectsOk (s1\<lparr>br_useWs := True\<rparr>)" using createSubscription_ok by (metis fst_conv)
  then have "objectsOk s1" by (simp add: objectsOk_def)
  moreover have "\<not> loopHolds k s1"
    using objectsOk_loop [OF ok] s1(4) k by (auto simp: loopHolds_def split: loopPc.splits)
  ultimately have "orderInv ho k d (length (br_seen s1)) s1"
    using s1 by (auto simp: orderInv_def handed_def wanted_def newChan_def loopHolds_def split: loopPc.splits)
  then have "orderInv ho k d (length (br_seen s1)) s2" unfolding assms(4) by (rule order.run_inv)
  then show ?thesis using assms(5) by (simp add: orderInv_def)
qed

definition demoBrokerConfig :: brokerConnectorConfig where
  "demoBrokerConfig = \<lparr>bk_Username = ''u'', bk_Password = ''p'', bk_ServerAddr = ''host:1'', bk_UseWS = True,
     bk_WebSocketConfig = Some \<lparr>ws_WSPath = ''/ws'', ws_UseTLS = False, ws_TLSConfig = None, ws_CertFile = [], ws_KeyFile = []\<rparr>,
     bk_HostHeader = [], bk_HeartBeatOut = 0, bk_HeartBeatIn = 0, bk_STOMPHeader = [], bk_HttpHeader = []\<rparr>"

definition demoFrame :: "string \<Rightarrow> string \<Rightarrow> string \<Rightarrow> (string \<times> string) list stompFrame" where
  "demoFrame cmd d body = \<lparr>fr_Command = cmd, fr_Header = [(''destination'', d)], fr_Body = body\<rparr>"

definition demoBridge :: "(string \<times> string) list bridge" where
  "demoBridge = SendWsFrame (wsConnectFrame listHeaders demoBrokerConfig) (freshBridge True)"

definition demoStart :: "(string \<times> string) list bridgeEv list" where
  "demoStart = [BvInbound (demoFrame ''CONNECTED'' [] []), BvLoop 1, BvConnectReturns]"

definition demoSubscribed :: "(string \<times> string) list bridge" where
  "demoSubscribed = fst (subscribeWs listHeaders (\<lambda>i. ''id'') ''/topic/a'' 2
     (foldl (bridgeStep listHeaders (\<lambda>i. ''id'')) demoBridge demoStart))"

definition demoTraffic :: "(string \<times> string) list bridgeEv list" where
  "demoTraffic = [BvInbound (demoFrame ''MESSAGE'' ''/topic/a'' ''one''), BvInbound (demoFrame ''MESSAGE'' ''/topic/b'' ''x''),
     BvInbound (demoFrame ''MESSAGE'' ''/topic/a'' ''two''), BvLoop 3, BvReceive 0, BvLoop 4, BvLoop 5]"

lemma broker_messages_in_order_witness:
  "handed 0 (foldl (bridgeStep listHeaders (\<lambda>i. ''id'')) demoSubscribed demoTraffic) =
     wanted listHeaders ''/topic/a'' (length (br_seen demoSubscribed))
       (foldl (bridgeStep listHeaders (\<lambda>i. ''id'')) demoSubscribed demoTraffic)"
proof (rule broker_messages_in_order)
  show "ConnectWsClient listHeaders (\<lambda>c k. Inl ''none'') None demoBrokerConfig = Some (Inr demoBridge)"
    by (simp add: ConnectWsClient_def demoBrokerConfig_def demoBridge_def)
  show "subscribeWs listHeaders (\<lambda>i. ''id'') ''/topic/a'' 2
      (foldl (bridgeStep listHeaders (\<lambda>i. ''id'')) demoBridge demoStart) = (demoSubscribed, Inr 0)"
    unfolding demoSubscribed_def
    by (simp add: demoBridge_def demoStart_def freshBridge_def demoFrame_def loopStep_def loopFrame_def connectReturns_def
        subscribeWs_def WsSubscribe_def SendWsFrame_def Let_def)
  show "cs_wsStompSub (br_subs demoSubscribed ! 0) = Some 0" by code_simp
  show "listens 0 (foldl (bridgeStep listHeaders (\<lambda>i. ''id'')) demoSubscribed demoTraffic)" by code_simp
qed (rule refl)

text \<open>A message whose subscription nobody reads holds up the whole connection: until somebody reads
  from that subscription no other frame is handled, an \<open>Unsubscribe\<close> of the subscription does
  not get its lock (it stays marked as it is), and a \<open>Disconnect\<close> does not end.\<close>

theorem unread_message_stalls_connection:
  assumes "br_loop s = LoopSending k m" and "k < length (br_wsSubs s)" and "br_useWs s"
    and "\<forall>e \<in> set es. e \<noteq> BvReceive (bs_C (br_wsSubs s ! k))"
  shows "br_loop (foldl (bridgeStep ho sh) s es) = LoopSending k m \<and> br_seen (foldl (bridgeStep ho sh) s es) = br_seen s \<and>
     br_wsSubs (foldl (bridgeStep ho sh) s es) ! k = br_wsSubs s ! k \<and>
     br_wsConn (foldl (bridgeStep ho sh) s es) = br_wsConn s"
proof -
  have "waitsFor k m (br_wsSubs s ! k) (br_seen s) (br_wsConn s) (foldl (bridgeStep ho sh) u es)"
    if "waitsFor k m (br_wsSubs s ! k) (br_seen s) (br_wsConn s) u" for u
    using assms(4) that by (induction es arbitrary: u) (auto simp: waitsFor_step)
  then show ?thesis using assms(1-3) by (simp add: waitsFor_def)
qed

definition demoStalled :: "(string \<times> string) list bridge" where
  "demoStalled = foldl (bridgeStep listHeaders (\<lambda>i. ''id'')) demoSubscribed demoTraffic"

lemma unread_message_stalls_connection_witness:
  "br_seen (foldl (bridgeStep listHeaders (\<lambda>i. ''id'')) demoStalled
     [BvInbound (demoFrame ''MESSAGE'' ''/topic/b'' ''y''), BvLoop 6, BvUnsubscribe 0, BvDisconnect]) = br_seen demoStalled"
proof (rule unread_message_stalls_connection [THEN conjunct2, THEN conjunct1])
  show "br_loop demoStalled = LoopSending 0 (messageOf 5 ''/topic/a'' (demoFrame ''MESSAGE'' ''/topic/a'' ''two''))"
    "0 < length (br_wsSubs demoStalled)" "br_useWs demoStalled" by code_simp+
qed simp

text \<open>An ERROR frame for the destination of a subscription stops the client for good: its error
  channel does not exist, so nothing is handled after it and no \<open>Disconnect\<close> ends.\<close>

theorem error_frame_stops_client:
  assumes "br_useWs s" and "br_loop s = LoopIdle" and "br_inbox s = f # fs" and "fr_Command f = ''ERROR''"
    and "gm_get (br_Subscriptions s) (ho_get ho (fr_Header f) ''destination'') = Some k"
  shows "br_loop (foldl (bridgeStep ho sh) (bridgeStep ho sh s (BvLoop i)) es) = LoopStuck \<and>
     br_seen (foldl (bridgeStep ho sh) (bridgeStep ho sh s (BvLoop i)) es) = br_seen s @ [f] \<and>
     br_wsConn (foldl (bridgeStep ho sh) (bridgeStep ho sh s (BvLoop i)) es) = br_wsConn s"
proof -
  have "stuckWith (br_seen s @ [f]) (br_wsConn s) (bridgeStep ho sh s (BvLoop i))"
    using assms by (simp add: stuckWith_def loopStep_def loopFrame_def)
  then have "stuckWith (br_seen s @ [f]) (br_wsConn s) (foldl (bridgeStep ho sh) (bridgeStep ho sh s (BvLoop i)) es)"
    by (rule stuck.run_inv)
  then show ?thesis by (simp add: stuckWith_def)
qed

definition demoError :: "(string \<times> string) list bridge" where
  "demoError = bridgeStep listHeaders (\<lambda>i. ''id'') demoSubscribed (BvInbound (demoFrame ''ERROR'' ''/topic/a'' ''bad''))"

lemma error_frame_stops_client_witness:
  "br_loop (foldl (bridgeStep listHeaders (\<lambda>i. ''id'')) (bridgeStep listHeaders (\<lambda>i. ''id'') demoError (BvLoop 3))
     [BvDisconnect, BvInbound (demoFrame ''MESSAGE'' ''/topic/a'' ''one''), BvLoop 4]) = LoopStuck"
proof (rule error_frame_stops_client [THEN conjunct1])
  show "br_useWs demoError" "br_loop demoError = LoopIdle"
    "br_inbox demoError = [demoFrame ''ERROR'' ''/topic/a'' ''bad'']"
    "fr_Command (demoFrame ''ERROR'' ''/topic/a'' ''bad'') = ''ERROR''"
    "gm_get (br_Subscriptions demoError) (ho_get listHeaders (fr_Header (demoFrame ''ERROR'' ''/topic/a'' ''bad'')) ''destination'') = Some 0"
    by code_simp+
qed

text \<open>A destination whose subscription has been closed stays closed: whatever happens on the
  connection, a later \<open>Subscribe\<close> returns the same closed subscription, writes no frame, and a
  reader gets nil from it at once.\<close>

theorem resubscribe_returns_closed:
  assumes "lookupSubscription d s = Some n" and "n < length (br_subs s)" and "cs_c (br_subs s ! n) < length (br_chans s)"
    and "gc_closed (br_chans s ! cs_c (br_subs s ! n))" and "d \<notin> snd ` set (br_subscribing s)"
    and "t = foldl (bridgeStep ho sh) s es"
  shows "BridgeSubscribe ho sh ok d i t = (t, Inr n) \<and> awaitResponse None n t = (t, Some (Inr None))"
proof -
  have "closedFor d n s" using assms(1-5) by (simp add: closedFor_def)
  then have "closedFor d n t" unfolding assms(6) by (rule closedSub.run_inv)
  then show ?thesis
    by (simp add: closedFor_def BridgeSubscribe_def awaitResponse_def receiveFrom_def)
qed

definition demoClosed :: "(string \<times> string) list bridge" where
  "demoClosed = foldl (bridgeStep listHeaders (\<lambda>i. ''id'')) demoSubscribed [BvUnsubscribe 0, BvFinish 0, BvFinish 0]"

lemma resubscribe_returns_closed_witness:
  "BridgeSubscribe listHeaders (\<lambda>i. ''id'') True ''/topic/a'' 9
       (foldl (bridgeStep listHeaders (\<lambda>i. ''id'')) demoClosed demoTraffic) =
     (foldl (bridgeStep listHeaders (\<lambda>i. ''id'')) demoClosed demoTraffic, Inr 0)"
proof (rule resubscribe_returns_closed [THEN conjunct1])
  show "lookupSubscription ''/topic/a'' demoClosed = Some 0" "0 < length (br_subs demoClosed)"
    "cs_c (br_subs demoClosed ! 0) < length (br_chans demoClosed)"
    "gc_closed (br_chans demoClosed ! cs_c (br_subs demoClosed ! 0))"
    "''/topic/a'' \<notin> snd ` set (br_subscribing demoClosed)"
    by code_simp+
qed (rule refl)

text \<open>Connecting fails in the code itself exactly when WebSocket is asked for without a WebSocket
  configuration; everything else is a connection or an error.\<close>

theorem connect_fails_without_ws_config:
  "(BrokerConnect ho loadCert dial dialTCP config = None) =
   (\<exists>c. config = Some c \<and> bk_ServerAddr c \<noteq> [] \<and> bk_UseWS c \<and> bk_WebSocketConfig c = None)"
  by (cases config) (auto simp: BrokerConnect_def checkConfig_def connectWs_def ConnectWsClient_def connectTCP_def
      LoadX509KeyPairFromFiles_def Let_def split: option.splits if_splits sum.splits)

text \<open>Two callers that subscribe to one destination at once get two subscriptions, of which the first
  is not the client's.\<close>

lemma concurrent_subscribe_loses_one:
  "let s = foldl (bridgeStep listHeaders (\<lambda>i. ''id'')) demoBridge
       (demoStart @ [BvLookup 1 ''/topic/a'', BvLookup 2 ''/topic/a'', BvCreate 1 2 True, BvCreate 2 3 True])
   in length (br_subs s) = 2 \<and> \<not> listens 0 s \<and> listens 1 s"
  by code_simp

text \<open>Two messages that one caller sends one after the other may be written the other way round.\<close>

lemma sends_may_be_reordered:
  "let s = foldl (bridgeStep listHeaders (\<lambda>i. ''id'')) demoBridge
       (demoStart @ [BvSend ''/pub/a'' [] ''first'' [], BvSend ''/pub/a'' [] ''second'' [], BvRunSend 1, BvRunSend 0])
   in map fr_Body (br_written s) = [[], ''second'', ''first'']"
  by code_simp

end
