(* ===== verification/Routing.thy ===== *)
theory Routing
  imports Http
begin

text \<open>
  plank/pkg/routing/router.go: named routes over \<open>http.ServeMux\<close>. A router is one value; its
  routes are named by their index. The handler that is registered for a route reads the
  router's handler for refused methods when it is called, so an entry of a multiplexer is the
  route's methods and its handler.
\<close>

subsection \<open>State\<close>

record route =
  rt_name :: string
  rt_path :: string
  rt_prefix :: bool
  rt_methods :: "string list"
  rt_handler :: "handlerVal option"

type_synonym muxEntry = "string list \<times> handlerVal"

record router =
  ro_routes :: "route list"
  ro_named :: "(string, nat) gomap"
  ro_middleware :: "middlewareFunc list"
  ro_NotFoundHandler :: "handlerVal option"
  ro_MethodNotAllowedHandler :: "handlerVal option"
  ro_muxes :: "(muxEntry mux \<times> unit mux) option"
  ro_dirty :: bool

definition NewRouter :: router where
  "NewRouter = \<lparr>ro_routes = [], ro_named = gm_empty, ro_middleware = [], ro_NotFoundHandler = None,
     ro_MethodNotAllowedHandler = None, ro_muxes = None, ro_dirty = True\<rparr>"

definition markDirtyLocked :: "router \<Rightarrow> router" where
  "markDirtyLocked r = r\<lparr>ro_dirty := True\<rparr>"

subsection \<open>Paths and patterns\<close>

definition normalizePath :: "string \<Rightarrow> string" where
  "normalizePath path =
     (if path = [] then ''/'' else if \<not> HasPrefix path ''/'' then ''/'' @ path else path)"

definition pathVariableName :: "string \<Rightarrow> string option" where
  "pathVariableName segment =
     (if length segment < 3 \<or> hd segment \<noteq> CHR ''{'' \<or> last segment \<noteq> CHR ''}'' then None
      else (let name = butlast (tl segment);
                name' = (case indexByte name (CHR '':'') of Some i \<Rightarrow> take i name | None \<Rightarrow> name)
            in if name' = [] then None else Some name'))"

definition serveMuxPathTemplate :: "string \<Rightarrow> string" where
  "serveMuxPathTemplate path0 =
     (let path = normalizePath path0 in
      if path = ''/'' then ''/''
      else joinWith ''/'' (map (\<lambda>part. case pathVariableName part of Some name \<Rightarrow> ''{'' @ name @ ''}'' | None \<Rightarrow> part)
             (splitOn (CHR ''/'') path)))"

definition exactMuxPattern :: "string \<Rightarrow> string" where
  "exactMuxPattern path =
     (if path = ''/'' then ''/{$}'' else if HasSuffix path ''/'' then path @ ''{$}'' else path)"

definition pathPatterns :: "route \<Rightarrow> string list" where
  "pathPatterns rt =
     (let path = serveMuxPathTemplate (rt_path rt) in
      if \<not> rt_prefix rt then [exactMuxPattern path]
      else if path = ''/'' then [''/'']
      else if HasSuffix path ''/'' then [path]
      else [path, path @ ''/''])"

definition dispatchPatterns :: "route \<Rightarrow> string list" where
  "dispatchPatterns rt =
     (if rt_methods rt = [] then pathPatterns rt
      else concat (map (\<lambda>p. map (\<lambda>m. m @ '' '' @ p) (rt_methods rt)) (pathPatterns rt)))"

subsection \<open>Building routes\<close>

definition Use :: "middlewareFunc list \<Rightarrow> router \<Rightarrow> router" where
  "Use middleware r = markDirtyLocked (r\<lparr>ro_middleware := ro_middleware r @ middleware\<rparr>)"

definition addRoute :: "string \<Rightarrow> bool \<Rightarrow> router \<Rightarrow> router \<times> nat" where
  "addRoute path prefix r =
     (markDirtyLocked (r\<lparr>ro_routes := ro_routes r @
        [\<lparr>rt_name = [], rt_path = normalizePath path, rt_prefix = prefix, rt_methods = [], rt_handler = None\<rparr>]\<rparr>),
      length (ro_routes r))"

definition RoutePath :: "string \<Rightarrow> router \<Rightarrow> router \<times> nat" where
  "RoutePath path r = addRoute path False r"

definition PathPrefix :: "string \<Rightarrow> router \<Rightarrow> router \<times> nat" where
  "PathPrefix prefix r = addRoute prefix True r"

definition updRoute :: "nat \<Rightarrow> (route \<Rightarrow> route) \<Rightarrow> router \<Rightarrow> router" where
  "updRoute k g r = r\<lparr>ro_routes := (ro_routes r)[k := g (ro_routes r ! k)]\<rparr>"

definition RouteName :: "nat \<Rightarrow> string \<Rightarrow> router \<Rightarrow> router" where
  "RouteName k name r =
     (let old = rt_name (ro_routes r ! k);
          r1 = (if old \<noteq> [] \<and> gm_get (ro_named r) old = Some k then r\<lparr>ro_named := gm_del old (ro_named r)\<rparr> else r);
          r2 = updRoute k (\<lambda>rt. rt\<lparr>rt_name := name\<rparr>) r1
      in if name \<noteq> [] then r2\<lparr>ro_named := gm_set name k (ro_named r2)\<rparr> else r2)"

definition RouteHandler :: "nat \<Rightarrow> handlerVal option \<Rightarrow> router \<Rightarrow> router" where
  "RouteHandler k h r = markDirtyLocked (updRoute k (\<lambda>rt. rt\<lparr>rt_handler := h\<rparr>) r)"

definition RouteMethods :: "nat \<Rightarrow> string list \<Rightarrow> router \<Rightarrow> router" where
  "RouteMethods k methods r = markDirtyLocked (updRoute k (\<lambda>rt. rt\<lparr>rt_methods := methods\<rparr>) r)"

definition RouterHandle :: "string \<Rightarrow> handlerVal option \<Rightarrow> router \<Rightarrow> router" where
  "RouterHandle pattern h r = (let (r1, k) = RoutePath pattern r in RouteHandler k h r1)"

definition RouterGet :: "string \<Rightarrow> router \<Rightarrow> nat option" where
  "RouterGet name r = gm_get (ro_named r) name"

definition GetName :: "nat \<Rightarrow> router \<Rightarrow> string" where "GetName k r = rt_name (ro_routes r ! k)"
definition GetPathTemplate :: "nat \<Rightarrow> router \<Rightarrow> string" where "GetPathTemplate k r = rt_path (ro_routes r ! k)"
definition GetMethods :: "nat \<Rightarrow> router \<Rightarrow> string list" where "GetMethods k r = rt_methods (ro_routes r ! k)"
definition GetHandler :: "nat \<Rightarrow> router \<Rightarrow> handlerVal option" where "GetHandler k r = rt_handler (ro_routes r ! k)"

text \<open>The loop of the clone over the routes.\<close>

fun cloneRoutes :: "(string \<Rightarrow> bool) \<Rightarrow> route list \<Rightarrow> router \<Rightarrow> router" where
  "cloneRoutes names [] clone = clone"
| "cloneRoutes names (rt # rts) clone =
     (if names (rt_name rt) then cloneRoutes names rts clone
      else (let k = length (ro_routes clone); c1 = clone\<lparr>ro_routes := ro_routes clone @ [rt]\<rparr>
            in cloneRoutes names rts
                 (if rt_name rt \<noteq> [] then c1\<lparr>ro_named := gm_set (rt_name rt) k (ro_named c1)\<rparr> else c1)))"

definition CloneExcluding :: "(string \<Rightarrow> bool) \<Rightarrow> router \<Rightarrow> router" where
  "CloneExcluding names r =
     cloneRoutes names (ro_routes r)
       (NewRouter\<lparr>ro_NotFoundHandler := ro_NotFoundHandler r,
                  ro_MethodNotAllowedHandler := ro_MethodNotAllowedHandler r, ro_middleware := ro_middleware r\<rparr>)"

subsection \<open>Building the multiplexers\<close>

text \<open>The loop from the last middleware to the first.\<close>

fun chainLoop :: "middlewareFunc list \<Rightarrow> nat \<Rightarrow> handlerVal \<Rightarrow> handlerVal" where
  "chainLoop ms 0 h = h"
| "chainLoop ms (Suc i) h = chainLoop ms i ((ms ! i) h)"

definition buildMiddlewareChain :: "middlewareFunc list \<Rightarrow> handlerVal \<Rightarrow> handlerVal" where
  "buildMiddlewareChain ms h = chainLoop ms (length ms) h"

text \<open>A pattern that is registered already is skipped.\<close>

fun registerPatterns :: "string list \<Rightarrow> 'a \<Rightarrow> 'a mux \<times> string list \<Rightarrow> ('a mux \<times> string list) option" where
  "registerPatterns [] h (mux, seen) = Some (mux, seen)"
| "registerPatterns (p # ps) h (mux, seen) =
     (if p \<in> set seen then registerPatterns ps h (mux, seen)
      else case muxHandle p h mux of
             None \<Rightarrow> None
           | Some mux' \<Rightarrow> registerPatterns ps h (mux', seen @ [p]))"

fun rebuildLoop ::
  "middlewareFunc list \<Rightarrow> route list \<Rightarrow> muxEntry mux \<times> string list \<Rightarrow> unit mux \<times> string list \<Rightarrow> (muxEntry mux \<times> unit mux) option" where
  "rebuildLoop mws [] d p = Some (fst d, fst p)"
| "rebuildLoop mws (rt # rts) d p =
     (case rt_handler rt of
        None \<Rightarrow> rebuildLoop mws rts d p
      | Some h \<Rightarrow>
          (case registerPatterns (dispatchPatterns rt) (rt_methods rt, buildMiddlewareChain mws h) d of
             None \<Rightarrow> None
           | Some d' \<Rightarrow>
               (case registerPatterns (pathPatterns rt) () p of
                  None \<Rightarrow> None
                | Some p' \<Rightarrow> rebuildLoop mws rts d' p')))"

definition buildMuxes :: "router \<Rightarrow> (muxEntry mux \<times> unit mux) option" where
  "buildMuxes r = rebuildLoop (ro_middleware r) (ro_routes r) ([], []) ([], [])"

definition rebuildMuxLocked :: "router \<Rightarrow> router option" where
  "rebuildMuxLocked r = map_option (\<lambda>m. r\<lparr>ro_muxes := Some m, ro_dirty := False\<rparr>) (buildMuxes r)"

text \<open>\<open>None\<close> is a panic of the registration, which leaves the router as it is.\<close>

definition snapshot :: "router \<Rightarrow> router option" where
  "snapshot r = (if \<not> ro_dirty r \<and> ro_muxes r \<noteq> None then Some r else rebuildMuxLocked r)"

subsection \<open>Serving\<close>

definition methodAllowed :: "string list \<Rightarrow> string \<Rightarrow> bool" where
  "methodAllowed methods m \<longleftrightarrow> methods = [] \<or> m \<in> set methods"

definition serveMethodNotAllowed :: "handlerVal option \<Rightarrow> handler" where
  "serveMethodNotAllowed h req w =
     (case h of Some f \<Rightarrow> serves f req w | None \<Rightarrow> Some (httpError ''Method Not Allowed'' 405 w))"

definition serveNotFound :: "handlerVal option \<Rightarrow> handler" where
  "serveNotFound h req w = (case h of Some f \<Rightarrow> serves f req w | None \<Rightarrow> httpNotFound req w)"

definition routeHandler :: "router \<Rightarrow> muxEntry \<Rightarrow> handler" where
  "routeHandler r e req w =
     (if fst e = [] then serves (snd e) req w
      else if \<not> methodAllowed (fst e) (hq_Method req) then serveMethodNotAllowed (ro_MethodNotAllowedHandler r) req w
      else serves (snd e) req w)"

definition serveMux :: "router \<Rightarrow> muxEntry mux \<Rightarrow> handler" where
  "serveMux r mux req w =
     (case muxFind req mux of
        MuxHandler p e \<Rightarrow> routeHandler r e req w
      | MuxRedirect s url \<Rightarrow> Some (redirectTo url w)
      | MuxNone \<Rightarrow> httpNotFound req w)"

definition serveWith :: "router \<Rightarrow> muxEntry mux \<times> unit mux \<Rightarrow> handler" where
  "serveWith r m req w =
     (if muxPatternOf (muxFind req (fst m)) \<noteq> [] then serveMux r (fst m) req w
      else if muxPatternOf (muxFind req (snd m)) \<noteq> []
      then serveMethodNotAllowed (ro_MethodNotAllowedHandler r) req w
      else serveNotFound (ro_NotFoundHandler r) req w)"

text \<open>A request leaves the router with the multiplexers it was served from.\<close>

definition RouterServeHTTP :: "httpRequest \<Rightarrow> httpWriter \<Rightarrow> router \<Rightarrow> router \<times> httpWriter option" where
  "RouterServeHTTP req w r =
     (case snapshot r of
        None \<Rightarrow> (r, None)
      | Some r' \<Rightarrow> (case ro_muxes r' of None \<Rightarrow> (r', None) | Some m \<Rightarrow> (r', serveWith r' m req w)))"

subsection \<open>The router as a machine\<close>

datatype routerOp =
    RoUse "middlewareFunc list"
  | RoPath string
  | RoPathPrefix string
  | RoName nat string
  | RoHandler nat "handlerVal option"
  | RoMethods nat "string list"
  | RoServe httpRequest httpWriter

fun routerStep :: "router \<Rightarrow> routerOp \<Rightarrow> router" where
  "routerStep r (RoUse ms) = Use ms r"
| "routerStep r (RoPath p) = fst (RoutePath p r)"
| "routerStep r (RoPathPrefix p) = fst (PathPrefix p r)"
| "routerStep r (RoName k n) = (if k < length (ro_routes r) then RouteName k n r else r)"
| "routerStep r (RoHandler k h) = (if k < length (ro_routes r) then RouteHandler k h r else r)"
| "routerStep r (RoMethods k ms) = (if k < length (ro_routes r) then RouteMethods k ms r else r)"
| "routerStep r (RoServe req w) = fst (RouterServeHTTP req w r)"

end
