(* ===== verification/Middleware.thy ===== *)
theory Middleware
  imports Routing
begin

text \<open>
  plank/pkg/middleware: the manager of route and global middleware (middleware_manager.go), the
  cache control middleware (cache_control.go) and the basic security headers
  (basic_security_headers.go). The glob patterns of the library are an argument.
\<close>

subsection \<open>The manager\<close>

text \<open>The map of the endpoint handlers is shared with the server; a handler in it may be a nil
  function. \<open>None\<close> as a result is a panic.\<close>

record middlewareManager =
  mm_endpointHandlerMap :: "(string, handler) gomap"
  mm_originalHandlersMap :: "(string, handler) gomap"
  mm_router :: router

definition NewMiddlewareManager :: "(string, handler) gomap \<Rightarrow> router \<Rightarrow> middlewareManager" where
  "NewMiddlewareManager m r = \<lparr>mm_endpointHandlerMap = m, mm_originalHandlersMap = gm_empty, mm_router = r\<rparr>"

definition SetRouter :: "router \<Rightarrow> middlewareManager \<Rightarrow> middlewareManager" where
  "SetRouter r m = m\<lparr>mm_router := r\<rparr>"

definition extractUriVerbFromRoute :: "nat \<Rightarrow> middlewareManager \<Rightarrow> (string \<times> string) option" where
  "extractUriVerbFromRoute k m =
     (let s = GetName k (mm_router m) in
      case lastIndexByte s (CHR ''-'') of
        None \<Rightarrow> None
      | Some i \<Rightarrow> Some (take i s, drop (Suc i) s))"

text \<open>The loop of the chain keeps its result in a variable that is nil at first.\<close>

fun managerChainLoop :: "middlewareFunc list \<Rightarrow> nat \<Rightarrow> handlerVal \<Rightarrow> handlerVal option \<Rightarrow> handlerVal option" where
  "managerChainLoop ms 0 orig final = final"
| "managerChainLoop ms (Suc i) orig final =
     (if Suc i = length ms then managerChainLoop ms i orig (Some ((ms ! i) orig))
      else case final of
             None \<Rightarrow> None
           | Some f \<Rightarrow> managerChainLoop ms i orig (Some ((ms ! i) f)))"

definition buildManagerChain :: "middlewareFunc list \<Rightarrow> handlerVal \<Rightarrow> handlerVal option" where
  "buildManagerChain ms orig = managerChainLoop ms (length ms) orig None"

definition SetGlobalMiddleware :: "middlewareFunc list \<Rightarrow> middlewareManager \<Rightarrow> middlewareManager" where
  "SetGlobalMiddleware ms m = m\<lparr>mm_router := Use ms (mm_router m)\<rparr>"

definition middlewareKey :: "nat \<Rightarrow> middlewareManager \<Rightarrow> string option" where
  "middlewareKey k m =
     (let name = GetName k (mm_router m) in
      if name \<noteq> [] \<and> last name = CHR ''*'' then Some name
      else map_option (\<lambda>(uri, method). uri @ ''-'' @ method) (extractUriVerbFromRoute k m))"

definition SetNewMiddleware ::
  "nat option \<Rightarrow> middlewareFunc list \<Rightarrow> middlewareManager \<Rightarrow> (middlewareManager \<times> err option) option" where
  "SetNewMiddleware route ms m =
     (case route of
        None \<Rightarrow> Some (m, Some ''failed to set a new middleware. route does not exist'')
      | Some k \<Rightarrow>
          (case middlewareKey k m of
             None \<Rightarrow> None
           | Some key \<Rightarrow>
               (case gm_get (mm_endpointHandlerMap m) key of
                  None \<Rightarrow> Some (m, Some (''cannot set middleware. handler does not exist at '' @ key))
                | Some original \<Rightarrow>
                    (let m1 = (if gm_get (mm_originalHandlersMap m) key = None
                               then m\<lparr>mm_originalHandlersMap := gm_set key original (mm_originalHandlersMap m)\<rparr> else m)
                     in case buildManagerChain ms (HandlerFunc original) of
                          Some (HandlerFunc h) \<Rightarrow>
                            Some (m1\<lparr>mm_endpointHandlerMap := gm_set key h (mm_endpointHandlerMap m1),
                                     mm_router := RouteHandler k (Some (HandlerFunc h)) (mm_router m1)\<rparr>, None)
                        | _ \<Rightarrow> None))))"

text \<open>A missing backup is a nil function, which is put in the map and in the route.\<close>

definition RemoveMiddleware :: "nat option \<Rightarrow> middlewareManager \<Rightarrow> (middlewareManager \<times> err option) option" where
  "RemoveMiddleware route m =
     (case route of
        None \<Rightarrow> Some (m, Some ''failed to remove middleware. route does not exist'')
      | Some k \<Rightarrow>
          (case extractUriVerbFromRoute k m of
             None \<Rightarrow> None
           | Some (uri, method) \<Rightarrow>
               (let key = uri @ ''-'' @ method in
                case gm_get (mm_endpointHandlerMap m) key of
                  None \<Rightarrow> Some (m, Some (''failed to remove handler. REST bridge handler does not exist at '' @ uri @ '' ('' @ method @ '')''))
                | Some _ \<Rightarrow>
                    (let h = (case gm_get (mm_originalHandlersMap m) key of None \<Rightarrow> nilFunc | Some h \<Rightarrow> h)
                     in Some (m\<lparr>mm_endpointHandlerMap := gm_set key h (mm_endpointHandlerMap m),
                                mm_router := RouteHandler k (Some (HandlerFunc h)) (mm_router m)\<rparr>, None)))))"

definition GetRouteByUriAndMethod :: "string \<Rightarrow> string \<Rightarrow> middlewareManager \<Rightarrow> nat res" where
  "GetRouteByUriAndMethod uri method m =
     (case RouterGet (uri @ ''-'' @ method) (mm_router m) of
        None \<Rightarrow> Inl (''no route found at '' @ uri @ '' ('' @ method @ '')'')
      | Some k \<Rightarrow> Inr k)"

definition GetStaticRoute :: "string \<Rightarrow> middlewareManager \<Rightarrow> nat res" where
  "GetStaticRoute prefix m =
     (case RouterGet (prefix @ ''*'') (mm_router m) of
        None \<Rightarrow> Inl (''no route found at static prefix '' @ prefix @ ''*'')
      | Some k \<Rightarrow> Inr k)"

definition GetRouteByUri :: "string \<Rightarrow> middlewareManager \<Rightarrow> nat res" where
  "GetRouteByUri uri m =
     (case RouterGet uri (mm_router m) of None \<Rightarrow> Inl (''no route found at '' @ uri) | Some k \<Rightarrow> Inr k)"

subsection \<open>Cache control\<close>

text \<open>The directives in the order in which they were added; times are in whole seconds.\<close>

type_synonym cacheControlDirective = "string list"

definition NewCacheControlDirective :: cacheControlDirective where "NewCacheControlDirective = []"
definition Public :: "cacheControlDirective \<Rightarrow> cacheControlDirective" where "Public c = c @ [''public'']"
definition Private :: "cacheControlDirective \<Rightarrow> cacheControlDirective" where "Private c = c @ [''private'']"
definition NoCache :: "cacheControlDirective \<Rightarrow> cacheControlDirective" where "NoCache c = c @ [''no-cache'']"
definition NoStore :: "cacheControlDirective \<Rightarrow> cacheControlDirective" where "NoStore c = c @ [''no-store'']"
definition MaxAge :: "int \<Rightarrow> cacheControlDirective \<Rightarrow> cacheControlDirective" where "MaxAge t c = c @ [''max-age='' @ itoa t]"
definition SharedMaxAge :: "int \<Rightarrow> cacheControlDirective \<Rightarrow> cacheControlDirective" where "SharedMaxAge t c = c @ [''s-maxage='' @ itoa t]"
definition MaxStale :: "int \<Rightarrow> cacheControlDirective \<Rightarrow> cacheControlDirective" where "MaxStale t c = c @ [''max-stale='' @ itoa t]"
definition MinFresh :: "int \<Rightarrow> cacheControlDirective \<Rightarrow> cacheControlDirective" where "MinFresh t c = c @ [''min-fresh='' @ itoa t]"
definition MustRevalidate :: "cacheControlDirective \<Rightarrow> cacheControlDirective" where "MustRevalidate c = c @ [''must-revalidate'']"
definition ProxyRevalidate :: "cacheControlDirective \<Rightarrow> cacheControlDirective" where "ProxyRevalidate c = c @ [''proxy-revalidate'']"
definition Immutable :: "cacheControlDirective \<Rightarrow> cacheControlDirective" where "Immutable c = c @ [''immutable'']"
definition NoTransform :: "cacheControlDirective \<Rightarrow> cacheControlDirective" where "NoTransform c = c @ [''no-transform'']"
definition OnlyIfCached :: "cacheControlDirective \<Rightarrow> cacheControlDirective" where "OnlyIfCached c = c @ [''only-if-cached'']"

definition directiveText :: "cacheControlDirective \<Rightarrow> string" where
  "directiveText c = joinWith '', '' c"

text \<open>A compiled pattern is what it matches; \<open>compile\<close> is the library's compiler.\<close>

type_synonym globPat = "string \<Rightarrow> bool"

definition NewCacheControlRulePair ::
  "(string \<Rightarrow> globPat res) \<Rightarrow> string \<Rightarrow> string \<Rightarrow> (string \<times> string \<times> globPat option) \<times> err option" where
  "NewCacheControlRulePair compile pattern rule =
     (case compile pattern of
        Inl e \<Rightarrow> ((pattern, rule, None), Some e)
      | Inr g \<Rightarrow> ((pattern, rule, Some g), None))"

fun parseGlobPatterns :: "(string \<Rightarrow> globPat res) \<Rightarrow> string list \<Rightarrow> globPat list" where
  "parseGlobPatterns compile [] = []"
| "parseGlobPatterns compile (p # ps) =
     (case compile p of Inl e \<Rightarrow> parseGlobPatterns compile ps | Inr g \<Rightarrow> g # parseGlobPatterns compile ps)"

text \<open>After the handler has served a request that does not match the code goes on.\<close>

definition cacheControlWrapper :: "handlerVal \<Rightarrow> globPat list \<Rightarrow> cacheControlDirective \<Rightarrow> handler" where
  "cacheControlWrapper h globs directive req w =
     (if globs = [] then serves h req w
      else (let uriMatches = list_ex (\<lambda>g. g (hq_RequestURI req)) globs;
                w1 = (if \<not> uriMatches then serves h req w else Some w)
            in case w1 of
                 None \<Rightarrow> None
               | Some w' \<Rightarrow> serves h req (setHeader ''Cache-Control'' (directiveText directive) w')))"

definition CacheControlMiddleware ::
  "(string \<Rightarrow> globPat res) \<Rightarrow> string list \<Rightarrow> cacheControlDirective \<Rightarrow> middlewareFunc" where
  "CacheControlMiddleware compile patterns directive =
     (let parsed = parseGlobPatterns compile patterns in (\<lambda>h. HandlerFunc (cacheControlWrapper h parsed directive)))"

definition BasicSecurityHeaderMiddleware :: middlewareFunc where
  "BasicSecurityHeaderMiddleware h =
     HandlerFunc (\<lambda>req w. serves h req (setHeader ''X-Frame-Options'' ''allow-from https://pb33f.io/'' w))"

end
