(* ===== verification/RateLimit.thy ===== *)
theory RateLimit
  imports Http
begin

text \<open>
  plank/pkg/ratelimit: token buckets by visitor and tier (limiter.go, config.go), the events
  (events.go), the client's address (utils.go) and the HTTP middleware (middleware.go). The bucket
  of \<open>golang.org/x/time/rate\<close> is an abstract type with its operations as an argument, and so
  are the two computations with floating point. Times are in nanoseconds.
\<close>

subsection \<open>Configuration\<close>

type_synonym tier = string

record 'r tierConfig =
  tc_Rate :: 'r
  tc_Burst :: int

record rateEvent =
  ev_Key :: string
  ev_KeyType :: string
  ev_Tier :: tier
  ev_Path :: string
  ev_Method :: string
  ev_Timestamp :: int
  ev_Allowed :: bool
  ev_Remaining :: int
  ev_Limit :: int
  ev_ResetAt :: int
  ev_RemoteAddr :: string
  ev_UserAgent :: string

text \<open>The rate library: a new bucket, \<open>Allow\<close> at a time, and \<open>Tokens\<close> at a time, cut to an
  integer; \<open>bl_resetAfter\<close> is the duration \<open>time.Second / rate\<close>, and \<open>bl_zeroRate\<close> the zero value
  of a rate.\<close>

record ('l, 'r) bucketLib =
  bl_new :: "'r \<Rightarrow> int \<Rightarrow> 'l"
  bl_allow :: "int \<Rightarrow> 'l \<Rightarrow> bool \<times> 'l"
  bl_tokens :: "int \<Rightarrow> 'l \<Rightarrow> int"
  bl_resetAfter :: "'r \<Rightarrow> int"
  bl_zeroRate :: 'r

text \<open>\<open>rc_warnBelow\<close> is \<open>int(float64(limit) * WarningThreshold)\<close>.\<close>

record 'r rateConfig =
  rc_Tiers :: "(tier, 'r tierConfig) gomap"
  rc_KeyExtractor :: "httpRequest \<Rightarrow> (string \<times> string) res"
  rc_TierResolver :: "string \<Rightarrow> string \<Rightarrow> tier"
  rc_EventHandler :: bool
  rc_CleanupInterval :: int
  rc_warnBelow :: "int \<Rightarrow> int"

definition ExtractIP :: "httpRequest \<Rightarrow> string" where
  "ExtractIP r =
     (let xff = headerGet ''X-Forwarded-For'' (hq_Header r) in
      if xff \<noteq> [] then (case indexByte xff (CHR '','') of Some i \<Rightarrow> take i xff | None \<Rightarrow> xff)
      else (let xri = headerGet ''X-Real-IP'' (hq_Header r) in if xri \<noteq> [] then xri else hq_RemoteAddr r))"

definition DefaultConfig :: "(int \<Rightarrow> int \<Rightarrow> 'r) \<Rightarrow> (int \<Rightarrow> int) \<Rightarrow> 'r rateConfig" where
  "DefaultConfig rate warn =
     \<lparr>rc_Tiers = [(''unauth'', \<lparr>tc_Rate = rate 10 60, tc_Burst = 10\<rparr>), (''auth'', \<lparr>tc_Rate = rate 60 60, tc_Burst = 20\<rparr>),
                  (''paid'', \<lparr>tc_Rate = rate 300 60, tc_Burst = 50\<rparr>)],
      rc_KeyExtractor = (\<lambda>r. Inr (ExtractIP r, ''ip'')), rc_TierResolver = (\<lambda>k t. ''unauth''),
      rc_EventHandler = False, rc_CleanupInterval = 5 * 60 * 1000000000, rc_warnBelow = warn\<rparr>"

definition tierCfg :: "('l, 'r) bucketLib \<Rightarrow> 'r rateConfig \<Rightarrow> tier \<Rightarrow> 'r tierConfig" where
  "tierCfg lib cfg t =
     (case gm_get (rc_Tiers cfg) t of Some c \<Rightarrow> c | None \<Rightarrow> \<lparr>tc_Rate = bl_zeroRate lib, tc_Burst = 0\<rparr>)"

definition NewEvent ::
  "httpRequest \<Rightarrow> string \<Rightarrow> string \<Rightarrow> tier \<Rightarrow> bool \<Rightarrow> int \<Rightarrow> int \<Rightarrow> int \<Rightarrow> int \<Rightarrow> rateEvent" where
  "NewEvent r key keyType t allowed remaining limit resetAt now =
     \<lparr>ev_Key = key, ev_KeyType = keyType, ev_Tier = t, ev_Path = hq_Path r, ev_Method = hq_Method r, ev_Timestamp = now,
      ev_Allowed = allowed, ev_Remaining = remaining, ev_Limit = limit, ev_ResetAt = resetAt,
      ev_RemoteAddr = hq_RemoteAddr r, ev_UserAgent = headerGet ''User-Agent'' (hq_Header r)\<rparr>"

subsection \<open>The limiter\<close>

text \<open>The buckets are objects: a request goes on with the bucket it has got, whatever becomes of the
  visitor.\<close>

record visitor =
  vi_limiter :: nat
  vi_tier :: tier
  vi_lastSeen :: int

record 'l limiter =
  li_visitors :: "(string, visitor) gomap"
  li_buckets :: "'l list"

definition NewLimiter :: "'l limiter" where
  "NewLimiter = \<lparr>li_visitors = gm_empty, li_buckets = []\<rparr>"

definition newBucket :: "('l, 'r) bucketLib \<Rightarrow> 'r rateConfig \<Rightarrow> tier \<Rightarrow> 'l" where
  "newBucket lib cfg t = bl_new lib (tc_Rate (tierCfg lib cfg t)) (tc_Burst (tierCfg lib cfg t))"

definition getOrCreateLimiter ::
  "('l, 'r) bucketLib \<Rightarrow> 'r rateConfig \<Rightarrow> int \<Rightarrow> string \<Rightarrow> tier \<Rightarrow> 'l limiter \<Rightarrow> 'l limiter \<times> nat" where
  "getOrCreateLimiter lib cfg now key t l =
     (let b = length (li_buckets l) in
      case gm_get (li_visitors l) key of
        Some v \<Rightarrow>
          (if vi_tier v = t then (l, vi_limiter v)
           else (l\<lparr>li_buckets := li_buckets l @ [newBucket lib cfg t],
                   li_visitors := gm_set key (v\<lparr>vi_lastSeen := now, vi_limiter := b, vi_tier := t\<rparr>) (li_visitors l)\<rparr>, b))
      | None \<Rightarrow>
          (l\<lparr>li_buckets := li_buckets l @ [newBucket lib cfg t],
             li_visitors := gm_set key \<lparr>vi_limiter = b, vi_tier = t, vi_lastSeen = now\<rparr> (li_visitors l)\<rparr>, b))"

definition keyOf :: "'r rateConfig \<Rightarrow> httpRequest \<Rightarrow> string \<times> string" where
  "keyOf cfg r = (case rc_KeyExtractor cfg r of Inr p \<Rightarrow> p | Inl e \<Rightarrow> (ExtractIP r, ''ip''))"

definition Allow ::
  "('l, 'r) bucketLib \<Rightarrow> 'r rateConfig \<Rightarrow> int \<Rightarrow> httpRequest \<Rightarrow> 'l limiter \<Rightarrow> 'l limiter \<times> bool \<times> rateEvent" where
  "Allow lib cfg now r l =
     (let (key, keyType) = keyOf cfg r;
          t = rc_TierResolver cfg key keyType;
          (l1, b) = getOrCreateLimiter lib cfg now key t l;
          limit = tc_Burst (tierCfg lib cfg t);
          (allowed, bucket) = bl_allow lib now (li_buckets l1 ! b);
          l2 = l1\<lparr>li_buckets := (li_buckets l1)[b := bucket]\<rparr>;
          tokens = bl_tokens lib now bucket;
          remaining = (if tokens < 0 then 0 else tokens);
          resetAt = now + bl_resetAfter lib (tc_Rate (tierCfg lib cfg t))
      in (l2, allowed, NewEvent r key keyType t allowed remaining limit resetAt now))"

definition cleanup :: "'r rateConfig \<Rightarrow> int \<Rightarrow> 'l limiter \<Rightarrow> 'l limiter" where
  "cleanup cfg now l =
     (let threshold = now - rc_CleanupInterval cfg * 2
      in l\<lparr>li_visitors := filter (\<lambda>(k, v). \<not> vi_lastSeen v < threshold) (li_visitors l)\<rparr>)"

definition VisitorCount :: "'l limiter \<Rightarrow> nat" where
  "VisitorCount l = length (li_visitors l)"

subsection \<open>The middleware\<close>

text \<open>What the event handler is told, with the response. Times are in whole seconds in the headers;
  \<open>encode\<close> is the JSON text of the error response.\<close>

datatype rateCall = OnLimited rateEvent | OnApproaching rateEvent

record rateErrorResponse =
  re_Error :: string
  re_Message :: string
  re_Limit :: int
  re_Remaining :: int
  re_ResetAt :: int
  re_RetryAfter :: int

definition unixSeconds :: "int \<Rightarrow> int" where "unixSeconds t = t div 1000000000"

definition handleLimited ::
  "'r rateConfig \<Rightarrow> (rateErrorResponse \<Rightarrow> string) \<Rightarrow> int \<Rightarrow> rateEvent \<Rightarrow> httpWriter \<Rightarrow> rateCall list \<times> httpWriter" where
  "handleLimited cfg encode now event w =
     (let calls = (if rc_EventHandler cfg then [OnLimited event] else []);
          secs = (ev_ResetAt event - now) div 1000000000;
          retryAfter = (if secs < 1 then 1 else secs);
          w1 = WriteHeader 429 (setHeader ''Content-Type'' ''application/json'' (setHeader ''Retry-After'' (itoa retryAfter) w))
      in (calls, writeBody (encode \<lparr>re_Error = ''rate_limit_exceeded'', re_Message = ''you have exceeded your rate limit'',
                   re_Limit = ev_Limit event, re_Remaining = ev_Remaining event,
                   re_ResetAt = unixSeconds (ev_ResetAt event), re_RetryAfter = retryAfter\<rparr>) w1))"

definition rateHeaders :: "rateEvent \<Rightarrow> httpWriter \<Rightarrow> httpWriter" where
  "rateHeaders event w =
     setHeader ''X-RateLimit-Reset'' (itoa (unixSeconds (ev_ResetAt event)))
       (setHeader ''X-RateLimit-Remaining'' (itoa (ev_Remaining event))
         (setHeader ''X-RateLimit-Limit'' (itoa (ev_Limit event)) w))"

definition RateMiddleware ::
  "('l, 'r) bucketLib \<Rightarrow> 'r rateConfig \<Rightarrow> (rateErrorResponse \<Rightarrow> string) \<Rightarrow> int \<Rightarrow> handlerVal \<Rightarrow> httpRequest \<Rightarrow> httpWriter
     \<Rightarrow> 'l limiter \<Rightarrow> 'l limiter \<times> rateCall list \<times> httpWriter option" where
  "RateMiddleware lib cfg encode now next r w l =
     (let (l1, allowed, event) = Allow lib cfg now r l;
          w1 = rateHeaders event w
      in if \<not> allowed then (let (calls, w2) = handleLimited cfg encode now event w1 in (l1, calls, Some w2))
         else (l1, (if rc_EventHandler cfg \<and> ev_Remaining event \<le> rc_warnBelow cfg (ev_Limit event)
                    then [OnApproaching event] else []),
               serves next r w1))"

subsection \<open>The limiter as a machine\<close>

text \<open>Requests and clean-ups at their times, with the decisions taken.\<close>

datatype rateEv = RlRequest httpRequest int | RlCleanup int

fun rateStep ::
  "('l, 'r) bucketLib \<Rightarrow> 'r rateConfig \<Rightarrow> 'l limiter \<times> rateEvent list \<Rightarrow> rateEv \<Rightarrow> 'l limiter \<times> rateEvent list" where
  "rateStep lib cfg (l, log) (RlRequest r now) =
     (let (l1, allowed, event) = Allow lib cfg now r l in (l1, log @ [event]))"
| "rateStep lib cfg (l, log) (RlCleanup now) = (cleanup cfg now l, log)"

subsection \<open>The goroutine that cleans up\<close>

text \<open>\<open>sp_started\<close> is the \<open>sync.Once\<close>, which is done also when its function panics, as \<open>time.NewTicker\<close> does for an
  interval that is not positive; \<open>sp_ticking\<close> tells whether the goroutine is in its loop. When a tick and
  the end of the context are both there the select takes either.\<close>

record 'l sweeper =
  sp_limiter :: "'l limiter"
  sp_log :: "rateEvent list"
  sp_started :: bool
  sp_ticking :: bool
  sp_panicked :: bool

definition newSweeper :: "'l sweeper" where
  "newSweeper = \<lparr>sp_limiter = NewLimiter, sp_log = [], sp_started = False, sp_ticking = False, sp_panicked = False\<rparr>"

definition StartCleanup :: "'r rateConfig \<Rightarrow> 'l sweeper \<Rightarrow> 'l sweeper" where
  "StartCleanup cfg s =
     (if sp_started s then s
      else if rc_CleanupInterval cfg \<le> 0 then s\<lparr>sp_started := True, sp_panicked := True\<rparr>
      else s\<lparr>sp_started := True, sp_ticking := True\<rparr>)"

datatype sweepEv = SwStart | SwTick int | SwContextEnds | SwRequest httpRequest int

fun sweepStep :: "('l, 'r) bucketLib \<Rightarrow> 'r rateConfig \<Rightarrow> 'l sweeper \<Rightarrow> sweepEv \<Rightarrow> 'l sweeper" where
  "sweepStep lib cfg s SwStart = StartCleanup cfg s"
| "sweepStep lib cfg s (SwTick now) = (if sp_ticking s then s\<lparr>sp_limiter := cleanup cfg now (sp_limiter s)\<rparr> else s)"
| "sweepStep lib cfg s SwContextEnds = s\<lparr>sp_ticking := False\<rparr>"
| "sweepStep lib cfg s (SwRequest r now) =
     (let (l, allowed, event) = Allow lib cfg now r (sp_limiter s) in s\<lparr>sp_limiter := l, sp_log := sp_log s @ [event]\<rparr>)"

end
