(* ===== verification/PlankFacts.thy ===== *)
theory PlankFacts
  imports Middleware RateLimit
begin

text \<open>
  What holds of the HTTP side of Plank: the router answers every request from the routes as they
  are then, middleware chains are compositions and can be taken off again, and the limiter gives
  every key a bucket of its own until a clean-up forgets it.
\<close>

subsection \<open>Chains\<close>

lemma chainLoop_foldr: "i \<le> length ms \<Longrightarrow> chainLoop ms i h = foldr (\<lambda>m a. m a) (take i ms) h"
proof (induction i arbitrary: h)
  case (Suc i)
  then show ?case by (simp add: take_Suc_conv_app_nth)
qed simp

lemma managerChainLoop_foldr:
  "i < length ms \<Longrightarrow> managerChainLoop ms i h (Some a) = Some (foldr (\<lambda>m a. m a) (take i ms) a)"
proof (induction i arbitrary: a)
  case (Suc i)
  then show ?case by (simp add: take_Suc_conv_app_nth)
qed simp

subsection \<open>The router\<close>

text \<open>A router that is not dirty holds the multiplexers of its routes as they are.\<close>

definition cacheOk :: "router \<Rightarrow> bool" where
  "cacheOk r \<longleftrightarrow> (\<forall>m. \<not> ro_dirty r \<and> ro_muxes r = Some m \<longrightarrow> buildMuxes r = Some m)"

lemma buildMuxes_cong:
  "ro_routes t = ro_routes r \<Longrightarrow> ro_middleware t = ro_middleware r \<Longrightarrow> buildMuxes t = buildMuxes r"
  by (simp add: buildMuxes_def)

lemma cacheOk_dirty: "ro_dirty r \<Longrightarrow> cacheOk r"
  by (simp add: cacheOk_def)

lemma rebuildLoop_cong:
  "map (\<lambda>rt. (rt_path rt, rt_prefix rt, rt_methods rt, rt_handler rt)) rts =
   map (\<lambda>rt. (rt_path rt, rt_prefix rt, rt_methods rt, rt_handler rt)) rts' \<Longrightarrow>
   rebuildLoop ms rts d p = rebuildLoop ms rts' d p"
proof (induction rts arbitrary: rts' d p)
  case (Cons rt rts)
  then obtain rt' rts'' where r: "rts' = rt' # rts''" by (cases rts') auto
  have "pathPatterns rt = pathPatterns rt'" "dispatchPatterns rt = dispatchPatterns rt'"
    using Cons.prems r by (auto simp: pathPatterns_def dispatchPatterns_def)
  with Cons r show ?case by (auto split: option.split)
qed simp

lemma RouteName_build: "buildMuxes (RouteName k n r) = buildMuxes r"
proof -
  let ?f = "\<lambda>rt. (rt_path rt, rt_prefix rt, rt_methods rt, rt_handler rt)"
  have "ro_routes (RouteName k n r) = (ro_routes r)[k := (ro_routes r ! k)\<lparr>rt_name := n\<rparr>]"
    by (simp add: RouteName_def updRoute_def Let_def)
  then have "map ?f (ro_routes (RouteName k n r)) = (map ?f (ro_routes r))[k := ?f (ro_routes r ! k)]"
    by (simp add: map_update)
  also have "\<dots> = map ?f (ro_routes r)"
    by (cases "k < length (ro_routes r)") (simp_all add: list_update_same_conv list_update_beyond)
  finally have routes: "map ?f (ro_routes (RouteName k n r)) = map ?f (ro_routes r)" .
  have "ro_middleware (RouteName k n r) = ro_middleware r"
    by (simp add: RouteName_def updRoute_def Let_def)
  then show ?thesis unfolding buildMuxes_def by (simp add: rebuildLoop_cong [OF routes])
qed

lemma snapshot_ok: "cacheOk r \<Longrightarrow> snapshot r = Some t \<Longrightarrow> cacheOk t \<and> ro_muxes t = buildMuxes r \<and>
    ro_MethodNotAllowedHandler t = ro_MethodNotAllowedHandler r \<and> ro_NotFoundHandler t = ro_NotFoundHandler r"
  by (auto simp: snapshot_def rebuildMuxLocked_def cacheOk_def buildMuxes_def split: if_splits)

lemma routerStep_ok: "cacheOk r \<Longrightarrow> cacheOk (routerStep r e)"
proof (cases e)
  case (RoName k n)
  assume "cacheOk r"
  moreover have "ro_dirty (RouteName k n r) = ro_dirty r" "ro_muxes (RouteName k n r) = ro_muxes r"
    by (simp_all add: RouteName_def updRoute_def Let_def)
  ultimately show ?thesis using RoName RouteName_build by (simp add: cacheOk_def)
next
  case (RoServe req w)
  assume "cacheOk r"
  moreover have "cacheOk t" if "snapshot r = Some t" for t using snapshot_ok [OF _ that] calculation by blast
  ultimately show ?thesis using RoServe by (simp add: RouterServeHTTP_def split: option.split)
qed (simp_all add: cacheOk_dirty Use_def RoutePath_def PathPrefix_def addRoute_def RouteHandler_def RouteMethods_def
    markDirtyLocked_def)

interpretation routerCache: machine routerStep cacheOk
  by unfold_locales (rule routerStep_ok)

lemma registerPatterns_in:
  "registerPatterns ps h (mux, seen) = Some (mux', seen') \<Longrightarrow>
   set mux' \<subseteq> set mux \<union> {(p, h) | p. pt_text p \<in> set ps}"
proof (induction ps arbitrary: mux seen)
  case (Cons p ps)
  have same: "pt_text q = p" if "parsePattern p = Some q" for q
    using that by (auto simp: parsePattern_def Let_def split: prod.splits list.splits if_splits option.splits)
  show ?case
  proof (cases "p \<in> set seen")
    case True
    then show ?thesis using Cons by auto
  next
    case False
    then obtain m1 where m: "muxHandle p h mux = Some m1" "registerPatterns ps h (m1, seen @ [p]) = Some (mux', seen')"
      using Cons.prems by (auto split: option.splits)
    then have "set m1 \<subseteq> set mux \<union> {(q, h) | q. pt_text q = p}"
      using same by (auto simp: muxHandle_def split: option.splits if_splits)
    with Cons.IH [OF m(2)] show ?thesis by auto
  qed
qed simp

definition entryOf :: "router \<Rightarrow> muxPattern \<Rightarrow> muxEntry \<Rightarrow> bool" where
  "entryOf r p e \<longleftrightarrow>
     (\<exists>rt h. rt \<in> set (ro_routes r) \<and> rt_handler rt = Some h \<and> pt_text p \<in> set (dispatchPatterns rt) \<and>
        e = (rt_methods rt, foldr (\<lambda>m a. m a) (ro_middleware r) h))"

lemma rebuildLoop_in:
  assumes "rebuildLoop ms rts d p = Some m" and "set rts \<subseteq> set (ro_routes r)" and "ms = ro_middleware r"
    and "\<forall>(q, e) \<in> set (fst d). entryOf r q e"
  shows "\<forall>(q, e) \<in> set (fst m). entryOf r q e"
  using assms
proof (induction rts arbitrary: d p)
  case (Cons rt rts)
  show ?case
  proof (cases "rt_handler rt")
    case None
    then show ?thesis using Cons by simp
  next
    case (Some h)
    let ?e = "(rt_methods rt, buildMiddlewareChain ms h)"
    obtain d' where d': "registerPatterns (dispatchPatterns rt) ?e (fst d, snd d) = Some d'"
      using Cons.prems(1) Some by (cases d) (auto split: option.splits)
    have "set (fst d') \<subseteq> set (fst d) \<union> {(q, ?e) | q. pt_text q \<in> set (dispatchPatterns rt)}"
      using registerPatterns_in d' by (cases d') fastforce
    moreover have "entryOf r q ?e" if "pt_text q \<in> set (dispatchPatterns rt)" for q
      using that Some Cons.prems(2,3) chainLoop_foldr [of "length ms" ms h]
      unfolding entryOf_def buildMiddlewareChain_def by auto
    ultimately have "\<forall>(q, e) \<in> set (fst d'). entryOf r q e" using Cons.prems(4) by blast
    then show ?thesis
      using Cons.IH [of d'] Cons.prems Some d' by (auto split: option.splits)
  qed
qed auto

subsection \<open>Setting and removing middleware\<close>

text \<open>Middleware set on one route several times, each time without an error.\<close>

fun setAllMiddleware :: "nat \<Rightarrow> middlewareFunc list list \<Rightarrow> middlewareManager \<Rightarrow> middlewareManager option" where
  "setAllMiddleware k [] m = Some m"
| "setAllMiddleware k (ms # mss) m =
     (case SetNewMiddleware (Some k) ms m of Some (m', None) \<Rightarrow> setAllMiddleware k mss m' | _ \<Rightarrow> None)"

definition restRoute :: "nat \<Rightarrow> string \<Rightarrow> middlewareManager \<Rightarrow> bool" where
  "restRoute k key m \<longleftrightarrow>
     k < length (ro_routes (mm_router m)) \<and> last (GetName k (mm_router m)) \<noteq> CHR ''*'' \<and>
     map_option (\<lambda>(uri, method). uri @ ''-'' @ method) (extractUriVerbFromRoute k m) = Some key"

lemma restRoute_key: "restRoute k key m \<Longrightarrow> middlewareKey k m = Some key"
  by (auto simp: restRoute_def middlewareKey_def Let_def)

lemma GetName_RouteHandler: "GetName j (RouteHandler k h r) = GetName j r"
  by (cases "k < length (ro_routes r)")
    (auto simp: GetName_def RouteHandler_def updRoute_def markDirtyLocked_def nth_list_update list_update_beyond)

lemma restRoute_set:
  "restRoute k key m \<Longrightarrow> mm_router m' = RouteHandler j h (mm_router m) \<Longrightarrow> restRoute k key m'"
proof -
  assume r: "restRoute k key m" and m': "mm_router m' = RouteHandler j h (mm_router m)"
  have name: "GetName k (mm_router m') = GetName k (mm_router m)" by (simp add: m' GetName_RouteHandler)
  have "length (ro_routes (mm_router m')) = length (ro_routes (mm_router m))"
    by (simp add: m' RouteHandler_def updRoute_def markDirtyLocked_def)
  then show ?thesis using r by (simp add: restRoute_def extractUriVerbFromRoute_def name)
qed

lemma SetNewMiddleware_effect:
  assumes "restRoute k key m" and "SetNewMiddleware (Some k) ms m = Some (m', None)"
  shows "restRoute k key m'" and
    "gm_get (mm_originalHandlersMap m') key =
       (case gm_get (mm_originalHandlersMap m) key of None \<Rightarrow> gm_get (mm_endpointHandlerMap m) key | Some h \<Rightarrow> Some h)" and
    "gm_get (mm_endpointHandlerMap m') key \<noteq> None" and "gm_get (mm_endpointHandlerMap m) key \<noteq> None"
proof -
  obtain original h where o: "gm_get (mm_endpointHandlerMap m) key = Some original"
    "buildManagerChain ms (HandlerFunc original) = Some (HandlerFunc h)"
    "m' = (if gm_get (mm_originalHandlersMap m) key = None
           then m\<lparr>mm_originalHandlersMap := gm_set key original (mm_originalHandlersMap m)\<rparr> else m)
            \<lparr>mm_endpointHandlerMap := gm_set key h (mm_endpointHandlerMap m), mm_router := RouteHandler k (Some (HandlerFunc h)) (mm_router m)\<rparr>"
    using assms restRoute_key [OF assms(1)]
    by (auto simp: SetNewMiddleware_def Let_def split: option.splits handlerVal.splits if_splits)
  show "restRoute k key m'" by (rule restRoute_set [OF assms(1)]) (simp add: o)
  show "gm_get (mm_originalHandlersMap m') key =
       (case gm_get (mm_originalHandlersMap m) key of None \<Rightarrow> gm_get (mm_endpointHandlerMap m) key | Some h \<Rightarrow> Some h)"
    "gm_get (mm_endpointHandlerMap m') key \<noteq> None" "gm_get (mm_endpointHandlerMap m) key \<noteq> None"
    by (auto simp: o split: option.splits)
qed

lemma setAll_effect:
  assumes "restRoute k key m" and "setAllMiddleware k mss m = Some m'" and "gm_get (mm_endpointHandlerMap m) key = Some h"
  shows "restRoute k key m' \<and> gm_get (mm_endpointHandlerMap m') key \<noteq> None \<and>
     gm_get (mm_originalHandlersMap m') key =
       (if mss = [] then gm_get (mm_originalHandlersMap m) key
        else case gm_get (mm_originalHandlersMap m) key of None \<Rightarrow> Some h | Some g \<Rightarrow> Some g)"
  using assms
proof (induction mss arbitrary: m h)
  case (Cons ms mss)
  then obtain m1 where m1: "SetNewMiddleware (Some k) ms m = Some (m1, None)" "setAllMiddleware k mss m1 = Some m'"
    by (auto split: option.splits prod.splits)
  note e = SetNewMiddleware_effect [OF Cons.prems(1) m1(1)]
  then obtain h1 where h1: "gm_get (mm_endpointHandlerMap m1) key = Some h1" by auto
  show ?case using Cons.IH [OF e(1) m1(2) h1] e(2) Cons.prems(3) by (auto split: option.splits)
qed simp

subsection \<open>The limiter\<close>

text \<open>Every visitor has a bucket of its own.\<close>

definition ownBuckets :: "'l limiter \<Rightarrow> bool" where
  "ownBuckets l \<longleftrightarrow>
     gm_ok (li_visitors l) \<and>
     (\<forall>k v. gm_get (li_visitors l) k = Some v \<longrightarrow> vi_limiter v < length (li_buckets l)) \<and>
     (\<forall>k v k' v'. gm_get (li_visitors l) k = Some v \<longrightarrow> gm_get (li_visitors l) k' = Some v' \<longrightarrow>
        vi_limiter v = vi_limiter v' \<longrightarrow> k = k')"

lemma ownBuckets_new: "ownBuckets NewLimiter"
  by (simp add: ownBuckets_def NewLimiter_def)

lemma getOrCreate_own:
  assumes "ownBuckets l"
  shows "ownBuckets (fst (getOrCreateLimiter lib cfg now key t l))"
proof -
  have "vi_limiter v < length (li_buckets l)" if "gm_get (li_visitors l) k = Some v" for k v
    using assms that by (simp add: ownBuckets_def)
  then show ?thesis
    using assms unfolding ownBuckets_def getOrCreateLimiter_def
    by (auto simp: Let_def less_Suc_eq split: option.splits) (metis less_irrefl)+
qed

lemma getOrCreate_get:
  "\<exists>v. gm_get (li_visitors (fst (getOrCreateLimiter lib cfg now key t l))) key = Some v \<and>
     vi_limiter v = snd (getOrCreateLimiter lib cfg now key t l) \<and> vi_tier v = t"
  by (auto simp: getOrCreateLimiter_def Let_def split: option.splits)

lemma getOrCreate_seen:
  "gm_get (li_visitors (fst (getOrCreateLimiter lib cfg now key t l))) key = Some v \<Longrightarrow>
   vi_lastSeen v = now \<or> gm_get (li_visitors l) key = Some v"
  by (auto simp: getOrCreateLimiter_def Let_def split: option.splits if_splits)

lemma ownBuckets_update: "ownBuckets l \<Longrightarrow> ownBuckets (l\<lparr>li_buckets := (li_buckets l)[b := x]\<rparr>)"
  by (simp add: ownBuckets_def)

lemma Allow_limiter:
  "fst (Allow lib cfg now r l) =
     (let (l1, b) = getOrCreateLimiter lib cfg now (fst (keyOf cfg r)) (rc_TierResolver cfg (fst (keyOf cfg r)) (snd (keyOf cfg r))) l
      in l1\<lparr>li_buckets := (li_buckets l1)[b := snd (bl_allow lib now (li_buckets l1 ! b))]\<rparr>)"
  by (simp add: Allow_def Let_def case_prod_beta)

lemma Allow_event:
  "ev_Allowed (snd (snd (Allow lib cfg now r l))) =
     (let (l1, b) = getOrCreateLimiter lib cfg now (fst (keyOf cfg r)) (rc_TierResolver cfg (fst (keyOf cfg r)) (snd (keyOf cfg r))) l
      in fst (bl_allow lib now (li_buckets l1 ! b)))"
  "ev_Key (snd (snd (Allow lib cfg now r l))) = fst (keyOf cfg r)"
  by (simp_all add: Allow_def NewEvent_def Let_def case_prod_beta)

lemma Allow_own: "ownBuckets l \<Longrightarrow> ownBuckets (fst (Allow lib cfg now r l))"
  unfolding Allow_limiter by (simp add: Let_def case_prod_beta ownBuckets_update getOrCreate_own)

lemma cleanup_get:
  "gm_ok (li_visitors l) \<Longrightarrow>
   gm_get (li_visitors (cleanup cfg now l)) k =
     (case gm_get (li_visitors l) k of
        None \<Rightarrow> None
      | Some v \<Rightarrow> if vi_lastSeen v < now - rc_CleanupInterval cfg * 2 then None else Some v)"
  using gm_get_filter [of "li_visitors l" "\<lambda>k v. \<not> vi_lastSeen v < now - rc_CleanupInterval cfg * 2" k]
  by (simp add: cleanup_def Let_def split: option.splits)

lemma cleanup_own: "ownBuckets l \<Longrightarrow> ownBuckets (cleanup cfg now l)"
proof -
  assume own: "ownBuckets l"
  then have "gm_ok (li_visitors (cleanup cfg now l))" by (simp add: ownBuckets_def cleanup_def Let_def)
  moreover have "li_buckets (cleanup cfg now l) = li_buckets l" by (simp add: cleanup_def Let_def)
  ultimately show ?thesis using own unfolding ownBuckets_def by (auto simp: cleanup_get split: option.splits if_splits)
qed

text \<open>The decisions of one bucket for requests at given times.\<close>

fun bucketRun :: "('l, 'r) bucketLib \<Rightarrow> 'l \<Rightarrow> int list \<Rightarrow> 'l \<times> bool list" where
  "bucketRun lib b [] = (b, [])"
| "bucketRun lib b (t # ts) =
     (let (ok, b1) = bl_allow lib t b; (b2, oks) = bucketRun lib b1 ts in (b2, ok # oks))"

lemma bucketRun_snoc:
  "bucketRun lib b (ts @ [t]) =
     (snd (bl_allow lib t (fst (bucketRun lib b ts))),
      snd (bucketRun lib b ts) @ [fst (bl_allow lib t (fst (bucketRun lib b ts)))])"
  by (induction ts arbitrary: b) (simp_all add: case_prod_beta Let_def)

text \<open>The times of a key's requests.\<close>

fun keyTimes :: "'r rateConfig \<Rightarrow> string \<Rightarrow> rateEv list \<Rightarrow> int list" where
  "keyTimes cfg k [] = []"
| "keyTimes cfg k (RlRequest r now # es) = (if fst (keyOf cfg r) = k then [now] else []) @ keyTimes cfg k es"
| "keyTimes cfg k (RlCleanup now # es) = keyTimes cfg k es"

lemma keyTimes_append: "keyTimes cfg k (es @ fs) = keyTimes cfg k es @ keyTimes cfg k fs"
  by (induction cfg k es rule: keyTimes.induct) auto

definition decisions :: "string \<Rightarrow> rateEvent list \<Rightarrow> bool list" where
  "decisions k log = map ev_Allowed (filter (\<lambda>e. ev_Key e = k) log)"

text \<open>A key's requests have one tier and come from \<open>t0\<close> on; clean-ups come no later than two
  intervals after \<open>t0\<close>.\<close>

definition steadyKey :: "'r rateConfig \<Rightarrow> string \<Rightarrow> tier \<Rightarrow> int \<Rightarrow> rateEv \<Rightarrow> bool" where
  "steadyKey cfg k t t0 e \<longleftrightarrow>
     (case e of
        RlRequest r now \<Rightarrow> (if fst (keyOf cfg r) = k then rc_TierResolver cfg k (snd (keyOf cfg r)) = t \<and> t0 \<le> now else True)
      | RlCleanup now \<Rightarrow> now \<le> t0 + rc_CleanupInterval cfg * 2)"

definition bucketInv :: "('l, 'r) bucketLib \<Rightarrow> 'r rateConfig \<Rightarrow> string \<Rightarrow> tier \<Rightarrow> int \<Rightarrow> rateEv list \<Rightarrow> 'l limiter \<times> rateEvent list \<Rightarrow> bool" where
  "bucketInv lib cfg k t t0 es s \<longleftrightarrow>
     ownBuckets (fst s) \<and> decisions k (snd s) = snd (bucketRun lib (newBucket lib cfg t) (keyTimes cfg k es)) \<and>
     (case gm_get (li_visitors (fst s)) k of
        None \<Rightarrow> keyTimes cfg k es = []
      | Some v \<Rightarrow> vi_tier v = t \<and> t0 \<le> vi_lastSeen v \<and>
          li_buckets (fst s) ! vi_limiter v = fst (bucketRun lib (newBucket lib cfg t) (keyTimes cfg k es)))"

lemma bucketInv_step:
  assumes inv: "bucketInv lib cfg k t t0 es s" and e: "steadyKey cfg k t t0 e"
  shows "bucketInv lib cfg k t t0 (es @ [e]) (rateStep lib cfg s e)"
proof (cases e)
  case (RlCleanup now)
  obtain l log where s: "s = (l, log)" by (cases s)
  have "li_buckets (cleanup cfg now l) = li_buckets l" by (simp add: cleanup_def Let_def)
  then show ?thesis
    using inv e RlCleanup s cleanup_own [of l cfg now]
    by (auto simp: bucketInv_def steadyKey_def keyTimes_append cleanup_get ownBuckets_def split: option.splits if_splits)
next
  case (RlRequest r now)
  obtain l log where s: "s = (l, log)" by (cases s)
  obtain key kt where key: "keyOf cfg r = (key, kt)" by (cases "keyOf cfg r")
  obtain l1 b where g: "getOrCreateLimiter lib cfg now key (rc_TierResolver cfg key kt) l = (l1, b)"
    by (cases "getOrCreateLimiter lib cfg now key (rc_TierResolver cfg key kt) l")
  obtain l2 ok ev where a: "Allow lib cfg now r l = (l2, ok, ev)" by (cases "Allow lib cfg now r l")
  have step: "rateStep lib cfg (l, log) e = (l2, log @ [ev])" by (simp add: RlRequest a)
  have allow: "l2 = l1\<lparr>li_buckets := (li_buckets l1)[b := snd (bl_allow lib now (li_buckets l1 ! b))]\<rparr>"
    "ev_Allowed ev = fst (bl_allow lib now (li_buckets l1 ! b))" "ev_Key ev = key"
    using Allow_limiter [of lib cfg now r l] Allow_event [of lib cfg now r l] a by (simp_all add: key g Let_def)
  have own: "ownBuckets l" and own1: "ownBuckets l1"
    using inv s getOrCreate_own [of l lib cfg now key "rc_TierResolver cfg key kt"] g by (auto simp: bucketInv_def)
  obtain v where v: "gm_get (li_visitors l1) key = Some v" "vi_limiter v = b" "vi_tier v = rc_TierResolver cfg key kt"
    using getOrCreate_get [of lib cfg now key "rc_TierResolver cfg key kt" l] g by auto
  have b: "b < length (li_buckets l1)" using own1 v unfolding ownBuckets_def by metis
  have own2: "ownBuckets l2" using Allow_own [OF own, of lib cfg now r] a by simp
  have dec: "decisions k (log @ [ev]) = decisions k log @ (if key = k then [ev_Allowed ev] else [])"
    by (simp add: decisions_def allow)
  show ?thesis
  proof (cases "key = k")
    case False
    have same: "gm_get (li_visitors l1) k = gm_get (li_visitors l) k"
      "\<And>i. i < length (li_buckets l) \<Longrightarrow> li_buckets l1 ! i = li_buckets l ! i"
      using False g by (auto simp: getOrCreateLimiter_def Let_def nth_append split: option.splits if_splits)
    have "vi_limiter u < length (li_buckets l) \<and> vi_limiter u \<noteq> b" if "gm_get (li_visitors l) k = Some u" for u
      using that own own1 v False same(1) unfolding ownBuckets_def by metis
    then have buckets: "li_buckets l2 ! vi_limiter u = li_buckets l ! vi_limiter u" if "gm_get (li_visitors l) k = Some u" for u
      using that same(2) by (simp add: allow(1))
    have "keyTimes cfg k (es @ [e]) = keyTimes cfg k es" using False by (simp add: keyTimes_append RlRequest key)
    moreover have "gm_get (li_visitors l2) k = gm_get (li_visitors l) k" using same by (simp add: allow(1))
    ultimately show ?thesis
      using inv own2 buckets dec False unfolding step bucketInv_def s by (auto split: option.splits)
  next
    case True
    have t: "rc_TierResolver cfg key kt = t" and now: "t0 \<le> now"
      using e RlRequest True key by (auto simp: steadyKey_def)
    have bucket: "li_buckets l1 ! b = fst (bucketRun lib (newBucket lib cfg t) (keyTimes cfg k es))"
      using inv True g unfolding t bucketInv_def s
      by (auto simp: getOrCreateLimiter_def Let_def split: option.splits if_splits)
    have "vi_lastSeen v = now \<or> gm_get (li_visitors l) key = Some v"
      using getOrCreate_seen [of lib cfg now key "rc_TierResolver cfg key kt" l v] g v by simp
    then have seen: "t0 \<le> vi_lastSeen v" "vi_tier v = t"
      using inv True v(3) t now unfolding bucketInv_def s by auto
    have times: "keyTimes cfg k (es @ [e]) = keyTimes cfg k es @ [now]" using True by (simp add: keyTimes_append RlRequest key)
    have "li_buckets l2 ! b = snd (bl_allow lib now (li_buckets l1 ! b))" using b by (simp add: allow(1))
    moreover have "gm_get (li_visitors l2) k = Some v" using v True by (simp add: allow(1))
    ultimately show ?thesis
      using inv own2 dec True seen v unfolding step bucketInv_def s times bucketRun_snoc
      by (simp add: allow(2) bucket)
  qed
qed

lemma request_keeps_visitor:
  assumes "gm_get (li_visitors l) k = Some v"
    and "fst (keyOf cfg r) = k \<Longrightarrow> rc_TierResolver cfg k (snd (keyOf cfg r)) = vi_tier v"
  shows "gm_get (li_visitors (fst (Allow lib cfg now r l))) k = Some v"
  using assms by (auto simp: Allow_limiter getOrCreateLimiter_def Let_def split: option.splits)

subsection \<open>Properties\<close>


definition demoLib :: "(int, int) bucketLib" where
  "demoLib = \<lparr>bl_new = (\<lambda>r b. b), bl_allow = (\<lambda>t n. (0 < n, n - 1)), bl_tokens = (\<lambda>t n. n), bl_resetAfter = (\<lambda>r. 1), bl_zeroRate = 0\<rparr>"

definition demoRateConfig :: "int rateConfig" where
  "demoRateConfig = \<lparr>rc_Tiers = [(''unauth'', \<lparr>tc_Rate = 1, tc_Burst = 1\<rparr>)], rc_KeyExtractor = (\<lambda>r. Inr (ExtractIP r, ''ip'')),
     rc_TierResolver = (\<lambda>k t. ''unauth''), rc_EventHandler = True, rc_CleanupInterval = 10, rc_warnBelow = (\<lambda>n. 0)\<rparr>"

definition demoHttpRequest :: "string \<Rightarrow> httpRequest" where
  "demoHttpRequest addr = \<lparr>hq_Method = ''GET'', hq_Path = ''/a'', hq_RawQuery = [], hq_RequestURI = ''/a'', hq_Header = [],
     hq_RemoteAddr = addr, hq_Body = []\<rparr>"

lemma demo_key: "keyOf demoRateConfig (demoHttpRequest addr) = (addr, ''ip'')"
  by (simp add: keyOf_def demoRateConfig_def ExtractIP_def demoHttpRequest_def headerGet_def)


text \<open>A limiter with its clean-up goroutine makes the steps of the limiter: what is shown for its runs holds for it.\<close>

lemma sweeper_refines:
  "\<exists>fs. (sp_limiter (foldl (sweepStep lib cfg) s es), sp_log (foldl (sweepStep lib cfg) s es)) =
        foldl (rateStep lib cfg) (sp_limiter s, sp_log s) fs"
proof (induction es arbitrary: s)
  case Nil
  then show ?case by (simp add: exI [of _ "[]"])
next
  case (Cons e es)
  let ?t = "sweepStep lib cfg s e"
  have "\<exists>f. (sp_limiter ?t, sp_log ?t) = foldl (rateStep lib cfg) (sp_limiter s, sp_log s) f"
  proof (cases e)
    case (SwTick now)
    then have "(sp_limiter ?t, sp_log ?t) =
        foldl (rateStep lib cfg) (sp_limiter s, sp_log s) (if sp_ticking s then [RlCleanup now] else [])" by simp
    then show ?thesis by blast
  next
    case (SwRequest r now)
    then have "(sp_limiter ?t, sp_log ?t) = foldl (rateStep lib cfg) (sp_limiter s, sp_log s) [RlRequest r now]"
      by (simp split: prod.split)
    then show ?thesis by blast
  qed (auto simp: StartCleanup_def intro!: exI [of _ "[]"])
  then obtain f where f: "(sp_limiter ?t, sp_log ?t) = foldl (rateStep lib cfg) (sp_limiter s, sp_log s) f" by blast
  from Cons [of ?t] obtain fs where "(sp_limiter (foldl (sweepStep lib cfg) ?t es), sp_log (foldl (sweepStep lib cfg) ?t es)) =
      foldl (rateStep lib cfg) (sp_limiter ?t, sp_log ?t) fs" by blast
  then show ?case unfolding f foldl_append [symmetric] foldl_Cons by blast
qed

text \<open>Once the context of the first \<open>StartCleanup\<close> has ended no visitor is removed any more, whatever
  contexts later calls bring.\<close>

lemma sweeping_ends_for_good:
  assumes "sp_started s" and "\<not> sp_ticking s" and "gm_get (li_visitors (sp_limiter s)) k \<noteq> None"
  shows "gm_get (li_visitors (sp_limiter (foldl (sweepStep lib cfg) s es))) k \<noteq> None"
  using assms
proof (induction es arbitrary: s)
  case (Cons e es)
  show ?case
  proof (cases e)
    case (SwRequest r now)
    then have "gm_get (li_visitors (sp_limiter (sweepStep lib cfg s e))) k \<noteq> None"
      using Cons.prems(3) by (auto simp: Allow_def getOrCreateLimiter_def Let_def split: option.splits if_splits prod.splits)
    then show ?thesis using Cons SwRequest by (auto split: prod.splits)
  qed (use Cons in \<open>simp_all add: StartCleanup_def\<close>)
qed simp

text \<open>A visitor that asks all the time is forgotten all the same: its last-seen time stays the time of
  its first request while its tier does not change, so a clean-up later than two intervals after that
  removes it, and its next request gets a full bucket.\<close>

theorem active_visitor_forgotten:
  assumes "gm_ok (li_visitors l)" and "gm_get (li_visitors l) k = Some v"
    and "list_all (\<lambda>e. case e of RlRequest r t \<Rightarrow> rc_TierResolver cfg k (snd (keyOf cfg r)) = vi_tier v \<or> fst (keyOf cfg r) \<noteq> k
                   | RlCleanup t \<Rightarrow> False) es"
    and "vi_lastSeen v + rc_CleanupInterval cfg * 2 < now" and "ownBuckets l"
  shows "gm_get (li_visitors (fst (rateStep lib cfg (foldl (rateStep lib cfg) (l, log) es) (RlCleanup now)))) k = None"
proof -
  have "ownBuckets (fst (foldl (rateStep lib cfg) (l, log) es)) \<and>
     gm_get (li_visitors (fst (foldl (rateStep lib cfg) (l, log) es))) k = Some v"
    using assms(2,3,5)
  proof (induction es arbitrary: l log)
    case (Cons e es)
    then obtain r t where e: "e = RlRequest r t" "rc_TierResolver cfg k (snd (keyOf cfg r)) = vi_tier v \<or> fst (keyOf cfg r) \<noteq> k"
      by (cases e) auto
    have "gm_get (li_visitors (fst (Allow lib cfg t r l))) k = Some v"
      by (rule request_keeps_visitor) (use Cons.prems e in auto)
    then have "ownBuckets (fst (foldl (rateStep lib cfg) (fst (Allow lib cfg t r l), log') es)) \<and>
       gm_get (li_visitors (fst (foldl (rateStep lib cfg) (fst (Allow lib cfg t r l), log') es))) k = Some v" for log'
      using Cons.prems by (intro Cons.IH) (simp_all add: Allow_own)
    then show ?case by (simp add: e case_prod_beta)
  qed simp
  then show ?thesis
    using assms(4) by (cases "foldl (rateStep lib cfg) (l, log) es") (simp add: cleanup_get ownBuckets_def)
qed

definition demoLimiter :: "int limiter" where
  "demoLimiter = fst (rateStep demoLib demoRateConfig (NewLimiter, []) (RlRequest (demoHttpRequest ''x'') 1))"

lemma active_visitor_forgotten_witness:
  "gm_get (li_visitors (fst (rateStep demoLib demoRateConfig
     (foldl (rateStep demoLib demoRateConfig) (demoLimiter, []) [RlRequest (demoHttpRequest ''x'') 11, RlRequest (demoHttpRequest ''x'') 21])
     (RlCleanup 22)))) ''x'' = None"
proof (rule active_visitor_forgotten)
  show "gm_ok (li_visitors demoLimiter)" "gm_get (li_visitors demoLimiter) ''x'' = Some \<lparr>vi_limiter = 0, vi_tier = ''unauth'', vi_lastSeen = 1\<rparr>"
    by code_simp+
  show "ownBuckets demoLimiter"
    by (simp add: demoLimiter_def case_prod_beta Allow_own ownBuckets_new)
qed (simp_all add: demoRateConfig_def)

text \<open>Both builders of middleware chains, the router's and the manager's, compose the middleware so
  that the first is the outermost; the manager's gives nil for no middleware.\<close>

theorem chains_compose:
  "buildMiddlewareChain ms h = foldr (\<lambda>m a. m a) ms h \<and>
   buildManagerChain ms h = (if ms = [] then None else Some (foldr (\<lambda>m a. m a) ms h))"
proof (cases ms rule: rev_cases)
  case (snoc ms' m)
  have "managerChainLoop ms (length ms') h (Some (m h)) = Some (foldr (\<lambda>m a. m a) (take (length ms') ms) (m h))"
    by (rule managerChainLoop_foldr) (simp add: snoc)
  then show ?thesis
    using chainLoop_foldr [of "length ms" ms h] snoc by (simp add: buildMiddlewareChain_def buildManagerChain_def)
qed (simp add: buildMiddlewareChain_def buildManagerChain_def)

text \<open>C27: middleware set on a REST route, any number of times, is taken off by \<open>RemoveMiddleware\<close>: the map
  of the endpoints and the route have the handler from before the first time again. If none has been
  set, they get a nil function instead of the handler they have.\<close>

theorem remove_restores_handler:
  assumes "restRoute k key m" and "gm_get (mm_originalHandlersMap m) key = None"
    and "gm_get (mm_endpointHandlerMap m) key = Some h" and "setAllMiddleware k mss m = Some m'"
  shows "\<exists>m''. RemoveMiddleware (Some k) m' = Some (m'', None) \<and>
     gm_get (mm_endpointHandlerMap m'') key = Some (if mss = [] then nilFunc else h) \<and>
     GetHandler k (mm_router m'') = Some (HandlerFunc (if mss = [] then nilFunc else h))"
proof -
  have e: "restRoute k key m'" "gm_get (mm_endpointHandlerMap m') key \<noteq> None"
    "gm_get (mm_originalHandlersMap m') key = (if mss = [] then None else Some h)"
    using setAll_effect [OF assms(1,4,3)] assms(2) by auto
  then obtain uri verb where u: "extractUriVerbFromRoute k m' = Some (uri, verb)" "uri @ ''-'' @ verb = key"
    by (auto simp: restRoute_def)
  have "k < length (ro_routes (mm_router m'))" using e(1) by (simp add: restRoute_def)
  then have "GetHandler k (RouteHandler k g (mm_router m')) = g" for g
    by (simp add: GetHandler_def RouteHandler_def updRoute_def markDirtyLocked_def)
  then show ?thesis using e(2,3) u by (auto simp: RemoveMiddleware_def Let_def)
qed

definition echoHandler :: handler where "echoHandler req w = Some (writeBody ''ok'' w)"

definition demoManager :: middlewareManager where
  "demoManager = NewMiddlewareManager [(''/a-GET'', echoHandler)]
     (RouteName 0 ''/a-GET'' (RouteMethods 0 [''GET''] (RouterHandle ''/a'' (Some (HandlerFunc echoHandler)) NewRouter)))"

lemma demoManager_simps:
  "restRoute 0 ''/a-GET'' demoManager" "mm_originalHandlersMap demoManager = []"
  "gm_get (mm_endpointHandlerMap demoManager) ''/a-GET'' = Some echoHandler"
  by (simp_all add: restRoute_def demoManager_def NewMiddlewareManager_def RouterHandle_def RoutePath_def addRoute_def
      RouteHandler_def RouteMethods_def RouteName_def updRoute_def markDirtyLocked_def NewRouter_def GetName_def
      extractUriVerbFromRoute_def lastIndexByte_def gm_empty_def gm_get_def Let_def)

lemma remove_restores_handler_witness:
  "\<exists>m' m''. SetNewMiddleware (Some 0) [BasicSecurityHeaderMiddleware] demoManager = Some (m', None) \<and>
     RemoveMiddleware (Some 0) m' = Some (m'', None) \<and>
     GetHandler 0 (mm_router m'') = Some (HandlerFunc (if [[BasicSecurityHeaderMiddleware]] = [] then nilFunc else echoHandler))"
proof -
  have key: "middlewareKey 0 demoManager = Some ''/a-GET''" by (rule restRoute_key [OF demoManager_simps(1)])
  have "\<exists>m'. SetNewMiddleware (Some 0) [BasicSecurityHeaderMiddleware] demoManager = Some (m', None)"
    by (simp add: SetNewMiddleware_def key demoManager_simps buildManagerChain_def BasicSecurityHeaderMiddleware_def Let_def)
  then obtain m' where m': "SetNewMiddleware (Some 0) [BasicSecurityHeaderMiddleware] demoManager = Some (m', None)" by blast
  then have "setAllMiddleware 0 [[BasicSecurityHeaderMiddleware]] demoManager = Some m'" by simp
  from remove_restores_handler [OF demoManager_simps(1) _ demoManager_simps(3) this]
  show ?thesis using m' demoManager_simps(2) by (auto simp: gm_get_def)
qed

text \<open>C8: a request is answered from the routes, methods, handlers and middleware as they are at that
  moment: over every sequence of registrations and requests the multiplexers that the router keeps
  cannot be told from ones built for the request.\<close>

theorem router_serves_current:
  "snd (RouterServeHTTP req w (foldl routerStep NewRouter ops)) =
   (case buildMuxes (foldl routerStep NewRouter ops) of
      None \<Rightarrow> None
    | Some m \<Rightarrow> serveWith (foldl routerStep NewRouter ops) m req w)"
proof -
  let ?r = "foldl routerStep NewRouter ops"
  have ok: "cacheOk ?r" by (rule routerCache.run_inv) (simp add: cacheOk_def NewRouter_def)
  have serve: "serveWith t m = serveWith ?r m"
    if "ro_MethodNotAllowedHandler t = ro_MethodNotAllowedHandler ?r" "ro_NotFoundHandler t = ro_NotFoundHandler ?r" for t m
    using that by (intro ext) (simp add: serveWith_def serveMux_def routeHandler_def split: muxResult.split)
  show ?thesis
  proof (cases "snapshot ?r")
    case None
    then have "buildMuxes ?r = None" by (auto simp: snapshot_def rebuildMuxLocked_def split: if_splits)
    then show ?thesis using None by (simp add: RouterServeHTTP_def)
  next
    case (Some t)
    then show ?thesis using snapshot_ok [OF ok Some] serve [of t] by (auto simp: RouterServeHTTP_def split: option.split)
  qed
qed

text \<open>C26: what the multiplexer finds for a request is a route: a registered one with a handler, whose pattern
  it is; and the route's handler, under all global middleware, is called only if the route takes the
  request's method exactly (HEAD is not GET), else the request is refused.\<close>

theorem served_by_registered_route:
  assumes "buildMuxes r = Some m" and "muxFind req (fst m) = MuxHandler p e" and "pt_text p \<noteq> []"
  shows "\<exists>rt h. rt \<in> set (ro_routes r) \<and> rt_handler rt = Some h \<and> pt_text p \<in> set (dispatchPatterns rt) \<and>
     serveWith r m req w =
       (if methodAllowed (rt_methods rt) (hq_Method req)
        then serves (foldr (\<lambda>m a. m a) (ro_middleware r) h) req w
        else serveMethodNotAllowed (ro_MethodNotAllowedHandler r) req w)"
proof -
  have "\<forall>(q, e) \<in> set (fst m). entryOf r q e"
    using rebuildLoop_in [of "ro_middleware r" "ro_routes r" "([], [])" "([], [])" m r] assms(1) by (simp add: buildMuxes_def)
  then obtain rt h where rt: "rt \<in> set (ro_routes r)" "rt_handler rt = Some h" "pt_text p \<in> set (dispatchPatterns rt)"
    "e = (rt_methods rt, foldr (\<lambda>m a. m a) (ro_middleware r) h)"
    using muxFind_in [OF assms(2)] unfolding entryOf_def by blast
  have "serveWith r m req w = routeHandler r e req w"
    using assms(2,3) by (simp add: serveWith_def serveMux_def muxPatternOf_def)
  then show ?thesis using rt by (auto simp: routeHandler_def methodAllowed_def)
qed

definition demoRouter :: router where
  "demoRouter = RouteMethods 0 [''GET''] (RouterHandle ''/users/{id}'' (Some (HandlerFunc echoHandler)) NewRouter)"

text \<open>Two routes with different methods at one path, which call its variable by different names.\<close>

definition twoNames :: "handlerVal \<Rightarrow> handlerVal \<Rightarrow> router" where
  "twoNames g h = RouteMethods 1 [''DELETE''] (RouterHandle ''/users/{userId}'' (Some h)
     (RouteMethods 0 [''GET''] (RouterHandle ''/users/{id}'' (Some g) NewRouter)))"

lemma twoNames_routes:
  "ro_routes (twoNames g h) =
     [\<lparr>rt_name = [], rt_path = ''/users/{id}'', rt_prefix = False, rt_methods = [''GET''], rt_handler = Some g\<rparr>,
      \<lparr>rt_name = [], rt_path = ''/users/{userId}'', rt_prefix = False, rt_methods = [''DELETE''], rt_handler = Some h\<rparr>]"
  "ro_middleware (twoNames g h) = []" "ro_dirty (twoNames g h)"
  by (simp_all add: twoNames_def RouterHandle_def RoutePath_def addRoute_def RouteHandler_def RouteMethods_def updRoute_def
      markDirtyLocked_def NewRouter_def normalizePath_def HasPrefix_def)

lemma twoNames_patterns:
  "serveMuxPathTemplate ''/users/{id}'' = ''/users/{id}''" "serveMuxPathTemplate ''/users/{userId}'' = ''/users/{userId}''"
  "exactMuxPattern ''/users/{id}'' = ''/users/{id}''" "exactMuxPattern ''/users/{userId}'' = ''/users/{userId}''"
  "parsePattern ''/users/{id}'' = Some \<lparr>pt_method = [], pt_segs = [PLit ''users'', PWild ''id''], pt_text = ''/users/{id}''\<rparr>"
  "parsePattern ''/users/{userId}'' = Some \<lparr>pt_method = [], pt_segs = [PLit ''users'', PWild ''userId''], pt_text = ''/users/{userId}''\<rparr>"
  "parsePattern ''GET /users/{id}'' = Some \<lparr>pt_method = ''GET'', pt_segs = [PLit ''users'', PWild ''id''], pt_text = ''GET /users/{id}''\<rparr>"
  "parsePattern ''DELETE /users/{userId}'' =
     Some \<lparr>pt_method = ''DELETE'', pt_segs = [PLit ''users'', PWild ''userId''], pt_text = ''DELETE /users/{userId}''\<rparr>"
  by code_simp+

lemma twoNames_build: "buildMuxes (twoNames g h) = None"
  by (simp add: buildMuxes_def twoNames_routes dispatchPatterns_def pathPatterns_def twoNames_patterns muxHandle_def
      conflictsWith_def compareMethods_def comparePaths_def endsMulti_def combineRelationships_def split: option.split)

text \<open>Two routes at one path with different methods that name its variable differently make the router
  fail for every request: the multiplexer of paths refuses the second pattern.\<close>

theorem variable_names_break_router:
  "snd (RouterServeHTTP req w (twoNames g h)) = None"
  by (simp add: RouterServeHTTP_def snapshot_def rebuildMuxLocked_def twoNames_build twoNames_routes)

text \<open>Either of the two alone is served.\<close>

definition demoUserRequest :: "string \<Rightarrow> httpRequest" where
  "demoUserRequest m = \<lparr>hq_Method = m, hq_Path = ''/users/7'', hq_RawQuery = [], hq_RequestURI = ''/users/7'', hq_Header = [],
     hq_RemoteAddr = ''1.2.3.4:5'', hq_Body = []\<rparr>"

lemma demoRouter_routes:
  "ro_routes demoRouter =
     [\<lparr>rt_name = [], rt_path = ''/users/{id}'', rt_prefix = False, rt_methods = [''GET''], rt_handler = Some (HandlerFunc echoHandler)\<rparr>]"
  "ro_middleware demoRouter = []" "ro_MethodNotAllowedHandler demoRouter = None"
  by (simp_all add: demoRouter_def RouterHandle_def RoutePath_def addRoute_def RouteHandler_def RouteMethods_def updRoute_def
      markDirtyLocked_def NewRouter_def normalizePath_def HasPrefix_def)

definition demoPattern :: muxPattern where
  "demoPattern = \<lparr>pt_method = ''GET'', pt_segs = [PLit ''users'', PWild ''id''], pt_text = ''GET /users/{id}''\<rparr>"

lemma demoRouter_build:
  "buildMuxes demoRouter =
     Some ([(demoPattern, ([''GET''], HandlerFunc echoHandler))],
           [(\<lparr>pt_method = [], pt_segs = [PLit ''users'', PWild ''id''], pt_text = ''/users/{id}''\<rparr>, ())])"
  by (simp add: buildMuxes_def demoRouter_routes dispatchPatterns_def pathPatterns_def twoNames_patterns muxHandle_def
      demoPattern_def buildMiddlewareChain_def)

lemma demo_find: "muxFind (demoUserRequest ''HEAD'') [(demoPattern, e)] = MuxHandler demoPattern e"
proof -
  have path: "cleanPath ''/users/7'' = ''/users/7''" "pathSegs ''/users/7'' = [''users'', ''7'']" by code_simp+
  show ?thesis
    by (simp add: muxFind_def demoUserRequest_def path muxMatch_def matchMethod_def restOf_def demoPattern_def exactMatch_def Let_def)
qed

lemma served_by_registered_route_witness:
  "\<exists>rt h. rt \<in> set (ro_routes demoRouter) \<and> rt_handler rt = Some h \<and> pt_text demoPattern \<in> set (dispatchPatterns rt) \<and>
     serveWith demoRouter
         ([(demoPattern, ([''GET''], HandlerFunc echoHandler))],
          [(\<lparr>pt_method = [], pt_segs = [PLit ''users'', PWild ''id''], pt_text = ''/users/{id}''\<rparr>, ())])
         (demoUserRequest ''HEAD'') freshWriter =
       (if methodAllowed (rt_methods rt) (hq_Method (demoUserRequest ''HEAD''))
        then serves (foldr (\<lambda>m a. m a) (ro_middleware demoRouter) h) (demoUserRequest ''HEAD'') freshWriter
        else serveMethodNotAllowed (ro_MethodNotAllowedHandler demoRouter) (demoUserRequest ''HEAD'') freshWriter)"
proof (rule served_by_registered_route [OF demoRouter_build])
  show "muxFind (demoUserRequest ''HEAD'')
      (fst ([(demoPattern, ([''GET''], HandlerFunc echoHandler))],
            [(\<lparr>pt_method = [], pt_segs = [PLit ''users'', PWild ''id''], pt_text = ''/users/{id}''\<rparr>, ())])) =
    MuxHandler demoPattern ([''GET''], HandlerFunc echoHandler)"
    by (simp add: demo_find)
qed (simp add: demoPattern_def)

subsection \<open>What else the code does\<close>

text \<open>The cache control middleware serves a request that matches no pattern twice, the second time with
  the header set.\<close>

lemma unmatched_request_served_twice:
  assumes "globs \<noteq> []" and "\<not> list_ex (\<lambda>g. g (hq_RequestURI req)) globs" and "serves h req w = Some w1"
  shows "cacheControlWrapper h globs c req w = serves h req (setHeader ''Cache-Control'' (directiveText c) w1)"
  using assms by (simp add: cacheControlWrapper_def)

lemma unmatched_request_doubles_body:
  "map_option hw_Body (cacheControlWrapper (HandlerFunc echoHandler) [\<lambda>u. False] [''no-cache''] req freshWriter) = Some ''okok''"
  by (simp add: cacheControlWrapper_def echoHandler_def writeBody_def WriteHeader_def setHeader_def freshWriter_def Let_def)

text \<open>Removing middleware from a prefix route, whose name has no dash, panics.\<close>

lemma remove_from_prefix_route_panics:
  "CHR ''-'' \<notin> set (GetName k (mm_router m)) \<Longrightarrow> RemoveMiddleware (Some k) m = None"
  by (simp add: RemoveMiddleware_def extractUriVerbFromRoute_def lastIndexByte_def indexByte_None [THEN iffD2] Let_def)

end
