(* ===== verification/RestBridge.thy ===== *)
theory RestBridge
  imports Middleware Services
begin

text \<open>
  plank/pkg/server/rest_bridge_registry.go and endpointer_handler_factory.go: the registry of the
  routes that bridge HTTP to service channels, over the model of the router and of the bus, and the
  life of a request on such a route. What \<open>buildHandler\<close> makes of a channel, a request builder, a
  timeout and a payload channel is an argument of the registry, as it is in the code; the handler
  that the server gives it is the machine at the end of this theory.
\<close>

subsection \<open>State\<close>

text \<open>A request builder reads the request and may write to the writer; without a request it panics.\<close>

type_synonym requestBuilder = "httpRequest \<Rightarrow> httpWriter \<Rightarrow> httpWriter \<times> request option"

record restBridgeConfig =
  bc_ServiceChannel :: string
  bc_Uri :: string
  bc_Method :: string
  bc_AllowHead :: bool
  bc_AllowOptions :: bool
  bc_FabricRequestBuilder :: requestBuilder

datatype httpBridgeMatchMode = HttpBridgeExact | HttpBridgePrefix

definition AllMethodsWildcard :: string where "AllMethodsWildcard = ''*''"

text \<open>A bridge is named by its index. Its payload channel holds at most 100 messages; the calls of its
  function that wait to put a message in are \<open>mb_blocked\<close>, in their order.\<close>

record messageBridge =
  mb_stream :: ref
  mb_payloads :: "message list"
  mb_blocked :: "message list"

definition payloadCapacity :: nat where "payloadCapacity = 100"

type_synonym buildHandlerFunc = "string \<Rightarrow> requestBuilder \<Rightarrow> int \<Rightarrow> nat \<Rightarrow> handler"

record restBridgeRegistry =
  rb_endpointHandlerMap :: "(string, handler) gomap"
  rb_serviceChanToBridgeEndpoints :: "(string, string list) gomap"
  rb_messageBridgeMap :: "(string, nat) gomap"
  rb_bridges :: "messageBridge list"
  rb_router :: router
  rb_eventBus :: bus
  rb_bridgeTimeout :: int

definition NewRestBridgeRegistry ::
  "router \<Rightarrow> (string, handler) gomap option \<Rightarrow> bus \<Rightarrow> int \<Rightarrow> restBridgeRegistry" where
  "NewRestBridgeRegistry router handlers b timeout =
     \<lparr>rb_endpointHandlerMap = (case handlers of None \<Rightarrow> gm_empty | Some m \<Rightarrow> m),
      rb_serviceChanToBridgeEndpoints = gm_empty, rb_messageBridgeMap = gm_empty, rb_bridges = [],
      rb_router = router, rb_eventBus = b, rb_bridgeTimeout = timeout\<rparr>"

subsection \<open>Registering\<close>

definition bridgeEndpointHandlerKey :: "restBridgeConfig \<Rightarrow> httpBridgeMatchMode \<Rightarrow> string" where
  "bridgeEndpointHandlerKey c mode =
     (case mode of
        HttpBridgePrefix \<Rightarrow> bc_Uri c @ ''-'' @ AllMethodsWildcard
      | HttpBridgeExact \<Rightarrow> bc_Uri c @ ''-'' @ bc_Method c)"

text \<open>The two functions given to \<open>Handle\<close> are named by the bridge's index.\<close>

definition ensureMessageBridge :: "svcIds \<Rightarrow> string \<Rightarrow> restBridgeRegistry \<Rightarrow> restBridgeRegistry \<times> nat option" where
  "ensureMessageBridge ids ch s =
     (case gm_get (rb_messageBridgeMap s) ch of
        Some n \<Rightarrow> (s, Some n)
      | None \<Rightarrow>
          (case ListenStream ch (si_handler ids) (rb_eventBus s) of
             (b, Inl e) \<Rightarrow> (s\<lparr>rb_eventBus := b\<rparr>, None)
           | (b, Inr r) \<Rightarrow>
               (let n = length (rb_bridges s) in
                (s\<lparr>rb_bridges := rb_bridges s @ [\<lparr>mb_stream = r, mb_payloads = [], mb_blocked = []\<rparr>],
                   rb_messageBridgeMap := gm_set ch n (rb_messageBridgeMap s),
                   rb_eventBus := Handle r (Some n) (Some n) (si_sub ids) b\<rparr>, Some n))))"

definition permittedMethods :: "restBridgeConfig \<Rightarrow> string list" where
  "permittedMethods c =
     [bc_Method c] @ (if bc_AllowHead c then [''HEAD''] else []) @ (if bc_AllowOptions c then [''OPTIONS''] else [])"

definition registerHttpBridgeRoute ::
  "restBridgeConfig \<Rightarrow> string \<Rightarrow> httpBridgeMatchMode \<Rightarrow> restBridgeRegistry \<Rightarrow> restBridgeRegistry" where
  "registerHttpBridgeRoute c key mode s =
     (let h = map_option HandlerFunc (gm_get (rb_endpointHandlerMap s) key) in
      case mode of
        HttpBridgePrefix \<Rightarrow>
          (let (r, k) = PathPrefix (bc_Uri c) (rb_router s)
           in s\<lparr>rb_router := RouteHandler k h (RouteName k key r)\<rparr>)
      | HttpBridgeExact \<Rightarrow>
          (let (r, k) = RoutePath (bc_Uri c) (rb_router s)
           in s\<lparr>rb_router := RouteHandler k h (RouteName k (bc_Uri c @ ''-'' @ bc_Method c)
                  (RouteMethods k (permittedMethods c) r))\<rparr>))"

definition endpointsOf :: "string \<Rightarrow> restBridgeRegistry \<Rightarrow> string list" where
  "endpointsOf ch s = (case gm_get (rb_serviceChanToBridgeEndpoints s) ch of None \<Rightarrow> [] | Some ks \<Rightarrow> ks)"

definition setBridge ::
  "buildHandlerFunc \<Rightarrow> svcIds \<Rightarrow> restBridgeConfig option \<Rightarrow> httpBridgeMatchMode \<Rightarrow> restBridgeRegistry \<Rightarrow> restBridgeRegistry" where
  "setBridge build ids config mode s =
     (case config of
        None \<Rightarrow> s
      | Some c \<Rightarrow>
          (let key = bridgeEndpointHandlerKey c mode; ch = bc_ServiceChannel c in
           if gm_get (rb_endpointHandlerMap s) key \<noteq> None then s
           else (let s1 = s\<lparr>rb_serviceChanToBridgeEndpoints :=
                        gm_set ch (endpointsOf ch s) (rb_serviceChanToBridgeEndpoints s)\<rparr>
                 in case ensureMessageBridge ids ch s1 of
                      (s2, None) \<Rightarrow> s2
                    | (s2, Some n) \<Rightarrow>
                        (let s3 = s2\<lparr>rb_endpointHandlerMap := gm_set key
                               (build ch (bc_FabricRequestBuilder c) (rb_bridgeTimeout s2) n) (rb_endpointHandlerMap s2),
                               rb_serviceChanToBridgeEndpoints :=
                                 gm_set ch (endpointsOf ch s2 @ [key]) (rb_serviceChanToBridgeEndpoints s2)\<rparr>
                         in registerHttpBridgeRoute c key mode s3))))"

definition SetExact :: "buildHandlerFunc \<Rightarrow> svcIds \<Rightarrow> restBridgeConfig option \<Rightarrow> restBridgeRegistry \<Rightarrow> restBridgeRegistry" where
  "SetExact build ids config s = setBridge build ids config HttpBridgeExact s"

definition SetPrefix :: "buildHandlerFunc \<Rightarrow> svcIds \<Rightarrow> restBridgeConfig option \<Rightarrow> restBridgeRegistry \<Rightarrow> restBridgeRegistry" where
  "SetPrefix build ids config s = setBridge build ids config HttpBridgePrefix s"

subsection \<open>Clearing\<close>

definition ClearForService :: "string \<Rightarrow> restBridgeRegistry \<Rightarrow> restBridgeRegistry \<times> router" where
  "ClearForService ch s =
     (let keys = endpointsOf ch s in
      (s\<lparr>rb_serviceChanToBridgeEndpoints := gm_set ch [] (rb_serviceChanToBridgeEndpoints s),
         rb_endpointHandlerMap := foldl (\<lambda>m k. gm_del k m) (rb_endpointHandlerMap s) keys\<rparr>,
       CloneExcluding (\<lambda>n. n \<in> set keys) (rb_router s)))"

definition bridgesSetRouter :: "router \<Rightarrow> restBridgeRegistry \<Rightarrow> restBridgeRegistry" where
  "bridgesSetRouter r s = s\<lparr>rb_router := r\<rparr>"

subsection \<open>The messages of a bridge\<close>

text \<open>A call of a bridge's function puts the message in the channel, or waits where it is full.
  The other function, for errors, does nothing.\<close>

definition putPayload :: "message \<Rightarrow> messageBridge \<Rightarrow> messageBridge" where
  "putPayload msg mb =
     (if length (mb_payloads mb) < payloadCapacity \<and> mb_blocked mb = []
      then mb\<lparr>mb_payloads := mb_payloads mb @ [msg]\<rparr>
      else mb\<lparr>mb_blocked := mb_blocked mb @ [msg]\<rparr>)"

definition dropError :: "err option \<Rightarrow> messageBridge \<Rightarrow> messageBridge" where
  "dropError e mb = mb"

text \<open>A receive from the channel; the first waiting call then puts its message in.\<close>

definition takePayload :: "messageBridge \<Rightarrow> (message \<times> messageBridge) option" where
  "takePayload mb =
     (case mb_payloads mb of
        [] \<Rightarrow> None
      | msg # ms \<Rightarrow>
          Some (msg, case mb_blocked mb of
                       [] \<Rightarrow> mb\<lparr>mb_payloads := ms\<rparr>
                     | x # xs \<Rightarrow> mb\<lparr>mb_payloads := ms @ [x], mb_blocked := xs\<rparr>))"

subsection \<open>Answering a request\<close>

text \<open>\<open>http.ResponseWriter.WriteHeader\<close> of a code that has not three digits panics, unless the status
  is written already; an informational code is sent at once and is not the status.\<close>

definition writeCode :: "int \<Rightarrow> httpWriter \<Rightarrow> httpWriter option" where
  "writeCode code w =
     (if hw_Status w \<noteq> None then Some w
      else if code < 100 \<or> 999 < code then None
      else if code < 200 \<and> code \<noteq> 101 then Some w
      else Some (WriteHeader (nat code) w))"

text \<open>What a handler leaves: the writer when it panics (\<open>Inl\<close>), or when it returns. \<open>json.Marshal\<close> and
  \<open>fmt.Sprint\<close> are arguments.\<close>

type_synonym served = "httpWriter + httpWriter"

definition writeCodeBody :: "int \<Rightarrow> (httpWriter \<Rightarrow> httpWriter) \<Rightarrow> httpWriter \<Rightarrow> served" where
  "writeCodeBody code g w = (case writeCode code w of None \<Rightarrow> Inl w | Some w' \<Rightarrow> Inr (g w'))"

record renderEnv =
  rn_marshal :: "gval \<Rightarrow> string res"
  rn_sprint :: "gval \<Rightarrow> string"
  rn_pointer :: "nat \<Rightarrow> bool"

fun setResponseHeaders :: "renderEnv \<Rightarrow> (string \<times> gval) list \<Rightarrow> httpWriter \<Rightarrow> httpWriter" where
  "setResponseHeaders env [] w = w"
| "setResponseHeaders env ((k, v) # hs) w = setResponseHeaders env hs (setHeader k (rn_sprint env v) w)"

definition ensureResponseInByteSlice :: "renderEnv \<Rightarrow> gval \<Rightarrow> string res" where
  "ensureResponseInByteSlice env body = (case body of GBytes bs \<Rightarrow> Inr bs | v \<Rightarrow> rn_marshal env v)"

text \<open>\<open>reflect.Pointer\<close>: the program passes its requests to a REST service or bridge, its session events and
  the answers of its stores as pointers; \<open>rn_pointer\<close> tells it of the values that are not named in
  \<open>gval\<close>.\<close>

definition isPointer :: "renderEnv \<Rightarrow> gval \<Rightarrow> bool" where
  "isPointer env v =
     (case v of
        GResponsePtr _ \<Rightarrow> True | GRequestPtr _ \<Rightarrow> True | GRestRequest _ \<Rightarrow> True | GSetupREST _ _ _ \<Rightarrow> True
      | GSession _ _ \<Rightarrow> True | GStoreContent _ _ _ \<Rightarrow> True | GStoreUpdate _ _ _ _ \<Rightarrow> True
      | GOther n \<Rightarrow> rn_pointer env n
      | _ \<Rightarrow> False)"

definition marshalError :: "renderEnv \<Rightarrow> gval \<Rightarrow> httpWriter \<Rightarrow> httpWriter" where
  "marshalError env v w = (case rn_marshal env v of Inl e \<Rightarrow> httpError e 500 w | Inr n \<Rightarrow> writeBody n w)"

definition renderError :: "renderEnv \<Rightarrow> response \<Rightarrow> httpWriter \<Rightarrow> served" where
  "renderError env r w =
     (let respBody = (if rs_Payload r \<noteq> GNil then rs_Payload r else GResponsePtr (Some r));
          w1 = setResponseHeaders env (rs_Headers r) w
      in if respBody \<noteq> GString [] then
           writeCodeBody (rs_ErrorCode r)
             (case respBody of
                GString s \<Rightarrow> writeBody s
              | v \<Rightarrow> if isPointer env v then marshalError env v else id) w1
         else if rs_ErrorObject r \<noteq> GNil then
           (case rn_marshal env respBody of
              Inl e \<Rightarrow> Inr (httpError e 500 w1)
            | Inr n \<Rightarrow> writeCodeBody (rs_ErrorCode r) (writeBody n) w1)
         else Inr w1)"

definition renderSuccess :: "renderEnv \<Rightarrow> response \<Rightarrow> httpWriter \<Rightarrow> served" where
  "renderSuccess env r w =
     (let w1 = setResponseHeaders env (rs_Headers r) w in
      case (if rs_Marshal r then ensureResponseInByteSlice env (rs_Payload r) else Inr (rn_sprint env (rs_Payload r))) of
        Inl e \<Rightarrow> Inr (httpError e 500 w1)
      | Inr bs \<Rightarrow>
          if rs_HttpStatusCode r \<noteq> 0 then writeCodeBody (rs_HttpStatusCode r) (writeBody bs) w1
          else Inr (writeBody bs w1))"

definition renderMessage :: "renderEnv \<Rightarrow> message \<Rightarrow> httpWriter \<Rightarrow> served" where
  "renderMessage env msg w =
     (case m_Error msg of
        Some e \<Rightarrow> Inr (httpError e 500 w)
      | None \<Rightarrow>
          (case m_Payload msg of
             GResponsePtr (Some r) \<Rightarrow> if rs_Error r then renderError env r w else renderSuccess env r w
           | _ \<Rightarrow> Inl w))"

text \<open>The deferred recovery answers a panic.\<close>

definition recovered :: "served \<Rightarrow> httpWriter" where
  "recovered r = (case r of Inl w \<Rightarrow> httpError ''Internal Server Error'' 500 w | Inr w \<Rightarrow> w)"

subsection \<open>The requests of a channel\<close>

text \<open>The handlers of all routes of a channel share its bridge. A request has a program counter:
  before the send, in the \<open>select\<close>, after it. \<open>es_answered\<close> logs the messages that were taken and
  the requests that took them.\<close>

datatype endpointPc = EpStart | EpSelect | EpDone

record endpointRequest =
  er_request :: httpRequest
  er_builder :: requestBuilder
  er_pc :: endpointPc
  er_writer :: httpWriter

record endpointState =
  es_channel :: string
  es_bus :: bus
  es_bridge :: messageBridge
  es_requests :: "endpointRequest list"
  es_answered :: "(nat \<times> message) list"

definition updRequest :: "nat \<Rightarrow> endpointPc \<Rightarrow> httpWriter \<Rightarrow> endpointState \<Rightarrow> endpointState" where
  "updRequest i pc w s =
     s\<lparr>es_requests := (es_requests s)[i := (es_requests s ! i)\<lparr>er_pc := pc, er_writer := w\<rparr>]\<rparr>"

text \<open>The request's builder and its message, sent with the request's context.\<close>

definition endpointSend :: "ctxref \<Rightarrow> uuid \<Rightarrow> nat option \<Rightarrow> nat \<Rightarrow> endpointState \<Rightarrow> endpointState" where
  "endpointSend ctx newId cutAt i s =
     (let e = es_requests s ! i in
      case er_builder e (er_request e) (er_writer e) of
        (w, None) \<Rightarrow> updRequest i EpDone (recovered (Inl w)) s
      | (w, Some req) \<Rightarrow>
          (case SendRequestMessageContext (Some ctx) (es_channel s) (GRequest req) (rq_Id req) newId cutAt (es_bus s) of
             (b, Some err) \<Rightarrow> updRequest i EpDone (httpError err 500 w) (s\<lparr>es_bus := b\<rparr>)
           | (b, None) \<Rightarrow> updRequest i EpSelect w (s\<lparr>es_bus := b\<rparr>)))"

definition endpointTimeout :: "string \<Rightarrow> nat \<Rightarrow> endpointState \<Rightarrow> endpointState" where
  "endpointTimeout timeout i s =
     updRequest i EpDone
       (httpError (''no response received from service channel in '' @ timeout @ '', request timed out'') 500
          (er_writer (es_requests s ! i))) s"

definition endpointReceive :: "renderEnv \<Rightarrow> nat \<Rightarrow> endpointState \<Rightarrow> endpointState" where
  "endpointReceive env i s =
     (case takePayload (es_bridge s) of
        None \<Rightarrow> s
      | Some (msg, mb) \<Rightarrow>
          updRequest i EpDone (recovered (renderMessage env msg (er_writer (es_requests s ! i))))
            (s\<lparr>es_bridge := mb, es_answered := es_answered s @ [(i, msg)]\<rparr>))"

datatype endpointEv =
    EpArrive httpRequest requestBuilder httpWriter
  | EpSend ctxref uuid "nat option" nat
  | EpTimeout string nat
  | EpReceive nat
  | EpCall message
  | EpCallError "err option"
  | EpBus brokerOracle busEv

definition atPc :: "endpointPc \<Rightarrow> nat \<Rightarrow> endpointState \<Rightarrow> bool" where
  "atPc pc i s \<longleftrightarrow> i < length (es_requests s) \<and> er_pc (es_requests s ! i) = pc"

fun endpointStep :: "renderEnv \<Rightarrow> endpointState \<Rightarrow> endpointEv \<Rightarrow> endpointState" where
  "endpointStep env s (EpArrive req build w) =
     s\<lparr>es_requests := es_requests s @ [\<lparr>er_request = req, er_builder = build, er_pc = EpStart, er_writer = w\<rparr>]\<rparr>"
| "endpointStep env s (EpSend ctx newId cutAt i) = (if atPc EpStart i s then endpointSend ctx newId cutAt i s else s)"
| "endpointStep env s (EpTimeout timeout i) = (if atPc EpSelect i s then endpointTimeout timeout i s else s)"
| "endpointStep env s (EpReceive i) = (if atPc EpSelect i s then endpointReceive env i s else s)"
| "endpointStep env s (EpCall msg) = s\<lparr>es_bridge := putPayload msg (es_bridge s)\<rparr>"
| "endpointStep env s (EpCallError e) = s\<lparr>es_bridge := dropError e (es_bridge s)\<rparr>"
| "endpointStep env s (EpBus br e) = s\<lparr>es_bus := busStep br (es_bus s) e\<rparr>"

end
