(* ===== verification/RestBridgeFacts.thy ===== *)
theory RestBridgeFacts
  imports RestBridge ServicesFacts
begin

text \<open>
  What holds of the REST bridges: the messages of a bridge are handed out in the order of their
  calls and once each, to whichever request waits; what a request is answered with; and which
  routes and handlers the registry keeps.
\<close>

subsection \<open>The payload channel\<close>

definition fullFirst :: "messageBridge \<Rightarrow> bool" where
  "fullFirst mb \<longleftrightarrow> length (mb_payloads mb) \<le> payloadCapacity \<and>
     (mb_blocked mb \<noteq> [] \<longrightarrow> length (mb_payloads mb) = payloadCapacity)"

definition held :: "messageBridge \<Rightarrow> message list" where
  "held mb = mb_payloads mb @ mb_blocked mb"

lemma put_held: "fullFirst mb \<Longrightarrow> held (putPayload msg mb) = held mb @ [msg] \<and> fullFirst (putPayload msg mb)"
  by (auto simp: fullFirst_def held_def putPayload_def)

lemma take_held:
  "fullFirst mb \<Longrightarrow> takePayload mb = Some (msg, mb') \<Longrightarrow> held mb = msg # held mb' \<and> fullFirst mb'"
  by (auto simp: fullFirst_def held_def takePayload_def split: list.splits)

subsection \<open>The requests of a channel\<close>

text \<open>Every message that was taken was taken by one request, which was answered with it.\<close>

definition answeredOk :: "renderEnv \<Rightarrow> endpointState \<Rightarrow> bool" where
  "answeredOk env s \<longleftrightarrow> fullFirst (es_bridge s) \<and> distinct (map fst (es_answered s)) \<and>
     (\<forall>(i, msg) \<in> set (es_answered s). atPc EpDone i s \<and>
        (\<exists>w. er_writer (es_requests s ! i) = recovered (renderMessage env msg w)))"

lemma atPc_upd:
  "i < length (es_requests s) \<Longrightarrow>
   atPc pc j (updRequest i pc' w s) \<longleftrightarrow> (if j = i then pc = pc' else atPc pc j s)"
  by (auto simp: atPc_def updRequest_def nth_list_update)

lemma atPc_bus [simp]:
  "atPc pc i (s\<lparr>es_bus := b\<rparr>) = atPc pc i s" "atPc pc i (s\<lparr>es_bridge := mb\<rparr>) = atPc pc i s"
  "atPc pc i (s\<lparr>es_bridge := mb, es_answered := a\<rparr>) = atPc pc i s"
  by (simp_all add: atPc_def)

lemma upd_sel [simp]:
  "es_bridge (updRequest i pc w s) = es_bridge s" "es_answered (updRequest i pc w s) = es_answered s"
  "es_bus (updRequest i pc w s) = es_bus s" "length (es_requests (updRequest i pc w s)) = length (es_requests s)"
  by (simp_all add: updRequest_def)

lemma answeredOk_upd:
  assumes "answeredOk env s" and "atPc pc i s" and "pc \<noteq> EpDone"
  shows "answeredOk env (updRequest i pc' w s)"
proof -
  have i: "i < length (es_requests s)" using assms(2) by (simp add: atPc_def)
  have "atPc EpDone j (updRequest i pc' w s) \<and> es_requests (updRequest i pc' w s) ! j = es_requests s ! j"
    if "(j, msg) \<in> set (es_answered s)" for j msg
  proof -
    have "atPc EpDone j s" using that assms(1) by (auto simp: answeredOk_def)
    then have "j \<noteq> i" using assms(2,3) by (auto simp: atPc_def)
    then show ?thesis using \<open>atPc EpDone j s\<close> i by (simp add: atPc_upd) (simp add: updRequest_def)
  qed
  then show ?thesis using assms(1) by (fastforce simp: answeredOk_def)
qed

lemma answeredOk_bus [simp]: "answeredOk env (s\<lparr>es_bus := b\<rparr>) = answeredOk env s"
  by (simp add: answeredOk_def)

lemma answeredOk_log:
  assumes "answeredOk env s" and "atPc EpSelect i s" and "fullFirst mb"
  shows "answeredOk env (updRequest i EpDone (recovered (renderMessage env msg w))
     (s\<lparr>es_bridge := mb, es_answered := es_answered s @ [(i, msg)]\<rparr>))"
proof -
  let ?s = "updRequest i EpDone (recovered (renderMessage env msg w)) s"
  have i: "i < length (es_requests s)" using assms(2) by (simp add: atPc_def)
  have "i \<notin> fst ` set (es_answered s)" using assms(1,2) by (auto simp: answeredOk_def atPc_def)
  moreover have "answeredOk env ?s" using answeredOk_upd [OF assms(1,2)] by simp
  moreover have "atPc EpDone i ?s" "er_writer (es_requests ?s ! i) = recovered (renderMessage env msg w)"
    using i by (simp_all add: atPc_upd) (simp add: updRequest_def)
  moreover have "updRequest i EpDone (recovered (renderMessage env msg w))
      (s\<lparr>es_bridge := mb, es_answered := es_answered s @ [(i, msg)]\<rparr>) =
      ?s\<lparr>es_bridge := mb, es_answered := es_answered ?s @ [(i, msg)]\<rparr>" by (simp add: updRequest_def)
  ultimately show ?thesis using assms(3) by (auto simp: answeredOk_def)
qed

lemma answeredOk_receive:
  assumes "answeredOk env s" and "atPc EpSelect i s"
  shows "answeredOk env (endpointReceive env i s)"
proof (cases "takePayload (es_bridge s)")
  case None
  then show ?thesis using assms by (simp add: endpointReceive_def)
next
  case (Some p)
  then obtain msg mb where t: "takePayload (es_bridge s) = Some (msg, mb)" by (cases p) auto
  then have "fullFirst mb" using assms(1) take_held by (auto simp: answeredOk_def)
  then show ?thesis using t answeredOk_log [OF assms] by (simp add: endpointReceive_def)
qed

lemma send_upd:
  obtains b pc w where "endpointSend ctx newId cutAt i s = updRequest i pc w (s\<lparr>es_bus := b\<rparr>)"
proof -
  let ?e = "es_requests s ! i"
  obtain w r where b: "er_builder ?e (er_request ?e) (er_writer ?e) = (w, r)" by fastforce
  show ?thesis
  proof (cases r)
    case None
    then show ?thesis using b that [of EpDone _ "es_bus s"] by (simp add: endpointSend_def)
  next
    case (Some req)
    obtain b' err where "SendRequestMessageContext (Some ctx) (es_channel s) (GRequest req) (rq_Id req) newId cutAt
        (es_bus s) = (b', err)" by fastforce
    then show ?thesis using b Some that by (cases err) (simp_all add: endpointSend_def)
  qed
qed

lemma answeredOk_step: "answeredOk env s \<Longrightarrow> answeredOk env (endpointStep env s e)"
proof (cases e)
  case (EpArrive req build w)
  assume "answeredOk env s"
  then show ?thesis by (fastforce simp: EpArrive answeredOk_def atPc_def nth_append)
next
  case (EpSend ctx newId cutAt i)
  assume a: "answeredOk env s"
  obtain b pc w where "endpointSend ctx newId cutAt i s = updRequest i pc w (s\<lparr>es_bus := b\<rparr>)"
    by (rule send_upd)
  then show ?thesis using a answeredOk_upd [of env "s\<lparr>es_bus := b\<rparr>" EpStart i] by (simp add: EpSend)
next
  case (EpTimeout timeout i)
  assume "answeredOk env s"
  then show ?thesis using answeredOk_upd [of env s EpSelect i] by (simp add: EpTimeout endpointTimeout_def)
next
  case (EpReceive i)
  assume "answeredOk env s"
  then show ?thesis using answeredOk_receive by (simp add: EpReceive)
next
  case (EpCall msg)
  assume "answeredOk env s"
  then show ?thesis using put_held by (fastforce simp: EpCall answeredOk_def)
qed (simp_all add: dropError_def)

interpretation endpoint: machine "endpointStep env" "answeredOk env" for env
  by unfold_locales (rule answeredOk_step)

text \<open>The calls of the bridge's function in a run.\<close>

fun bridgeCalls :: "endpointEv list \<Rightarrow> message list" where
  "bridgeCalls [] = []"
| "bridgeCalls (EpCall msg # es) = msg # bridgeCalls es"
| "bridgeCalls (_ # es) = bridgeCalls es"

lemma step_held:
  assumes "answeredOk env s"
  shows "map snd (es_answered (endpointStep env s e)) @ held (es_bridge (endpointStep env s e)) =
     map snd (es_answered s) @ held (es_bridge s) @ bridgeCalls [e]"
proof (cases e)
  case (EpSend ctx newId cutAt i)
  obtain b pc w where "endpointSend ctx newId cutAt i s = updRequest i pc w (s\<lparr>es_bus := b\<rparr>)"
    by (rule send_upd)
  then show ?thesis by (simp add: EpSend)
next
  case (EpReceive i)
  show ?thesis
  proof (cases "takePayload (es_bridge s)")
    case (Some p)
    then obtain msg mb where t: "takePayload (es_bridge s) = Some (msg, mb)" by (cases p) auto
    then show ?thesis using assms take_held [OF _ t] by (simp add: EpReceive endpointReceive_def answeredOk_def)
  qed (simp add: EpReceive endpointReceive_def)
next
  case (EpCall msg)
  then show ?thesis using assms put_held by (simp add: answeredOk_def)
qed (simp_all add: endpointTimeout_def dropError_def)

lemma bridgeCalls_append: "bridgeCalls (es @ es') = bridgeCalls es @ bridgeCalls es'"
  by (induction es rule: bridgeCalls.induct) auto

lemma run_held:
  "answeredOk env s \<Longrightarrow>
   map snd (es_answered (foldl (endpointStep env) s es)) @ held (es_bridge (foldl (endpointStep env) s es)) =
     map snd (es_answered s) @ held (es_bridge s) @ bridgeCalls es"
proof (induction es rule: rev_induct)
  case (snoc e es)
  then show ?case
    using step_held [OF endpoint.run_inv [OF snoc.prems, of es], of e] by (simp add: bridgeCalls_append)
qed simp

definition newEndpoint :: "string \<Rightarrow> bus \<Rightarrow> ref \<Rightarrow> endpointState" where
  "newEndpoint ch b r =
     \<lparr>es_channel = ch, es_bus = b, es_bridge = \<lparr>mb_stream = r, mb_payloads = [], mb_blocked = []\<rparr>,
      es_requests = [], es_answered = []\<rparr>"

text \<open>C9: The messages of a channel's bridge are used once each and in the order in which the bus
  calls the bridge with them: those taken by requests, then those in the payload channel, then those
  whose delivery goroutine waits for room. No request takes two, a request that took one is done
  with the rendering of it, and deliveries wait only while the channel holds its hundred.\<close>

theorem bridge_messages_once_in_order:
  assumes "t = foldl (endpointStep env) (newEndpoint ch b r) es"
  shows "map snd (es_answered t) @ mb_payloads (es_bridge t) @ mb_blocked (es_bridge t) = bridgeCalls es \<and>
     distinct (map fst (es_answered t)) \<and>
     (\<forall>(i, msg) \<in> set (es_answered t). atPc EpDone i t \<and>
        (\<exists>w. er_writer (es_requests t ! i) = recovered (renderMessage env msg w))) \<and>
     (mb_blocked (es_bridge t) \<noteq> [] \<longrightarrow> length (mb_payloads (es_bridge t)) = payloadCapacity)"
proof -
  have "answeredOk env (newEndpoint ch b r)" by (simp add: answeredOk_def newEndpoint_def fullFirst_def)
  then have "answeredOk env t" "map snd (es_answered t) @ held (es_bridge t) = bridgeCalls es"
    using endpoint.run_inv run_held [of env "newEndpoint ch b r" es] unfolding assms
    by (simp_all add: newEndpoint_def held_def)
  then show ?thesis by (simp add: answeredOk_def fullFirst_def held_def)
qed


definition demoRenderEnv :: renderEnv where
  "demoRenderEnv = \<lparr>rn_marshal = (\<lambda>v. Inr ''json''), rn_sprint = (\<lambda>v. case v of GString s \<Rightarrow> s | _ \<Rightarrow> []), rn_pointer = (\<lambda>n. False)\<rparr>"

definition demoBridgeBus :: bus where
  "demoBridgeBus = onMgr (\<lambda>m. fst (CreateChannel ''svc'' m)) newBus"

text \<open>Two requests; the answers to both arrive before either is taken.\<close>

definition demoGet :: httpRequest where
  "demoGet = \<lparr>hq_Method = ''GET'', hq_Path = ''/a'', hq_RawQuery = [], hq_RequestURI = ''/a'', hq_Header = [],
     hq_RemoteAddr = [], hq_Body = []\<rparr>"

definition demoBuilder :: "uuid \<Rightarrow> requestBuilder" where
  "demoBuilder i = (\<lambda>req w. (w, Some (Request (Some i) [] GNil ''cmd'' None)))"

definition demoAnswer :: "uuid \<Rightarrow> string \<Rightarrow> message" where
  "demoAnswer i body = GenerateResponse i (buildConfig i ''svc''
     (GResponsePtr (Some (Response (Some i) ''svc'' (GString body) 0 False 0 [] GNil None [] False))) (Some i))"

definition demoWaiting :: endpointState where
  "demoWaiting = foldl (endpointStep demoRenderEnv) (newEndpoint ''svc'' demoBridgeBus 0)
     [EpArrive demoGet (demoBuilder 1) freshWriter, EpArrive demoGet (demoBuilder 2) freshWriter,
      EpSend CBackground 11 None 0, EpSend CBackground 12 None 1]"



lemma demoBus_channel: "GetChannel ''svc'' (bu_mgr demoBridgeBus) = Inr 0"
  by (simp add: demoBridgeBus_def onMgr_def newBus_def newManager_def CreateChannel_def
        GetChannel_def SendMonitorEvent_def Let_def)

lemma send_accepted:
  assumes "GetChannel ch (bu_mgr b) = Inr r"
  shows "\<exists>b'. SendRequestMessageContext (Some CBackground) ch p d newId cutAt b = (b', None) \<and>
    GetChannel ch (bu_mgr b') = Inr r"
proof -
  have "GetChannel ch (bu_mgr (dispatchOn r cutAt ctx msg b)) = Inr r" for ctx msg
    using assms by (auto simp: dispatchOn_def onMgr_def setChan_def GetChannel_def Let_def split: prod.split option.split)
  then show ?thesis using assms
    by (simp add: SendRequestMessageContext_def sendMessageContext_def normalizeContext_def ctxErrOf_def messageFor_def)
qed

lemma send_selects:
  assumes "GetChannel (es_channel s) (bu_mgr (es_bus s)) = Inr r"
    and "er_builder (es_requests s ! i) (er_request (es_requests s ! i)) (er_writer (es_requests s ! i)) = (w, Some req)"
  shows "\<exists>b. endpointSend CBackground newId cutAt i s = updRequest i EpSelect w (s\<lparr>es_bus := b\<rparr>) \<and>
    GetChannel (es_channel s) (bu_mgr b) = Inr r"
  using send_accepted [OF assms(1), of "GRequest req" "rq_Id req" newId cutAt] assms(2)
  by (auto simp: endpointSend_def)

lemma demoWaiting_simps:
  "atPc EpSelect 0 demoWaiting" "atPc EpSelect 1 demoWaiting"
  "er_writer (es_requests demoWaiting ! 0) = freshWriter" "er_writer (es_requests demoWaiting ! 1) = freshWriter"
  "mb_payloads (es_bridge demoWaiting) = []" "mb_blocked (es_bridge demoWaiting) = []"
  "es_answered demoWaiting = []" "er_builder (es_requests demoWaiting ! 1) = demoBuilder 2"
proof -
  define s where "s = foldl (endpointStep demoRenderEnv) (newEndpoint ''svc'' demoBridgeBus 0)
     [EpArrive demoGet (demoBuilder 1) freshWriter, EpArrive demoGet (demoBuilder 2) freshWriter]"
  have g: "GetChannel (es_channel s) (bu_mgr (es_bus s)) = Inr 0"
    by (simp add: s_def newEndpoint_def demoBus_channel)
  have e: "er_builder (es_requests s ! 0) (er_request (es_requests s ! 0)) (er_writer (es_requests s ! 0)) =
      (freshWriter, Some (Request (Some 1) [] GNil ''cmd'' None))"
    by (simp add: s_def newEndpoint_def demoBuilder_def)
  have c: "es_channel s = ''svc''" by (simp add: s_def newEndpoint_def)
  obtain b where b: "endpointSend CBackground 11 None 0 s = updRequest 0 EpSelect freshWriter (s\<lparr>es_bus := b\<rparr>)"
      "GetChannel (es_channel s) (bu_mgr b) = Inr 0"
    using send_selects [OF g e, of 11 None] by blast
  define t where "t = updRequest 0 EpSelect freshWriter (s\<lparr>es_bus := b\<rparr>)"
  have g': "GetChannel (es_channel t) (bu_mgr (es_bus t)) = Inr 0" using b(2) by (simp add: t_def updRequest_def)
  have e': "er_builder (es_requests t ! 1) (er_request (es_requests t ! 1)) (er_writer (es_requests t ! 1)) =
      (freshWriter, Some (Request (Some 2) [] GNil ''cmd'' None))"
    by (simp add: t_def s_def updRequest_def newEndpoint_def demoBuilder_def)
  obtain b' where b': "endpointSend CBackground 12 None 1 t = updRequest 1 EpSelect freshWriter (t\<lparr>es_bus := b'\<rparr>)"
    using send_selects [OF g' e', of 12 None] by blast
  have d: "demoWaiting = updRequest 1 EpSelect freshWriter (t\<lparr>es_bus := b'\<rparr>)"
    using b(1) b' by (simp add: demoWaiting_def s_def [symmetric] t_def atPc_def updRequest_def)
      (simp add: s_def newEndpoint_def)
  show "atPc EpSelect 0 demoWaiting" "atPc EpSelect 1 demoWaiting"
    "er_writer (es_requests demoWaiting ! 0) = freshWriter" "er_writer (es_requests demoWaiting ! 1) = freshWriter"
    "mb_payloads (es_bridge demoWaiting) = []" "mb_blocked (es_bridge demoWaiting) = []"
    "es_answered demoWaiting = []" "er_builder (es_requests demoWaiting ! 1) = demoBuilder 2"
    by (simp_all add: d t_def s_def updRequest_def newEndpoint_def atPc_def)
qed


definition demoAnswers :: "endpointEv list" where
  "demoAnswers = [EpArrive demoGet (demoBuilder 1) freshWriter, EpSend CBackground 11 None 0,
     EpCall (demoAnswer 2 ''for two''), EpCall (demoAnswer 1 ''for one''), EpReceive 0]"

lemma bridge_messages_once_in_order_witness:
  "map snd (es_answered (foldl (endpointStep demoRenderEnv) (newEndpoint ''svc'' demoBridgeBus 0) demoAnswers)) @
   mb_payloads (es_bridge (foldl (endpointStep demoRenderEnv) (newEndpoint ''svc'' demoBridgeBus 0) demoAnswers)) @
   mb_blocked (es_bridge (foldl (endpointStep demoRenderEnv) (newEndpoint ''svc'' demoBridgeBus 0) demoAnswers)) =
   [demoAnswer 2 ''for two'', demoAnswer 1 ''for one'']"
  using bridge_messages_once_in_order [OF refl, of demoRenderEnv "''svc''" demoBridgeBus 0 demoAnswers]
  by (simp add: demoAnswers_def)

text \<open>A response is not matched with its request: when a request of a channel has timed out and
  its response arrives afterwards, any other request that waits on the channel is answered with it,
  whatever the response's destination.\<close>

theorem late_response_answers_other:
  assumes "atPc EpSelect i s" and "atPc EpSelect j s" and "i \<noteq> j"
    and "mb_payloads (es_bridge s) = []" and "mb_blocked (es_bridge s) = []"
    and "t = foldl (endpointStep env) s [EpTimeout timeout i, EpCall msg, EpReceive j]"
  shows "atPc EpDone j t \<and> es_answered t = es_answered s @ [(j, msg)] \<and>
     er_writer (es_requests t ! j) = recovered (renderMessage env msg (er_writer (es_requests s ! j)))"
proof -
  have "j < length (es_requests s)" "er_pc (es_requests s ! j) = EpSelect" using assms(2) by (simp_all add: atPc_def)
  then show ?thesis using assms
    by (simp add: atPc_def endpointTimeout_def endpointReceive_def updRequest_def putPayload_def takePayload_def
        payloadCapacity_def)
qed

theorem late_response_answers_other_witness:
  "m_DestinationId (demoAnswer 1 ''for one'') = Some 1 \<and>
   er_builder (es_requests demoWaiting ! 1) demoGet freshWriter = (freshWriter, Some (Request (Some 2) [] GNil ''cmd'' None)) \<and>
   hw_Body (er_writer (es_requests (foldl (endpointStep demoRenderEnv) demoWaiting
     [EpTimeout ''1m0s'' 0, EpCall (demoAnswer 1 ''for one''), EpReceive 1]) ! 1)) = ''for one''"
proof -
  have "er_builder (es_requests demoWaiting ! 1) = demoBuilder 2" by (rule demoWaiting_simps(8))
  moreover have "hw_Body (recovered (renderMessage demoRenderEnv (demoAnswer 1 ''for one'') freshWriter)) = ''for one''"
    by code_simp
  moreover have "m_DestinationId (demoAnswer 1 ''for one'') = Some 1" by code_simp
  moreover note late_response_answers_other [OF demoWaiting_simps(1,2) _ demoWaiting_simps(5,6) refl,
      of demoRenderEnv "''1m0s''" "demoAnswer 1 ''for one''"]
  ultimately show ?thesis unfolding demoWaiting_simps(4) by (simp only: demoBuilder_def)
qed


subsection \<open>What a request is answered with\<close>

text \<open>The status and the body that reach the client; without a status the server sends 200.\<close>

definition clientStatus :: "httpWriter \<Rightarrow> nat" where
  "clientStatus w = (case hw_Status w of None \<Rightarrow> 200 | Some c \<Rightarrow> c)"

definition validStatus :: "int \<Rightarrow> bool" where
  "validStatus code \<longleftrightarrow> 200 \<le> code \<and> code \<le> 999"

lemma setResponseHeaders_sel [simp]:
  "hw_Status (setResponseHeaders env hs w) = hw_Status w" "hw_Body (setResponseHeaders env hs w) = hw_Body w"
  by (induction env hs w rule: setResponseHeaders.induct) simp_all

lemma status_write: "hw_Status w = Some c \<Longrightarrow> hw_Status (writeBody s w) = Some c"
  by (simp add: writeBody_def WriteHeader_def Let_def)

lemma fresh_write:
  "hw_Status w = None \<Longrightarrow> hw_Status (writeBody s w) = Some 200"
  "hw_Status w = None \<Longrightarrow> hw_Status (WriteHeader c w) = Some c"
  "hw_Body (writeBody s w) = hw_Body w @ s"
  by (simp_all add: writeBody_def WriteHeader_def Let_def split: option.split)

lemma httpError_fresh:
  "hw_Status w = None \<Longrightarrow> hw_Status (httpError e c w) = Some c" "hw_Body (httpError e c w) = hw_Body w @ e @ [CHR 0x0A]"
  by (simp_all add: httpError_def fresh_write status_write)

lemma httpError_status: "hw_Status w = Some c \<Longrightarrow> hw_Status (httpError e c' w) = Some c"
  by (simp add: httpError_def status_write WriteHeader_def setHeader_def)

definition answerText :: "renderEnv \<Rightarrow> response \<Rightarrow> string res" where
  "answerText env r =
     (if rs_Marshal r then (case rs_Payload r of GBytes bs \<Rightarrow> Inr bs | v \<Rightarrow> rn_marshal env v)
      else Inr (rn_sprint env (rs_Payload r)))"

text \<open>A response without its error flag is answered with its payload, as bytes, as JSON or as
  text, under its status, or 200 if it has none; a payload that cannot be encoded gives 500 with the
  encoder's error, and a status that is no final one gives 500.\<close>

theorem success_response_answered:
  assumes "hw_Status w = None" and "hw_Body w = []" and "rs_Error r = False"
    and "m_Error msg = None" and "m_Payload msg = GResponsePtr (Some r)"
    and "rs_HttpStatusCode r = 0 \<or> \<not> (100 \<le> rs_HttpStatusCode r \<and> rs_HttpStatusCode r < 200)"
  shows "(clientStatus (recovered (renderMessage env msg w)), hw_Body (recovered (renderMessage env msg w))) =
     (case answerText env r of
        Inl e \<Rightarrow> (500, e @ [CHR 0x0A])
      | Inr body \<Rightarrow>
          if rs_HttpStatusCode r = 0 then (200, body)
          else if validStatus (rs_HttpStatusCode r) then (nat (rs_HttpStatusCode r), body)
          else (500, ''Internal Server Error'' @ [CHR 0x0A]))"
proof (cases "answerText env r")
  case (Inl e)
  then show ?thesis using assms(1-5)
    by (simp add: renderMessage_def renderSuccess_def answerText_def ensureResponseInByteSlice_def recovered_def
        clientStatus_def httpError_fresh split: if_splits)
next
  case (Inr body)
  then have "renderMessage env msg w =
      (if rs_HttpStatusCode r \<noteq> 0
       then writeCodeBody (rs_HttpStatusCode r) (writeBody body) (setResponseHeaders env (rs_Headers r) w)
       else Inr (writeBody body (setResponseHeaders env (rs_Headers r) w)))"
    using assms(3-5)
    by (simp add: renderMessage_def renderSuccess_def answerText_def ensureResponseInByteSlice_def split: if_splits)
  then show ?thesis using assms(1,2,6) Inr
    by (auto simp: recovered_def clientStatus_def writeCodeBody_def writeCode_def validStatus_def fresh_write
        status_write httpError_fresh)
qed

lemma success_response_answered_witness:
  "(clientStatus (recovered (renderMessage demoRenderEnv (demoAnswer 1 ''ok'') freshWriter)),
    hw_Body (recovered (renderMessage demoRenderEnv (demoAnswer 1 ''ok'') freshWriter))) = (200, ''ok'')"
  using success_response_answered [of freshWriter "Response (Some 1) ''svc'' (GString ''ok'') 0 False 0 [] GNil None [] False"
      "demoAnswer 1 ''ok''" demoRenderEnv]
  by (simp add: freshWriter_def demoAnswer_def GenerateResponse_def checkId_def buildConfig_def zeroConfig_def
      answerText_def demoRenderEnv_def)

definition errorBody :: "renderEnv \<Rightarrow> response \<Rightarrow> string" where
  "errorBody env r =
     (let v = (if rs_Payload r \<noteq> GNil then rs_Payload r else GResponsePtr (Some r)) in
      case v of
        GString s \<Rightarrow> s
      | _ \<Rightarrow> if isPointer env v then (case rn_marshal env v of Inl e \<Rightarrow> e @ [CHR 0x0A] | Inr n \<Rightarrow> n) else [])"

text \<open>A response with its error flag is answered with its error code, if that is a final status,
  and 500 if it is no status at all. The body is a payload string, the JSON of a payload pointer, the
  JSON of the response when there is no payload, and nothing for a payload of any other kind. With an
  empty string as payload and no error object the client gets status 200 and no body.\<close>

theorem error_response_answered:
  assumes "hw_Status w = None" and "hw_Body w = []" and "rs_Error r = True"
    and "m_Error msg = None" and "m_Payload msg = GResponsePtr (Some r)"
    and "a = recovered (renderMessage env msg w)"
  shows "(rs_Payload r \<noteq> GString [] \<and> validStatus (rs_ErrorCode r) \<longrightarrow>
       clientStatus a = nat (rs_ErrorCode r) \<and> hw_Body a = errorBody env r) \<and>
     (rs_Payload r \<noteq> GString [] \<and> \<not> (100 \<le> rs_ErrorCode r \<and> rs_ErrorCode r \<le> 999) \<longrightarrow>
       clientStatus a = 500 \<and> hw_Body a = ''Internal Server Error'' @ [CHR 0x0A]) \<and>
     (rs_Payload r = GString [] \<and> rs_ErrorObject r = GNil \<longrightarrow> clientStatus a = 200 \<and> hw_Body a = [])"
proof (cases "rs_Payload r = GString []")
  case True
  then show ?thesis using assms
    by (simp add: renderMessage_def renderError_def recovered_def clientStatus_def)
next
  case False
  let ?v = "if rs_Payload r \<noteq> GNil then rs_Payload r else GResponsePtr (Some r)"
  let ?g = "case ?v of GString s \<Rightarrow> writeBody s | v \<Rightarrow> if isPointer env v then marshalError env v else id"
  let ?w = "setResponseHeaders env (rs_Headers r) w"
  have a: "a = recovered (writeCodeBody (rs_ErrorCode r) ?g ?w)"
    using assms(3-6) False by (simp add: renderMessage_def renderError_def Let_def)
  have g: "hw_Status (?g w') = Some c \<and> hw_Body (?g w') = hw_Body w' @ errorBody env r" if "hw_Status w' = Some c" for w' c
    using that
    by (cases ?v) (simp_all add: errorBody_def Let_def isPointer_def marshalError_def status_write fresh_write(3)
        httpError_status httpError_fresh(2) split: sum.split)
  show ?thesis using False assms(1,2) g [OF fresh_write(2) [of ?w "nat (rs_ErrorCode r)"]]
    by (auto simp: a recovered_def clientStatus_def writeCodeBody_def writeCode_def validStatus_def httpError_fresh)
qed


definition demoFailure :: message where
  "demoFailure = GenerateResponse 1 (buildConfig 1 ''svc''
     (GResponsePtr (Some (Response (Some 1) ''svc'' (GString ''no such item'') 0 True 404 [] GNil None [] False))) (Some 1))"

lemma error_response_answered_witness:
  "clientStatus (recovered (renderMessage demoRenderEnv demoFailure freshWriter)) = 404 \<and>
   hw_Body (recovered (renderMessage demoRenderEnv demoFailure freshWriter)) = ''no such item''"
  using error_response_answered [of freshWriter
      "Response (Some 1) ''svc'' (GString ''no such item'') 0 True 404 [] GNil None [] False" demoFailure, OF _ _ _ _ _ refl,
      of demoRenderEnv]
  by (simp add: freshWriter_def demoFailure_def GenerateResponse_def checkId_def buildConfig_def zeroConfig_def
      validStatus_def errorBody_def)

subsection \<open>What a bridge hears\<close>

lemma newMessageHandler_new:
  assumes "newMessageHandler name opts ids b = (b', Inr r)"
  shows "r = length (bu_mh b) \<and> length (bu_mh b') = Suc r \<and> \<not> mh_setupOnce (mhAt b' r) \<and>
         mh_direction (mhAt b' r) = mo_direction opts \<and> mh_ignoreId (mhAt b' r) = mo_ignoreId opts \<and>
         mh_runOnce (mhAt b' r) = mo_runOnce opts \<and> mh_allTraffic (mhAt b' r) = mo_allTraffic opts"
  using assms
  by (auto simp: newMessageHandler_def wrapMessageHandler_def createMessageHandler_def
      Let_def mhAt_def split: sum.splits if_splits)

lemma ensureMessageBridge_new:
  assumes "gm_get (rb_messageBridgeMap s) ch = None" and "ensureMessageBridge ids ch s = (t, Some n)"
  obtains b1 h where "ListenStream ch (si_handler ids) (rb_eventBus s) = (b1, Inr h)"
      "t = s\<lparr>rb_bridges := rb_bridges s @ [\<lparr>mb_stream = h, mb_payloads = [], mb_blocked = []\<rparr>],
             rb_messageBridgeMap := gm_set ch n (rb_messageBridgeMap s),
             rb_eventBus := Handle h (Some n) (Some n) (si_sub ids) b1\<rparr>" "n = length (rb_bridges s)"
proof -
  obtain b1 lr where l: "ListenStream ch (si_handler ids) (rb_eventBus s) = (b1, lr)" by fastforce
  then obtain h where h: "lr = Inr h" using assms by (cases lr) (simp_all add: ensureMessageBridge_def)
  have "(t, Some n) = ensureMessageBridge ids ch s" using assms(2) by simp
  also have "\<dots> = (s\<lparr>rb_bridges := rb_bridges s @ [\<lparr>mb_stream = h, mb_payloads = [], mb_blocked = []\<rparr>],
             rb_messageBridgeMap := gm_set ch (length (rb_bridges s)) (rb_messageBridgeMap s),
             rb_eventBus := Handle h (Some (length (rb_bridges s))) (Some (length (rb_bridges s))) (si_sub ids) b1\<rparr>,
             Some (length (rb_bridges s)))"
    using assms(1) by (simp add: ensureMessageBridge_def l h Let_def)
  finally show ?thesis using that l h by simp
qed

text \<open>A new bridge's handler takes every response on its channel, whatever the response's
  destination, from then on in every run of the bus. An error message calls only the bridge's error
  function, which drops it, so the request that waits is not answered.\<close>

theorem bridge_hears_every_response:
  assumes "gm_get (rb_messageBridgeMap s) ch = None" and "ensureMessageBridge ids ch s = (t, Some n)"
    and "b = foldl (busStep br) (rb_eventBus t) es" and "ctxErrOf b ctx = None"
    and "r = mb_stream (rb_bridges t ! n)"
  shows "(m_Direction msg = ResponseDir \<longrightarrow>
        bu_calls (handlerWrapper r ctx msg b) = bu_calls b @ [SuccessCall r n ctx msg]) \<and>
     (m_Direction msg = ErrorDir \<longrightarrow>
        bu_calls (handlerWrapper r ctx msg b) = bu_calls b @ [ErrorCall r n ctx (m_Error msg)] \<and>
        dropError (m_Error msg) (rb_bridges t ! n) = rb_bridges t ! n)"
proof -
  obtain b1 h where l: "ListenStream ch (si_handler ids) (rb_eventBus s) = (b1, Inr h)"
      "t = s\<lparr>rb_bridges := rb_bridges s @ [\<lparr>mb_stream = h, mb_payloads = [], mb_blocked = []\<rparr>],
             rb_messageBridgeMap := gm_set ch n (rb_messageBridgeMap s),
             rb_eventBus := Handle h (Some n) (Some n) (si_sub ids) b1\<rparr>" "n = length (rb_bridges s)"
    using ensureMessageBridge_new [OF assms(1,2)] .
  have r: "r = h" using l(2,3) assms(5) by (simp add: nth_append)
  have h: "h < length (bu_mh b1)" "\<not> mh_setupOnce (mhAt b1 h)" "mh_direction (mhAt b1 h) = ResponseDir"
    "mh_ignoreId (mhAt b1 h)" "\<not> mh_runOnce (mhAt b1 h)" "\<not> mh_allTraffic (mhAt b1 h)"
    using newMessageHandler_new [OF l(1) [unfolded ListenStream_def]] by (auto simp: zeroOptions_def)
  note set = HandleContext_sets [OF h(1,2), of "Some CBackground" "Some n" "Some n" "si_sub ids"]
  let ?b = "HandleContext h (Some CBackground) (Some n) (Some n) (si_sub ids) b1"
  have "rb_eventBus t = ?b" using l(2) by (simp add: Handle_def)
  then have "keepsHandlers ?b b" using keeps_run assms(3) by simp
  then have "setupView (mhAt b h) = setupView (mhAt ?b h)" using h(1) set(1,8) by (simp add: keepsHandlers_def)
  then have v: "mh_successHandler (mhAt b h) = Some n" "mh_errorHandler (mhAt b h) = Some n"
    "mh_direction (mhAt b h) = ResponseDir" "mh_ignoreId (mhAt b h)" "\<not> mh_allTraffic (mhAt b h)"
    "\<not> mh_runOnce (mhAt b h)" "mh_handlerContext (mhAt b h) = Some CBackground"
    using set h by (simp_all add: setupView_def normalizeContext_def)
  have "\<not> blockedHandler b h ctx" using v assms(4) by (simp add: blockedHandler_def handlerCtxDone_def ctxErrOf_def)
  then have "callsMade b h ctx msg = (if m_Direction msg = ErrorDir then [ErrorCall h n ctx (m_Error msg)]
      else if m_Direction msg = ResponseDir then [SuccessCall h n ctx msg] else [])"
    using v by (simp add: callsMade_def wantsMessage_def)
  then show ?thesis by (simp add: wrapper_calls r ResponseDir_def ErrorDir_def dropError_def)
qed


lemma demo_listens: "\<exists>b r. ListenStream ''svc'' ids demoBridgeBus = (b, Inr r)"
  using demoBus_channel by (simp add: ListenStream_def newMessageHandler_def zeroOptions_def Let_def)

lemma bridge_hears_every_response_witness:
  "\<exists>t r. ensureMessageBridge demoSvcIds ''svc'' (NewRestBridgeRegistry NewRouter None demoBridgeBus 60) = (t, Some 0) \<and>
     bu_calls (handlerWrapper r CBackground (demoAnswer 5 ''x'') (rb_eventBus t)) =
       bu_calls (rb_eventBus t) @ [SuccessCall r 0 CBackground (demoAnswer 5 ''x'')]"
proof -
  let ?s = "NewRestBridgeRegistry NewRouter None demoBridgeBus 60"
  obtain b r where "ListenStream ''svc'' (si_handler demoSvcIds) demoBridgeBus = (b, Inr r)" using demo_listens by blast
  then obtain t where t: "ensureMessageBridge demoSvcIds ''svc'' ?s = (t, Some 0)"
    by (simp add: ensureMessageBridge_def NewRestBridgeRegistry_def Let_def)
  have "gm_get (rb_messageBridgeMap ?s) ''svc'' = None" "m_Direction (demoAnswer 5 ''x'') = ResponseDir"
    by (simp_all add: NewRestBridgeRegistry_def demoAnswer_def GenerateResponse_def)
  with bridge_hears_every_response [OF _ t, of "rb_eventBus t" demoOracle "[]" CBackground _ "demoAnswer 5 ''x''"] t
  show ?thesis by (auto simp: ctxErrOf_def)
qed

end
