(* ===== verification/BridgeRegistryFacts.thy ===== *)
theory BridgeRegistryFacts
  imports RestBridgeFacts "HOL-Library.Sublist"
begin

text \<open>
  What holds of the registry of REST bridges: which routes and handlers are registered after any
  sequence of registrations and overrides, what clearing a service removes, and what is lost when a
  registration comes between clearing and the installation of the rebuilt router.
\<close>

subsection \<open>Names in a router\<close>

text \<open>Each named route is found under its name.\<close>

definition namedOk :: "router \<Rightarrow> bool" where
  "namedOk r \<longleftrightarrow>
     (\<forall>k < length (ro_routes r). rt_name (ro_routes r ! k) \<noteq> [] \<longrightarrow>
        gm_get (ro_named r) (rt_name (ro_routes r ! k)) = Some k) \<and>
     (\<forall>n k. gm_get (ro_named r) n = Some k \<longrightarrow> n \<noteq> [] \<and> k < length (ro_routes r) \<and> rt_name (ro_routes r ! k) = n)"

definition addNamed :: "route \<Rightarrow> router \<Rightarrow> router" where
  "addNamed rt r =
     r\<lparr>ro_routes := ro_routes r @ [rt],
       ro_named := (if rt_name rt \<noteq> [] then gm_set (rt_name rt) (length (ro_routes r)) (ro_named r) else ro_named r)\<rparr>"

lemma addNamed_ok:
  assumes "namedOk r" and "rt_name rt \<noteq> [] \<Longrightarrow> gm_get (ro_named r) (rt_name rt) = None"
  shows "namedOk (addNamed rt r)"
proof -
  have "rt_name (ro_routes r ! k) \<noteq> rt_name rt" if "k < length (ro_routes r)" "rt_name (ro_routes r ! k) \<noteq> []" for k
    using that assms by (metis namedOk_def option.distinct(1))
  then show ?thesis using assms(1)
    by (fastforce simp: namedOk_def addNamed_def nth_append less_Suc_eq split: if_splits)
qed

lemma cloneRoutes_addNamed:
  "cloneRoutes ns (rt # rts) c = cloneRoutes ns rts (if ns (rt_name rt) then c else addNamed rt c)"
  by (simp add: addNamed_def Let_def)

lemma cloneRoutes_ok:
  assumes "namedOk c" and "distinct (filter (\<lambda>n. n \<noteq> []) (map rt_name rts))"
    and "\<And>n. n \<in> rt_name ` set rts \<Longrightarrow> n \<noteq> [] \<Longrightarrow> gm_get (ro_named c) n = None"
  shows "namedOk (cloneRoutes ns rts c) \<and>
     ro_routes (cloneRoutes ns rts c) = ro_routes c @ filter (\<lambda>rt. \<not> ns (rt_name rt)) rts"
  using assms
proof (induction rts arbitrary: c)
  case (Cons rt rts)
  let ?c = "if ns (rt_name rt) then c else addNamed rt c"
  have "namedOk ?c" using Cons.prems(1,3) addNamed_ok by simp
  moreover have "gm_get (ro_named ?c) n = None" if "n \<in> rt_name ` set rts" "n \<noteq> []" for n
  proof -
    have "rt_name rt \<noteq> [] \<Longrightarrow> rt_name rt \<notin> rt_name ` set rts" using Cons.prems(2) by simp
    then have "n \<noteq> rt_name rt" using that by blast
    then show ?thesis using that Cons.prems(3) by (simp add: addNamed_def)
  qed
  moreover have "distinct (filter (\<lambda>n. n \<noteq> []) (map rt_name rts))" using Cons.prems(2) by (simp split: if_splits)
  ultimately have "namedOk (cloneRoutes ns rts ?c) \<and>
      ro_routes (cloneRoutes ns rts ?c) = ro_routes ?c @ filter (\<lambda>rt. \<not> ns (rt_name rt)) rts"
    using Cons.IH [of ?c] by blast
  then show ?case by (simp add: cloneRoutes_addNamed addNamed_def del: cloneRoutes.simps)
qed simp

lemma namedOk_distinct:
  assumes "namedOk r"
  shows "distinct (filter (\<lambda>n. n \<noteq> []) (map rt_name (ro_routes r)))"
proof -
  have "i = j" if "i < length (ro_routes r)" "j < length (ro_routes r)" "rt_name (ro_routes r ! i) \<noteq> []"
      "rt_name (ro_routes r ! i) = rt_name (ro_routes r ! j)" for i j
    using that assms by (metis namedOk_def option.inject)
  then have "distinct (filter (\<lambda>n. n \<noteq> []) (map rt_name xs))"
    if "prefix xs (ro_routes r)" for xs
    using that
  proof (induction xs rule: rev_induct)
    case (snoc x xs)
    have x: "length xs < length (ro_routes r)" "ro_routes r ! length xs = x"
      using snoc.prems(2) by (auto simp: prefix_def nth_append)
    have "rt_name x \<noteq> rt_name y" if y: "y \<in> set xs" "rt_name x \<noteq> []" for y
    proof -
      obtain i where i: "i < length xs" "xs ! i = y" using y(1) by (auto simp: in_set_conv_nth)
      then have "ro_routes r ! i = y" using snoc.prems(2) by (auto simp: prefix_def nth_append)
      then show ?thesis using snoc.prems(1) [of "length xs" i] x i y(2) by auto
    qed
    then show ?case using snoc by (force simp: append_prefixD)
  qed simp
  then show ?thesis by simp
qed

lemma CloneExcluding_ok:
  assumes "namedOk r"
  shows "namedOk (CloneExcluding ns r) \<and>
     ro_routes (CloneExcluding ns r) = filter (\<lambda>rt. \<not> ns (rt_name rt)) (ro_routes r)"
proof -
  let ?c = "NewRouter\<lparr>ro_NotFoundHandler := ro_NotFoundHandler r,
      ro_MethodNotAllowedHandler := ro_MethodNotAllowedHandler r, ro_middleware := ro_middleware r\<rparr>"
  have "namedOk ?c" "ro_routes ?c = []" "ro_named ?c = gm_empty" by (simp_all add: namedOk_def NewRouter_def)
  then show ?thesis
    using cloneRoutes_ok [of ?c "ro_routes r" ns] namedOk_distinct [OF assms] unfolding CloneExcluding_def by simp
qed

subsection \<open>The registry\<close>

text \<open>Every endpoint of a service has its handler, and the route of its name has that handler; the
  endpoints of all services are different; a name of the router is a key of the handlers.\<close>

definition endpointServed :: "restBridgeRegistry \<Rightarrow> string \<Rightarrow> bool" where
  "endpointServed s key \<longleftrightarrow>
     (\<exists>h k. gm_get (rb_endpointHandlerMap s) key = Some h \<and> RouterGet key (rb_router s) = Some k \<and>
        GetName k (rb_router s) = key \<and> GetHandler k (rb_router s) = Some (HandlerFunc h))"

definition registryOk :: "restBridgeRegistry \<Rightarrow> bool" where
  "registryOk s \<longleftrightarrow> namedOk (rb_router s) \<and>
     (\<forall>ch. distinct (endpointsOf ch s)) \<and>
     (\<forall>ch ch' key. key \<in> set (endpointsOf ch s) \<and> key \<in> set (endpointsOf ch' s) \<longrightarrow> ch = ch') \<and>
     (\<forall>ch. \<forall>key \<in> set (endpointsOf ch s). endpointServed s key) \<and>
     (\<forall>n. gm_get (ro_named (rb_router s)) n \<noteq> None \<longrightarrow> gm_get (rb_endpointHandlerMap s) n \<noteq> None)"

lemma key_nonempty [simp]: "bridgeEndpointHandlerKey c mode \<noteq> []"
  by (cases mode) (simp_all add: bridgeEndpointHandlerKey_def)

definition bridgeRoute :: "restBridgeConfig \<Rightarrow> httpBridgeMatchMode \<Rightarrow> handlerVal option \<Rightarrow> route" where
  "bridgeRoute c mode h =
     \<lparr>rt_name = bridgeEndpointHandlerKey c mode, rt_path = normalizePath (bc_Uri c), rt_prefix = (mode = HttpBridgePrefix),
      rt_methods = (if mode = HttpBridgePrefix then [] else permittedMethods c), rt_handler = h\<rparr>"

lemma registerHttpBridgeRoute_router:
  "registerHttpBridgeRoute c (bridgeEndpointHandlerKey c mode) mode s =
     s\<lparr>rb_router := markDirtyLocked (addNamed (bridgeRoute c mode
         (map_option HandlerFunc (gm_get (rb_endpointHandlerMap s) (bridgeEndpointHandlerKey c mode)))) (rb_router s))\<rparr>"
  by (cases mode)
    (simp_all add: registerHttpBridgeRoute_def PathPrefix_def RoutePath_def addRoute_def RouteHandler_def RouteName_def
      RouteMethods_def updRoute_def markDirtyLocked_def addNamed_def bridgeRoute_def bridgeEndpointHandlerKey_def Let_def
      nth_append)

lemma namedOk_dirty [simp]: "namedOk (markDirtyLocked r) = namedOk r"
  by (simp add: namedOk_def markDirtyLocked_def)


lemma endpointServed_cong:
  "rb_router t = rb_router s \<Longrightarrow> rb_endpointHandlerMap t = rb_endpointHandlerMap s \<Longrightarrow> endpointServed t = endpointServed s"
  by (simp add: endpointServed_def fun_eq_iff)

lemma registryOk_cong:
  assumes "rb_router t = rb_router s" and "rb_endpointHandlerMap t = rb_endpointHandlerMap s"
    and "\<And>ch. endpointsOf ch t = endpointsOf ch s"
  shows "registryOk t = registryOk s"
  using endpointServed_cong [OF assms(1,2)] assms by (simp add: registryOk_def)

lemma ensureMessageBridge_keeps:
  assumes "ensureMessageBridge ids ch s = (t, n)"
  shows "rb_router t = rb_router s \<and> rb_endpointHandlerMap t = rb_endpointHandlerMap s \<and>
     rb_bridgeTimeout t = rb_bridgeTimeout s \<and>
     rb_serviceChanToBridgeEndpoints t = rb_serviceChanToBridgeEndpoints s"
proof (cases "gm_get (rb_messageBridgeMap s) ch")
  case None
  obtain b1 lr where "ListenStream ch (si_handler ids) (rb_eventBus s) = (b1, lr)" by fastforce
  then show ?thesis using assms None by (cases lr) (auto simp: ensureMessageBridge_def Let_def)
qed (use assms in \<open>auto simp: ensureMessageBridge_def\<close>)

text \<open>The registry with one more bridged endpoint.\<close>

definition addEndpoint :: "restBridgeConfig \<Rightarrow> httpBridgeMatchMode \<Rightarrow> handler \<Rightarrow> restBridgeRegistry \<Rightarrow> restBridgeRegistry" where
  "addEndpoint c mode h s =
     (let key = bridgeEndpointHandlerKey c mode; ch = bc_ServiceChannel c in
      s\<lparr>rb_endpointHandlerMap := gm_set key h (rb_endpointHandlerMap s),
        rb_serviceChanToBridgeEndpoints := gm_set ch (endpointsOf ch s @ [key]) (rb_serviceChanToBridgeEndpoints s),
        rb_router := markDirtyLocked (addNamed (bridgeRoute c mode (Some (HandlerFunc h))) (rb_router s))\<rparr>)"

lemma endpointsOf_sets:
  "endpointsOf ch (s\<lparr>rb_serviceChanToBridgeEndpoints := gm_set ch' ks m\<rparr>) =
     (if ch = ch' then ks else case gm_get m ch of None \<Rightarrow> [] | Some ks \<Rightarrow> ks)"
  by (simp add: endpointsOf_def)

lemma setBridge_cases:
  assumes "t = setBridge build ids (Some c) mode s"
  obtains (same) "rb_router t = rb_router s" "rb_endpointHandlerMap t = rb_endpointHandlerMap s"
      "\<And>ch. endpointsOf ch t = endpointsOf ch s"
  | (added) s2 n where "t = addEndpoint c mode
          (build (bc_ServiceChannel c) (bc_FabricRequestBuilder c) (rb_bridgeTimeout s) n) s2"
      "gm_get (rb_endpointHandlerMap s) (bridgeEndpointHandlerKey c mode) = None"
      "rb_router s2 = rb_router s" "rb_endpointHandlerMap s2 = rb_endpointHandlerMap s"
      "\<And>ch. endpointsOf ch s2 = endpointsOf ch s"
proof -
  let ?ch = "bc_ServiceChannel c" and ?key = "bridgeEndpointHandlerKey c mode"
  let ?s1 = "s\<lparr>rb_serviceChanToBridgeEndpoints := gm_set ?ch (endpointsOf ?ch s) (rb_serviceChanToBridgeEndpoints s)\<rparr>"
  have e1: "endpointsOf ch ?s1 = endpointsOf ch s" for ch by (simp add: endpointsOf_def)
  obtain s2 n where e: "ensureMessageBridge ids ?ch ?s1 = (s2, n)" by fastforce
  note k = ensureMessageBridge_keeps [OF e]
  then have e2: "endpointsOf ch s2 = endpointsOf ch s" for ch using e1 by (simp add: endpointsOf_def)
  show ?thesis
  proof (cases "gm_get (rb_endpointHandlerMap s) ?key")
    case (Some h)
    then show ?thesis using assms same by (simp add: setBridge_def)
  next
    case None
    show ?thesis
    proof (cases n)
      case None
      then show ?thesis using \<open>gm_get (rb_endpointHandlerMap s) ?key = None\<close> assms e k e2 same
        by (simp add: setBridge_def Let_def)
    next
      case (Some i)
      then show ?thesis using None assms e k e2 added [of i s2]
        by (simp add: setBridge_def Let_def registerHttpBridgeRoute_router addEndpoint_def)
    qed
  qed
qed


lemma addNamed_get:
  assumes "namedOk r" and "gm_get (ro_named r) (rt_name rt) = None"
  shows "RouterGet n (markDirtyLocked (addNamed rt r)) =
       (if n = rt_name rt \<and> n \<noteq> [] then Some (length (ro_routes r)) else RouterGet n r)"
    and "RouterGet n r = Some k \<Longrightarrow> ro_routes (markDirtyLocked (addNamed rt r)) ! k = ro_routes r ! k"
    and "ro_routes (markDirtyLocked (addNamed rt r)) ! length (ro_routes r) = rt"
  using assms by (auto simp: RouterGet_def addNamed_def markDirtyLocked_def namedOk_def nth_append)

lemma registryOk_add:
  assumes "registryOk s" and new: "gm_get (rb_endpointHandlerMap s) (bridgeEndpointHandlerKey c mode) = None"
  shows "registryOk (addEndpoint c mode h s)" and "endpointServed (addEndpoint c mode h s) (bridgeEndpointHandlerKey c mode)"
    and "key \<noteq> bridgeEndpointHandlerKey c mode \<Longrightarrow> endpointServed s key \<Longrightarrow> endpointServed (addEndpoint c mode h s) key"
proof -
  let ?key = "bridgeEndpointHandlerKey c mode" and ?t = "addEndpoint c mode h s"
  let ?rt = "bridgeRoute c mode (Some (HandlerFunc h))"
  have named: "namedOk (rb_router s)" using assms(1) by (simp add: registryOk_def)
  have name: "rt_name ?rt = ?key" "rt_handler ?rt = Some (HandlerFunc h)" by (simp_all add: bridgeRoute_def)
  have free: "gm_get (ro_named (rb_router s)) (rt_name ?rt) = None" using assms by (auto simp: registryOk_def name)
  have router: "rb_router ?t = markDirtyLocked (addNamed ?rt (rb_router s))" by (simp add: addEndpoint_def Let_def)
  note get = addNamed_get [OF named free]
  have ends: "endpointsOf ch ?t = (if ch = bc_ServiceChannel c then endpointsOf ch s @ [?key] else endpointsOf ch s)" for ch
    by (simp add: addEndpoint_def endpointsOf_def Let_def)
  show new_served: "endpointServed ?t ?key"
    by (simp add: endpointServed_def router get(1) name GetName_def GetHandler_def get(3))
      (simp add: addEndpoint_def Let_def)
  show old_served: "endpointServed ?t k" if "k \<noteq> ?key" "endpointServed s k" for k
    using that get(1) [of k] get(2) [of k]
    by (fastforce simp: endpointServed_def router name GetName_def GetHandler_def addEndpoint_def Let_def)
  have absent: "?key \<notin> set (endpointsOf ch s)" for ch
    using assms by (force simp: registryOk_def endpointServed_def)
  have "namedOk (rb_router ?t)" using named free addNamed_ok by (simp add: router)
  moreover have "gm_get (rb_endpointHandlerMap ?t) n \<noteq> None" if "gm_get (ro_named (rb_router ?t)) n \<noteq> None" for n
    using that assms(1) get(1) [of n] unfolding router RouterGet_def name
    by (auto simp: registryOk_def addEndpoint_def Let_def split: if_splits)
  moreover have "endpointServed ?t k" if "k \<in> set (endpointsOf ch ?t)" for k ch
  proof (cases "k = ?key")
    case False
    then show ?thesis using that old_served assms(1) by (auto simp: ends registryOk_def split: if_splits)
  qed (simp add: new_served)
  moreover have "distinct (endpointsOf ch ?t)" for ch using assms(1) absent by (simp add: ends registryOk_def)
  moreover have "ch = ch'" if "k \<in> set (endpointsOf ch ?t)" "k \<in> set (endpointsOf ch' ?t)" for k ch ch'
  proof (cases "k = ?key")
    case True
    then show ?thesis using that absent by (auto simp: ends split: if_splits)
  next
    case False
    then have "k \<in> set (endpointsOf ch s)" "k \<in> set (endpointsOf ch' s)" using that by (auto simp: ends split: if_splits)
    then show ?thesis using assms(1) unfolding registryOk_def by blast
  qed
  ultimately show "registryOk ?t" unfolding registryOk_def by blast
qed

lemma setBridge_known:
  assumes "gm_get (rb_messageBridgeMap s) (bc_ServiceChannel c) = Some n"
    and "gm_get (rb_endpointHandlerMap s) (bridgeEndpointHandlerKey c mode) = None"
  shows "setBridge build ids (Some c) mode s =
     addEndpoint c mode (build (bc_ServiceChannel c) (bc_FabricRequestBuilder c) (rb_bridgeTimeout s) n)
       (s\<lparr>rb_serviceChanToBridgeEndpoints :=
          gm_set (bc_ServiceChannel c) (endpointsOf (bc_ServiceChannel c) s) (rb_serviceChanToBridgeEndpoints s)\<rparr>)"
  using assms by (simp add: setBridge_def ensureMessageBridge_def registerHttpBridgeRoute_router addEndpoint_def Let_def)

lemma setBridge_ok:
  assumes "registryOk s"
  shows "registryOk (setBridge build ids config mode s)"
proof (cases config)
  case (Some c)
  show ?thesis
  proof (rule setBridge_cases [OF refl, of build ids c mode s])
    let ?t = "setBridge build ids (Some c) mode s"
    assume "rb_router ?t = rb_router s" "rb_endpointHandlerMap ?t = rb_endpointHandlerMap s"
      "\<And>ch. endpointsOf ch ?t = endpointsOf ch s"
    then show ?thesis using registryOk_cong [of ?t s] assms Some by simp
  next
    fix s2 n
    assume a: "setBridge build ids (Some c) mode s = addEndpoint c mode
          (build (bc_ServiceChannel c) (bc_FabricRequestBuilder c) (rb_bridgeTimeout s) n) s2"
      "gm_get (rb_endpointHandlerMap s) (bridgeEndpointHandlerKey c mode) = None"
      "rb_router s2 = rb_router s" "rb_endpointHandlerMap s2 = rb_endpointHandlerMap s"
      "\<And>ch. endpointsOf ch s2 = endpointsOf ch s"
    then have "registryOk s2" using registryOk_cong [of s2 s] assms by simp
    then show ?thesis using a registryOk_add(1) Some by simp
  qed
qed (simp add: setBridge_def assms)

text \<open>Clearing a service and installing the router it returns.\<close>

definition overrideBridges :: "string \<Rightarrow> restBridgeRegistry \<Rightarrow> restBridgeRegistry" where
  "overrideBridges ch s = (let (t, r) = ClearForService ch s in bridgesSetRouter r t)"

lemma gm_get_dels: "gm_get (foldl (\<lambda>m k. gm_del k m) m ks) x = (if x \<in> set ks then None else gm_get m x)"
  by (induction ks arbitrary: m) auto

lemma namedOk_get:
  "namedOk r \<Longrightarrow> RouterGet n r = Some k \<longleftrightarrow> n \<noteq> [] \<and> k < length (ro_routes r) \<and> rt_name (ro_routes r ! k) = n"
  unfolding namedOk_def RouterGet_def by metis

lemma clone_get:
  assumes "namedOk r"
  shows "RouterGet n (CloneExcluding ns r) \<noteq> None \<longleftrightarrow> RouterGet n r \<noteq> None \<and> \<not> ns n"
    and "RouterGet n r = Some k \<Longrightarrow> \<not> ns n \<Longrightarrow>
      \<exists>k'. RouterGet n (CloneExcluding ns r) = Some k' \<and> ro_routes (CloneExcluding ns r) ! k' = ro_routes r ! k"
proof -
  let ?c = "CloneExcluding ns r"
  have c: "namedOk ?c" "ro_routes ?c = filter (\<lambda>rt. \<not> ns (rt_name rt)) (ro_routes r)"
    using CloneExcluding_ok [OF assms] by auto
  note get = namedOk_get [OF c(1)] namedOk_get [OF assms]
  show kept: "\<exists>k'. RouterGet n ?c = Some k' \<and> ro_routes ?c ! k' = ro_routes r ! k"
    if "RouterGet n r = Some k" "\<not> ns n" for k
  proof -
    have "ro_routes r ! k \<in> set (ro_routes ?c)" using that by (simp add: c(2) get)
    then obtain k' where k': "k' < length (ro_routes ?c)" "ro_routes ?c ! k' = ro_routes r ! k"
      by (metis in_set_conv_nth)
    then have "RouterGet n ?c = Some k'" using that(1) unfolding get by simp
    then show ?thesis using k'(2) by blast
  qed
  show "RouterGet n ?c \<noteq> None \<longleftrightarrow> RouterGet n r \<noteq> None \<and> \<not> ns n"
  proof
    assume "RouterGet n ?c \<noteq> None"
    then obtain k' where k': "n \<noteq> []" "k' < length (ro_routes ?c)" "rt_name (ro_routes ?c ! k') = n"
      unfolding not_None_eq get by blast
    have "ro_routes ?c ! k' \<in> set (ro_routes r)" "\<not> ns n" using nth_mem [OF k'(2)] k'(3) by (simp_all add: c(2))
    then obtain k where "k < length (ro_routes r)" "ro_routes r ! k = ro_routes ?c ! k'" by (metis in_set_conv_nth)
    then have "RouterGet n r = Some k" using k' unfolding get by simp
    then show "RouterGet n r \<noteq> None \<and> \<not> ns n" using \<open>\<not> ns n\<close> by simp
  qed (use kept in blast)
qed

lemma override_sel:
  "endpointsOf ch' (overrideBridges ch s) = (if ch' = ch then [] else endpointsOf ch' s)"
  "gm_get (rb_endpointHandlerMap (overrideBridges ch s)) n =
     (if n \<in> set (endpointsOf ch s) then None else gm_get (rb_endpointHandlerMap s) n)"
  "rb_router (overrideBridges ch s) = CloneExcluding (\<lambda>n. n \<in> set (endpointsOf ch s)) (rb_router s)"
  by (simp_all add: overrideBridges_def ClearForService_def bridgesSetRouter_def endpointsOf_def gm_get_dels Let_def)

lemma override_served:
  assumes "registryOk s" and "endpointServed s key" and "key \<notin> set (endpointsOf ch s)"
  shows "endpointServed (overrideBridges ch s) key"
proof -
  have named: "namedOk (rb_router s)" using assms(1) by (simp add: registryOk_def)
  obtain h k where k: "gm_get (rb_endpointHandlerMap s) key = Some h" "RouterGet key (rb_router s) = Some k"
    "GetName k (rb_router s) = key" "GetHandler k (rb_router s) = Some (HandlerFunc h)"
    using assms(2) by (auto simp: endpointServed_def)
  let ?c = "CloneExcluding (\<lambda>n. n \<in> set (endpointsOf ch s)) (rb_router s)"
  obtain k' where k': "RouterGet key ?c = Some k'" "ro_routes ?c ! k' = ro_routes (rb_router s) ! k"
    using clone_get(2) [OF named k(2), of "\<lambda>n. n \<in> set (endpointsOf ch s)"] assms(3) by blast
  then have "GetName k' ?c = key" "GetHandler k' ?c = Some (HandlerFunc h)"
    using k(3,4) by (simp_all add: GetName_def GetHandler_def)
  then show ?thesis using k(1) k'(1) assms(3) unfolding endpointServed_def override_sel by auto
qed

lemma registryOk_override:
  assumes "registryOk s"
  shows "registryOk (overrideBridges ch s)"
proof -
  let ?t = "overrideBridges ch s"
  have named: "namedOk (rb_router s)" using assms by (simp add: registryOk_def)
  have "namedOk (rb_router ?t)" using CloneExcluding_ok [OF named] by (simp add: override_sel)
  moreover have "distinct (endpointsOf ch' ?t)" for ch' using assms by (simp add: override_sel registryOk_def)
  moreover have "c1 = c2" if "k \<in> set (endpointsOf c1 ?t)" "k \<in> set (endpointsOf c2 ?t)" for k c1 c2
  proof -
    have "k \<in> set (endpointsOf c1 s)" "k \<in> set (endpointsOf c2 s)" using that by (simp_all add: override_sel split: if_splits)
    then show ?thesis using assms unfolding registryOk_def by blast
  qed
  moreover have "endpointServed ?t k" if "k \<in> set (endpointsOf c1 ?t)" for k c1
  proof -
    have "c1 \<noteq> ch" "k \<in> set (endpointsOf c1 s)" using that by (auto simp: override_sel split: if_splits)
    moreover from this have "k \<notin> set (endpointsOf ch s)" using assms unfolding registryOk_def by blast
    ultimately show ?thesis using override_served assms unfolding registryOk_def by blast
  qed
  moreover have "gm_get (rb_endpointHandlerMap ?t) n \<noteq> None" if "gm_get (ro_named (rb_router ?t)) n \<noteq> None" for n
  proof -
    have "RouterGet n (rb_router s) \<noteq> None" "n \<notin> set (endpointsOf ch s)"
      using that clone_get(1) [OF named, of n] by (simp_all add: override_sel RouterGet_def)
    then show ?thesis using assms unfolding registryOk_def by (simp add: override_sel RouterGet_def)
  qed
  ultimately show ?thesis unfolding registryOk_def by blast
qed


subsection \<open>Properties\<close>

datatype bridgeOp = BrSet svcIds "restBridgeConfig option" httpBridgeMatchMode | BrOverride string

fun bridgeOpStep :: "buildHandlerFunc \<Rightarrow> restBridgeRegistry \<Rightarrow> bridgeOp \<Rightarrow> restBridgeRegistry" where
  "bridgeOpStep build s (BrSet ids config mode) = setBridge build ids config mode s"
| "bridgeOpStep build s (BrOverride ch) = overrideBridges ch s"

interpretation bridges: machine "bridgeOpStep build" registryOk for build
proof
  fix s e assume "registryOk s"
  then show "registryOk (bridgeOpStep build s e)" by (cases e) (simp_all add: setBridge_ok registryOk_override)
qed

definition emptyRegistry :: "bus \<Rightarrow> int \<Rightarrow> restBridgeRegistry" where
  "emptyRegistry b timeout = NewRestBridgeRegistry NewRouter (Some gm_empty) b timeout"

lemma emptyRegistry_ok: "registryOk (emptyRegistry b timeout)"
  by (simp add: registryOk_def emptyRegistry_def NewRestBridgeRegistry_def NewRouter_def namedOk_def endpointsOf_def)

text \<open>After any sequence of registrations, exact or by prefix, and of overrides, every endpoint that
  the registry keeps for a service has a handler, a route of its name that is found under that name and
  has that handler, and belongs to one service only, once.\<close>

theorem bridged_endpoints_served:
  assumes "s = foldl (bridgeOpStep build) (emptyRegistry b timeout) ops" and "key \<in> set (endpointsOf ch s)"
  shows "endpointServed s key \<and> distinct (endpointsOf ch s) \<and> (\<forall>ch'. key \<in> set (endpointsOf ch' s) \<longrightarrow> ch' = ch)"
proof -
  have "registryOk s" using bridges.run_inv [OF emptyRegistry_ok] assms(1) by simp
  then show ?thesis using assms(2) unfolding registryOk_def by blast
qed

text \<open>An override replaces the endpoints of its service and no others: the endpoints of the service
  are removed, the one that is then registered has the handler of the new configuration and its route,
  and an endpoint of another service is served as it was.\<close>

theorem override_replaces_endpoints:
  assumes "s = foldl (bridgeOpStep build) (emptyRegistry b timeout) ops"
    and "key = bridgeEndpointHandlerKey c mode" and "key \<in> set (endpointsOf (bc_ServiceChannel c) s)"
    and "gm_get (rb_messageBridgeMap s) (bc_ServiceChannel c) = Some n"
    and "t = foldl (bridgeOpStep build') s [BrOverride (bc_ServiceChannel c), BrSet ids (Some c) mode]"
  shows "endpointsOf (bc_ServiceChannel c) t = [key] \<and>
     gm_get (rb_endpointHandlerMap t) key =
       Some (build' (bc_ServiceChannel c) (bc_FabricRequestBuilder c) (rb_bridgeTimeout s) n) \<and>
     endpointServed t key \<and>
     (\<forall>ch key'. ch \<noteq> bc_ServiceChannel c \<and> key' \<in> set (endpointsOf ch s) \<longrightarrow>
        key' \<in> set (endpointsOf ch t) \<and> endpointServed t key')"
proof -
  let ?ch = "bc_ServiceChannel c"
  let ?u = "overrideBridges ?ch s"
  have ok: "registryOk s" using bridges.run_inv [OF emptyRegistry_ok] assms(1) by simp
  have u: "registryOk ?u" by (rule registryOk_override [OF ok])
  have free: "gm_get (rb_endpointHandlerMap ?u) key = None" using assms(3) by (simp add: override_sel)
  let ?u' = "?u\<lparr>rb_serviceChanToBridgeEndpoints := gm_set ?ch (endpointsOf ?ch ?u) (rb_serviceChanToBridgeEndpoints ?u)\<rparr>"
  let ?h = "build' ?ch (bc_FabricRequestBuilder c) (rb_bridgeTimeout s) n"
  have "rb_messageBridgeMap ?u = rb_messageBridgeMap s" "rb_bridgeTimeout ?u = rb_bridgeTimeout s"
    by (simp_all add: overrideBridges_def ClearForService_def bridgesSetRouter_def Let_def)
  then have t: "t = addEndpoint c mode ?h ?u'"
    using setBridge_known [of ?u c n mode build' ids] assms(4,5) free unfolding assms(2) by simp
  have e: "endpointsOf x ?u' = endpointsOf x ?u" for x by (simp add: endpointsOf_def)
  have u': "registryOk ?u'" "endpointServed ?u' = endpointServed ?u" "gm_get (rb_endpointHandlerMap ?u') key = None"
    using u free registryOk_cong [of ?u' ?u] endpointServed_cong [of ?u' ?u] e by auto
  note add = registryOk_add [where h = ?h, OF u'(1) u'(3) [unfolded assms(2)], folded t assms(2)]
  have "key' \<in> set (endpointsOf ch t) \<and> endpointServed t key'" if "ch \<noteq> ?ch" "key' \<in> set (endpointsOf ch s)" for ch key'
  proof -
    have n: "key' \<notin> set (endpointsOf ?ch s)" "endpointServed s key'" using that ok unfolding registryOk_def by blast+
    then have "key' \<noteq> key" using assms(3) by auto
    moreover have "endpointsOf ch t = endpointsOf ch ?u"
      using that(1) e [of ch] by (simp add: t addEndpoint_def endpointsOf_def Let_def)
    ultimately show ?thesis using that add(3) u'(2) override_served [OF ok n(2) n(1)] by (simp add: override_sel)
  qed
  moreover have "endpointsOf ?ch t = endpointsOf ?ch ?u' @ [key]" "gm_get (rb_endpointHandlerMap t) key = Some ?h"
    by (simp_all add: t addEndpoint_def endpointsOf_def assms(2) Let_def)
  moreover have "endpointsOf ?ch ?u' = []" using e [of ?ch] override_sel(1) [of ?ch ?ch s] by simp
  ultimately show ?thesis using add(2) by auto
qed

text \<open>A registration that comes between clearing a service and installing the router that clearing
  returned is lost: the endpoint has a handler but no route, and registering it again does nothing.\<close>

theorem registration_lost_by_override:
  assumes "s = foldl (bridgeOpStep build) (emptyRegistry b timeout) ops"
    and "key = bridgeEndpointHandlerKey c mode" and "gm_get (rb_endpointHandlerMap s) key = None"
    and "gm_get (rb_messageBridgeMap s) (bc_ServiceChannel c) = Some n"
    and "ClearForService ch s = (t, r)" and "u = bridgesSetRouter r (setBridge build ids (Some c) mode t)"
  shows "gm_get (rb_endpointHandlerMap u) key \<noteq> None \<and> RouterGet key (rb_router u) = None \<and>
     setBridge build' ids' (Some c) mode u = u"
proof -
  have ok: "registryOk s" using bridges.run_inv [OF emptyRegistry_ok] assms(1) by simp
  then have named: "namedOk (rb_router s)" and "RouterGet key (rb_router s) = None"
    using assms(3) unfolding registryOk_def RouterGet_def by blast+
  then have r: "RouterGet key r = None"
    using clone_get(1) [OF named, of key] assms(5) by (auto simp: ClearForService_def Let_def)
  have "gm_get (rb_endpointHandlerMap t) key = None" "rb_messageBridgeMap t = rb_messageBridgeMap s"
    using assms(3,5) by (auto simp: ClearForService_def Let_def gm_get_dels)
  then have h: "gm_get (rb_endpointHandlerMap u) key \<noteq> None"
    using assms(4,6) unfolding assms(2)
    by (simp add: setBridge_def Let_def ensureMessageBridge_def registerHttpBridgeRoute_router bridgesSetRouter_def)
  have "rb_router u = r" using assms(6) by (simp add: bridgesSetRouter_def)
  then show ?thesis using h r unfolding assms(2) by (simp add: setBridge_def)
qed


definition demoConfig :: "string \<Rightarrow> string \<Rightarrow> restBridgeConfig" where
  "demoConfig ch uri = \<lparr>bc_ServiceChannel = ch, bc_Uri = uri, bc_Method = ''GET'', bc_AllowHead = True, bc_AllowOptions = False,
     bc_FabricRequestBuilder = demoBuilder 1\<rparr>"

lemma demoConfig_channel [simp]: "bc_ServiceChannel (demoConfig ch uri) = ch"
  by (simp add: demoConfig_def)

definition demoBuild :: buildHandlerFunc where
  "demoBuild ch builder timeout n = (\<lambda>req w. Some (writeBody ch w))"

definition demoOps :: "bridgeOp list" where
  "demoOps = [BrSet demoSvcIds (Some (demoConfig ''svc'' ''/a'')) HttpBridgeExact]"

definition demoBridges :: restBridgeRegistry where
  "demoBridges = foldl (bridgeOpStep demoBuild) (emptyRegistry demoBridgeBus 60) demoOps"

lemma demoKey: "bridgeEndpointHandlerKey (demoConfig ch uri) HttpBridgeExact = uri @ ''-GET''"
  by (simp add: bridgeEndpointHandlerKey_def demoConfig_def)

lemma demoBridges_simps:
  "gm_get (rb_messageBridgeMap demoBridges) ''svc'' = Some 0" "endpointsOf ''svc'' demoBridges = [''/a-GET'']"
  "gm_get (rb_endpointHandlerMap demoBridges) ''/b-GET'' = None" "rb_bridgeTimeout demoBridges = 60"
proof -
  obtain b r where l: "ListenStream ''svc'' (si_handler demoSvcIds) demoBridgeBus = (b, Inr r)" using demo_listens by blast
  show "gm_get (rb_messageBridgeMap demoBridges) ''svc'' = Some 0" "endpointsOf ''svc'' demoBridges = [''/a-GET'']"
    "gm_get (rb_endpointHandlerMap demoBridges) ''/b-GET'' = None" "rb_bridgeTimeout demoBridges = 60"
    by (simp_all add: demoBridges_def demoOps_def setBridge_def demoKey emptyRegistry_def NewRestBridgeRegistry_def
        ensureMessageBridge_def l Let_def endpointsOf_def registerHttpBridgeRoute_def
        RoutePath_def addRoute_def)
qed

lemma bridged_endpoints_served_witness: "endpointServed demoBridges ''/a-GET''"
  using bridged_endpoints_served [OF demoBridges_def, of "''/a-GET''" "''svc''"] by (simp add: demoBridges_simps)

lemma override_replaces_endpoints_witness:
  "endpointsOf ''svc'' (foldl (bridgeOpStep demoBuild) demoBridges
     [BrOverride ''svc'', BrSet demoSvcIds (Some (demoConfig ''svc'' ''/a'')) HttpBridgeExact]) = [''/a-GET'']"
  using override_replaces_endpoints [OF demoBridges_def refl, where c = "demoConfig ''svc'' ''/a''" and
      mode = HttpBridgeExact and n = 0, OF _ _ refl, of demoBuild demoSvcIds]
  by (simp add: demoKey demoBridges_simps del: foldl.simps foldl_Cons)

lemma registration_lost_by_override_witness:
  "RouterGet ''/b-GET'' (rb_router (bridgesSetRouter (snd (ClearForService ''other'' demoBridges))
     (setBridge demoBuild demoSvcIds (Some (demoConfig ''svc'' ''/b'')) HttpBridgeExact
        (fst (ClearForService ''other'' demoBridges))))) = None"
  using registration_lost_by_override [OF demoBridges_def refl, where c = "demoConfig ''svc'' ''/b''" and
      mode = HttpBridgeExact and n = 0 and ch = "''other''" and ids = demoSvcIds, OF _ _ surjective_pairing refl]
  by (simp add: demoKey demoBridges_simps)

end
