(* ===== verification/Paths.thy ===== *)
theory Paths
  imports Prelude Messages
begin

text \<open>
  plank/utils: paths and URLs (paths.go, uri.go), lookups and conversions (array.go, bytes.go), and
  what the code uses of \<open>path\<close>, \<open>path/filepath\<close> on Unix and \<open>regexp\<close>. Strings are bytes; only
  ASCII white space is trimmed.
\<close>

subsection \<open>The standard library\<close>

definition isSpaceChar :: "char \<Rightarrow> bool" where
  "isSpaceChar c \<longleftrightarrow> (of_char c :: nat) \<in> {9, 10, 11, 12, 13, 32}"

definition TrimSpace :: "string \<Rightarrow> string" where
  "TrimSpace s = rev (dropWhile isSpaceChar (rev (dropWhile isSpaceChar s)))"

definition pathIsAbs :: "string \<Rightarrow> bool" where
  "pathIsAbs p \<longleftrightarrow> HasPrefix p ''/''"

text \<open>\<open>Clean\<close>: the elements kept so far in reverse order; \<open>..\<close> takes back an element that is not
  itself \<open>..\<close>, and is dropped at the root.\<close>

fun cleanElems :: "bool \<Rightarrow> string list \<Rightarrow> string list \<Rightarrow> string list" where
  "cleanElems rooted acc [] = rev acc"
| "cleanElems rooted acc (w # ws) =
     (if w = [] \<or> w = ''.'' then cleanElems rooted acc ws
      else if w = ''..'' then
        (case acc of
           [] \<Rightarrow> cleanElems rooted (if rooted then [] else [''..'']) ws
         | v # vs \<Rightarrow> if v = ''..'' then cleanElems rooted (w # acc) ws else cleanElems rooted vs ws)
      else cleanElems rooted (w # acc) ws)"

definition pathClean :: "string \<Rightarrow> string" where
  "pathClean p =
     (let rooted = pathIsAbs p;
          body = joinWith ''/'' (cleanElems rooted [] (splitOn (CHR ''/'') p))
      in if rooted then CHR ''/'' # body else if body = [] then ''.'' else body)"

definition pathJoin :: "string list \<Rightarrow> string" where
  "pathJoin elems =
     (case dropWhile (\<lambda>e. e = []) elems of [] \<Rightarrow> [] | es \<Rightarrow> pathClean (joinWith ''/'' es))"

definition pathBase :: "string \<Rightarrow> string" where
  "pathBase p =
     (if p = [] then ''.''
      else let q = rev (dropWhile (\<lambda>c. c = CHR ''/'') (rev p)) in
        if q = [] then ''/'' else last (splitOn (CHR ''/'') q))"

text \<open>\<open>filepath.Ext\<close>: from the last dot of the last element.\<close>

definition pathExt :: "string \<Rightarrow> string" where
  "pathExt p =
     (let e = last (splitOn (CHR ''/'') p) in
      case lastIndexByte e (CHR ''.'') of None \<Rightarrow> [] | Some i \<Rightarrow> drop i e)"

text \<open>\<open>filepath.Abs\<close> with the working directory or the error of \<open>os.Getwd\<close>.\<close>

definition pathAbs :: "string res \<Rightarrow> string \<Rightarrow> string res" where
  "pathAbs wd p =
     (if pathIsAbs p then Inr (pathClean p)
      else case wd of Inl e \<Rightarrow> Inl e | Inr d \<Rightarrow> Inr (pathJoin [d, p]))"

subsection \<open>paths.go\<close>

text \<open>The pattern \<open>[A-Z]:\<close> is looked for anywhere; it must be found first at the start.\<close>

fun findDrive :: "nat \<Rightarrow> string \<Rightarrow> nat option" where
  "findDrive i (c # d # cs) =
     (if 65 \<le> (of_char c :: nat) \<and> (of_char c :: nat) \<le> 90 \<and> d = CHR '':'' then Some i else findDrive (Suc i) (d # cs))"
| "findDrive i cs = None"

definition IsAbsolutePath :: "string \<Rightarrow> bool" where
  "IsAbsolutePath p \<longleftrightarrow> pathIsAbs p \<or> findDrive 0 p = Some 0"

definition DeriveStaticURIFromPath :: "string \<Rightarrow> string \<times> string" where
  "DeriveStaticURIFromPath input0 =
     (let input = TrimSpace input0 in
      if input = [] then (input, ''/'')
      else let split = splitOn (CHR '':'') input; p = split ! 0
           in (p, if length split > 1
                  then (if \<not> HasPrefix (split ! 1) ''/'' then ''/'' else []) @ split ! 1
                  else (if \<not> HasPrefix (split ! 0) ''/'' then ''/'' else []) @ pathBase (split ! 0)))"

definition JoinBasePathIfRelativeRegularFilePath :: "string \<Rightarrow> string \<Rightarrow> string" where
  "JoinBasePathIfRelativeRegularFilePath base inp =
     (if inp = ''stdout'' \<or> inp = ''stderr'' \<or> inp = ''null'' then inp
      else if \<not> IsAbsolutePath inp then pathJoin [base, inp] else inp)"

subsection \<open>uri.go\<close>

text \<open>The leftmost match of \<open>https?://\<close>, wherever it is.\<close>

fun findProtocol :: "string \<Rightarrow> string option" where
  "findProtocol [] = None"
| "findProtocol (c # cs) =
     (if HasPrefix (c # cs) ''http://'' then Some ''http://''
      else if HasPrefix (c # cs) ''https://'' then Some ''https://''
      else findProtocol cs)"

fun squeezeSlashes :: "bool \<Rightarrow> string \<Rightarrow> string" where
  "squeezeSlashes at [] = []"
| "squeezeSlashes at (c # cs) =
     (if at \<and> c = CHR ''/'' then squeezeSlashes at cs else c # squeezeSlashes (c = CHR ''/'') cs)"

definition SanitizeUrl :: "string \<Rightarrow> bool \<Rightarrow> string" where
  "SanitizeUrl url suffixSlash =
     (if url = [] then []
      else let proto = (case findProtocol url of None \<Rightarrow> [] | Some m \<Rightarrow> m);
               s = proto @ squeezeSlashes False (drop (length proto) url)
           in if suffixSlash \<and> last s \<noteq> CHR ''/'' then s @ ''/''
              else if \<not> suffixSlash \<and> last s = CHR ''/'' then butlast s
              else s)"

subsection \<open>array.go, bytes.go\<close>

fun ContainsString :: "string list \<Rightarrow> string \<Rightarrow> bool" where
  "ContainsString [] str = False"
| "ContainsString (a # arr) str = (if a = str then True else ContainsString arr str)"

text \<open>A value of another type than string or bytes makes the last assertion panic (\<open>None\<close>).\<close>

definition ConvertInterfaceToByteArray :: "(gval \<Rightarrow> string res) \<Rightarrow> string \<Rightarrow> gval \<Rightarrow> string res option" where
  "ConvertInterfaceToByteArray marshal mimeType i =
     (if strContains mimeType ''json'' then Some (marshal i)
      else case i of GString s \<Rightarrow> Some (Inr s) | GBytes bs \<Rightarrow> Some (Inr bs) | _ \<Rightarrow> None)"

subsection \<open>Facts\<close>

fun noDouble :: "string \<Rightarrow> bool" where
  "noDouble (c # d # cs) = (\<not> (c = CHR ''/'' \<and> d = CHR ''/'') \<and> noDouble (d # cs))"
| "noDouble cs = True"

lemma noDouble_Cons: "noDouble (c # cs) \<longleftrightarrow> (c = CHR ''/'' \<and> cs \<noteq> [] \<longrightarrow> hd cs \<noteq> CHR ''/'') \<and> noDouble cs"
  by (cases cs) auto

lemma squeeze_noDouble:
  "noDouble (squeezeSlashes a s) \<and> (a \<and> squeezeSlashes a s \<noteq> [] \<longrightarrow> hd (squeezeSlashes a s) \<noteq> CHR ''/'')"
  by (induction a s rule: squeezeSlashes.induct) (auto simp: noDouble_Cons)

lemma squeeze_filter: "filter (\<lambda>c. c \<noteq> CHR ''/'') (squeezeSlashes a s) = filter (\<lambda>c. c \<noteq> CHR ''/'') s"
  by (induction a s rule: squeezeSlashes.induct) auto

lemma squeeze_id: "noDouble s \<Longrightarrow> (a \<and> s \<noteq> [] \<longrightarrow> hd s \<noteq> CHR ''/'') \<Longrightarrow> squeezeSlashes a s = s"
  by (induction a s rule: squeezeSlashes.induct) (auto simp: noDouble_Cons)

lemma noDouble_butlast: "noDouble s \<Longrightarrow> noDouble (butlast s)"
  by (induction s rule: noDouble.induct) (auto simp: noDouble_Cons)

lemma noDouble_snoc: "noDouble s \<Longrightarrow> s \<noteq> [] \<Longrightarrow> last s \<noteq> CHR ''/'' \<Longrightarrow> noDouble (s @ [c])"
  by (induction s rule: noDouble.induct) (auto simp: noDouble_Cons)

lemma noDouble_last: "noDouble s \<Longrightarrow> s \<noteq> [] \<Longrightarrow> last s = CHR ''/'' \<Longrightarrow> butlast s = [] \<or> last (butlast s) \<noteq> CHR ''/''"
  by (induction s rule: noDouble.induct) (auto simp: noDouble_Cons)

lemma noDouble_suffix: "noDouble (u @ v) \<Longrightarrow> noDouble v"
  by (induction u) (auto simp: noDouble_Cons)

lemma noDouble_protocol: "noDouble s \<Longrightarrow> findProtocol s = None"
proof (induction s)
  case (Cons c cs)
  have "\<not> noDouble (c # cs)" if "HasPrefix (c # cs) p" "p = ''http://'' \<or> p = ''https://''" for p
    using that by (auto simp: HasPrefix_iff noDouble_Cons)
  then have "\<not> HasPrefix (c # cs) ''http://''" "\<not> HasPrefix (c # cs) ''https://''" using Cons.prems by blast+
  moreover have "findProtocol cs = None" using Cons by (simp add: noDouble_Cons)
  ultimately show ?case by (simp only: findProtocol.simps if_False)
qed simp

lemma sanitize_result:
  assumes "u \<noteq> []" and "findProtocol u = None" and "s = SanitizeUrl u b"
  shows "noDouble s" "b \<Longrightarrow> s \<noteq> [] \<and> last s = CHR ''/''" "\<not> b \<Longrightarrow> s = [] \<or> last s \<noteq> CHR ''/''"
    "filter (\<lambda>c. c \<noteq> CHR ''/'') s = filter (\<lambda>c. c \<noteq> CHR ''/'') u"
proof -
  let ?q = "squeezeSlashes False u"
  have q: "?q \<noteq> []" using assms(1) by (cases u) simp_all
  have q2: "noDouble ?q" using squeeze_noDouble by blast
  have s: "s = (if b \<and> last ?q \<noteq> CHR ''/'' then ?q @ ''/'' else if \<not> b \<and> last ?q = CHR ''/'' then butlast ?q else ?q)"
    using assms by (simp add: SanitizeUrl_def)
  have f: "filter (\<lambda>c. c \<noteq> CHR ''/'') (butlast ?q) = filter (\<lambda>c. c \<noteq> CHR ''/'') ?q" if l: "last ?q = CHR ''/''"
  proof -
    have "filter (\<lambda>c. c \<noteq> CHR ''/'') ?q = filter (\<lambda>c. c \<noteq> CHR ''/'') (butlast ?q @ [last ?q])" using q by simp
    then show ?thesis by (simp add: l)
  qed
  show "noDouble s" using q q2 noDouble_butlast noDouble_snoc by (simp add: s)
  show "b \<Longrightarrow> s \<noteq> [] \<and> last s = CHR ''/''" using q by (simp add: s)
  show "\<not> b \<Longrightarrow> s = [] \<or> last s \<noteq> CHR ''/''" using q noDouble_last [OF q2 q] by (auto simp: s)
  show "filter (\<lambda>c. c \<noteq> CHR ''/'') s = filter (\<lambda>c. c \<noteq> CHR ''/'') u" using squeeze_filter f by (simp add: s)
qed

lemma sanitize_id:
  assumes "noDouble s" and "b \<Longrightarrow> s \<noteq> [] \<and> last s = CHR ''/''" and "\<not> b \<Longrightarrow> s = [] \<or> last s \<noteq> CHR ''/''"
  shows "SanitizeUrl s b = s"
  using assms squeeze_id [of s False] noDouble_protocol [of s] by (auto simp: SanitizeUrl_def)


text \<open>A sanitized address without a protocol has no two adjacent slashes, ends as it is asked to, keeps
  all its other characters, and is not changed by sanitizing it again.\<close>

theorem url_sanitized:
  assumes "u \<noteq> []" and "findProtocol u = None" and "s = SanitizeUrl u b"
  shows "noDouble s \<and> (if b then s \<noteq> [] \<and> last s = CHR ''/'' else s = [] \<or> last s \<noteq> CHR ''/'') \<and>
     filter (\<lambda>c. c \<noteq> CHR ''/'') s = filter (\<lambda>c. c \<noteq> CHR ''/'') u \<and> SanitizeUrl s b = s"
  using sanitize_result [OF assms] sanitize_id [of s b] by simp

text \<open>A protocol is taken for one wherever it is: the beginning of the address is then lost.\<close>

lemma protocol_inside: "SanitizeUrl ''/a/http://b'' False = ''http://:/b''"
  by code_simp

text \<open>The derived URI begins with a slash, except for an absolute path without an alias.\<close>

lemma splitOn_nonempty: "splitOn d s \<noteq> []"
  by (induction s) (auto split: list.splits)

lemma splitOn_parts: "w \<in> set (splitOn d s) \<Longrightarrow> d \<notin> set w"
  by (induction s arbitrary: w) (auto split: list.splits if_splits)

lemma pathBase_slash: "HasPrefix (pathBase p) ''/'' \<longleftrightarrow> pathBase p = ''/''"
proof (cases "p = [] \<or> dropWhile (\<lambda>c. c = CHR ''/'') (rev p) = []")
  case False
  let ?q = "rev (dropWhile (\<lambda>c. c = CHR ''/'') (rev p))"
  have "pathBase p = last (splitOn (CHR ''/'') ?q)" using False by (auto simp: pathBase_def Let_def)
  moreover have "CHR ''/'' \<notin> set (last (splitOn (CHR ''/'') ?q))"
    using splitOn_parts last_in_set [OF splitOn_nonempty] by metis
  ultimately have "CHR ''/'' \<notin> set (pathBase p)" by simp
  then show ?thesis by (auto simp: HasPrefix_iff)
qed (auto simp: pathBase_def Let_def HasPrefix_def)

theorem derived_uri_slash:
  assumes "TrimSpace s \<noteq> []"
  shows "HasPrefix (snd (DeriveStaticURIFromPath s)) ''/'' \<longleftrightarrow>
     CHR '':'' \<in> set (TrimSpace s) \<or> \<not> pathIsAbs (TrimSpace s) \<or> pathBase (TrimSpace s) = ''/''"
proof -
  let ?t = "TrimSpace s" and ?split = "splitOn (CHR '':'') (TrimSpace s)"
  have c: "CHR '':'' \<in> set t \<longleftrightarrow> length (splitOn (CHR '':'') t) > 1" for t
  proof (induction t)
    case (Cons c t)
    then show ?case using splitOn_nonempty [of "CHR '':''" t] by (auto split: list.splits)
  qed simp
  have one: "?split ! 0 = ?t" if "\<not> length ?split > 1"
  proof -
    have "splitOn d t = [t]" if "d \<notin> set t" for d and t :: string using that by (induction t) auto
    then show ?thesis using that c by simp
  qed
  show ?thesis
  proof (cases "length ?split > 1")
    case True
    then show ?thesis using assms c by (auto simp: DeriveStaticURIFromPath_def Let_def HasPrefix_def)
  next
    case False
    then show ?thesis using assms c one pathBase_slash [of ?t]
      by (simp add: DeriveStaticURIFromPath_def Let_def pathIsAbs_def)
  qed
qed

lemma absolute_folder_uri: "snd (DeriveStaticURIFromPath ''/folder'') = ''folder''"
  by code_simp

end
