(* ===== verification/ServerConfig.thy ===== *)
theory ServerConfig
  imports Paths Middleware Fabric
begin

text \<open>
  The configuration of the Plank server: plank/pkg/server/core_models.go, helpers.go,
  flag_helper.go, spa_config.go, and the part of server.go that reads a configuration file. Reading
  files, \<open>json.Unmarshal\<close>, the working directory and \<open>os.Stat\<close> are arguments. A duration is the
  64-bit count of nanoseconds.
\<close>

subsection \<open>Data\<close>

record spaConfig =
  sa_RootFolder :: string
  sa_BaseUri :: string
  sa_StaticAssets :: "string list"
  sa_ExcludedPrefixes :: "string list"
  sa_CacheControlRules :: "(string, string) gomap"
  sa_FallbackPredicate :: "(httpRequest \<Rightarrow> bool) option"
  sa_cacheControlRulePairs :: "(string \<times> string \<times> globPat option) list"

record tLSCertConfig =
  tc_CertFile :: string
  tc_KeyFile :: string
  tc_SkipCertificateValidation :: bool

record fabricBrokerConfig =
  fb_FabricEndpoint :: string
  fb_UseTCP :: bool
  fb_TCPPort :: int
  fb_EndpointConfig :: "endpointConfig option"

record routeErrorPolicy =
  re_PathPrefix :: string
  re_NotFoundHandler :: "handler option"
  re_MethodNotAllowedHandler :: "handler option"

record platformServerConfig =
  cf_HTTPListenAddress :: string
  cf_RootDir :: string
  cf_StaticDir :: "string list"
  cf_SpaConfig :: "spaConfig option"
  cf_Host :: string
  cf_Port :: int
  cf_FabricConfig :: "fabricBrokerConfig option"
  cf_TLSCertConfig :: "tLSCertConfig option"
  cf_Debug :: bool
  cf_DebugProfilerPort :: int
  cf_NoBanner :: bool
  cf_ShutdownTimeout :: "64 word"
  cf_RestBridgeTimeout :: "64 word"
  cf_DefaultNotFoundHandler :: "handler option"
  cf_DefaultMethodNotAllowedHandler :: "handler option"
  cf_RouteErrorPolicies :: "routeErrorPolicy option list"
  cf_SocketCreationFunc :: "handler option"

definition zeroServerConfig :: platformServerConfig where
  "zeroServerConfig = \<lparr>cf_HTTPListenAddress = [], cf_RootDir = [], cf_StaticDir = [], cf_SpaConfig = None, cf_Host = [],
     cf_Port = 0, cf_FabricConfig = None, cf_TLSCertConfig = None, cf_Debug = False, cf_DebugProfilerPort = 0,
     cf_NoBanner = False, cf_ShutdownTimeout = 0, cf_RestBridgeTimeout = 0, cf_DefaultNotFoundHandler = None,
     cf_DefaultMethodNotAllowedHandler = None, cf_RouteErrorPolicies = [], cf_SocketCreationFunc = None\<rparr>"

definition DefaultDebugProfilerPort :: int where "DefaultDebugProfilerPort = 6062"

text \<open>\<open>time.Minute\<close> in nanoseconds.\<close>

definition minute :: "64 word" where "minute = 60000000000"

subsection \<open>Single page applications\<close>

fun collateRules ::
  "(string \<Rightarrow> globPat res) \<Rightarrow> (string \<times> string) list \<Rightarrow> (string \<times> string \<times> globPat option) list \<Rightarrow> (string \<times> string \<times> globPat option) list" where
  "collateRules compile [] pairs = pairs"
| "collateRules compile ((globP, rule) # rules) pairs =
     (case NewCacheControlRulePair compile globP rule of
        (pair, Some e) \<Rightarrow> collateRules compile rules pairs
      | (pair, None) \<Rightarrow> collateRules compile rules (pairs @ [pair]))"

definition CollateCacheControlRules :: "(string \<Rightarrow> globPat res) \<Rightarrow> spaConfig \<Rightarrow> spaConfig" where
  "CollateCacheControlRules compile s =
     s\<lparr>sa_cacheControlRulePairs := collateRules compile (sa_CacheControlRules s) (sa_cacheControlRulePairs s)\<rparr>"

definition NewSpaConfig :: "(string \<Rightarrow> globPat res) \<Rightarrow> string \<Rightarrow> spaConfig" where
  "NewSpaConfig compile inp =
     (let (p, uri) = DeriveStaticURIFromPath inp in
      CollateCacheControlRules compile
        \<lparr>sa_RootFolder = p, sa_BaseUri = uri, sa_StaticAssets = [], sa_ExcludedPrefixes = [],
         sa_CacheControlRules = gm_empty, sa_FallbackPredicate = None, sa_cacheControlRulePairs = []\<rparr>)"

text \<open>A pair whose pattern was not compiled is never in the list: \<open>None\<close> would be a nil pointer.\<close>

fun firstRule :: "(string \<times> string \<times> globPat option) list \<Rightarrow> string \<Rightarrow> string option option" where
  "firstRule [] uri = Some None"
| "firstRule ((p, rule, None) # pairs) uri = None"
| "firstRule ((p, rule, Some g) # pairs) uri = (if g uri then Some (Some rule) else firstRule pairs uri)"

definition spaCacheControlMiddleware :: "spaConfig \<Rightarrow> middlewareFunc" where
  "spaCacheControlMiddleware s h =
     HandlerFunc (\<lambda>req w.
       case firstRule (sa_cacheControlRulePairs s) (hq_RequestURI req) of
         None \<Rightarrow> None
       | Some None \<Rightarrow> serves h req w
       | Some (Some rule) \<Rightarrow> serves h req (setHeader ''Cache-Control'' rule w))"

subsection \<open>Reading the configuration\<close>

text \<open>\<open>cv_read\<close>: \<open>os.ReadFile\<close>. \<open>cv_decode\<close>: \<open>json.Unmarshal\<close> into a configuration. \<open>cv_hasPort\<close>: whether
  the document is an object with the key \<open>debug_profiler_port\<close>, \<open>None\<close> where it is no object.
  \<open>cv_getwd\<close>, \<open>cv_stat\<close>: the working directory, the error of \<open>os.Stat\<close>.\<close>

record configEnv =
  cv_read :: "string \<Rightarrow> string res"
  cv_decode :: "string \<Rightarrow> platformServerConfig res"
  cv_hasPort :: "string \<Rightarrow> bool option"
  cv_getwd :: "string res"
  cv_stat :: "string \<Rightarrow> err option"
  cv_compile :: "string \<Rightarrow> globPat res"

definition applyPlatformServerConfigJSONDefaults ::
  "configEnv \<Rightarrow> string \<Rightarrow> platformServerConfig \<Rightarrow> platformServerConfig" where
  "applyPlatformServerConfigJSONDefaults env bytes c =
     (case cv_hasPort env bytes of
        Some False \<Rightarrow> c\<lparr>cf_DebugProfilerPort := DefaultDebugProfilerPort\<rparr>
      | _ \<Rightarrow> c)"

text \<open>A failing \<open>os.Getwd\<close> gives the empty string here. The result is the configuration or a panic.\<close>

definition sanitizeConfigRootPath :: "configEnv \<Rightarrow> platformServerConfig \<Rightarrow> platformServerConfig res" where
  "sanitizeConfigRootPath env c =
     (let root = (if cf_RootDir c = [] then (case cv_getwd env of Inl e \<Rightarrow> [] | Inr d \<Rightarrow> d) else cf_RootDir c) in
      case pathAbs (cv_getwd env) root of
        Inl e \<Rightarrow> Inl e
      | Inr p \<Rightarrow> (case cv_stat env p of Some e \<Rightarrow> Inl e | None \<Rightarrow> Inr (c\<lparr>cf_RootDir := p\<rparr>)))"

text \<open>The two timeouts of a file are minutes: a count that is not positive is replaced, and the
  count is multiplied, modulo \<open>2 ^ 64\<close>.\<close>

definition minutesOr :: "64 word \<Rightarrow> 64 word \<Rightarrow> 64 word" where
  "minutesOr def t = (if sint t \<le> 0 then def else t) * minute"

definition scaleTimeouts :: "platformServerConfig \<Rightarrow> platformServerConfig" where
  "scaleTimeouts c =
     c\<lparr>cf_ShutdownTimeout := minutesOr 5 (cf_ShutdownTimeout c),
       cf_RestBridgeTimeout := minutesOr 1 (cf_RestBridgeTimeout c)\<rparr>"

definition absoluteIn :: "string \<Rightarrow> string \<Rightarrow> string" where
  "absoluteIn root f = (if \<not> pathIsAbs f then pathClean (pathJoin [root, f]) else f)"

definition absoluteCert :: "platformServerConfig \<Rightarrow> platformServerConfig" where
  "absoluteCert c =
     c\<lparr>cf_TLSCertConfig := map_option (\<lambda>tc. tc\<lparr>tc_CertFile := absoluteIn (cf_RootDir c) (tc_CertFile tc),
         tc_KeyFile := absoluteIn (cf_RootDir c) (tc_KeyFile tc)\<rparr>) (cf_TLSCertConfig c)\<rparr>"

text \<open>What \<open>NewPlatformServerFromConfig\<close> makes of a file: an error, a panic or the configuration.\<close>

datatype 'a outcome = Fails err | Panics err | Gives 'a

definition configFromFile :: "configEnv \<Rightarrow> string \<Rightarrow> platformServerConfig outcome" where
  "configFromFile env path =
     (case cv_read env path of
        Inl e \<Rightarrow> Fails e
      | Inr bytes \<Rightarrow>
          (case cv_decode env bytes of
             Inl e \<Rightarrow> Fails e
           | Inr c \<Rightarrow>
               (case sanitizeConfigRootPath env (applyPlatformServerConfigJSONDefaults env bytes c) of
                  Inl e \<Rightarrow> Panics e
                | Inr c1 \<Rightarrow> Gives (absoluteCert (scaleTimeouts c1)))))"

subsection \<open>Flags\<close>

text \<open>\<open>PlatformServerFlagConstants\<close>: the name of the flag of a field, the empty string where the
  map has no entry.\<close>

definition flagConstants :: "(string \<times> string) list" where
  "flagConstants =
     [(''Hostname'', ''hostname''), (''Port'', ''port''), (''RootDir'', ''rootdir''), (''Cert'', ''cert''),
      (''CertKey'', ''cert-key''), (''Static'', ''static''), (''SpaPath'', ''spa-path''),
      (''NoFabricBroker'', ''no-fabric-broker''), (''FabricEndpoint'', ''fabric-endpoint''),
      (''TopicPrefix'', ''topic-prefix''), (''QueuePrefix'', ''query-prefix''), (''RequestPrefix'', ''request-prefix''),
      (''RequestQueuePrefix'', ''request-queue-prefix''), (''ConfigFile'', ''config-file''),
      (''ShutdownTimeout'', ''shutdown-timeout''), (''OutputLog'', ''output-log''), (''AccessLog'', ''access-log''),
      (''ErrorLog'', ''error-log''), (''Debug'', ''debug''), (''NoBanner'', ''no-banner''),
      (''RestBridgeTimeout'', ''rest-bridge-timeout'')]"

definition flagName :: "string \<Rightarrow> string" where
  "flagName field = (case map_of flagConstants field of None \<Rightarrow> [] | Some n \<Rightarrow> n)"

datatype flagValue = FvString string | FvInt int | FvBool bool | FvStrings "string list"

text \<open>The flags that \<open>configureFlagsInFlagSet\<close> defines, with their defaults, in its order.\<close>

definition configureFlagsInFlagSet :: "string \<Rightarrow> (string \<times> flagValue) list" where
  "configureFlagsInFlagSet wd = map (\<lambda>(field, v). (flagName field, v))
     [(''Hostname'', FvString ''localhost''), (''Port'', FvInt 30080), (''RootDir'', FvString wd), (''Cert'', FvString []),
      (''CertKey'', FvString []), (''Static'', FvStrings []), (''SpaPath'', FvString []), (''NoFabricBroker'', FvBool False),
      (''FabricEndpoint'', FvString ''/ws''), (''TopicPrefix'', FvString ''/topic''), (''QueuePrefix'', FvString ''/queue''),
      (''RequestPrefix'', FvString ''/pub''), (''RequestQueuePrefix'', FvString ''/pub/queue''), (''ConfigFile'', FvString []),
      (''ShutdownTimeout'', FvInt 5), (''OutputLog'', FvString ''stdout''), (''AccessLog'', FvString ''stdout''),
      (''ErrorLog'', FvString ''stderr''), (''Debug'', FvBool False), (''NoBanner'', FvBool False),
      (''Prometheus'', FvBool False), (''RestBridgeTimeout'', FvInt 1)]"

text \<open>The values that viper has for the flags: the defaults, under what the command line sets. The
  factory's getters read a field's flag as a value of its type, the zero value if it has another.\<close>

type_synonym flagSet = "string \<Rightarrow> flagValue option"

definition parseFlags :: "string \<Rightarrow> (string \<times> flagValue) list \<Rightarrow> flagSet" where
  "parseFlags wd args n = map_of (rev args @ configureFlagsInFlagSet wd) n"

definition getString :: "flagSet \<Rightarrow> string \<Rightarrow> string" where
  "getString fs field = (case fs (flagName field) of Some (FvString s) \<Rightarrow> s | _ \<Rightarrow> [])"

definition getInt :: "flagSet \<Rightarrow> string \<Rightarrow> int" where
  "getInt fs field = (case fs (flagName field) of Some (FvInt i) \<Rightarrow> i | _ \<Rightarrow> 0)"

definition getBool :: "flagSet \<Rightarrow> string \<Rightarrow> bool" where
  "getBool fs field = (case fs (flagName field) of Some (FvBool b) \<Rightarrow> b | _ \<Rightarrow> False)"

definition getStrings :: "flagSet \<Rightarrow> string \<Rightarrow> string list" where
  "getStrings fs field = (case fs (flagName field) of Some (FvStrings l) \<Rightarrow> l | _ \<Rightarrow> [])"

subsection \<open>The configuration of the flags\<close>

definition minutesOf :: "int \<Rightarrow> int \<Rightarrow> 64 word" where
  "minutesOf def t = word_of_int (if t \<le> 0 then def else t) * minute"

definition brokerFromFlags :: "flagSet \<Rightarrow> fabricBrokerConfig" where
  "brokerFromFlags fs =
     \<lparr>fb_FabricEndpoint = getString fs ''FabricEndpoint'', fb_UseTCP = False, fb_TCPPort = 0,
      fb_EndpointConfig = Some \<lparr>ec_TopicPrefix = getString fs ''TopicPrefix'', ec_UserQueuePrefix = getString fs ''QueuePrefix'',
        ec_AppRequestPrefix = getString fs ''RequestPrefix'', ec_AppRequestQueuePrefix = getString fs ''RequestQueuePrefix'',
        ec_Heartbeat = 60000\<rparr>\<rparr>"

definition certFromFlags :: "configEnv \<Rightarrow> flagSet \<Rightarrow> tLSCertConfig option res" where
  "certFromFlags env fs =
     (let cert = getString fs ''Cert''; key = getString fs ''CertKey'' in
      if cert = [] \<or> key = [] then Inr None
      else case pathAbs (cv_getwd env) key of
             Inl e \<Rightarrow> Inl e
           | Inr k \<Rightarrow>
               (case pathAbs (cv_getwd env) cert of
                  Inl e \<Rightarrow> Inl e
                | Inr c \<Rightarrow> Inr (Some \<lparr>tc_CertFile = c, tc_KeyFile = k, tc_SkipCertificateValidation = False\<rparr>)))"

definition configOfFile :: "configEnv \<Rightarrow> string \<Rightarrow> platformServerConfig res" where
  "configOfFile env path =
     (case cv_read env path of
        Inl e \<Rightarrow> Inl e
      | Inr bytes \<Rightarrow>
          (case cv_decode env bytes of
             Inl e \<Rightarrow> Inl e
           | Inr c \<Rightarrow>
               (let c1 = scaleTimeouts (applyPlatformServerConfigJSONDefaults env bytes c)
                in Inr (c1\<lparr>cf_SpaConfig := map_option (CollateCacheControlRules (cv_compile env)) (cf_SpaConfig c1)\<rparr>))))"

definition generatePlatformServerConfig :: "configEnv \<Rightarrow> flagSet \<Rightarrow> platformServerConfig res" where
  "generatePlatformServerConfig env fs =
     (if getString fs ''ConfigFile'' \<noteq> [] then configOfFile env (getString fs ''ConfigFile'')
      else (let c = zeroServerConfig\<lparr>cf_Host := getString fs ''Hostname'', cf_Port := getInt fs ''Port'',
                      cf_RootDir := getString fs ''RootDir'', cf_StaticDir := getStrings fs ''Static'',
                      cf_ShutdownTimeout := minutesOf 5 (getInt fs ''ShutdownTimeout''), cf_Debug := getBool fs ''Debug'',
                      cf_DebugProfilerPort := DefaultDebugProfilerPort, cf_NoBanner := getBool fs ''NoBanner'',
                      cf_RestBridgeTimeout := minutesOf 1 (getInt fs ''RestBridgeTimeout'')\<rparr>
            in case certFromFlags env fs of
                 Inl e \<Rightarrow> Inl e
               | Inr tls \<Rightarrow>
                   Inr (c\<lparr>cf_TLSCertConfig := tls,
                          cf_SpaConfig := (if TrimSpace (getString fs ''SpaPath'') \<noteq> []
                             then Some (NewSpaConfig (cv_compile env) (getString fs ''SpaPath'')) else None),
                          cf_FabricConfig := (if \<not> getBool fs ''NoFabricBroker'' then Some (brokerFromFlags fs) else None)\<rparr>)))"

end
