(* ===== verification/RouterErrors.thy ===== *)
theory RouterErrors
  imports ServerConfig
begin

text \<open>
  plank/pkg/server/error_handling.go and the static content of initialize.go and server.go: what the
  server answers when no route takes a request, the single page application, and the handlers of
  static folders. \<open>http.ServeFile\<close> and \<open>http.FileServer\<close> are arguments.
\<close>

subsection \<open>Prefixes\<close>

definition pathMatchesPrefix :: "string \<Rightarrow> string \<Rightarrow> bool" where
  "pathMatchesPrefix requestPath prefix0 =
     (if prefix0 = [] \<or> prefix0 = ''/'' then HasPrefix requestPath ''/''
      else (let prefix1 = (if \<not> HasPrefix prefix0 ''/'' then ''/'' @ prefix0 else prefix0);
                pre = TrimSuffix prefix1 ''/''
            in if requestPath = pre then True
               else if \<not> HasPrefix requestPath pre then False
               else requestPath ! length pre = CHR ''/''))"

fun spaPathExcluded :: "string \<Rightarrow> string list \<Rightarrow> bool" where
  "spaPathExcluded requestPath [] = False"
| "spaPathExcluded requestPath (prefix # ps) =
     (if pathMatchesPrefix requestPath prefix then True else spaPathExcluded requestPath ps)"

subsection \<open>Policies\<close>

text \<open>The loop with the policy matched so far and the length of its prefix, -1 at first.\<close>

fun policyLoop ::
  "string \<Rightarrow> (routeErrorPolicy \<Rightarrow> handler option) \<Rightarrow> routeErrorPolicy option list \<Rightarrow> routeErrorPolicy option \<Rightarrow> int \<Rightarrow>
   routeErrorPolicy option" where
  "policyLoop path sel [] matched longest = matched"
| "policyLoop path sel (None # ps) matched longest = policyLoop path sel ps matched longest"
| "policyLoop path sel (Some p # ps) matched longest =
     (if sel p = None \<or> \<not> pathMatchesPrefix path (re_PathPrefix p) then policyLoop path sel ps matched longest
      else if int (length (re_PathPrefix p)) > longest
      then policyLoop path sel ps (Some p) (int (length (re_PathPrefix p)))
      else policyLoop path sel ps matched longest)"

definition getRouteErrorPolicy ::
  "platformServerConfig \<Rightarrow> string \<Rightarrow> (routeErrorPolicy \<Rightarrow> handler option) \<Rightarrow> routeErrorPolicy option" where
  "getRouteErrorPolicy cfg path sel = policyLoop path sel (cf_RouteErrorPolicies cfg) None (- 1)"

definition getRouteSpecificNotFoundHandler :: "platformServerConfig \<Rightarrow> string \<Rightarrow> handler option" where
  "getRouteSpecificNotFoundHandler cfg path =
     (case getRouteErrorPolicy cfg path re_NotFoundHandler of None \<Rightarrow> None | Some p \<Rightarrow> re_NotFoundHandler p)"

definition getDefaultNotFoundHandler :: "platformServerConfig \<Rightarrow> handler" where
  "getDefaultNotFoundHandler cfg = (case cf_DefaultNotFoundHandler cfg of Some h \<Rightarrow> h | None \<Rightarrow> httpNotFound)"

definition getMethodNotAllowedHandler :: "platformServerConfig \<Rightarrow> string \<Rightarrow> handler" where
  "getMethodNotAllowedHandler cfg path =
     (case getRouteErrorPolicy cfg path re_MethodNotAllowedHandler of
        Some p \<Rightarrow> (case re_MethodNotAllowedHandler p of None \<Rightarrow> nilFunc | Some h \<Rightarrow> h)
      | None \<Rightarrow>
          (case cf_DefaultMethodNotAllowedHandler cfg of
             Some h \<Rightarrow> h
           | None \<Rightarrow> (\<lambda>req w. Some (httpError ''Method Not Allowed'' 405 w))))"

subsection \<open>The single page application\<close>

record contentEnv =
  ce_serveFile :: "string \<Rightarrow> handler"
  ce_fileServer :: "string \<Rightarrow> handler"

definition serveSPAResource :: "contentEnv \<Rightarrow> spaConfig \<Rightarrow> handler" where
  "serveSPAResource ce spa req w =
     (let resource = (if pathExt (hq_Path req) \<noteq> [] then pathClean (hq_Path req) else ''index.html'')
      in ce_serveFile ce (pathJoin [sa_RootFolder spa, resource]) req w)"

text \<open>\<open>None\<close>: the application does not take the request; else what serving it leaves.\<close>

definition tryServeSPA :: "contentEnv \<Rightarrow> platformServerConfig \<Rightarrow> httpRequest \<Rightarrow> httpWriter \<Rightarrow> httpWriter option option" where
  "tryServeSPA ce cfg req w =
     (case cf_SpaConfig cfg of
        None \<Rightarrow> None
      | Some spa \<Rightarrow>
          (if \<not> pathMatchesPrefix (hq_Path req) (sa_BaseUri spa) then None
           else if spaPathExcluded (hq_Path req) (sa_ExcludedPrefixes spa) then None
           else if pathExt (hq_Path req) \<noteq> [] then Some (serveSPAResource ce spa req w)
           else if (case sa_FallbackPredicate spa of None \<Rightarrow> False | Some f \<Rightarrow> \<not> f req) then None
           else Some (serveSPAResource ce spa req w)))"

definition BrowserNavigationFallback :: "httpRequest \<Rightarrow> bool" where
  "BrowserNavigationFallback req =
     (if hq_Method req \<noteq> ''GET'' then False
      else if pathExt (hq_Path req) \<noteq> [] then False
      else strContains (headerGet ''Accept'' (hq_Header req)) ''text/html'')"

definition handleNotFound :: "contentEnv \<Rightarrow> platformServerConfig \<Rightarrow> handler" where
  "handleNotFound ce cfg req w =
     (case getRouteSpecificNotFoundHandler cfg (hq_Path req) of
        Some h \<Rightarrow> h req w
      | None \<Rightarrow>
          (case tryServeSPA ce cfg req w of
             Some r \<Rightarrow> r
           | None \<Rightarrow> getDefaultNotFoundHandler cfg req w))"

definition handleMethodNotAllowed :: "platformServerConfig \<Rightarrow> handler" where
  "handleMethodNotAllowed cfg req w = getMethodNotAllowedHandler cfg (hq_Path req) req w"

definition configureRouterErrorHandlers :: "contentEnv \<Rightarrow> platformServerConfig \<Rightarrow> router \<Rightarrow> router" where
  "configureRouterErrorHandlers ce cfg r =
     r\<lparr>ro_NotFoundHandler := Some (HandlerFunc (handleNotFound ce cfg)),
       ro_MethodNotAllowedHandler := Some (HandlerFunc (handleMethodNotAllowed cfg))\<rparr>"

subsection \<open>Static folders\<close>

text \<open>\<open>http.StripPrefix\<close> for a path that is not encoded; an empty prefix leaves the handler as it is.\<close>

definition stripPrefix :: "string \<Rightarrow> handlerVal \<Rightarrow> handlerVal" where
  "stripPrefix pre h =
     (if pre = [] then h
      else HandlerFunc (\<lambda>req w.
        let p = TrimPrefix (hq_Path req) pre in
        if length p < length (hq_Path req) then serves h (req\<lparr>hq_Path := p\<rparr>) w else httpNotFound req w))"

text \<open>The handler of a static folder, \<open>None\<close> where the last assertion panics.\<close>

definition staticHandler :: "contentEnv \<Rightarrow> string \<Rightarrow> string \<Rightarrow> middlewareFunc list \<Rightarrow> handler option" where
  "staticHandler ce pre fullpath mws =
     (let h = foldl (\<lambda>h mw. mw h)
                (stripPrefix pre (BasicSecurityHeaderMiddleware (OtherHandler (ce_fileServer ce fullpath)))) mws
      in case h of HandlerFunc f \<Rightarrow> Some f | OtherHandler f \<Rightarrow> None)"

subsection \<open>Directories that are not listed\<close>

text \<open>\<open>neuteredStatFile.Stat\<close>: \<open>info\<close> is the answer of the file's \<open>Stat\<close>, whether it is a directory,
  \<open>batches\<close> what the calls of \<open>Readdir\<close> return, two names at a time: names, the end, or an error.
  The loop ends with the batches; the file's last batch is the end.\<close>

datatype readdir = Entries "string list" | AtEnd | ReadError err

fun neuteredLoop :: "readdir list \<Rightarrow> bool res" where
  "neuteredLoop [] = Inl ''file does not exist''"
| "neuteredLoop (AtEnd # bs) = Inl ''file does not exist''"
| "neuteredLoop (ReadError e # bs) = Inl e"
| "neuteredLoop (Entries fl # bs) = (if ''index.html'' \<in> set fl then Inr True else neuteredLoop bs)"

definition neuteredStat :: "bool res \<Rightarrow> readdir list \<Rightarrow> bool res" where
  "neuteredStat info batches =
     (case info of
        Inl e \<Rightarrow> Inl e
      | Inr isDir \<Rightarrow> if isDir then neuteredLoop batches else Inr False)"

subsection \<open>Errors of the server\<close>

text \<open>plank/pkg/server/base_error.go.\<close>

datatype baseType = ErrServerInit | ErrHttp | ErrInternal | ErrUndefined

record baseError =
  ber_base :: baseType
  ber_wrapped :: err

definition baseMessage :: "baseType \<Rightarrow> string" where
  "baseMessage b =
     (case b of
        ErrServerInit \<Rightarrow> ''Server initialization failed''
      | ErrHttp \<Rightarrow> ''HTTP error''
      | ErrInternal \<Rightarrow> ''Internal error''
      | ErrUndefined \<Rightarrow> ''Undefined error'')"

definition wrapError :: "baseType \<Rightarrow> err \<Rightarrow> baseError" where
  "wrapError b e =
     (case b of
        ErrServerInit \<Rightarrow> \<lparr>ber_base = ErrServerInit, ber_wrapped = e\<rparr>
      | ErrInternal \<Rightarrow> \<lparr>ber_base = ErrInternal, ber_wrapped = e\<rparr>
      | ErrHttp \<Rightarrow> \<lparr>ber_base = ErrHttp, ber_wrapped = e\<rparr>
      | _ \<Rightarrow> \<lparr>ber_base = ErrUndefined, ber_wrapped = e\<rparr>)"

definition errorIs :: "baseError \<Rightarrow> baseType \<Rightarrow> bool" where
  "errorIs e b \<longleftrightarrow> ber_base e = b"

definition errorText :: "baseError \<Rightarrow> string" where
  "errorText e = ''[ranch] Error: '' @ baseMessage (ber_base e) @ '': '' @ ber_wrapped e @ [CHR 0x0A]"

end
