(* ===== verification/PlankServer.thy ===== *)
theory PlankServer
  imports RestBridge RouterErrors Store
begin

text \<open>
  plank/pkg/server/server.go and initialize.go: the server that owns the bus, the service registry,
  the router with its REST bridges and middleware, and the fabric endpoint. The bus is the one of the
  registry; a route handle is named by the number of the endpoint that made it and its own; routers are objects, named by references, because the server, the registry of bridges and
  the middleware manager each keep a pointer to one. Listening, TLS files and serving are answers
  given to the start; the goroutines of the server are steps. Loggers, the profiler and the port
  probe are left out.
\<close>

subsection \<open>State\<close>

definition RANCH_SERVER_ONLINE_CHANNEL :: string where
  "RANCH_SERVER_ONLINE_CHANNEL = RANCH_INTERNAL_CHANNEL_PREFIX @ ''ranch-online-notify''"

record platform =
  pl_config :: platformServerConfig
  pl_registry :: serviceRegistry
  pl_readyStore :: busStore
  pl_routers :: "router list"
  pl_router :: ref
  pl_bridges :: restBridgeRegistry
  pl_bridgesRouter :: ref
  pl_originalHandlers :: "(string, handler) gomap"
  pl_managerRouter :: ref
  pl_httpAddr :: string
  pl_httpHandler :: "ref option"
  pl_tls :: "nat option"
  pl_fabric :: "fabric option"
  pl_pendingRoutes :: "routeSpec list"
  pl_endpoints :: nat
  pl_routeHandles :: "(string, nat \<times> nat) gomap"
  pl_waitingReady :: "string list"
  pl_teardown :: "nat list"
  pl_availableHttp :: bool
  pl_availableFabric :: bool
  pl_readyClosed :: bool

text \<open>What the server depends on: the configurations that the services' setups name, the content,
  the WebSocket handler, the builder of endpoint handlers, the store's oracle.\<close>

record platformEnv =
  pe_configs :: "nat \<Rightarrow> restBridgeConfig option"
  pe_content :: contentEnv
  pe_socket :: handler
  pe_build :: buildHandlerFunc
  pe_store :: storeOracle

definition busOf :: "platform \<Rightarrow> bus" where "busOf p = rg_bus (pl_registry p)"

definition setBus :: "bus \<Rightarrow> platform \<Rightarrow> platform" where
  "setBus b p = p\<lparr>pl_registry := (pl_registry p)\<lparr>rg_bus := b\<rparr>\<rparr>"

definition routerAt :: "ref \<Rightarrow> platform \<Rightarrow> router" where "routerAt r p = pl_routers p ! r"

definition setRouterAt :: "ref \<Rightarrow> router \<Rightarrow> platform \<Rightarrow> platform" where
  "setRouterAt r x p = p\<lparr>pl_routers := (pl_routers p)[r := x]\<rparr>"

text \<open>A component sees the bus, the router it points to and the map of handlers as they are.\<close>

definition bridgesView :: "platform \<Rightarrow> restBridgeRegistry" where
  "bridgesView p = (pl_bridges p)\<lparr>rb_router := routerAt (pl_bridgesRouter p) p, rb_eventBus := busOf p\<rparr>"

definition onBridges :: "(restBridgeRegistry \<Rightarrow> restBridgeRegistry) \<Rightarrow> platform \<Rightarrow> platform" where
  "onBridges g p =
     (let s = g (bridgesView p) in
      setBus (rb_eventBus s) (setRouterAt (pl_bridgesRouter p) (rb_router s) (p\<lparr>pl_bridges := s\<rparr>)))"

definition managerView :: "platform \<Rightarrow> middlewareManager" where
  "managerView p = \<lparr>mm_endpointHandlerMap = rb_endpointHandlerMap (pl_bridges p),
     mm_originalHandlersMap = pl_originalHandlers p, mm_router = routerAt (pl_managerRouter p) p\<rparr>"

definition putManager :: "middlewareManager \<Rightarrow> platform \<Rightarrow> platform" where
  "putManager m p =
     setRouterAt (pl_managerRouter p) (mm_router m)
       (p\<lparr>pl_bridges := (pl_bridges p)\<lparr>rb_endpointHandlerMap := mm_endpointHandlerMap m\<rparr>,
          pl_originalHandlers := mm_originalHandlersMap m\<rparr>)"

definition onFabric :: "(fabric \<Rightarrow> fabric \<times> 'a) \<Rightarrow> fabric \<Rightarrow> platform \<Rightarrow> platform \<times> 'a" where
  "onFabric g f p =
     (let (f', x) = g (f\<lparr>fa_bus := Some (busOf p)\<rparr>);
          p1 = p\<lparr>pl_fabric := Some f'\<rparr>
      in (case fa_bus f' of None \<Rightarrow> p1 | Some b \<Rightarrow> setBus b p1, x))"

definition onPlatformBus :: "(bus \<Rightarrow> bus) \<Rightarrow> platform \<Rightarrow> platform" where
  "onPlatformBus g p = setBus (g (busOf p)) p"

subsection \<open>Routes of static content\<close>

text \<open>\<open>None\<close> is a panic.\<close>

definition SetStaticRoute ::
  "platformEnv \<Rightarrow> string \<Rightarrow> string \<Rightarrow> middlewareFunc list \<Rightarrow> platform \<Rightarrow> platform option" where
  "SetStaticRoute env pre fullpath mws p =
     (case staticHandler (pe_content env) pre fullpath mws of
        None \<Rightarrow> None
      | Some h \<Rightarrow>
          (let key = pre @ ''*'';
               p1 = p\<lparr>pl_bridges := (pl_bridges p)\<lparr>rb_endpointHandlerMap := gm_set key h (rb_endpointHandlerMap (pl_bridges p))\<rparr>\<rparr>;
               (r, k) = PathPrefix (pre @ ''/'') (routerAt (pl_router p1) p1)
           in Some (setRouterAt (pl_router p1) (RouteHandler k (Some (HandlerFunc h)) (RouteName k key r)) p1)))"

fun staticDirs :: "platformEnv \<Rightarrow> string list \<Rightarrow> platform \<Rightarrow> platform option" where
  "staticDirs env [] p = Some p"
| "staticDirs env (dir # dirs) p =
     (let (path, uri) = DeriveStaticURIFromPath dir in
      case SetStaticRoute env uri path [] p of None \<Rightarrow> None | Some p' \<Rightarrow> staticDirs env dirs p')"

subsection \<open>Bridges, routes and middleware\<close>

definition SetHttpChannelBridge :: "platformEnv \<Rightarrow> svcIds \<Rightarrow> restBridgeConfig option \<Rightarrow> platform \<Rightarrow> platform" where
  "SetHttpChannelBridge env ids c p = onBridges (SetExact (pe_build env) ids c) p"

definition SetHttpPathPrefixChannelBridge :: "platformEnv \<Rightarrow> svcIds \<Rightarrow> restBridgeConfig option \<Rightarrow> platform \<Rightarrow> platform" where
  "SetHttpPathPrefixChannelBridge env ids c p = onBridges (SetPrefix (pe_build env) ids c) p"

definition getSubRoute :: "string \<Rightarrow> platform \<Rightarrow> nat res" where
  "getSubRoute name p =
     (case RouterGet name (routerAt (pl_router p) p) of
        None \<Rightarrow> Inl (''no route exists under name '' @ name)
      | Some k \<Rightarrow> Inr k)"

definition GetRestBridgeSubRoute :: "string \<Rightarrow> string \<Rightarrow> platform \<Rightarrow> nat res" where
  "GetRestBridgeSubRoute uri method p =
     (case getSubRoute (uri @ ''-'' @ method) p of
        Inl e \<Rightarrow> Inl (''no route exists at '' @ uri @ '' ('' @ method @ '') exists'')
      | Inr k \<Rightarrow> Inr k)"

definition loadGlobalHttpHandler :: "ref \<Rightarrow> platform \<Rightarrow> platform" where
  "loadGlobalHttpHandler h p =
     p\<lparr>pl_router := h, pl_managerRouter := h, pl_bridgesRouter := h, pl_httpHandler := Some h\<rparr>"

text \<open>The rebuilt router is a new object.\<close>

definition clearHttpChannelBridgesForService :: "string \<Rightarrow> platform \<Rightarrow> platform \<times> ref" where
  "clearHttpChannelBridgesForService ch p =
     (let (s, r) = ClearForService ch (bridgesView p) in
      (p\<lparr>pl_bridges := s, pl_routers := pl_routers p @ [r]\<rparr>, length (pl_routers p)))"

definition CustomizeTLSConfig :: "nat \<Rightarrow> platform \<Rightarrow> platform \<times> err option" where
  "CustomizeTLSConfig tls p =
     (if pl_availableHttp p \<or> pl_availableFabric p
      then (p, Some ''TLS configuration can be provided only if the server is not running'')
      else (p\<lparr>pl_tls := Some tls\<rparr>, None))"

subsection \<open>Services\<close>

definition routeSpecFor :: "fabricBrokerConfig \<Rightarrow> string \<Rightarrow> routeSpec" where
  "routeSpecFor fb ch =
     \<lparr>sp_BusChannel = ch, sp_DefaultDest = TopicDestination (fb_EndpointConfig fb) ch, sp_AllowOverride = True,
      sp_Direction = ResponseDir\<rparr>"

definition registerOrPendRoute :: "freshIds \<Rightarrow> string \<Rightarrow> platform \<Rightarrow> platform \<times> err option" where
  "registerOrPendRoute ids ch p =
     (case cf_FabricConfig (pl_config p) of
        None \<Rightarrow> (p, None)
      | Some fb \<Rightarrow>
          (let spec = routeSpecFor fb ch in
           case pl_fabric p of
             None \<Rightarrow> (p\<lparr>pl_pendingRoutes := pl_pendingRoutes p @ [spec]\<rparr>, None)
           | Some f \<Rightarrow>
               (case onFabric (RegisterRoute ids spec) f p of
                  (p1, Inl e) \<Rightarrow> (p1, Some e)
                | (p1, Inr h) \<Rightarrow> (p1\<lparr>pl_routeHandles := gm_set ch (pl_endpoints p1, h) (pl_routeHandles p1)\<rparr>, None))))"

fun drainLoop :: "freshIds \<Rightarrow> routeSpec list \<Rightarrow> platform \<Rightarrow> platform \<times> err option" where
  "drainLoop ids [] p = (p, None)"
| "drainLoop ids (spec # specs) p =
     (case pl_fabric p of
        None \<Rightarrow> (p, None)
      | Some f \<Rightarrow>
          (case onFabric (RegisterRoute ids spec) f p of
             (p1, Inl e) \<Rightarrow> (p1, Some (''register route '' @ [CHR 0x22] @ sp_BusChannel spec @ [CHR 0x22] @ '': '' @ e))
           | (p1, Inr h) \<Rightarrow>
               drainLoop ids specs (p1\<lparr>pl_routeHandles := gm_set (sp_BusChannel spec) (pl_endpoints p1, h) (pl_routeHandles p1)\<rparr>)))"

definition drainPendingRoutes :: "freshIds \<Rightarrow> platform \<Rightarrow> platform \<times> err option" where
  "drainPendingRoutes ids p =
     (case drainLoop ids (pl_pendingRoutes p) p of
        (p1, Some e) \<Rightarrow> (p1, Some e)
      | (p1, None) \<Rightarrow> (p1\<lparr>pl_pendingRoutes := []\<rparr>, None))"

definition onRegistry :: "(serviceRegistry \<Rightarrow> serviceRegistry \<times> 'a) \<Rightarrow> platform \<Rightarrow> platform \<times> 'a" where
  "onRegistry g p = (let (s, x) = g (pl_registry p) in (p\<lparr>pl_registry := s\<rparr>, x))"

definition putReady :: "platformEnv \<Rightarrow> string \<Rightarrow> bool \<Rightarrow> uuid \<Rightarrow> platform \<Rightarrow> platform" where
  "putReady env ch v newId p =
     p\<lparr>pl_readyStore := Put (pe_store env) ch (GBool v) (GString ''service-init-state-change'') newId (pl_readyStore p)\<rparr>"

definition platformRegisterService ::
  "platformEnv \<Rightarrow> svcIds \<Rightarrow> freshIds \<Rightarrow> fabricService option \<Rightarrow> string \<Rightarrow> platform \<Rightarrow> platform \<times> err option" where
  "platformRegisterService env ids fids svc ch p =
     (case onRegistry (RegisterService ids svc ch) p of
        (p1, Some e) \<Rightarrow> (p1, Some e)
      | (p1, None) \<Rightarrow>
          (let p2 = (if GetOnReadyCapableService ch (pl_registry p1) = None
                     then putReady env ch True (si_msg ids) p1 else p1)
           in case registerOrPendRoute fids ch p2 of
                (p3, Some e) \<Rightarrow> (fst (onRegistry (UnregisterService ch) p3), Some e)
              | (p3, None) \<Rightarrow> (p3, None)))"

fun removePending :: "string \<Rightarrow> routeSpec list \<Rightarrow> routeSpec list" where
  "removePending ch [] = []"
| "removePending ch (spec # specs) = (if sp_BusChannel spec = ch then specs else spec # removePending ch specs)"

text \<open>The stop of an endpoint has closed its routes: after it closing a handle has nothing left to do.\<close>

definition platformUnregisterService :: "string \<Rightarrow> platform \<Rightarrow> platform \<times> err option" where
  "platformUnregisterService ch p =
     (case onRegistry (UnregisterService ch) p of
        (p1, Some e) \<Rightarrow> (p1, Some e)
      | (p1, None) \<Rightarrow>
          (case gm_get (pl_routeHandles p1) ch of
             Some (e, h) \<Rightarrow>
               (let p2 = p1\<lparr>pl_routeHandles := gm_del ch (pl_routeHandles p1)\<rparr> in
                case pl_fabric p2 of
                  None \<Rightarrow> (p2, None)
                | Some f \<Rightarrow>
                    if e = pl_endpoints p2 then (fst (onFabric (\<lambda>f. (closeRoute h f, ())) f p2), None) else (p2, None))
           | None \<Rightarrow> (p1\<lparr>pl_pendingRoutes := removePending ch (pl_pendingRoutes p1)\<rparr>, None)))"

subsection \<open>The handler of the lifecycle channel\<close>

text \<open>The bridges of the setup; then, unless the service is marked ready, the wait for its own
  channel, which is a step of its own. \<open>None\<close> is a panic: for another payload, and when the service
  is gone by then and was not marked.\<close>

fun setupBridges :: "platformEnv \<Rightarrow> svcIds \<Rightarrow> nat list \<Rightarrow> platform \<Rightarrow> platform" where
  "setupBridges env ids [] p = p"
| "setupBridges env ids (c # cs) p = setupBridges env ids cs (SetHttpChannelBridge env ids (pe_configs env c) p)"

definition markedReady :: "string \<Rightarrow> platform \<Rightarrow> bool" where
  "markedReady ch p \<longleftrightarrow> Get ch (pl_readyStore p) = Some (GBool True)"

definition handleSetup :: "platformEnv \<Rightarrow> svcIds \<Rightarrow> message \<Rightarrow> platform \<Rightarrow> platform option" where
  "handleSetup env ids msg p =
     (case m_Payload msg of
        GSetupREST ch override cs \<Rightarrow>
          (let known = GetService ch (pl_registry p);
               hooks = GetOnReadyCapableService ch (pl_registry p);
               p1 = (if override
                     then (let (q, r) = clearHttpChannelBridgesForService ch p in loadGlobalHttpHandler r q) else p);
               p2 = setupBridges env ids cs p1
           in if markedReady ch p2 then Some p2
              else if hooks \<noteq> None then Some (p2\<lparr>pl_waitingReady := pl_waitingReady p2 @ [ch]\<rparr>)
              else (case known of Inl e \<Rightarrow> None | Inr svc \<Rightarrow> Some p2))
      | _ \<Rightarrow> None)"

definition serviceReady :: "platformEnv \<Rightarrow> nat \<Rightarrow> bool \<Rightarrow> uuid \<Rightarrow> platform \<Rightarrow> platform" where
  "serviceReady env i v newId p =
     (if i < length (pl_waitingReady p)
      then putReady env (pl_waitingReady p ! i) v newId
             (p\<lparr>pl_waitingReady := take i (pl_waitingReady p) @ drop (Suc i) (pl_waitingReady p)\<rparr>)
      else p)"

subsection \<open>Making the server\<close>

text \<open>\<open>in_tcp\<close>: the error of the TCP listener. The REST service is one of the services.\<close>

record initInput =
  in_busId :: uuid
  in_restService :: fabricService
  in_restIds :: svcIds
  in_lcmIds :: svcIds
  in_tcp :: "err option"

definition ServiceReadyStoreInit :: "storeOracle \<Rightarrow> busStore" where
  "ServiceReadyStoreInit orc = Initialize (newBusStore orc ServiceReadyStore None (Inl []) 0)"

definition emptyPlatform :: "platformEnv \<Rightarrow> initInput \<Rightarrow> platformServerConfig \<Rightarrow> platform" where
  "emptyPlatform env inp cfg =
     (let r = configureRouterErrorHandlers (pe_content env) cfg NewRouter;
          b = onMgr (\<lambda>m. fst (CreateChannel RANCH_SERVER_ONLINE_CHANNEL m))
                (rg_bus (NewServiceRegistry (in_busId inp) newBus))
      in \<lparr>pl_config = cfg, pl_registry = (NewServiceRegistry (in_busId inp) newBus)\<lparr>rg_bus := b\<rparr>,
          pl_readyStore = ServiceReadyStoreInit (pe_store env), pl_routers = [r], pl_router = 0,
          pl_bridges = NewRestBridgeRegistry r (Some gm_empty) b (sint (cf_RestBridgeTimeout cfg)), pl_bridgesRouter = 0,
          pl_originalHandlers = gm_empty, pl_managerRouter = 0,
          pl_httpAddr = (if cf_HTTPListenAddress cfg = [] then '':'' @ itoa (cf_Port cfg) else cf_HTTPListenAddress cfg),
          pl_httpHandler = None, pl_tls = None, pl_fabric = None, pl_pendingRoutes = [], pl_endpoints = 0,
          pl_routeHandles = gm_empty, pl_waitingReady = [], pl_teardown = [], pl_availableHttp = False,
          pl_availableFabric = False, pl_readyClosed = False\<rparr>)"

text \<open>The function of the lifecycle handler is told from those of the services by its handler.\<close>

definition listenLifecycle :: "svcIds \<Rightarrow> platform \<Rightarrow> platform option" where
  "listenLifecycle ids p =
     (case ListenStreamForDestination LifecycleManagerChannelName (Some (rg_busId (pl_registry p))) (si_handler ids) (busOf p) of
        (b, Inl e) \<Rightarrow> None
      | (b, Inr r) \<Rightarrow> Some (setBus (Handle r (Some 0) (Some 0) (si_sub ids) b) p))"

definition configureFabric :: "platformEnv \<Rightarrow> err option \<Rightarrow> platform \<Rightarrow> platform option" where
  "configureFabric env tcp p =
     (case cf_FabricConfig (pl_config p) of
        None \<Rightarrow> Some p
      | Some fb \<Rightarrow>
          (if fb_UseTCP fb then (case tcp of Some e \<Rightarrow> None | None \<Rightarrow> Some p)
           else Some (setRouterAt (pl_router p)
                  (RouterHandle (fb_FabricEndpoint fb) (Some (HandlerFunc (pe_socket env))) (routerAt (pl_router p) p)) p)))"

definition initialize :: "platformEnv \<Rightarrow> initInput \<Rightarrow> platformServerConfig \<Rightarrow> platform option" where
  "initialize env inp cfg =
     (case staticDirs env (cf_StaticDir cfg) (emptyPlatform env inp cfg) of
        None \<Rightarrow> None
      | Some p1 \<Rightarrow>
          (let p2 = fst (onRegistry (RegisterService (in_restIds inp) (Some (in_restService inp)) RestServiceChannel) p1) in
           case listenLifecycle (in_lcmIds inp) p2 of
             None \<Rightarrow> None
           | Some p3 \<Rightarrow>
               (let p4 = (if cf_FabricConfig cfg \<noteq> None
                          then onPlatformBus (onMgr (\<lambda>m. fst (CreateChannel STOMP_SESSION_NOTIFY_CHANNEL m))) p3 else p3)
                in configureFabric env (in_tcp inp) p4)))"

definition NewPlatformServer :: "configEnv \<Rightarrow> platformEnv \<Rightarrow> initInput \<Rightarrow> platformServerConfig \<Rightarrow> platform option" where
  "NewPlatformServer cenv env inp cfg =
     (case sanitizeConfigRootPath cenv cfg of Inl e \<Rightarrow> None | Inr c \<Rightarrow> initialize env inp c)"

definition NewPlatformServerFromConfig ::
  "configEnv \<Rightarrow> platformEnv \<Rightarrow> initInput \<Rightarrow> string \<Rightarrow> platform option outcome" where
  "NewPlatformServerFromConfig cenv env inp path =
     (case configFromFile cenv path of
        Fails e \<Rightarrow> Fails e
      | Panics e \<Rightarrow> Panics e
      | Gives c \<Rightarrow> Gives (initialize env inp c))"

subsection \<open>Starting and stopping\<close>

fun spaAssets :: "platformEnv \<Rightarrow> spaConfig \<Rightarrow> string list \<Rightarrow> platform \<Rightarrow> platform option" where
  "spaAssets env spa [] p = Some p"
| "spaAssets env spa (asset # as) p =
     (let (folderPath, uri) = DeriveStaticURIFromPath asset in
      case SetStaticRoute env (SanitizeUrl uri False) folderPath [spaCacheControlMiddleware spa] p of
        None \<Rightarrow> None
      | Some p' \<Rightarrow> spaAssets env spa as p')"

definition configureSPA :: "platformEnv \<Rightarrow> platform \<Rightarrow> platform option" where
  "configureSPA env p =
     (case cf_SpaConfig (pl_config p) of
        None \<Rightarrow> Some p
      | Some spa \<Rightarrow>
          (case spaAssets env spa (sa_StaticAssets spa) p of
             None \<Rightarrow> None
           | Some p1 \<Rightarrow>
               Some (p1\<lparr>pl_bridges := (pl_bridges p1)\<lparr>rb_endpointHandlerMap :=
                  gm_set (sa_BaseUri spa @ ''*'')
                    (serves (spaCacheControlMiddleware spa (HandlerFunc (serveSPAResource (pe_content env) spa))))
                    (rb_endpointHandlerMap (pl_bridges p1))\<rparr>\<rparr>)))"

text \<open>The answers to a start: the errors of listening, of loading the certificate and of starting the
  endpoint.\<close>

record startInput =
  in_listen :: "err option"
  in_cert :: "err option"
  in_start :: "err option"
  in_fresh :: freshIds

datatype startOutcome = StartFailed baseError | StartPanics | Serving

definition startFabric :: "startInput \<Rightarrow> fabricBrokerConfig \<Rightarrow> platform \<Rightarrow> platform \<times> startOutcome" where
  "startFabric inp fb p =
     (let closeHTTP = (\<lambda>q. q\<lparr>pl_availableHttp := False\<rparr>) in
      case fb_EndpointConfig fb of
        None \<Rightarrow> (p, StartPanics)
      | Some ec \<Rightarrow>
          (case New (Some (busOf p)) ec of
             Inl e \<Rightarrow> (closeHTTP p, StartFailed (wrapError ErrServerInit e))
           | Inr f \<Rightarrow>
               (let p1 = p\<lparr>pl_fabric := Some f, pl_endpoints := Suc (pl_endpoints p)\<rparr> in
                case in_start inp of
                  Some e \<Rightarrow> (closeHTTP p1, StartFailed (wrapError ErrServerInit e))
                | None \<Rightarrow>
                    (case drainPendingRoutes (in_fresh inp) p1 of
                       (p2, Some e) \<Rightarrow>
                         (let p3 = closeHTTP p2 in
                          (case pl_fabric p3 of None \<Rightarrow> p3 | Some f \<Rightarrow> fst (onFabric (\<lambda>f. (fabricStop f, ())) f p3),
                           StartFailed (wrapError ErrServerInit e)))
                     | (p2, None) \<Rightarrow> (p2\<lparr>pl_availableFabric := True\<rparr>, Serving)))))"

definition StartServer :: "platformEnv \<Rightarrow> startInput \<Rightarrow> platform \<Rightarrow> platform \<times> startOutcome" where
  "StartServer env inp p =
     (case configureSPA env (loadGlobalHttpHandler (pl_router p) p) of
        None \<Rightarrow> (p, StartPanics)
      | Some p1 \<Rightarrow>
          (case in_listen inp of
             Some e \<Rightarrow> (p1, StartFailed (wrapError ErrServerInit e))
           | None \<Rightarrow>
               (case (if cf_TLSCertConfig (pl_config p1) \<noteq> None then in_cert inp else None) of
                  Some e \<Rightarrow> (p1\<lparr>pl_availableHttp := False\<rparr>, StartFailed (wrapError ErrServerInit e))
                | None \<Rightarrow>
                    (let p2 = p1\<lparr>pl_availableHttp := True\<rparr> in
                     case cf_FabricConfig (pl_config p2) of
                       None \<Rightarrow> (p2, Serving)
                     | Some fb \<Rightarrow> startFabric inp fb p2))))"

text \<open>A server that serves: it announces itself, or serving has failed already; then it waits for
  serving to fail or for its context to end.\<close>

definition announceOnline :: "uuid \<Rightarrow> bool \<Rightarrow> platform \<Rightarrow> platform" where
  "announceOnline newId v p =
     onPlatformBus (\<lambda>b. fst (SendResponseMessage RANCH_SERVER_ONLINE_CHANNEL (GBool v) None newId None b)) p"

definition serverOnline :: "uuid \<Rightarrow> platform \<Rightarrow> platform" where
  "serverOnline newId p = announceOnline newId True (p\<lparr>pl_readyClosed := True\<rparr>)"

definition serveFailed :: "platform \<Rightarrow> platform" where
  "serveFailed p = p\<lparr>pl_availableHttp := False\<rparr>"

fun teardownAll :: "string list \<Rightarrow> platform \<Rightarrow> platform" where
  "teardownAll [] p = p"
| "teardownAll (ch # chs) p =
     teardownAll chs
       (case GetOnServerShutdownService ch (pl_registry p) of
          None \<Rightarrow> p
        | Some svc \<Rightarrow> p\<lparr>pl_teardown := pl_teardown p @ [sc_id svc]\<rparr>)"

definition StopServer :: "platform \<Rightarrow> platform" where
  "StopServer p0 =
     (let p = teardownAll (GetAllServiceChannels (pl_registry p0)) (p0\<lparr>pl_availableHttp := False\<rparr>) in
      case pl_fabric p of
        None \<Rightarrow> p
      | Some f \<Rightarrow> (fst (onFabric (\<lambda>f. (fabricStop f, ())) f p))\<lparr>pl_fabric := None, pl_availableFabric := False\<rparr>)"

definition stopRequested :: "uuid \<Rightarrow> platform \<Rightarrow> platform" where
  "stopRequested newId p = StopServer (announceOnline newId False p)"

subsection \<open>Requests\<close>

text \<open>The router behind the HTTP server, as it is when the request arrives; before the start nothing is
  served, and a panic (\<open>None\<close>) goes to the library's recovery handler.\<close>

definition serveRequest :: "httpRequest \<Rightarrow> httpWriter \<Rightarrow> platform \<Rightarrow> platform \<times> httpWriter option" where
  "serveRequest req w p =
     (case pl_httpHandler p of
        None \<Rightarrow> (p, None)
      | Some r \<Rightarrow> (let (x, res) = RouterServeHTTP req w (routerAt r p) in (setRouterAt r x p, res)))"

end
