(* ===== verification/ServerFacts.thy ===== *)
theory ServerFacts
  imports RouterErrors
begin

text \<open>
  What holds of the server's configuration and of its answers to requests that no route takes:
  timeouts and their bounds, the defaults of the flags, prefixes, error policies, the single page
  application and static folders.
\<close>

subsection \<open>Timeouts\<close>

definition maxMinutes :: int where "maxMinutes = 153722867"

lemma minutes_exact:
  assumes "0 < sint t" and "sint t \<le> maxMinutes"
  shows "sint (t * minute) = sint t * 60000000000"
proof -
  have m: "sint minute = 60000000000" by (simp add: minute_def)
  have "0 < sint t * 60000000000" "sint t * 60000000000 \<le> 9223372020000000000"
    using assms by (simp_all add: maxMinutes_def)
  then have "signed_take_bit 63 (sint t * 60000000000) = sint t * (60000000000::int)"
    by (intro signed_take_bit_int_eq_self) (simp_all)
  then show ?thesis using m by (simp add: sint_word_ariths)
qed

lemma minutesOr_exact:
  assumes "sint t \<le> maxMinutes" and "0 < sint def" and "sint def \<le> maxMinutes"
  shows "sint (minutesOr def t) = (if sint t \<le> 0 then sint def else sint t) * 60000000000"
  using assms minutes_exact [of t] minutes_exact [of def] by (simp add: minutesOr_def)

lemma sanitize_keeps: "sanitizeConfigRootPath env c = Inr c1 \<Longrightarrow> c1 = c\<lparr>cf_RootDir := cf_RootDir c1\<rparr>"
  by (auto simp: sanitizeConfigRootPath_def Let_def split: sum.splits option.splits)

lemma defaults_keep:
  "cf_ShutdownTimeout (applyPlatformServerConfigJSONDefaults env bytes c) = cf_ShutdownTimeout c"
  "cf_RestBridgeTimeout (applyPlatformServerConfigJSONDefaults env bytes c) = cf_RestBridgeTimeout c"
  by (simp_all add: applyPlatformServerConfigJSONDefaults_def split: option.split bool.split)

lemma sanitize_timeouts:
  assumes "sanitizeConfigRootPath env c = Inr c1"
  shows "cf_ShutdownTimeout c1 = cf_ShutdownTimeout c" "cf_RestBridgeTimeout c1 = cf_RestBridgeTimeout c"
  using arg_cong [OF sanitize_keeps [OF assms], of cf_ShutdownTimeout]
    arg_cong [OF sanitize_keeps [OF assms], of cf_RestBridgeTimeout] by simp_all

text \<open>A product of words is that of the integers, brought back to 64 bits.\<close>

lemma minutes_wrap: "sint (t * minute) = (sint t * 60000000000 + 2 ^ 63) mod 2 ^ 64 - 2 ^ 63"
  by (simp add: sint_word_ariths minute_def signed_take_bit_eq_take_bit_shift take_bit_eq_mod)

lemma minutesOr_wrap:
  assumes "sint def = d"
  shows "sint (minutesOr def t) = ((if sint t \<le> 0 then d else sint t) * 60000000000 + 2 ^ 63) mod 2 ^ 64 - 2 ^ 63"
  using minutes_wrap [of t] minutes_wrap [of def] assms by (simp add: minutesOr_def)

text \<open>The minutes that a count in a file stands for, and when they do not fit into a duration.\<close>

definition fileMinutes :: "int \<Rightarrow> 64 word \<Rightarrow> int" where
  "fileMinutes d t = (if sint t \<le> 0 then d else sint t)"

text \<open>C31: Both timeouts of a configuration file, that of the shutdown and that of the REST bridge, are
  exactly their minutes in nanoseconds, five and one minutes where the file gives no positive count, up to 153722867 minutes. For any larger
  count the product wraps to 64 bits, as stated, and 153722868 minutes are a negative duration, which ends a
  wait at once. The other fields that are durations do not come from a file.\<close>

theorem file_timeouts_bounds:
  assumes "configFromFile env path = Gives c" and "cv_read env path = Inr bytes" and "cv_decode env bytes = Inr c0"
  shows "sint (cf_ShutdownTimeout c) = (fileMinutes 5 (cf_ShutdownTimeout c0) * 60000000000 + 2 ^ 63) mod 2 ^ 64 - 2 ^ 63 \<and>
     sint (cf_RestBridgeTimeout c) = (fileMinutes 1 (cf_RestBridgeTimeout c0) * 60000000000 + 2 ^ 63) mod 2 ^ 64 - 2 ^ 63 \<and>
     (sint (cf_ShutdownTimeout c0) \<le> maxMinutes \<longrightarrow>
       sint (cf_ShutdownTimeout c) = fileMinutes 5 (cf_ShutdownTimeout c0) * 60000000000) \<and>
     (sint (cf_RestBridgeTimeout c0) \<le> maxMinutes \<longrightarrow>
       sint (cf_RestBridgeTimeout c) = fileMinutes 1 (cf_RestBridgeTimeout c0) * 60000000000) \<and>
     (sint (cf_ShutdownTimeout c0) = maxMinutes + 1 \<longrightarrow> sint (cf_ShutdownTimeout c) < 0) \<and>
     (sint (cf_RestBridgeTimeout c0) = maxMinutes + 1 \<longrightarrow> sint (cf_RestBridgeTimeout c) < 0)"
proof -
  obtain c1 where c1: "sanitizeConfigRootPath env (applyPlatformServerConfigJSONDefaults env bytes c0) = Inr c1"
      "c = absoluteCert (scaleTimeouts c1)"
    using assms by (auto simp: configFromFile_def split: sum.splits)
  then have t: "cf_ShutdownTimeout c1 = cf_ShutdownTimeout c0" "cf_RestBridgeTimeout c1 = cf_RestBridgeTimeout c0"
    using sanitize_timeouts defaults_keep by metis+
  have c: "cf_ShutdownTimeout c = minutesOr 5 (cf_ShutdownTimeout c0)" "cf_RestBridgeTimeout c = minutesOr 1 (cf_RestBridgeTimeout c0)"
    using t c1(2) by (simp_all add: absoluteCert_def scaleTimeouts_def)
  have wrap: "sint (minutesOr 5 t) = (fileMinutes 5 t * 60000000000 + 2 ^ 63) mod 2 ^ 64 - 2 ^ 63"
    "sint (minutesOr 1 t) = (fileMinutes 1 t * 60000000000 + 2 ^ 63) mod 2 ^ 64 - 2 ^ 63" for t
    unfolding fileMinutes_def by (rule minutesOr_wrap, simp)+
  have neg: "sint (minutesOr 5 t) < 0" "sint (minutesOr 1 t) < 0" if "sint t = maxMinutes + 1" for t
    using wrap [of t] that by (simp_all add: fileMinutes_def maxMinutes_def)
  have exact: "sint (minutesOr 5 t) = fileMinutes 5 t * 60000000000" "sint (minutesOr 1 t) = fileMinutes 1 t * 60000000000"
    if "sint t \<le> maxMinutes" for t
    using minutesOr_exact [OF that, of 5] minutesOr_exact [OF that, of 1] by (simp_all add: fileMinutes_def maxMinutes_def)
  show ?thesis unfolding c using wrap neg exact by blast
qed


definition demoConfigEnv :: "platformServerConfig \<Rightarrow> configEnv" where
  "demoConfigEnv c = \<lparr>cv_read = (\<lambda>p. Inr ''{}''), cv_decode = (\<lambda>b. Inr c), cv_hasPort = (\<lambda>b. Some False),
     cv_getwd = Inr ''/srv'', cv_stat = (\<lambda>p. None), cv_compile = (\<lambda>p. Inr (\<lambda>uri. HasPrefix uri p))\<rparr>"

definition demoFileConfig :: platformServerConfig where
  "demoFileConfig = zeroServerConfig\<lparr>cf_ShutdownTimeout := 3, cf_RestBridgeTimeout := 153722868\<rparr>"

lemma file_timeouts_bounds_witness:
  "\<exists>c. configFromFile (demoConfigEnv demoFileConfig) ''c.json'' = Gives c \<and>
     sint (cf_ShutdownTimeout c) = 180000000000 \<and> sint (cf_RestBridgeTimeout c) < 0"
proof -
  have "\<exists>c. configFromFile (demoConfigEnv demoFileConfig) ''c.json'' = Gives c"
    by (simp add: configFromFile_def demoConfigEnv_def sanitizeConfigRootPath_def applyPlatformServerConfigJSONDefaults_def
        demoFileConfig_def zeroServerConfig_def pathAbs_def pathIsAbs_def HasPrefix_def)
  then obtain c where c: "configFromFile (demoConfigEnv demoFileConfig) ''c.json'' = Gives c" by blast
  from file_timeouts_bounds [OF c, of "''{}''" demoFileConfig] c show ?thesis
    by (simp add: demoConfigEnv_def demoFileConfig_def maxMinutes_def fileMinutes_def)
qed

subsection \<open>Flags\<close>

text \<open>Every field that a getter reads has a flag, of the type that it is read as: without arguments the
  configuration is that of the defaults.\<close>

lemma default_flags:
  "getString (parseFlags wd []) ''ConfigFile'' = []" "getString (parseFlags wd []) ''Hostname'' = ''localhost''"
  "getInt (parseFlags wd []) ''Port'' = 30080" "getString (parseFlags wd []) ''RootDir'' = wd"
  "getStrings (parseFlags wd []) ''Static'' = []" "getInt (parseFlags wd []) ''ShutdownTimeout'' = 5"
  "getBool (parseFlags wd []) ''Debug'' = False" "getBool (parseFlags wd []) ''NoBanner'' = False"
  "getInt (parseFlags wd []) ''RestBridgeTimeout'' = 1" "getString (parseFlags wd []) ''Cert'' = []"
  "getString (parseFlags wd []) ''SpaPath'' = []" "getBool (parseFlags wd []) ''NoFabricBroker'' = False"
  "getString (parseFlags wd []) ''FabricEndpoint'' = ''/ws''" "getString (parseFlags wd []) ''TopicPrefix'' = ''/topic''"
  "getString (parseFlags wd []) ''QueuePrefix'' = ''/queue''" "getString (parseFlags wd []) ''RequestPrefix'' = ''/pub''"
  "getString (parseFlags wd []) ''RequestQueuePrefix'' = ''/pub/queue''"
  by code_simp+

theorem default_configuration:
  "generatePlatformServerConfig env (parseFlags wd []) =
     Inr (zeroServerConfig\<lparr>cf_Host := ''localhost'', cf_Port := 30080, cf_RootDir := wd, cf_ShutdownTimeout := 300000000000,
       cf_RestBridgeTimeout := 60000000000, cf_DebugProfilerPort := 6062,
       cf_FabricConfig := Some \<lparr>fb_FabricEndpoint = ''/ws'', fb_UseTCP = False, fb_TCPPort = 0,
         fb_EndpointConfig = Some \<lparr>ec_TopicPrefix = ''/topic'', ec_UserQueuePrefix = ''/queue'',
           ec_AppRequestPrefix = ''/pub'', ec_AppRequestQueuePrefix = ''/pub/queue'', ec_Heartbeat = 60000\<rparr>\<rparr>\<rparr>)"
  by (simp add: generatePlatformServerConfig_def default_flags certFromFlags_def brokerFromFlags_def minutesOf_def
      minute_def zeroServerConfig_def DefaultDebugProfilerPort_def TrimSpace_def)

text \<open>The flag for Prometheus has no entry among the constants: it is defined under the empty name.\<close>

lemma prometheus_flag_unnamed: "flagName ''Prometheus'' = [] \<and> parseFlags wd [] [] = Some (FvBool False)"
  by (simp add: flagName_def flagConstants_def parseFlags_def configureFlagsInFlagSet_def)

subsection \<open>Prefixes\<close>

lemma splitOn_app: "splitOn d (q @ d # r) = splitOn d q @ splitOn d r"
  using splitOn_nonempty by (induction q) (auto split: list.split)

lemma join_split: "joinWith [d] (splitOn d s) = s"
proof (induction s)
  case (Cons c s)
  obtain w ws where w: "splitOn d s = w # ws" using splitOn_nonempty [of d s] by (cases "splitOn d s") auto
  show ?case using Cons by (cases ws) (auto simp: w)
qed simp

lemma join_app: "xs \<noteq> [] \<Longrightarrow> ys \<noteq> [] \<Longrightarrow> joinWith [d] (xs @ ys) = joinWith [d] xs @ d # joinWith [d] ys"
proof (induction xs)
  case (Cons x xs)
  then show ?case by (cases xs; cases ys) auto
qed simp

text \<open>The segments of a prefix, with a slash before it and without one after it.\<close>

definition prefixSegments :: "string \<Rightarrow> string list" where
  "prefixSegments pre =
     splitOn (CHR ''/'') (TrimSuffix (if HasPrefix pre ''/'' then pre else ''/'' @ pre) ''/'')"

text \<open>A path matches a prefix exactly when the segments of the prefix are the first segments of the
  path; the empty prefix and the root match every path that begins with a slash.\<close>

theorem prefix_matches_segments:
  "pathMatchesPrefix path pre =
     (if pre = [] \<or> pre = ''/'' then HasPrefix path ''/''
      else \<exists>rest. splitOn (CHR ''/'') path = prefixSegments pre @ rest)"
proof (cases "pre = [] \<or> pre = ''/''")
  case False
  let ?q = "TrimSuffix (if HasPrefix pre ''/'' then pre else ''/'' @ pre) ''/''"
  have "pathMatchesPrefix path pre \<longleftrightarrow> path = ?q \<or> (\<exists>r. path = ?q @ CHR ''/'' # r)"
  proof (cases "HasPrefix path ?q \<and> path \<noteq> ?q")
    case True
    then obtain c r where "path = ?q @ c # r" unfolding HasPrefix_iff by (metis append_Nil2 neq_Nil_conv)
    then show ?thesis using False True by (auto simp: pathMatchesPrefix_def Let_def)
  next
    case F: False
    then show ?thesis using False by (auto simp: pathMatchesPrefix_def Let_def HasPrefix_iff)
  qed
  also have "\<dots> \<longleftrightarrow> (\<exists>rest. splitOn (CHR ''/'') path = splitOn (CHR ''/'') ?q @ rest)"
  proof
    assume "path = ?q \<or> (\<exists>r. path = ?q @ CHR ''/'' # r)"
    then show "\<exists>rest. splitOn (CHR ''/'') path = splitOn (CHR ''/'') ?q @ rest"
      using splitOn_app by (metis append_Nil2)
  next
    assume "\<exists>rest. splitOn (CHR ''/'') path = splitOn (CHR ''/'') ?q @ rest"
    then obtain rest where r: "splitOn (CHR ''/'') path = splitOn (CHR ''/'') ?q @ rest" by blast
    have p: "path = joinWith [CHR ''/''] (splitOn (CHR ''/'') ?q @ rest)" using join_split [of "CHR ''/''" path] r by simp
    show "path = ?q \<or> (\<exists>r. path = ?q @ CHR ''/'' # r)"
    proof (cases "rest = []")
      case True
      then show ?thesis using p by (simp add: join_split)
    next
      case F: False
      have "path = joinWith [CHR ''/''] (splitOn (CHR ''/'') ?q) @ CHR ''/'' # joinWith [CHR ''/''] rest"
        using p join_app [OF splitOn_nonempty F] by simp
      then show ?thesis by (simp only: join_split) blast
    qed
  qed
  finally show ?thesis using False by (simp add: prefixSegments_def)
qed (auto simp: pathMatchesPrefix_def)


subsection \<open>Error policies\<close>

definition applies :: "string \<Rightarrow> (routeErrorPolicy \<Rightarrow> handler option) \<Rightarrow> routeErrorPolicy \<Rightarrow> bool" where
  "applies path sel p \<longleftrightarrow> sel p \<noteq> None \<and> pathMatchesPrefix path (re_PathPrefix p)"

definition prefixLength :: "routeErrorPolicy option \<Rightarrow> int" where
  "prefixLength m = (case m of None \<Rightarrow> - 1 | Some p \<Rightarrow> int (length (re_PathPrefix p)))"

lemma policyLoop_result:
  "(policyLoop path sel ps m (prefixLength m) = m \<or>
      (\<exists>p. policyLoop path sel ps m (prefixLength m) = Some p \<and> Some p \<in> set ps \<and> applies path sel p)) \<and>
   prefixLength m \<le> prefixLength (policyLoop path sel ps m (prefixLength m)) \<and>
   (\<forall>p. Some p \<in> set ps \<and> applies path sel p \<longrightarrow>
      prefixLength (Some p) \<le> prefixLength (policyLoop path sel ps m (prefixLength m)))"
proof (induction ps arbitrary: m)
  case (Cons x ps)
  show ?case
  proof (cases x)
    case None
    then show ?thesis using Cons [of m] by auto
  next
    case (Some p)
    show ?thesis
    proof (cases "applies path sel p \<and> prefixLength (Some p) > prefixLength m")
      case True
      then have "policyLoop path sel (x # ps) m (prefixLength m) = policyLoop path sel ps (Some p) (prefixLength (Some p))"
        using Some by (auto simp: applies_def prefixLength_def)
      then show ?thesis using Cons [of "Some p"] True Some by auto
    next
      case False
      then have "policyLoop path sel (x # ps) m (prefixLength m) = policyLoop path sel ps m (prefixLength m)"
        using Some by (auto simp: applies_def prefixLength_def)
      then show ?thesis using Cons [of m] False Some by force
    qed
  qed
qed simp

text \<open>C30: The policy that is chosen for a path is one of the configured ones with a handler of the wanted
  kind and a prefix of the path, and no other such policy has a longer prefix; none is chosen only if
  there is none.\<close>

theorem longest_policy_chosen:
  "case getRouteErrorPolicy cfg path sel of
     None \<Rightarrow> \<not> (\<exists>p. Some p \<in> set (cf_RouteErrorPolicies cfg) \<and> applies path sel p)
   | Some p \<Rightarrow> Some p \<in> set (cf_RouteErrorPolicies cfg) \<and> applies path sel p \<and>
       (\<forall>q. Some q \<in> set (cf_RouteErrorPolicies cfg) \<and> applies path sel q \<longrightarrow>
          length (re_PathPrefix q) \<le> length (re_PathPrefix p))"
  using policyLoop_result [of path sel "cf_RouteErrorPolicies cfg" None]
  unfolding getRouteErrorPolicy_def by (auto simp: prefixLength_def split: option.splits)

definition demoPolicy :: "string \<Rightarrow> nat \<Rightarrow> routeErrorPolicy" where
  "demoPolicy pre code = \<lparr>re_PathPrefix = pre, re_NotFoundHandler = Some (\<lambda>req w. Some (httpError ''none'' code w)),
     re_MethodNotAllowedHandler = None\<rparr>"

lemma longest_policy_chosen_witness:
  "getRouteErrorPolicy (zeroServerConfig\<lparr>cf_RouteErrorPolicies :=
     [Some (demoPolicy ''/api/v1'' 410), None, Some (demoPolicy ''/api'' 404)]\<rparr>) ''/api/v1/users'' re_NotFoundHandler \<noteq> None"
proof -
  let ?c = "zeroServerConfig\<lparr>cf_RouteErrorPolicies := [Some (demoPolicy ''/api/v1'' 410), None, Some (demoPolicy ''/api'' 404)]\<rparr>"
  have "applies ''/api/v1/users'' re_NotFoundHandler (demoPolicy ''/api'' 404)"
    by (simp add: applies_def demoPolicy_def pathMatchesPrefix_def HasPrefix_def HasSuffix_def TrimSuffix_def)
  then show ?thesis
    using longest_policy_chosen [of ?c "''/api/v1/users''" re_NotFoundHandler] by (auto split: option.splits)
qed

subsection \<open>The single page application\<close>

definition withRules :: "(string \<times> string \<times> globPat option) list \<Rightarrow> platformServerConfig \<Rightarrow> platformServerConfig" where
  "withRules pairs cfg = cfg\<lparr>cf_SpaConfig := map_option (\<lambda>s. s\<lparr>sa_cacheControlRulePairs := pairs\<rparr>) (cf_SpaConfig cfg)\<rparr>"

text \<open>The answer to a request that no route takes, also when the single page application serves it,
  does not depend on the application's cache control rules.\<close>

theorem spa_ignores_cache_rules:
  "handleNotFound ce (withRules pairs cfg) req w = handleNotFound ce cfg req w"
proof -
  have policy: "getRouteErrorPolicy (withRules pairs cfg) = getRouteErrorPolicy cfg"
    by (simp add: getRouteErrorPolicy_def withRules_def fun_eq_iff)
  have route: "getRouteSpecificNotFoundHandler (withRules pairs cfg) = getRouteSpecificNotFoundHandler cfg"
    by (rule ext) (simp add: getRouteSpecificNotFoundHandler_def policy)
  have def_handler: "getDefaultNotFoundHandler (withRules pairs cfg) = getDefaultNotFoundHandler cfg"
    by (simp add: getDefaultNotFoundHandler_def withRules_def)
  have spa: "tryServeSPA ce (withRules pairs cfg) req w = tryServeSPA ce cfg req w"
    by (cases "cf_SpaConfig cfg") (simp_all add: tryServeSPA_def withRules_def serveSPAResource_def)
  show ?thesis by (simp only: handleNotFound_def route def_handler spa)
qed

text \<open>A file of the rules' configuration is not compiled when the server is made from the file.\<close>

theorem file_rules_not_collated:
  assumes "configFromFile env path = Gives c" and "cv_read env path = Inr bytes" and "cv_decode env bytes = Inr c0"
  shows "cf_SpaConfig c = cf_SpaConfig c0"
proof -
  obtain c1 where c1: "sanitizeConfigRootPath env (applyPlatformServerConfigJSONDefaults env bytes c0) = Inr c1"
      "c = absoluteCert (scaleTimeouts c1)"
    using assms by (auto simp: configFromFile_def split: sum.splits)
  have "cf_SpaConfig c1 = cf_SpaConfig (applyPlatformServerConfigJSONDefaults env bytes c0)"
    using arg_cong [OF sanitize_keeps [OF c1(1)], of cf_SpaConfig] by simp
  then show ?thesis using c1(2)
    by (simp add: absoluteCert_def scaleTimeouts_def applyPlatformServerConfigJSONDefaults_def split: option.split bool.split)
qed

subsection \<open>Static folders\<close>

lemma first_index_Cons:
  "(\<exists>i < length (b # bs). Q ((b # bs) ! i) \<and> (\<forall>j < i. R ((b # bs) ! j))) \<longleftrightarrow>
     Q b \<or> R b \<and> (\<exists>i < length bs. Q (bs ! i) \<and> (\<forall>j < i. R (bs ! j)))"
proof
  assume "\<exists>i < length (b # bs). Q ((b # bs) ! i) \<and> (\<forall>j < i. R ((b # bs) ! j))"
  then obtain i where i: "i < length (b # bs)" "Q ((b # bs) ! i)" "\<forall>j < i. R ((b # bs) ! j)" by blast
  then show "Q b \<or> R b \<and> (\<exists>i < length bs. Q (bs ! i) \<and> (\<forall>j < i. R (bs ! j)))"
  proof (cases i)
    case 0
    then show ?thesis using i(2) by simp
  next
    case (Suc k)
    have "\<forall>j < k. R (bs ! j)"
    proof (intro allI impI)
      fix j assume "j < k"
      then show "R (bs ! j)" using i(3) [rule_format, of "Suc j"] Suc by simp
    qed
    moreover have "R b" using i(3) [rule_format, of 0] Suc by simp
    ultimately show ?thesis using i(1,2) Suc by auto
  qed
next
  assume "Q b \<or> R b \<and> (\<exists>i < length bs. Q (bs ! i) \<and> (\<forall>j < i. R (bs ! j)))"
  then show "\<exists>i < length (b # bs). Q ((b # bs) ! i) \<and> (\<forall>j < i. R ((b # bs) ! j))"
  proof
    assume "Q b"
    then show ?thesis by (intro exI [of _ 0]) simp
  next
    assume "R b \<and> (\<exists>i < length bs. Q (bs ! i) \<and> (\<forall>j < i. R (bs ! j)))"
    then obtain i where i: "R b" "i < length bs" "Q (bs ! i)" "\<forall>j < i. R (bs ! j)" by blast
    have "\<forall>j < Suc i. R ((b # bs) ! j)"
    proof (intro allI impI)
      fix j assume "j < Suc i"
      then show "R ((b # bs) ! j)" using i(1,4) by (cases j) simp_all
    qed
    then show ?thesis using i(2,3) by (intro exI [of _ "Suc i"]) simp
  qed
qed

text \<open>A folder is served as a directory only if one of the batches that are read before an error has its
  index; otherwise it does not exist.\<close>

definition hasIndex :: "readdir \<Rightarrow> bool" where
  "hasIndex b \<longleftrightarrow> (\<exists>fl. b = Entries fl \<and> ''index.html'' \<in> set fl)"

definition goesOn :: "readdir \<Rightarrow> bool" where "goesOn b \<longleftrightarrow> (\<exists>fl. b = Entries fl)"

theorem folder_needs_index:
  "neuteredStat (Inr True) bs = Inr True \<longleftrightarrow> (\<exists>i < length bs. hasIndex (bs ! i) \<and> (\<forall>j < i. goesOn (bs ! j)))"
proof -
  have "neuteredLoop bs = Inr True \<longleftrightarrow> (\<exists>i < length bs. hasIndex (bs ! i) \<and> (\<forall>j < i. goesOn (bs ! j)))"
  proof (induction bs)
    case (Cons b bs)
    have "neuteredLoop (b # bs) = Inr True \<longleftrightarrow> hasIndex b \<or> goesOn b \<and> neuteredLoop bs = Inr True"
      by (cases b) (auto simp: hasIndex_def goesOn_def)
    then show ?case unfolding Cons.IH first_index_Cons .
  qed simp
  then show ?thesis by (simp add: neuteredStat_def)
qed

end
