(* ===== verification/PlankServerFacts.thy ===== *)
theory PlankServerFacts
  imports PlankServer PlankFacts BridgeRegistryFacts ServerFacts
begin

text \<open>
  What holds of the server over any sequence of its operations: its components agree on the router,
  every bridged endpoint is served, routes to topics belong to registered services, the start drains
  what was registered before it, and what goes wrong when a service leaves or is set up again.
\<close>

subsection \<open>Registries that change\<close>

text \<open>A registry that keeps its endpoints, their handlers and their routes, whatever it adds.\<close>

lemma registryOk_extend:
  assumes "registryOk s" and "namedOk (rb_router t)" and "\<And>ch. endpointsOf ch t = endpointsOf ch s"
    and "\<And>n k. RouterGet n (rb_router s) = Some k \<Longrightarrow>
      RouterGet n (rb_router t) = Some k \<and> ro_routes (rb_router t) ! k = ro_routes (rb_router s) ! k"
    and "\<And>n h. gm_get (rb_endpointHandlerMap s) n = Some h \<Longrightarrow> gm_get (rb_endpointHandlerMap t) n = Some h"
    and "\<And>n. RouterGet n (rb_router t) \<noteq> None \<Longrightarrow> RouterGet n (rb_router s) = None \<Longrightarrow> gm_get (rb_endpointHandlerMap t) n \<noteq> None"
  shows "registryOk t"
proof -
  have "endpointServed t key" if "endpointServed s key" for key
    using that assms(4) [of key] assms(5) [of key] by (fastforce simp: endpointServed_def Routing.GetName_def GetHandler_def)
  moreover have "gm_get (rb_endpointHandlerMap t) n \<noteq> None" if n: "gm_get (ro_named (rb_router t)) n \<noteq> None" for n
  proof (cases "RouterGet n (rb_router s)")
    case None
    then show ?thesis using assms(6) n by (simp add: RouterGet_def)
  next
    case (Some k)
    then have "gm_get (rb_endpointHandlerMap s) n \<noteq> None" using assms(1) unfolding registryOk_def RouterGet_def by simp
    then show ?thesis using assms(5) by auto
  qed
  ultimately show ?thesis using assms(1,2) unfolding registryOk_def assms(3) by blast
qed

lemma registryOk_same_routes:
  assumes "registryOk s" and "ro_routes (rb_router t) = ro_routes (rb_router s)" and "ro_named (rb_router t) = ro_named (rb_router s)"
    and "rb_endpointHandlerMap t = rb_endpointHandlerMap s" and "\<And>ch. endpointsOf ch t = endpointsOf ch s"
  shows "registryOk t"
  by (rule registryOk_extend [OF assms(1)]) (use assms in \<open>auto simp: registryOk_def namedOk_def RouterGet_def\<close>)

text \<open>A route that is added under a name that no handler has, or under none.\<close>

lemma registryOk_route:
  assumes ok: "registryOk s" and t: "rb_router t = markDirtyLocked (addNamed rt (rb_router s))"
    and new: "rt_name rt \<noteq> [] \<Longrightarrow> gm_get (rb_endpointHandlerMap s) (rt_name rt) = None \<and>
      gm_get (rb_endpointHandlerMap t) (rt_name rt) \<noteq> None"
    and keeps: "\<And>n h. gm_get (rb_endpointHandlerMap s) n = Some h \<Longrightarrow> gm_get (rb_endpointHandlerMap t) n = Some h"
    and ends: "\<And>ch. endpointsOf ch t = endpointsOf ch s"
  shows "registryOk t"
proof -
  have named: "namedOk (rb_router s)" using ok by (simp add: registryOk_def)
  have free: "gm_get (ro_named (rb_router s)) (rt_name rt) = None"
  proof (cases "rt_name rt = []")
    case True
    then show ?thesis using named namedOk_get [OF named, of "[]"] by (auto simp: RouterGet_def)
  next
    case False
    then show ?thesis using new ok by (auto simp: registryOk_def)
  qed
  note get = addNamed_get [OF named free]
  show ?thesis
  proof (rule registryOk_extend [OF ok _ ends _ keeps])
    show "namedOk (rb_router t)" using addNamed_ok [OF named free] t by simp
    show "RouterGet n (rb_router t) = Some k \<and> ro_routes (rb_router t) ! k = ro_routes (rb_router s) ! k"
      if "RouterGet n (rb_router s) = Some k" for n k
      using that get(1) [of n] get(2) [OF that] free unfolding t by (auto simp: RouterGet_def split: if_splits)
    show "gm_get (rb_endpointHandlerMap t) n \<noteq> None"
      if "RouterGet n (rb_router t) \<noteq> None" "RouterGet n (rb_router s) = None" for n
      using that get(1) [of n] new unfolding t by (auto split: if_splits)
  qed
qed

text \<open>A named route that gets another handler, which is put in the map as well.\<close>

lemma RouteHandler_simps:
  "ro_named (RouteHandler k h r) = ro_named r" "RouterGet n (RouteHandler k h r) = RouterGet n r" "length (ro_routes (RouteHandler k h r)) = length (ro_routes r)"
  "rt_name (ro_routes (RouteHandler k h r) ! j) = rt_name (ro_routes r ! j)"
  "k < length (ro_routes r) \<Longrightarrow> rt_handler (ro_routes (RouteHandler k h r) ! j) = (if j = k then h else rt_handler (ro_routes r ! j))"
  using GetName_RouteHandler [of j k h r]
  by (simp_all add: RouteHandler_def updRoute_def markDirtyLocked_def Routing.GetName_def RouterGet_def nth_list_update)

lemma registryOk_rehandle:
  assumes ok: "registryOk s" and k: "RouterGet key (rb_router s) = Some k"
    and t: "rb_router t = RouteHandler k (Some (HandlerFunc h)) (rb_router s)"
    and handlers: "rb_endpointHandlerMap t = gm_set key h (rb_endpointHandlerMap s)"
    and ends: "\<And>ch. endpointsOf ch t = endpointsOf ch s"
  shows "registryOk t"
proof -
  have named: "namedOk (rb_router s)" using ok by (simp add: registryOk_def)
  have range: "k < length (ro_routes (rb_router s))" "rt_name (ro_routes (rb_router s) ! k) = key" "key \<noteq> []"
    using k namedOk_get [OF named] by auto
  have "namedOk (rb_router t)" using named unfolding namedOk_def t RouteHandler_simps .
  moreover have "endpointServed t n" if n: "endpointServed s n" for n
  proof -
    obtain g j where j: "gm_get (rb_endpointHandlerMap s) n = Some g" "RouterGet n (rb_router s) = Some j"
        "Routing.GetName j (rb_router s) = n" "GetHandler j (rb_router s) = Some (HandlerFunc g)"
      using n by (auto simp: endpointServed_def)
    show ?thesis
    proof (cases "n = key")
      case True
      then show ?thesis using k range
        by (auto simp: endpointServed_def handlers Routing.GetName_def GetHandler_def t RouteHandler_simps)
    next
      case False
      then have "j \<noteq> k" using j(3) range(2) by (auto simp: Routing.GetName_def)
      then show ?thesis using False j range(1)
        by (simp add: endpointServed_def handlers Routing.GetName_def GetHandler_def t RouteHandler_simps)
    qed
  qed
  moreover have "gm_get (rb_endpointHandlerMap t) n \<noteq> None" if "gm_get (ro_named (rb_router t)) n \<noteq> None" for n
  proof -
    have "gm_get (ro_named (rb_router s)) n \<noteq> None" using that by (simp add: t RouteHandler_simps)
    then have "gm_get (rb_endpointHandlerMap s) n \<noteq> None" using ok unfolding registryOk_def by blast
    then show ?thesis by (simp add: handlers)
  qed
  ultimately show ?thesis using ok unfolding registryOk_def ends by blast
qed

subsection \<open>What routing depends on\<close>

type_synonym routingView =
  "router list \<times> ref \<times> ref \<times> ref \<times> ref option \<times> (string, handler) gomap \<times> (string, string list) gomap"

definition routing :: "platform \<Rightarrow> routingView" where
  "routing p =
     (pl_routers p, pl_router p, pl_bridgesRouter p, pl_managerRouter p, pl_httpHandler p,
      rb_endpointHandlerMap (pl_bridges p), rb_serviceChanToBridgeEndpoints (pl_bridges p))"

text \<open>The components that keep a pointer to the router have the same one, and it is the one that serves.\<close>

definition routersAgree :: "platform \<Rightarrow> bool" where
  "routersAgree p \<longleftrightarrow> pl_bridgesRouter p = pl_router p \<and> pl_managerRouter p = pl_router p \<and>
     pl_router p < length (pl_routers p) \<and> (pl_httpHandler p = None \<or> pl_httpHandler p = Some (pl_router p))"

definition platformOk :: "platform \<Rightarrow> bool" where
  "platformOk p \<longleftrightarrow> routersAgree p \<and> registryOk (bridgesView p)"

lemma platformOk_routing:
  assumes "platformOk p" and "routing q = routing p"
  shows "platformOk q"
proof -
  have a: "routersAgree q" using assms by (auto simp: platformOk_def routersAgree_def routing_def)
  have "registryOk (bridgesView q)"
    by (rule registryOk_same_routes [of "bridgesView p"])
      (use assms in \<open>auto simp: platformOk_def routing_def bridgesView_def routerAt_def endpointsOf_def\<close>)
  then show ?thesis using a by (simp add: platformOk_def)
qed

text \<open>What does not touch the routers, the handlers or the endpoints.\<close>

named_theorems keeps_routing

lemma routing_setBus [keeps_routing, simp]: "routing (setBus b p) = routing p"
  by (simp add: routing_def setBus_def)

lemma routing_onPlatformBus [keeps_routing, simp]: "routing (onPlatformBus g p) = routing p"
  by (simp add: onPlatformBus_def)

lemma routing_announceOnline [keeps_routing, simp]: "routing (announceOnline i v p) = routing p"
  by (simp add: announceOnline_def)

lemma routing_putReady [keeps_routing, simp]: "routing (putReady env ch v i p) = routing p"
  by (simp add: routing_def putReady_def)

lemma routing_fields [simp]:
  "routing (p\<lparr>pl_registry := x1\<rparr>) = routing p" "routing (p\<lparr>pl_fabric := x2\<rparr>) = routing p"
  "routing (p\<lparr>pl_pendingRoutes := x3\<rparr>) = routing p" "routing (p\<lparr>pl_routeHandles := x4\<rparr>) = routing p"
  "routing (p\<lparr>pl_waitingReady := x5\<rparr>) = routing p" "routing (p\<lparr>pl_teardown := x6\<rparr>) = routing p"
  "routing (p\<lparr>pl_availableHttp := x7\<rparr>) = routing p" "routing (p\<lparr>pl_availableFabric := x8\<rparr>) = routing p"
  "routing (p\<lparr>pl_endpoints := x9\<rparr>) = routing p" "routing (p\<lparr>pl_readyClosed := x10\<rparr>) = routing p"
  by (simp_all add: routing_def)

lemma routing_onFabric [keeps_routing]: "onFabric g f p = (q, x) \<Longrightarrow> routing q = routing p"
  by (auto simp: onFabric_def Let_def split: prod.splits option.splits)

lemma routing_fst_onFabric [simp]: "routing (fst (onFabric g f p)) = routing p"
  using routing_onFabric by (metis prod.collapse)

lemma routing_onRegistry [keeps_routing]: "onRegistry g p = (q, x) \<Longrightarrow> routing q = routing p"
  by (auto simp: onRegistry_def Let_def split: prod.splits)

lemma routing_fst_onRegistry [simp]: "routing (fst (onRegistry g p)) = routing p"
  using routing_onRegistry by (metis prod.collapse)

lemma routing_registerOrPendRoute: "routing (fst (registerOrPendRoute ids ch p)) = routing p"
  by (auto simp: registerOrPendRoute_def Let_def split: option.splits prod.splits sum.splits dest: routing_onFabric)

lemma routing_platformRegisterService [simp]: "routing (fst (platformRegisterService env ids fids svc ch p)) = routing p"
proof -
  obtain p1 e where r: "onRegistry (RegisterService ids svc ch) p = (p1, e)" by fastforce
  show ?thesis
  proof (cases e)
    case None
    let ?p2 = "if GetOnReadyCapableService ch (pl_registry p1) = None then putReady env ch True (si_msg ids) p1 else p1"
    obtain p3 e3 where r3: "registerOrPendRoute fids ch ?p2 = (p3, e3)" by fastforce
    have "routing p3 = routing ?p2" using routing_registerOrPendRoute [of fids ch ?p2] unfolding r3 by simp
    then have "routing p3 = routing p" using routing_onRegistry [OF r] by (simp split: if_splits)
    then show ?thesis using r r3 None by (cases e3) (simp_all add: platformRegisterService_def Let_def)
  qed (use r in \<open>simp add: platformRegisterService_def routing_onRegistry [OF r]\<close>)
qed

lemma routing_platformUnregisterService [simp]: "routing (fst (platformUnregisterService ch p)) = routing p"
  by (auto simp: platformUnregisterService_def Let_def split: option.splits prod.splits dest: routing_onRegistry)

lemma routing_drainLoop: "drainLoop ids specs p = (q, e) \<Longrightarrow> routing q = routing p"
proof (induction specs arbitrary: p)
  case (Cons spec specs)
  show ?case
  proof (cases "pl_fabric p")
    case (Some f)
    obtain p1 h where r: "onFabric (RegisterRoute ids spec) f p = (p1, h)" by fastforce
    show ?thesis using Cons r Some routing_onFabric [OF r] by (cases h) auto
  qed (use Cons.prems in auto)
qed simp

lemma routing_drain: "drainPendingRoutes ids p = (q, e) \<Longrightarrow> routing q = routing p"
  by (auto simp: drainPendingRoutes_def split: prod.splits option.splits dest: routing_drainLoop)

lemma routing_startFabric: "routing (fst (startFabric inp fb p)) = routing p"
  by (auto simp: startFabric_def Let_def split: prod.splits option.splits sum.splits dest: routing_drain)

lemma routing_teardownAll: "routing (teardownAll chs p) = routing p"
  by (induction chs arbitrary: p) (simp_all split: option.splits)

lemma routing_StopServer [simp]: "routing (StopServer p) = routing p"
  by (simp add: StopServer_def Let_def routing_teardownAll split: option.splits)

lemma routing_serviceReady [simp]: "routing (serviceReady env i v newId p) = routing p"
  by (simp add: serviceReady_def)

subsection \<open>Bridges, overrides, static routes and middleware\<close>

lemma view_onBridges: "routersAgree p \<Longrightarrow> bridgesView (onBridges g p) = g (bridgesView p)"
  by (simp add: routersAgree_def onBridges_def bridgesView_def Let_def setBus_def setRouterAt_def routerAt_def busOf_def)

lemma routersAgree_onBridges [simp]: "routersAgree (onBridges g p) = routersAgree p"
  by (simp add: routersAgree_def onBridges_def Let_def setBus_def setRouterAt_def)

lemma onBridges_ok:
  "platformOk p \<Longrightarrow> (\<And>s. registryOk s \<Longrightarrow> registryOk (g s)) \<Longrightarrow> platformOk (onBridges g p)"
  by (simp add: platformOk_def view_onBridges)

lemma SetHttpChannelBridge_ok: "platformOk p \<Longrightarrow> platformOk (SetHttpChannelBridge env ids c p)"
  by (simp add: SetHttpChannelBridge_def onBridges_ok SetExact_def setBridge_ok)

lemma SetHttpPathPrefixChannelBridge_ok: "platformOk p \<Longrightarrow> platformOk (SetHttpPathPrefixChannelBridge env ids c p)"
  by (simp add: SetHttpPathPrefixChannelBridge_def onBridges_ok SetPrefix_def setBridge_ok)

lemma setupBridges_ok: "platformOk p \<Longrightarrow> platformOk (setupBridges env ids cs p)"
  by (induction cs arbitrary: p) (simp_all add: SetHttpChannelBridge_ok)

text \<open>Clearing a service and loading the rebuilt router is an override of the registry.\<close>

definition overrideService :: "string \<Rightarrow> platform \<Rightarrow> platform" where
  "overrideService ch p = (let (q, r) = clearHttpChannelBridgesForService ch p in loadGlobalHttpHandler r q)"

lemma view_overrideService: "bridgesView (overrideService ch p) = overrideBridges ch (bridgesView p)"
  by (simp add: overrideService_def clearHttpChannelBridgesForService_def loadGlobalHttpHandler_def bridgesView_def
      overrideBridges_def bridgesSetRouter_def ClearForService_def Let_def routerAt_def busOf_def)

lemma overrideService_ok: "platformOk p \<Longrightarrow> platformOk (overrideService ch p)"
  by (simp add: platformOk_def view_overrideService registryOk_override)
    (simp add: routersAgree_def overrideService_def clearHttpChannelBridgesForService_def loadGlobalHttpHandler_def
      ClearForService_def Let_def)

lemma handleSetup_shape:
  assumes "handleSetup env ids msg p = Some q"
  obtains ch ov cs where "m_Payload msg = GSetupREST ch ov cs"
    "routing q = routing (setupBridges env ids cs (if ov then overrideService ch p else p))"
  using assms by (auto simp: handleSetup_def overrideService_def Let_def split: gval.splits if_splits sum.splits)

lemma handleSetup_ok: "platformOk p \<Longrightarrow> handleSetup env ids msg p = Some q \<Longrightarrow> platformOk q"
proof -
  assume p: "platformOk p" and "handleSetup env ids msg p = Some q"
  then obtain ch ov cs where q: "routing q = routing (setupBridges env ids cs (if ov then overrideService ch p else p))"
    by (elim handleSetup_shape)
  show ?thesis by (rule platformOk_routing [OF setupBridges_ok q]) (simp add: p overrideService_ok)
qed

definition staticRoute :: "string \<Rightarrow> string \<Rightarrow> handler \<Rightarrow> route" where
  "staticRoute pre key h =
     \<lparr>rt_name = key, rt_path = normalizePath (pre @ ''/''), rt_prefix = True, rt_methods = [], rt_handler = Some (HandlerFunc h)\<rparr>"

lemma staticRoute_added:
  "PathPrefix (pre @ ''/'') r = (r', k) \<Longrightarrow> key \<noteq> [] \<Longrightarrow>
     RouteHandler k (Some (HandlerFunc h)) (RouteName k key r') = markDirtyLocked (addNamed (staticRoute pre key h) r)"
  by (auto simp: PathPrefix_def addRoute_def RouteHandler_def RouteName_def updRoute_def markDirtyLocked_def addNamed_def
      staticRoute_def Let_def nth_append)

lemma SetStaticRoute_view:
  assumes "SetStaticRoute env pre path mws p = Some q" and "routersAgree p"
  shows "routersAgree q" and "\<exists>h. bridgesView q = (bridgesView p)
     \<lparr>rb_endpointHandlerMap := gm_set (pre @ ''*'') h (rb_endpointHandlerMap (pl_bridges p)),
      rb_router := markDirtyLocked (addNamed (staticRoute pre (pre @ ''*'') h) (rb_router (bridgesView p)))\<rparr>"
proof -
  obtain r' k where r: "PathPrefix (pre @ ''/'') (routerAt (pl_router p) p) = (r', k)" by fastforce
  obtain h where h: "staticHandler (pe_content env) pre path mws = Some h"
    using assms(1) by (auto simp: SetStaticRoute_def split: option.splits)
  let ?p1 = "p\<lparr>pl_bridges := (pl_bridges p)\<lparr>rb_endpointHandlerMap := gm_set (pre @ ''*'') h (rb_endpointHandlerMap (pl_bridges p))\<rparr>\<rparr>"
  let ?x = "markDirtyLocked (addNamed (staticRoute pre (pre @ ''*'') h) (routerAt (pl_router p) p))"
  have "routerAt (pl_router ?p1) ?p1 = routerAt (pl_router p) p" by (simp add: routerAt_def)
  then have q: "q = setRouterAt (pl_router p) ?x ?p1"
    using assms(1) h r staticRoute_added [OF r, of "pre @ ''*''" h] by (simp add: SetStaticRoute_def Let_def)
  show "routersAgree q" using assms(2) by (simp add: q routersAgree_def setRouterAt_def)
  show "\<exists>h. bridgesView q = (bridgesView p)
     \<lparr>rb_endpointHandlerMap := gm_set (pre @ ''*'') h (rb_endpointHandlerMap (pl_bridges p)),
      rb_router := markDirtyLocked (addNamed (staticRoute pre (pre @ ''*'') h) (rb_router (bridgesView p)))\<rparr>"
    using assms(2) by (intro exI [of _ h])
      (simp add: q routersAgree_def bridgesView_def setRouterAt_def routerAt_def busOf_def)
qed

lemma SetStaticRoute_ok:
  assumes ok: "platformOk p" and set: "SetStaticRoute env pre path mws p = Some q"
    and new: "gm_get (rb_endpointHandlerMap (pl_bridges p)) (pre @ ''*'') = None"
  shows "platformOk q"
proof -
  obtain h where v: "bridgesView q = (bridgesView p)
     \<lparr>rb_endpointHandlerMap := gm_set (pre @ ''*'') h (rb_endpointHandlerMap (pl_bridges p)),
      rb_router := markDirtyLocked (addNamed (staticRoute pre (pre @ ''*'') h) (rb_router (bridgesView p)))\<rparr>"
    using SetStaticRoute_view(2) [OF set] ok by (auto simp: platformOk_def)
  have e: "rb_endpointHandlerMap (pl_bridges p) = rb_endpointHandlerMap (bridgesView p)" by (simp add: bridgesView_def)
  have ok_view: "registryOk (bridgesView p)" using ok by (simp add: platformOk_def)
  have "registryOk (bridgesView q)"
  proof (rule registryOk_route [OF ok_view])
    show "rb_router (bridgesView q) = markDirtyLocked (addNamed (staticRoute pre (pre @ ''*'') h) (rb_router (bridgesView p)))"
      by (simp add: v)
    show "gm_get (rb_endpointHandlerMap (bridgesView p)) (rt_name (staticRoute pre (pre @ ''*'') h)) = None \<and>
        gm_get (rb_endpointHandlerMap (bridgesView q)) (rt_name (staticRoute pre (pre @ ''*'') h)) \<noteq> None"
      using new by (simp add: v staticRoute_def flip: e)
    show "gm_get (rb_endpointHandlerMap (bridgesView q)) n = Some g" if "gm_get (rb_endpointHandlerMap (bridgesView p)) n = Some g" for n g
      using that new by (auto simp: v e)
    show "endpointsOf ch (bridgesView q) = endpointsOf ch (bridgesView p)" for ch by (simp add: v endpointsOf_def)
  qed
  then show ?thesis using SetStaticRoute_view(1) [OF set] ok by (simp add: platformOk_def)
qed

text \<open>Middleware is set on the route that is found under a name, and taken off it.\<close>

definition setMiddlewareAt :: "string \<Rightarrow> middlewareFunc list \<Rightarrow> platform \<Rightarrow> platform option" where
  "setMiddlewareAt name ms p =
     (case GetRouteByUri name (managerView p) of
        Inl e \<Rightarrow> Some p
      | Inr k \<Rightarrow> map_option (\<lambda>(m, e). putManager m p) (SetNewMiddleware (Some k) ms (managerView p)))"

definition removeMiddlewareAt :: "string \<Rightarrow> platform \<Rightarrow> platform option" where
  "removeMiddlewareAt name p =
     (case GetRouteByUri name (managerView p) of
        Inl e \<Rightarrow> Some p
      | Inr k \<Rightarrow> map_option (\<lambda>(m, e). putManager m p) (RemoveMiddleware (Some k) (managerView p)))"

lemma putManager_same: "routersAgree p \<Longrightarrow> routing (putManager (managerView p) p) = routing p"
  by (simp add: routersAgree_def routing_def putManager_def managerView_def setRouterAt_def routerAt_def)

text \<open>What a manager changes: nothing, or one named route with its handler.\<close>

definition rehandles :: "nat \<Rightarrow> middlewareManager \<Rightarrow> middlewareManager \<Rightarrow> bool" where
  "rehandles k m m' \<longleftrightarrow>
     mm_router m' = mm_router m \<and> mm_endpointHandlerMap m' = mm_endpointHandlerMap m \<or>
     (\<exists>h. mm_router m' = RouteHandler k (Some (HandlerFunc h)) (mm_router m) \<and>
        mm_endpointHandlerMap m' = gm_set (Routing.GetName k (mm_router m)) h (mm_endpointHandlerMap m))"

lemma lastIndexByte_split:
  assumes "lastIndexByte s c = Some i"
  shows "take i s @ c # drop (Suc i) s = s"
proof -
  obtain j where j: "indexByte (rev s) c = Some j" "i = length s - Suc j" using assms by (auto simp: lastIndexByte_def)
  then have "j < length s" "s ! i = c" using indexByte_Some [OF j(1)] rev_nth [of j s] by simp_all
  then show ?thesis using j(2) id_take_nth_drop [of i s] by simp
qed

lemma extract_name:
  "extractUriVerbFromRoute k m = Some (uri, verb) \<Longrightarrow> uri @ ''-'' @ verb = Routing.GetName k (mm_router m)"
  using lastIndexByte_split by (auto simp: extractUriVerbFromRoute_def Let_def split: option.splits)

lemma middlewareKey_name: "middlewareKey k m = Some key \<Longrightarrow> key = Routing.GetName k (mm_router m)"
  by (auto simp: middlewareKey_def Let_def extract_name [symmetric] split: if_splits)

lemma SetNewMiddleware_rehandles: "SetNewMiddleware (Some k) ms m = Some (m', e) \<Longrightarrow> rehandles k m m'"
  by (auto simp: SetNewMiddleware_def rehandles_def Let_def split: option.splits handlerVal.splits if_splits
      dest!: middlewareKey_name)

lemma rehandlesI:
  "mm_router m' = RouteHandler k (Some (HandlerFunc h)) (mm_router m) \<Longrightarrow>
     mm_endpointHandlerMap m' = gm_set (Routing.GetName k (mm_router m)) h (mm_endpointHandlerMap m) \<Longrightarrow> rehandles k m m'"
  unfolding rehandles_def by blast

lemma RemoveMiddleware_rehandles:
  assumes "RemoveMiddleware (Some k) m = Some (m', e)"
  shows "rehandles k m m'"
proof -
  obtain uri verb where u: "extractUriVerbFromRoute k m = Some (uri, verb)"
    using assms by (auto simp: RemoveMiddleware_def split: option.splits)
  let ?key = "Routing.GetName k (mm_router m)"
  let ?h = "case gm_get (mm_originalHandlersMap m) ?key of None \<Rightarrow> nilFunc | Some h \<Rightarrow> h"
  have key: "uri @ CHR ''-'' # verb = ?key" using extract_name [OF u] by simp
  show ?thesis
  proof (cases "gm_get (mm_endpointHandlerMap m) ?key")
    case None
    then have "m' = m" using assms u by (simp add: RemoveMiddleware_def Let_def key)
    then show ?thesis by (simp add: rehandles_def)
  next
    case (Some g)
    then have "m' = m\<lparr>mm_endpointHandlerMap := gm_set ?key ?h (mm_endpointHandlerMap m),
        mm_router := RouteHandler k (Some (HandlerFunc ?h)) (mm_router m)\<rparr>"
      using assms u by (simp add: RemoveMiddleware_def Let_def key)
    then show ?thesis by (intro rehandlesI [where h = ?h]) simp_all
  qed
qed

lemma view_putManager:
  "routersAgree p \<Longrightarrow> bridgesView (putManager m p) =
     (bridgesView p)\<lparr>rb_endpointHandlerMap := mm_endpointHandlerMap m, rb_router := mm_router m\<rparr>"
  by (simp add: routersAgree_def putManager_def bridgesView_def setRouterAt_def routerAt_def busOf_def)

lemma view_manager:
  "routersAgree p \<Longrightarrow> mm_router (managerView p) = rb_router (bridgesView p)"
  "routersAgree p \<Longrightarrow> mm_endpointHandlerMap (managerView p) = rb_endpointHandlerMap (bridgesView p)"
  by (simp_all add: routersAgree_def managerView_def bridgesView_def)

lemma putManager_ok:
  assumes ok: "platformOk p" and k: "GetRouteByUri name (managerView p) = Inr k" and m: "rehandles k (managerView p) m"
  shows "platformOk (putManager m p)"
proof -
  have agree: "routersAgree p" and reg: "registryOk (bridgesView p)" using ok by (simp_all add: platformOk_def)
  have named: "namedOk (rb_router (bridgesView p))" using reg by (simp add: registryOk_def)
  have r: "RouterGet name (rb_router (bridgesView p)) = Some k"
    using k view_manager(1) [OF agree] by (auto simp: GetRouteByUri_def split: option.splits)
  then have name: "Routing.GetName k (rb_router (bridgesView p)) = name"
    using namedOk_get [OF named] by (simp add: Routing.GetName_def)
  have "registryOk (bridgesView (putManager m p))"
  proof (cases "mm_router m = mm_router (managerView p) \<and> mm_endpointHandlerMap m = mm_endpointHandlerMap (managerView p)")
    case True
    then show ?thesis using reg view_manager [OF agree] by (simp add: view_putManager [OF agree])
  next
    case False
    then obtain h where h: "mm_router m = RouteHandler k (Some (HandlerFunc h)) (rb_router (bridgesView p))"
        "mm_endpointHandlerMap m = gm_set name h (rb_endpointHandlerMap (bridgesView p))"
      using m name unfolding rehandles_def view_manager [OF agree] by auto
    show ?thesis
      by (rule registryOk_rehandle [OF reg r, where h = h]) (simp_all add: view_putManager [OF agree] h endpointsOf_def)
  qed
  moreover have "routersAgree (putManager m p)" using agree by (simp add: routersAgree_def putManager_def setRouterAt_def)
  ultimately show ?thesis by (simp add: platformOk_def)
qed

lemma setMiddlewareAt_ok: "platformOk p \<Longrightarrow> setMiddlewareAt name ms p = Some q \<Longrightarrow> platformOk q"
  by (auto simp: setMiddlewareAt_def split: sum.splits intro: putManager_ok SetNewMiddleware_rehandles)

lemma removeMiddlewareAt_ok: "platformOk p \<Longrightarrow> removeMiddlewareAt name p = Some q \<Longrightarrow> platformOk q"
  by (auto simp: removeMiddlewareAt_def split: sum.splits intro: putManager_ok RemoveMiddleware_rehandles)

subsection \<open>Requests and the start\<close>

lemma RouterServeHTTP_keeps:
  "RouterServeHTTP req w r = (r', x) \<Longrightarrow> ro_routes r' = ro_routes r \<and> ro_named r' = ro_named r"
  by (auto simp: RouterServeHTTP_def snapshot_def rebuildMuxLocked_def split: option.splits if_splits)

lemma serveRequest_ok:
  assumes "platformOk p"
  shows "platformOk (fst (serveRequest req w p))"
proof (cases "pl_httpHandler p")
  case (Some r)
  then have agree: "routersAgree p" "r = pl_router p" "registryOk (bridgesView p)"
    using assms by (auto simp: platformOk_def routersAgree_def)
  obtain x res where x: "RouterServeHTTP req w (routerAt r p) = (x, res)" by fastforce
  then have q: "fst (serveRequest req w p) = setRouterAt r x p" using Some by (simp add: serveRequest_def)
  have "routersAgree (setRouterAt r x p)" using agree by (simp add: routersAgree_def setRouterAt_def)
  moreover have "registryOk (bridgesView (setRouterAt r x p))"
    by (rule registryOk_same_routes [OF agree(3)])
      (use RouterServeHTTP_keeps [OF x] agree(1,2) in
        \<open>simp_all add: bridgesView_def setRouterAt_def routerAt_def routersAgree_def endpointsOf_def\<close>)
  ultimately show ?thesis by (simp add: q platformOk_def)
qed (simp add: serveRequest_def assms)

text \<open>The keys under which the application's assets and its base are put in the map.\<close>

definition assetKeys :: "string list \<Rightarrow> string list" where
  "assetKeys as = map (\<lambda>a. SanitizeUrl (snd (DeriveStaticURIFromPath a)) False @ ''*'') as"

definition spaKeys :: "platformServerConfig \<Rightarrow> string list" where
  "spaKeys cfg = (case cf_SpaConfig cfg of None \<Rightarrow> [] | Some spa \<Rightarrow> assetKeys (sa_StaticAssets spa) @ [sa_BaseUri spa @ ''*''])"

definition freshKeys :: "string list \<Rightarrow> platform \<Rightarrow> bool" where
  "freshKeys keys p \<longleftrightarrow> distinct keys \<and> (\<forall>k \<in> set keys. gm_get (rb_endpointHandlerMap (pl_bridges p)) k = None)"

lemma SetStaticRoute_fields:
  assumes "SetStaticRoute env pre path mws p = Some q"
  shows "pl_config q = pl_config p \<and>
    (\<exists>h. rb_endpointHandlerMap (pl_bridges q) = gm_set (pre @ ''*'') h (rb_endpointHandlerMap (pl_bridges p)))"
  using assms by (auto simp: SetStaticRoute_def setRouterAt_def Let_def split: option.splits prod.splits)

lemma freshKeys_next:
  assumes "freshKeys ((pre @ ''*'') # keys) p" and "SetStaticRoute env pre path mws p = Some q"
  shows "freshKeys keys q"
  using assms SetStaticRoute_fields [OF assms(2)] by (auto simp: freshKeys_def)

lemma spaAssets_ok:
  "platformOk p \<Longrightarrow> spaAssets env spa as p = Some q \<Longrightarrow> freshKeys (assetKeys as @ keys) p \<Longrightarrow>
     platformOk q \<and> freshKeys keys q \<and> pl_config q = pl_config p"
proof (induction as arbitrary: p)
  case (Cons a as)
  obtain folder uri where d: "DeriveStaticURIFromPath a = (folder, uri)" by fastforce
  obtain p1 where p1: "SetStaticRoute env (SanitizeUrl uri False) folder [spaCacheControlMiddleware spa] p = Some p1"
      "spaAssets env spa as p1 = Some q"
    using Cons.prems(2) by (auto simp: d split: option.splits)
  have fresh: "freshKeys ((SanitizeUrl uri False @ ''*'') # (assetKeys as @ keys)) p"
    using Cons.prems(3) by (simp add: assetKeys_def d)
  then have "platformOk p1" using SetStaticRoute_ok [OF Cons.prems(1) p1(1)] by (simp add: freshKeys_def)
  then show ?case using Cons.IH [OF _ p1(2)] freshKeys_next [OF fresh p1(1)] SetStaticRoute_fields [OF p1(1)] by simp
qed (simp add: assetKeys_def)

lemma add_handler_ok:
  assumes ok: "platformOk p" and "gm_get (rb_endpointHandlerMap (pl_bridges p)) key = None"
  shows "platformOk (p\<lparr>pl_bridges := (pl_bridges p)\<lparr>rb_endpointHandlerMap := gm_set key h (rb_endpointHandlerMap (pl_bridges p))\<rparr>\<rparr>)"
    (is "platformOk ?q")
proof -
  have reg: "registryOk (bridgesView p)" using ok by (simp add: platformOk_def)
  then have "namedOk (rb_router (bridgesView p))" by (simp add: registryOk_def)
  then have "registryOk (bridgesView ?q)"
    by (intro registryOk_extend [OF reg]) (use assms(2) in \<open>auto simp: bridgesView_def routerAt_def endpointsOf_def\<close>)
  then show ?thesis using ok by (simp add: platformOk_def routersAgree_def)
qed

lemma configureSPA_ok:
  assumes "platformOk p" and "configureSPA env p = Some q" and "freshKeys (spaKeys (pl_config p)) p"
  shows "platformOk q"
proof (cases "cf_SpaConfig (pl_config p)")
  case (Some spa)
  obtain p1 where p1: "spaAssets env spa (sa_StaticAssets spa) p = Some p1"
      "q = p1\<lparr>pl_bridges := (pl_bridges p1)\<lparr>rb_endpointHandlerMap := gm_set (sa_BaseUri spa @ ''*'')
         (serves (spaCacheControlMiddleware spa (HandlerFunc (serveSPAResource (pe_content env) spa))))
         (rb_endpointHandlerMap (pl_bridges p1))\<rparr>\<rparr>"
    using assms(2) Some by (auto simp: configureSPA_def split: option.splits)
  then have "platformOk p1" "freshKeys [sa_BaseUri spa @ ''*''] p1"
    using spaAssets_ok [OF assms(1) p1(1)] assms(3) Some by (simp_all add: spaKeys_def)
  then show ?thesis unfolding p1(2) by (intro add_handler_ok) (simp_all add: freshKeys_def)
qed (use assms in \<open>simp add: configureSPA_def\<close>)

lemma loadCurrent_ok: "platformOk p \<Longrightarrow> platformOk (loadGlobalHttpHandler (pl_router p) p)"
  by (auto simp: platformOk_def routersAgree_def loadGlobalHttpHandler_def bridgesView_def routerAt_def busOf_def)

lemma StartServer_ok:
  assumes "platformOk p" and "StartServer env inp p = (q, out)" and "freshKeys (spaKeys (pl_config p)) p"
  shows "platformOk q"
proof -
  let ?l = "loadGlobalHttpHandler (pl_router p) p"
  have l: "platformOk ?l" by (rule loadCurrent_ok [OF assms(1)])
  have fresh: "freshKeys (spaKeys (pl_config ?l)) ?l" using assms(3) by (simp add: loadGlobalHttpHandler_def freshKeys_def)
  show ?thesis
  proof (cases "configureSPA env ?l")
    case (Some p1)
    have p1: "platformOk p1" by (rule configureSPA_ok [OF l Some fresh])
    have "routing q = routing p1"
      using assms(2) Some routing_startFabric [of inp _ "p1\<lparr>pl_availableHttp := True\<rparr>"]
      by (auto simp: StartServer_def Let_def split: option.splits if_splits) (metis fst_conv routing_fields(7))+
    then show ?thesis using platformOk_routing [OF p1] by blast
  qed (use assms in \<open>simp add: StartServer_def\<close>)
qed

subsection \<open>The server from its making on\<close>

definition dirKeys :: "platformServerConfig \<Rightarrow> string list" where
  "dirKeys cfg = map (\<lambda>d. snd (DeriveStaticURIFromPath d) @ ''*'') (cf_StaticDir cfg)"

lemma emptyPlatform_ok: "platformOk (emptyPlatform env inp cfg)"
  by (simp add: platformOk_def routersAgree_def emptyPlatform_def bridgesView_def routerAt_def registryOk_def namedOk_def
      configureRouterErrorHandlers_def NewRouter_def NewRestBridgeRegistry_def endpointsOf_def markDirtyLocked_def Let_def)

lemma staticDirs_ok:
  "platformOk p \<Longrightarrow> staticDirs env dirs p = Some q \<Longrightarrow> freshKeys (map (\<lambda>d. snd (DeriveStaticURIFromPath d) @ ''*'') dirs) p \<Longrightarrow>
     platformOk q"
proof (induction dirs arbitrary: p)
  case (Cons d dirs)
  obtain path uri where d: "DeriveStaticURIFromPath d = (path, uri)" by fastforce
  obtain p1 where p1: "SetStaticRoute env uri path [] p = Some p1" "staticDirs env dirs p1 = Some q"
    using Cons.prems(2) by (auto simp: d split: option.splits)
  have fresh: "freshKeys ((uri @ ''*'') # map (\<lambda>d. snd (DeriveStaticURIFromPath d) @ ''*'') dirs) p"
    using Cons.prems(3) by (simp add: d)
  then have "platformOk p1" using SetStaticRoute_ok [OF Cons.prems(1) p1(1)] by (simp add: freshKeys_def)
  then show ?case using Cons.IH [OF _ p1(2)] freshKeys_next [OF fresh p1(1)] by simp
qed simp

lemma RouterHandle_added:
  "RouterHandle pat h r = markDirtyLocked (addNamed
     \<lparr>rt_name = [], rt_path = normalizePath pat, rt_prefix = False, rt_methods = [], rt_handler = h\<rparr> r)"
  by (simp add: RouterHandle_def RoutePath_def addRoute_def RouteHandler_def updRoute_def markDirtyLocked_def addNamed_def Let_def)

lemma configureFabric_ok:
  assumes "platformOk p" and "configureFabric env tcp p = Some q"
  shows "platformOk q"
proof -
  have "platformOk (setRouterAt (pl_router p) (RouterHandle pat h (routerAt (pl_router p) p)) p)" (is "platformOk ?q") for pat h
  proof -
    have reg: "registryOk (bridgesView p)" and agree: "routersAgree p" using assms(1) by (simp_all add: platformOk_def)
    have "registryOk (bridgesView ?q)"
      by (rule registryOk_route [OF reg, where rt = "\<lparr>rt_name = [], rt_path = normalizePath pat, rt_prefix = False,
            rt_methods = [], rt_handler = h\<rparr>"])
        (use agree in \<open>simp_all add: bridgesView_def setRouterAt_def routerAt_def routersAgree_def RouterHandle_added endpointsOf_def\<close>)
    then show ?thesis using agree by (simp add: platformOk_def routersAgree_def setRouterAt_def)
  qed
  then show ?thesis using assms by (auto simp: configureFabric_def split: option.splits if_splits)
qed

lemma listenLifecycle_routing: "listenLifecycle ids p = Some q \<Longrightarrow> routing q = routing p"
  by (auto simp: listenLifecycle_def split: prod.splits sum.splits)

lemma initialize_ok:
  assumes "initialize env inp cfg = Some p" and "distinct (dirKeys cfg)"
  shows "platformOk p"
proof -
  obtain p1 where p1: "staticDirs env (cf_StaticDir cfg) (emptyPlatform env inp cfg) = Some p1"
    using assms(1) by (auto simp: initialize_def split: option.splits)
  have "freshKeys (dirKeys cfg) (emptyPlatform env inp cfg)"
    using assms(2) by (simp add: freshKeys_def emptyPlatform_def NewRestBridgeRegistry_def Let_def)
  then have ok1: "platformOk p1" using staticDirs_ok [OF emptyPlatform_ok p1] by (simp add: dirKeys_def)
  let ?p2 = "fst (onRegistry (RegisterService (in_restIds inp) (Some (in_restService inp)) RestServiceChannel) p1)"
  obtain p3 where p3: "listenLifecycle (in_lcmIds inp) ?p2 = Some p3"
    using assms(1) p1 by (auto simp: initialize_def Let_def split: option.splits)
  have "routing p3 = routing p1" using listenLifecycle_routing [OF p3] by simp
  then have ok3: "platformOk p3" by (rule platformOk_routing [OF ok1])
  let ?p4 = "if cf_FabricConfig cfg \<noteq> None
     then onPlatformBus (onMgr (\<lambda>m. fst (CreateChannel STOMP_SESSION_NOTIFY_CHANNEL m))) p3 else p3"
  have "platformOk ?p4" by (rule platformOk_routing [OF ok3]) simp
  moreover have "configureFabric env (in_tcp inp) ?p4 = Some p" using assms(1) p1 p3 by (simp add: initialize_def Let_def)
  ultimately show ?thesis by (rule configureFabric_ok)
qed

text \<open>What clients and the bus do with the endpoint.\<close>

definition clientEvent :: "fabricEv \<Rightarrow> bool" where
  "clientEvent e \<longleftrightarrow>
     (case e of FaSubscribe _ _ _ _ \<Rightarrow> True | FaUnsubscribe _ _ _ _ \<Rightarrow> True | FaRequest _ _ _ _ \<Rightarrow> True | FaSession _ _ _ \<Rightarrow> True
      | FaCall _ _ \<Rightarrow> True | FaBus _ _ \<Rightarrow> True | _ \<Rightarrow> False)"

text \<open>One step of the server: an operation of its interface, the handling of a setup, a service that gets
  ready, a request, or a step of the endpoint or of the bus. A static route and the start of an application are given
  keys that no handler has yet.\<close>

inductive platformTrans :: "platformEnv \<Rightarrow> platform \<Rightarrow> platform \<Rightarrow> bool" for env where
  registers: "platformTrans env p (fst (platformRegisterService env ids fids svc ch p))"
| unregisters: "platformTrans env p (fst (platformUnregisterService ch p))"
| sets_up: "handleSetup env ids msg p = Some q \<Longrightarrow> platformTrans env p q"
| gets_ready: "platformTrans env p (serviceReady env i v newId p)"
| bridges: "platformTrans env p (SetHttpChannelBridge env ids c p)"
| bridges_prefix: "platformTrans env p (SetHttpPathPrefixChannelBridge env ids c p)"
| static: "SetStaticRoute env pre path mws p = Some q \<Longrightarrow>
    gm_get (rb_endpointHandlerMap (pl_bridges p)) (pre @ ''*'') = None \<Longrightarrow> platformTrans env p q"
| middleware: "setMiddlewareAt name ms p = Some q \<Longrightarrow> platformTrans env p q"
| no_middleware: "removeMiddlewareAt name p = Some q \<Longrightarrow> platformTrans env p q"
| starts: "StartServer env inp p = (q, out) \<Longrightarrow> freshKeys (spaKeys (pl_config p)) p \<Longrightarrow> platformTrans env p q"
| announces: "platformTrans env p (serverOnline newId p)"
| fails: "platformTrans env p (serveFailed p)"
| stops: "platformTrans env p (stopRequested newId p)"
| requests: "platformTrans env p (fst (serveRequest req w p))"
| fabric_moves: "pl_fabric p = Some f \<Longrightarrow> clientEvent e \<Longrightarrow>
    platformTrans env p (fst (onFabric (\<lambda>f. (fabricStep enc dec f e, ())) f p))"
| bus_moves: "platformTrans env p (onPlatformBus (\<lambda>b. busStep br b e) p)"

lemma platformOk_kept:
  "platformOk (fst (platformRegisterService env ids fids svc ch p)) = platformOk p"
  "platformOk (fst (platformUnregisterService ch p)) = platformOk p"
  "platformOk (serviceReady env i v newId p) = platformOk p" "platformOk (serverOnline newId p) = platformOk p"
  "platformOk (serveFailed p) = platformOk p" "platformOk (stopRequested newId p) = platformOk p"
  "platformOk (onPlatformBus g p) = platformOk p" "platformOk (fst (onFabric h f p)) = platformOk p"
  by (rule iffI; erule platformOk_routing; simp add: serverOnline_def serveFailed_def stopRequested_def)+

lemma platformTrans_ok: "platformTrans env p q \<Longrightarrow> platformOk p \<Longrightarrow> platformOk q"
  by (induction rule: platformTrans.induct)
    (auto intro: handleSetup_ok SetHttpChannelBridge_ok SetHttpPathPrefixChannelBridge_ok SetStaticRoute_ok
      setMiddlewareAt_ok removeMiddlewareAt_ok StartServer_ok serveRequest_ok simp: platformOk_kept)

interpretation server: stepper "platformTrans env" platformOk for env
  by unfold_locales (rule platformTrans_ok)


subsection \<open>A server with one service\<close>

definition demoPlatformEnv :: platformEnv where
  "demoPlatformEnv =
     \<lparr>pe_configs = (\<lambda>n. if n = 1 then Some (demoConfig ''svc'' ''/a'') else None),
      pe_content = \<lparr>ce_serveFile = (\<lambda>f. echoHandler), ce_fileServer = (\<lambda>d. echoHandler)\<rparr>,
      pe_socket = echoHandler, pe_build = demoBuild,
      pe_store = \<lparr>or_marshal = (\<lambda>r. Inr ''{}''), or_convert = Inr\<rparr>\<rparr>"

definition plainService :: "nat \<Rightarrow> nat list option \<Rightarrow> bool \<Rightarrow> fabricService" where
  "plainService i bridge ready = \<lparr>sc_id = i, sc_init = None, sc_bridge = bridge, sc_context = False, sc_isRest = False,
     sc_onReady = ready, sc_onShutdown = False\<rparr>"

definition demoInit :: initInput where
  "demoInit = \<lparr>in_busId = 1, in_restService = plainService 0 None False, in_restIds = demoSvcIds, in_lcmIds = demoSvcIds,
     in_tcp = None\<rparr>"

definition demoServer :: platform where
  "demoServer = the (initialize demoPlatformEnv demoInit zeroServerConfig)"

lemma demoServer_init: "initialize demoPlatformEnv demoInit zeroServerConfig = Some demoServer"
proof -
  have "\<not> Option.is_none (initialize demoPlatformEnv demoInit zeroServerConfig)" by code_simp
  then show ?thesis by (auto simp: demoServer_def Option.is_none_def)
qed

definition demoStart :: startInput where
  "demoStart = \<lparr>in_listen = None, in_cert = None, in_start = None,
     in_fresh = \<lparr>fi_first = (21, 22, 23), fi_second = (31, 32, 33), fi_sub = 24, fi_msg = 25,
       fi_unsub = (\<lambda>s. None)\<rparr>\<rparr>"

definition demoServing :: platform where
  "demoServing = SetHttpChannelBridge demoPlatformEnv demoSvcIds (Some (demoConfig RestServiceChannel ''/a''))
     (fst (StartServer demoPlatformEnv demoStart demoServer))"

lemma demoServing_reached: "(platformTrans demoPlatformEnv)\<^sup>*\<^sup>* demoServer demoServing"
proof -
  let ?p = "fst (StartServer demoPlatformEnv demoStart demoServer)"
  have "spaKeys (pl_config demoServer) = []" by code_simp
  then have "platformTrans demoPlatformEnv demoServer ?p"
    by (intro platformTrans.starts [OF surjective_pairing]) (simp add: freshKeys_def)
  moreover have "platformTrans demoPlatformEnv ?p demoServing" unfolding demoServing_def by (rule platformTrans.bridges)
  ultimately show ?thesis by (meson rtranclp.simps)
qed


end
