(* ===== verification/ServiceRoutes.thy ===== *)
theory ServiceRoutes
  imports PlankServerFacts FabricFacts
begin

text \<open>
  The routes from service channels to topics that the server keeps: pending before the fabric
  endpoint starts, registered with it afterwards. And what happens when a service goes or is set up
  again between two steps that belong together.
\<close>

subsection \<open>Routes of an endpoint\<close>

lemma sameRoutesI: "sameRouting s t \<Longrightarrow> fa_routes t = fa_routes s" by (simp add: sameRouting_def)

lemma recordSubscription_routes [simp]: "fa_routes (recordSubscription ch key cm s) = fa_routes s"
  by (simp add: recordSubscription_def busMonitorEvent_def)

lemma needBus_routes [simp]: "fa_routes (needBus g s) = fa_routes s"
  by (rule sameRoutesI) simp

lemma busMonitorEvent_routes [simp]: "fa_routes (busMonitorEvent t n s) = fa_routes s"
  by (simp add: busMonitorEvent_def)

lemma addSubscription_routes: "fa_routes (addSubscription ids con i d s) = fa_routes s"
  using sameRoutesI [OF installForwarder_same, of ids _ d s]
  by (auto simp: addSubscription_def split: option.splits prod.splits) (metis fst_conv)+

lemma removeSubscription_routes: "fa_routes (removeSubscription ids con i d s) = fa_routes s"
  by (auto simp: removeSubscription_def closeMapping_def Let_def split: option.splits)

lemma client_keeps_routes: "clientEvent e \<Longrightarrow> fa_routes (fabricStep enc dec s e) = fa_routes s"
  by (cases e) (auto simp: clientEvent_def addSubscription_routes removeSubscription_routes sendSessionEvent_def
      sameRoutesI [OF bridgeMessage_same] sameRoutesI [OF runFabricFn_same])

lemma RegisterRoute_inv: "fabricInv s \<Longrightarrow> fabricInv (fst (RegisterRoute ids spec s))"
proof -
  assume s: "fabricInv s"
  obtain s1 h where r: "publishRoute ids spec s = (s1, h)" by fastforce
  then have "fabricInv s1" using publishRoute_inv [OF s, of ids spec] by simp
  then show ?thesis using r by (cases h) (simp_all add: RegisterRoute_def attachRoute_inv detachRoute_inv)
qed

lemma detach_attach_routes [simp]:
  "fa_routes (detachRoute n s) = fa_routes s" "fa_routes (attachRoute i n s) = fa_routes s"
  by (auto simp: detachRoute_def detachSubscriptionForwarder_def attachRoute_def Let_def split: option.splits prod.splits)

lemma RegisterRoute_routes:
  assumes "RegisterRoute ids spec s = (t, x)"
  shows "(\<exists>e. x = Inl e) \<and> fa_routes t = fa_routes s \<or>
     (\<exists>n. x = Inr n \<and> fa_routes t = gm_set (sp_BusChannel spec) n (fa_routes s))"
proof -
  obtain s1 h where r: "publishRoute ids spec s = (s1, h)" by fastforce
  then have "(\<exists>e. h = Inl e) \<and> fa_routes s1 = fa_routes s \<or>
     (\<exists>n. h = Inr n \<and> fa_routes s1 = gm_set (sp_BusChannel spec) n (fa_routes s))"
    by (auto simp: publishRoute_def Let_def split: if_splits option.splits prod.splits sum.splits)
  then show ?thesis using assms r by (auto simp: RegisterRoute_def)
qed

lemma closeStream_routes [simp]: "fa_routes (closeStream n s) = fa_routes s"
  by (simp add: closeStream_def)

lemma closeRoute_others:
  "fabricInv s \<Longrightarrow> gm_get (fa_routes s) ch = Some h \<Longrightarrow> ch' \<noteq> ch \<Longrightarrow>
     gm_get (fa_routes (closeRoute h s)) ch' = gm_get (fa_routes s) ch'"
  by (auto simp: closeRoute_def fabricInv_def Let_def)

subsection \<open>The routes of the server\<close>

definition pendingChannels :: "platform \<Rightarrow> string list" where
  "pendingChannels p = map sp_BusChannel (pl_pendingRoutes p)"

text \<open>The handles of the endpoint that runs are those of its routes.\<close>

definition handlesAreRoutes :: "platform \<Rightarrow> bool" where
  "handlesAreRoutes p \<longleftrightarrow>
     (\<forall>f. pl_fabric p = Some f \<longrightarrow> fabricInv f \<and>
        (\<forall>ch h. gm_get (pl_routeHandles p) ch = Some (pl_endpoints p, h) \<longrightarrow> gm_get (fa_routes f) ch = Some h))"

definition registered :: "string \<Rightarrow> platform \<Rightarrow> bool" where
  "registered ch p \<longleftrightarrow> gm_get (rg_services (pl_registry p)) ch \<noteq> None"

definition pendingOk :: "platform \<Rightarrow> bool" where
  "pendingOk p \<longleftrightarrow> distinct (pendingChannels p) \<and>
     (\<forall>ch \<in> set (pendingChannels p). gm_get (pl_routeHandles p) ch = None \<and> registered ch p)"

definition handlesOk :: "platform \<Rightarrow> bool" where
  "handlesOk p \<longleftrightarrow> handlesAreRoutes p \<and>
     (\<forall>ch e h. gm_get (pl_routeHandles p) ch = Some (e, h) \<longrightarrow> registered ch p \<and> e \<le> pl_endpoints p)"

definition serviceRoutes :: "platform \<Rightarrow> bool" where
  "serviceRoutes p \<longleftrightarrow> pendingOk p \<and> handlesOk p"

text \<open>What these depend on.\<close>

definition routesView where
  "routesView p = (pl_pendingRoutes p, pl_routeHandles p, rg_services (pl_registry p), pl_endpoints p, pl_fabric p)"

lemma serviceRoutes_view: "routesView q = routesView p \<Longrightarrow> serviceRoutes q = serviceRoutes p"
  by (simp add: routesView_def serviceRoutes_def pendingOk_def handlesOk_def pendingChannels_def handlesAreRoutes_def
      registered_def)

lemma routesView_fields [simp]:
  "routesView (setBus b p) = routesView p" "routesView (setRouterAt r x p) = routesView p"
  "routesView (p\<lparr>pl_bridges := x1\<rparr>) = routesView p" "routesView (p\<lparr>pl_originalHandlers := x2\<rparr>) = routesView p"
  "routesView (p\<lparr>pl_waitingReady := x3\<rparr>) = routesView p" "routesView (p\<lparr>pl_teardown := x4\<rparr>) = routesView p"
  "routesView (p\<lparr>pl_availableHttp := x5\<rparr>) = routesView p" "routesView (p\<lparr>pl_availableFabric := x6\<rparr>) = routesView p"
  "routesView (p\<lparr>pl_readyClosed := x7\<rparr>) = routesView p" "routesView (p\<lparr>pl_routers := x8\<rparr>) = routesView p"
  "routesView (putReady env ch v i p) = routesView p" "routesView (loadGlobalHttpHandler r p) = routesView p"
  by (simp_all add: routesView_def setBus_def setRouterAt_def putReady_def loadGlobalHttpHandler_def)

lemma routesView_ops [simp]:
  "routesView (onBridges g p) = routesView p" "routesView (putManager m p) = routesView p"
  "routesView (onPlatformBus g' p) = routesView p" "routesView (serviceReady env i v newId p) = routesView p"
  "routesView (fst (clearHttpChannelBridgesForService ch p)) = routesView p"
  "routesView (SetHttpChannelBridge env ids c p) = routesView p"
  "routesView (SetHttpPathPrefixChannelBridge env ids c p) = routesView p"
  "routesView (fst (serveRequest req w p)) = routesView p"
  by (simp_all add: onBridges_def putManager_def onPlatformBus_def serviceReady_def clearHttpChannelBridgesForService_def
      SetHttpChannelBridge_def SetHttpPathPrefixChannelBridge_def serveRequest_def Let_def case_prod_beta routesView_def
      setBus_def setRouterAt_def putReady_def split: option.splits prod.splits)

lemma routesView_overrideService [simp]: "routesView (overrideService ch p) = routesView p"
  by (simp add: overrideService_def case_prod_beta)

lemma routesView_setupBridges [simp]: "routesView (setupBridges env ids cs p) = routesView p"
  by (induction cs arbitrary: p) simp_all

lemma routesView_handleSetup:
  assumes "handleSetup env ids msg p = Some q"
  shows "routesView q = routesView p"
proof -
  obtain ch ov cs where "m_Payload msg = GSetupREST ch ov cs"
    using assms by (auto simp: handleSetup_def split: gval.splits)
  then have "routesView q = routesView (setupBridges env ids cs (if ov then overrideService ch p else p))"
    using assms by (auto simp: handleSetup_def overrideService_def Let_def split: if_splits sum.splits)
  then show ?thesis by (simp split: if_splits)
qed

lemma routesView_static: "SetStaticRoute env pre path mws p = Some q \<Longrightarrow> routesView q = routesView p"
  by (auto simp: SetStaticRoute_def Let_def split: option.splits prod.splits)

lemma routesView_middleware:
  "setMiddlewareAt name ms p = Some q \<Longrightarrow> routesView q = routesView p"
  "removeMiddlewareAt name p = Some q \<Longrightarrow> routesView q = routesView p"
  by (auto simp: setMiddlewareAt_def removeMiddlewareAt_def split: sum.splits)

lemma routesView_spa: "configureSPA env p = Some q \<Longrightarrow> routesView q = routesView p"
proof -
  have assets: "spaAssets env spa as p = Some q \<Longrightarrow> routesView q = routesView p" for spa as p q
    by (induction as arbitrary: p) (auto split: option.splits prod.splits dest!: routesView_static)
  then show "configureSPA env p = Some q \<Longrightarrow> routesView q = routesView p"
    by (auto simp: configureSPA_def split: option.splits)
qed

subsection \<open>Registering and draining\<close>

text \<open>A call of the endpoint changes the endpoint only; the registry keeps its services.\<close>

lemma onFabric_fields:
  assumes "onFabric g f p = (q, x)"
  shows "\<exists>f'. g (f\<lparr>fa_bus := Some (busOf p)\<rparr>) = (f', x) \<and> pl_fabric q = Some f' \<and> pl_pendingRoutes q = pl_pendingRoutes p \<and>
     pl_routeHandles q = pl_routeHandles p \<and> rg_services (pl_registry q) = rg_services (pl_registry p) \<and>
     pl_endpoints q = pl_endpoints p \<and> pl_config q = pl_config p"
  using assms by (auto simp: onFabric_def setBus_def Let_def split: prod.splits option.splits)

lemma fabricInv_bus [simp]: "fabricInv (f\<lparr>fa_bus := b\<rparr>) = fabricInv f"
  by (simp add: fabricInv_def channelOfRoute_def)

lemma registered_onFabric: "onFabric g f p = (q, x) \<Longrightarrow> registered ch q = registered ch p"
  using onFabric_fields [of g f p q x] by (auto simp: registered_def)

lemma register_refused:
  assumes "handlesOk p" and "pl_fabric p = Some f" and r: "onFabric (RegisterRoute ids spec) f p = (q, Inl e)"
  shows "handlesOk q"
proof -
  obtain f' where f': "RegisterRoute ids spec (f\<lparr>fa_bus := Some (busOf p)\<rparr>) = (f', Inl e)" "pl_fabric q = Some f'"
      "pl_routeHandles q = pl_routeHandles p" "pl_endpoints q = pl_endpoints p"
    using onFabric_fields [OF r] by blast
  have "fabricInv f" using assms(1,2) by (simp add: handlesOk_def handlesAreRoutes_def)
  then have "fabricInv f'" using RegisterRoute_inv [of "f\<lparr>fa_bus := Some (busOf p)\<rparr>" ids spec] f'(1) by simp
  moreover have "fa_routes f' = fa_routes f" using RegisterRoute_routes [OF f'(1)] by simp
  ultimately show ?thesis
    using assms(1,2) f' registered_onFabric [OF r] by (simp add: handlesOk_def handlesAreRoutes_def)
qed

lemma register_accepted:
  assumes "handlesOk p" and "pl_fabric p = Some f" and r: "onFabric (RegisterRoute ids spec) f p = (q, Inr n)"
    and "registered (sp_BusChannel spec) p"
  shows "handlesOk (q\<lparr>pl_routeHandles := gm_set (sp_BusChannel spec) (pl_endpoints q, n) (pl_routeHandles q)\<rparr>)"
    (is "handlesOk ?t")
proof -
  obtain f' where f': "RegisterRoute ids spec (f\<lparr>fa_bus := Some (busOf p)\<rparr>) = (f', Inr n)" "pl_fabric q = Some f'"
      "pl_routeHandles q = pl_routeHandles p" "pl_endpoints q = pl_endpoints p"
    using onFabric_fields [OF r] by blast
  have ok: "fabricInv f" "\<And>ch h. gm_get (pl_routeHandles p) ch = Some (pl_endpoints p, h) \<Longrightarrow> gm_get (fa_routes f) ch = Some h"
    using assms(1,2) by (simp_all add: handlesOk_def handlesAreRoutes_def)
  then have "fabricInv f'" using RegisterRoute_inv [of "f\<lparr>fa_bus := Some (busOf p)\<rparr>" ids spec] f'(1) by simp
  moreover have routes: "fa_routes f' = gm_set (sp_BusChannel spec) n (fa_routes f)" using RegisterRoute_routes [OF f'(1)] by simp
  ultimately have "handlesAreRoutes ?t" using f' ok by (simp add: handlesAreRoutes_def)
  moreover have "registered ch ?t = registered ch p" for ch using registered_onFabric [OF r] by (simp add: registered_def)
  ultimately show ?thesis using assms(1,4) f' by (auto simp: handlesOk_def)
qed

lemma drainLoop_ok:
  "drainLoop ids specs p = (q, e) \<Longrightarrow> handlesOk p \<Longrightarrow> pl_fabric p \<noteq> None \<Longrightarrow>
   (\<And>spec. spec \<in> set specs \<Longrightarrow> registered (sp_BusChannel spec) p) \<Longrightarrow>
     handlesOk q \<and> pl_fabric q \<noteq> None \<and> pl_pendingRoutes q = pl_pendingRoutes p \<and> pl_endpoints q = pl_endpoints p \<and>
     rg_services (pl_registry q) = rg_services (pl_registry p) \<and>
     (e = None \<longrightarrow> (\<forall>spec \<in> set specs. \<exists>h. gm_get (pl_routeHandles q) (sp_BusChannel spec) = Some (pl_endpoints q, h)) \<and>
        (\<forall>ch h. gm_get (pl_routeHandles p) ch = Some (pl_endpoints p, h) \<longrightarrow>
           (\<exists>h'. gm_get (pl_routeHandles q) ch = Some (pl_endpoints q, h'))))"
proof (induction specs arbitrary: p)
  case (Cons spec specs)
  obtain f where f: "pl_fabric p = Some f" using Cons.prems(3) by blast
  obtain p1 x where r: "onFabric (RegisterRoute ids spec) f p = (p1, x)" by fastforce
  note fields = onFabric_fields [OF r]
  show ?case
  proof (cases x)
    case (Inl e1)
    then have q: "q = p1" "e \<noteq> None" using Cons.prems(1) f r by auto
    have "handlesOk p1" using register_refused Cons.prems(2) f r Inl by blast
    then show ?thesis using fields q by auto
  next
    case (Inr n)
    let ?p2 = "p1\<lparr>pl_routeHandles := gm_set (sp_BusChannel spec) (pl_endpoints p1, n) (pl_routeHandles p1)\<rparr>"
    have ok: "handlesOk ?p2" using register_accepted [OF Cons.prems(2) f] r Inr Cons.prems(4) by simp
    have rest: "drainLoop ids specs ?p2 = (q, e)" using Cons.prems(1) f r Inr by simp
    have reg: "registered (sp_BusChannel s) ?p2" if "s \<in> set specs" for s
      using that Cons.prems(4) [of s] registered_onFabric [OF r] by (simp add: registered_def)
    have "pl_fabric ?p2 \<noteq> None" using fields by auto
    note IH = Cons.IH [OF rest ok this reg]
    have "gm_get (pl_routeHandles ?p2) (sp_BusChannel spec) = Some (pl_endpoints ?p2, n)" by simp
    moreover have "\<exists>h'. gm_get (pl_routeHandles ?p2) ch = Some (pl_endpoints ?p2, h')"
      if "gm_get (pl_routeHandles p) ch = Some (pl_endpoints p, h)" for ch h
      using that fields by auto
    ultimately show ?thesis using IH fields by (auto 0 4)
  qed
qed auto

subsection \<open>Services that come and go\<close>

lemma wrapperInit_services: "wrapperInit ids svc name s = (t, res) \<Longrightarrow> rg_services t = rg_services s"
  by (auto simp: wrapperInit_def onRegBus_def Let_def split: option.splits prod.splits sum.splits)

lemma sendSetup_services [simp]: "rg_services (fst (sendSetup ids n ov c s)) = rg_services s"
  using sendSetup_keeps by blast

lemma RegisterService_services:
  assumes "RegisterService ids svc ch s = (t, e)"
  shows "e \<noteq> None \<and> rg_services t = rg_services s \<or>
     (\<exists>sw v. svc = Some v \<and> sw_service sw = v \<and> gm_get (rg_services s) ch = None \<and> rg_services t = gm_set ch sw (rg_services s))"
proof (cases svc)
  case (Some v)
  obtain s1 res where w: "wrapperInit ids v ch s = (s1, res)" by fastforce
  have s1: "rg_services s1 = rg_services s" by (rule wrapperInit_services [OF w])
  show ?thesis
  proof (cases res)
    case (Inr sw)
    have "sw_service sw = v" using w Inr by (auto simp: wrapperInit_def Let_def split: option.splits prod.splits sum.splits)
    moreover have "rg_services t = gm_set ch sw (rg_services s)" if free: "gm_get (rg_services s) ch = None"
    proof -
      let ?s2 = "s1\<lparr>rg_services := gm_set ch sw (rg_services s1)\<rparr>"
      show ?thesis
      proof (cases "ch \<in> set internalServices \<or> GetRESTBridgeEnabledService ch ?s2 = None")
        case True
        then have "t = ?s2" using assms free w Inr Some by (auto simp: RegisterService_def Let_def split: if_splits)
        then show ?thesis using s1 by simp
      next
        case False
        then obtain c where "sendSetup ids ch False c ?s2 = (t, e)"
          using assms free w Inr Some by (auto simp: RegisterService_def Let_def)
        then have "t = fst (sendSetup ids ch False c ?s2)" by simp
        then show ?thesis using s1 by simp
      qed
    qed
    moreover have "e \<noteq> None \<and> t = s" if "gm_get (rg_services s) ch \<noteq> None"
      using assms that Some by (auto simp: RegisterService_def)
    ultimately show ?thesis using Some by (cases "gm_get (rg_services s) ch = None") blast+
  qed (use assms w s1 Some in \<open>auto simp: RegisterService_def split: if_splits\<close>)
qed (use assms in \<open>auto simp: RegisterService_def\<close>)

lemma UnregisterService_services:
  "UnregisterService ch s = (t, e) \<Longrightarrow> rg_services t = (if e = None then gm_del ch (rg_services s) else rg_services s) \<and>
     (e = None \<longleftrightarrow> gm_get (rg_services s) ch \<noteq> None)"
  by (auto simp: UnregisterService_def Let_def onRegBus_def split: option.splits)

text \<open>A step of the registry: everything but the services is as it was.\<close>

lemma onRegistry_fields:
  "onRegistry g p = (q, x) \<Longrightarrow> g (pl_registry p) = (pl_registry q, x) \<and> pl_pendingRoutes q = pl_pendingRoutes p \<and>
     pl_routeHandles q = pl_routeHandles p \<and> pl_fabric q = pl_fabric p \<and> pl_endpoints q = pl_endpoints p \<and>
     pl_config q = pl_config p \<and> pl_readyStore q = pl_readyStore p"
  by (auto simp: onRegistry_def Let_def split: prod.splits)

text \<open>More services, or one less that has no route.\<close>

lemma serviceRoutes_registry:
  assumes "serviceRoutes p" and "pl_pendingRoutes q = pl_pendingRoutes p" "pl_routeHandles q = pl_routeHandles p"
    "pl_fabric q = pl_fabric p" "pl_endpoints q = pl_endpoints p"
    and "\<And>ch. ch \<in> set (pendingChannels p) \<or> gm_get (pl_routeHandles p) ch \<noteq> None \<Longrightarrow> registered ch p \<Longrightarrow> registered ch q"
  shows "serviceRoutes q"
  using assms unfolding serviceRoutes_def pendingOk_def handlesOk_def handlesAreRoutes_def pendingChannels_def by simp

lemma unregister_without_route:
  assumes ok: "serviceRoutes p" and "ch \<notin> set (pendingChannels p)" "gm_get (pl_routeHandles p) ch = None"
  shows "serviceRoutes (fst (onRegistry (UnregisterService ch) p))"
proof -
  obtain q e where q: "onRegistry (UnregisterService ch) p = (q, e)" by fastforce
  note f = onRegistry_fields [OF q]
  then have s: "rg_services (pl_registry q) = (if e = None then gm_del ch (rg_services (pl_registry p)) else rg_services (pl_registry p))"
    using UnregisterService_services by blast
  have "serviceRoutes q"
    by (rule serviceRoutes_registry [OF ok]) (use f s assms(2,3) in \<open>auto simp: registered_def\<close>)
  then show ?thesis using q by simp
qed

lemma registerOrPend_ok:
  assumes ok: "serviceRoutes p" and reg: "registered ch p" and free: "ch \<notin> set (pendingChannels p)" "gm_get (pl_routeHandles p) ch = None"
    and r: "registerOrPendRoute ids ch p = (q, e)"
  shows "serviceRoutes q" and "e \<noteq> None \<Longrightarrow> ch \<notin> set (pendingChannels q) \<and> gm_get (pl_routeHandles q) ch = None"
proof -
  have "serviceRoutes q \<and> (e \<noteq> None \<longrightarrow> ch \<notin> set (pendingChannels q) \<and> gm_get (pl_routeHandles q) ch = None)"
  proof (cases "cf_FabricConfig (pl_config p)")
    case None
    then show ?thesis using r ok by (simp add: registerOrPendRoute_def)
  next
    case (Some fb)
    show ?thesis
    proof (cases "pl_fabric p")
      case None
      then have q: "q = p\<lparr>pl_pendingRoutes := pl_pendingRoutes p @ [routeSpecFor fb ch]\<rparr>" "e = None"
        using r Some by (auto simp: registerOrPendRoute_def Let_def)
      have "pendingOk q" using ok reg free unfolding serviceRoutes_def pendingOk_def q(1)
        by (auto simp: pendingChannels_def registered_def routeSpecFor_def)
      moreover have "handlesOk q" using ok unfolding serviceRoutes_def handlesOk_def handlesAreRoutes_def q(1) registered_def by simp
      ultimately show ?thesis using q(2) by (simp add: serviceRoutes_def)
    next
      case fab: (Some f)
      obtain p1 x where p1: "onFabric (RegisterRoute ids (routeSpecFor fb ch)) f p = (p1, x)" by fastforce
      have fields: "pl_pendingRoutes p1 = pl_pendingRoutes p" "pl_routeHandles p1 = pl_routeHandles p"
        using onFabric_fields [OF p1] by auto
      have pend: "pendingOk p1" using ok fields registered_onFabric [OF p1]
        by (simp add: serviceRoutes_def pendingOk_def pendingChannels_def)
      show ?thesis
      proof (cases x)
        case (Inl e1)
        then have "q = p1" "handlesOk p1"
          using r Some fab p1 register_refused ok by (auto simp: registerOrPendRoute_def Let_def serviceRoutes_def)
        then show ?thesis using pend fields free by (simp add: serviceRoutes_def pendingChannels_def)
      next
        case (Inr n)
        then have q: "q = p1\<lparr>pl_routeHandles := gm_set ch (pl_endpoints p1, n) (pl_routeHandles p1)\<rparr>" "e = None"
          using r Some fab p1 by (auto simp: registerOrPendRoute_def Let_def)
        have name: "sp_BusChannel (routeSpecFor fb ch) = ch" by (simp add: routeSpecFor_def)
        have "handlesOk q"
          using register_accepted [OF _ fab p1 [unfolded Inr]] ok reg by (simp add: serviceRoutes_def name q(1))
        moreover have "pendingOk q"
          using pend free fields by (auto simp: pendingOk_def q(1) pendingChannels_def registered_def)
        ultimately show ?thesis using q(2) by (simp add: serviceRoutes_def)
      qed
    qed
  qed
  then show "serviceRoutes q" "e \<noteq> None \<Longrightarrow> ch \<notin> set (pendingChannels q) \<and> gm_get (pl_routeHandles q) ch = None" by auto
qed

lemma unregistered_free:
  "serviceRoutes p \<Longrightarrow> \<not> registered ch p \<Longrightarrow> ch \<notin> set (pendingChannels p) \<and> gm_get (pl_routeHandles p) ch = None"
  unfolding serviceRoutes_def pendingOk_def handlesOk_def by (metis option.exhaust surj_pair)

lemma platformRegisterService_ok:
  assumes ok: "serviceRoutes p"
  shows "serviceRoutes (fst (platformRegisterService env ids fids svc ch p))"
proof -
  obtain p1 e where r: "onRegistry (RegisterService ids svc ch) p = (p1, e)" by fastforce
  note f = onRegistry_fields [OF r]
  have s: "e \<noteq> None \<and> rg_services (pl_registry p1) = rg_services (pl_registry p) \<or>
     \<not> registered ch p \<and> (\<exists>sw. rg_services (pl_registry p1) = gm_set ch sw (rg_services (pl_registry p)))"
    using RegisterService_services [OF conjunct1 [OF f]] unfolding registered_def not_not by blast
  have more: "registered c p1" if "registered c p" for c
    using that s by (elim disjE conjE exE) (simp_all add: registered_def)
  have ok1: "serviceRoutes p1" by (rule serviceRoutes_registry [OF ok]) (simp_all add: f more)
  show ?thesis
  proof (cases e)
    case None
    define p2 where "p2 = (if GetOnReadyCapableService ch (pl_registry p1) = None then putReady env ch True (si_msg ids) p1 else p1)"
    have v: "routesView p2 = routesView p1" by (simp add: p2_def)
    then have ok2: "serviceRoutes p2" using ok1 serviceRoutes_view by blast
    have p2: "pl_pendingRoutes p2 = pl_pendingRoutes p" "pl_routeHandles p2 = pl_routeHandles p"
        "rg_services (pl_registry p2) = rg_services (pl_registry p1)"
      using v f by (simp_all add: routesView_def)
    have "\<not> registered ch p" "registered ch p2" using s None p2(3) by (auto simp: registered_def)
    then have free: "ch \<notin> set (pendingChannels p2)" "gm_get (pl_routeHandles p2) ch = None" "registered ch p2"
      using unregistered_free [OF ok, of ch] p2(1,2) by (simp_all add: pendingChannels_def)
    obtain p3 e3 where p3: "registerOrPendRoute fids ch p2 = (p3, e3)" by fastforce
    have reg: "serviceRoutes p3" "e3 \<noteq> None \<Longrightarrow> ch \<notin> set (pendingChannels p3) \<and> gm_get (pl_routeHandles p3) ch = None"
      using registerOrPend_ok [OF ok2 free(3,1,2) p3] by blast+
    have "fst (platformRegisterService env ids fids svc ch p) =
        (if e3 = None then p3 else fst (onRegistry (UnregisterService ch) p3))"
      using r p3 None by (cases e3) (simp_all add: platformRegisterService_def Let_def p2_def [symmetric])
    then show ?thesis using reg unregister_without_route [OF reg(1)] by simp
  qed (use r ok1 in \<open>simp add: platformRegisterService_def\<close>)
qed

lemma removePending_channels: "map sp_BusChannel (removePending ch ps) = remove1 ch (map sp_BusChannel ps)"
  by (induction ps) auto

lemma closeHandle_ok:
  assumes ok: "handlesOk p" and "pl_fabric p = Some f" and h: "gm_get (fa_routes f) ch = Some h"
    and "gm_get (pl_routeHandles p) ch = None"
  shows "handlesOk (fst (onFabric (\<lambda>f. (closeRoute h f, ())) f p))"
proof -
  obtain q x where r: "onFabric (\<lambda>f. (closeRoute h f, ())) f p = (q, x)" by (rule prod.exhaust)
  let ?f = "f\<lparr>fa_bus := Some (busOf p)\<rparr>"
  have q: "pl_fabric q = Some (closeRoute h ?f)" "pl_routeHandles q = pl_routeHandles p" "pl_endpoints q = pl_endpoints p"
    using onFabric_fields [OF r] by auto
  have f: "fabricInv f" "\<And>ch h. gm_get (pl_routeHandles p) ch = Some (pl_endpoints p, h) \<Longrightarrow> gm_get (fa_routes f) ch = Some h"
    using ok assms(2) by (simp_all add: handlesOk_def handlesAreRoutes_def)
  have "gm_get (fa_routes (closeRoute h ?f)) ch' = Some h'" if "gm_get (pl_routeHandles p) ch' = Some (pl_endpoints p, h')" for ch' h'
  proof -
    have "ch' \<noteq> ch" using that assms(4) by auto
    then show ?thesis using closeRoute_others [of ?f ch h ch'] f(1) f(2) [OF that] h by simp
  qed
  moreover have "fabricInv (closeRoute h ?f)" using f(1) by (intro closeRoute_inv) simp
  ultimately have "handlesOk q" using ok q registered_onFabric [OF r] by (simp add: handlesOk_def handlesAreRoutes_def)
  then show ?thesis using r by simp
qed

text \<open>A service that is gone has lost its handle or its pending route.\<close>

lemma drop_handle_ok:
  "serviceRoutes p \<Longrightarrow> gm_get (pl_routeHandles p) ch \<noteq> None \<Longrightarrow>
     serviceRoutes (p\<lparr>pl_registry := (pl_registry p)\<lparr>rg_bus := b, rg_services := gm_del ch (rg_services (pl_registry p))\<rparr>,
       pl_routeHandles := gm_del ch (pl_routeHandles p)\<rparr>)"
  unfolding serviceRoutes_def pendingOk_def handlesOk_def handlesAreRoutes_def pendingChannels_def registered_def
  by (auto split: if_splits)

lemma drop_pending_ok:
  "serviceRoutes p \<Longrightarrow> gm_get (pl_routeHandles p) ch = None \<Longrightarrow>
     serviceRoutes (p\<lparr>pl_registry := (pl_registry p)\<lparr>rg_bus := b, rg_services := gm_del ch (rg_services (pl_registry p))\<rparr>,
       pl_pendingRoutes := removePending ch (pl_pendingRoutes p)\<rparr>)"
  unfolding serviceRoutes_def pendingOk_def handlesOk_def handlesAreRoutes_def pendingChannels_def registered_def
  by (auto simp: removePending_channels split: if_splits)

lemma platformUnregisterService_ok:
  assumes ok: "serviceRoutes p"
  shows "serviceRoutes (fst (platformUnregisterService ch p))"
proof (cases "gm_get (rg_services (pl_registry p)) ch")
  case None
  then show ?thesis using ok
    by (simp add: platformUnregisterService_def onRegistry_def UnregisterService_def)
next
  case (Some sw)
  let ?s = "case sw_handler sw of None \<Rightarrow> pl_registry p | Some r \<Rightarrow> onRegBus (Close r) (pl_registry p)"
  obtain b where b: "?s = (pl_registry p)\<lparr>rg_bus := b\<rparr>"
    using that [of "rg_bus ?s"] by (cases "sw_handler sw") (auto simp: onRegBus_def)
  let ?p1 = "p\<lparr>pl_registry := (pl_registry p)\<lparr>rg_bus := b, rg_services := gm_del ch (rg_services (pl_registry p))\<rparr>\<rparr>"
  have r: "onRegistry (UnregisterService ch) p = (?p1, None)"
    using Some b by (simp add: onRegistry_def UnregisterService_def Let_def)
  show ?thesis
  proof (cases "gm_get (pl_routeHandles p) ch")
    case None
    then show ?thesis using drop_pending_ok [OF ok None, of b] r by (simp add: platformUnregisterService_def)
  next
    case h: (Some eh)
    obtain e h where eh: "eh = (e, h)" by (cases eh)
    let ?p2 = "p\<lparr>pl_registry := (pl_registry p)\<lparr>rg_bus := b, rg_services := gm_del ch (rg_services (pl_registry p))\<rparr>,
       pl_routeHandles := gm_del ch (pl_routeHandles p)\<rparr>"
    have ok2: "serviceRoutes ?p2" using drop_handle_ok [OF ok] h by simp
    show ?thesis
    proof (cases "\<exists>f. pl_fabric p = Some f \<and> e = pl_endpoints p")
      case False
      then show ?thesis using ok2 r h eh by (auto simp: platformUnregisterService_def Let_def split: option.split)
    next
      case True
      then obtain f where f: "pl_fabric p = Some f" "e = pl_endpoints p" by blast
      then have route: "gm_get (fa_routes f) ch = Some h"
        using ok h eh by (simp add: serviceRoutes_def handlesOk_def handlesAreRoutes_def)
      let ?q = "fst (onFabric (\<lambda>f. (closeRoute h f, ())) f ?p2)"
      have "handlesOk ?q" using ok2 f route by (intro closeHandle_ok [where ch = ch]) (simp_all add: serviceRoutes_def)
      moreover have "pendingOk ?q"
      proof -
        obtain q x where q: "onFabric (\<lambda>f. (closeRoute h f, ())) f ?p2 = (q, x)" by (rule prod.exhaust)
        have "pl_pendingRoutes q = pl_pendingRoutes ?p2" "pl_routeHandles q = pl_routeHandles ?p2"
          using onFabric_fields [OF q] by auto
        then have "pendingOk q" using ok2 registered_onFabric [OF q]
          by (simp add: serviceRoutes_def pendingOk_def pendingChannels_def)
        then show ?thesis using q by simp
      qed
      ultimately show ?thesis using r h eh f by (simp add: platformUnregisterService_def serviceRoutes_def)
    qed
  qed
qed

subsection \<open>Starting and stopping\<close>

lemma New_fabric: "New b ec = Inr f \<Longrightarrow> fabricInv f \<and> fa_routes f = gm_empty"
  using newFabricEndpoint_inv by (auto simp: New_def newFabricEndpoint_def split: option.splits)

lemma handlesOk_fields [simp]:
  "handlesOk (p\<lparr>pl_availableHttp := a\<rparr>) = handlesOk p" "handlesOk (p\<lparr>pl_availableFabric := b\<rparr>) = handlesOk p"
  "handlesOk (p\<lparr>pl_pendingRoutes := c\<rparr>) = handlesOk p"
  by (simp_all add: handlesOk_def handlesAreRoutes_def registered_def)

lemma pendingOk_fields [simp]:
  "pendingOk (p\<lparr>pl_availableHttp := a\<rparr>) = pendingOk p" "pendingOk (p\<lparr>pl_availableFabric := b\<rparr>) = pendingOk p"
  by (simp_all add: pendingOk_def pendingChannels_def registered_def)

lemma pendingChannels_fields [simp]:
  "pendingChannels (p\<lparr>pl_availableHttp := a\<rparr>) = pendingChannels p" "pendingChannels (p\<lparr>pl_availableFabric := b\<rparr>) = pendingChannels p"
  by (simp_all add: pendingChannels_def)

lemma new_endpoint_ok:
  assumes ok: "serviceRoutes p" and "New b ec = Inr f"
  shows "serviceRoutes (p\<lparr>pl_fabric := Some f, pl_endpoints := Suc (pl_endpoints p)\<rparr>)" (is "serviceRoutes ?q")
proof -
  have "gm_get (pl_routeHandles p) ch \<noteq> Some (Suc (pl_endpoints p), h)" for ch h
  proof
    assume "gm_get (pl_routeHandles p) ch = Some (Suc (pl_endpoints p), h)"
    then have "Suc (pl_endpoints p) \<le> pl_endpoints p" using ok unfolding serviceRoutes_def handlesOk_def by blast
    then show False by simp
  qed
  moreover have "e \<le> Suc (pl_endpoints p)" if "gm_get (pl_routeHandles p) ch = Some (e, h)" for ch e h
    using that ok unfolding serviceRoutes_def handlesOk_def by (meson le_SucI)
  ultimately show ?thesis using ok New_fabric [OF assms(2)]
    by (auto simp: serviceRoutes_def handlesOk_def handlesAreRoutes_def pendingOk_def pendingChannels_def registered_def)
qed

text \<open>A start that serves has registered every pending route with the endpoint.\<close>

definition allRouted :: "string list \<Rightarrow> platform \<Rightarrow> bool" where
  "allRouted chs q \<longleftrightarrow> pl_pendingRoutes q = [] \<and>
     (\<exists>f. pl_fabric q = Some f \<and>
        (\<forall>ch \<in> set chs. \<exists>h. gm_get (pl_routeHandles q) ch = Some (pl_endpoints q, h) \<and> gm_get (fa_routes f) ch = Some h))"

lemma startFabric_ok:
  assumes ok: "serviceRoutes p" and s: "startFabric inp fb p = (q, out)" and "\<And>e. out \<noteq> StartFailed e"
  shows "serviceRoutes q \<and> (out = Serving \<longrightarrow> allRouted (pendingChannels p) q)"
proof (cases "fb_EndpointConfig fb")
  case None
  then show ?thesis using s ok by (auto simp: startFabric_def Let_def)
next
  case (Some ec)
  obtain f where f: "New (Some (busOf p)) ec = Inr f"
    using s assms(3) Some by (auto simp: startFabric_def Let_def split: sum.splits)
  let ?p1 = "p\<lparr>pl_fabric := Some f, pl_endpoints := Suc (pl_endpoints p)\<rparr>"
  have ok1: "serviceRoutes ?p1" by (rule new_endpoint_ok [OF ok f])
  obtain p2 e where d: "drainLoop (in_fresh inp) (pl_pendingRoutes ?p1) ?p1 = (p2, e)" by fastforce
  have start: "in_start inp = None" using s assms(3) Some f by (auto simp: startFabric_def Let_def split: option.splits)
  have e: "e = None"
  proof (rule ccontr)
    assume "e \<noteq> None"
    then obtain x where "drainPendingRoutes (in_fresh inp) ?p1 = (p2, Some x)" using d by (auto simp: drainPendingRoutes_def)
    then show False using s assms(3) Some f start by (auto simp: startFabric_def Let_def)
  qed
  then have q: "q = p2\<lparr>pl_pendingRoutes := [], pl_availableFabric := True\<rparr>" "out = Serving"
    using s Some f start d by (auto simp: startFabric_def drainPendingRoutes_def Let_def)
  have reg: "registered (sp_BusChannel spec) ?p1" if "spec \<in> set (pl_pendingRoutes ?p1)" for spec
    using that ok1 by (simp add: serviceRoutes_def pendingOk_def pendingChannels_def)
  have handles1: "handlesOk ?p1" and fab1: "pl_fabric ?p1 \<noteq> None" using ok1 by (simp_all add: serviceRoutes_def)
  have drained: "handlesOk p2" "pl_fabric p2 \<noteq> None"
      "\<forall>spec \<in> set (pl_pendingRoutes ?p1). \<exists>h. gm_get (pl_routeHandles p2) (sp_BusChannel spec) = Some (pl_endpoints p2, h)"
    using drainLoop_ok [OF d handles1 fab1 reg] e by blast+
  then obtain f2 where f2: "pl_fabric p2 = Some f2" by blast
  have "allRouted (pendingChannels p) q"
    using drained f2 unfolding allRouted_def handlesOk_def handlesAreRoutes_def pendingChannels_def q(1) by auto
  moreover have "serviceRoutes q" using drained(1) by (simp add: q(1) serviceRoutes_def pendingOk_def pendingChannels_def)
  ultimately show ?thesis by blast
qed

lemma StartServer_routes:
  assumes ok: "serviceRoutes p" and s: "StartServer env inp p = (q, out)" and "\<And>e. out \<noteq> StartFailed e"
  shows "serviceRoutes q"
    and "out = Serving \<Longrightarrow> cf_FabricConfig (pl_config q) \<noteq> None \<Longrightarrow> allRouted (pendingChannels p) q"
proof -
  have "serviceRoutes q \<and> (out = Serving \<and> cf_FabricConfig (pl_config q) \<noteq> None \<longrightarrow> allRouted (pendingChannels p) q)"
  proof (cases "configureSPA env (loadGlobalHttpHandler (pl_router p) p)")
    case None
    then show ?thesis using s ok by (auto simp: StartServer_def)
  next
    case (Some p1)
    have v: "routesView p1 = routesView p" using routesView_spa [OF Some] by simp
    let ?p2 = "p1\<lparr>pl_availableHttp := True\<rparr>"
    have ok2: "serviceRoutes ?p2" using ok serviceRoutes_view [of ?p2 p] v by simp
    have pend: "pendingChannels ?p2 = pendingChannels p" using v by (simp add: pendingChannels_def routesView_def)
    show ?thesis
    proof (cases "cf_FabricConfig (pl_config ?p2)")
      case None
      then have "q = ?p2" using s Some assms(3) by (auto simp: StartServer_def Let_def split: option.splits if_splits)
      then show ?thesis using ok2 None by simp
    next
      case (Some fb)
      then have "startFabric inp fb ?p2 = (q, out)"
        using s \<open>configureSPA _ _ = Some p1\<close> assms(3) by (auto simp: StartServer_def Let_def split: option.splits if_splits)
      then show ?thesis using startFabric_ok [OF ok2 _ assms(3)] pend by metis
    qed
  qed
  then show "serviceRoutes q" "out = Serving \<Longrightarrow> cf_FabricConfig (pl_config q) \<noteq> None \<Longrightarrow> allRouted (pendingChannels p) q"
    by blast+
qed

lemma routesView_teardownAll [simp]: "routesView (teardownAll chs p) = routesView p"
  by (induction chs arbitrary: p) (simp_all split: option.splits)

lemma no_fabric_ok: "serviceRoutes p \<Longrightarrow> serviceRoutes (p\<lparr>pl_fabric := None\<rparr>)"
  by (simp add: serviceRoutes_def pendingOk_def handlesOk_def handlesAreRoutes_def pendingChannels_def registered_def)

lemma StopServer_ok: "serviceRoutes p \<Longrightarrow> serviceRoutes (StopServer p)"
proof -
  assume p: "serviceRoutes p"
  let ?p = "teardownAll (GetAllServiceChannels (pl_registry p)) (p\<lparr>pl_availableHttp := False\<rparr>)"
  have v: "routesView ?p = routesView p" by simp
  then have ok: "serviceRoutes ?p" using p serviceRoutes_view by blast
  show ?thesis
  proof (cases "pl_fabric ?p")
    case None
    then show ?thesis using ok by (simp add: StopServer_def)
  next
    case (Some f)
    obtain q x where r: "onFabric (\<lambda>f. (fabricStop f, ())) f ?p = (q, x)" by (rule prod.exhaust)
    let ?q = "q\<lparr>pl_fabric := None, pl_availableFabric := False\<rparr>"
    have "serviceRoutes (?p\<lparr>pl_fabric := None\<rparr>)" by (rule no_fabric_ok [OF ok])
    moreover have "routesView ?q = routesView (?p\<lparr>pl_fabric := None\<rparr>)"
      using onFabric_fields [OF r] by (auto simp: routesView_def)
    ultimately have "serviceRoutes ?q" using serviceRoutes_view by blast
    then show ?thesis using Some r by (simp add: StopServer_def Let_def)
  qed
qed

lemma fabric_moves_ok:
  assumes ok: "serviceRoutes p" and f: "pl_fabric p = Some f" and e: "clientEvent e"
  shows "serviceRoutes (fst (onFabric (\<lambda>f. (fabricStep enc dec f e, ())) f p))"
proof -
  obtain q x where r: "onFabric (\<lambda>f. (fabricStep enc dec f e, ())) f p = (q, x)" by (rule prod.exhaust)
  let ?f = "f\<lparr>fa_bus := Some (busOf p)\<rparr>"
  have q: "pl_fabric q = Some (fabricStep enc dec ?f e)" "pl_routeHandles q = pl_routeHandles p" "pl_endpoints q = pl_endpoints p"
      "pl_pendingRoutes q = pl_pendingRoutes p"
    using onFabric_fields [OF r] by auto
  have "fabricInv ?f" using ok f by (simp add: serviceRoutes_def handlesOk_def handlesAreRoutes_def)
  then have "fabricInv (fabricStep enc dec ?f e)" by (rule fabricStep_inv)
  moreover have "fa_routes (fabricStep enc dec ?f e) = fa_routes f" using client_keeps_routes [OF e] by simp
  ultimately have "serviceRoutes q"
    using ok f q registered_onFabric [OF r]
    by (simp add: serviceRoutes_def pendingOk_def handlesOk_def handlesAreRoutes_def pendingChannels_def)
  then show ?thesis using r by simp
qed

text \<open>A run in which no start fails: one that fails while it drains leaves routes both pending and
  registered.\<close>

definition orderly :: "platformEnv \<Rightarrow> platform \<Rightarrow> platform \<Rightarrow> bool" where
  "orderly env p q \<longleftrightarrow> platformTrans env p q \<and> (\<forall>inp e. StartServer env inp p \<noteq> (q, StartFailed e))"

lemma kept_view: "serviceRoutes p \<Longrightarrow> routesView q = routesView p \<Longrightarrow> serviceRoutes q"
  using serviceRoutes_view by blast

lemma orderly_ok: "orderly env p q \<Longrightarrow> serviceRoutes p \<Longrightarrow> serviceRoutes q"
proof -
  assume o: "orderly env p q" and p: "serviceRoutes p"
  have "platformTrans env p q" using o by (simp add: orderly_def)
  then show "serviceRoutes q"
  proof (cases rule: platformTrans.cases)
    case (starts inp out)
    then have "\<And>e. out \<noteq> StartFailed e" using o by (auto simp: orderly_def)
    then show ?thesis using StartServer_routes(1) [OF p starts(1)] by blast
  next
    case (fabric_moves f e enc dec)
    then show ?thesis using fabric_moves_ok [OF p] by simp
  next
    case (stops newId)
    have "serviceRoutes (announceOnline newId False p)" by (rule kept_view [OF p]) (simp add: announceOnline_def)
    then show ?thesis using StopServer_ok stops by (simp add: stopRequested_def)
  qed (use p in \<open>auto intro: platformRegisterService_ok platformUnregisterService_ok kept_view [OF p] routesView_handleSetup
         routesView_static routesView_middleware simp: serverOnline_def announceOnline_def serveFailed_def\<close>)
qed

interpretation routes: stepper "orderly env" serviceRoutes for env
  by unfold_locales (rule orderly_ok)

lemma initialize_routes:
  assumes "initialize env inp cfg = Some p"
  shows "pl_pendingRoutes p = [] \<and> pl_routeHandles p = gm_empty \<and> pl_fabric p = None"
proof -
  have dirs: "staticDirs env ds a = Some b \<Longrightarrow> routesView b = routesView a" for ds a b
    by (induction ds arbitrary: a) (auto split: option.splits prod.splits dest!: routesView_static)
  obtain p1 where p1: "staticDirs env (cf_StaticDir cfg) (emptyPlatform env inp cfg) = Some p1"
    using assms by (auto simp: initialize_def split: option.splits)
  let ?v = "\<lambda>p. (pl_pendingRoutes p, pl_routeHandles p, pl_fabric p)"
  have v1: "?v p1 = ([], gm_empty, None)"
    using dirs [OF p1] by (simp add: routesView_def emptyPlatform_def Let_def)
  obtain p2 e where p2: "onRegistry (RegisterService (in_restIds inp) (Some (in_restService inp)) RestServiceChannel) p1 = (p2, e)"
    by fastforce
  obtain p3 where p3: "listenLifecycle (in_lcmIds inp) p2 = Some p3"
    using assms p1 p2 by (auto simp: initialize_def Let_def split: option.splits)
  have "?v p3 = ([], gm_empty, None)"
    using v1 onRegistry_fields [OF p2] p3 by (auto simp: listenLifecycle_def setBus_def split: prod.splits sum.splits)
  then show ?thesis using assms p1 p2 p3
    by (auto simp: initialize_def configureFabric_def onPlatformBus_def setBus_def setRouterAt_def Let_def
        split: option.splits if_splits)
qed


text \<open>C16: A start that serves, in such a run, has registered every pending route with the new endpoint:
  nothing is pending, and each channel's handle is the endpoint's route for it.\<close>

theorem start_registers_pending:
  assumes "initialize env inp cfg = Some p0" and "(orderly env)\<^sup>*\<^sup>* p0 p"
    and "StartServer env inp' p = (q, Serving)" and "cf_FabricConfig (pl_config q) \<noteq> None"
  shows "allRouted (pendingChannels p) q"
proof -
  have "serviceRoutes p0"
    using initialize_routes [OF assms(1)]
    by (simp add: serviceRoutes_def pendingOk_def handlesOk_def handlesAreRoutes_def pendingChannels_def)
  then have "serviceRoutes p" by (rule routes.inv_star [OF assms(2)])
  then show ?thesis using StartServer_routes(2) [OF _ assms(3)] assms(4) by simp
qed

subsection \<open>A server with an endpoint\<close>

definition demoBroker :: fabricBrokerConfig where
  "demoBroker = \<lparr>fb_FabricEndpoint = ''/ws'', fb_UseTCP = False, fb_TCPPort = 0, fb_EndpointConfig = Some sampleEndpoint\<rparr>"

definition fabricServer :: platform where
  "fabricServer = the (initialize demoPlatformEnv demoInit (zeroServerConfig\<lparr>cf_FabricConfig := Some demoBroker\<rparr>))"

lemma fabricServer_init:
  "initialize demoPlatformEnv demoInit (zeroServerConfig\<lparr>cf_FabricConfig := Some demoBroker\<rparr>) = Some fabricServer"
proof -
  have "\<not> Option.is_none (initialize demoPlatformEnv demoInit (zeroServerConfig\<lparr>cf_FabricConfig := Some demoBroker\<rparr>))"
    by code_simp
  then show ?thesis by (auto simp: fabricServer_def Option.is_none_def)
qed

definition withService :: platform where
  "withService = fst (platformRegisterService demoPlatformEnv demoSvcIds plainIds (Some (plainService 3 None False)) ''svc'' fabricServer)"

lemma failed_start_handler:
  assumes "StartServer env inp p = (q, StartFailed e)" and "cf_SpaConfig (pl_config p) = None"
  shows "pl_httpHandler q \<noteq> None"
proof -
  let ?l = "loadGlobalHttpHandler (pl_router p) p"
  have "configureSPA env ?l = Some ?l" using assms(2) by (simp add: configureSPA_def loadGlobalHttpHandler_def)
  then have "routing q = routing ?l"
    using assms(1) routing_startFabric [of inp _ "?l\<lparr>pl_availableHttp := True\<rparr>"]
    by (auto simp: StartServer_def Let_def split: option.splits if_splits) (metis fst_conv routing_fields(7))+
  then show ?thesis by (simp add: routing_def loadGlobalHttpHandler_def)
qed

lemma withService_reached: "(orderly demoPlatformEnv)\<^sup>*\<^sup>* fabricServer withService"
proof -
  have "Option.is_none (pl_httpHandler withService)" "Option.is_none (cf_SpaConfig (pl_config fabricServer))" by code_simp+
  then have "pl_httpHandler withService = None" "cf_SpaConfig (pl_config fabricServer) = None"
    by (simp_all add: Option.is_none_def)
  then have "StartServer demoPlatformEnv inp fabricServer \<noteq> (withService, StartFailed e)" for inp e
    using failed_start_handler by blast
  moreover have "platformTrans demoPlatformEnv fabricServer withService"
    unfolding withService_def by (rule platformTrans.registers)
  ultimately have "orderly demoPlatformEnv fabricServer withService" by (simp add: orderly_def)
  then show ?thesis by (rule r_into_rtranclp)
qed

lemma withService_pending: "pendingChannels withService = [''svc'']" by code_simp


definition startedService :: platform where
  "startedService = fst (StartServer demoPlatformEnv demoStart withService)"

lemma startedService_serves: "StartServer demoPlatformEnv demoStart withService = (startedService, Serving)"
proof -
  have "snd (StartServer demoPlatformEnv demoStart withService) = Serving" by code_simp
  then show ?thesis by (simp add: startedService_def prod_eq_iff)
qed

lemma start_registers_pending_witness:
  "pl_pendingRoutes startedService = [] \<and>
     (\<exists>f h. pl_fabric startedService = Some f \<and> gm_get (fa_routes f) ''svc'' = Some h)"
proof -
  have "\<not> Option.is_none (cf_FabricConfig (pl_config startedService))" by code_simp
  then show ?thesis
    using start_registers_pending [OF fabricServer_init withService_reached startedService_serves]
    by (auto simp: allRouted_def withService_pending Option.is_none_def)
qed

end
