(* ===== verification/SetupFacts.thy ===== *)
theory SetupFacts
  imports ServiceRoutes
begin

text \<open>
  Where two steps of the server that belong together are apart: the registration of a service and the
  handling of its setup, the setting of middleware and its removal, with another operation in between.
\<close>

subsection \<open>A service that is gone before its setup\<close>

lemma readyStore_keeps [simp]:
  "pl_readyStore (onBridges g p) = pl_readyStore p" "pl_readyStore (overrideService ch p) = pl_readyStore p"
  "pl_registry (overrideService ch p) = pl_registry p"
  by (simp_all add: onBridges_def setBus_def setRouterAt_def overrideService_def clearHttpChannelBridgesForService_def
      loadGlobalHttpHandler_def Let_def case_prod_beta)

lemma readyStore_setupBridges [simp]: "pl_readyStore (setupBridges env ids cs p) = pl_readyStore p"
  by (induction cs arbitrary: p) (simp_all add: SetHttpChannelBridge_def)

lemma readyStore_onFabric: "onFabric g f p = (q, x) \<Longrightarrow> pl_readyStore q = pl_readyStore p"
  by (auto simp: onFabric_def setBus_def Let_def split: prod.splits option.splits)

lemma readyStore_registerOrPend: "registerOrPendRoute ids ch p = (q, e) \<Longrightarrow> pl_readyStore q = pl_readyStore p"
  by (auto simp: registerOrPendRoute_def Let_def split: option.splits prod.splits sum.splits dest: readyStore_onFabric)

lemma readyStore_unregister: "platformUnregisterService ch p = (q, e) \<Longrightarrow> pl_readyStore q = pl_readyStore p"
proof -
  assume u: "platformUnregisterService ch p = (q, e)"
  obtain p1 e1 where r: "onRegistry (UnregisterService ch) p = (p1, e1)" by fastforce
  have s: "pl_readyStore p1 = pl_readyStore p" using onRegistry_fields [OF r] by simp
  have "pl_readyStore (fst (onFabric g f p1')) = pl_readyStore p1'" for g :: "fabric \<Rightarrow> fabric \<times> unit" and f p1'
    using readyStore_onFabric [of g f p1'] by (metis prod.collapse)
  then show ?thesis using u r s
    by (auto simp: platformUnregisterService_def Let_def split: option.splits if_splits)
qed

lemma unregistered_after: "platformUnregisterService ch p = (q, None) \<Longrightarrow> \<not> registered ch q"
proof -
  assume u: "platformUnregisterService ch p = (q, None)"
  obtain p1 e1 where r: "onRegistry (UnregisterService ch) p = (p1, e1)" by fastforce
  have e1: "e1 = None" using u r by (cases e1) (simp_all add: platformUnregisterService_def)
  have gone: "gm_get (rg_services (pl_registry p1)) ch = None"
    using UnregisterService_services [OF conjunct1 [OF onRegistry_fields [OF r]]] e1 by simp
  have "rg_services (pl_registry (fst (onFabric g f p1'))) = rg_services (pl_registry p1')"
    for g :: "fabric \<Rightarrow> fabric \<times> unit" and f p1'
  proof -
    obtain q' x where r': "onFabric g f p1' = (q', x)" by (rule prod.exhaust)
    show ?thesis using onFabric_fields [OF r'] r' by auto
  qed
  then show ?thesis using u r e1 gone
    by (auto simp: platformUnregisterService_def registered_def Let_def split: option.splits if_splits)
qed

lemma setup_of_unknown_panics:
  assumes "\<not> registered ch p" and "\<not> markedReady ch p" and "m_Payload msg = GSetupREST ch ov cs"
  shows "handleSetup env ids msg p = None"
proof -
  have "GetService ch (pl_registry p) = Inl (''fabric service not found at channel '' @ ch)"
    using assms(1) by (simp add: GetService_def registered_def)
  then show ?thesis using assms(2,3)
    by (simp add: handleSetup_def GetOnReadyCapableService_def markedReady_def overrideService_def [unfolded Let_def, symmetric] Let_def)
qed

text \<open>A service with a hook for its readiness that is unregistered before the lifecycle handler takes
  its setup message makes the handler panic: the service is looked up again, is not found, and its
  type is asked for all the same.\<close>

theorem setup_after_unregister_panics:
  assumes "platformRegisterService env ids fids (Some svc) ch p = (p1, None)" and "sc_onReady svc"
    and "\<not> markedReady ch p" and "platformUnregisterService ch p1 = (p2, None)"
    and "m_Payload msg = GSetupREST ch ov cs"
  shows "handleSetup env ids' msg p2 = None"
proof -
  obtain q e where q: "onRegistry (RegisterService ids (Some svc) ch) p = (q, e)" by fastforce
  note f = onRegistry_fields [OF q]
  have e: "e = None" using assms(1) q by (cases e) (simp_all add: platformRegisterService_def)
  then obtain sw where "sw_service sw = svc" "rg_services (pl_registry q) = gm_set ch sw (rg_services (pl_registry p))"
    using RegisterService_services [OF conjunct1 [OF f]] by auto
  then have "GetOnReadyCapableService ch (pl_registry q) \<noteq> None"
    using assms(2) by (simp add: GetOnReadyCapableService_def GetService_def)
  then have "registerOrPendRoute fids ch q = (p1, None)"
    using assms(1) q e by (auto simp: platformRegisterService_def Let_def split: prod.splits option.splits)
  then have "pl_readyStore p2 = pl_readyStore p"
    using f readyStore_registerOrPend readyStore_unregister [OF assms(4)] by metis
  then have "\<not> markedReady ch p2" using assms(3) by (simp add: markedReady_def)
  then show ?thesis by (rule setup_of_unknown_panics [OF unregistered_after [OF assms(4)] _ assms(5)])
qed

subsection \<open>Middleware and an override\<close>

lemma originals_keep [simp]:
  "pl_originalHandlers (onBridges g p) = pl_originalHandlers p"
  "pl_originalHandlers (overrideService ch p) = pl_originalHandlers p"
  by (simp_all add: onBridges_def setBus_def setRouterAt_def overrideService_def clearHttpChannelBridgesForService_def
      loadGlobalHttpHandler_def Let_def case_prod_beta)

text \<open>A route that is found under a name of a server in order.\<close>

lemma found_route:
  assumes "platformOk p" and "endpointServed (bridgesView p) key"
  obtains k h where "GetRouteByUri key (managerView p) = Inr k" "Routing.GetName k (mm_router (managerView p)) = key"
    "gm_get (rb_endpointHandlerMap (pl_bridges p)) key = Some h" "mm_endpointHandlerMap (managerView p) = rb_endpointHandlerMap (pl_bridges p)"
    "mm_originalHandlersMap (managerView p) = pl_originalHandlers p"
proof -
  have agree: "routersAgree p" using assms(1) by (simp add: platformOk_def)
  obtain h k where "gm_get (rb_endpointHandlerMap (bridgesView p)) key = Some h" "RouterGet key (rb_router (bridgesView p)) = Some k"
      "Routing.GetName k (rb_router (bridgesView p)) = key"
    using assms(2) by (auto simp: endpointServed_def)
  then show ?thesis using that [of k h] view_manager [OF agree]
    by (simp add: GetRouteByUri_def managerView_def bridgesView_def)
qed

lemma set_backs_up:
  assumes ok: "platformOk p" and served: "endpointServed (bridgesView p) key" and set: "setMiddlewareAt key ms p = Some q"
    and free: "gm_get (pl_originalHandlers p) key = None"
  shows "gm_get (pl_originalHandlers q) key = gm_get (rb_endpointHandlerMap (pl_bridges p)) key"
proof -
  obtain k h where k: "GetRouteByUri key (managerView p) = Inr k" "Routing.GetName k (mm_router (managerView p)) = key"
    "gm_get (rb_endpointHandlerMap (pl_bridges p)) key = Some h" "mm_endpointHandlerMap (managerView p) = rb_endpointHandlerMap (pl_bridges p)"
    "mm_originalHandlersMap (managerView p) = pl_originalHandlers p"
    using found_route [OF ok served] by metis
  obtain m e where m: "SetNewMiddleware (Some k) ms (managerView p) = Some (m, e)" "q = putManager m p"
    using set k(1) by (auto simp: setMiddlewareAt_def)
  obtain key' where "middlewareKey k (managerView p) = Some key'" using m(1) by (auto simp: SetNewMiddleware_def split: option.splits)
  then have key: "middlewareKey k (managerView p) = Some key" using middlewareKey_name k(2) by auto
  have "gm_get (mm_originalHandlersMap m) key = Some h"
    using m(1) key k(3-5) free by (auto simp: SetNewMiddleware_def Let_def split: option.splits handlerVal.splits)
  then show ?thesis using k(3) m(2) by (simp add: putManager_def setRouterAt_def)
qed

lemma remove_restores_backup:
  assumes ok: "platformOk p" and served: "endpointServed (bridgesView p) key" and rem: "removeMiddlewareAt key p = Some q"
    and "gm_get (pl_originalHandlers p) key = Some h0"
  shows "gm_get (rb_endpointHandlerMap (pl_bridges q)) key = Some h0"
proof -
  obtain k h where k: "GetRouteByUri key (managerView p) = Inr k" "Routing.GetName k (mm_router (managerView p)) = key"
    "gm_get (rb_endpointHandlerMap (pl_bridges p)) key = Some h" "mm_endpointHandlerMap (managerView p) = rb_endpointHandlerMap (pl_bridges p)"
    "mm_originalHandlersMap (managerView p) = pl_originalHandlers p"
    using found_route [OF ok served] by metis
  obtain m e where m: "RemoveMiddleware (Some k) (managerView p) = Some (m, e)" "q = putManager m p"
    using rem k(1) by (auto simp: removeMiddlewareAt_def)
  obtain uri verb where u: "extractUriVerbFromRoute k (managerView p) = Some (uri, verb)"
    using m(1) by (auto simp: RemoveMiddleware_def split: option.splits)
  have key: "uri @ CHR ''-'' # verb = key" using extract_name [OF u] k(2) by simp
  have "gm_get (mm_endpointHandlerMap m) key = Some h0"
    using m(1) u k(3-5) assms(4) by (auto simp: RemoveMiddleware_def key Let_def)
  then show ?thesis using m(2) by (simp add: putManager_def setRouterAt_def)
qed

lemma setup_with_override:
  assumes ok: "platformOk p" and handled: "handleSetup env ids msg p = Some q" and pay: "m_Payload msg = GSetupREST ch True [i]"
    and c: "pe_configs env i = Some c" "bc_ServiceChannel c = ch" "key = bridgeEndpointHandlerKey c HttpBridgeExact"
    and known: "gm_get (rb_messageBridgeMap (pl_bridges p)) ch = Some n" and key: "key \<in> set (endpointsOf ch (pl_bridges p))"
  shows "pl_originalHandlers q = pl_originalHandlers p" and "platformOk q" and "endpointServed (bridgesView q) key"
    and "gm_get (rb_endpointHandlerMap (pl_bridges q)) key =
       Some (pe_build env ch (bc_FabricRequestBuilder c) (rb_bridgeTimeout (pl_bridges p)) n)"
proof -
  let ?o = "overrideService ch p" and ?p2 = "SetHttpChannelBridge env ids (Some c) (overrideService ch p)"
  have q: "q = ?p2 \<or> q = ?p2\<lparr>pl_waitingReady := pl_waitingReady ?p2 @ [ch]\<rparr>"
    using handled pay c(1) by (auto simp: handleSetup_def overrideService_def Let_def split: if_splits sum.splits prod.splits)
  show "pl_originalHandlers q = pl_originalHandlers p" using q by (auto simp: SetHttpChannelBridge_def)
  show "platformOk q" by (rule handleSetup_ok [OF ok handled])
  have agree: "routersAgree ?o" using overrideService_ok [OF ok] by (simp add: platformOk_def)
  let ?s = "overrideBridges ch (bridgesView p)"
  have v: "bridgesView q = setBridge (pe_build env) ids (Some c) HttpBridgeExact ?s"
    using q view_onBridges [OF agree, of "SetExact (pe_build env) ids (Some c)"] view_overrideService [of ch p]
    by (auto simp: SetHttpChannelBridge_def SetExact_def bridgesView_def routerAt_def busOf_def)
  have free: "gm_get (rb_endpointHandlerMap ?s) key = None"
    using key by (simp add: override_sel bridgesView_def endpointsOf_def)
  have k: "gm_get (rb_messageBridgeMap ?s) ch = Some n" "rb_bridgeTimeout ?s = rb_bridgeTimeout (pl_bridges p)"
    using known by (simp_all add: overrideBridges_def ClearForService_def bridgesSetRouter_def bridgesView_def Let_def)
  let ?h = "pe_build env ch (bc_FabricRequestBuilder c) (rb_bridgeTimeout (pl_bridges p)) n"
  let ?u = "?s\<lparr>rb_serviceChanToBridgeEndpoints := gm_set ch (endpointsOf ch ?s) (rb_serviceChanToBridgeEndpoints ?s)\<rparr>"
  have t: "bridgesView q = addEndpoint c HttpBridgeExact ?h ?u"
    unfolding v using setBridge_known [of ?s c n HttpBridgeExact "pe_build env" ids] k free c(2,3) by simp
  have "registryOk ?s" using ok by (simp add: platformOk_def registryOk_override)
  moreover have "endpointsOf x ?u = endpointsOf x ?s" for x by (simp add: endpointsOf_def)
  ultimately have "registryOk ?u" using registryOk_cong [of ?u ?s] by simp
  then show "endpointServed (bridgesView q) key"
    using registryOk_add(2) [of ?u c HttpBridgeExact ?h] free c(3) by (simp add: t)
  have "gm_get (rb_endpointHandlerMap (bridgesView q)) key = Some ?h" by (simp add: t addEndpoint_def c(3) Let_def)
  then show "gm_get (rb_endpointHandlerMap (pl_bridges q)) key = Some ?h" by (simp add: bridgesView_def)
qed

text \<open>C29: The backup that the middleware manager took before a service was set up again is kept: when
  middleware is taken off the endpoint afterwards, the endpoint goes back to the handler of the old
  configuration, not to the one that the new setup installed.\<close>

theorem stale_backup_after_override:
  assumes "initialize env inp cfg = Some p0" and "distinct (dirKeys cfg)" and "(platformTrans env)\<^sup>*\<^sup>* p0 p"
    and "pe_configs env i = Some c" and "bc_ServiceChannel c = ch" and "key = bridgeEndpointHandlerKey c HttpBridgeExact"
    and "key \<in> set (endpointsOf ch (pl_bridges p))" and "gm_get (rb_messageBridgeMap (pl_bridges p)) ch = Some n"
    and "gm_get (pl_originalHandlers p) key = None"
    and "setMiddlewareAt key ms p = Some p1"
    and "handleSetup env ids msg p1 = Some p2" and "m_Payload msg = GSetupREST ch True [i]"
    and "removeMiddlewareAt key p2 = Some p3"
  shows "gm_get (rb_endpointHandlerMap (pl_bridges p2)) key =
       Some (pe_build env ch (bc_FabricRequestBuilder c) (rb_bridgeTimeout (pl_bridges p)) n) \<and>
     gm_get (rb_endpointHandlerMap (pl_bridges p3)) key = gm_get (rb_endpointHandlerMap (pl_bridges p)) key"
proof -
  have ok: "platformOk p" by (rule server.inv_star [OF assms(3) initialize_ok [OF assms(1,2)]])
  have ok1: "platformOk p1" by (rule setMiddlewareAt_ok [OF ok assms(10)])
  have e: "endpointsOf ch (bridgesView p) = endpointsOf ch (pl_bridges p)" by (simp add: bridgesView_def endpointsOf_def)
  have served: "endpointServed (bridgesView p) key"
    using ok assms(7) e unfolding platformOk_def registryOk_def by metis
  have b: "gm_get (pl_originalHandlers p1) key = gm_get (rb_endpointHandlerMap (pl_bridges p)) key"
    by (rule set_backs_up [OF ok served assms(10,9)])
  have keep: "rb_serviceChanToBridgeEndpoints (pl_bridges p1) = rb_serviceChanToBridgeEndpoints (pl_bridges p)"
      "rb_messageBridgeMap (pl_bridges p1) = rb_messageBridgeMap (pl_bridges p)"
      "rb_bridgeTimeout (pl_bridges p1) = rb_bridgeTimeout (pl_bridges p)"
    using assms(10) by (auto simp: setMiddlewareAt_def putManager_def setRouterAt_def split: sum.splits)
  then have "key \<in> set (endpointsOf ch (pl_bridges p1))" "gm_get (rb_messageBridgeMap (pl_bridges p1)) ch = Some n"
    using assms(7,8) by (simp_all add: endpointsOf_def)
  note s = setup_with_override [OF ok1 assms(11,12,4,5,6) this(2,1)]
  obtain h0 where h0: "gm_get (rb_endpointHandlerMap (pl_bridges p)) key = Some h0"
    using served by (auto simp: endpointServed_def bridgesView_def)
  then have "gm_get (rb_endpointHandlerMap (pl_bridges p3)) key = Some h0"
    using remove_restores_backup [OF s(2,3) assms(13)] s(1) b by simp
  then show ?thesis using s(4) h0 keep(3) by simp
qed

subsection \<open>The two at work\<close>

definition demoSetupMsg :: "string \<Rightarrow> bool \<Rightarrow> nat list \<Rightarrow> message" where
  "demoSetupMsg ch ov cs = GenerateResponse 12 (buildConfig 12 LifecycleManagerChannelName (GSetupREST ch ov cs) (Some 1))"

lemma demoSetupMsg_payload [simp]: "m_Payload (demoSetupMsg ch ov cs) = GSetupREST ch ov cs"
  by (simp add: demoSetupMsg_def GenerateResponse_def buildConfig_def)

definition hookedServer :: platform where
  "hookedServer = fst (platformRegisterService demoPlatformEnv demoSvcIds plainIds (Some (plainService 5 (Some [1]) True)) ''svc'' demoServer)"

definition leftServer :: platform where "leftServer = fst (platformUnregisterService ''svc'' hookedServer)"

lemma setup_after_unregister_panics_witness:
  "handleSetup demoPlatformEnv demoSvcIds (demoSetupMsg ''svc'' False [1]) leftServer = None"
proof -
  have "Option.is_none (snd (platformRegisterService demoPlatformEnv demoSvcIds plainIds (Some (plainService 5 (Some [1]) True)) ''svc'' demoServer))"
    "Option.is_none (snd (platformUnregisterService ''svc'' hookedServer))" "Option.is_none (Get ''svc'' (pl_readyStore demoServer))"
    by code_simp+
  then have "platformRegisterService demoPlatformEnv demoSvcIds plainIds (Some (plainService 5 (Some [1]) True)) ''svc'' demoServer = (hookedServer, None)"
    "platformUnregisterService ''svc'' hookedServer = (leftServer, None)" "\<not> markedReady ''svc'' demoServer"
    by (simp_all add: hookedServer_def leftServer_def prod_eq_iff Option.is_none_def markedReady_def)
  then show ?thesis using setup_after_unregister_panics [of demoPlatformEnv demoSvcIds plainIds _ "''svc''" demoServer]
    by (simp add: plainService_def)
qed

text \<open>A handler that tells the builder of its configuration.\<close>

definition tellingBuild :: buildHandlerFunc where
  "tellingBuild ch b timeout n req w =
     map_option (\<lambda>r. writeBody (if rq_Id r = Some 2 then ''old'' else ''new'') w) (snd (b req w))"

definition tellingEnv :: platformEnv where
  "tellingEnv = demoPlatformEnv\<lparr>pe_build := tellingBuild\<rparr>"

definition tellingServer :: platform where
  "tellingServer = the (initialize tellingEnv demoInit zeroServerConfig)"

lemma tellingServer_init: "initialize tellingEnv demoInit zeroServerConfig = Some tellingServer"
proof -
  have "\<not> Option.is_none (initialize tellingEnv demoInit zeroServerConfig)" by code_simp
  then show ?thesis by (auto simp: tellingServer_def Option.is_none_def)
qed

definition firstConfig :: restBridgeConfig where
  "firstConfig = (demoConfig ''svc'' ''/a'')\<lparr>bc_FabricRequestBuilder := demoBuilder 2\<rparr>"

definition bridgedServer :: platform where
  "bridgedServer = SetHttpChannelBridge tellingEnv demoSvcIds (Some firstConfig)
     (fst (platformRegisterService tellingEnv demoSvcIds plainIds (Some (plainService 3 None False)) ''svc'' tellingServer))"

definition wrappedServer :: platform where
  "wrappedServer = the (setMiddlewareAt ''/a-GET'' [BasicSecurityHeaderMiddleware] bridgedServer)"

definition overriddenServer :: platform where
  "overriddenServer = the (handleSetup tellingEnv demoSvcIds (demoSetupMsg ''svc'' True [1]) wrappedServer)"

definition unwrappedServer :: platform where
  "unwrappedServer = the (removeMiddlewareAt ''/a-GET'' overriddenServer)"

definition answers :: "platform \<Rightarrow> httpWriter option option" where
  "answers p = map_option (\<lambda>h. h demoGet freshWriter) (gm_get (rb_endpointHandlerMap (pl_bridges p)) ''/a-GET'')"

lemma stale_backup_after_override_witness:
  "answers overriddenServer = Some (Some (writeBody ''new'' freshWriter)) \<and>
   answers unwrappedServer = Some (Some (writeBody ''old'' freshWriter))"
proof -
  have reached: "(platformTrans tellingEnv)\<^sup>*\<^sup>* tellingServer bridgedServer"
    unfolding bridgedServer_def
    by (rule converse_rtranclp_into_rtranclp, rule platformTrans.registers, rule r_into_rtranclp, rule platformTrans.bridges)
  have steps: "\<not> Option.is_none (setMiddlewareAt ''/a-GET'' [BasicSecurityHeaderMiddleware] bridgedServer)"
    "\<not> Option.is_none (handleSetup tellingEnv demoSvcIds (demoSetupMsg ''svc'' True [1]) wrappedServer)"
    "\<not> Option.is_none (removeMiddlewareAt ''/a-GET'' overriddenServer)"
    by code_simp+
  have before: "answers bridgedServer = Some (Some (writeBody ''old'' freshWriter))"
    "''/a-GET'' \<in> set (endpointsOf ''svc'' (pl_bridges bridgedServer))"
    "gm_get (rb_messageBridgeMap (pl_bridges bridgedServer)) ''svc'' = Some 0"
    "Option.is_none (gm_get (pl_originalHandlers bridgedServer) ''/a-GET'')" "distinct (dirKeys zeroServerConfig)"
    by code_simp+
  have config: "pe_configs tellingEnv 1 = Some (demoConfig ''svc'' ''/a'')" by (simp add: tellingEnv_def demoPlatformEnv_def)
  have "gm_get (rb_endpointHandlerMap (pl_bridges overriddenServer)) ''/a-GET'' =
       Some (pe_build tellingEnv ''svc'' (bc_FabricRequestBuilder (demoConfig ''svc'' ''/a''))
         (rb_bridgeTimeout (pl_bridges bridgedServer)) 0) \<and>
     gm_get (rb_endpointHandlerMap (pl_bridges unwrappedServer)) ''/a-GET'' =
       gm_get (rb_endpointHandlerMap (pl_bridges bridgedServer)) ''/a-GET''"
    by (rule stale_backup_after_override [OF tellingServer_init before(5) reached config, where ids = demoSvcIds and
          msg = "demoSetupMsg ''svc'' True [1]" and ms = "[BasicSecurityHeaderMiddleware]" and ?p1.0 = wrappedServer])
      (use steps before in \<open>auto simp: demoKey wrappedServer_def overriddenServer_def unwrappedServer_def Option.is_none_def\<close>)
  then show ?thesis using before(1)
    by (simp add: answers_def tellingEnv_def tellingBuild_def demoConfig_def demoBuilder_def)
qed

end
