(* ===== verification/WsListener.thy ===== *)
theory WsListener
  imports Http
begin

text \<open>
  stompserver/websocket_connection_listener.go, raw_connection.go and constants.go: the listener that
  upgrades HTTP requests to WebSocket connections and hands them to \<open>Accept\<close> over unbuffered channels.
  The handler of a request and the goroutines it starts are threads, which wait at a channel until
  somebody receives; connections are named by the order in which they were upgraded. The upgrade
  itself, the parsing of an origin and of cookies and the checker of addresses are of libraries or of
  the server's user: their answers are arguments. Reading and writing of frames goes straight to the
  WebSocket and, like the loggers, is left out.
\<close>

subsection \<open>Requests\<close>

definition HeaderXSessionID :: string where "HeaderXSessionID = ''X-Session-Id''"
definition HeaderConnection :: string where "HeaderConnection = ''Connection''"
definition HeaderUpgrade :: string where "HeaderUpgrade = ''Upgrade''"
definition HeaderUpgradeValue :: string where "HeaderUpgradeValue = ''websocket''"

text \<open>The host that the request names, the cookie \<open>session\<close>, and the host that \<open>url.Parse\<close> finds in the
  first origin, if it parses.\<close>

record wsRequest = httpRequest +
  wq_Host :: string
  wq_SessionCookie :: "string option"
  wq_OriginHost :: "string option"

definition isWebSocketUpgrade :: "wsRequest \<Rightarrow> bool" where
  "isWebSocketUpgrade r \<longleftrightarrow>
     strContains (headerGet HeaderConnection (hq_Header r)) HeaderUpgrade \<and>
     headerGet HeaderUpgrade (hq_Header r) = HeaderUpgradeValue"

definition extractSessionID :: "wsRequest \<Rightarrow> string" where
  "extractSessionID r =
     (let i = headerGet HeaderXSessionID (hq_Header r) in
      if i \<noteq> [] then i else (case wq_SessionCookie r of Some c \<Rightarrow> c | None \<Rightarrow> []))"

text \<open>\<open>strings.EqualFold\<close> for ASCII.\<close>

definition EqualFold :: "string \<Rightarrow> string \<Rightarrow> bool" where
  "EqualFold s t \<longleftrightarrow> map lowerChar s = map lowerChar t"

definition checkOrigin :: "string list \<Rightarrow> wsRequest \<Rightarrow> bool" where
  "checkOrigin allowedOrigins r =
     (if allowedOrigins = [] then True
      else if map_of (hq_Header r) ''Origin'' = None then True
      else (case wq_OriginHost r of
              None \<Rightarrow> False
            | Some h \<Rightarrow> if EqualFold h (wq_Host r) then True
                        else list_ex (\<lambda>a. EqualFold h a) allowedOrigins))"

subsection \<open>State\<close>

text \<open>A checker is an object of the user's with a state of its own. The address that it finds behind a
  request is a function of it; whether it blocks an address may differ from call to call, with what it
  was told to track, with time or by hand, so that each answer of \<open>IsIPBlocked\<close> is an argument of
  the step that asks: the reason, or \<open>None\<close> when the address is not blocked. The listener keeps logs of the
  questions with their answers and of what the checker was told.\<close>

record ipChecker =
  ck_realIP :: "string \<Rightarrow> httpHeader \<Rightarrow> string"

datatype rawConnResult = RcConn nat | RcErr err

text \<open>\<open>wl_failed\<close> lists the requests whose upgrade failed, \<open>wl_closeRun\<close> the connections whose close
  handler has run, \<open>wl_broken\<close> those whose reader has ended without a close frame. A thread offers a result to \<open>Accept\<close>, then, if the lifecycle is told, announces the connection; the
  reader of a connection whose close frame has come announces its end. The request is the one that a
  custom function gets when the thread is a handler.\<close>

datatype wsThread =
    WtOffer rawConnResult "string option" "wsRequest option"
  | WtOpen string "wsRequest option"
  | WtClose string

record wsListener =
  wl_emitLifecycle :: bool
  wl_asyncAccept :: bool
  wl_customSocketFunc :: bool
  wl_allowedOrigins :: "string list"
  wl_checker :: "ipChecker option"
  wl_conns :: "wsRequest list"
  wl_threads :: "wsThread list"
  wl_answers :: "(wsRequest \<times> nat) list"
  wl_custom :: "wsRequest list"
  wl_tracked :: "(string \<times> string) list"
  wl_untracked :: "(string \<times> string) list"
  wl_accepted :: "rawConnResult list"
  wl_opened :: "string list"
  wl_closed :: "string list"
  wl_failed :: "wsRequest list"
  wl_closeRun :: "nat list"
  wl_broken :: "nat list"
  wl_asked :: "(wsRequest \<times> string option) list"

definition NewWebSocketConnectionFromExistingHttpServer :: "string list \<Rightarrow> bool \<Rightarrow> wsListener" where
  "NewWebSocketConnectionFromExistingHttpServer origins custom =
     \<lparr>wl_emitLifecycle = True, wl_asyncAccept = True, wl_customSocketFunc = custom, wl_allowedOrigins = origins,
      wl_checker = None, wl_conns = [], wl_threads = [], wl_answers = [], wl_custom = [], wl_tracked = [],
      wl_untracked = [], wl_accepted = [], wl_opened = [], wl_closed = [], wl_failed = [], wl_closeRun = [],
      wl_broken = [], wl_asked = []\<rparr>"

text \<open>\<open>listen\<close> is the error of \<open>net.Listen\<close>.\<close>

definition NewWebSocketConnectionListener :: "string list \<Rightarrow> err option \<Rightarrow> wsListener res" where
  "NewWebSocketConnectionListener origins listen =
     (case listen of
        Some e \<Rightarrow> Inl e
      | None \<Rightarrow> Inr ((NewWebSocketConnectionFromExistingHttpServer origins False)
                  \<lparr>wl_emitLifecycle := False, wl_asyncAccept := False\<rparr>))"

definition SetIPBlockingChecker :: "ipChecker option \<Rightarrow> wsListener \<Rightarrow> wsListener" where
  "SetIPBlockingChecker c l = l\<lparr>wl_checker := c\<rparr>"

subsection \<open>A request\<close>

definition answer :: "wsRequest \<Rightarrow> nat \<Rightarrow> wsListener \<Rightarrow> wsListener" where
  "answer r status l = l\<lparr>wl_answers := wl_answers l @ [(r, status)]\<rparr>"

definition sessionOf :: "ipChecker \<Rightarrow> wsRequest \<Rightarrow> string \<times> string" where
  "sessionOf c r = (ck_realIP c (hq_RemoteAddr r) (hq_Header r), extractSessionID r)"

text \<open>\<open>verdict\<close> is what the checker answers, if it is asked.\<close>

definition allowRequest :: "string option \<Rightarrow> wsRequest \<Rightarrow> wsListener \<Rightarrow> wsListener \<times> bool" where
  "allowRequest verdict r l =
     (case wl_checker l of
        None \<Rightarrow> (l, True)
      | Some c \<Rightarrow>
          (let l1 = l\<lparr>wl_asked := wl_asked l @ [(r, verdict)]\<rparr> in
           case verdict of
             Some reason \<Rightarrow> (answer r 403 l1, False)
           | None \<Rightarrow> (l1\<lparr>wl_tracked := wl_tracked l1 @ [sessionOf c r]\<rparr>, True)))"

definition startThread :: "wsThread \<Rightarrow> wsListener \<Rightarrow> wsListener" where
  "startThread t l = l\<lparr>wl_threads := wl_threads l @ [t]\<rparr>"

definition callCustom :: "wsRequest option \<Rightarrow> wsListener \<Rightarrow> wsListener" where
  "callCustom r l = (case r of None \<Rightarrow> l | Some q \<Rightarrow> l\<lparr>wl_custom := wl_custom l @ [q]\<rparr>)"

text \<open>The handler up to the point where it waits or returns; \<open>upgraded\<close> is what \<open>Upgrade\<close> answers.\<close>

definition websocketHandler :: "string option \<Rightarrow> wsRequest \<Rightarrow> err option \<Rightarrow> wsListener \<Rightarrow> wsListener" where
  "websocketHandler verdict r upgraded l0 =
     (case allowRequest verdict r l0 of
        (l, False) \<Rightarrow> l
      | (l, True) \<Rightarrow>
          (if \<not> isWebSocketUpgrade r then answer r 400 l
           else (case upgraded of
                   Some e \<Rightarrow> startThread (WtOffer (RcErr e) None None) (l\<lparr>wl_failed := wl_failed l @ [r]\<rparr>)
                 | None \<Rightarrow>
                     (let n = length (wl_conns l);
                          l1 = l\<lparr>wl_conns := wl_conns l @ [r]\<rparr>;
                          src = (if wl_emitLifecycle l then Some (hq_RemoteAddr r) else None);
                          custom = (if wl_customSocketFunc l then Some r else None)
                      in if wl_asyncAccept l then callCustom custom (startThread (WtOffer (RcConn n) src None) l1)
                         else startThread (WtOffer (RcConn n) src custom) l1))))"

definition dropThread :: "nat \<Rightarrow> wsListener \<Rightarrow> wsListener" where
  "dropThread i l = l\<lparr>wl_threads := take i (wl_threads l) @ drop (Suc i) (wl_threads l)\<rparr>"

text \<open>A call of \<open>Accept\<close> receives what the \<open>i\<close>-th thread offers; while none does it waits, also after
  \<open>Close\<close>.\<close>

definition Accept :: "nat \<Rightarrow> wsListener \<Rightarrow> wsListener" where
  "Accept i l =
     (if i < length (wl_threads l)
      then (case wl_threads l ! i of
              WtOffer x src custom \<Rightarrow>
                (let l1 = l\<lparr>wl_accepted := wl_accepted l @ [x]\<rparr> in
                 case src of
                   Some s \<Rightarrow> l1\<lparr>wl_threads := (wl_threads l1)[i := WtOpen s custom]\<rparr>
                 | None \<Rightarrow> callCustom custom (dropThread i l1))
            | _ \<Rightarrow> l)
      else l)"

definition receiveOpen :: "nat \<Rightarrow> wsListener \<Rightarrow> wsListener" where
  "receiveOpen i l =
     (if i < length (wl_threads l)
      then (case wl_threads l ! i of
              WtOpen s custom \<Rightarrow> callCustom custom (dropThread i (l\<lparr>wl_opened := wl_opened l @ [s]\<rparr>))
            | _ \<Rightarrow> l)
      else l)"

text \<open>The handler of a close frame, which the reader of the connection runs, once: after it the library
  reads no more frames.\<close>

definition closeHandler :: "nat \<Rightarrow> wsListener \<Rightarrow> wsListener" where
  "closeHandler n l =
     (if n < length (wl_conns l) \<and> n \<notin> set (wl_closeRun l) \<and> n \<notin> set (wl_broken l)
      then (let r = wl_conns l ! n;
                l0 = l\<lparr>wl_closeRun := wl_closeRun l @ [n]\<rparr>;
                l1 = (case wl_checker l0 of
                        None \<Rightarrow> l0
                      | Some c \<Rightarrow> l0\<lparr>wl_untracked := wl_untracked l @ [sessionOf c r]\<rparr>)
            in if wl_emitLifecycle l then startThread (WtClose (hq_RemoteAddr r)) l1 else l1)
      else l)"

text \<open>The reader of a connection ends with an error: the network broke, or the server has closed the
  connection. Nobody calls the close handler then.\<close>

definition readerFails :: "nat \<Rightarrow> wsListener \<Rightarrow> wsListener" where
  "readerFails n l =
     (if n < length (wl_conns l) \<and> n \<notin> set (wl_closeRun l) \<and> n \<notin> set (wl_broken l)
      then l\<lparr>wl_broken := wl_broken l @ [n]\<rparr> else l)"

definition receiveClose :: "nat \<Rightarrow> wsListener \<Rightarrow> wsListener" where
  "receiveClose i l =
     (if i < length (wl_threads l)
      then (case wl_threads l ! i of
              WtClose s \<Rightarrow> dropThread i (l\<lparr>wl_closed := wl_closed l @ [s]\<rparr>)
            | _ \<Rightarrow> l)
      else l)"

subsection \<open>The listener as a machine\<close>

datatype wsEv =
    WsRequest "string option" wsRequest "err option"
  | WsAccept nat
  | WsOpen nat
  | WsCloseFrame nat
  | WsBreak nat
  | WsClosed nat
  | WsSetChecker "ipChecker option"

fun wsStep :: "wsListener \<Rightarrow> wsEv \<Rightarrow> wsListener" where
  "wsStep l (WsRequest verdict r upgraded) = websocketHandler verdict r upgraded l"
| "wsStep l (WsAccept i) = Accept i l"
| "wsStep l (WsOpen i) = receiveOpen i l"
| "wsStep l (WsCloseFrame n) = closeHandler n l"
| "wsStep l (WsBreak n) = readerFails n l"
| "wsStep l (WsClosed i) = receiveClose i l"
| "wsStep l (WsSetChecker c) = SetIPBlockingChecker c l"

end
