(* ===== verification/WsListenerFacts.thy ===== *)
theory WsListenerFacts
  imports WsListener "HOL-Library.Multiset"
begin

text \<open>
  What holds of the WebSocket listener: who gets a connection, what is announced and what waits for
  ever, and how the tracking of addresses adds up.
\<close>

subsection \<open>Threads and connections\<close>

definition offerOf :: "wsThread \<Rightarrow> rawConnResult list" where
  "offerOf t = (case t of WtOffer x _ _ \<Rightarrow> [x] | _ \<Rightarrow> [])"

definition openingOf :: "wsThread \<Rightarrow> string list" where
  "openingOf t = (case t of WtOpen s _ \<Rightarrow> [s] | _ \<Rightarrow> [])"

definition closingOf :: "wsThread \<Rightarrow> string list" where
  "closingOf t = (case t of WtClose s \<Rightarrow> [s] | _ \<Rightarrow> [])"

definition collect :: "(wsThread \<Rightarrow> 'a list) \<Rightarrow> wsThread list \<Rightarrow> 'a multiset" where
  "collect g ts = mset (concat (map g ts))"

lemma collect_simps [simp]:
  "collect g [] = {#}" "collect g (ts @ us) = collect g ts + collect g us" "collect g (t # ts) = mset (g t) + collect g ts"
  by (simp_all add: collect_def)

lemma collect_drop:
  assumes "i < length ts"
  shows "collect g ts = mset (g (ts ! i)) + collect g (take i ts @ drop (Suc i) ts)"
proof -
  have "collect g ts = collect g (take i ts @ ts ! i # drop (Suc i) ts)" using id_take_nth_drop [OF assms] by simp
  then show ?thesis by simp
qed

lemma collect_update:
  assumes "i < length ts"
  shows "collect g ts + mset (g t) = mset (g (ts ! i)) + collect g (ts[i := t])"
proof -
  have "collect g (ts[i := t]) = collect g (take i ts @ t # drop (Suc i) ts)" using upd_conv_take_nth_drop [OF assms] by simp
  then show ?thesis using collect_drop [OF assms, of g] by simp
qed

lemma callCustom_fields [simp]:
  "wl_threads (callCustom r l) = wl_threads l" "wl_conns (callCustom r l) = wl_conns l"
  "wl_accepted (callCustom r l) = wl_accepted l" "wl_opened (callCustom r l) = wl_opened l"
  "wl_closed (callCustom r l) = wl_closed l" "wl_checker (callCustom r l) = wl_checker l"
  "wl_tracked (callCustom r l) = wl_tracked l" "wl_untracked (callCustom r l) = wl_untracked l"
  "wl_answers (callCustom r l) = wl_answers l" "wl_failed (callCustom r l) = wl_failed l"
  "wl_closeRun (callCustom r l) = wl_closeRun l" "wl_emitLifecycle (callCustom r l) = wl_emitLifecycle l"
  "wl_allowedOrigins (callCustom r l) = wl_allowedOrigins l" "wl_broken (callCustom r l) = wl_broken l" "wl_asked (callCustom r l) = wl_asked l"
  by (simp_all add: callCustom_def split: option.splits)

lemma startThread_fields [simp]:
  "wl_conns (startThread t l) = wl_conns l"
  "wl_accepted (startThread t l) = wl_accepted l" "wl_opened (startThread t l) = wl_opened l"
  "wl_closed (startThread t l) = wl_closed l" "wl_checker (startThread t l) = wl_checker l"
  "wl_tracked (startThread t l) = wl_tracked l" "wl_untracked (startThread t l) = wl_untracked l"
  "wl_answers (startThread t l) = wl_answers l" "wl_failed (startThread t l) = wl_failed l"
  "wl_closeRun (startThread t l) = wl_closeRun l" "wl_emitLifecycle (startThread t l) = wl_emitLifecycle l"
  "wl_allowedOrigins (startThread t l) = wl_allowedOrigins l" "wl_broken (startThread t l) = wl_broken l" "wl_asked (startThread t l) = wl_asked l"
  by (simp_all add: startThread_def)

lemma dropThread_fields [simp]:
  "wl_conns (dropThread t l) = wl_conns l"
  "wl_accepted (dropThread t l) = wl_accepted l" "wl_opened (dropThread t l) = wl_opened l"
  "wl_closed (dropThread t l) = wl_closed l" "wl_checker (dropThread t l) = wl_checker l"
  "wl_tracked (dropThread t l) = wl_tracked l" "wl_untracked (dropThread t l) = wl_untracked l"
  "wl_answers (dropThread t l) = wl_answers l" "wl_failed (dropThread t l) = wl_failed l"
  "wl_closeRun (dropThread t l) = wl_closeRun l" "wl_emitLifecycle (dropThread t l) = wl_emitLifecycle l"
  "wl_allowedOrigins (dropThread t l) = wl_allowedOrigins l" "wl_broken (dropThread t l) = wl_broken l" "wl_asked (dropThread t l) = wl_asked l"
  by (simp_all add: dropThread_def)

text \<open>The listener whose handler stops, or goes on with a thread.\<close>

lemma websocketHandler_cases:
  assumes "l' = websocketHandler v r up l"
  obtains (refused) t a k where "l' = l\<lparr>wl_tracked := t, wl_answers := a, wl_asked := k\<rparr>"
  | (failed) t a k e where "l' = startThread (WtOffer (RcErr e) None None)
        (l\<lparr>wl_tracked := t, wl_answers := a, wl_asked := k, wl_failed := wl_failed l @ [r]\<rparr>)"
  | (upgraded) t a k c q where "l' = callCustom c (startThread
        (WtOffer (RcConn (length (wl_conns l))) (if wl_emitLifecycle l then Some (hq_RemoteAddr r) else None) q)
        (l\<lparr>wl_tracked := t, wl_answers := a, wl_asked := k, wl_conns := wl_conns l @ [r]\<rparr>))" "up = None" "isWebSocketUpgrade r"
proof -
  obtain l1 b where al: "allowRequest v r l = (l1, b)" by fastforce
  have "l1 = l\<lparr>wl_tracked := wl_tracked l1, wl_answers := wl_answers l1, wl_asked := wl_asked l1\<rparr>"
    using al by (auto simp: allowRequest_def answer_def Let_def split: option.splits)
  then obtain t a k where l1: "l1 = l\<lparr>wl_tracked := t, wl_answers := a, wl_asked := k\<rparr>" by blast
  show ?thesis
  proof (cases "b \<and> isWebSocketUpgrade r")
    case False
    then have "l' = l\<lparr>wl_tracked := t, wl_answers := (if b then a @ [(r, 400)] else a), wl_asked := k\<rparr>"
      using assms al l1 by (cases b) (auto simp: websocketHandler_def answer_def)
    then show ?thesis using refused by blast
  next
    case True
    show ?thesis
    proof (cases up)
      case (Some e)
      then show ?thesis using assms al l1 True failed [where e = e and t = t and a = a and k = k] by (simp add: websocketHandler_def)
    next
      case None
      have "callCustom None x = x" for x by (simp add: callCustom_def)
      then have "\<exists>c q. l' = callCustom c (startThread
        (WtOffer (RcConn (length (wl_conns l))) (if wl_emitLifecycle l then Some (hq_RemoteAddr r) else None) q)
        (l\<lparr>wl_tracked := t, wl_answers := a, wl_asked := k, wl_conns := wl_conns l @ [r]\<rparr>))"
        using assms al l1 True None by (auto simp: websocketHandler_def Let_def) metis+
      then show ?thesis using upgraded None True by blast
    qed
  qed
qed

subsection \<open>Connections and announcements\<close>

definition connsOf :: "rawConnResult list \<Rightarrow> nat list" where
  "connsOf xs = concat (map (\<lambda>x. case x of RcConn n \<Rightarrow> [n] | RcErr e \<Rightarrow> []) xs)"

definition addrOf :: "wsRequest list \<Rightarrow> nat \<Rightarrow> string" where "addrOf cs n = hq_RemoteAddr (cs ! n)"

text \<open>Each connection is with \<open>Accept\<close> or with one thread; a thread that offers a connection will announce
  it; what was announced, or waits to be, is what was accepted or closed.\<close>

definition offerOk :: "wsRequest list \<Rightarrow> wsThread \<Rightarrow> bool" where
  "offerOk cs t \<longleftrightarrow>
     (case t of
        WtOffer (RcConn n) src _ \<Rightarrow> n < length cs \<and> src = Some (addrOf cs n)
      | WtOffer (RcErr e) src _ \<Rightarrow> src = None
      | _ \<Rightarrow> True)"

definition wsOk where
  "wsOk cs ts acc opened closed run \<longleftrightarrow> (\<forall>t \<in> set ts. offerOk cs t) \<and>
     (\<forall>n. count (mset acc + collect offerOf ts) (RcConn n) = (if n < length cs then 1 else 0)) \<and>
     mset opened + collect openingOf ts = image_mset (addrOf cs) (mset (connsOf acc)) \<and>
     mset closed + collect closingOf ts = image_mset (addrOf cs) (mset run) \<and>
     distinct run \<and> (\<forall>n \<in> set run. n < length cs)"

definition wsInv :: "wsListener \<Rightarrow> bool" where
  "wsInv l \<longleftrightarrow> wl_emitLifecycle l \<and>
     wsOk (wl_conns l) (wl_threads l) (wl_accepted l) (wl_opened l) (wl_closed l) (wl_closeRun l)"

lemma accepted_below:
  assumes "wsOk cs ts acc opened closed run" and "n \<in> set (connsOf acc)"
  shows "n < length cs"
proof -
  have "RcConn n \<in> set acc" using assms(2) by (auto simp: connsOf_def split: rawConnResult.splits)
  then have "count (mset acc) (RcConn n) \<noteq> 0" by simp
  then have "count (mset acc + collect offerOf ts) (RcConn n) \<noteq> 0" by simp
  then show ?thesis using assms(1) unfolding wsOk_def by metis
qed

lemma addrOf_append: "n < length cs \<Longrightarrow> addrOf (cs @ [r]) n = addrOf cs n" by (simp add: addrOf_def nth_append)

lemma wsOk_failed: "wsOk cs ts acc opened closed run \<Longrightarrow> wsOk cs (ts @ [WtOffer (RcErr e) None None]) acc opened closed run"
  by (simp add: wsOk_def offerOk_def offerOf_def openingOf_def closingOf_def)

lemma wsOk_closing:
  "wsOk cs ts acc opened closed run \<Longrightarrow> n < length cs \<Longrightarrow> n \<notin> set run \<Longrightarrow>
     wsOk cs (ts @ [WtClose (addrOf cs n)]) acc opened closed (run @ [n])"
  by (auto simp: wsOk_def offerOk_def offerOf_def openingOf_def closingOf_def)

lemma wsOk_upgraded:
  assumes ok: "wsOk cs ts acc opened closed run"
  shows "wsOk (cs @ [r]) (ts @ [WtOffer (RcConn (length cs)) (Some (hq_RemoteAddr r)) q]) acc opened closed run"
proof -
  have "offerOk (cs @ [r]) t" if "t \<in> set ts" for t
  proof -
    have "offerOk cs t" using ok that by (simp add: wsOk_def)
    then show ?thesis by (auto simp: offerOk_def addrOf_append split: wsThread.splits rawConnResult.splits)
  qed
  moreover have "image_mset (addrOf (cs @ [r])) (mset (connsOf acc)) = image_mset (addrOf cs) (mset (connsOf acc))"
    using accepted_below [OF ok] addrOf_append by (intro image_mset_cong) simp
  moreover have "image_mset (addrOf (cs @ [r])) (mset run) = image_mset (addrOf cs) (mset run)"
    using ok addrOf_append by (intro image_mset_cong) (simp add: wsOk_def)
  ultimately show ?thesis using ok
    by (auto simp: wsOk_def offerOf_def openingOf_def closingOf_def) (simp_all add: offerOk_def addrOf_def)
qed

lemma wsOk_accept:
  assumes ok: "wsOk cs ts acc opened closed run" and i: "i < length ts" and t: "ts ! i = WtOffer x src q"
  shows "src = Some s \<Longrightarrow> wsOk cs (ts[i := WtOpen s q]) (acc @ [x]) opened closed run"
    and "src = None \<Longrightarrow> wsOk cs (take i ts @ drop (Suc i) ts) (acc @ [x]) opened closed run"
proof -
  have o: "offerOk cs (WtOffer x src q)" using ok i t unfolding wsOk_def by (metis nth_mem)
  have old: "\<forall>t \<in> set ts. offerOk cs t" "\<And>n. count (mset acc + collect offerOf ts) (RcConn n) = (if n < length cs then 1 else 0)"
      "mset opened + collect openingOf ts = image_mset (addrOf cs) (mset (connsOf acc))"
      "mset closed + collect closingOf ts = image_mset (addrOf cs) (mset run)"
    using ok by (simp_all add: wsOk_def)
  note up = collect_update [OF i, where t = "WtOpen s q"] and dr = collect_drop [OF i]
  show "wsOk cs (ts[i := WtOpen s q]) (acc @ [x]) opened closed run" if src: "src = Some s"
  proof -
    obtain n where n: "x = RcConn n" "s = addrOf cs n" using o src by (cases x) (auto simp: offerOk_def)
    let ?ts = "ts[i := WtOpen s q]"
    have "\<forall>u \<in> set ?ts. offerOk cs u"
      using old(1) set_update_subset_insert [of ts i "WtOpen s q"] by (auto simp: offerOk_def)
    moreover have "mset (acc @ [x]) + collect offerOf ?ts = mset acc + collect offerOf ts"
      using up [of offerOf] by (simp add: t offerOf_def)
    moreover have "mset opened + collect openingOf ?ts = image_mset (addrOf cs) (mset (connsOf (acc @ [x])))"
    proof -
      have "collect openingOf ?ts = add_mset s (collect openingOf ts)" using up [of openingOf] by (simp add: t openingOf_def)
      moreover have "connsOf (acc @ [x]) = connsOf acc @ [n]" by (simp add: connsOf_def n)
      ultimately show ?thesis using old(3) n(2) by simp
    qed
    moreover have "collect closingOf ?ts = collect closingOf ts"
      using up [of closingOf] by (simp add: t closingOf_def)
    ultimately show ?thesis using ok unfolding wsOk_def by metis
  qed
  show "wsOk cs (take i ts @ drop (Suc i) ts) (acc @ [x]) opened closed run" if src: "src = None"
  proof -
    obtain e where e: "x = RcErr e" using o src by (cases x) (auto simp: offerOk_def)
    have "\<forall>u \<in> set (take i ts @ drop (Suc i) ts). offerOk cs u" using old(1) by (auto dest: in_set_takeD in_set_dropD)
    moreover have "collect offerOf ts = add_mset x (collect offerOf (take i ts @ drop (Suc i) ts))"
      "collect openingOf ts = collect openingOf (take i ts @ drop (Suc i) ts)"
      "collect closingOf ts = collect closingOf (take i ts @ drop (Suc i) ts)"
      using dr [of offerOf] dr [of openingOf] dr [of closingOf] by (simp_all add: t offerOf_def openingOf_def closingOf_def)
    moreover have "connsOf (acc @ [x]) = connsOf acc" by (simp add: connsOf_def e)
    ultimately show ?thesis using ok unfolding wsOk_def by simp
  qed
qed

lemma wsOk_open:
  assumes ok: "wsOk cs ts acc opened closed run" and i: "i < length ts" and t: "ts ! i = WtOpen s q"
  shows "wsOk cs (take i ts @ drop (Suc i) ts) acc (opened @ [s]) closed run"
proof -
  have "\<forall>u \<in> set (take i ts @ drop (Suc i) ts). offerOk cs u" using ok by (auto simp: wsOk_def dest: in_set_takeD in_set_dropD)
  then show ?thesis using ok collect_drop [OF i, of offerOf] collect_drop [OF i, of openingOf] collect_drop [OF i, of closingOf]
    by (simp add: wsOk_def t offerOf_def openingOf_def closingOf_def)
qed

lemma wsOk_closed:
  assumes ok: "wsOk cs ts acc opened closed run" and i: "i < length ts" and t: "ts ! i = WtClose s"
  shows "wsOk cs (take i ts @ drop (Suc i) ts) acc opened (closed @ [s]) run"
proof -
  have "\<forall>u \<in> set (take i ts @ drop (Suc i) ts). offerOk cs u" using ok by (auto simp: wsOk_def dest: in_set_takeD in_set_dropD)
  then show ?thesis using ok collect_drop [OF i, of offerOf] collect_drop [OF i, of openingOf] collect_drop [OF i, of closingOf]
    by (simp add: wsOk_def t offerOf_def openingOf_def closingOf_def)
qed

lemma wsInv_request: "wsInv l \<Longrightarrow> wsInv (websocketHandler v r up l)"
proof (rule websocketHandler_cases [OF refl, of v r up l])
  fix t a k assume "wsInv l" "websocketHandler v r up l = l\<lparr>wl_tracked := t, wl_answers := a, wl_asked := k\<rparr>"
  then show ?thesis by (simp add: wsInv_def)
next
  fix t a k e assume "wsInv l" "websocketHandler v r up l = startThread (WtOffer (RcErr e) None None)
        (l\<lparr>wl_tracked := t, wl_answers := a, wl_asked := k, wl_failed := wl_failed l @ [r]\<rparr>)"
  then show ?thesis by (simp add: wsInv_def startThread_def wsOk_failed)
next
  fix t a k c q assume "wsInv l" "websocketHandler v r up l = callCustom c (startThread
        (WtOffer (RcConn (length (wl_conns l))) (if wl_emitLifecycle l then Some (hq_RemoteAddr r) else None) q)
        (l\<lparr>wl_tracked := t, wl_answers := a, wl_asked := k, wl_conns := wl_conns l @ [r]\<rparr>))"
  then show ?thesis by (simp add: wsInv_def) (simp add: startThread_def wsOk_upgraded)
qed

lemma wsInv_accept: "wsInv l \<Longrightarrow> wsInv (Accept i l)"
proof (cases "\<exists>x src q. i < length (wl_threads l) \<and> wl_threads l ! i = WtOffer x src q")
  case True
  then obtain x src q where i: "i < length (wl_threads l)" "wl_threads l ! i = WtOffer x src q" by blast
  assume inv: "wsInv l"
  then have ok: "wsOk (wl_conns l) (wl_threads l) (wl_accepted l) (wl_opened l) (wl_closed l) (wl_closeRun l)"
    by (simp add: wsInv_def)
  show ?thesis using inv i wsOk_accept [OF ok i]
    by (cases src) (simp_all add: Accept_def wsInv_def dropThread_def)
next
  case False
  assume "wsInv l"
  then show ?thesis using False by (auto simp: Accept_def split: wsThread.split)
qed

lemma wsInv_open: "wsInv l \<Longrightarrow> wsInv (receiveOpen i l)"
proof (cases "\<exists>s q. i < length (wl_threads l) \<and> wl_threads l ! i = WtOpen s q")
  case True
  then obtain s q where i: "i < length (wl_threads l)" "wl_threads l ! i = WtOpen s q" by blast
  assume inv: "wsInv l"
  then show ?thesis using i wsOk_open [OF _ i]
    by (simp add: receiveOpen_def wsInv_def dropThread_def)
next
  case False
  assume "wsInv l"
  then show ?thesis using False by (auto simp: receiveOpen_def split: wsThread.split)
qed

lemma wsInv_closed: "wsInv l \<Longrightarrow> wsInv (receiveClose i l)"
proof (cases "\<exists>s. i < length (wl_threads l) \<and> wl_threads l ! i = WtClose s")
  case True
  then obtain s where i: "i < length (wl_threads l)" "wl_threads l ! i = WtClose s" by blast
  assume inv: "wsInv l"
  then show ?thesis using i wsOk_closed [OF _ i]
    by (simp add: receiveClose_def wsInv_def dropThread_def)
next
  case False
  assume "wsInv l"
  then show ?thesis using False by (auto simp: receiveClose_def split: wsThread.split)
qed

lemma wsInv_closeHandler: "wsInv l \<Longrightarrow> wsInv (closeHandler n l)"
  using wsOk_closing by (auto simp: closeHandler_def wsInv_def startThread_def addrOf_def Let_def split: option.split)

lemma wsInv_readerFails: "wsInv l \<Longrightarrow> wsInv (readerFails n l)"
  by (simp add: readerFails_def wsInv_def)

lemma wsInv_step: "wsInv l \<Longrightarrow> wsInv (wsStep l e)"
  by (cases e) (simp_all add: wsInv_request wsInv_accept wsInv_open wsInv_closed wsInv_closeHandler wsInv_readerFails,
    simp add: SetIPBlockingChecker_def wsInv_def)

interpretation listener: machine wsStep wsInv
  by unfold_locales (rule wsInv_step)

lemma wsInv_new: "wsInv (NewWebSocketConnectionFromExistingHttpServer origins custom)"
  by (simp add: wsInv_def wsOk_def NewWebSocketConnectionFromExistingHttpServer_def connsOf_def)

text \<open>C33: In every run of the listener of an existing server each upgraded connection is given to one call
  of \<open>Accept\<close> or is still offered by one thread, and nothing else is. The announcements that were
  received, with the threads that wait to announce, are the addresses of the accepted connections, and
  those of the closed ones: while nobody reads the two channels every accepted connection keeps a
  goroutine and every close frame its reader waiting.\<close>

theorem connections_accepted_once:
  assumes "l = foldl wsStep (NewWebSocketConnectionFromExistingHttpServer origins custom) es"
  shows "(\<forall>n. count (mset (wl_accepted l)) (RcConn n) + count (collect offerOf (wl_threads l)) (RcConn n) =
         (if n < length (wl_conns l) then 1 else 0)) \<and>
     mset (wl_opened l) + collect openingOf (wl_threads l) =
       image_mset (addrOf (wl_conns l)) (mset (connsOf (wl_accepted l))) \<and>
     mset (wl_closed l) + collect closingOf (wl_threads l) = image_mset (addrOf (wl_conns l)) (mset (wl_closeRun l))"
proof -
  have "wsInv l" unfolding assms by (rule listener.run_inv) (rule wsInv_new)
  then show ?thesis by (simp add: wsInv_def wsOk_def)
qed

text \<open>An upgrade whose connection was accepted, announced and closed, and one that nobody accepts.\<close>

definition upgradeHeaders :: httpHeader where
  "upgradeHeaders = [(''Connection'', ''Upgrade''), (''Upgrade'', ''websocket''), (''X-Session-Id'', ''s1'')]"

definition sampleWsRequest :: "string \<Rightarrow> wsRequest" where
  "sampleWsRequest a = \<lparr>hq_Method = ''GET'', hq_Path = ''/ws'', hq_RawQuery = [], hq_RequestURI = ''/ws'', hq_Header = upgradeHeaders, hq_RemoteAddr = a, hq_Body = [],
     wq_Host = ''h'', wq_SessionCookie = None, wq_OriginHost = None\<rparr>"

theorem connections_accepted_once_witness:
  "\<exists>l :: wsListener. wl_accepted l = [RcConn 0] \<and> wl_opened l = [''a''] \<and> length (wl_threads l) = 2 \<and>
     mset (wl_closed l) + collect closingOf (wl_threads l) = {#''a''#}"
proof -
  obtain l where l: "l = foldl wsStep (NewWebSocketConnectionFromExistingHttpServer [] False)
      [WsRequest None (sampleWsRequest ''a'') None, WsAccept 0, WsOpen 0, WsRequest None (sampleWsRequest ''b'') None, WsCloseFrame 0]"
    by blast
  have "wl_accepted l = [RcConn 0]" "wl_opened l = [''a'']" "length (wl_threads l) = 2" "wl_closeRun l = [0]"
    "addrOf (wl_conns l) 0 = ''a''" unfolding l by code_simp+
  with connections_accepted_once [OF l] show ?thesis by - (rule exI [of _ l], simp)
qed

subsection \<open>Tracking\<close>

text \<open>What is assumed of a step here: \<open>Upgrade\<close> refuses an origin that is not accepted, as the library's
  documentation says, and the checker stays. Its answers are arbitrary.\<close>

definition lawfulWs :: "wsListener \<Rightarrow> wsEv \<Rightarrow> bool" where
  "lawfulWs l e \<longleftrightarrow>
     (case e of
        WsRequest v r up \<Rightarrow> up = None \<longrightarrow> checkOrigin (wl_allowedOrigins l) r
      | WsSetChecker c \<Rightarrow> False
      | _ \<Rightarrow> True)"

definition wsMove :: "wsListener \<Rightarrow> wsListener \<Rightarrow> bool" where
  "wsMove l l' \<longleftrightarrow> (\<exists>e. lawfulWs l e \<and> l' = wsStep l e)"

text \<open>The requests for which the checker answered that their address is not blocked; those of them that got no
  connection; the connections whose reader still runs, and the sessions of these and of the broken ones.\<close>

definition letIn :: "wsListener \<Rightarrow> wsRequest list" where
  "letIn l = map fst (filter (\<lambda>p. snd p = None) (wl_asked l))"

definition notUpgraded :: "wsListener \<Rightarrow> wsRequest list" where
  "notUpgraded l = map fst (filter (\<lambda>p. snd p = 400) (wl_answers l)) @ wl_failed l"

definition live :: "wsListener \<Rightarrow> nat set" where
  "live l = {n. n < length (wl_conns l) \<and> n \<notin> set (wl_closeRun l) \<and> n \<notin> set (wl_broken l)}"

definition sessionsOf :: "ipChecker \<Rightarrow> wsListener \<Rightarrow> nat multiset \<Rightarrow> (string \<times> string) multiset" where
  "sessionsOf c l ns = image_mset (\<lambda>n. sessionOf c (wl_conns l ! n)) ns"

definition upgradable :: "wsListener \<Rightarrow> wsRequest \<Rightarrow> bool" where
  "upgradable l r \<longleftrightarrow> isWebSocketUpgrade r \<and> checkOrigin (wl_allowedOrigins l) r"

definition trackInv :: "ipChecker \<Rightarrow> wsListener \<Rightarrow> bool" where
  "trackInv c l \<longleftrightarrow> wl_checker l = Some c \<and> (\<forall>r \<in> set (wl_conns l). upgradable l r) \<and>
     (\<forall>n \<in> set (wl_closeRun l) \<union> set (wl_broken l). n < length (wl_conns l)) \<and>
     wl_tracked l = map (sessionOf c) (letIn l) \<and>
     mset (letIn l) = mset (wl_conns l) + mset (notUpgraded l) \<and>
     image_mset (sessionOf c) (mset (wl_conns l)) =
       mset (wl_untracked l) + sessionsOf c l (mset_set (live l)) + sessionsOf c l (mset (wl_broken l))"

lemma finite_live: "finite (live l)" by (simp add: live_def)

lemma live_add:
  assumes "wl_conns l' = wl_conns l @ [r]" and "wl_closeRun l' = wl_closeRun l" and "wl_broken l' = wl_broken l"
    and below: "\<forall>n \<in> set (wl_closeRun l) \<union> set (wl_broken l). n < length (wl_conns l)"
  shows "sessionsOf c l' (mset_set (live l')) = add_mset (sessionOf c r) (sessionsOf c l (mset_set (live l)))"
    and "sessionsOf c l' (mset (wl_broken l')) = sessionsOf c l (mset (wl_broken l))"
proof -
  have "live l' = insert (length (wl_conns l)) (live l)" "length (wl_conns l) \<notin> live l"
    using assms by (auto simp: live_def)
  then have "mset_set (live l') = add_mset (length (wl_conns l)) (mset_set (live l))" using finite_live by simp
  moreover have "sessionsOf c l' (mset_set (live l)) = sessionsOf c l (mset_set (live l))"
    unfolding sessionsOf_def by (rule image_mset_cong) (use finite_live assms(1) in \<open>auto simp: live_def nth_append\<close>)
  ultimately show "sessionsOf c l' (mset_set (live l')) = add_mset (sessionOf c r) (sessionsOf c l (mset_set (live l)))"
    by (simp add: sessionsOf_def assms(1))
  show "sessionsOf c l' (mset (wl_broken l')) = sessionsOf c l (mset (wl_broken l))"
    unfolding sessionsOf_def assms(3) by (rule image_mset_cong) (use assms in \<open>auto simp: nth_append\<close>)
qed

text \<open>A connection whose close handler has run, or whose reader has ended, is not live any more.\<close>

lemma live_remove:
  assumes "wl_conns l' = wl_conns l" and "n \<in> live l" and "live l' = live l - {n}"
  shows "sessionsOf c l (mset_set (live l)) = add_mset (sessionOf c (wl_conns l ! n)) (sessionsOf c l' (mset_set (live l')))"
  using assms finite_live [of l] by (simp add: sessionsOf_def mset_set.remove)

lemma sessionsOf_cong: "wl_conns l' = wl_conns l \<Longrightarrow> sessionsOf c l' ns = sessionsOf c l ns"
  by (simp add: sessionsOf_def)

lemma track_same:
  assumes "trackInv c l" and "wl_checker l' = wl_checker l" and "wl_conns l' = wl_conns l" and "wl_closeRun l' = wl_closeRun l"
    and "wl_tracked l' = wl_tracked l" and "wl_untracked l' = wl_untracked l" and "wl_allowedOrigins l' = wl_allowedOrigins l"
    and "wl_answers l' = wl_answers l" and "wl_failed l' = wl_failed l" and "wl_broken l' = wl_broken l" and "wl_asked l' = wl_asked l"
  shows "trackInv c l'"
proof -
  have "live l' = live l" "letIn l' = letIn l" "notUpgraded l' = notUpgraded l" "upgradable l' = upgradable l"
    using assms by (simp_all add: live_def letIn_def notUpgraded_def upgradable_def fun_eq_iff)
  then show ?thesis using assms sessionsOf_cong [of l' l c] by (simp add: trackInv_def)
qed

definition tracked where
  "tracked c l \<longleftrightarrow> wsInv l \<and> trackInv c l"

lemma track_accept: "trackInv c l \<Longrightarrow> trackInv c (Accept i l)"
  by (rule track_same, assumption) (simp_all add: Accept_def Let_def split: wsThread.split option.split)

lemma track_open: "trackInv c l \<Longrightarrow> trackInv c (receiveOpen i l)"
  by (rule track_same, assumption) (simp_all add: receiveOpen_def Let_def split: wsThread.split option.split)

lemma track_closed: "trackInv c l \<Longrightarrow> trackInv c (receiveClose i l)"
  by (rule track_same, assumption) (simp_all add: receiveClose_def Let_def split: wsThread.split option.split)

lemma track_closeHandler:
  assumes t: "trackInv c l"
  shows "trackInv c (closeHandler n l)"
proof (cases "n \<in> live l")
  case False
  then show ?thesis using t by (auto simp: closeHandler_def live_def)
next
  case True
  then have n: "n < length (wl_conns l)" "n \<notin> set (wl_closeRun l)" "n \<notin> set (wl_broken l)" by (simp_all add: live_def)
  let ?l = "closeHandler n l"
  have fields: "wl_conns ?l = wl_conns l" "wl_closeRun ?l = wl_closeRun l @ [n]" "wl_checker ?l = wl_checker l"
    "wl_tracked ?l = wl_tracked l" "wl_untracked ?l = wl_untracked l @ [sessionOf c (wl_conns l ! n)]"
    "wl_allowedOrigins ?l = wl_allowedOrigins l" "wl_answers ?l = wl_answers l" "wl_failed ?l = wl_failed l"
    "wl_broken ?l = wl_broken l" "wl_asked ?l = wl_asked l"
    using n t by (simp_all add: closeHandler_def Let_def trackInv_def)
  have "live ?l = live l - {n}" by (auto simp: live_def fields)
  note live_remove [OF fields(1) True this, of c]
  then show ?thesis using t n(1) sessionsOf_cong [OF fields(1), of c]
    by (simp add: trackInv_def upgradable_def notUpgraded_def letIn_def fields)
qed

lemma track_readerFails:
  assumes t: "trackInv c l"
  shows "trackInv c (readerFails n l)"
proof (cases "n \<in> live l")
  case False
  then show ?thesis using t by (auto simp: readerFails_def live_def)
next
  case True
  then have n: "n < length (wl_conns l)" "n \<notin> set (wl_closeRun l)" "n \<notin> set (wl_broken l)" by (simp_all add: live_def)
  have r: "readerFails n l = l\<lparr>wl_broken := wl_broken l @ [n]\<rparr>" (is "_ = ?l") using n by (simp add: readerFails_def)
  have "live ?l = live l - {n}" by (auto simp: live_def)
  with live_remove [of ?l l n c] True
  have "sessionsOf c l (mset_set (live l)) = add_mset (sessionOf c (wl_conns l ! n)) (sessionsOf c ?l (mset_set (live ?l)))" by simp
  moreover have "sessionsOf c ?l (mset (wl_broken l @ [n])) = add_mset (sessionOf c (wl_conns l ! n)) (sessionsOf c l (mset (wl_broken l)))"
    by (simp add: sessionsOf_def)
  ultimately show ?thesis unfolding r using t n(1) by (simp add: trackInv_def upgradable_def notUpgraded_def letIn_def)
qed

lemma track_request:
  assumes t: "trackInv c l" and law: "up = None \<longrightarrow> checkOrigin (wl_allowedOrigins l) r"
  shows "trackInv c (websocketHandler v r up l)"
proof -
  have chk: "wl_checker l = Some c" using t by (simp add: trackInv_def)
  let ?l1 = "l\<lparr>wl_asked := wl_asked l @ [(r, None)], wl_tracked := wl_tracked l @ [sessionOf c r]\<rparr>"
  consider (blocked) x where "v = Some x" | (plain) "v = None" "\<not> isWebSocketUpgrade r"
    | (failed) e where "v = None" "isWebSocketUpgrade r" "up = Some e"
    | (upgraded) "v = None" "isWebSocketUpgrade r" "up = None" by (metis option.exhaust)
  then show ?thesis
  proof cases
    case blocked
    then have w: "websocketHandler v r up l = answer r 403 (l\<lparr>wl_asked := wl_asked l @ [(r, v)]\<rparr>)" (is "_ = ?w")
      by (simp add: websocketHandler_def allowRequest_def chk Let_def)
    have "sessionsOf c ?w = sessionsOf c l" "live ?w = live l" by (simp_all add: fun_eq_iff sessionsOf_def live_def answer_def)
    then show ?thesis unfolding w using t blocked by (simp add: trackInv_def upgradable_def notUpgraded_def letIn_def answer_def)
  next
    case plain
    then have w: "websocketHandler v r up l = answer r 400 ?l1" (is "_ = ?w")
      by (simp add: websocketHandler_def allowRequest_def chk Let_def)
    have "sessionsOf c ?w = sessionsOf c l" "live ?w = live l" by (simp_all add: fun_eq_iff sessionsOf_def live_def answer_def)
    then show ?thesis unfolding w using t by (simp add: trackInv_def upgradable_def notUpgraded_def letIn_def answer_def)
  next
    case failed
    then have w: "websocketHandler v r up l = startThread (WtOffer (RcErr e) None None) (?l1\<lparr>wl_failed := wl_failed l @ [r]\<rparr>)" (is "_ = ?w")
      by (simp add: websocketHandler_def allowRequest_def chk Let_def)
    have "sessionsOf c ?w = sessionsOf c l" "live ?w = live l" by (simp_all add: fun_eq_iff sessionsOf_def live_def)
    then show ?thesis unfolding w using t by (simp add: trackInv_def upgradable_def notUpgraded_def letIn_def)
  next
    case upgraded
    let ?w = "websocketHandler None r None l"
    have w: "wl_conns ?w = wl_conns l @ [r]" "wl_closeRun ?w = wl_closeRun l" "wl_broken ?w = wl_broken l" "wl_checker ?w = Some c"
      "wl_tracked ?w = wl_tracked l @ [sessionOf c r]" "wl_untracked ?w = wl_untracked l"
      "wl_allowedOrigins ?w = wl_allowedOrigins l" "wl_answers ?w = wl_answers l" "wl_failed ?w = wl_failed l"
      "wl_asked ?w = wl_asked l @ [(r, None)]"
      using upgraded by (simp_all add: websocketHandler_def allowRequest_def chk Let_def)
    have below: "\<forall>n \<in> set (wl_closeRun l) \<union> set (wl_broken l). n < length (wl_conns l)" using t by (simp add: trackInv_def)
    show ?thesis unfolding upgraded using t upgraded law live_add [OF w(1-3) below, of c]
      by (auto simp add: trackInv_def upgradable_def notUpgraded_def letIn_def w less_Suc_eq)
  qed
qed

interpretation tracking: stepper wsMove "tracked c" for c
proof unfold_locales
  fix l l' assume "tracked c l" and "wsMove l l'"
  then obtain e where e: "lawfulWs l e" "l' = wsStep l e" and inv: "wsInv l" and t: "trackInv c l"
    by (auto simp: wsMove_def tracked_def)
  have "trackInv c l'" using e t inv
    by (cases e) (simp_all add: lawfulWs_def track_accept track_open track_closed track_closeHandler track_readerFails track_request)
  then show "tracked c l'" using wsInv_step [OF inv] e(2) by (simp add: tracked_def)
qed



definition sampleChecker :: ipChecker where
  "sampleChecker = \<lparr>ck_realIP = (\<lambda>a h. a)\<rparr>"

lemma wsMove_run: "list_all (\<lambda>e. \<forall>l. lawfulWs l e) es \<Longrightarrow> wsMove\<^sup>*\<^sup>* l (foldl wsStep l es)"
proof (induction es arbitrary: l)
  case Nil
  then show ?case by simp
next
  case (Cons e es)
  then have "wsMove l (wsStep l e)" by (auto simp: wsMove_def)
  then show ?case using Cons by (simp add: converse_rtranclp_into_rtranclp)
qed


end
