(* ===== verification/PingPong.thy ===== *)
theory PingPong
  imports RestBridge
begin

text \<open>
  plank/services/ping-pong-service.go: the service that Plank brings, with the REST endpoints it asks
  for. A call of its handler that fails in a type assertion is \<open>None\<close>; nothing on the bus recovers it.
  Decoding of JSON objects and path values are arguments; query strings are parsed here, as
  \<open>net/url\<close> does.
\<close>

subsection \<open>Query strings\<close>

definition hexDigit :: "char \<Rightarrow> nat option" where
  "hexDigit c =
     (let n = of_char c :: nat in
      if 48 \<le> n \<and> n \<le> 57 then Some (n - 48)
      else if 97 \<le> n \<and> n \<le> 102 then Some (n - 87)
      else if 65 \<le> n \<and> n \<le> 70 then Some (n - 55)
      else None)"

text \<open>\<open>url.QueryUnescape\<close>, with \<open>None\<close> for its error.\<close>

fun QueryUnescape :: "string \<Rightarrow> string option" where
  "QueryUnescape [] = Some []"
| "QueryUnescape (c # cs) =
     (if c = CHR ''%'' then
        (case cs of
           a # b # ds \<Rightarrow>
             (case (hexDigit a, hexDigit b) of
                (Some x, Some y) \<Rightarrow> map_option ((#) (char_of (16 * x + y))) (QueryUnescape ds)
              | _ \<Rightarrow> None)
         | _ \<Rightarrow> None)
      else if c = CHR ''+'' then map_option ((#) (CHR '' '')) (QueryUnescape cs)
      else map_option ((#) c) (QueryUnescape cs))"

text \<open>\<open>strings.Cut\<close> at the first byte \<open>d\<close>.\<close>

definition cutByte :: "char \<Rightarrow> string \<Rightarrow> string \<times> string" where
  "cutByte d s = (case indexByte s d of None \<Rightarrow> (s, []) | Some i \<Rightarrow> (take i s, drop (Suc i) s))"

text \<open>\<open>URL.Query\<close>: pairs with a semicolon and pairs that cannot be unescaped are dropped.\<close>

definition queryPair :: "string \<Rightarrow> (string \<times> string) list" where
  "queryPair p =
     (if CHR '';'' \<in> set p \<or> p = [] then []
      else (case cutByte (CHR ''='') p of
              (k, v) \<Rightarrow> (case (QueryUnescape k, QueryUnescape v) of
                          (Some k', Some v') \<Rightarrow> [(k', v')]
                        | _ \<Rightarrow> [])))"

definition queryValues :: "string \<Rightarrow> (string \<times> string) list" where
  "queryValues q = concat (map queryPair (splitOn (CHR ''&'') q))"

definition queryGet :: "string \<Rightarrow> string \<Rightarrow> string" where
  "queryGet key q = (case map_of (queryValues q) key of None \<Rightarrow> [] | Some v \<Rightarrow> v)"

subsection \<open>The service\<close>

definition PingPongServiceChan :: string where "PingPongServiceChan = ''ping-pong-service''"

text \<open>\<open>Init\<close> sets the headers; it leaves the bus alone and cannot fail. The lifecycle names the three
  bridges by their index.\<close>

definition pingPongInit :: "fabricCore \<Rightarrow> bus \<Rightarrow> (string, string) gomap \<times> bus \<times> err option" where
  "pingPongInit core b = ([(''Content-Type'', ''application/json'')], b, None)"

definition PingPongService :: "nat \<Rightarrow> fabricService" where
  "PingPongService n = \<lparr>sc_id = n, sc_init = Some pingPongInit, sc_bridge = Some [0, 1, 2], sc_context = False,
     sc_isRest = False, sc_onReady = True, sc_onShutdown = True\<rparr>"

text \<open>\<open>unmarshal\<close> is \<open>json.Unmarshal\<close> into a map: the error, or the members of an object, or \<open>None\<close> for the
  literal null, which makes the map nil. The members join the map; \<open>nilMap\<close> is a nil map in an
  \<open>any\<close>, a value that no code of the repository looks into.\<close>

definition nilMap :: gval where "nilMap = GOther 0"

definition mergedMap :: "int \<Rightarrow> (string \<times> gval) list option \<Rightarrow> gval" where
  "mergedMap now members =
     (case members of
        None \<Rightarrow> nilMap
      | Some kvs \<Rightarrow> GMap (setAll kvs [(''timestamp'', GInt now)]))"

definition pingGetMap :: "int \<Rightarrow> string \<Rightarrow> gval" where
  "pingGetMap now val = GMap [(''payload'', GString (val @ ''-response'')), (''timestamp'', GInt now)]"

definition pingPongHandle ::
  "(string \<Rightarrow> (string \<times> gval) list option res) \<Rightarrow> int \<Rightarrow> fabricCore \<Rightarrow> uuid \<Rightarrow> request \<Rightarrow> bus \<Rightarrow> bus option" where
  "pingPongHandle unmarshal now core newId req b =
     (if rq_RequestCommand req = ''ping-post'' then
        (case rq_Payload req of
           GBytes body \<Rightarrow>
             (case unmarshal body of
                Inl e \<Rightarrow> Some (SendErrorResponse core newId req 400 e b)
              | Inr members \<Rightarrow> Some (SendResponse core newId req (mergedMap now members) b))
         | _ \<Rightarrow> None)
      else if rq_RequestCommand req = ''ping-get'' then
        (case rq_Payload req of
           GString val \<Rightarrow> Some (SendResponse core newId req (pingGetMap now val) b)
         | _ \<Rightarrow> None)
      else Some (HandleUnknownRequest core newId req b))"

text \<open>The buffer of the channel that \<open>OnServiceReady\<close> returns.\<close>

definition pingPongReady :: "bool list" where "pingPongReady = [True]"

subsection \<open>The endpoints\<close>

text \<open>\<open>draw r\<close> is the id drawn while the request \<open>r\<close> is built; \<open>pathValue\<close> reads the wildcards of the route
  that matched. The zero uuid is that of a composite literal.\<close>

definition zeroUuid :: uuid where "zeroUuid = 0"

definition pingPostBuilder :: "(httpRequest \<Rightarrow> uuid) \<Rightarrow> requestBuilder" where
  "pingPostBuilder draw r w = (w, Some (CreateServiceRequest (draw r) ''ping-post'' (hq_Body r)))"

definition pingGetBuilder :: requestBuilder where
  "pingGetBuilder r w =
     (w, Some (Request (Some zeroUuid) [] (GString (queryGet ''message'' (hq_RawQuery r))) ''ping-get'' None))"

definition pingFromToBuilder :: "(httpRequest \<Rightarrow> string \<Rightarrow> string) \<Rightarrow> requestBuilder" where
  "pingFromToBuilder pathValue r w =
     (w, Some (Request (Some zeroUuid) []
        (GString (''From '' @ pathValue r ''from'' @ '' to '' @ pathValue r ''to'' @ '': '' @ pathValue r ''message''))
        ''ping-get'' None))"

definition GetRESTBridgeConfig ::
  "(httpRequest \<Rightarrow> uuid) \<Rightarrow> (httpRequest \<Rightarrow> string \<Rightarrow> string) \<Rightarrow> restBridgeConfig list" where
  "GetRESTBridgeConfig draw pathValue =
     [\<lparr>bc_ServiceChannel = PingPongServiceChan, bc_Uri = ''/rest/ping-pong'', bc_Method = ''POST'', bc_AllowHead = True,
       bc_AllowOptions = True, bc_FabricRequestBuilder = pingPostBuilder draw\<rparr>,
      \<lparr>bc_ServiceChannel = PingPongServiceChan, bc_Uri = ''/rest/ping-pong2'', bc_Method = ''GET'', bc_AllowHead = True,
       bc_AllowOptions = True, bc_FabricRequestBuilder = pingGetBuilder\<rparr>,
      \<lparr>bc_ServiceChannel = PingPongServiceChan, bc_Uri = ''/rest/ping-pong/{from}/{to}/{message}'', bc_Method = ''GET'',
       bc_AllowHead = False, bc_AllowOptions = False, bc_FabricRequestBuilder = pingFromToBuilder pathValue\<rparr>]"

end
