(* ===== verification/BusExchange.thy ===== *)
theory BusExchange
  imports BusFacts
begin

text \<open>
  A message from its send to the end of its delivery goroutine, when nothing comes between: which
  functions have then been called, and what of the bus is as before. Shared by the properties that follow
  a request to a service and its response back.
\<close>

text \<open>The handlers of the channel object \<open>r\<close> are those of the streams \<open>rs\<close>, none of which is run once.\<close>

definition streamsOn :: "bus \<Rightarrow> ref \<Rightarrow> ref list \<Rightarrow> bool" where
  "streamsOn b r rs \<longleftrightarrow>
     map h_contextCallBackFunction (handlersSnapshot (chanAt (bu_mgr b) r)) = map (Some \<circ> WrapperFn) rs \<and> rs \<noteq> [] \<and>
     list_all (\<lambda>h. \<not> h_runOnce h) (handlersSnapshot (chanAt (bu_mgr b) r)) \<and>
     list_all (\<lambda>q. q < length (bu_mh b) \<and> \<not> mh_runOnce (mhAt b q)) rs"

text \<open>All that a delivery changes: counters of channels, and the calls that are logged.\<close>

definition delivered :: "bus \<Rightarrow> userCall list \<Rightarrow> bus \<Rightarrow> bool" where
  "delivered b calls b' \<longleftrightarrow>
     (\<exists>m. b' = b\<lparr>bu_mgr := m, bu_calls := bu_calls b @ calls\<rparr> \<and>
        (\<forall>q. handlersSnapshot (chanAt m q) = handlersSnapshot (chanAt (bu_mgr b) q)) \<and>
        (\<forall>n. GetChannel n m = GetChannel n (bu_mgr b)))"

definition messageCalls :: "bus \<Rightarrow> ref list \<Rightarrow> ctxref \<Rightarrow> message \<Rightarrow> userCall list" where
  "messageCalls b rs ctx msg = concat (map (\<lambda>q. callsMade b q ctx msg) rs)"

lemma callsMade_cong:
  assumes "bu_mh b' = bu_mh b" and "bu_ctxErr b' = bu_ctxErr b"
  shows "callsMade b' q ctx msg = callsMade b q ctx msg"
proof -
  have c: "ctxErrOf b' = ctxErrOf b" using assms by (simp add: ctxErrOf_def fun_eq_iff split: ctxref.split)
  have m: "mhAt b' = mhAt b" using assms by (simp add: mhAt_def fun_eq_iff)
  show ?thesis unfolding callsMade_def blockedHandler_def handlerCtxDone_def c m ..
qed

lemma wrapper_not_once:
  "\<not> mh_runOnce (mhAt b q) \<Longrightarrow> handlerWrapper q ctx msg b = b\<lparr>bu_calls := bu_calls b @ callsMade b q ctx msg\<rparr>"
  by (auto simp: handlerWrapper_def successHandler_def errorHandler_def guarded_def callsMade_def blockedHandler_def
      wantsMessage_def logCall_def Let_def split: option.splits)

lemma dispatchLoop_plain:
  "list_all (\<lambda>h. \<not> h_runOnce h) hs \<Longrightarrow> dispatchLoop (roundDone None) i hs (f, s, p) = (f, s @ hs, p)"
  by (induction hs arbitrary: i s) (simp_all add: roundDone_def)

lemma setChan_snapshot:
  "handlersSnapshot c = handlersSnapshot (chanAt m r) \<Longrightarrow>
   handlersSnapshot (chanAt (setChan r c m) q) = handlersSnapshot (chanAt m q)"
  using chanAt_setChan_cases [of r c m q] by auto

lemma setChan_names: "GetChannel n (setChan r c m) = GetChannel n m"
  by (simp add: GetChannel_def setChan_def)

text \<open>The send: the goroutine that it starts is the last one.\<close>

lemma streams_dispatch:
  assumes "streamsOn b r rs"
  shows "\<exists>m d. dispatchOn r None (Some ctx) msg b = b\<lparr>bu_mgr := m, bu_gor := bu_gor b @ [(r, d)]\<rparr> \<and>
     dl_ctx d = ctx \<and> dl_message d = msg \<and> dl_handlers d = handlersSnapshot (chanAt (bu_mgr b) r) \<and>
     (\<forall>q. handlersSnapshot (chanAt m q) = handlersSnapshot (chanAt (bu_mgr b) q)) \<and>
     (\<forall>n. GetChannel n m = GetChannel n (bu_mgr b))"
proof -
  let ?c = "chanAt (bu_mgr b) r"
  have "handlersSnapshot ?c \<noteq> []" using assms by (auto simp: streamsOn_def)
  then obtain c d where cd: "dispatchContext (roundDone None) (Some ctx) msg ?c = (c, Some d)" "handlersSnapshot c = handlersSnapshot ?c"
      "dl_ctx d = ctx" "dl_message d = msg" "dl_handlers d = handlersSnapshot ?c"
    using assms
    by (auto simp: streamsOn_def dispatchContext_def dispatchLoop_plain normalizeContext_def Let_def case_prod_beta intro!: that)
  then show ?thesis
    by (intro exI [of _ "setChan r c (bu_mgr b)"] exI [of _ d])
       (simp add: dispatchOn_def setChan_snapshot setChan_names onMgr_def)
qed

text \<open>The goroutine: one handler after the other, then its end.\<close>

lemma deliver_handlers:
  "map h_contextCallBackFunction (dl_handlers d) = map (Some \<circ> WrapperFn) rs \<Longrightarrow>
   list_all (\<lambda>q. q < length (bu_mh b) \<and> \<not> mh_runOnce (mhAt b q)) rs \<Longrightarrow> bu_gor b = gs @ [(r, d)] \<Longrightarrow>
   foldl (busStep br) b (replicate (length rs) (EvDeliver (length gs))) =
     b\<lparr>bu_gor := gs @ [(r, d\<lparr>dl_handlers := []\<rparr>)], bu_calls := bu_calls b @ messageCalls b rs (dl_ctx d) (dl_message d)\<rparr>"
proof (induction rs arbitrary: b d)
  case Nil
  then have "d\<lparr>dl_handlers := []\<rparr> = d" by (cases d) simp
  then show ?case using Nil by (simp add: messageCalls_def)
next
  case (Cons q rs)
  then obtain h hs where h: "dl_handlers d = h # hs" "h_contextCallBackFunction h = Some (WrapperFn q)"
      "map h_contextCallBackFunction hs = map (Some \<circ> WrapperFn) rs" by (cases "dl_handlers d") auto
  let ?d = "d\<lparr>dl_handlers := hs\<rparr>"
  let ?b = "b\<lparr>bu_gor := gs @ [(r, ?d)], bu_calls := bu_calls b @ callsMade b q (dl_ctx d) (dl_message d)\<rparr>"
  have cong: "callsMade (b\<lparr>bu_gor := x, bu_calls := y\<rparr>) p ctx msg = callsMade b p ctx msg"
      "callsMade (b\<lparr>bu_gor := x\<rparr>) p ctx msg = callsMade b p ctx msg" for x y p ctx msg
    by (rule callsMade_cong, simp, simp)+
  let ?b1 = "b\<lparr>bu_gor := gs @ [(r, ?d)]\<rparr>"
  have q: "q < length (bu_mh b)" "\<not> mh_runOnce (mhAt ?b1 q)" using Cons.prems(2) by (simp_all add: mhAt_def)
  have "busStep br b (EvDeliver (length gs)) = handlerWrapper q (dl_ctx d) (dl_message d) ?b1"
    using q(1) by (simp add: deliverStep_def Cons.prems(3) h invocationOf_def invoke_def)
  then have "busStep br b (EvDeliver (length gs)) = ?b" unfolding wrapper_not_once [OF q(2)] cong(2) by simp
  moreover have "foldl (busStep br) ?b (replicate (length rs) (EvDeliver (length gs))) =
     ?b\<lparr>bu_gor := gs @ [(r, ?d\<lparr>dl_handlers := []\<rparr>)], bu_calls := bu_calls ?b @ messageCalls ?b rs (dl_ctx ?d) (dl_message ?d)\<rparr>"
    using Cons.prems(2) h(3) by (intro Cons.IH) (simp_all add: mhAt_def)
  ultimately show ?case by (simp add: messageCalls_def cong)
qed

text \<open>The send and its delivery: every stream has been called as it wants, one after the other.\<close>

theorem message_delivered:
  assumes "streamsOn b r rs"
  shows "delivered b (messageCalls b rs ctx msg)
     (foldl (busStep br) (dispatchOn r None (Some ctx) msg b) (replicate (Suc (length rs)) (EvDeliver (length (bu_gor b)))))"
proof -
  from streams_dispatch [OF assms, of ctx msg] obtain m d where md: "dispatchOn r None (Some ctx) msg b = b\<lparr>bu_mgr := m, bu_gor := bu_gor b @ [(r, d)]\<rparr>"
     "dl_ctx d = ctx" "dl_message d = msg" "dl_handlers d = handlersSnapshot (chanAt (bu_mgr b) r)"
     "\<And>q. handlersSnapshot (chanAt m q) = handlersSnapshot (chanAt (bu_mgr b) q)" "\<And>n. GetChannel n m = GetChannel n (bu_mgr b)" by blast
  let ?b = "b\<lparr>bu_mgr := m, bu_gor := bu_gor b @ [(r, d)]\<rparr>" and ?g = "length (bu_gor b)"
  have same: "messageCalls ?b rs ctx msg = messageCalls b rs ctx msg"
    unfolding messageCalls_def by (simp add: callsMade_cong [of ?b b])
  have "foldl (busStep br) ?b (replicate (length rs) (EvDeliver ?g)) =
      ?b\<lparr>bu_gor := bu_gor b @ [(r, d\<lparr>dl_handlers := []\<rparr>)], bu_calls := bu_calls b @ messageCalls b rs ctx msg\<rparr>" (is "_ = ?c")
    using deliver_handlers [of d rs ?b "bu_gor b" r br] assms md same by (simp add: streamsOn_def mhAt_def)
  then have "foldl (busStep br) ?b (replicate (Suc (length rs)) (EvDeliver ?g)) = busStep br ?c (EvDeliver ?g)"
    by (simp only: replicate_Suc replicate_append_same [symmetric] foldl_append foldl_Cons foldl_Nil)
  moreover have "delivered b (messageCalls b rs ctx msg) (busStep br ?c (EvDeliver ?g))"
    unfolding delivered_def
    by (intro exI [of _ "setChan r (activityEnd (dl_seq d) (wgAdd (- 1) (chanAt m r))) m"])
       (simp add: deliverStep_def onMgr_def setChan_snapshot setChan_names md)
  ultimately show ?thesis by (simp only: md(1))
qed

text \<open>What stays for the next message.\<close>

lemma delivered_keeps:
  assumes "delivered b calls b'"
  shows "streamsOn b' r rs = streamsOn b r rs" "GetChannel n (bu_mgr b') = GetChannel n (bu_mgr b)"
    "bu_calls b' = bu_calls b @ calls" "messageCalls b' rs ctx msg = messageCalls b rs ctx msg" "bu_gor b' = bu_gor b"
    "ctxErrOf b' c = ctxErrOf b c"
proof -
  from assms obtain m where m: "b' = b\<lparr>bu_mgr := m, bu_calls := bu_calls b @ calls\<rparr>"
    "\<And>q. handlersSnapshot (chanAt m q) = handlersSnapshot (chanAt (bu_mgr b) q)" "\<And>n. GetChannel n m = GetChannel n (bu_mgr b)"
    by (auto simp: delivered_def)
  then show "streamsOn b' r rs = streamsOn b r rs" "GetChannel n (bu_mgr b') = GetChannel n (bu_mgr b)"
    "bu_calls b' = bu_calls b @ calls" "bu_gor b' = bu_gor b" "ctxErrOf b' c = ctxErrOf b c"
    by (simp_all add: streamsOn_def mhAt_def ctxErrOf_def split: ctxref.split)
  show "messageCalls b' rs ctx msg = messageCalls b rs ctx msg"
    unfolding messageCalls_def by (simp add: m(1) callsMade_cong [of "b\<lparr>bu_mgr := m, bu_calls := bu_calls b @ calls\<rparr>" b])
qed

text \<open>A stream that is handled with a function gets the messages of its direction.\<close>

definition handledBy :: "bus \<Rightarrow> ref \<Rightarrow> Direction \<Rightarrow> nat \<Rightarrow> bool" where
  "handledBy b q dir k \<longleftrightarrow>
     (let mh = mhAt b q in
      mh_direction mh = dir \<and> mh_ignoreId mh \<and> \<not> mh_allTraffic mh \<and> mh_successHandler mh = Some k \<and>
      mh_handlerContext mh = Some CBackground \<and> \<not> mh_runOnce mh)"

lemma handled_called:
  assumes "handledBy b q dir k" and "q \<in> set rs" and "m_Direction msg = dir" and "dir \<noteq> ErrorDir" and "ctxErrOf b ctx = None"
  shows "SuccessCall q k ctx msg \<in> set (messageCalls b rs ctx msg)"
proof -
  have "callsMade b q ctx msg = [SuccessCall q k ctx msg]"
    using assms by (auto simp: handledBy_def callsMade_def blockedHandler_def handlerCtxDone_def ctxErrOf_def wantsMessage_def Let_def)
  then show ?thesis using assms(2) unfolding messageCalls_def by force
qed

end
