(* ===== verification/PingPongFacts.thy ===== *)
theory PingPongFacts
  imports PingPong RestBridgeFacts BusExchange
begin

text \<open>
  What an HTTP client of the ping-pong service gets: the way of a request from its endpoint over the bus
  to the service and of the response back, and what the service answers to other requests.
\<close>

text \<open>The ping-pong service answers every request with exactly one response, for the id of the request:
  without an error for a ping, with error 400 for a body that is not a JSON object, and with error 403
  for a command that it does not know. But it fails, and nothing recovers it, when the payload of a
  ping-post is not a byte slice or that of a ping-get not a string; so does every ping-post whose
  payload was decoded from JSON, as the fabric endpoint does for its clients.\<close>

theorem ping_pong_answers:
  "(case pingPongHandle unmarshal now core newId req b of
      None \<Rightarrow> (rq_RequestCommand req = ''ping-post'' \<and> (\<forall>body. rq_Payload req \<noteq> GBytes body)) \<or>
              (rq_RequestCommand req = ''ping-get'' \<and> (\<forall>val. rq_Payload req \<noteq> GString val))
    | Some b' \<Rightarrow> answersWith core newId req b (\<lambda>c. c = (if rq_RequestCommand req \<in> {''ping-post'', ''ping-get''} then
          (case rq_Payload req of GBytes body \<Rightarrow> (case unmarshal body of Inl e \<Rightarrow> 400 | Inr m \<Rightarrow> 0) | _ \<Rightarrow> 0) else 403)) b')"
proof -
  have "answersWith core newId req b (\<lambda>c. c = 403) (HandleUnknownRequest core newId req b)"
    unfolding HandleUnknownRequest_def by (rule answers_error) simp_all
  moreover have "answersWith core newId req b (\<lambda>c. c = 400) (SendErrorResponse core newId req 400 e b)" for e
    by (rule answers_error) simp_all
  moreover have "answersWith core newId req b (\<lambda>c. c = 0) (SendResponse core newId req v b)" for v
    by (rule answers_ok) simp
  ultimately show ?thesis
    by (cases "rq_Payload req") (auto simp: pingPongHandle_def split: sum.split)
qed

subsection \<open>From HTTP to the service and back\<close>

definition pingCore :: fabricCore where
  "pingCore = \<lparr>co_channelName = PingPongServiceChan, co_headers = [(''Content-Type'', ''application/json'')]\<rparr>"

text \<open>That is the core the service gets from the registry.\<close>

lemma registered_core:
  assumes "wrapperInit ids (PingPongService n) PingPongServiceChan s = (t, Inr sw)"
  shows "rg_cores t ! sw_core sw = pingCore"
  using assms by (auto simp: wrapperInit_def PingPongService_def pingPongInit_def pingCore_def SetHeaders_def Let_def onRegBus_def
      split: sum.splits prod.splits)

text \<open>The status and the JSON value that a request is answered with.\<close>

definition pingAnswer ::
  "(string \<Rightarrow> (string \<times> gval) list option res) \<Rightarrow> int \<Rightarrow> request \<Rightarrow> nat \<times> gval" where
  "pingAnswer unmarshal now req =
     (case rq_Payload req of
        GBytes body \<Rightarrow>
          (case unmarshal body of
             Inl e \<Rightarrow> (400, GResponsePtr (Some (errorFor pingCore req 400 e GNil [] True)))
           | Inr m \<Rightarrow> (200, mergedMap now m))
      | GString val \<Rightarrow> (200, pingGetMap now val)
      | _ \<Rightarrow> (403, GNil))"

lemma ping_headers:
  assumes "\<And>s. rn_sprint env (GString s) = s"
  shows "setResponseHeaders env (mergeHeadersWithDefaults pingCore []) w = setHeader ''Content-Type'' ''application/json'' w"
  using assms by (simp add: mergeHeadersWithDefaults_def pingCore_def gm_set_def gm_empty_def)

lemma render_ok:
  assumes "m_Payload msg = GResponsePtr (Some (responseFor pingCore req v [] True 0))" and "m_Error msg = None"
    and "rn_marshal env v = Inr bs" and "\<And>x. v \<noteq> GBytes x" and "\<And>s. rn_sprint env (GString s) = s"
  shows "renderMessage env msg w = Inr (writeBody bs (setHeader ''Content-Type'' ''application/json'' w))"
proof -
  have "ensureResponseInByteSlice env v = Inr bs" using assms(3,4) by (cases v) (auto simp: ensureResponseInByteSlice_def)
  then show ?thesis using ping_headers [of env w, OF assms(5)] assms(1,2)
    by (simp add: renderMessage_def renderSuccess_def responseFor_def)
qed

lemma render_error:
  assumes "m_Payload msg = GResponsePtr (Some (errorFor pingCore req 400 e GNil [] True))" and "m_Error msg = None"
    and "rn_marshal env (GResponsePtr (Some (errorFor pingCore req 400 e GNil [] True))) = Inr bs"
    and "\<And>s. rn_sprint env (GString s) = s" and "hw_Status w = None"
  shows "renderMessage env msg w =
     Inr (writeBody bs (WriteHeader 400 (setHeader ''Content-Type'' ''application/json'' w)))"
  using ping_headers [of env w, OF assms(4)] assms(1-3,5)
  by (simp add: renderMessage_def renderError_def errorFor_def isPointer_def marshalError_def writeCodeBody_def writeCode_def)

lemma ping_builders:
  assumes "c \<in> set (GetRESTBridgeConfig draw pathValue)" and "bc_FabricRequestBuilder c r w = (w', Some req)"
  shows "w' = w \<and> bc_ServiceChannel c = PingPongServiceChan \<and> rq_Id req \<noteq> None \<and>
     (rq_RequestCommand req = ''ping-post'' \<and> rq_Payload req = GBytes (hq_Body r) \<or>
      rq_RequestCommand req = ''ping-get'' \<and> (\<exists>val. rq_Payload req = GString val))"
  using assms by (auto simp: GetRESTBridgeConfig_def pingPostBuilder_def pingGetBuilder_def pingFromToBuilder_def CreateServiceRequest_def)

text \<open>A request message of the endpoint, and a response message of the service.\<close>

lemma endpoint_sends:
  assumes "atPc EpStart i s" and "er_builder (es_requests s ! i) (er_request (es_requests s ! i)) (er_writer (es_requests s ! i)) = (w, Some req)"
    and "ctxErrOf (es_bus s) ctx = None" and "GetChannel (es_channel s) (bu_mgr (es_bus s)) = Inr r0"
  shows "\<exists>msg. endpointStep env s (EpSend ctx newId cutRound i) =
       updRequest i EpSelect w (s\<lparr>es_bus := dispatchOn r0 cutRound (Some ctx) msg (es_bus s)\<rparr>) \<and>
     m_Direction msg = RequestDir \<and> requestOf msg = Some req \<and> m_DestinationId msg = rq_Id req"
  using assms
  by (intro exI [of _ "GenerateRequest newId (buildConfig newId (es_channel s) (GRequest req) (rq_Id req))"])
    (simp add: endpointSend_def SendRequestMessageContext_def sendMessageContext_def normalizeContext_def messageFor_def
      requestOf_def buildConfig_def Let_def)

lemma service_sends:
  assumes "GetChannel PingPongServiceChan (bu_mgr b) = Inr r1"
  shows "\<exists>msg. sendResponseMessage pingCore newId resp dest b = dispatchOn r1 None (Some CBackground) msg b \<and>
     m_Direction msg = ResponseDir \<and> m_Payload msg = GResponsePtr (Some resp) \<and> m_Error msg = None"
  using assms
  by (intro exI [of _ "GenerateResponse newId (buildConfig newId PingPongServiceChan (GResponsePtr (Some resp)) dest)"])
    (simp add: sendResponseMessage_def SendResponseMessage_def SendResponseMessageContext_def sendMessageContext_def
      normalizeContext_def ctxErrOf_def messageFor_def pingCore_def buildConfig_def RequestDir_def ResponseDir_def Let_def)

text \<open>The service's answer is a send on the bus, and steps of the bus leave the rest of an endpoint alone.\<close>

definition answerOptions :: "response \<Rightarrow> uuid option \<Rightarrow> sendMessageOptions" where
  "answerOptions resp dest =
     \<lparr>so_direction = ResponseDir, so_channelName = PingPongServiceChan, so_payload = GResponsePtr (Some resp), so_err = None,
       so_destinationId = dest\<rparr>"

lemma answer_is_send:
  "sendResponseMessage pingCore newId resp dest b = busStep br b (EvSend (Some CBackground) (answerOptions resp dest) newId None)"
  by (simp add: sendResponseMessage_def SendResponseMessage_def SendResponseMessageContext_def answerOptions_def pingCore_def)

lemma bus_steps: "foldl (endpointStep env) s (map (EpBus br) es) = s\<lparr>es_bus := foldl (busStep br) (es_bus s) es\<rparr>"
  by (induction es arbitrary: s) simp_all

text \<open>The service, called with a request of one of its endpoints.\<close>

lemma ping_answered:
  assumes "rq_RequestCommand req = ''ping-post'' \<and> rq_Payload req = GBytes body \<or>
      rq_RequestCommand req = ''ping-get'' \<and> (\<exists>val. rq_Payload req = GString val)"
    and "rn_marshal env (snd (pingAnswer unmarshal now req)) = Inr bs" and "\<And>v. rn_sprint env (GString v) = v"
  shows "\<exists>resp. pingPongHandle unmarshal now pingCore newId' req b = Some (sendResponseMessage pingCore newId' resp (rq_Id req) b) \<and>
     (\<forall>msg'. m_Payload msg' = GResponsePtr (Some resp) \<and> m_Error msg' = None \<longrightarrow>
       (let out = recovered (renderMessage env msg' freshWriter) in
        hw_Status out = Some (fst (pingAnswer unmarshal now req)) \<and> hw_Body out = bs \<and>
        headerGet ''Content-Type'' (hw_Sent out) = ''application/json''))" (is "\<exists>resp. ?P resp")
proof -
  have ct: "headerGet ''Content-Type'' (headerSet ''Content-Type'' ''application/json'' h) = ''application/json''" for h
    by (simp add: headerGet_set)
  have ok: "?P (responseFor pingCore req v [] True 0)"
    if "pingPongHandle unmarshal now pingCore newId' req b = Some (SendResponse pingCore newId' req v b)"
      "pingAnswer unmarshal now req = (200, v)" "\<And>x. v \<noteq> GBytes x" for v
    using that assms(2,3) render_ok [of _ req v env bs freshWriter, OF _ _ _ that(3) assms(3)] ct
    by (simp add: SendResponse_def recovered_def writeBody_def WriteHeader_def setHeader_def freshWriter_def Let_def)
  have bad: "?P (errorFor pingCore req 400 e GNil [] True)"
    if "pingPongHandle unmarshal now pingCore newId' req b = Some (SendErrorResponse pingCore newId' req 400 e b)"
      "pingAnswer unmarshal now req = (400, GResponsePtr (Some (errorFor pingCore req 400 e GNil [] True)))" for e
    using that assms(2) render_error [of _ req e env bs freshWriter, OF _ _ _ assms(3)] ct
    by (simp add: SendErrorResponse_def SendErrorResponseWithPayload_def recovered_def writeBody_def WriteHeader_def
        setHeader_def freshWriter_def Let_def)
  from assms(1) show ?thesis
  proof (elim disjE conjE exE)
    fix val assume "rq_RequestCommand req = ''ping-get''" "rq_Payload req = GString val"
    then show ?thesis using ok [of "pingGetMap now val"] by (auto simp: pingPongHandle_def pingAnswer_def pingGetMap_def)
  next
    assume r: "rq_RequestCommand req = ''ping-post''" "rq_Payload req = GBytes body"
    show ?thesis
    proof (cases "unmarshal body")
      case (Inl e)
      then show ?thesis using bad [of e] r by (auto simp: pingPongHandle_def pingAnswer_def)
    next
      case (Inr m)
      then show ?thesis using ok [of "mergedMap now m"] r
        by (auto simp: pingPongHandle_def pingAnswer_def mergedMap_def nilMap_def split: option.splits)
    qed
  qed
qed


text \<open>A request with a query, on a bus with the service's stream and the bridge's on its channel.\<close>

definition pingBus :: bus where
  "pingBus = foldl (busStep demoOracle) newBus
     [EvMgr (OpCreate PingPongServiceChan),
      EvNewHandler PingPongServiceChan (zeroOptions\<lparr>mo_direction := RequestDir, mo_ignoreId := True\<rparr>) (1, 2, 3), EvHandle 0 None (Some 7) None 4,
      EvNewHandler PingPongServiceChan (zeroOptions\<lparr>mo_direction := ResponseDir, mo_ignoreId := True\<rparr>) (1, 5, 6), EvHandle 1 None (Some 9) None 8]"

definition pingHttp :: httpRequest where
  "pingHttp = \<lparr>hq_Method = ''GET'', hq_Path = ''/rest/ping-pong2'', hq_RawQuery = ''a=1&message=hi+%21'', hq_RequestURI = [],
     hq_Header = [], hq_RemoteAddr = ''h'', hq_Body = []\<rparr>"

definition pingState :: endpointState where
  "pingState = \<lparr>es_channel = PingPongServiceChan, es_bus = pingBus, es_bridge = \<lparr>mb_stream = 1, mb_payloads = [], mb_blocked = []\<rparr>,
     es_requests = [\<lparr>er_request = pingHttp, er_builder = pingGetBuilder, er_pc = EpStart, er_writer = freshWriter\<rparr>],
     es_answered = []\<rparr>"

definition pingRequest :: request where
  "pingRequest = Request (Some zeroUuid) [] (GString ''hi !'') ''ping-get'' None"

definition pingRender :: renderEnv where
  "pingRender = \<lparr>rn_marshal = (\<lambda>v. Inr ''json''), rn_sprint = (\<lambda>v. case v of GString s \<Rightarrow> s | _ \<Rightarrow> []), rn_pointer = (\<lambda>n. False)\<rparr>"

definition pingGoroutine :: "endpointEv list" where
  "pingGoroutine = map (EpBus demoOracle) (replicate (Suc (length [0 :: ref, 1])) (EvDeliver (length (bu_gor (es_bus pingState)))))"


end
