(* ===== verification/FabricServer.thy ===== *)
theory FabricServer
  imports Fabric StompServer
begin

text \<open>
  The fabric endpoint with its STOMP server (transport/fabric/endpoint.go over stompserver/server.go):
  the endpoint registers its callbacks with the server and starts it, the server's event loop calls them,
  and what the endpoint sends goes into the server's queue. The loop handles no further event before
  all callbacks of one have returned; other operations on the endpoint, such as the registration of a
  route, and other calls of the bus come between them.
\<close>

subsection \<open>The callbacks\<close>

text \<open>The endpoint's functions by their numbers: \<open>bridgeMessage\<close>, \<open>addSubscription\<close>, \<open>removeSubscription\<close>, and
  the function that tells a session event.\<close>

definition onRequestFn :: nat where "onRequestFn = 0"
definition onSubscribeFn :: nat where "onSubscribeFn = 1"
definition onUnsubscribeFn :: nat where "onUnsubscribeFn = 2"
definition onSessionFn :: nat where "onSessionFn = 3"

definition initHandlers :: "'h stompServer \<Rightarrow> 'h stompServer" where
  "initHandlers s = OnUnsubscribeEvent onUnsubscribeFn (OnSubscribeEvent onSubscribeFn (OnApplicationRequest onRequestFn s))"

text \<open>The value of an event type in a session event.\<close>

definition eventTypeCode :: "sessionEvent \<Rightarrow> int" where
  "eventTypeCode t =
     (case t of ConnectionStarting \<Rightarrow> 0 | ConnectionEstablished \<Rightarrow> 1 | ConnectionClosed \<Rightarrow> 2
      | SubscribeToTopic \<Rightarrow> 3 | UnsubscribeFromTopic \<Rightarrow> 4 | IncomingMessage \<Rightarrow> 5)"

definition callEvent :: "freshIds \<Rightarrow> 'h serverCall \<Rightarrow> fabricEv option" where
  "callEvent ids c =
     (case c of
        RequestCall k d body con \<Rightarrow> if k = onRequestFn then Some (FaRequest (fi_msg ids) d body con) else None
      | SubscribeCall k con i d f \<Rightarrow> if k = onSubscribeFn then Some (FaSubscribe ids con i d) else None
      | UnsubscribeCall k con i d \<Rightarrow> if k = onUnsubscribeFn then Some (FaUnsubscribe ids con i d) else None
      | ConnectionCall k e \<Rightarrow>
          if k = onSessionFn then Some (FaSession (fi_msg ids) (ce_ConnId e) (eventTypeCode (ce_eventType e))) else None)"

subsection \<open>The endpoint with its server\<close>

text \<open>\<open>fs_due\<close> lists the callbacks of the current event that have not been called yet.\<close>

record 'h fabricServer =
  fs_server :: "'h stompServer"
  fs_fabric :: fabric
  fs_due :: "'h serverCall list"
  fs_ready :: bool

definition endpointStompConfig :: "endpointConfig \<Rightarrow> (string, 'h middleware list) gomap option \<Rightarrow> 'h stompConfig" where
  "endpointStompConfig config registry =
     (let conf = stompConfigOf (completeConfig config)
      in case registry of None \<Rightarrow> conf | Some r \<Rightarrow> SetMiddlewareRegistry r conf)"

definition newEndpoint ::
  "bus option \<Rightarrow> endpointConfig \<Rightarrow> (string, 'h middleware list) gomap option \<Rightarrow> 'h fabricServer" where
  "newEndpoint b config registry =
     \<lparr>fs_server = initHandlers (NewStompServer (endpointStompConfig config registry)),
      fs_fabric = newFabricEndpoint b config, fs_due = [], fs_ready = False\<rparr>"

text \<open>\<open>Start\<close>, with the error of its context; it waits until the server is ready to accept.\<close>

definition fabricStart :: "err option \<Rightarrow> 'h fabricServer \<Rightarrow> 'h fabricServer \<times> err option" where
  "fabricStart ended s =
     (if fs_ready s then (s, None)
      else (case ended of
              Some e \<Rightarrow> (s, Some e)
            | None \<Rightarrow>
                (s\<lparr>fs_server := serverStart
                     (SetConnectionEventCallback UnsubscribeFromTopic onSessionFn
                       (SetConnectionEventCallback ConnectionClosed onSessionFn
                         (SetConnectionEventCallback ConnectionStarting onSessionFn (fs_server s)))),
                   fs_ready := True\<rparr>, None)))"

text \<open>What the endpoint has sent since is queued at the server.\<close>

definition sendOut :: "'h headerOps \<Rightarrow> serverSend \<Rightarrow> 'h stompServer \<Rightarrow> 'h stompServer" where
  "sendOut ho x s =
     (case x of
        ToTopic dest body \<Rightarrow> SendMessage ho dest body s
      | ToClient con dest body \<Rightarrow> SendMessageToClient ho con dest body s)"

definition withFabric :: "'h headerOps \<Rightarrow> (fabric \<Rightarrow> fabric) \<Rightarrow> 'h fabricServer \<Rightarrow> 'h fabricServer" where
  "withFabric ho g s =
     (let f = g (fs_fabric s) in
      s\<lparr>fs_fabric := f,
        fs_server := foldl (\<lambda>t x. sendOut ho x t) (fs_server s) (drop (length (fa_sent (fs_fabric s))) (fa_sent f))\<rparr>)"

text \<open>A step of the server, of the loop only when no callback is due; the calls that it makes are due.\<close>

definition isLoopStep :: "'h serverEv \<Rightarrow> bool" where
  "isLoopStep e \<longleftrightarrow> (case e of SvRunApi late env \<Rightarrow> True | SvRunConnection \<Rightarrow> True | _ \<Rightarrow> False)"

definition withServer :: "('h stompServer \<Rightarrow> 'h stompServer) \<Rightarrow> 'h fabricServer \<Rightarrow> 'h fabricServer" where
  "withServer g s =
     (let t = g (fs_server s) in
      s\<lparr>fs_server := t, fs_due := fs_due s @ drop (length (sv_calls (fs_server s))) (sv_calls t)\<rparr>)"

text \<open>The operations of the endpoint that its server does not call.\<close>

definition isOwnEvent :: "fabricEv \<Rightarrow> bool" where
  "isOwnEvent e \<longleftrightarrow>
     (case e of FaSubscribe _ _ _ _ \<Rightarrow> False | FaUnsubscribe _ _ _ _ \<Rightarrow> False | FaRequest _ _ _ _ \<Rightarrow> False
      | FaSession _ _ _ \<Rightarrow> False | FaStop \<Rightarrow> False | _ \<Rightarrow> True)"

datatype 'h fabricServerEv =
    FsServer "'h serverEv"
  | FsCallback freshIds
  | FsFabric fabricEv
  | FsStart "err option"
  | FsStop

definition runCallback ::
  "'h headerOps \<Rightarrow> (gval \<Rightarrow> string res) \<Rightarrow> (string \<Rightarrow> request res) \<Rightarrow> freshIds \<Rightarrow> 'h fabricServer \<Rightarrow> 'h fabricServer" where
  "runCallback ho enc dec ids s =
     (case fs_due s of
        [] \<Rightarrow> s
      | c # cs \<Rightarrow>
          (case callEvent ids c of
             None \<Rightarrow> s\<lparr>fs_due := cs\<rparr>
           | Some e \<Rightarrow> withFabric ho (\<lambda>f. fabricStep enc dec f e) (s\<lparr>fs_due := cs\<rparr>)))"

fun fabricServerStep ::
  "'h headerOps \<Rightarrow> (string \<Rightarrow> (int \<times> int) res) \<Rightarrow> (gval \<Rightarrow> string res) \<Rightarrow> (string \<Rightarrow> request res) \<Rightarrow>
   'h fabricServer \<Rightarrow> 'h fabricServerEv \<Rightarrow> 'h fabricServer" where
  "fabricServerStep ho parse enc dec s (FsServer e) =
     (if isLoopStep e \<and> fs_due s \<noteq> [] then s else withServer (\<lambda>t. serverStep ho parse t e) s)"
| "fabricServerStep ho parse enc dec s (FsCallback ids) = runCallback ho enc dec ids s"
| "fabricServerStep ho parse enc dec s (FsFabric e) =
     (if isOwnEvent e then withFabric ho (\<lambda>f. fabricStep enc dec f e) s else s)"
| "fabricServerStep ho parse enc dec s (FsStart ended) = fst (fabricStart ended s)"
| "fabricServerStep ho parse enc dec s FsStop =
     (if fa_stopped (fs_fabric s) then s
      else withServer serverStop (withFabric ho (\<lambda>f. fabricStep enc dec f FaStop) s))"

end
