(* ===== verification/FabricServerFacts.thy ===== *)
theory FabricServerFacts
  imports FabricServer FabricFacts StompServerFacts
begin

text \<open>
  What holds of the fabric endpoint together with its server: the mappings of the endpoint, and with them
  the forwarders on the bus, follow the subscriptions of the clients that the server knows.
\<close>

subsection \<open>The subscribers of a channel\<close>

definition keysAt :: "fabric \<Rightarrow> string \<Rightarrow> string set" where
  "keysAt f ch = (case gm_get (fa_chanMappings f) ch of None \<Rightarrow> {} | Some cm \<Rightarrow> set (gm_keys (ma_subs cm)))"

definition channelAt :: "endpointConfig \<Rightarrow> string \<Rightarrow> string option" where
  "channelAt ec d =
     (case getChannelNameFromSubscription ec d of
        None \<Rightarrow> None
      | Some ch \<Rightarrow> if isProtectedDestination ch then None else Some ch)"

definition clientKeys :: "endpointConfig \<Rightarrow> (string \<times> string \<times> string) set \<Rightarrow> string \<Rightarrow> string set" where
  "clientKeys ec R ch = {mappingId con i | d con i. (d, con, i) \<in> R \<and> channelAt ec d = Some ch}"

lemma keysAt_same: "fa_chanMappings t = fa_chanMappings s \<Longrightarrow> keysAt t ch = keysAt s ch"
  by (simp add: keysAt_def)

lemma keysAt_at:
  "gm_get (fa_chanMappings s) c = None \<Longrightarrow> keysAt s c = {}"
  "gm_get (fa_chanMappings s) c = Some cm \<Longrightarrow> keysAt s c = set (gm_keys (ma_subs cm))"
  by (simp_all add: keysAt_def)

lemma gm_keys_empty [simp]: "gm_keys gm_empty = []"
  by (simp add: gm_keys_def gm_empty_def)

lemma keysAt_bus [simp]:
  "keysAt (onBus g s) ch = keysAt s ch" "keysAt (busMonitorEvent t n s) ch = keysAt s ch"
  "keysAt (needBus g s) ch = keysAt s ch"
  by (simp_all add: keysAt_def busMonitorEvent_def needBus_def split: option.split)

lemma keysAt_set:
  "keysAt (s\<lparr>fa_chanMappings := gm_set c cm (fa_chanMappings s)\<rparr>) ch = (if ch = c then set (gm_keys (ma_subs cm)) else keysAt s ch)"
  by (simp add: keysAt_def)

lemma keysAt_record:
  "keysAt (recordSubscription c key cm s) ch = (if ch = c then insert key (set (gm_keys (ma_subs cm))) else keysAt s ch)"
  by (simp add: recordSubscription_def keysAt_set)

lemma newHandler_plain:
  "GetChannel name (bu_mgr b) = Inr r \<Longrightarrow> \<exists>b' h. ListenStream name ids b = (b', Inr h)"
  by (simp add: ListenStream_def newMessageHandler_def zeroOptions_def Let_def)

lemma GetChannel_created: "\<exists>r. GetChannel name (fst (CreateChannel name m)) = Inr r"
  by (simp add: GetChannel_def CreateChannel_def SendMonitorEvent_def Let_def split: option.split)

lemma listen_fails: "ListenStream name ids b = (b', Inl e) \<Longrightarrow> b' = b"
  by (auto simp: ListenStream_def newMessageHandler_def zeroOptions_def Let_def split: sum.splits)

lemma openForwarder_opens: "\<exists>b' r c. openForwarder ids ch b = (b', Some (r, c))"
proof (cases "ListenStream ch (fi_first ids) b")
  case (Pair b1 x)
  show ?thesis
  proof (cases x)
    case (Inl e)
    obtain r where "GetChannel ch (bu_mgr (onMgr (\<lambda>m. fst (CreateChannel ch m)) b1)) = Inr r"
      using GetChannel_created by (fastforce simp: onMgr_def)
    then obtain b' h where "ListenStream ch (fi_second ids) (onMgr (\<lambda>m. fst (CreateChannel ch m)) b1) = (b', Inr h)"
      using newHandler_plain by blast
    then show ?thesis using Pair Inl unfolding openForwarder_def by auto
  qed (use Pair in \<open>fastforce simp: openForwarder_def\<close>)
qed

lemma installForwarder_opens:
  "fa_bus s = Some b \<Longrightarrow> \<exists>s1 r c. installForwarder ids ch d s = (s1, Some (r, c)) \<and> keysAt s1 = keysAt s"
  using openForwarder_opens [of ids ch b] by (fastforce simp: installForwarder_def Let_def keysAt_def)

lemma union_or:
  "A = B \<union> C \<or> P \<and> A = B \<Longrightarrow> A \<subseteq> B \<union> C"
  "A = B \<union> C \<or> P \<and> A = B \<Longrightarrow> \<not> P \<Longrightarrow> A = B \<union> C"
  by auto

lemma addSubscription_keys:
  shows "keysAt (addSubscription ids con i d s) ch \<subseteq>
      keysAt s ch \<union> (if channelAt (fa_config s) d = Some ch then {mappingId con i} else {})"
    and "fa_bus s \<noteq> None \<Longrightarrow> keysAt (addSubscription ids con i d s) ch =
      keysAt s ch \<union> (if channelAt (fa_config s) d = Some ch then {mappingId con i} else {})"
proof -
  let ?new = "if channelAt (fa_config s) d = Some ch then {mappingId con i} else {}"
  have "keysAt (addSubscription ids con i d s) ch = keysAt s ch \<union> ?new \<or>
     (fa_bus s = None \<and> keysAt (addSubscription ids con i d s) ch = keysAt s ch)"
  proof (cases "channelAt (fa_config s) d")
    case None
    then have "addSubscription ids con i d s = s"
      by (auto simp: channelAt_def addSubscription_def split: option.splits if_splits)
    then show ?thesis using None by simp
  next
    case (Some c)
    then have c: "getChannelNameFromSubscription (fa_config s) d = Some c" "\<not> isProtectedDestination c"
      by (auto simp: channelAt_def split: option.splits if_splits)
    consider (known) cm where "gm_get (fa_chanMappings s) c = Some cm" | (routed) "gm_get (fa_chanMappings s) c = None" "hasRoute c s"
      | (fresh) b where "gm_get (fa_chanMappings s) c = None" "\<not> hasRoute c s" "fa_bus s = Some b"
      | (nobus) "gm_get (fa_chanMappings s) c = None" "\<not> hasRoute c s" "fa_bus s = None" by blast
    then show ?thesis
    proof cases
      case known
      then have "addSubscription ids con i d s = recordSubscription c (mappingId con i) cm s" using c by (simp add: addSubscription_def)
      then show ?thesis using keysAt_at(2) [OF known] Some by (cases "ch = c") (simp_all add: keysAt_record del: set_gm_keys_set)
    next
      case routed
      then have "addSubscription ids con i d s = recordSubscription c (mappingId con i)
          \<lparr>ma_subs = gm_empty, ma_handler = None, ma_autoCreated = False\<rparr> s" using c by (simp add: addSubscription_def)
      then show ?thesis using keysAt_at(1) [OF routed(1)] Some by (cases "ch = c") (simp_all add: keysAt_record)
    next
      case fresh
      then obtain s1 r x where f: "installForwarder ids c d s = (s1, Some (r, x))" "keysAt s1 = keysAt s"
        using installForwarder_opens by blast
      then have "addSubscription ids con i d s = recordSubscription c (mappingId con i)
          \<lparr>ma_subs = gm_empty, ma_handler = Some r, ma_autoCreated = x\<rparr> s1" using fresh c by (simp add: addSubscription_def)
      then show ?thesis using keysAt_at(1) [OF fresh(1)] fun_cong [OF f(2), of ch] Some by (cases "ch = c") (simp_all add: keysAt_record)
    next
      case nobus
      then show ?thesis using c by (simp add: addSubscription_def installForwarder_def)
    qed
  qed
  then show "keysAt (addSubscription ids con i d s) ch \<subseteq> keysAt s ch \<union> ?new"
    and "fa_bus s \<noteq> None \<Longrightarrow> keysAt (addSubscription ids con i d s) ch = keysAt s ch \<union> ?new"
    by (rule union_or(1), rule union_or(2))
qed

lemma removeSubscription_keys:
  assumes "fabricInv s"
  shows "keysAt (removeSubscription ids con i d s) ch =
     keysAt s ch - (if channelAt (fa_config s) d = Some ch then {mappingId con i} else {})"
proof (cases "getChannelNameFromSubscription (fa_config s) d")
  case None
  then show ?thesis by (simp add: removeSubscription_def channelAt_def)
next
  case (Some c)
  show ?thesis
  proof (cases "gm_get (fa_chanMappings s) c")
    case None
    then show ?thesis using Some by (auto simp: removeSubscription_def keysAt_at channelAt_def)
  next
    case (Some cm)
    note d = \<open>getChannelNameFromSubscription (fa_config s) d = Some c\<close>
    have cm: "mappingOk cm" "\<not> isProtectedDestination c" using assms Some by (auto simp: fabricInv_def)
    have at: "channelAt (fa_config s) d = Some c" using d cm by (simp add: channelAt_def)
    let ?k = "mappingId con i"
    have key: "gm_get (ma_subs cm) ?k = Some True \<longleftrightarrow> ?k \<in> set (gm_keys (ma_subs cm))"
      using cm(1) by (auto simp: mappingOk_def gm_keys_iff) metis+
    let ?s = "s\<lparr>fa_chanMappings := gm_set c (cm\<lparr>ma_subs := gm_del ?k (ma_subs cm)\<rparr>) (fa_chanMappings s)\<rparr>"
    have closed: "keysAt (closeMapping ids c (cm\<lparr>ma_subs := gm_del ?k (ma_subs cm)\<rparr>) ?s) ch =
        (if ch = c then {} else keysAt s ch)"
      by (simp add: closeMapping_def Let_def keysAt_def needBus_def split: option.split)
    have old: "keysAt s c = set (gm_keys (ma_subs cm))" using Some by (rule keysAt_at(2))
    show ?thesis
    proof (cases "?k \<in> set (gm_keys (ma_subs cm))")
      case False
      then have "removeSubscription ids con i d s = s" using d Some key by (simp add: removeSubscription_def)
      then show ?thesis using False old at by auto
    next
      case True
      let ?r = "if gm_del ?k (ma_subs cm) = [] then closeMapping ids c (cm\<lparr>ma_subs := gm_del ?k (ma_subs cm)\<rparr>) ?s else ?s"
      have "removeSubscription ids con i d s = busMonitorEvent FabricEndpointUnsubscribeEvt c ?r"
        using d Some key True by (simp add: removeSubscription_def Let_def)
      moreover have "keysAt ?r ch = (if ch = c then set (gm_keys (ma_subs cm)) - {?k} else keysAt s ch)"
      proof (cases "gm_del ?k (ma_subs cm) = []")
        case True
        then have "set (gm_keys (ma_subs cm)) - {?k} = {}" using set_gm_keys_del [of ?k "ma_subs cm"] by (simp add: gm_keys_def)
        then show ?thesis using closed True by simp
      qed (simp add: keysAt_set)
      ultimately show ?thesis using old at by simp
    qed
  qed
qed

subsection \<open>Steps that leave the subscribers alone\<close>

lemma closeStream_keys [simp]: "keysAt (closeStream n s) = keysAt s"
  by (rule ext) (rule keysAt_same, simp)

lemma closeStreams_keys [simp]: "keysAt (foldl (\<lambda>t n. closeStream n t) s ns) = keysAt s"
  by (induction ns arbitrary: s) simp_all

lemma detach_keys [simp]: "keysAt (fst (detachSubscriptionForwarder c s)) = keysAt s"
  by (rule ext) (simp add: detachSubscriptionForwarder_def keysAt_def split: option.split)

lemma fabricStep_keys:
  assumes "isOwnEvent e \<or> e = FaStop \<or> (\<exists>n d b c. e = FaRequest n d b c) \<or> (\<exists>n c t. e = FaSession n c t)"
  shows "keysAt (fabricStep enc dec s e) = keysAt s"
proof -
  have same: "keysAt t = keysAt s" if "sameRouting s t" for t
    by (rule ext) (rule keysAt_same, use that in \<open>simp add: sameRouting_def\<close>)
  have upd: "keysAt (s\<lparr>fa_pending := p\<rparr>) = keysAt s" "keysAt (s\<lparr>fa_routes := m\<rparr>) = keysAt s"
    "keysAt (s\<lparr>fa_routes := m, fa_closed := c\<rparr>) = keysAt s" for p m c
    by (simp_all add: keysAt_def fun_eq_iff)
  have stop: "keysAt ((routerClose s)\<lparr>fa_stopped := True\<rparr>) = keysAt (routerClose s)" by (simp add: keysAt_def fun_eq_iff)
  have pub: "fa_chanMappings (fst (publishRoute ids spec s)) = fa_chanMappings s" for ids spec
    by (simp add: publishRoute_def Let_def split: option.split sum.split prod.split)
  have det: "keysAt (detachRoute n s) = keysAt s" for n
  proof -
    obtain t r where t: "detachSubscriptionForwarder (channelOfRoute (s\<lparr>fa_pending := filter (\<lambda>m. m \<noteq> n) (fa_pending s)\<rparr>) n)
        (s\<lparr>fa_pending := filter (\<lambda>m. m \<noteq> n) (fa_pending s)\<rparr>) = (t, r)" by fastforce
    then have "keysAt t = keysAt s" using detach_keys upd(1) by (metis fst_conv)
    then show ?thesis using t by (simp add: detachRoute_def Let_def fun_eq_iff split: option.split)
  qed
  show ?thesis
  proof (cases e)
    case (FaSession n c t)
    then show ?thesis by (simp add: sendSessionEvent_def fun_eq_iff)
  next
    case (FaPublish ids spec)
    then show ?thesis using pub by (simp add: fun_eq_iff keysAt_def)
  next
    case (FaAttach n k)
    then show ?thesis by (simp add: attachRoute_def Let_def fun_eq_iff keysAt_def)
  next
    case (FaCloseRoute n)
    then show ?thesis using upd(2) by (simp add: closeRoute_def Let_def)
  next
    case FaStop
    then show ?thesis using upd(3) stop by (simp add: fabricStop_def routerClose_def)
  qed (use assms same runFabricFn_same bridgeMessage_same det in \<open>simp_all add: isOwnEvent_def fun_eq_iff\<close>)
qed

text \<open>The configuration, and whether there is a bus, never change.\<close>

definition framed :: "fabric \<Rightarrow> fabric \<Rightarrow> bool" where
  "framed s t \<longleftrightarrow> fa_config t = fa_config s \<and> (fa_bus t = None \<longleftrightarrow> fa_bus s = None)"

lemma framed_refl [simp]: "framed s s"
  by (simp add: framed_def)

lemma framed_onBus [simp]:
  "framed s (onBus g t) = framed s t" "framed s (needBus g t) = framed s t" "framed s (busMonitorEvent e n t) = framed s t"
  "framed s (sendToServer x t) = framed s t"
  by (simp_all add: framed_def onBus_def needBus_def busMonitorEvent_def sendToServer_def split: option.split)

lemma framed_upd [simp]:
  "framed s (t\<lparr>fa_chanMappings := m\<rparr>) = framed s t" "framed s (t\<lparr>fa_pending := p\<rparr>) = framed s t"
  "framed s (t\<lparr>fa_routes := r\<rparr>) = framed s t" "framed s (t\<lparr>fa_routes := r, fa_closed := c\<rparr>) = framed s t"
  "framed s (t\<lparr>fa_handles := h\<rparr>) = framed s t" "framed s (t\<lparr>fa_fns := f\<rparr>) = framed s t"
  "framed s (t\<lparr>fa_stopped := x\<rparr>) = framed s t" "framed s (t\<lparr>fa_panicked := x\<rparr>) = framed s t"
  by (simp_all add: framed_def)

lemma framed_closeStream [simp]: "framed s (closeStream n t) = framed s t"
  by (simp add: closeStream_def)

lemma framed_closeStreams [simp]: "framed s (foldl (\<lambda>t n. closeStream n t) t ns) = framed s t"
  by (induction ns arbitrary: t) simp_all

lemma framed_install: "installForwarder ids c d s = (t, r) \<Longrightarrow> framed s t"
  by (auto simp: installForwarder_def framed_def Let_def split: option.splits prod.splits)

lemma framed_forward: "framed s (forwardMessage enc ch d o1 msg s)"
  by (auto simp: forwardMessage_def Let_def split: sum.split option.split prod.split)

lemma fabricStep_framed: "framed s (fabricStep enc dec s e)"
proof (cases e)
  case (FaSubscribe ids con i d)
  then show ?thesis
    using framed_install [of ids _ d s] by (auto simp: addSubscription_def recordSubscription_def split: option.split prod.split)
next
  case (FaUnsubscribe ids con i d)
  then show ?thesis
    by (auto simp: removeSubscription_def closeMapping_def Let_def split: option.split)
next
  case (FaRequest n d b c)
  then show ?thesis by (auto simp: bridgeMessage_def Let_def split: option.split sum.split)
next
  case (FaPublish ids spec)
  then show ?thesis
    by (auto simp: publishRoute_def Let_def framed_def split: option.split sum.split prod.split)
next
  case (FaDetach n)
  then show ?thesis
    by (auto simp: detachRoute_def detachSubscriptionForwarder_def Let_def split: option.split)
next
  case (FaCall k arg)
  then show ?thesis
    using framed_forward [of s enc]
    by (auto simp: runFabricFn_def RouteMessage_def sendRouteError_def Let_def split: fabricFn.split sum.split option.split)
qed (auto simp: sendSessionEvent_def attachRoute_def closeRoute_def fabricStop_def routerClose_def Let_def)

subsection \<open>The calls of the server\<close>

definition grows :: "'h stompServer \<Rightarrow> 'h stompServer \<Rightarrow> bool" where
  "grows s t \<longleftrightarrow> (\<exists>cs. sv_calls t = sv_calls s @ cs)"

lemma grows_same: "sv_calls t = sv_calls s \<Longrightarrow> grows s t"
  by (simp add: grows_def)

lemma grows_log: "grows s t \<Longrightarrow> grows s (logCalls cs t)" "grows s t \<Longrightarrow> grows s (connectionCallback e t)"
  by (auto simp: grows_def logCalls_def connectionCallback_def split: option.split)

lemma grows_handle: "grows s (handleConnectionEvent e s)"
  by (cases "ce_eventType e")
     (auto simp: handleConnectionEvent_def onConnectionStarting_def onConnectionClosed_def onSubscribeToTopic_def
       onUnsubscribeFromTopic_def onIncomingMessage_def Let_def split: option.split list.split
       intro!: grows_log intro: grows_same)

lemma grows_step: "grows s (serverStep ho parse s e)"
proof (cases e)
  case SvRunConnection
  have "grows s (handleConnectionEvent x (s\<lparr>sv_connectionEvents := xs\<rparr>))" for x xs
    using grows_handle [of "s\<lparr>sv_connectionEvents := xs\<rparr>" x] by (simp add: grows_def)
  then show ?thesis using SvRunConnection by (auto intro: grows_same split: list.split)
next
  case (SvRunApi late env)
  then show ?thesis
    by (auto simp: runApiEvent_def sendFrame_def sendFrameToClient_def intro: grows_same split: list.split apiEvent.split)
qed (auto simp: acceptConnection_def announceConnection_def sendConnectionEvent_def sendAPIEvent_def serverStart_def serverStop_def sendCloseEvent_def Let_def
      intro: grows_same split: list.split)

text \<open>What the endpoint sends is queued by steps of the server that make no call.\<close>

lemma sendOut_inv: "serverInv ho k k' s \<Longrightarrow> serverInv ho k k' (sendOut ho x s)"
proof (cases x)
  case (ToTopic d b)
  assume "serverInv ho k k' s"
  from serverStep_inv [OF this, of _ "SvApi (SendToTopic d (bodyFrame ho d b))"] show ?thesis
    by (simp add: ToTopic sendOut_def SendMessage_def)
next
  case (ToClient c d b)
  assume "serverInv ho k k' s"
  from serverStep_inv [OF this, of _ "SvApi (SendPrivate c d (bodyFrame ho d b))"] show ?thesis
    by (simp add: ToClient sendOut_def SendMessageToClient_def)
qed

lemma sendOuts_inv: "serverInv ho k k' s \<Longrightarrow> serverInv ho k k' (foldl (\<lambda>t x. sendOut ho x t) s xs)"
  by (induction xs arbitrary: s) (simp_all add: sendOut_inv)

lemma sendOut_calls [simp]: "sv_calls (sendOut ho x s) = sv_calls s"
  by (cases x) (simp_all add: sendOut_def SendMessage_def SendMessageToClient_def sendAPIEvent_def)

lemma sendOuts_calls [simp]: "sv_calls (foldl (\<lambda>t x. sendOut ho x t) s xs) = sv_calls s"
  by (induction xs arbitrary: s) simp_all

lemma initHandlers_inv:
  "headerLaws ho \<Longrightarrow> middlewareLaw ho cfg \<Longrightarrow> serverInv ho onSubscribeFn onUnsubscribeFn (initHandlers (NewStompServer cfg))"
  by (simp add: serverInv_def initHandlers_def OnUnsubscribeEvent_def OnSubscribeEvent_def OnApplicationRequest_def
      NewStompServer_def tellsTable_def tableOk_def subscriptionsAt_def told_def subsRel_def)

lemma setCallback_inv:
  assumes "serverInv ho k k' s" shows "serverInv ho k k' (SetConnectionEventCallback t n s)"
  using assms by (intro serverInv_frame [OF assms]) (auto simp: SetConnectionEventCallback_def sameTable_def serverInv_def)

subsection \<open>The endpoint with its server\<close>

text \<open>The calls that have been made, and the subscriptions that they told.\<close>

definition madeCalls :: "'h fabricServer \<Rightarrow> 'h serverCall list" where
  "madeCalls s = take (length (sv_calls (fs_server s)) - length (fs_due s)) (sv_calls (fs_server s))"

definition seen :: "'h fabricServer \<Rightarrow> (string \<times> string \<times> string) set" where
  "seen s = foldl (replayCall onSubscribeFn onUnsubscribeFn) {} (madeCalls s)"

definition uniqueKeys :: "endpointConfig \<Rightarrow> (string \<times> string \<times> string) set \<Rightarrow> bool" where
  "uniqueKeys ec R \<longleftrightarrow>
     (\<forall>d con i d' con' i'. (d, con, i) \<in> R \<longrightarrow> (d', con', i') \<in> R \<longrightarrow> channelAt ec d \<noteq> None \<longrightarrow> channelAt ec d' = channelAt ec d \<longrightarrow>
        mappingId con i = mappingId con' i' \<longrightarrow> (d, con, i) = (d', con', i'))"

text \<open>A step is tidy if the callback that it runs does not name the key of another subscription of the
  same channel: the client takes an id for one destination at a time.\<close>

definition tidyStep :: "'h fabricServer \<Rightarrow> bool" where
  "tidyStep s \<longleftrightarrow>
     (case fs_due s of
        SubscribeCall k con i d f # cs \<Rightarrow> uniqueKeys (fa_config (fs_fabric s)) (insert (d, con, i) (seen s))
      | UnsubscribeCall k con i d # cs \<Rightarrow> uniqueKeys (fa_config (fs_fabric s)) (insert (d, con, i) (seen s))
      | _ \<Rightarrow> True)"

definition clientMove where
  "clientMove ho parse enc dec tidy s t \<longleftrightarrow>
     (\<exists>e. t = fabricServerStep ho parse enc dec s e \<and> (tidy \<longrightarrow> tidyStep s))"

definition followsInv :: "'h headerOps \<Rightarrow> bool \<Rightarrow> 'h fabricServer \<Rightarrow> bool" where
  "followsInv ho tidy s \<longleftrightarrow>
     serverInv ho onSubscribeFn onUnsubscribeFn (fs_server s) \<and> fabricInv (fs_fabric s) \<and>
     (\<exists>made. sv_calls (fs_server s) = made @ fs_due s) \<and>
     (\<forall>ch. keysAt (fs_fabric s) ch \<subseteq> clientKeys (fa_config (fs_fabric s)) (seen s) ch) \<and>
     (tidy \<longrightarrow> fa_bus (fs_fabric s) \<noteq> None \<and> uniqueKeys (fa_config (fs_fabric s)) (seen s) \<and>
        (\<forall>ch. keysAt (fs_fabric s) ch = clientKeys (fa_config (fs_fabric s)) (seen s) ch))"

lemma seen_made: "sv_calls (fs_server s) = made @ fs_due s \<Longrightarrow> seen s = foldl (replayCall onSubscribeFn onUnsubscribeFn) {} made"
  by (simp add: seen_def madeCalls_def)

lemma follows_server:
  assumes inv: "followsInv ho tidy s" and server: "serverInv ho onSubscribeFn onUnsubscribeFn (g (fs_server s))"
    and calls: "grows (fs_server s) (g (fs_server s))"
  shows "followsInv ho tidy (withServer g s)"
proof -
  let ?t = "withServer g s"
  obtain made where made: "sv_calls (fs_server s) = made @ fs_due s" using inv by (auto simp: followsInv_def)
  obtain cs where cs: "sv_calls (g (fs_server s)) = sv_calls (fs_server s) @ cs" using calls by (auto simp: grows_def)
  have fields: "fs_fabric ?t = fs_fabric s" "fs_server ?t = g (fs_server s)" "fs_due ?t = fs_due s @ cs"
    using cs by (simp_all add: withServer_def Let_def)
  have made': "sv_calls (fs_server ?t) = made @ fs_due ?t" using made cs fields by simp
  then have "seen ?t = seen s" using seen_made [OF made] seen_made [OF made'] by simp
  then show ?thesis using inv server fields(1,2) made' by (auto simp: followsInv_def)
qed

lemma follows_own:
  assumes inv: "followsInv ho tidy s" and keys: "keysAt (g (fs_fabric s)) = keysAt (fs_fabric s)"
    and frame: "framed (fs_fabric s) (g (fs_fabric s))" and fab: "fabricInv (g (fs_fabric s))"
  shows "followsInv ho tidy (withFabric ho g s)"
proof -
  let ?t = "withFabric ho g s"
  obtain made where made: "sv_calls (fs_server s) = made @ fs_due s" using inv by (auto simp: followsInv_def)
  have fields: "fs_fabric ?t = g (fs_fabric s)" "fs_due ?t = fs_due s" "sv_calls (fs_server ?t) = sv_calls (fs_server s)"
    by (simp_all add: withFabric_def Let_def)
  have server: "serverInv ho onSubscribeFn onUnsubscribeFn (fs_server ?t)"
    using inv by (simp add: withFabric_def Let_def followsInv_def sendOuts_inv)
  have made': "sv_calls (fs_server ?t) = made @ fs_due ?t" using made fields by simp
  then have "seen ?t = seen s" using seen_made [OF made] seen_made [OF made'] by simp
  then show ?thesis using inv server fields made' keys frame fab by (auto simp: followsInv_def framed_def)
qed

lemma clientKeys_insert:
  "clientKeys ec (insert (d, con, i) R) ch =
     clientKeys ec R ch \<union> (if channelAt ec d = Some ch then {mappingId con i} else {})"
  by (auto simp: clientKeys_def)

lemma clientKeys_remove:
  "clientKeys ec R ch - (if channelAt ec d = Some ch then {mappingId con i} else {}) \<subseteq> clientKeys ec (R - {(d, con, i)}) ch"
  "uniqueKeys ec (insert (d, con, i) R) \<Longrightarrow>
     clientKeys ec R ch - (if channelAt ec d = Some ch then {mappingId con i} else {}) = clientKeys ec (R - {(d, con, i)}) ch"
proof -
  show 1: "clientKeys ec R ch - (if channelAt ec d = Some ch then {mappingId con i} else {}) \<subseteq> clientKeys ec (R - {(d, con, i)}) ch"
    by (auto simp: clientKeys_def)
  assume u: "uniqueKeys ec (insert (d, con, i) R)"
  have other: "mappingId con' i' \<noteq> mappingId con i"
    if "(d', con', i') \<in> R - {(d, con, i)}" "channelAt ec d = Some ch" "channelAt ec d' = Some ch" for d' con' i'
  proof
    assume "mappingId con' i' = mappingId con i"
    moreover have "channelAt ec d \<noteq> None" "channelAt ec d' = channelAt ec d" using that by simp_all
    ultimately have "(d, con, i) = (d', con', i')" using u that(1) unfolding uniqueKeys_def by (metis DiffD1 insertCI)
    then show False using that(1) by simp
  qed
  have "mappingId con i \<notin> clientKeys ec (R - {(d, con, i)}) ch" if "channelAt ec d = Some ch"
    unfolding clientKeys_def using other that by fastforce
  moreover have "clientKeys ec (R - {(d, con, i)}) ch \<subseteq> clientKeys ec R ch" by (auto simp: clientKeys_def)
  ultimately show "clientKeys ec R ch - (if channelAt ec d = Some ch then {mappingId con i} else {}) = clientKeys ec (R - {(d, con, i)}) ch"
    using 1 by (auto split: if_splits)
qed

lemma uniqueKeys_subset: "uniqueKeys ec R \<Longrightarrow> S \<subseteq> R \<Longrightarrow> uniqueKeys ec S"
  unfolding uniqueKeys_def by blast

text \<open>A callback: with its call the subscriptions seen change as the keys of the mappings do.\<close>

lemma follows_callback:
  assumes inv: "followsInv ho tidy s" and due: "fs_due s = c # cs" and tidy: "tidy \<longrightarrow> tidyStep s"
  shows "followsInv ho tidy (runCallback ho enc dec ids s)"
proof -
  let ?f = "fs_fabric s" and ?ec = "fa_config (fs_fabric s)" and ?R = "seen s" and ?t = "runCallback ho enc dec ids s"
  let ?g = "case callEvent ids c of None \<Rightarrow> ?f | Some e \<Rightarrow> fabricStep enc dec ?f e"
  obtain made where made: "sv_calls (fs_server s) = made @ fs_due s" using inv by (auto simp: followsInv_def)
  have fields: "fs_fabric ?t = ?g" "fs_due ?t = cs" "sv_calls (fs_server ?t) = sv_calls (fs_server s)"
    using due by (simp_all add: runCallback_def withFabric_def Let_def split: option.split)
  have server: "serverInv ho onSubscribeFn onUnsubscribeFn (fs_server ?t)"
    using inv due by (simp add: runCallback_def withFabric_def Let_def followsInv_def sendOuts_inv split: option.split)
  have made': "sv_calls (fs_server ?t) = (made @ [c]) @ fs_due ?t" using made due fields by simp
  have R': "seen ?t = replayCall onSubscribeFn onUnsubscribeFn ?R c" using seen_made [OF made] seen_made [OF made'] by simp
  have frame: "framed ?f ?g" using fabricStep_framed by (simp split: option.split)
  have fab: "fabricInv ?f" using inv by (simp add: followsInv_def)
  then have fab': "fabricInv ?g" using fabricStep_inv by (simp split: option.split)
  have old: "keysAt ?f ch \<subseteq> clientKeys ?ec ?R ch" for ch using inv by (simp add: followsInv_def)
  have oldT: "keysAt ?f ch = clientKeys ?ec ?R ch" "uniqueKeys ?ec ?R" "fa_bus ?f \<noteq> None" if tidy for ch
    using inv that by (simp_all add: followsInv_def)
  have "keysAt ?g ch \<subseteq> clientKeys ?ec (seen ?t) ch \<and> (tidy \<longrightarrow> keysAt ?g ch = clientKeys ?ec (seen ?t) ch \<and> uniqueKeys ?ec (seen ?t))" for ch
  proof (cases "callEvent ids c")
    case None
    then have "seen ?t = ?R" unfolding R' by (auto simp: callEvent_def split: serverCall.splits if_splits)
    then show ?thesis using None old oldT by simp
  next
    case (Some e)
    show ?thesis
    proof (cases c)
      case (SubscribeCall k con i d f)
      then have e: "e = FaSubscribe ids con i d" "seen ?t = insert (d, con, i) ?R"
        using Some unfolding R' by (auto simp: callEvent_def split: if_splits)
      have "uniqueKeys ?ec (insert (d, con, i) ?R)" if tidy
        using tidy that due SubscribeCall by (simp add: tidyStep_def)
      then show ?thesis
        using addSubscription_keys [where ids = ids and con = con and i = i and d = d and s = ?f and ch = ch] old [of ch] oldT(1) [of ch] oldT(2,3) Some unfolding e(2) clientKeys_insert
        by (auto simp: e(1))
    next
      case (UnsubscribeCall k con i d)
      then have e: "e = FaUnsubscribe ids con i d" "seen ?t = ?R - {(d, con, i)}"
        using Some unfolding R' by (auto simp: callEvent_def split: if_splits)
      have u: "uniqueKeys ?ec (insert (d, con, i) ?R)" if tidy
        using tidy that due UnsubscribeCall by (simp add: tidyStep_def)
      have keys: "keysAt ?g ch = keysAt ?f ch - (if channelAt ?ec d = Some ch then {mappingId con i} else {})"
        using Some removeSubscription_keys [OF fab] by (simp add: e(1))
      have "uniqueKeys ?ec (?R - {(d, con, i)})" if tidy using oldT(2) that uniqueKeys_subset by blast
      then show ?thesis
        unfolding keys e(2) using old [of ch] oldT(1) [of ch] clientKeys_remove(1) [of ?ec ?R ch d con i]
          clientKeys_remove(2) [OF u, of ch] by blast
    next
      case (ConnectionCall k x)
      then have "keysAt ?g = keysAt ?f" "seen ?t = ?R"
        using Some fabricStep_keys [where e = e and s = ?f] unfolding R' by (auto simp: callEvent_def split: if_splits)
      then show ?thesis using old [of ch] oldT(1) [of ch] oldT(2) by simp
    next
      case (RequestCall k d b con)
      then have "keysAt ?g = keysAt ?f" "seen ?t = ?R"
        using Some fabricStep_keys [where e = e and s = ?f] unfolding R' by (auto simp: callEvent_def split: if_splits)
      then show ?thesis using old [of ch] oldT(1) [of ch] oldT(2) by simp
    qed
  qed
  moreover have "\<exists>made. sv_calls (fs_server ?t) = made @ fs_due ?t" using made' by blast
  ultimately show ?thesis using fields(1) server fab' frame oldT(3) by (simp add: followsInv_def framed_def)
qed

lemma follows_step:
  assumes inv: "followsInv ho tidy s" and tidy: "tidy \<longrightarrow> tidyStep s"
  shows "followsInv ho tidy (fabricServerStep ho parse enc dec s e)"
proof (cases e)
  case (FsServer se)
  have "serverInv ho onSubscribeFn onUnsubscribeFn (fs_server s)" using inv by (simp add: followsInv_def)
  then have "followsInv ho tidy (withServer (\<lambda>t. serverStep ho parse t se) s)"
    by (intro follows_server [OF inv] serverStep_inv grows_step)
  then show ?thesis using FsServer inv by simp
next
  case (FsCallback ids)
  then show ?thesis using follows_callback [OF inv _ tidy] inv
    by (cases "fs_due s") (auto simp: runCallback_def [of _ _ _ _ s])
next
  case (FsFabric fe)
  have "followsInv ho tidy (withFabric ho (\<lambda>f. fabricStep enc dec f fe) s)" if "isOwnEvent fe"
    using that inv by (intro follows_own [OF inv] fabricStep_keys fabricStep_framed fabricStep_inv) (simp_all add: followsInv_def)
  then show ?thesis using FsFabric inv by simp
next
  case (FsStart ended)
  let ?g = "\<lambda>t. serverStart (SetConnectionEventCallback UnsubscribeFromTopic onSessionFn
      (SetConnectionEventCallback ConnectionClosed onSessionFn (SetConnectionEventCallback ConnectionStarting onSessionFn t)))"
  have "serverInv ho onSubscribeFn onUnsubscribeFn (?g (fs_server s))"
    using inv serverStep_inv [of ho onSubscribeFn onUnsubscribeFn _ _ SvStart] by (simp add: followsInv_def setCallback_inv)
  then have "followsInv ho tidy (withServer ?g s)"
    by (intro follows_server [OF inv]) (simp_all add: grows_same serverStart_def SetConnectionEventCallback_def)
  moreover have "withServer ?g s = s\<lparr>fs_server := ?g (fs_server s)\<rparr>"
    by (simp add: withServer_def Let_def serverStart_def SetConnectionEventCallback_def)
  moreover have "followsInv ho tidy (t\<lparr>fs_ready := True\<rparr>) = followsInv ho tidy t" for t
    by (simp add: followsInv_def seen_def madeCalls_def)
  ultimately show ?thesis using FsStart inv by (simp add: fabricStart_def split: option.split)
next
  case FsStop
  let ?s = "withFabric ho (\<lambda>f. fabricStep enc dec f FaStop) s"
  have "followsInv ho tidy ?s"
    using inv by (intro follows_own [OF inv] fabricStep_keys fabricStep_framed fabricStep_inv) (simp_all add: followsInv_def)
  moreover from this have "serverInv ho onSubscribeFn onUnsubscribeFn (serverStop (fs_server ?s))"
    using serverStep_inv [of ho onSubscribeFn onUnsubscribeFn "fs_server ?s" _ SvStop] by (simp add: followsInv_def)
  ultimately have "followsInv ho tidy (withServer serverStop ?s)"
    by (intro follows_server) (simp_all add: grows_same serverStop_def sendCloseEvent_def Let_def)
  then show ?thesis using FsStop inv by simp
qed

interpretation clients: stepper "clientMove ho parse enc dec tidy" "followsInv ho tidy" for ho parse enc dec tidy
  by unfold_locales (auto simp: clientMove_def intro: follows_step)

lemma follows_start:
  assumes "headerLaws ho" and "middlewareLaw ho (endpointStompConfig config registry)"
  shows "followsInv ho tidy (newEndpoint (Some b) config registry)"
proof -
  let ?s0 = "newEndpoint (Some b) config registry"
  have "serverInv ho onSubscribeFn onUnsubscribeFn (fs_server ?s0)"
    using assms by (simp add: newEndpoint_def initHandlers_inv)
  moreover have "fs_fabric ?s0 = newFabricEndpoint (Some b) config" "sv_calls (fs_server ?s0) = []" "fs_due ?s0 = []" "seen ?s0 = {}"
    by (simp_all add: newEndpoint_def initHandlers_def OnUnsubscribeEvent_def OnSubscribeEvent_def
      OnApplicationRequest_def NewStompServer_def seen_def madeCalls_def)
  moreover have "keysAt (newFabricEndpoint (Some b) config) c = {}" "fa_bus (newFabricEndpoint (Some b) config) = Some b" for c
    by (simp_all add: keysAt_def newFabricEndpoint_def gm_empty_def gm_get_def)
  ultimately show ?thesis by (simp add: followsInv_def newFabricEndpoint_inv uniqueKeys_def clientKeys_def)
qed

text \<open>C35: The mappings of the fabric endpoint follow the clients' subscriptions that its server knows, in every
  run of both with all connections, routes and messages in between. Whenever no callback is due, a
  subscriber of a channel's mapping is a subscription in the server's table whose destination names
  that channel, so no mapping and no forwarder outlives the subscriptions it was made for; internal channels have
  none. And on a bus, as long as no client uses one id for two destinations of a channel at a time,
  every subscription in the table has its place in the mapping of its channel.\<close>

theorem mappings_follow_subscriptions:
  assumes "headerLaws ho" and "middlewareLaw ho (endpointStompConfig config registry)"
    and "(clientMove ho parse enc dec tidy)\<^sup>*\<^sup>* (newEndpoint (Some b) config registry) s" and "fs_due s = []"
  shows "keysAt (fs_fabric s) ch \<subseteq>
       {mappingId con i | d con i. (d, con, i) \<in> subsRel (fs_server s) \<and> channelAt (fa_config (fs_fabric s)) d = Some ch} \<and>
     (tidy \<longrightarrow> keysAt (fs_fabric s) ch =
       {mappingId con i | d con i. (d, con, i) \<in> subsRel (fs_server s) \<and> channelAt (fa_config (fs_fabric s)) d = Some ch})"
proof -
  have inv: "followsInv ho tidy s" using clients.inv_star [OF assms(3)] follows_start [OF assms(1,2)] by blast
  have "madeCalls s = sv_calls (fs_server s)" using assms(4) by (simp add: madeCalls_def)
  then have "seen s = told onSubscribeFn onUnsubscribeFn (fs_server s)" by (simp add: seen_def told_def)
  also have "\<dots> = subsRel (fs_server s)" using inv by (simp add: followsInv_def serverInv_def tellsTable_def)
  finally show ?thesis using inv by (simp add: followsInv_def clientKeys_def)
qed

text \<open>A client that subscribes to a topic. The first subscription of all is tidy.\<close>

definition quietCall :: "'h serverCall \<Rightarrow> bool" where
  "quietCall c \<longleftrightarrow> (case c of ConnectionCall k e \<Rightarrow> True | RequestCall k d b con \<Rightarrow> True | _ \<Rightarrow> False)"

definition firstSubscription :: "'h fabricServer \<Rightarrow> bool" where
  "firstSubscription s \<longleftrightarrow>
     (case fs_due s of [] \<Rightarrow> True | c # cs \<Rightarrow> list_all quietCall (madeCalls s))"

lemma firstSubscription_tidy: "firstSubscription s \<Longrightarrow> tidyStep s"
proof -
  assume first: "firstSubscription s"
  have quiet: "foldl (replayCall k k') R cs = R" if "list_all quietCall cs" for k k' R and cs :: "'a serverCall list"
    using that by (induction cs arbitrary: R) (auto simp: quietCall_def split: serverCall.splits)
  have "uniqueKeys ec {x}" for ec x by (auto simp: uniqueKeys_def)
  then show ?thesis
    using first quiet by (auto simp: tidyStep_def firstSubscription_def seen_def split: list.splits serverCall.splits)
qed

fun allAlong :: "('s \<Rightarrow> 'e \<Rightarrow> 's) \<Rightarrow> ('s \<Rightarrow> bool) \<Rightarrow> 's \<Rightarrow> 'e list \<Rightarrow> bool" where
  "allAlong f P s [] = True"
| "allAlong f P s (e # es) = (P s \<and> allAlong f P (f s e) es)"

lemma clientMove_run:
  assumes "allAlong (fabricServerStep ho parse enc dec) firstSubscription s es"
  shows "(clientMove ho parse enc dec tidy)\<^sup>*\<^sup>* s (foldl (fabricServerStep ho parse enc dec) s es)"
  using assms
proof (induction es arbitrary: s)
  case (Cons e es)
  then have "clientMove ho parse enc dec tidy s (fabricServerStep ho parse enc dec s e)"
    using firstSubscription_tidy by (auto simp: clientMove_def)
  moreover have "(clientMove ho parse enc dec tidy)\<^sup>*\<^sup>* (fabricServerStep ho parse enc dec s e)
      (foldl (fabricServerStep ho parse enc dec) (fabricServerStep ho parse enc dec s e) es)"
    using Cons by simp
  ultimately show ?case by (simp add: converse_rtranclp_into_rtranclp del: fabricServerStep.simps)
qed simp

definition clientEvents :: "(string \<times> string) list fabricServerEv list" where
  "clientEvents =
     [FsStart None, FsServer (SvAccept ''10.0.0.1:80'' ''c'' None), FsServer (SvAnnounce okEnv), FsServer SvRunConnection,
      FsCallback plainIds, FsServer (SvConnection ''c'' (InFrame okEnv connectFrame)), FsServer SvRunConnection,
      FsServer (SvConnection ''c'' (InFrame okEnv (subscribeFrame ''s'' ''/topic/news''))), FsServer SvRunConnection, FsCallback plainIds]"

definition clientStart :: "(string \<times> string) list fabricServer" where
  "clientStart = newEndpoint (Some newBus) sampleEndpoint None"

definition clientState :: "(string \<times> string) list fabricServer" where
  "clientState = foldl (fabricServerStep listHeaders (parseTo (1000000, 9000000)) encodeText decodeText) clientStart clientEvents"

lemma clientState_reached:
  "(clientMove listHeaders (parseTo (1000000, 9000000)) encodeText decodeText True)\<^sup>*\<^sup>*
     (newEndpoint (Some newBus) sampleEndpoint None) clientState"
proof -
  have "allAlong (fabricServerStep listHeaders (parseTo (1000000, 9000000)) encodeText decodeText) firstSubscription clientStart clientEvents"
    by code_simp
  then show ?thesis using clientMove_run unfolding clientState_def clientStart_def by blast
qed

lemma sampleEndpoint_law: "middlewareLaw listHeaders (endpointStompConfig sampleEndpoint None)"
  by (simp add: endpointStompConfig_def stompConfigOf_def middlewareLaw_empty)

theorem mappings_follow_subscriptions_witness:
  "keysAt (fs_fabric clientState) ''news'' = {''c#s''} \<and>
   {mappingId con i | d con i. (d, con, i) \<in> subsRel (fs_server clientState) \<and>
      channelAt (fa_config (fs_fabric clientState)) d = Some ''news''} = {''c#s''}"
proof -
  have "fs_due clientState = []" by code_simp
  then have "keysAt (fs_fabric clientState) ''news'' =
      {mappingId con i | d con i. (d, con, i) \<in> subsRel (fs_server clientState) \<and>
         channelAt (fa_config (fs_fabric clientState)) d = Some ''news''}"
    using mappings_follow_subscriptions [OF headerLaws_listHeaders sampleEndpoint_law clientState_reached] by blast
  moreover have "map_option (\<lambda>cm. gm_keys (ma_subs cm)) (gm_get (fa_chanMappings (fs_fabric clientState)) ''news'') = Some [''c#s'']"
    by code_simp
  then have "keysAt (fs_fabric clientState) ''news'' = {''c#s''}" by (auto simp: keysAt_def)
  ultimately show ?thesis by simp
qed

subsection \<open>From the bus to the clients\<close>

text \<open>A payload that is for everybody: not a response, or one without a client to go to.\<close>

definition forEverybody :: "message \<Rightarrow> bool" where
  "forEverybody msg \<longleftrightarrow>
     (case convertPayloadToResponseObj msg of
        (Some resp, _) \<Rightarrow> rs_BrokerDestination resp = None
      | (None, isResponse) \<Rightarrow> \<not> isResponse)"

lemma forward_broadcasts:
  assumes "marshalMessagePayload enc msg = Inr data" and "forEverybody msg"
  shows "forwardMessage enc ch dest override msg f = sendToServer (ToTopic dest data) f"
  using assms
  by (cases "m_Payload msg") (auto simp: forwardMessage_def convertPayloadToResponseObj_def forEverybody_def split: option.splits)


definition newsMessage :: message where
  "newsMessage = GenerateResponse 3 (buildConfig 3 ''news'' (GString ''hello'') None)"


end
