(* ===== verification/Decoding.thy ===== *)
theory Decoding
  imports Messages
begin

text \<open>
  model/message.go and util.go: reading a payload as a value of a wanted type. What reflection, JSON and
  \<open>mapstructure\<close> do is the record \<open>decodeEnv\<close>: the dynamic type of a value, whether a type assertion to
  a type succeeds, whether a type can be assigned to another, zero values, the pointer to a value, the
  decoding of a value into a variable with its old content, and JSON. A type is named as in theory
  \<open>Messages\<close>.
\<close>

record decodeEnv =
  de_typeOf :: "gval \<Rightarrow> goType"
  de_asserts :: "gval \<Rightarrow> goType \<Rightarrow> bool"
  de_assignable :: "goType \<Rightarrow> goType \<Rightarrow> bool"
  de_zero :: "goType \<Rightarrow> gval"
  de_ref :: "gval \<Rightarrow> gval"
  de_decode :: "gval \<Rightarrow> goType \<Rightarrow> gval \<Rightarrow> gval \<times> err option"
  de_marshal :: "gval \<Rightarrow> string res"
  de_unmarshal :: "string \<Rightarrow> goType \<Rightarrow> gval res"
  de_response :: "string \<Rightarrow> response res"
  de_showBytes :: "string \<Rightarrow> string"

text \<open>A variable of a type with its content; an argument that should be a pointer to one.\<close>

datatype castTarget = NotPointer | NilPointer | PointerTo goType gval

definition decodePayloadInto :: "decodeEnv \<Rightarrow> gval \<Rightarrow> castTarget \<Rightarrow> gval \<times> err option" where
  "decodePayloadInto env payload target =
     (case target of
        PointerTo T old \<Rightarrow>
          (if payload = GNil then (de_zero env T, None)
           else if de_assignable env (de_typeOf env payload) T then (payload, None)
           else de_decode env payload T old)
      | _ \<Rightarrow> (GNil, Some ''decodePayloadInto: target must be a non-nil pointer''))"

definition decodePayload :: "decodeEnv \<Rightarrow> goType \<Rightarrow> gval \<Rightarrow> gval \<times> err option" where
  "decodePayload env T payload =
     (if payload = GNil then (de_zero env T, None)
      else if de_asserts env payload T then (payload, None)
      else (case T of
              TPtr E \<Rightarrow>
                (case decodePayloadInto env payload (PointerTo E (de_zero env E)) of
                   (v, Some e) \<Rightarrow> (de_zero env T, Some e)
                 | (v, None) \<Rightarrow> (de_ref env v, None))
            | _ \<Rightarrow> decodePayloadInto env payload (PointerTo T (de_zero env T))))"

definition unwrapFor :: "decodeEnv \<Rightarrow> string \<Rightarrow> gval \<Rightarrow> gval res" where
  "unwrapFor env = unwrapResponsePayload (de_response env) (de_showBytes env)"

definition Decode :: "decodeEnv \<Rightarrow> goType \<Rightarrow> message option \<Rightarrow> gval \<times> err option" where
  "Decode env T msg =
     (case msg of
        None \<Rightarrow> (de_zero env T, Some ''Decode: message cannot be nil'')
      | Some m \<Rightarrow>
          (case unwrapFor env ''Decode'' (m_Payload m) of
             Inl e \<Rightarrow> (de_zero env T, Some e)
           | Inr payload \<Rightarrow> decodePayload env T payload))"

text \<open>The content of the variable afterwards, if there is one.\<close>

definition CastPayloadToType :: "decodeEnv \<Rightarrow> message option \<Rightarrow> castTarget \<Rightarrow> gval option \<times> err option" where
  "CastPayloadToType env msg target =
     (case msg of
        None \<Rightarrow> (None, Some ''CastPayloadToType: message cannot be nil'')
      | Some m \<Rightarrow>
          (case target of
             NotPointer \<Rightarrow> (None, Some ''CastPayloadToType: invalid argument. argument should be the address of an object'')
           | NilPointer \<Rightarrow> (None, Some ''CastPayloadToType: cannot cast to nil'')
           | PointerTo T old \<Rightarrow>
               (case unwrapFor env ''CastPayloadToType'' (m_Payload m) of
                  Inl e \<Rightarrow> (Some old, Some e)
                | Inr payload \<Rightarrow>
                    (case decodePayloadInto env payload target of (v, e) \<Rightarrow> (Some v, e)))))"

text \<open>\<open>ConvertValueToType\<close>; the error of the encoder is dropped, and nothing is then decoded.\<close>

definition ConvertValueToType :: "decodeEnv \<Rightarrow> gval \<Rightarrow> goType option \<Rightarrow> gval res" where
  "ConvertValueToType env v target =
     (case target of
        None \<Rightarrow> Inr v
      | Some T \<Rightarrow>
          (let (itemType, isPointer) = (case T of TPtr E \<Rightarrow> (E, True) | _ \<Rightarrow> (T, False));
               text = (case de_marshal env v of Inl e \<Rightarrow> [] | Inr s \<Rightarrow> s)
           in case de_unmarshal env text itemType of
                Inl e \<Rightarrow> Inl e
              | Inr x \<Rightarrow> Inr (if isPointer then de_ref env x else x)))"

text \<open>Requests whose payload is a query or an HTTP request: \<open>vals\<close> and \<open>r\<close> are these values, into which the
  repository does not look.\<close>

definition CreateServiceRequestWithValues :: "uuid \<Rightarrow> string \<Rightarrow> gval \<Rightarrow> request" where
  "CreateServiceRequestWithValues newId requestType vals = Request (Some newId) [] vals requestType None"

definition CreateServiceRequestWithHttpRequest :: "uuid \<Rightarrow> string \<Rightarrow> gval \<Rightarrow> request" where
  "CreateServiceRequestWithHttpRequest newId requestType r = Request (Some newId) [] r requestType None"

subsection \<open>Facts\<close>

text \<open>The response that a payload is: itself, what a pointer points to, or what the bytes of it decode to.\<close>

definition envelopeOf :: "decodeEnv \<Rightarrow> gval \<Rightarrow> response option" where
  "envelopeOf env payload =
     (case payload of
        GResponsePtr p \<Rightarrow> p
      | GResponse r \<Rightarrow> Some r
      | GBytes s \<Rightarrow> (case de_response env s of Inl e \<Rightarrow> None | Inr r \<Rightarrow> Some r)
      | _ \<Rightarrow> None)"

text \<open>C40: The two ways to read a payload agree: where a type assertion only succeeds for assignable types, as
  in Go, \<open>Decode\<close> to a type that is not a pointer gives what \<open>CastPayloadToType\<close> leaves in a new
  variable of it, without an error exactly if that has none. When the payload is a response with its error
  flag set, both give its error message and the zero value; when it is one without, both give its payload as a value of the
  type; any other payload that is not bytes is itself read so; bytes that are no response are an error for both.\<close>

theorem decode_agrees_with_cast:
  assumes "\<And>v. de_asserts env v T \<Longrightarrow> de_assignable env (de_typeOf env v) T" and "\<And>E. T \<noteq> TPtr E"
  defines "decoded \<equiv> \<lambda>m. Decode env T (Some m)"
    and "cast \<equiv> \<lambda>m. CastPayloadToType env (Some m) (PointerTo T (de_zero env T))"
  shows "fst (cast m) = Some (fst (decoded m)) \<and> (snd (cast m) = None \<longleftrightarrow> snd (decoded m) = None) \<and>
     (\<forall>r. envelopeOf env (m_Payload m) = Some r \<longrightarrow>
        (if rs_Error r then decoded m = (de_zero env T, Some (rs_ErrorMessage r)) \<and> snd (cast m) = Some (rs_ErrorMessage r)
         else decoded m = decodePayloadInto env (rs_Payload r) (PointerTo T (de_zero env T)) \<and> snd (cast m) = snd (decoded m))) \<and>
     (\<not> isEnvelope (m_Payload m) \<longrightarrow>
        decoded m = decodePayloadInto env (m_Payload m) (PointerTo T (de_zero env T)) \<and> snd (cast m) = snd (decoded m)) \<and>
     (\<forall>s e. m_Payload m = GBytes s \<and> de_response env s = Inl e \<longrightarrow> snd (decoded m) \<noteq> None \<and> snd (cast m) \<noteq> None)"
proof -
  have into: "decodePayload env T v = decodePayloadInto env v (PointerTo T (de_zero env T))" for v
    using assms(1,2) by (cases T) (auto simp: decodePayload_def decodePayloadInto_def)
  have envelope: "unwrapFor env op p = (if rs_Error r then Inl (rs_ErrorMessage r) else Inr (rs_Payload r))"
    if "envelopeOf env p = Some r" for op p r
    using that by (auto simp: envelopeOf_def unwrapFor_def responsePayload_def split: gval.splits sum.splits)
  have unwrapped: "unwrapFor env op p = Inr p" if "\<not> isEnvelope p" for op p
    unfolding unwrapFor_def using that by (rule unwrap_passthrough)
  consider (response) r where "envelopeOf env (m_Payload m) = Some r" | (plain) "\<not> isEnvelope (m_Payload m)"
    | (nil) "m_Payload m = GResponsePtr None" | (bytes) s e where "m_Payload m = GBytes s" "de_response env s = Inl e"
  proof (cases "m_Payload m")
    case (GResponsePtr p)
    then show ?thesis using that by (cases p) (auto simp: envelopeOf_def)
  next
    case (GBytes s)
    then show ?thesis using that by (cases "de_response env s") (auto simp: envelopeOf_def)
  qed (use that in \<open>simp_all add: envelopeOf_def isEnvelope_def\<close>)
  then show ?thesis
  proof cases
    case response
    then have "isEnvelope (m_Payload m)" by (auto simp: envelopeOf_def isEnvelope_def split: gval.splits)
    moreover have "\<And>s. m_Payload m = GBytes s \<Longrightarrow> \<exists>e. de_response env s = Inl e \<Longrightarrow> False"
      using response by (auto simp: envelopeOf_def)
    ultimately show ?thesis using response envelope [OF response]
      by (auto simp add: decoded_def cast_def Decode_def CastPayloadToType_def into split: prod.splits)
  next
    case plain
    then have "envelopeOf env (m_Payload m) = None" "\<And>s. m_Payload m \<noteq> GBytes s"
      by (auto simp: envelopeOf_def isEnvelope_def split: gval.splits)
    then show ?thesis using plain
      by (simp add: decoded_def cast_def Decode_def CastPayloadToType_def into unwrapped split: prod.splits)
  next
    case nil
    then show ?thesis
      by (simp add: decoded_def cast_def Decode_def CastPayloadToType_def into unwrapFor_def responsePayload_def envelopeOf_def isEnvelope_def
        split: prod.splits)
  next
    case bytes
    then show ?thesis by (simp add: decoded_def cast_def Decode_def CastPayloadToType_def unwrapFor_def envelopeOf_def isEnvelope_def)
  qed
qed

text \<open>A variable for strings: a string is assigned, a number is not and decodes to nothing.\<close>

definition stringEnv :: decodeEnv where
  "stringEnv =
     \<lparr>de_typeOf = (\<lambda>v. case v of GString s \<Rightarrow> TString | _ \<Rightarrow> TOther 0),
      de_asserts = (\<lambda>v T. case v of GString s \<Rightarrow> T = TString | _ \<Rightarrow> False), de_assignable = (=),
      de_zero = (\<lambda>T. GString []), de_ref = (\<lambda>v. v), de_decode = (\<lambda>v T old. (old, Some ''expected a string'')),
      de_marshal = (\<lambda>v. Inl []), de_unmarshal = (\<lambda>s T. Inl []), de_response = (\<lambda>s. Inl ''not a response''), de_showBytes = (\<lambda>s. s)\<rparr>"

definition failedMessage :: message where
  "failedMessage = GenerateResponse 1 (zeroConfig\<lparr>mc_Payload := GResponsePtr (Some (Response None [] (GString ''x'') 0 True 404 ''gone'' GNil None [] False))\<rparr>)"

theorem decode_agrees_with_cast_witness:
  "Decode stringEnv TString (Some failedMessage) = (GString [], Some ''gone'') \<and>
   snd (CastPayloadToType stringEnv (Some failedMessage) (PointerTo TString (GString []))) = Some ''gone''"
proof -
  have law: "\<And>v. de_asserts stringEnv v TString \<Longrightarrow> de_assignable stringEnv (de_typeOf stringEnv v) TString"
    by (auto simp: stringEnv_def split: gval.splits)
  have "envelopeOf stringEnv (m_Payload failedMessage) = Some (Response None [] (GString ''x'') 0 True 404 ''gone'' GNil None [] False)"
    by code_simp
  moreover have "de_zero stringEnv TString = GString []" by (simp add: stringEnv_def)
  ultimately show ?thesis using decode_agrees_with_cast [OF law, of failedMessage] by simp
qed

text \<open>A response of a type that is wanted comes back as it was sent, and its error as an error.\<close>

lemma decode_response:
  assumes "rs_Payload r \<noteq> GNil" and "de_asserts env (rs_Payload r) T"
  shows "Decode env T (Some (GenerateResponse newId (c\<lparr>mc_Payload := GResponsePtr (Some r)\<rparr>))) =
     (if rs_Error r then (de_zero env T, Some (rs_ErrorMessage r)) else (rs_Payload r, None))"
  using assms by (simp add: Decode_def unwrapFor_def responsePayload_def decodePayload_def)

lemma convert_roundtrip:
  "de_marshal env v = Inr s \<Longrightarrow> de_unmarshal env s T = Inr v \<Longrightarrow> (\<And>E. T \<noteq> TPtr E) \<Longrightarrow>
     ConvertValueToType env v (Some T) = Inr v"
  by (cases T) (auto simp: ConvertValueToType_def)

end
