(* ===== verification/RawConn.thy ===== *)
theory RawConn
  imports StompServer WsListener
begin

text \<open>
  stompserver/tcp_connection_listener.go, the raw connections of websocket_connection_listener.go, the goroutine
  \<open>readInFrames\<close> of stomp_connection.go, and \<open>waitForConnections\<close> of server.go with what the checker of
  addresses is told: how bytes become frames of a connection, and how connections become those of a
  server.
\<close>

subsection \<open>Reading a frame\<close>

text \<open>What \<open>Reader.Read\<close> of the STOMP library makes of the bytes in its buffer: \<open>None\<close> when they do not
  suffice, otherwise its answer, where the frame \<open>None\<close> is a heart-beat, with the number of bytes that it used.\<close>

type_synonym 'h frameParser = "string \<Rightarrow> ('h stompFrame option res \<times> nat) option"

text \<open>A new reader has an empty buffer (of package bufio), to which a read of the connection adds what has arrived; a list holds
  what the next reads return. What \<open>Read\<close> leaves in the buffer goes with the reader.\<close>

fun readerRead :: "'h frameParser \<Rightarrow> string \<Rightarrow> string list \<Rightarrow> ('h stompFrame option res \<times> string list) option" where
  "readerRead rd buf [] = None"
| "readerRead rd buf (c # cs) =
     (case rd (buf @ c) of
        None \<Rightarrow> readerRead rd (buf @ c) cs
      | Some (x, n) \<Rightarrow> Some (x, cs))"

text \<open>The two kinds of raw connections. \<open>ended\<close>: the client has closed its side. The result \<open>None\<close> means that
  the call waits. The entries of \<open>input\<close> are reads for TCP and messages for a WebSocket.\<close>

datatype rawKind = TcpConnection | WebSocketConnection

definition tcpReadFrame ::
  "'h frameParser \<Rightarrow> bool \<Rightarrow> string list \<Rightarrow> ('h stompFrame option res \<times> string list) option" where
  "tcpReadFrame rd ended input =
     (case readerRead rd [] input of
        Some r \<Rightarrow> Some r
      | None \<Rightarrow> if ended then Some (Inl ''EOF'', []) else None)"

definition wsReadFrame ::
  "'h frameParser \<Rightarrow> bool \<Rightarrow> string list \<Rightarrow> ('h stompFrame option res \<times> string list) option" where
  "wsReadFrame rd ended input =
     (case input of
        [] \<Rightarrow> if ended then Some (Inl ''EOF'', []) else None
      | m # ms \<Rightarrow> Some (case rd m of Some (x, n) \<Rightarrow> x | None \<Rightarrow> Inl ''unexpected EOF'', ms))"

definition rawReadFrame ::
  "rawKind \<Rightarrow> 'h frameParser \<Rightarrow> bool \<Rightarrow> string list \<Rightarrow> ('h stompFrame option res \<times> string list) option" where
  "rawReadFrame k rd ended input =
     (case k of
        TcpConnection \<Rightarrow> tcpReadFrame rd ended input
      | WebSocketConnection \<Rightarrow> wsReadFrame rd ended input)"

subsection \<open>A connection with the goroutine that reads\<close>

text \<open>\<open>lc_held\<close> is the frame with which \<open>readInFrames\<close> stands at its select, \<open>lc_reading\<close> whether it has not
  returned, and so closed \<open>inFrames\<close>; \<open>lc_handled\<close> lists the frames that the loop of the connection has
  received.\<close>

record 'h liveConn =
  lc_kind :: rawKind
  lc_conn :: "'h stompConn"
  lc_input :: "string list"
  lc_ended :: bool
  lc_reading :: bool
  lc_held :: "'h stompFrame option"
  lc_inFrames :: "'h stompFrame list"
  lc_handled :: "'h stompFrame list"

definition newLiveConn :: "rawKind \<Rightarrow> string \<Rightarrow> string \<Rightarrow> 'h liveConn" where
  "newLiveConn k newId addr =
     \<lparr>lc_kind = k, lc_conn = newStompConn newId addr, lc_input = [], lc_ended = False, lc_reading = True,
      lc_held = None, lc_inFrames = [], lc_handled = []\<rparr>"

text \<open>The call of \<open>ReadFrame\<close>: a closed connection answers with an error.\<close>

definition readNext :: "'h frameParser \<Rightarrow> 'h liveConn \<Rightarrow> 'h liveConn" where
  "readNext rd l =
     (if \<not> lc_reading l \<or> lc_held l \<noteq> None then l
      else if sn_done (lc_conn l) then l\<lparr>lc_reading := False\<rparr>
      else (case rawReadFrame (lc_kind l) rd (lc_ended l) (lc_input l) of
              None \<Rightarrow> l
            | Some (Inl e, rest) \<Rightarrow> l\<lparr>lc_input := rest, lc_reading := False\<rparr>
            | Some (Inr f, rest) \<Rightarrow> l\<lparr>lc_input := rest, lc_held := f\<rparr>))"

text \<open>The select: \<open>inFrames\<close> has room for 32 frames.\<close>

definition offerFrame :: "'h liveConn \<Rightarrow> 'h liveConn" where
  "offerFrame l =
     (case lc_held l of
        None \<Rightarrow> l
      | Some f \<Rightarrow>
          if length (lc_inFrames l) < 32 then l\<lparr>lc_inFrames := lc_inFrames l @ [f], lc_held := None\<rparr> else l)"

definition dropHeld :: "'h liveConn \<Rightarrow> 'h liveConn" where
  "dropHeld l =
     (if lc_held l \<noteq> None \<and> sn_done (lc_conn l) then l\<lparr>lc_held := None, lc_reading := False\<rparr> else l)"

text \<open>The loop of the connection receives from \<open>inFrames\<close>.\<close>

definition takeFrame ::
  "'h headerOps \<Rightarrow> (string \<Rightarrow> (int \<times> int) res) \<Rightarrow> 'h stompConfig \<Rightarrow> stepEnv \<Rightarrow> 'h liveConn \<Rightarrow> 'h liveConn" where
  "takeFrame ho parse cfg env l =
     (if \<not> sn_running (lc_conn l) then l
      else (case lc_inFrames l of
              f # fs \<Rightarrow>
                l\<lparr>lc_inFrames := fs, lc_handled := lc_handled l @ [f],
                  lc_conn := connStep ho parse cfg (lc_conn l) (InFrame env f)\<rparr>
            | [] \<Rightarrow>
                if lc_reading l then l
                else l\<lparr>lc_conn := connStep ho parse cfg (lc_conn l) (InClosed env)\<rparr>))"

datatype 'h liveEv =
    LcArrive string
  | LcEnd
  | LcRead
  | LcOffer
  | LcDone
  | LcTake stepEnv
  | LcConn "'h connStepEv"

fun readsInFrames :: "'h connStepEv \<Rightarrow> bool" where
  "readsInFrames (InFrame env f) = True"
| "readsInFrames (InClosed env) = True"
| "readsInFrames e = False"

fun liveStep ::
  "'h headerOps \<Rightarrow> (string \<Rightarrow> (int \<times> int) res) \<Rightarrow> 'h stompConfig \<Rightarrow> 'h frameParser \<Rightarrow> 'h liveConn \<Rightarrow> 'h liveEv \<Rightarrow> 'h liveConn" where
  "liveStep ho parse cfg rd l (LcArrive s) = (if lc_ended l then l else l\<lparr>lc_input := lc_input l @ [s]\<rparr>)"
| "liveStep ho parse cfg rd l LcEnd = l\<lparr>lc_ended := True\<rparr>"
| "liveStep ho parse cfg rd l LcRead = readNext rd l"
| "liveStep ho parse cfg rd l LcOffer = offerFrame l"
| "liveStep ho parse cfg rd l LcDone = dropHeld l"
| "liveStep ho parse cfg rd l (LcTake env) = takeFrame ho parse cfg env l"
| "liveStep ho parse cfg rd l (LcConn e) =
     (if readsInFrames e then l else l\<lparr>lc_conn := connStep ho parse cfg (lc_conn l) e\<rparr>)"

subsection \<open>Accepting connections\<close>

text \<open>The listener that a server has: the one for TCP only accepts; the one for WebSockets can be given a
  checker. \<open>ac_accepted\<close> lists the connections with their addresses, \<open>ac_asked\<close> the addresses for which the server asked
  the checker with what it answered, \<open>ac_tracked\<close> the calls of \<open>TrackConnection\<close> by the server, \<open>ac_refused\<close> the addresses that were sent an error frame.\<close>

datatype rawListener = TcpListener | WebSocketListener wsListener

record 'h acceptor =
  ac_server :: "'h stompServer"
  ac_listener :: rawListener
  ac_checker :: "ipChecker option"
  ac_accepted :: "(string \<times> string) list"
  ac_asked :: "(string \<times> string option) list"
  ac_tracked :: "(string \<times> string) list"
  ac_refused :: "(string \<times> err) list"

text \<open>\<open>listen\<close> is the error of \<open>net.Listen\<close>.\<close>

definition NewTcpConnectionListener :: "err option \<Rightarrow> rawListener res" where
  "NewTcpConnectionListener listen = (case listen of Some e \<Rightarrow> Inl e | None \<Rightarrow> Inr TcpListener)"

definition newAcceptor :: "rawListener \<Rightarrow> 'h stompConfig \<Rightarrow> 'h acceptor" where
  "newAcceptor l cfg =
     \<lparr>ac_server = NewStompServer cfg, ac_listener = l, ac_checker = None, ac_accepted = [], ac_asked = [], ac_tracked = [], ac_refused = []\<rparr>"

text \<open>Whether the listener is an \<open>ipBlockingCheckerSetter\<close>.\<close>

definition hasOwnTracking :: "rawListener \<Rightarrow> bool" where
  "hasOwnTracking l = (case l of TcpListener \<Rightarrow> False | WebSocketListener w \<Rightarrow> True)"

definition serverSetChecker :: "ipChecker option \<Rightarrow> 'h acceptor \<Rightarrow> 'h acceptor" where
  "serverSetChecker c a =
     a\<lparr>ac_checker := c,
       ac_listener := (case ac_listener a of
                         TcpListener \<Rightarrow> TcpListener
                       | WebSocketListener w \<Rightarrow> WebSocketListener (SetIPBlockingChecker c w))\<rparr>"

definition atAccept :: "'h acceptor \<Rightarrow> bool" where
  "atAccept a \<longleftrightarrow> sv_accepting (ac_server a) \<and> sv_pending (ac_server a) = []"

text \<open>The rest of a round of \<open>waitForConnections\<close> after \<open>Accept\<close> has answered with an error or a connection's
  address; \<open>i\<close> is the id that is drawn for it, \<open>verdict\<close> what the checker answers if it is asked.\<close>

definition acceptRound :: "string \<Rightarrow> string option \<Rightarrow> err + string \<Rightarrow> 'h acceptor \<Rightarrow> 'h acceptor" where
  "acceptRound i verdict raw a =
     (case raw of
        Inl e \<Rightarrow> a\<lparr>ac_server := (ac_server a)\<lparr>sv_accepting := sv_running (ac_server a)\<rparr>\<rparr>
      | Inr addr \<Rightarrow>
          (let accept = (\<lambda>b. b\<lparr>ac_server := acceptConnection addr i None (ac_server b),
                                ac_accepted := ac_accepted b @ [(i, addr)]\<rparr>)
           in case ac_checker a of
                None \<Rightarrow> accept a
              | Some c \<Rightarrow>
                  (let ip = ck_realIP c addr []; b = a\<lparr>ac_asked := ac_asked a @ [(ip, verdict)]\<rparr> in
                   case verdict of
                     Some msg \<Rightarrow>
                       b\<lparr>ac_server := acceptConnection addr i (Some msg) (ac_server b),
                         ac_refused := ac_refused b @ [(addr, msg)]\<rparr>
                   | None \<Rightarrow>
                       accept (if hasOwnTracking (ac_listener b) then b
                               else b\<lparr>ac_tracked := ac_tracked b @ [(ip, [])]\<rparr>))))"

definition tcpAccept :: "string \<Rightarrow> string option \<Rightarrow> err + string \<Rightarrow> 'h acceptor \<Rightarrow> 'h acceptor" where
  "tcpAccept i verdict raw a =
     (if atAccept a \<and> gm_get (sv_connections (ac_server a)) i = None \<and> \<not> hasOwnTracking (ac_listener a)
      then acceptRound i verdict raw a else a)"

definition wsAccept :: "string \<Rightarrow> string option \<Rightarrow> nat \<Rightarrow> 'h acceptor \<Rightarrow> 'h acceptor" where
  "wsAccept i verdict k a =
     (case ac_listener a of
        TcpListener \<Rightarrow> a
      | WebSocketListener w \<Rightarrow>
          if atAccept a \<and> gm_get (sv_connections (ac_server a)) i = None \<and> k < length (wl_threads w)
          then (case wl_threads w ! k of
                  WtOffer x src custom \<Rightarrow>
                    acceptRound i verdict (case x of RcErr e \<Rightarrow> Inl e | RcConn n \<Rightarrow> Inr (hq_RemoteAddr (wl_conns w ! n)))
                      (a\<lparr>ac_listener := WebSocketListener (Accept k w)\<rparr>)
                | _ \<Rightarrow> a)
          else a)"

text \<open>The server with its listener. Connections come through the listener only, and \<open>Accept\<close> of the
  listener is called by the server only.\<close>

datatype 'h acceptorEv =
    AcSetChecker "ipChecker option"
  | AcTcp string "string option" "err + string"
  | AcWs string "string option" nat
  | AcListener wsEv
  | AcServer "'h serverEv"

fun acceptorStep ::
  "'h headerOps \<Rightarrow> (string \<Rightarrow> (int \<times> int) res) \<Rightarrow> 'h acceptor \<Rightarrow> 'h acceptorEv \<Rightarrow> 'h acceptor" where
  "acceptorStep ho parse a (AcSetChecker c) = serverSetChecker c a"
| "acceptorStep ho parse a (AcTcp i verdict raw) = tcpAccept i verdict raw a"
| "acceptorStep ho parse a (AcWs i verdict k) = wsAccept i verdict k a"
| "acceptorStep ho parse a (AcListener e) =
     (case ac_listener a of
        TcpListener \<Rightarrow> a
      | WebSocketListener w \<Rightarrow>
          (case e of
             WsAccept k \<Rightarrow> a
           | WsSetChecker c \<Rightarrow> a
           | _ \<Rightarrow> a\<lparr>ac_listener := WebSocketListener (wsStep w e)\<rparr>))"
| "acceptorStep ho parse a (AcServer e) =
     (case e of
        SvAccept addr i blocked \<Rightarrow> a
      | _ \<Rightarrow> a\<lparr>ac_server := serverStep ho parse (ac_server a) e\<rparr>)"

definition trackCalls :: "'h acceptor \<Rightarrow> (string \<times> string) list" where
  "trackCalls a = ac_tracked a @ (case ac_listener a of TcpListener \<Rightarrow> [] | WebSocketListener w \<Rightarrow> wl_tracked w)"

definition untrackCalls :: "'h acceptor \<Rightarrow> (string \<times> string) list" where
  "untrackCalls a = (case ac_listener a of TcpListener \<Rightarrow> [] | WebSocketListener w \<Rightarrow> wl_untracked w)"

end
