(* ===== verification/RawConnFacts.thy ===== *)
theory RawConnFacts
  imports RawConn StompServerFacts WsListenerFacts "HOL-Library.Sublist"
begin

text \<open>
  What a raw connection gives to the loop of its STOMP connection, in every interleaving of the network, the
  goroutine that reads and the loop; and which connections a server accepts and tells its checker of.
\<close>

subsection \<open>The frames of a connection\<close>

lemma readerRead_shorter: "readerRead rd buf cs = Some (x, rest) \<Longrightarrow> length rest < length cs"
  by (induction rd buf cs rule: readerRead.induct) (auto split: option.splits prod.splits)

lemma readerRead_append: "readerRead rd buf cs = Some (x, rest) \<Longrightarrow> readerRead rd buf (cs @ ds) = Some (x, rest @ ds)"
  by (induction rd buf cs rule: readerRead.induct) (auto split: option.splits prod.splits)

lemmas rawRead_defs = rawReadFrame_def tcpReadFrame_def wsReadFrame_def

lemma rawRead_shorter: "rawReadFrame k rd False cs = Some (x, rest) \<Longrightarrow> length rest < length cs"
  by (auto simp: rawRead_defs dest: readerRead_shorter split: rawKind.splits list.splits option.splits prod.splits)

lemma rawRead_append:
  "rawReadFrame k rd False cs = Some (x, rest) \<Longrightarrow> rawReadFrame k rd False (cs @ ds) = Some (x, rest @ ds)"
  by (cases k) (auto simp: rawRead_defs readerRead_append split: list.splits option.splits prod.splits)

lemma rawRead_ended: "rawReadFrame k rd b cs = Some (Inr f, rest) \<Longrightarrow> rawReadFrame k rd False cs = Some (Inr f, rest)"
  by (auto simp: rawRead_defs split: rawKind.splits list.splits option.splits prod.splits if_splits)

text \<open>The frames that one call of \<open>ReadFrame\<close> after the other finds in what has arrived, up to an error.\<close>

function framesOf :: "rawKind \<Rightarrow> 'h frameParser \<Rightarrow> string list \<Rightarrow> 'h stompFrame list" where
  "framesOf k rd cs =
     (case rawReadFrame k rd False cs of
        Some (Inr f, rest) \<Rightarrow> (case f of None \<Rightarrow> [] | Some g \<Rightarrow> [g]) @ framesOf k rd rest
      | _ \<Rightarrow> [])"
  by auto
termination by (relation "measure (\<lambda>(k, rd, cs). length cs)") (auto dest: rawRead_shorter)

declare framesOf.simps [simp del]

lemma framesOf_read:
  "rawReadFrame k rd b cs = Some (Inr f, rest) \<Longrightarrow>
   framesOf k rd (cs @ ys) = (case f of None \<Rightarrow> [] | Some g \<Rightarrow> [g]) @ framesOf k rd (rest @ ys)"
  by (drule rawRead_ended, drule rawRead_append [where ds = ys]) (subst framesOf.simps, simp)

subsection \<open>In every interleaving\<close>

definition heldFrames :: "'h liveConn \<Rightarrow> 'h stompFrame list" where
  "heldFrames l = lc_handled l @ lc_inFrames l @ (case lc_held l of None \<Rightarrow> [] | Some f \<Rightarrow> [f])"

definition liveInv :: "rawKind \<Rightarrow> 'h frameParser \<Rightarrow> string list \<Rightarrow> 'h liveConn \<Rightarrow> bool" where
  "liveInv k rd received l \<longleftrightarrow>
     lc_kind l = k \<and> length (lc_inFrames l) \<le> 32 \<and>
     (lc_reading l \<longrightarrow> (\<forall>ys. framesOf k rd (received @ ys) = heldFrames l @ framesOf k rd (lc_input l @ ys))) \<and>
     (\<not> lc_reading l \<longrightarrow> lc_held l = None) \<and>
     (\<forall>ys. prefix (heldFrames l) (framesOf k rd (received @ ys)))"

lemma liveInv_new: "liveInv k rd [] (newLiveConn k i addr)"
  by (simp add: liveInv_def newLiveConn_def heldFrames_def)

lemma liveInv_arrive: "liveInv k rd r l \<Longrightarrow> liveInv k rd (r @ [s]) (l\<lparr>lc_input := lc_input l @ [s]\<rparr>)"
  by (simp add: liveInv_def heldFrames_def)

lemma liveInv_stop:
  assumes "liveInv k rd r l"
  shows "liveInv k rd r (l\<lparr>lc_input := x, lc_held := None, lc_reading := False\<rparr>)"
proof -
  have "prefix (heldFrames (l\<lparr>lc_input := x, lc_held := None, lc_reading := False\<rparr>)) (heldFrames l)"
    by (simp add: heldFrames_def)
  then show ?thesis using assms unfolding liveInv_def by (auto intro: prefix_order.trans)
qed

lemma liveInv_read:
  assumes "liveInv k rd r l"
  shows "liveInv k rd r (readNext rd l)"
proof (cases "lc_reading l \<and> lc_held l = None \<and> \<not> sn_done (lc_conn l)")
  case False
  then show ?thesis using assms liveInv_stop [OF assms, of "lc_input l"] by (auto simp: readNext_def liveInv_def heldFrames_def)
next
  case True
  then have k: "lc_kind l = k" and reading: "lc_reading l"
    and eq: "\<And>ys. framesOf k rd (r @ ys) = heldFrames l @ framesOf k rd (lc_input l @ ys)"
    using assms by (auto simp: liveInv_def)
  show ?thesis
  proof (cases "rawReadFrame k rd (lc_ended l) (lc_input l)")
    case None
    then show ?thesis using True assms k by (simp add: readNext_def)
  next
    case (Some p)
    obtain x rest where p: "p = (x, rest)" by (cases p)
    show ?thesis
    proof (cases x)
      case (Inl e)
      have "l\<lparr>lc_input := rest, lc_held := None, lc_reading := False\<rparr> = l\<lparr>lc_input := rest, lc_reading := False\<rparr>"
        using True by (cases l) simp
      with liveInv_stop [OF assms, of rest] have "liveInv k rd r (l\<lparr>lc_input := rest, lc_reading := False\<rparr>)" by metis
      then show ?thesis using True Some p k Inl by (simp add: readNext_def)
    next
      case (Inr f)
      have n: "readNext rd l = l\<lparr>lc_input := rest, lc_held := f\<rparr>" using True Some p k Inr by (simp add: readNext_def)
      have h: "heldFrames (l\<lparr>lc_input := rest, lc_held := f\<rparr>) = heldFrames l @ (case f of None \<Rightarrow> [] | Some g \<Rightarrow> [g])"
        using True by (simp add: heldFrames_def)
      have "framesOf k rd (r @ ys) = (heldFrames l @ (case f of None \<Rightarrow> [] | Some g \<Rightarrow> [g])) @ framesOf k rd (rest @ ys)" for ys
        using eq [of ys] framesOf_read [OF Some [unfolded p Inr], of ys] by simp
      then show ?thesis using assms reading unfolding n liveInv_def h by simp
    qed
  qed
qed

lemma liveInv_offer: "liveInv k rd r l \<Longrightarrow> liveInv k rd r (offerFrame l)"
  by (auto simp: offerFrame_def liveInv_def heldFrames_def split: option.splits)

lemma liveInv_drop: "liveInv k rd r l \<Longrightarrow> liveInv k rd r (dropHeld l)"
  using liveInv_stop [of k rd r l "lc_input l"] by (simp add: dropHeld_def)

lemma liveInv_take: "liveInv k rd r l \<Longrightarrow> liveInv k rd r (takeFrame ho parse cfg env l)"
  by (auto simp: takeFrame_def liveInv_def heldFrames_def split: list.splits)

lemma liveInv_conn: "liveInv k rd r l \<Longrightarrow> liveInv k rd r (l\<lparr>lc_conn := c\<rparr>)"
  by (simp add: liveInv_def heldFrames_def)

lemma liveInv_end: "liveInv k rd r l \<Longrightarrow> liveInv k rd r (l\<lparr>lc_ended := b\<rparr>)"
  by (simp add: liveInv_def heldFrames_def)

text \<open>What the network brings before the client ends the connection.\<close>

fun arrivals :: "'h liveEv list \<Rightarrow> string list" where
  "arrivals [] = []"
| "arrivals (LcArrive s # es) = s # arrivals es"
| "arrivals (LcEnd # es) = []"
| "arrivals (e # es) = arrivals es"

lemma run_ended:
  "lc_ended l \<Longrightarrow> liveInv k rd r l \<Longrightarrow> liveInv k rd r (foldl (liveStep ho parse cfg rd) l es)"
proof (induction es arbitrary: l)
  case (Cons e es)
  have "lc_ended (liveStep ho parse cfg rd l e) \<and> liveInv k rd r (liveStep ho parse cfg rd l e)"
    using Cons.prems
    by (cases e)
       (simp_all add: liveInv_read liveInv_offer liveInv_drop liveInv_take liveInv_conn liveInv_end,
        auto simp: readNext_def offerFrame_def dropHeld_def takeFrame_def split: option.splits list.splits sum.splits prod.splits)
  then show ?case using Cons.IH by simp
qed simp

lemma run_live: "liveInv k rd r l \<Longrightarrow> \<not> lc_ended l \<Longrightarrow> liveInv k rd (r @ arrivals es) (foldl (liveStep ho parse cfg rd) l es)"
proof (induction es arbitrary: l r)
  case (Cons e es)
  have keep: "\<not> lc_ended (liveStep ho parse cfg rd l e)" if "e \<noteq> LcEnd"
    using that Cons.prems(2)
    by (cases e) (auto simp: readNext_def offerFrame_def dropHeld_def takeFrame_def split: option.splits list.splits sum.splits prod.splits)
  show ?case
  proof (cases e)
    case (LcArrive s)
    then show ?thesis using Cons.IH [OF liveInv_arrive [OF Cons.prems(1), of s]] Cons.prems(2) by simp
  next
    case LcEnd
    then show ?thesis using run_ended [OF _ liveInv_end [OF Cons.prems(1)]] by simp
  qed (use Cons.prems keep in \<open>simp_all add: Cons.IH liveInv_read liveInv_offer liveInv_drop liveInv_take liveInv_conn\<close>)
qed simp

lemma live_frames: "liveInv k rd (arrivals es) (foldl (liveStep ho parse cfg rd) (newLiveConn k i addr) es)"
  using run_live [OF liveInv_new, of k i addr rd es] by (simp add: newLiveConn_def)

subsection \<open>One frame of each read\<close>

definition writtenTogether :: "('h stompFrame \<Rightarrow> string) \<Rightarrow> 'h stompFrame list \<Rightarrow> string" where
  "writtenTogether enc fs = concat (map enc fs)"

text \<open>The reader understands the encoding of a frame, whatever follows it.\<close>

definition understands :: "'h frameParser \<Rightarrow> ('h stompFrame \<Rightarrow> string) \<Rightarrow> 'h stompFrame set \<Rightarrow> bool" where
  "understands rd enc F \<longleftrightarrow> (\<forall>f\<in>F. \<forall>rest. rd (enc f @ rest) = Some (Inr (Some f), length (enc f)))"

lemma rawRead_together:
  assumes "understands rd enc F" and "set (f # fs) \<subseteq> F"
  shows "rawReadFrame k rd False (writtenTogether enc (f # fs) # cs) = Some (Inr (Some f), cs)"
  using assms by (cases k) (simp_all add: rawRead_defs writtenTogether_def understands_def)

lemma framesOf_together:
  "understands rd enc F \<Longrightarrow> \<forall>fs \<in> set gs. fs \<noteq> [] \<and> set fs \<subseteq> F \<Longrightarrow>
   framesOf k rd (map (writtenTogether enc) gs) = map hd gs"
proof (induction gs)
  case Nil
  then show ?case by (cases k) (simp_all add: framesOf.simps rawRead_defs)
next
  case (Cons fs gs)
  then obtain f fs' where fs: "fs = f # fs'" by (cases fs) auto
  have "set (f # fs') \<subseteq> F" using Cons.prems(2) fs by simp
  from rawRead_together [OF Cons.prems(1) this, of k "map (writtenTogether enc) gs"]
  show ?case using Cons fs by (subst framesOf.simps) simp
qed

text \<open>C37: However the network, the goroutine \<open>readInFrames\<close> and the loop of a connection interleave: when the
  client's frames arrive in groups, each in one read (of a TCP connection) or one message (of a WebSocket),
  the loop receives the first frame of each group, once and in order, and \<open>inFrames\<close> never holds more than 32; when all
  that has arrived has been read and the reader has not stopped, none of these is missing. The other frames of a
  group are lost, also over TCP, where the client does not choose how its bytes are grouped.\<close>

theorem first_frame_of_each_read:
  fixes ho :: "'h headerOps" and es :: "'h liveEv list" and parse cfg k i addr
  assumes "understands rd enc F" and "\<forall>fs \<in> set gs. fs \<noteq> [] \<and> set fs \<subseteq> F"
    and "arrivals es = map (writtenTogether enc) gs"
  defines "l \<equiv> foldl (liveStep ho parse cfg rd) (newLiveConn k i addr) es"
  shows "prefix (lc_handled l @ lc_inFrames l) (map hd gs) \<and> length (lc_inFrames l) \<le> 32 \<and>
         (lc_reading l \<and> lc_input l = [] \<and> lc_held l = None \<longrightarrow> lc_handled l @ lc_inFrames l = map hd gs)"
proof -
  have inv: "liveInv k rd (arrivals es) l" unfolding l_def by (rule live_frames)
  have all: "framesOf k rd (arrivals es) = map hd gs"
    unfolding assms(3) by (rule framesOf_together [OF assms(1,2)])
  have none: "framesOf k rd [] = []" by (cases k) (simp_all add: framesOf.simps rawRead_defs)
  have "prefix (heldFrames l) (map hd gs)" using inv all unfolding liveInv_def by (metis append_Nil2)
  moreover have "prefix (lc_handled l @ lc_inFrames l) (heldFrames l)" by (simp add: heldFrames_def)
  moreover have "lc_handled l @ lc_inFrames l = map hd gs" if "lc_reading l" "lc_input l = []" "lc_held l = None"
  proof -
    have "framesOf k rd (arrivals es @ []) = heldFrames l @ framesOf k rd (lc_input l @ [])"
      using inv that(1) unfolding liveInv_def by blast
    then show ?thesis using that all none by (simp add: heldFrames_def)
  qed
  ultimately show ?thesis using inv by (auto simp: liveInv_def intro: prefix_order.trans)
qed

text \<open>Frames that are one byte long, and a client that writes two of them at once.\<close>

definition oneByte :: "(string \<times> string) list frameParser" where
  "oneByte s = (case s of [] \<Rightarrow> None | x # xs \<Rightarrow> Some (Inr (Some \<lparr>fr_Command = [x], fr_Header = [], fr_Body = []\<rparr>), 1))"

definition twoAtOnce :: "(string \<times> string) list liveEv list" where
  "twoAtOnce = [LcArrive ''ab'', LcRead, LcOffer, LcArrive ''c'', LcRead, LcOffer, LcRead]"

definition letterFrame :: "char \<Rightarrow> (string \<times> string) list stompFrame" where
  "letterFrame x = \<lparr>fr_Command = [x], fr_Header = [], fr_Body = []\<rparr>"

lemma oneByte_understands: "understands oneByte fr_Command (range letterFrame)"
  by (auto simp: understands_def oneByte_def letterFrame_def)

lemma first_frame_of_each_read_witness:
  "let l = foldl (liveStep listHeaders (\<lambda>s. Inl s) (NewStompConfig 0 []) oneByte) (newLiveConn TcpConnection ''c'' ''a'') twoAtOnce
   in lc_reading l \<and> lc_input l = [] \<and> lc_held l = None \<and>
      lc_handled l @ lc_inFrames l = [letterFrame CHR ''a'', letterFrame CHR ''c'']"
proof -
  define l where "l = foldl (liveStep listHeaders (\<lambda>s. Inl s) (NewStompConfig 0 []) oneByte) (newLiveConn TcpConnection ''c'' ''a'') twoAtOnce"
  let ?gs = "[[letterFrame CHR ''a'', letterFrame CHR ''b''], [letterFrame CHR ''c'']]"
  have "\<forall>fs \<in> set ?gs. fs \<noteq> [] \<and> set fs \<subseteq> range letterFrame" by simp
  moreover have "arrivals twoAtOnce = map (writtenTogether fr_Command) ?gs"
    by (simp add: twoAtOnce_def writtenTogether_def letterFrame_def)
  ultimately have "lc_reading l \<and> lc_input l = [] \<and> lc_held l = None \<longrightarrow> lc_handled l @ lc_inFrames l = map hd ?gs"
    unfolding l_def using first_frame_of_each_read [OF oneByte_understands] by metis
  moreover have "lc_reading l \<and> lc_input l = [] \<and> lc_held l = None"
    by (simp add: l_def twoAtOnce_def newLiveConn_def readNext_def offerFrame_def rawRead_defs oneByte_def newStompConn_def)
  ultimately show ?thesis unfolding l_def [symmetric] Let_def by simp
qed

subsection \<open>The server keeps the connections that it accepted\<close>

lemma gm_keys_set: "gm_keys (gm_set k v m) = (if gm_get m k = None then gm_keys m @ [k] else gm_keys m)"
  by (simp add: gm_get_None_iff) (simp add: gm_keys_def gm_set_def update_keys)

abbreviation connectionIds :: "'h stompServer \<Rightarrow> string list" where
  "connectionIds s \<equiv> gm_keys (sv_connections s)"

lemma withConnection_ids [simp]: "connectionIds (withConnection i g s) = connectionIds s"
  by (simp add: withConnection_def gm_keys_set split: option.splits)

lemma withConnections_ids [simp]: "connectionIds (withConnections is g s) = connectionIds s"
  unfolding withConnections_def by (induction "is" arbitrary: s) simp_all

lemma sendAll_ids: "connectionIds (foldl (\<lambda>t p. sendToOne ho late f p t) s ps) = connectionIds s"
  by (induction ps arbitrary: s) (simp_all add: sendToOne_def updConnection_def gm_keys_set split: option.splits)

lemma runApiEvent_ids: "connectionIds (runApiEvent ho late env e s) = connectionIds s"
  by (cases e) (simp_all add: runApiEvent_def sendFrame_def sendFrameToClient_def sendAll_ids)

fun acceptsConnection :: "'h serverEv \<Rightarrow> bool" where
  "acceptsConnection (SvAccept addr i blocked) = True"
| "acceptsConnection e = False"

lemma serverStep_ids: "\<not> acceptsConnection e \<Longrightarrow> connectionIds (serverStep ho parse s e) = connectionIds s"
  by (cases e)
     (simp_all add: announceConnection_def sendConnectionEvent_def sendAPIEvent_def serverStart_def serverStop_def sendCloseEvent_def runApiEvent_ids Let_def split: list.splits)

lemma accept_ids:
  "sv_accepting s \<Longrightarrow> sv_pending s = [] \<Longrightarrow> gm_get (sv_connections s) i = None \<Longrightarrow>
   connectionIds (acceptConnection addr i None s) = connectionIds s @ [i]"
  by (simp add: acceptConnection_def gm_keys_set)

lemma refuse_ids: "connectionIds (acceptConnection addr i (Some m) s) = connectionIds s"
  by (simp add: acceptConnection_def)

subsection \<open>What the checker is told\<close>

definition acceptedOk :: "ipChecker \<Rightarrow> bool \<Rightarrow> 'h acceptor \<Rightarrow> bool" where
  "acceptedOk c own a \<longleftrightarrow>
     ac_checker a = Some c \<and> hasOwnTracking (ac_listener a) = own \<and>
     map fst (ac_accepted a) = connectionIds (ac_server a) \<and> distinct (connectionIds (ac_server a)) \<and>
     map (\<lambda>(i, addr). ck_realIP c addr []) (ac_accepted a) = map fst (filter (\<lambda>p. snd p = None) (ac_asked a)) \<and>
     map (\<lambda>(addr, m). (ck_realIP c addr [], Some m)) (ac_refused a) = filter (\<lambda>p. snd p \<noteq> None) (ac_asked a) \<and>
     ac_tracked a = (if own then [] else map (\<lambda>(i, addr). (ck_realIP c addr [], [])) (ac_accepted a))"

lemma acceptedOk_new:
  "acceptedOk c (hasOwnTracking l) (serverSetChecker (Some c) (newAcceptor l cfg))"
  by (simp add: acceptedOk_def serverSetChecker_def newAcceptor_def NewStompServer_def gm_keys_def gm_empty_def
    hasOwnTracking_def split: rawListener.splits)

lemma acceptedOk_round:
  assumes "acceptedOk c own a" and "atAccept a" and "gm_get (sv_connections (ac_server a)) i = None"
  shows "acceptedOk c own (acceptRound i verdict raw a)"
proof (cases raw)
  case (Inl e)
  then show ?thesis using assms(1) by (simp add: acceptRound_def acceptedOk_def)
next
  case (Inr addr)
  then show ?thesis using assms
    by (auto simp: acceptRound_def acceptedOk_def Let_def atAccept_def accept_ids refuse_ids gm_get_None_iff split: option.splits)
qed

lemma acceptedOk_listener: "acceptedOk c True a \<Longrightarrow> acceptedOk c True (a\<lparr>ac_listener := WebSocketListener w\<rparr>)"
  by (simp add: acceptedOk_def hasOwnTracking_def)

lemma acceptedOk_ws: "acceptedOk c own a \<Longrightarrow> ac_listener a = WebSocketListener w \<Longrightarrow> own"
  by (simp add: acceptedOk_def hasOwnTracking_def)

fun setsChecker :: "'h acceptorEv \<Rightarrow> bool" where
  "setsChecker (AcSetChecker c) = True"
| "setsChecker e = False"

lemma acceptedOk_step:
  assumes "acceptedOk c own a" and "\<not> setsChecker e"
  shows "acceptedOk c own (acceptorStep ho parse a e)"
proof (cases e)
  case (AcSetChecker x)
  then show ?thesis using assms(2) by simp
next
  case (AcTcp i verdict raw)
  then show ?thesis using assms(1) by (auto simp: tcpAccept_def acceptedOk_round)
next
  case (AcWs i verdict k)
  show ?thesis
  proof (cases "ac_listener a")
    case (WebSocketListener w)
    with acceptedOk_ws assms(1) have own by blast
    with assms(1) have a: "acceptedOk c own (a\<lparr>ac_listener := WebSocketListener (Accept k w)\<rparr>)"
      using acceptedOk_listener by auto
    then show ?thesis using AcWs WebSocketListener assms(1) acceptedOk_round [OF a]
      by (simp add: wsAccept_def atAccept_def split: wsThread.splits)
  qed (use AcWs assms(1) in \<open>simp add: wsAccept_def\<close>)
next
  case (AcListener x)
  then show ?thesis using assms(1) acceptedOk_listener acceptedOk_ws [OF assms(1)]
    by (cases x) (auto split: rawListener.splits)
next
  case (AcServer x)
  have "acceptedOk c own (a\<lparr>ac_server := serverStep ho parse (ac_server a) x\<rparr>)" if "\<not> acceptsConnection x"
    using assms(1) serverStep_ids [OF that, of ho parse "ac_server a"] by (simp add: acceptedOk_def)
  then show ?thesis using AcServer assms(1) by (cases x) simp_all
qed

lemma acceptedOk_run:
  "acceptedOk c own a \<Longrightarrow> list_all (\<lambda>e. \<not> setsChecker e) es \<Longrightarrow> acceptedOk c own (foldl (acceptorStep ho parse) a es)"
  by (induction es arbitrary: a) (simp_all add: acceptedOk_step)

text \<open>C38: While one checker of addresses is set, whatever it answers at each question, in every run of the server with its listener: the
  connections of the server are those that its loop accepted, each under an id of its own; one after the other they are those
  for whose address the checker answered that it is not blocked, and the others, for which it gave a reason, were refused with that reason;
  over TCP each of them, whether it is still open or not, has been tracked once and nothing is ever
  untracked, so that what the checker counts for an address only grows; over WebSockets the server
  itself tracks none, so that none is counted twice.\<close>

theorem accepted_connections_tracked:
  fixes ho :: "'h headerOps" and es :: "'h acceptorEv list" and parse c listener cfg
  assumes "list_all (\<lambda>e. \<not> setsChecker e) es"
  defines "a \<equiv> foldl (acceptorStep ho parse) (serverSetChecker (Some c) (newAcceptor listener cfg)) es"
  shows "map fst (ac_accepted a) = gm_keys (sv_connections (ac_server a)) \<and> distinct (map fst (ac_accepted a)) \<and>
         map (\<lambda>(i, addr). ck_realIP c addr []) (ac_accepted a) = map fst (filter (\<lambda>p. snd p = None) (ac_asked a)) \<and>
         map (\<lambda>(addr, m). (ck_realIP c addr [], Some m)) (ac_refused a) = filter (\<lambda>p. snd p \<noteq> None) (ac_asked a) \<and>
         (listener = TcpListener \<longrightarrow>
            trackCalls a = map (\<lambda>(i, addr). (ck_realIP c addr [], [])) (ac_accepted a) \<and> untrackCalls a = []) \<and>
         (listener \<noteq> TcpListener \<longrightarrow> ac_tracked a = [])"
proof -
  have ok: "acceptedOk c (hasOwnTracking listener) a"
    unfolding a_def by (rule acceptedOk_run [OF acceptedOk_new assms(1)])
  then have "ac_listener a = TcpListener \<longleftrightarrow> listener = TcpListener"
    by (auto simp: acceptedOk_def hasOwnTracking_def split: rawListener.splits)
  then show ?thesis using ok
    by (auto simp: acceptedOk_def trackCalls_def untrackCalls_def hasOwnTracking_def split: rawListener.splits)
qed

text \<open>A TCP client whose connection has been closed stays tracked.\<close>

lemma accepted_connections_tracked_witness:
  "\<exists>a :: (string \<times> string) list acceptor. trackCalls a = [(''b'', [])] \<and> untrackCalls a = [] \<and>
       map_option sn_done (gm_get (sv_connections (ac_server a)) ''c'') = Some True"
proof -
  let ?es = "[AcServer SvStart, AcTcp ''c'' None (Inr ''b''), AcServer (SvAnnounce okEnv), AcTcp ''d'' (Some ''listed'') (Inr ''x''),
              AcServer (SvConnection ''c'' (InClosed okEnv))]"
  obtain a where a: "a = foldl (acceptorStep listHeaders (\<lambda>s. Inl s))
    (serverSetChecker (Some sampleChecker) (newAcceptor TcpListener (NewStompConfig 0 []))) ?es" by blast
  have "list_all (\<lambda>e. \<not> setsChecker e) ?es" by simp
  from accepted_connections_tracked [OF this, of listHeaders "\<lambda>s. Inl s" sampleChecker TcpListener "NewStompConfig 0 []", folded a]
  have t: "trackCalls a = map (\<lambda>(i, addr). (ck_realIP sampleChecker addr [], [])) (ac_accepted a)" "untrackCalls a = []"
    by simp_all
  have "ac_accepted a = [(''c'', ''b'')]" "map_option sn_done (gm_get (sv_connections (ac_server a)) ''c'') = Some True"
    unfolding a by code_simp+
  with t show ?thesis by - (rule exI [of _ a], simp add: sampleChecker_def)
qed

subsection \<open>The composition refines its parts\<close>

definition serverMove :: "'h headerOps \<Rightarrow> (string \<Rightarrow> (int \<times> int) res) \<Rightarrow> 'h stompServer \<Rightarrow> 'h stompServer \<Rightarrow> bool" where
  "serverMove ho parse s t \<longleftrightarrow> (\<exists>e. t = serverStep ho parse s e)"

definition listenerMove :: "wsListener \<Rightarrow> wsListener \<Rightarrow> bool" where
  "listenerMove w w' \<longleftrightarrow> (\<exists>e. w' = wsStep w e)"

lemma acceptRound_server:
  assumes "atAccept a" and "gm_get (sv_connections (ac_server a)) i = None"
  shows "serverMove ho parse (ac_server a) (ac_server (acceptRound i verdict raw a))"
proof (cases raw)
  case (Inl e)
  have "ac_server (acceptRound i verdict raw a) = serverStep ho parse (ac_server a) (SvAccept [] i (Some e))"
    using assms Inl by (simp add: acceptRound_def acceptConnection_def atAccept_def)
  then show ?thesis unfolding serverMove_def by blast
next
  case (Inr addr)
  have "ac_server (acceptRound i verdict raw a) =
    serverStep ho parse (ac_server a) (SvAccept addr i (case ac_checker a of None \<Rightarrow> None | Some c \<Rightarrow> verdict))"
    using Inr by (simp add: acceptRound_def Let_def split: option.splits)
  then show ?thesis unfolding serverMove_def by blast
qed

lemma acceptor_server:
  "ac_server (acceptorStep ho parse a e) = ac_server a \<or> serverMove ho parse (ac_server a) (ac_server (acceptorStep ho parse a e))"
proof (cases e)
  case (AcTcp i verdict raw)
  then show ?thesis by (auto simp: tcpAccept_def acceptRound_server)
next
  case (AcWs i verdict k)
  have "serverMove ho parse (ac_server a) (ac_server (acceptRound i verdict raw (a\<lparr>ac_listener := l\<rparr>)))"
    if "atAccept a" "gm_get (sv_connections (ac_server a)) i = None" for raw l
    using acceptRound_server [of "a\<lparr>ac_listener := l\<rparr>" i ho parse verdict raw] that by (simp add: atAccept_def)
  then show ?thesis using AcWs by (auto simp: wsAccept_def split: rawListener.splits wsThread.splits)
next
  case (AcServer x)
  then show ?thesis by (cases x) (auto simp: serverMove_def simp del: serverStep.simps)
qed (auto simp: serverSetChecker_def split: rawListener.splits wsEv.splits)

lemma acceptRound_listener [simp]: "ac_listener (acceptRound i verdict raw a) = ac_listener a"
  by (simp add: acceptRound_def Let_def split: sum.splits option.splits)

lemma acceptor_listener:
  assumes "ac_listener a = WebSocketListener w"
  shows "\<exists>w'. ac_listener (acceptorStep ho parse a e) = WebSocketListener w' \<and> (w' = w \<or> listenerMove w w')"
proof -
  have "listenerMove w (wsStep w x)" for x by (auto simp: listenerMove_def)
  from this [of "WsAccept k" for k] this [of "WsSetChecker c" for c] this show ?thesis using assms
    by (cases e) (auto simp: serverSetChecker_def tcpAccept_def wsAccept_def split: wsThread.splits wsEv.splits serverEv.splits simp del: wsStep.simps(1,3,4,5,6))
qed

lemma acceptor_tcp: "ac_listener a = TcpListener \<Longrightarrow> ac_listener (acceptorStep ho parse a e) = TcpListener"
  by (cases e) (simp_all add: serverSetChecker_def tcpAccept_def wsAccept_def split: serverEv.splits)

text \<open>The server with its listener refines both: in every run of the composition, with checkers set and taken
  away at any time, the server's state is one that the server reaches by its own steps, and the state of a WebSocket
  listener one that the listener reaches by its own, so that what holds of either alone holds in it.\<close>

theorem acceptor_refines_parts:
  fixes ho :: "'h headerOps" and cfg :: "'h stompConfig" and es :: "'h acceptorEv list" and parse listener
  defines "a \<equiv> foldl (acceptorStep ho parse) (newAcceptor listener cfg) es"
  shows "(serverMove ho parse)\<^sup>*\<^sup>* (NewStompServer cfg) (ac_server a) \<and>
         (case listener of
            TcpListener \<Rightarrow> ac_listener a = TcpListener
          | WebSocketListener w \<Rightarrow> \<exists>w'. ac_listener a = WebSocketListener w' \<and> listenerMove\<^sup>*\<^sup>* w w')"
  unfolding a_def
proof (induction es rule: rev_induct)
  case Nil
  then show ?case by (simp add: newAcceptor_def split: rawListener.splits)
next
  case (snoc e es)
  let ?a = "foldl (acceptorStep ho parse) (newAcceptor listener cfg) es"
  have "(serverMove ho parse)\<^sup>*\<^sup>* (NewStompServer cfg) (ac_server (acceptorStep ho parse ?a e))"
    using snoc acceptor_server [of ho parse ?a e] by (auto intro: rtranclp.rtrancl_into_rtrancl)
  moreover have "case listener of
            TcpListener \<Rightarrow> ac_listener (acceptorStep ho parse ?a e) = TcpListener
          | WebSocketListener w \<Rightarrow> \<exists>w'. ac_listener (acceptorStep ho parse ?a e) = WebSocketListener w' \<and> listenerMove\<^sup>*\<^sup>* w w'"
  proof (cases listener)
    case (WebSocketListener w)
    with snoc obtain w' where w': "ac_listener ?a = WebSocketListener w'" "listenerMove\<^sup>*\<^sup>* w w'" by auto
    from acceptor_listener [OF this(1), of ho parse e] w'(2) WebSocketListener show ?thesis
      by (auto intro: rtranclp.rtrancl_into_rtrancl)
  qed (use snoc acceptor_tcp [of ?a ho parse e] in \<open>simp\<close>)
  ultimately show ?case by (simp only: foldl_append foldl_Cons foldl_Nil)
qed

end
