(* ===== verification/StompPingFacts.thy ===== *)
theory StompPingFacts
  imports FabricServerFacts PingPongFacts
begin

text \<open>
  A STOMP client of the ping-pong service: the way of its request from its connection over the STOMP server, the fabric
  endpoint and the bus to the service, and of the response back to the queue of the connection, in one run.
\<close>

subsection \<open>How the endpoint is wired\<close>

text \<open>What the configuration and the registrations of the endpoint fix for every run.\<close>

definition serverWiring :: "'h stompServer \<Rightarrow> 'h stompConfig \<times> nat list \<times> nat option" where
  "serverWiring t = (sv_config t, sv_applicationRequestCallbacks t, gm_get (sv_connectionEventCallbacks t) IncomingMessage)"

definition wired :: "endpointConfig \<Rightarrow> (string, 'h middleware list) gomap option \<Rightarrow> 'h fabricServer \<Rightarrow> bool" where
  "wired config registry s \<longleftrightarrow>
     serverWiring (fs_server s) = (endpointStompConfig config registry, [onRequestFn], None) \<and>
     fa_config (fs_fabric s) = completeConfig config"

lemma wiring_simps [simp]:
  "serverWiring (withConnection i g t) = serverWiring t" "serverWiring (logCalls cs t) = serverWiring t"
  "serverWiring (connectionCallback e t) = serverWiring t" "serverWiring (sendToOne ho late f p t) = serverWiring t"
  "serverWiring (fst (sendAPIEvent ae t)) = serverWiring t" "serverWiring (sendCloseEvent t) = serverWiring t"
  by (simp_all add: serverWiring_def withConnection_def logCalls_def connectionCallback_def sendToOne_def updConnection_def
      sendAPIEvent_def sendCloseEvent_def split: option.split)

lemma wiring_updates [simp]:
  "serverWiring (t\<lparr>sv_running := r\<rparr>) = serverWiring t" "serverWiring (t\<lparr>sv_accepting := r\<rparr>) = serverWiring t"
  "serverWiring (t\<lparr>sv_done := r\<rparr>) = serverWiring t" "serverWiring (t\<lparr>sv_connections := cs\<rparr>) = serverWiring t"
  "serverWiring (t\<lparr>sv_pending := ps\<rparr>) = serverWiring t" "serverWiring (t\<lparr>sv_connectionsMap := cm\<rparr>) = serverWiring t"
  "serverWiring (t\<lparr>sv_subscriptionsMap := sm\<rparr>) = serverWiring t" "serverWiring (t\<lparr>sv_connectionEvents := es\<rparr>) = serverWiring t"
  "serverWiring (t\<lparr>sv_apiEvents := aes\<rparr>) = serverWiring t" "serverWiring (t\<lparr>sv_panicked := r\<rparr>) = serverWiring t"
  by (simp_all add: serverWiring_def)

lemma wiring_folds [simp]:
  "serverWiring (foldl (\<lambda>t i. withConnection i g t) t is) = serverWiring t"
  "serverWiring (foldl (\<lambda>t p. sendToOne ho late f p t) t ps) = serverWiring t"
  "serverWiring (foldl (\<lambda>t x. sendOut ho x t) t xs) = serverWiring t"
  by (induction "is" arbitrary: t, simp_all) (induction ps arbitrary: t, simp_all, induction xs arbitrary: t,
    simp_all add: sendOut_def SendMessage_def SendMessageToClient_def split: serverSend.split)

lemma wiring_event: "serverWiring (handleConnectionEvent e t) = serverWiring t"
  by (simp add: handleConnectionEvent_def onConnectionStarting_def onConnectionClosed_def onSubscribeToTopic_def
      onUnsubscribeFromTopic_def onIncomingMessage_def Let_def split: sessionEvent.split option.split list.split)

lemma wiring_step: "serverWiring (serverStep ho parse t e) = serverWiring t"
  by (cases e)
     (simp_all add: acceptConnection_def announceConnection_def sendConnectionEvent_def serverStart_def serverStop_def runApiEvent_def
       withConnections_def sendFrame_def sendFrameToClient_def wiring_event split: list.split apiEvent.split)

lemma wiring_callback: "t \<noteq> IncomingMessage \<Longrightarrow> serverWiring (SetConnectionEventCallback t k v) = serverWiring v"
  by (simp add: serverWiring_def SetConnectionEventCallback_def)

lemma wired_step: "wired config registry s \<Longrightarrow> wired config registry (fabricServerStep ho parse enc dec s e)"
proof -
  assume w: "wired config registry s"
  have fabric: "wired config registry (withFabric ho (\<lambda>f. fabricStep enc dec f fe) u)" if "wired config registry u" for fe u
    using that fabricStep_framed [of "fs_fabric u" enc dec fe] by (simp add: wired_def withFabric_def Let_def framed_def)
  have server: "wired config registry (withServer g u)" if "wired config registry u" "\<And>t. serverWiring (g t) = serverWiring t" for g u
    using that by (simp add: wired_def withServer_def Let_def)
  have due: "wired config registry (s\<lparr>fs_due := cs\<rparr>)" for cs using w by (simp add: wired_def)
  show ?thesis
  proof (cases e)
    case (FsServer x)
    then show ?thesis using w server [OF w wiring_step] by simp
  next
    case (FsCallback ids)
    then show ?thesis using w due fabric [OF due] by (simp add: runCallback_def split: list.split option.split)
  next
    case (FsFabric x)
    then show ?thesis using w fabric by simp
  next
    case (FsStart x)
    then show ?thesis using w by (simp add: fabricStart_def wired_def serverStart_def wiring_callback split: option.split)
  next
    case FsStop
    have "serverWiring (serverStop t) = serverWiring t" for t :: "'a stompServer" by (simp add: serverStop_def)
    then show ?thesis using w server [OF fabric [OF w, of FaStop], of serverStop] FsStop by simp
  qed
qed

interpretation wiring: stepper "clientMove ho parse enc dec tidy" "wired config registry" for ho parse enc dec tidy config registry
  by unfold_locales (auto simp: clientMove_def intro: wired_step)

lemma wired_start: "wired config registry (FabricServer.newEndpoint b config registry)"
  by (simp add: wired_def FabricServer.newEndpoint_def serverWiring_def initHandlers_def OnUnsubscribeEvent_def OnSubscribeEvent_def
      OnApplicationRequest_def NewStompServer_def newFabricEndpoint_def)

text \<open>The server takes a SEND to the prefixes of the endpoint.\<close>

lemma private_destination_accepted:
  assumes "wired config registry s" and "p = ec_AppRequestQueuePrefix (fa_config (fs_fabric s))" and "p \<noteq> []"
  shows "IsAppRequestDestination (sv_config (fs_server s)) (p @ ch)"
proof -
  have conf: "cf_appDestPrefix (sv_config (fs_server s)) = cf_appDestPrefix (stompConfigOf (completeConfig config) :: 'a stompConfig)"
    using assms(1) by (simp add: wired_def serverWiring_def endpointStompConfig_def Let_def SetMiddlewareRegistry_def split: option.split)
  have p: "p = ensureTrailingSlash (ec_AppRequestQueuePrefix config)" using assms(1,2) by (simp add: wired_def completeConfig_def)
  have "HasSuffix (x @ ''/'') ''/''" for x by (simp add: HasSuffix_def)
  then have "(if p \<noteq> [] \<and> \<not> HasSuffix p ''/'' then p @ ''/'' else p) = p"
    using assms(3) unfolding p ensureTrailingSlash_def by auto
  moreover have "HasPrefix (p @ ch) p" by (simp add: HasPrefix_def)
  ultimately show ?thesis using assms(3)
    unfolding IsAppRequestDestination_def conf p by (simp add: stompConfigOf_def NewStompConfig_def completeConfig_def)
qed

subsection \<open>The request\<close>

lemma command_kept [simp]: "rq_RequestCommand (rq_setBrokerDestination d r) = rq_RequestCommand r"
  by (cases r) simp

lemma request_to_service:
  assumes "fs_due s = RequestCall onRequestFn (ec_AppRequestQueuePrefix (fa_config (fs_fabric s)) @ ch) body con # cs"
    and "ec_AppRequestQueuePrefix (fa_config (fs_fabric s)) \<noteq> []" and "fa_bus (fs_fabric s) = Some b"
    and "GetChannel ch (bu_mgr b) = Inr r" and "dec body = Inr req0"
    and "dest = ec_UserQueuePrefix (fa_config (fs_fabric s)) @ ch"
  shows "\<exists>msg. fabricServerStep ho parse enc dec s (FsCallback ids) =
       s\<lparr>fs_due := cs, fs_fabric := (fs_fabric s)\<lparr>fa_bus := Some (dispatchOn r None (Some CBackground) msg b)\<rparr>\<rparr> \<and>
     m_Direction msg = RequestDir \<and> m_Channel msg = ch \<and>
     requestOf msg = Some (rq_setBrokerDestination (Some (BrokerDestinationConfig dest con)) req0)"
  using assms
  by (intro exI [of _ "GenerateRequest (fi_msg ids) (buildConfig (fi_msg ids) ch
       (GRequestPtr (rq_setBrokerDestination (Some (BrokerDestinationConfig dest con)) req0)) None)"])
    (simp add: runCallback_def callEvent_def withFabric_def bridgeMessage_def needBus_def SendRequestMessage_def
      SendRequestMessageContext_def sendMessageContext_def normalizeContext_def ctxErrOf_def messageFor_def
      requestOf_def buildConfig_def GenerateRequest_def Let_def)

text \<open>What the event loop does with a private message, once it has been queued.\<close>

lemma private_message_queued:
  fixes s :: "'h fabricServer"
  assumes "tableOk (fs_server s)" and "fs_due s = []" and "sv_running (fs_server s)" and "\<not> sv_done (fs_server s)"
    and "sv_apiEvents (fs_server s) = []"
    and "fabricStep enc dec (fs_fabric s) e = sendToServer (ToClient con dest data) (fs_fabric s)" and "isOwnEvent e"
    and "\<not> mustWait (clientTargets (fs_server s) con dest) (fs_server s)"
    and "gm_get (sv_connections (fs_server s)) con = Some c" and "\<not> sn_done c"
    and "t = foldl (fabricServerStep ho parse enc dec) s [FsFabric e, FsServer (SvRunApi late env)]"
  shows "(\<exists>subs. gm_get (sv_connections (fs_server t)) con =
            Some (c\<lparr>sn_outFrames := sn_outFrames c @ map (frameFor ho (bodyFrame ho dest data)) subs\<rparr>) \<and>
          distinct (map su_id subs) \<and> set (map su_id subs) = {i. (dest, con, i) \<in> subsRel (fs_server s)}) \<and>
         (\<forall>i. i \<noteq> con \<longrightarrow> gm_get (sv_connections (fs_server t)) i = gm_get (sv_connections (fs_server s)) i)"
proof -
  let ?v = "fs_server s" and ?f = "bodyFrame ho dest data" and ?ps = "clientTargets (fs_server s) con dest"
  have "fs_server (fabricServerStep ho parse enc dec s (FsFabric e)) = ?v\<lparr>sv_apiEvents := [SendPrivate con dest ?f]\<rparr>"
    "fs_due (fabricServerStep ho parse enc dec s (FsFabric e)) = []"
    using assms(2-7) by (simp_all add: withFabric_def sendToServer_def sendOut_def SendMessageToClient_def sendAPIEvent_def)
  moreover have "clientTargets (?v\<lparr>sv_apiEvents := es\<rparr>) con dest = ?ps" "\<not> mustWait ?ps (?v\<lparr>sv_apiEvents := es\<rparr>)" for es
    using assms(8) by (simp_all add: clientTargets_def subscriptionsAt_def mustWait_def)
  ultimately have t: "fs_server t = foldl (\<lambda>u p. sendToOne ho late ?f p u) (?v\<lparr>sv_apiEvents := []\<rparr>) ?ps"
    using assms(4) by (simp add: assms(11) withServer_def runApiEvent_def sendFrameToClient_def)
  have own: "filter (\<lambda>p. fst p = con) ?ps = ?ps"
    by (auto simp: clientTargets_def subscriptionPairs_def filter_id_conv split: option.splits)
  have "(con, c) \<in> set (sv_connections ?v)" using assms(9) by (rule gm_get_SomeD)
  then have "?ps = [] \<or> length (sn_outFrames c) + length ?ps \<le> 32"
    using assms(8,10) own by (auto simp: mustWait_def list_all_iff roomFor_def)
  then have "gm_get (sv_connections (fs_server t)) con =
      Some (c\<lparr>sn_outFrames := sn_outFrames c @ map (\<lambda>p. frameFor ho ?f (snd p)) ?ps\<rparr>)"
    using sendAll_get [of "?v\<lparr>sv_apiEvents := []\<rparr>" con c ?ps ho late ?f] assms(9,10) by (simp add: t own)
  moreover have "gm_get (sv_connections (foldl (\<lambda>u p. sendToOne ho late ?f p u) w ps)) i = gm_get (sv_connections w) i"
    if "i \<noteq> con" "\<forall>p \<in> set ps. fst p = con" for i w ps
    using that by (induction ps arbitrary: w) (auto simp: sendToOne_get split: option.splits)
  moreover have "\<forall>p \<in> set ?ps. fst p = con" using own unfolding filter_id_conv by blast
  ultimately show ?thesis using clientTargets_ids [OF assms(1), of con dest]
    by (intro conjI exI [of _ "map snd ?ps"]) (simp_all add: comp_def t)
qed

text \<open>A SEND frame of an open connection becomes an event of it.\<close>

definition sendsTo :: "'h headerOps \<Rightarrow> 'h stompFrame \<Rightarrow> string \<Rightarrow> bool" where
  "sendsTo ho f d \<longleftrightarrow>
     fr_Command f = ''SEND'' \<and> ho_contains ho (fr_Header f) ''destination'' = Some d \<and>
     ho_contains ho (fr_Header f) ''transaction'' = None \<and> ho_contains ho (fr_Header f) ''receipt'' = None"

definition openConnection :: "'h stompConn \<Rightarrow> bool" where
  "openConnection c \<longleftrightarrow> sn_running c \<and> sn_state c = Connected \<and> \<not> sn_done c"

lemma send_frame_event:
  assumes "headerLaws ho" and "sendsTo ho f d" and "openConnection c" and "en_event env" and "\<not> en_closes env"
    and "IsAppRequestDestination cfg d"
  shows "connStep ho parse cfg c (InFrame env f) =
     c\<lparr>sn_events := sn_events c @ [eventOf c IncomingMessage d None (Some (f\<lparr>fr_Command := ''MESSAGE''\<rparr>))]\<rparr>"
proof -
  have "ho_get ho (fr_Header f) ''destination'' = d" using assms(1,2) by (simp add: headerLaws_def sendsTo_def)
  then show ?thesis using assms(2-6)
    by (simp add: sendsTo_def openConnection_def handleIncomingFrame_def handleSend_def containsHeader_def sendReceiptResponse_def
        closedMeanwhile_def sendEvent_def)
qed

text \<open>The server after its connection has read the frame and the event loop has handled the event.\<close>

definition afterEvent :: "string \<Rightarrow> 'h stompConn \<Rightarrow> 'h serverCall \<Rightarrow> 'h stompServer \<Rightarrow> 'h stompServer" where
  "afterEvent con c1 call v =
     v\<lparr>sv_connections := gm_set con c1 (sv_connections v), sv_calls := sv_calls v @ [call]\<rparr>"

lemma frame_to_callback:
  assumes "headerLaws ho" and "wired config registry s" and "fs_due s = []" and "\<not> sv_done (fs_server s)"
    and "sv_connectionEvents (fs_server s) = []" and "gm_get (sv_connections (fs_server s)) con = Some c"
    and "sn_id c = con" and "openConnection c" and "sendsTo ho f d" and "en_event env" and "\<not> en_closes env"
    and "p = ec_AppRequestQueuePrefix (fa_config (fs_fabric s))" and "p \<noteq> []" and "d = p @ ch"
    and "c1 = c\<lparr>sn_events := sn_events c @ [eventOf c IncomingMessage d None (Some (f\<lparr>fr_Command := ''MESSAGE''\<rparr>))]\<rparr>"
  shows "foldl (fabricServerStep ho parse enc dec) s [FsServer (SvConnection con (InFrame env f)), FsServer SvRunConnection] =
     s\<lparr>fs_server := afterEvent con c1 (RequestCall onRequestFn d (fr_Body f) con) (fs_server s),
       fs_due := [RequestCall onRequestFn d (fr_Body f) con]\<rparr>"
proof -
  let ?v = "fs_server s"
  have app: "IsAppRequestDestination (sv_config ?v) d"
    unfolding assms(14) by (rule private_destination_accepted [OF assms(2,12,13)])
  have step: "connStep ho parse (sv_config ?v) c (InFrame env f) = c1"
    unfolding assms(15) by (rule send_frame_event [OF assms(1,9,8,10,11) app])
  have cbs: "sv_applicationRequestCallbacks ?v = [onRequestFn]" "gm_get (sv_connectionEventCallbacks ?v) IncomingMessage = None"
    using assms(2) by (simp_all add: wired_def serverWiring_def)
  have "sn_events c1 = sn_events c @ [eventOf c IncomingMessage d None (Some (f\<lparr>fr_Command := ''MESSAGE''\<rparr>))]"
    by (simp add: assms(15))
  then show ?thesis using assms(3-7) app cbs step
    by (simp add: isLoopStep_def withServer_def withConnection_def handleConnectionEvent_def onIncomingMessage_def eventOf_def
        connectionCallback_def logCalls_def afterEvent_def del: connStep.simps)
qed

text \<open>Steps of the bus leave the rest of the endpoint and its server alone.\<close>

lemma bus_step_alone:
  assumes "fa_bus (fs_fabric s) = Some b"
  shows "foldl (fabricServerStep ho parse enc dec) s (map (\<lambda>e. FsFabric (FaBus br e)) es) =
     s\<lparr>fs_fabric := (fs_fabric s)\<lparr>fa_bus := Some (foldl (busStep br) b es)\<rparr>\<rparr>"
  using assms by (induction es arbitrary: s b) (simp_all add: isOwnEvent_def withFabric_def onBus_def Let_def)

lemma room_kept:
  assumes "gm_get (sv_connections v) con = Some c" and "sn_done c1 = sn_done c" and "sn_outFrames c1 = sn_outFrames c"
    and "\<not> mustWait ps v"
  shows "\<not> mustWait ps (afterEvent con c1 call v)"
proof -
  have old: "list_all (roomFor ps) (sv_connections v)" using assms(4) by (simp add: mustWait_def)
  have "(con, c) \<in> set (sv_connections v)" using assms(1) by (rule gm_get_SomeD)
  then have "roomFor ps (con, c)" using old by (simp add: list_all_iff)
  then have "roomFor ps (con, c1)" using assms(2,3) by (simp add: roomFor_def)
  then show ?thesis using old gm_set_subset [of con c1 "sv_connections v"]
    by (auto simp: mustWait_def afterEvent_def list_all_iff)
qed


text \<open>A client that has subscribed to its queue, and the service's stream on the channel.\<close>

definition pingFrame :: "(string \<times> string) list stompFrame" where
  "pingFrame = \<lparr>fr_Command = ''SEND'', fr_Header = [(''destination'', ''/pub/queue/ping-pong-service'')], fr_Body = ''hi''\<rparr>"

definition decodePing :: "string \<Rightarrow> request res" where
  "decodePing t = Inr (Request None [] (GString t) ''ping-get'' None)"

abbreviation pingStep :: "(string \<times> string) list fabricServer \<Rightarrow> (string \<times> string) list fabricServerEv \<Rightarrow> (string \<times> string) list fabricServer" where
  "pingStep \<equiv> fabricServerStep listHeaders (parseTo (1000000, 9000000)) encodeText decodePing"

definition pingEvents :: "(string \<times> string) list fabricServerEv list" where
  "pingEvents =
     [FsStart None, FsServer (SvAccept ''10.0.0.1:80'' ''c'' None), FsServer (SvAnnounce okEnv), FsServer SvRunConnection,
      FsCallback plainIds, FsServer (SvConnection ''c'' (InFrame okEnv connectFrame)), FsServer SvRunConnection,
      FsServer (SvConnection ''c'' (InFrame okEnv (subscribeFrame ''s'' ''/user/ping-pong-service''))), FsServer SvRunConnection,
      FsCallback plainIds,
      FsFabric (FaBus demoOracle (EvNewHandler PingPongServiceChan (zeroOptions\<lparr>mo_direction := RequestDir, mo_ignoreId := True\<rparr>) (1, 2, 3))),
      FsFabric (FaBus demoOracle (EvHandle 1 None (Some 7) None 4))]"

definition pingClient :: "(string \<times> string) list fabricServer" where
  "pingClient = foldl pingStep clientStart pingEvents"

lemma untidy_run: "(clientMove ho parse enc dec False)\<^sup>*\<^sup>* s (foldl (fabricServerStep ho parse enc dec) s es)"
proof (induction es rule: rev_induct)
  case (snoc e es)
  have "clientMove ho parse enc dec False (foldl (fabricServerStep ho parse enc dec) s es) (foldl (fabricServerStep ho parse enc dec) s (es @ [e]))"
    by (auto simp: clientMove_def)
  with snoc show ?case by (rule rtranclp.rtrancl_into_rtrancl)
qed simp

lemma pingClient_reached:
  "(clientMove listHeaders (parseTo (1000000, 9000000)) encodeText decodePing False)\<^sup>*\<^sup>* (FabricServer.newEndpoint (Some newBus) sampleEndpoint None) pingClient"
  unfolding pingClient_def clientStart_def by (rule untidy_run)

definition stompGoroutine :: "(string \<times> string) list fabricServerEv list" where
  "stompGoroutine = map (\<lambda>e. FsFabric (FaBus demoOracle e)) (replicate (Suc (length [0 :: ref, 1]))
     (EvDeliver (length (bu_gor (the (fa_bus (fs_fabric pingClient)))))))"


end
