(* ===== verification/Spec2Isabelle.thy ===== *)
theory Spec2Isabelle
  imports Messages MonitorEvents Activity Delivery BusFacts Transaction StoreSyncFacts StompServerFacts FabricFacts ServicesFacts BridgeFacts PlankFacts
    BridgeRegistryFacts SetupFacts WsListenerFacts PingPongFacts FabricServerFacts Decoding RawConnFacts StompPingFacts
begin

text \<open>
  Verification of pb33f/ranch: a message bus for one process, stores that are synchronised over it, a STOMP
  server and a broker client that extend it over sockets, services that answer requests on its channels,
  and Plank, an HTTP server that bridges REST endpoints and topics to these services. All paths are
  under src/.

  \<^bold>\<open>How the program works.\<close> A channel (bus/channel.go) is a list of handlers that is copied on every write; a
  send takes the list as it is and a goroutine delivers the message. The channel manager
  (bus/channel_manager.go) keeps channels by name, the event bus (bus/eventbus.go) wraps functions into
  handlers that filter by direction and id (bus/message_handler.go). Transactions (bus/tx) run requests and
  store waits one after another or at once. Stores (store/) keep items, tell streams about changes, and
  copy each other through the sync service. The STOMP server (stompserver/) runs one loop for its events
  and one for each connection; the fabric endpoint (transport/fabric) subscribes clients to channels of
  the bus. Services (service/) register with a registry and answer through a core; the lifecycle manager
  announces their REST endpoints. The Plank server (plank/pkg/server) owns all of them with a router
  (plank/pkg/routing), middleware (plank/pkg/middleware) and a rate limiter (plank/pkg/ratelimit).

  \<^bold>\<open>Where what is modelled.\<close> A theory \<open>X\<close> holds definitions, \<open>XFacts\<close> the theorems about them.
  \<^item> \<open>Prelude\<close>: Go's maps, strings, contexts; the locales \<open>keyed_store\<close>, \<open>stepper\<close>, \<open>machine\<close>,
    \<open>monotone_machine\<close> and others, which state the contracts that the components meet; proof hints.
    \<open>Http\<close>: what the code uses of net/http (headers, response writers, \<open>ServeMux\<close>). \<open>Paths\<close>: plank/utils
    and the functions of path/filepath that it calls.
  \<^item> \<open>Messages\<close>: model/ (directions, messages, requests, responses); \<open>Decoding\<close>: how it decodes payloads.
    \<open>MonitorEvents\<close>: monitor/ and the listeners of the bus.
  \<^item> \<open>Channel\<close>, \<open>ChannelManager\<close>, \<open>MessageBus\<close>: bus/channel.go, channel_manager.go, eventbus.go and
    message_handler.go as functions on records; \<open>Activity\<close> and \<open>Delivery\<close> the same code at the grain of
    atomic accesses, as step relations over any number of goroutines; \<open>Transaction\<close>: bus/tx.
    \<open>BusFacts\<close> and these theories show that a once-handler is called once, that a wait for quiescence
    returns exactly when the deliveries before it have ended and loses no wake-up, that the wait group
    counts deliveries, and which outcome every transaction has.
  \<^item> \<open>Store\<close>, \<open>StoreSync\<close>: store/. The facts: who hears a change, and that a galactic store that receives
    content and updates is a copy of the store it follows.
  \<^item> \<open>StompConn\<close>, \<open>StompServer\<close>, \<open>WsListener\<close>: stompserver/, a connection with its middleware, the server with
    all its connections, the listener that upgrades HTTP requests. \<open>RawConn\<close>: how bytes become frames of a
    connection over TCP or WebSocket, and the server with either listener, which refines both. The facts: the
    protocol's lifecycle, the refinement of the subscription maps to a relation, who receives a message, which frames
    reach a connection, how tracked addresses add up.
  \<^item> \<open>Fabric\<close>: transport/fabric over the model of the bus. \<open>FabricServer\<close>: the endpoint with its STOMP server,
    callbacks between their steps. The facts: a channel is forwarded once, the mappings follow the
    subscriptions, a message of the bus reaches the subscribed clients. \<open>StompPingFacts\<close> follows a client's request over server,
    endpoint and bus to a service, and the response back to that client alone.
  \<^item> \<open>Services\<close>, \<open>RestService\<close>, \<open>PingPong\<close>: service/ and plank/services. The facts: which messages reach a
    service, where its responses go, what the REST service answers on every branch, and what an HTTP
    client of the ping-pong service gets.
  \<^item> \<open>Bridge\<close>: bridge/, a connection to a broker over WebSocket or TCP. The facts: messages are handed to
    the readers in order, and where a reader that stays away stops the connection.
  \<^item> \<open>Routing\<close>, \<open>Middleware\<close>, \<open>RateLimit\<close> with \<open>PlankFacts\<close>: the router answers from its routes as they are,
    middleware can be taken off again, the limiter treats keys apart.
  \<^item> \<open>RestBridge\<close> with \<open>RestBridgeFacts\<close> and \<open>BridgeRegistryFacts\<close>: bridged endpoints and the requests that wait
    on them. \<open>ServerConfig\<close>, \<open>RouterErrors\<close> with \<open>ServerFacts\<close>: configuration, flags, error policies, single page
    application. \<open>PlankServer\<close> with \<open>PlankServerFacts\<close>, \<open>ServiceRoutes\<close> and \<open>SetupFacts\<close>: the server over all
    of the above; in every run its parts agree on the router, bridged endpoints are served, routes to topics
    belong to registered services.

  \<^bold>\<open>Conventions.\<close> Objects that several holders share are references into a heap of the state; a locked section,
  an atomic access or a callback is one step; goroutines are entries of lists, so that any interleaving is
  a sequence of steps. A result that may be an error is \<open>err + 'a\<close>, a panic is \<open>None\<close> or a flag of the state.
  Ids come from an argument of the step that draws them. Functions of libraries (JSON, URL parsing, the
  STOMP frame headers, \<open>time/rate\<close>, glob patterns, sockets, files) are arguments; what a theorem needs of them
  is a named hypothesis with an instance in its witness.

  \<^bold>\<open>Bounds.\<close> Sequence counters and durations are 64-bit words. The waiter of \<open>Activity\<close> needs at most five of
  its own steps once no delivery is outstanding. A payload channel of a REST bridge holds 100 messages.
  Timeouts of a configuration file are exact up to 153722867 minutes. Recursion is over lists and fuel is used
  nowhere.

  \<^bold>\<open>Not modelled.\<close> Sockets, TLS and files: their answers are arguments or choices of a step. \<open>ServeMux\<close> with
  hosts, percent-encoding, and bodies of redirects. Payloads are values: that two holders of a pointer
  see each other's writes is not modelled. Loggers, the profiler, the port probe, command-line parsing of
  cobra and viper's environment variables, stack frames (plank/utils/runtime.go), the test harness and its
  certificates: they only call libraries. Interfaces and plain getters have no definition of their own.
\<close>

end
